(* ===== verification/Pwr_Prelude.thy ===== *)
theory Pwr_Prelude
  imports Complex_Main "HOL-Library.Word" "HOL-Library.Sublist"
begin

text \<open>
  Shared vocabulary of the development.

  A C function that may not return normally is modelled with result type
  \<open>'a res = trap + 'a\<close>: \<open>Inr\<close> carries the returned values (and the new state), \<open>Inl\<close> says
  why control never came back: a failed \<^verbatim>\<open>assert\<close>, a call of \<^verbatim>\<open>exit\<close>, a memory access
  outside its object, a use of a variable that was never written, a double \<^verbatim>\<open>free\<close>, a call
  through a null function pointer, a signed overflow, a division by zero, a loop that never ends, or a C++
  exception nobody catches.  The C type \<^verbatim>\<open>double\<close> is modelled by \<open>real\<close>: rounding,
  infinities and NaN are not modelled.  \<^verbatim>\<open>int\<close>-valued codes and counters are \<open>int\<close>;
  integers whose wrap-around matters (time stamps, machine registers) are words.
\<close>

datatype trap =
    AssertFailed
  | ExitFatal
  | MemoryFault
  | UninitRead
  | DoubleFree
  | NullCall
  | SignedOverflow
  | DivByZero
  | Diverges
  | Uncaught

type_synonym 'a res = "trap + 'a"

definition rbind :: "'a res \<Rightarrow> ('a \<Rightarrow> 'b res) \<Rightarrow> 'b res" where
  "rbind m f = (case m of Inl e \<Rightarrow> Inl e | Inr x \<Rightarrow> f x)"

definition c_assert :: "bool \<Rightarrow> 'a res \<Rightarrow> 'a res" where
  "c_assert b m = (if b then m else Inl AssertFailed)"

named_theorems res_simps \<open>unfolding the sequencing of fallible steps\<close>
named_theorems clib_simps \<open>evaluating the C library on closed strings\<close>

lemma rbind_Inl [simp]: "rbind (Inl e) f = Inl e"
  by (simp add: rbind_def)

lemma rbind_Inr [simp]: "rbind (Inr x) f = f x"
  by (simp add: rbind_def)

lemma rbind_eq_Inr_iff: "rbind m f = Inr y \<longleftrightarrow> (\<exists>x. m = Inr x \<and> f x = Inr y)"
  by (cases m) auto

lemma rbind_eq_InrE:
  assumes "rbind m f = Inr y"
  obtains x where "m = Inr x" and "f x = Inr y"
  using assms by (auto simp: rbind_eq_Inr_iff)

lemma rbind_eq_Inl_iff:
  "rbind m f = Inl e \<longleftrightarrow> m = Inl e \<or> (\<exists>x. m = Inr x \<and> f x = Inl e)"
  by (cases m) auto

lemma rbind_assoc: "rbind (rbind m f) g = rbind m (\<lambda>x. rbind (f x) g)"
  by (cases m) simp_all

lemma c_assert_True [simp]: "c_assert True m = m"
  by (simp add: c_assert_def)

lemma c_assert_False [simp]: "c_assert False m = Inl AssertFailed"
  by (simp add: c_assert_def)

lemma c_assert_eq_Inr_iff: "c_assert b m = Inr y \<longleftrightarrow> b \<and> m = Inr y"
  by (simp add: c_assert_def)

lemmas [res_simps] = rbind_eq_Inr_iff rbind_eq_Inl_iff c_assert_eq_Inr_iff

text \<open>Splitting a result by its two shapes, for \<open>auto\<close> and \<open>simp\<close>.\<close>

lemma rbind_split:
  "P (rbind m f) \<longleftrightarrow>
     (\<forall>e. m = Inl e \<longrightarrow> P (Inl e)) \<and> (\<forall>x. m = Inr x \<longrightarrow> P (f x))"
  by (cases m) simp_all

lemma rbind_split_asm:
  "P (rbind m f) \<longleftrightarrow>
     \<not> ((\<exists>e. m = Inl e \<and> \<not> P (Inl e)) \<or> (\<exists>x. m = Inr x \<and> \<not> P (f x)))"
  by (cases m) simp_all

text \<open>Updating a C array by index: writing outside it is a memory fault.\<close>

definition arr_get :: "'a list \<Rightarrow> nat \<Rightarrow> 'a res" where
  "arr_get xs i = (if i < length xs then Inr (xs ! i) else Inl MemoryFault)"

definition arr_set :: "'a list \<Rightarrow> nat \<Rightarrow> 'a \<Rightarrow> 'a list res" where
  "arr_set xs i x = (if i < length xs then Inr (xs[i := x]) else Inl MemoryFault)"

lemma arr_get_ok: "i < length xs \<Longrightarrow> arr_get xs i = Inr (xs ! i)"
  by (simp add: arr_get_def)

lemma arr_set_ok: "i < length xs \<Longrightarrow> arr_set xs i x = Inr (xs[i := x])"
  by (simp add: arr_set_def)

lemma arr_set_eq_Inr_iff:
  "arr_set xs i x = Inr ys \<longleftrightarrow> i < length xs \<and> ys = xs[i := x]"
  by (auto simp: arr_set_def)

lemma arr_get_eq_Inr_iff: "arr_get xs i = Inr y \<longleftrightarrow> i < length xs \<and> y = xs ! i"
  by (auto simp: arr_get_def)

lemmas [res_simps] = arr_set_eq_Inr_iff arr_get_eq_Inr_iff

text \<open>A length-preserving scan used by several loops over device lists.\<close>

lemma list_all2_nthI:
  "length xs = length ys \<Longrightarrow> (\<And>i. i < length ys \<Longrightarrow> P (xs ! i) (ys ! i)) \<Longrightarrow>
   list_all2 P xs ys"
  by (simp add: list_all2_conv_all_nth)

end
