(* ===== verification/C_Lib.thy ===== *)
theory C_Lib
  imports Pwr_Prelude
begin

text \<open>
  The part of the C library and of the operating system the program uses: printing and
  reading numbers (\<^verbatim>\<open>snprintf\<close>, \<^verbatim>\<open>atoi\<close>, \<^verbatim>\<open>sscanf\<close>, \<^verbatim>\<open>atof\<close>), searching and splitting
  strings (\<^verbatim>\<open>strstr\<close>, \<^verbatim>\<open>strtok\<close>), files, and the clock.  A string is the list of its characters
  before the terminating null.
\<close>

subsection \<open>Decimal numbers\<close>

definition digit_char :: "nat \<Rightarrow> char" where
  "digit_char d = char_of (48 + d)"

definition char_code :: "char \<Rightarrow> nat" where
  "char_code c = of_char c"

definition is_digit :: "char \<Rightarrow> bool" where
  "is_digit c \<longleftrightarrow> 48 \<le> char_code c \<and> char_code c \<le> 57"

definition digit_val :: "char \<Rightarrow> nat" where
  "digit_val c = char_code c - 48"

definition is_space :: "char \<Rightarrow> bool" where
  "is_space c \<longleftrightarrow> char_code c = 32 \<or> (9 \<le> char_code c \<and> char_code c \<le> 13)"

fun show_nat :: "nat \<Rightarrow> string" where
  "show_nat n = (if n < 10 then [digit_char n] else show_nat (n div 10) @ [digit_char (n mod 10)])"

declare show_nat.simps [simp del]

definition show_int :: "int \<Rightarrow> string" where
  "show_int i = (if i < 0 then CHR ''-'' # show_nat (nat (- i)) else show_nat (nat i))"

fun read_digits :: "nat \<Rightarrow> string \<Rightarrow> nat \<times> string" where
  "read_digits acc [] = (acc, [])"
| "read_digits acc (c # cs) =
     (if is_digit c then read_digits (10 * acc + digit_val c) cs else (acc, c # cs))"

definition skip_space :: "string \<Rightarrow> string" where
  "skip_space s = dropWhile is_space s"

text \<open>An optional sign followed by at least one digit; what follows is left unread.\<close>

definition scan_unsigned :: "string \<Rightarrow> (nat \<times> string) option" where
  "scan_unsigned s =
     (case s of [] \<Rightarrow> None | c # _ \<Rightarrow> if is_digit c then Some (read_digits 0 s) else None)"

definition scan_int :: "string \<Rightarrow> (int \<times> string) option" where
  "scan_int s =
     (case skip_space s of
        [] \<Rightarrow> None
      | c # cs \<Rightarrow>
          if c = CHR ''-'' then map_option (\<lambda>(n, r). (- int n, r)) (scan_unsigned cs)
          else if c = CHR ''+'' then map_option (\<lambda>(n, r). (int n, r)) (scan_unsigned cs)
          else map_option (\<lambda>(n, r). (int n, r)) (scan_unsigned (c # cs)))"

text \<open>
  A \<^verbatim>\<open>long\<close> saturates at its limits (\<^verbatim>\<open>strtol\<close>); an \<^verbatim>\<open>int\<close> is the low half of that
  \<^verbatim>\<open>long\<close>, as \<^verbatim>\<open>atoi\<close> and \<^verbatim>\<open>%d\<close> store it.
\<close>

definition c_long :: "int \<Rightarrow> int" where
  "c_long i = max (- (2 ^ 63)) (min (2 ^ 63 - 1) i)"

definition c_int :: "int \<Rightarrow> int" where
  "c_int i = signed_take_bit 31 (c_long i)"

definition atol :: "string \<Rightarrow> int" where
  "atol s = (case scan_int s of None \<Rightarrow> 0 | Some (i, _) \<Rightarrow> c_long i)"

definition atoi :: "string \<Rightarrow> int" where
  "atoi s = (case scan_int s of None \<Rightarrow> 0 | Some (i, _) \<Rightarrow> c_int i)"

text \<open>\<^verbatim>\<open>sscanf(s, "%d", ..)\<close> and \<^verbatim>\<open>sscanf(s, "%d %d", ..)\<close>: \<open>None\<close> is a variable not stored.\<close>

definition sscanf_d :: "string \<Rightarrow> int option" where
  "sscanf_d s = map_option (c_int \<circ> fst) (scan_int s)"

definition sscanf_d_d :: "string \<Rightarrow> int option \<times> int option" where
  "sscanf_d_d s =
     (case scan_int s of
        None \<Rightarrow> (None, None)
      | Some (i, r) \<Rightarrow> (Some (c_int i), map_option (c_int \<circ> fst) (scan_int r)))"

text \<open>\<^verbatim>\<open>sscanf(s, "<literal>%d", ..)\<close>: the literal must match the start of the input.\<close>

definition sscanf_lit_d :: "string \<Rightarrow> string \<Rightarrow> int option" where
  "sscanf_lit_d lit s =
     (if prefix lit s then sscanf_d (drop (length lit) s) else None)"

text \<open>The conversions \<^verbatim>\<open>%s\<close>, \<^verbatim>\<open>%*s\<close> and \<^verbatim>\<open>%ms\<close>: a word and what follows it.\<close>

definition scan_word :: "string \<Rightarrow> (string \<times> string) option" where
  "scan_word s =
     (let t = skip_space s
      in if t = [] then None
         else Some (takeWhile (\<lambda>c. \<not> is_space c) t, dropWhile (\<lambda>c. \<not> is_space c) t))"

text \<open>\<^verbatim>\<open>fscanf(fp, "%lld", ..)\<close>: nothing but white space is the end of file, anything unreadable stores nothing.\<close>

datatype 'a scan = ScanEOF | ScanFail | Scanned 'a

definition fscanf_lld :: "string \<Rightarrow> int scan" where
  "fscanf_lld s =
     (if skip_space s = [] then ScanEOF
      else case scan_int s of None \<Rightarrow> ScanFail | Some (i, _) \<Rightarrow> Scanned (c_long i))"

text \<open>Subtraction of \<^verbatim>\<open>long long\<close> values.\<close>

definition ll_sub :: "int \<Rightarrow> int \<Rightarrow> int res" where
  "ll_sub a b = (if - (2 ^ 63) \<le> a - b \<and> a - b < 2 ^ 63 then Inr (a - b) else Inl SignedOverflow)"

subsection \<open>Hexadecimal numbers\<close>

definition is_xdigit :: "char \<Rightarrow> bool" where
  "is_xdigit c \<longleftrightarrow> is_digit c \<or> (65 \<le> char_code c \<and> char_code c \<le> 70) \<or> (97 \<le> char_code c \<and> char_code c \<le> 102)"

definition xdigit_val :: "char \<Rightarrow> nat" where
  "xdigit_val c =
     (if is_digit c then digit_val c else if char_code c \<le> 70 then char_code c - 55 else char_code c - 87)"

fun read_xdigits :: "nat \<Rightarrow> string \<Rightarrow> nat" where
  "read_xdigits acc [] = acc"
| "read_xdigits acc (c # cs) = (if is_xdigit c then read_xdigits (16 * acc + xdigit_val c) cs else acc)"

definition drop_0x :: "string \<Rightarrow> string" where
  "drop_0x s = (case s of a # b # r \<Rightarrow> if a = CHR ''0'' \<and> (b = CHR ''x'' \<or> b = CHR ''X'') then r else s | _ \<Rightarrow> s)"

definition scan_xdigits :: "string \<Rightarrow> nat option" where
  "scan_xdigits s =
     (case drop_0x s of [] \<Rightarrow> None | c # cs \<Rightarrow> if is_xdigit c then Some (read_xdigits 0 (c # cs)) else None)"

text \<open>\<^verbatim>\<open>sscanf(s, "%lx", ..)\<close>: values above the largest \<^verbatim>\<open>unsigned long\<close> saturate, a minus sign negates.\<close>

definition c_ulong :: "nat \<Rightarrow> 64 word" where
  "c_ulong n = of_nat (min n (2 ^ 64 - 1))"

definition sscanf_lx :: "string \<Rightarrow> 64 word option" where
  "sscanf_lx s =
     (case skip_space s of
        [] \<Rightarrow> None
      | c # cs \<Rightarrow>
          if c = CHR ''-'' then map_option (\<lambda>n. - c_ulong n) (scan_xdigits cs)
          else if c = CHR ''+'' then map_option c_ulong (scan_xdigits cs)
          else map_option c_ulong (scan_xdigits (c # cs)))"

text \<open>\<^verbatim>\<open>sscanf(s, "%lu", ..)\<close>.\<close>

definition sscanf_lu :: "string \<Rightarrow> 64 word option" where
  "sscanf_lu s =
     (case scan_int s of
        None \<Rightarrow> None
      | Some (i, _) \<Rightarrow> Some (if i < 0 then - c_ulong (nat (- i)) else c_ulong (nat i)))"

definition xdigit_char :: "nat \<Rightarrow> char" where
  "xdigit_char d = (if d < 10 then digit_char d else char_of (87 + d))"

fun show_hex :: "nat \<Rightarrow> string" where
  "show_hex n = (if n < 16 then [xdigit_char n] else show_hex (n div 16) @ [xdigit_char (n mod 16)])"

declare show_hex.simps [simp del]

subsection \<open>Strings and buffers\<close>

fun strstr :: "string \<Rightarrow> string \<Rightarrow> string option" where
  "strstr needle [] = (if needle = [] then Some [] else None)"
| "strstr needle (c # cs) =
     (if prefix needle (c # cs) then Some (c # cs) else strstr needle cs)"

definition contains_str :: "string \<Rightarrow> string \<Rightarrow> bool" where
  "contains_str needle hay \<longleftrightarrow> strstr needle hay \<noteq> None"

lemma strstr_prefix: "strstr needle s = Some r \<Longrightarrow> prefix needle r"
  by (induction s) (auto split: if_splits)

lemma strstr_suffix: "strstr needle s = Some r \<Longrightarrow> \<exists>p. s = p @ r"
proof (induction s)
  case (Cons c s)
  show ?case
  proof (cases "prefix needle (c # s)")
    case False
    with Cons show ?thesis by (auto intro: exI [of _ "c # _"])
  qed (use Cons in auto)
qed (auto split: if_splits)

lemma strstr_length: "strstr needle s = Some r \<Longrightarrow> length r \<le> length s"
  using strstr_suffix by fastforce

lemma strstr_no_head: "c \<notin> set s \<Longrightarrow> strstr (c # cs) s = None"
  by (induction s) auto

text \<open>\<^verbatim>\<open>strtok\<close>: the next token and what is left for the following call.\<close>

definition strtok :: "string \<Rightarrow> string \<Rightarrow> (string \<times> string) option" where
  "strtok delim s =
     (let t = dropWhile (\<lambda>c. c \<in> set delim) s
      in if t = [] then None
         else Some (takeWhile (\<lambda>c. c \<notin> set delim) t,
                    drop 1 (dropWhile (\<lambda>c. c \<notin> set delim) t)))"

text \<open>
  \<^verbatim>\<open>snprintf(buf, len, ..)\<close> keeps at most \<open>len - 1\<close> characters and always terminates;
  \<^verbatim>\<open>strncpy(buf, s, len)\<close> copies at most \<open>len\<close> characters and terminates only when \<open>s\<close> is
  shorter than \<open>len\<close>: \<open>None\<close> stands for a buffer without a terminator.
\<close>

definition snprintf :: "nat \<Rightarrow> string \<Rightarrow> string" where
  "snprintf len s = take (len - 1) s"

definition strncpy :: "nat \<Rightarrow> string \<Rightarrow> string option" where
  "strncpy len s = (if length s < len then Some s else None)"

subsection \<open>Files, the clock and the machine registers\<close>

datatype fnode = Dir | Regular (contents: string)

record timeval =
  tv_sec :: int
  tv_usec :: int

text \<open>
  \<open>files\<close> maps a path that can be opened for reading to what is there; \<open>can_write\<close> says whether
  opening a regular file for writing succeeds; \<open>store\<close> is the kernel's behaviour when bytes are
  written to a path whose contents are given: \<open>None\<close> when \<^verbatim>\<open>write\<close> fails, else the new contents.
  \<open>wlog\<close> lists the successful writes, oldest first.  \<open>fds\<close> counts the open descriptors (the limit
  on them is not modelled).  \<open>clock\<close> is the value of each call of \<^verbatim>\<open>gettimeofday\<close>, and \<open>ticks\<close>
  counts the calls made.  \<open>msr\<close> gives the 8 bytes at an offset of a register file (\<open>None\<close> when
  fewer can be read).
\<close>

record os =
  files :: "string \<rightharpoonup> fnode"
  can_write :: "string \<Rightarrow> bool"
  store :: "string \<Rightarrow> string \<Rightarrow> string \<Rightarrow> string option"
  wlog :: "(string \<times> string) list"
  fds :: nat
  clock :: "nat \<Rightarrow> timeval"
  ticks :: nat
  msr :: "string \<Rightarrow> nat \<Rightarrow> 64 word option"

definition gettimeofday :: "os \<Rightarrow> timeval \<times> os" where
  "gettimeofday w = (clock w (ticks w), w\<lparr>ticks := Suc (ticks w)\<rparr>)"

definition open_rd :: "os \<Rightarrow> string \<Rightarrow> (fnode \<times> os) option" where
  "open_rd w path = map_option (\<lambda>n. (n, w\<lparr>fds := Suc (fds w)\<rparr>)) (files w path)"

definition open_wr :: "os \<Rightarrow> string \<Rightarrow> os option" where
  "open_wr w path =
     (case files w path of
        Some (Regular c) \<Rightarrow> if can_write w path then Some (w\<lparr>fds := Suc (fds w)\<rparr>) else None
      | _ \<Rightarrow> None)"

definition sys_close :: "os \<Rightarrow> os" where
  "sys_close w = w\<lparr>fds := fds w - 1\<rparr>"

definition write_file :: "os \<Rightarrow> string \<Rightarrow> string \<Rightarrow> os option" where
  "write_file w path data =
     (case files w path of
        Some (Regular c) \<Rightarrow>
          (case store w path data c of
             None \<Rightarrow> None
           | Some c' \<Rightarrow> Some (w\<lparr>files := (files w)(path \<mapsto> Regular c'),
                               wlog := wlog w @ [(path, data)]\<rparr>))
      | _ \<Rightarrow> None)"

text \<open>
  The time stamp most plugins store: \<^verbatim>\<open>tv.tv_sec*1000000000ULL + tv.tv_usec*1000\<close>, computed in
  64-bit unsigned arithmetic; \<^verbatim>\<open>PWR_Time\<close> is a signed 64-bit integer, read with \<open>sint\<close>.
\<close>

type_synonym pwr_time = "64 word"

definition time_ns :: "timeval \<Rightarrow> pwr_time" where
  "time_ns tv = word_of_int (tv_sec tv) * 1000000000 + word_of_int (tv_usec tv * 1000)"

text \<open>Storing a \<^verbatim>\<open>double\<close> into a \<^verbatim>\<open>PWR_Time\<close> truncates towards zero.\<close>

definition trunc :: "real \<Rightarrow> int" where
  "trunc x = (if x < 0 then - \<lfloor>- x\<rfloor> else \<lfloor>x\<rfloor>)"

definition time_of_double :: "real \<Rightarrow> pwr_time" where
  "time_of_double x = word_of_int (trunc x)"

text \<open>\<^verbatim>\<open>getTime\<close> of several plugins: nanoseconds as a \<^verbatim>\<open>double\<close>.\<close>

definition getTime :: "os \<Rightarrow> real \<times> os" where
  "getTime w =
     (let (tv, w') = gettimeofday w in (of_int (tv_sec tv * 1000000000) + of_int (tv_usec tv * 1000), w'))"

subsection \<open>Reading back what was printed\<close>

lemma is_digit_digit_char [simp]: "d < 10 \<Longrightarrow> is_digit (digit_char d)"
  by (simp add: is_digit_def digit_char_def char_code_def)

lemma digit_val_digit_char [simp]: "d < 10 \<Longrightarrow> digit_val (digit_char d) = d"
  by (simp add: digit_val_def digit_char_def char_code_def)

lemma digit_not_space [simp]: "is_digit c \<Longrightarrow> \<not> is_space c"
  by (auto simp: is_digit_def is_space_def)

lemma digit_not_sign: "is_digit c \<Longrightarrow> c \<noteq> CHR ''-'' \<and> c \<noteq> CHR ''+''"
  by (auto simp: is_digit_def char_code_def)

lemma read_digits_append:
  "(\<forall>c\<in>set xs. is_digit c) \<Longrightarrow>
   read_digits acc (xs @ ys) = read_digits (fst (read_digits acc xs)) ys"
  by (induction xs arbitrary: acc) auto

lemma show_nat_digits: "\<forall>c\<in>set (show_nat n). is_digit c"
proof (induction n rule: show_nat.induct)
  case (1 n)
  then show ?case by (subst show_nat.simps) auto
qed

lemma show_nat_nonempty [simp]: "show_nat n \<noteq> []"
  by (subst show_nat.simps) simp

lemma hd_show_nat: "is_digit (hd (show_nat n))"
  using show_nat_digits [of n] by (cases "show_nat n") auto

lemma read_digits_show_nat [simp]: "read_digits 0 (show_nat n) = (n, [])"
proof (induction n rule: show_nat.induct)
  case (1 n)
  show ?case
  proof (cases "n < 10")
    case True
    then show ?thesis by (subst show_nat.simps) simp
  next
    case False
    with 1 have "read_digits 0 (show_nat (n div 10)) = (n div 10, [])" by simp
    with False show ?thesis
      by (subst show_nat.simps) (simp add: read_digits_append show_nat_digits)
  qed
qed

lemma show_nat_inject: "show_nat i = show_nat j \<longleftrightarrow> i = j"
  by (metis read_digits_show_nat prod.inject)

lemma read_digits_show_nat_rest:
  "ys = [] \<or> \<not> is_digit (hd ys) \<Longrightarrow> read_digits 0 (show_nat n @ ys) = (n, ys)"
  by (cases ys) (auto simp: read_digits_append show_nat_digits)

lemma scan_unsigned_show_nat:
  assumes "ys = [] \<or> \<not> is_digit (hd ys)"
  shows "scan_unsigned (show_nat n @ ys) = Some (n, ys)"
proof -
  obtain c cs where c: "show_nat n = c # cs" by (cases "show_nat n") auto
  with hd_show_nat [of n] have "is_digit c" by simp
  with read_digits_show_nat_rest [OF assms, of n] c show ?thesis
    by (simp add: scan_unsigned_def)
qed

lemma skip_space_digit: "is_digit c \<Longrightarrow> skip_space (c # cs) = c # cs"
  by (simp add: skip_space_def)

lemma scan_int_show_int:
  assumes "ys = [] \<or> \<not> is_digit (hd ys)"
  shows "scan_int (show_int i @ ys) = Some (i, ys)"
proof (cases "i < 0")
  case True
  moreover have "skip_space (CHR ''-'' # cs) = CHR ''-'' # cs" for cs
    by (simp add: skip_space_def is_space_def char_code_def)
  ultimately show ?thesis
    using scan_unsigned_show_nat [OF assms, of "nat (- i)"] by (simp add: scan_int_def show_int_def)
next
  case False
  obtain c cs where c: "show_nat (nat i) = c # cs" by (cases "show_nat (nat i)") auto
  with hd_show_nat [of "nat i"] have "is_digit c" by simp
  with scan_unsigned_show_nat [OF assms, of "nat i"] False c digit_not_sign [of c] show ?thesis
    by (simp add: scan_int_def show_int_def skip_space_digit)
qed

lemma scan_int_space: "is_space c \<Longrightarrow> scan_int (c # s) = scan_int s"
  by (simp add: scan_int_def skip_space_def)

definition int32 :: "int \<Rightarrow> bool" where
  "int32 i \<longleftrightarrow> - (2 ^ 31) \<le> i \<and> i < 2 ^ 31"

lemma c_int_id: "int32 i \<Longrightarrow> c_int i = i"
  by (simp add: c_int_def c_long_def int32_def signed_take_bit_int_eq_self)

lemma c_long_id: "- (2 ^ 63) \<le> i \<Longrightarrow> i < 2 ^ 63 \<Longrightarrow> c_long i = i"
  by (simp add: c_long_def)

lemma atoi_show_int: "int32 i \<Longrightarrow> atoi (show_int i) = i"
  using scan_int_show_int [of "[]" i] by (simp add: atoi_def c_int_id)

lemma sscanf_d_show_int: "int32 i \<Longrightarrow> sscanf_d (show_int i) = Some i"
  using scan_int_show_int [of "[]" i] by (simp add: sscanf_d_def c_int_id)

lemma sscanf_d_d_show:
  assumes "int32 i" and "int32 j"
  shows "sscanf_d_d (show_int i @ CHR '' '' # show_int j) = (Some i, Some j)"
proof -
  have nd: "\<not> is_digit (CHR '' '')" and sp: "is_space (CHR '' '')"
    by (simp_all add: is_digit_def is_space_def char_code_def)
  from nd have "scan_int (show_int i @ CHR '' '' # show_int j) = Some (i, CHR '' '' # show_int j)"
    by (intro scan_int_show_int) simp
  moreover have "scan_int (CHR '' '' # show_int j) = Some (j, [])"
    using scan_int_show_int [of "[]" j] sp by (simp add: scan_int_space)
  ultimately show ?thesis using assms by (simp add: sscanf_d_d_def c_int_id)
qed

text \<open>A printed number contains neither spaces nor separators, so it is its own first token.\<close>

lemma show_int_chars: "c \<in> set (show_int i) \<Longrightarrow> is_digit c \<or> c = CHR ''-''"
  using show_nat_digits by (auto simp: show_int_def split: if_splits)

lemma show_int_nonempty [simp]: "show_int i \<noteq> []"
  by (simp add: show_int_def)

lemma strtok_no_delim:
  assumes "s \<noteq> []" and "\<forall>c\<in>set s. c \<notin> set delim"
  shows "strtok delim s = Some (s, [])"
proof -
  from assms obtain c cs where "s = c # cs" by (cases s) auto
  with assms(2) have "dropWhile (\<lambda>c. c \<in> set delim) s = s" by simp
  moreover from assms(2) have "takeWhile (\<lambda>c. c \<notin> set delim) s = s" by simp
  moreover from assms(2) have "dropWhile (\<lambda>c. c \<notin> set delim) s = []"
    by (simp add: dropWhile_eq_Nil_conv)
  ultimately show ?thesis using assms(1) by (simp only: strtok_def Let_def) simp
qed

lemma strtok_colon_show_int: "strtok '':'' (show_int i) = Some (show_int i, [])"
proof (rule strtok_no_delim)
  show "\<forall>c\<in>set (show_int i). c \<notin> set '':''"
  proof
    fix c assume "c \<in> set (show_int i)"
    then have "is_digit c \<or> c = CHR ''-''" by (rule show_int_chars)
    then show "c \<notin> set '':''" by (auto simp: is_digit_def char_code_def)
  qed
qed simp

text \<open>The number of characters a printed number takes.\<close>

lemma length_show_nat: "0 < k \<Longrightarrow> n < 10 ^ k \<Longrightarrow> length (show_nat n) \<le> k"
proof (induction n arbitrary: k rule: show_nat.induct)
  case (1 n)
  show ?case
  proof (cases "n < 10")
    case True
    with 1 show ?thesis by (subst show_nat.simps) simp
  next
    case False
    with 1 obtain k' where k: "k = Suc k'" "0 < k'"
      by (cases k; cases "k - 1") auto
    with 1 have "n div 10 < 10 ^ k'" by auto
    with 1 False k have "length (show_nat (n div 10)) \<le> k'" by simp
    with False k show ?thesis by (subst show_nat.simps) simp
  qed
qed

lemma length_show_nat_ge: "10 ^ k \<le> n \<Longrightarrow> Suc k \<le> length (show_nat n)"
proof (induction k arbitrary: n)
  case 0
  then show ?case by (cases "show_nat n") auto
next
  case (Suc k)
  then have "10 ^ k \<le> n div 10" by (simp add: less_eq_div_iff_mult_less_eq)
  with Suc.IH have "Suc k \<le> length (show_nat (n div 10))" .
  moreover from Suc.prems have "\<not> n < 10"
    by (metis (no_types) not_less order_trans one_le_power power_Suc mult_le_mono2 mult.right_neutral one_le_numeral)
  ultimately show ?case by (subst show_nat.simps) simp
qed

subsection \<open>Frame facts of the system calls\<close>

text \<open>\<open>same_files\<close>: no file was changed and no descriptor was leaked or closed by mistake.\<close>

definition same_files :: "os \<Rightarrow> os \<Rightarrow> bool" where
  "same_files w w' \<longleftrightarrow> files w' = files w \<and> wlog w' = wlog w \<and> fds w' = fds w"

lemma same_filesD:
  "same_files w w' \<Longrightarrow> files w' = files w" "same_files w w' \<Longrightarrow> wlog w' = wlog w"
  "same_files w w' \<Longrightarrow> fds w' = fds w"
  by (simp_all add: same_files_def)

lemma same_files_refl [simp, intro]: "same_files w w"
  by (simp add: same_files_def)

lemma same_files_trans: "same_files u v \<Longrightarrow> same_files v w \<Longrightarrow> same_files u w"
  by (simp add: same_files_def)

lemma gettimeofday_frame: "gettimeofday w = (tv, w') \<Longrightarrow> same_files w w'"
  by (auto simp: gettimeofday_def same_files_def)

lemma open_rd_close: "open_rd w path = Some (n, w') \<Longrightarrow> sys_close w' = w"
  by (auto simp: open_rd_def sys_close_def)

lemma open_wr_close: "open_wr w path = Some w' \<Longrightarrow> sys_close w' = w"
  by (auto simp: open_wr_def sys_close_def split: option.splits fnode.splits if_splits)

end
