(* ===== verification/C_Float.thy ===== *)
theory C_Float
  imports C_Lib
begin

text \<open>
  Reading and printing \<^verbatim>\<open>double\<close> values: \<^verbatim>\<open>atof\<close> on decimal notation (hexadecimal floats,
  infinities and NaN are not modelled) and the \<^verbatim>\<open>%lf\<close> conversion with its six decimals.
\<close>

subsection \<open>atof\<close>

definition scan_exp :: "string \<Rightarrow> int" where
  "scan_exp s =
     (case s of
        c # cs \<Rightarrow>
          if c = CHR ''e'' \<or> c = CHR ''E'' then
            (case cs of
               d # ds \<Rightarrow>
                 if d = CHR ''-'' then (case scan_unsigned ds of Some (n, _) \<Rightarrow> - int n | None \<Rightarrow> 0)
                 else if d = CHR ''+'' then (case scan_unsigned ds of Some (n, _) \<Rightarrow> int n | None \<Rightarrow> 0)
                 else (case scan_unsigned cs of Some (n, _) \<Rightarrow> int n | None \<Rightarrow> 0)
             | [] \<Rightarrow> 0)
          else 0
      | [] \<Rightarrow> 0)"

definition scale10 :: "nat \<Rightarrow> int \<Rightarrow> real" where
  "scale10 m e = (if 0 \<le> e then real m * 10 ^ nat e else real m / 10 ^ nat (- e))"

text \<open>The mantissa: digits, optionally a point and more digits, at least one digit in all.\<close>

definition scan_mant :: "string \<Rightarrow> real" where
  "scan_mant s =
     (let (n, r) = read_digits 0 s
      in case r of
           c # cs \<Rightarrow>
             if c = CHR ''.'' then
               (let (m, r') = read_digits n cs; k = length cs - length r'
                in if r = s \<and> k = 0 then 0 else scale10 m (scan_exp r' - int k))
             else if r = s then 0 else scale10 n (scan_exp r)
         | [] \<Rightarrow> real n)"

definition atof :: "string \<Rightarrow> real" where
  "atof s =
     (case skip_space s of
        [] \<Rightarrow> 0
      | c # cs \<Rightarrow>
          if c = CHR ''-'' then - scan_mant cs
          else if c = CHR ''+'' then scan_mant cs
          else scan_mant (c # cs))"

subsection \<open>The %lf conversion\<close>

definition round_half_even :: "real \<Rightarrow> int" where
  "round_half_even y =
     (let f = \<lfloor>y\<rfloor>; d = y - of_int f
      in if d < 1 / 2 then f else if 1 / 2 < d then f + 1 else if even f then f else f + 1)"

definition micros :: "real \<Rightarrow> nat" where
  "micros x = nat (round_half_even (\<bar>x\<bar> * 1000000))"

definition pad6 :: "nat \<Rightarrow> string" where
  "pad6 n = replicate (6 - length (show_nat n)) (CHR ''0'') @ show_nat n"

definition fmt_lf :: "real \<Rightarrow> string" where
  "fmt_lf x =
     (if x < 0 then ''-'' else []) @ show_nat (micros x div 1000000) @ CHR ''.'' # pad6 (micros x mod 1000000)"

text \<open>\<^verbatim>\<open>sprintf(strval, "%lf", val)\<close> into an array of \<open>len\<close> bytes, the terminator included.\<close>

definition sprintf_lf :: "nat \<Rightarrow> real \<Rightarrow> string res" where
  "sprintf_lf len x = (if length (fmt_lf x) < len then Inr (fmt_lf x) else Inl MemoryFault)"

subsection \<open>Facts\<close>

lemma round_half_even_error: "\<bar>of_int (round_half_even y) - y\<bar> \<le> 1 / 2"
  unfolding round_half_even_def Let_def by (auto; linarith)

lemma round_half_even_nonneg: "0 \<le> y \<Longrightarrow> 0 \<le> round_half_even y"
  by (simp add: round_half_even_def Let_def)

lemma micros_error: "\<bar>real (micros x) - \<bar>x\<bar> * 1000000\<bar> \<le> 1 / 2"
  using round_half_even_error [of "\<bar>x\<bar> * 1000000"] round_half_even_nonneg [of "\<bar>x\<bar> * 1000000"]
  by (simp add: micros_def)

lemma length_pad6:
  assumes "n < 1000000"
  shows "length (pad6 n) = 6"
proof -
  from assms have "length (show_nat n) \<le> 6" by (intro length_show_nat) simp_all
  then show ?thesis by (simp add: pad6_def)
qed

lemma length_fmt_lf:
  "length (fmt_lf x) = (if x < 0 then 1 else 0) + length (show_nat (micros x div 1000000)) + 7"
  by (simp add: fmt_lf_def length_pad6)

lemma length_show_nat_le_iff: "0 < k \<Longrightarrow> length (show_nat n) \<le> k \<longleftrightarrow> n < 10 ^ k"
  using length_show_nat [of k n] length_show_nat_ge [of k n] by (meson not_less not_less_eq_eq)

text \<open>
  Twenty bytes hold the printed value exactly below a trillion (below a hundred billion with a
  sign): anything larger writes past the end.
\<close>

lemma sprintf_lf_20:
  "sprintf_lf 20 x =
     (if micros x < (if x < 0 then 10 ^ 17 else 10 ^ 18) then Inr (fmt_lf x) else Inl MemoryFault)"
proof -
  have d: "micros x div 1000000 < 10 ^ k \<longleftrightarrow> micros x < 10 ^ k * 1000000" for k
    by (simp add: div_less_iff_less_mult)
  have "length (fmt_lf x) < 20 \<longleftrightarrow>
        length (show_nat (micros x div 1000000)) \<le> (if x < 0 then 11 else 12)"
    by (auto simp: length_fmt_lf)
  also have "\<dots> \<longleftrightarrow> micros x < (if x < 0 then 10 ^ 17 else 10 ^ 18)"
    using length_show_nat_le_iff [of 11 "micros x div 1000000"] length_show_nat_le_iff [of 12 "micros x div 1000000"]
      d [of 11] d [of 12] by simp
  finally show ?thesis by (simp add: sprintf_lf_def)
qed

lemma read_digits_replicate0: "read_digits acc (replicate k (CHR ''0'') @ ys) = read_digits (acc * 10 ^ k) ys"
  by (induction k arbitrary: acc) (simp_all add: is_digit_def digit_val_def char_code_def algebra_simps)

lemma read_digits_show_nat_acc:
  "read_digits acc (show_nat n) = (acc * 10 ^ length (show_nat n) + n, [])"
proof (induction n arbitrary: acc rule: show_nat.induct)
  case (1 n)
  show ?case
  proof (cases "n < 10")
    case True
    then show ?thesis by (subst (1 2) show_nat.simps) simp
  next
    case False
    with 1 have IH: "read_digits acc (show_nat (n div 10)) =
      (acc * 10 ^ length (show_nat (n div 10)) + n div 10, [])" by simp
    from False show ?thesis
      by (subst (1 2) show_nat.simps) (simp add: read_digits_append show_nat_digits IH algebra_simps)
  qed
qed

lemma read_digits_pad6:
  assumes "n < 1000000"
  shows "read_digits acc (pad6 n) = (acc * 1000000 + n, [])"
proof -
  let ?l = "length (show_nat n)"
  from assms have "?l \<le> 6" by (intro length_show_nat) simp_all
  then have "10 ^ (6 - ?l) * 10 ^ ?l = (10::nat) ^ 6" by (simp flip: power_add)
  then have "acc * 10 ^ (6 - ?l) * 10 ^ ?l = acc * 1000000" by (simp add: mult.assoc)
  then show ?thesis
    by (simp add: pad6_def read_digits_replicate0 read_digits_show_nat_acc)
qed

text \<open>What is printed with \<^verbatim>\<open>%lf\<close> is read back by \<^verbatim>\<open>atof\<close> as the value rounded to millionths.\<close>

lemma scan_mant_fmt:
  "scan_mant (show_nat q @ CHR ''.'' # pad6 r) = real (q * 1000000 + r) / 1000000"
  if "r < 1000000"
proof -
  have nd: "\<not> is_digit (CHR ''.'')" by (simp add: is_digit_def char_code_def)
  then have 1: "read_digits 0 (show_nat q @ CHR ''.'' # pad6 r) = (q, CHR ''.'' # pad6 r)"
    by (simp add: read_digits_show_nat_rest)
  show ?thesis
    using that by (simp add: scan_mant_def 1 read_digits_pad6 length_pad6 scan_exp_def scale10_def)
qed

lemma atof_fmt_lf: "atof (fmt_lf x) = sgn x * (real (micros x) / 1000000)"
proof -
  let ?q = "micros x div 1000000" and ?r = "micros x mod 1000000"
  have m: "scan_mant (show_nat ?q @ CHR ''.'' # pad6 ?r) = real (micros x) / 1000000"
    by (subst scan_mant_fmt) simp_all
  have minus: "skip_space (CHR ''-'' # cs) = CHR ''-'' # cs" for cs
    by (simp add: skip_space_def is_space_def char_code_def)
  obtain c cs where c: "show_nat ?q = c # cs" by (cases "show_nat ?q") auto
  with hd_show_nat [of ?q] have dc: "is_digit c" by simp
  have zero: "micros 0 = 0" by (simp add: micros_def round_half_even_def)
  show ?thesis
    using m c digit_not_sign [OF dc] zero
    by (cases "x < 0"; cases "x = 0")
      (simp_all add: atof_def fmt_lf_def minus skip_space_digit [OF dc])
qed

lemma atof_fmt_lf_error: "\<bar>atof (fmt_lf x) - x\<bar> \<le> 1 / 2000000"
proof -
  define y where "y = real (micros x) / 1000000"
  have "\<bar>y - \<bar>x\<bar>\<bar> \<le> 1 / 2000000"
    using micros_error [of x] unfolding y_def by linarith
  moreover have "atof (fmt_lf x) = sgn x * y" by (simp add: atof_fmt_lf y_def)
  moreover have "x = 0 \<Longrightarrow> y = 0" by (simp add: y_def micros_def round_half_even_def)
  moreover have "sgn x * y = (if x < 0 then - y else if x = 0 then 0 else y)"
    by simp
  ultimately show ?thesis by (simp only: split: if_split) linarith
qed

end
