(* ===== verification/C_Scanf.thy ===== *)
theory C_Scanf
  imports C_Float
begin

text \<open>
  \<^verbatim>\<open>fscanf\<close> and \<^verbatim>\<open>sscanf\<close> with conversions of floating numbers, for the plugins that read the text of other programs.  A mark of an
  exponent without digits is left unread, and a \<^verbatim>\<open>float\<close> is not rounded.
\<close>

definition drop_sign :: "string \<Rightarrow> string" where
  "drop_sign s = (case s of [] \<Rightarrow> [] | c # cs \<Rightarrow> if c = CHR ''-'' \<or> c = CHR ''+'' then cs else s)"

definition exp_rest :: "string \<Rightarrow> string" where
  "exp_rest s =
     (case s of
        [] \<Rightarrow> []
      | c # cs \<Rightarrow>
          if (c = CHR ''e'' \<or> c = CHR ''E'') \<and> scan_unsigned (drop_sign cs) \<noteq> None then snd (read_digits 0 (drop_sign cs)) else s)"

definition mant_rest :: "string \<Rightarrow> string" where
  "mant_rest s =
     (case snd (read_digits 0 s) of
        [] \<Rightarrow> []
      | c # cs \<Rightarrow> exp_rest (if c = CHR ''.'' then snd (read_digits 0 cs) else c # cs))"

text \<open>A number begins with a digit, or with a point and a digit.\<close>

definition has_number :: "string \<Rightarrow> bool" where
  "has_number s \<longleftrightarrow> scan_unsigned s \<noteq> None \<or> (s \<noteq> [] \<and> hd s = CHR ''.'' \<and> scan_unsigned (tl s) \<noteq> None)"

definition scan_lf :: "string \<Rightarrow> (real \<times> string) option" where
  "scan_lf s =
     (let u = drop_sign (skip_space s) in if has_number u then Some (atof s, mant_rest u) else None)"

text \<open>A format: literal text, in which a space stands for any white space, \<^verbatim>\<open>%lf\<close>, and \<^verbatim>\<open>%%\<close>.  The result is what was stored.\<close>

datatype conv = Lit string | Lf | Pct

fun match_lit :: "string \<Rightarrow> string \<Rightarrow> string option" where
  "match_lit [] s = Some s"
| "match_lit (f # fs) s =
     (if is_space f then match_lit fs (skip_space s)
      else case s of [] \<Rightarrow> None | c # cs \<Rightarrow> if c = f then match_lit fs cs else None)"

fun sscanf_lf :: "conv list \<Rightarrow> string \<Rightarrow> real list" where
  "sscanf_lf [] s = []"
| "sscanf_lf (Lit l # fs) s = (case match_lit l s of None \<Rightarrow> [] | Some r \<Rightarrow> sscanf_lf fs r)"
| "sscanf_lf (Pct # fs) s = (case match_lit ''%'' (skip_space s) of None \<Rightarrow> [] | Some r \<Rightarrow> sscanf_lf fs r)"
| "sscanf_lf (Lf # fs) s = (case scan_lf s of None \<Rightarrow> [] | Some (x, r) \<Rightarrow> x # sscanf_lf fs r)"

lemma match_lit_prefix:
  "\<forall>c\<in>set l. \<not> is_space c \<Longrightarrow> match_lit l (l @ s) = Some s"
  by (induction l) simp_all

text \<open>Text that starts otherwise than the format stores nothing.\<close>

lemma sscanf_lf_mismatch: "\<not> is_space f \<Longrightarrow> c \<noteq> f \<Longrightarrow> sscanf_lf (Lit (f # l) # fs) (c # s) = []"
  by simp

end
