(* ===== verification/Pwr_Types.thy ===== *)
theory Pwr_Types
  imports C_Lib
begin

text \<open>
  The enumerations and return codes of \<^verbatim>\<open>src/pwr/pwrtypes.h\<close>, with the C integer each
  enumerator has, and the names the program prints for them (\<^verbatim>\<open>src/pwr/util.h\<close>).
\<close>

datatype obj_type =
    OBJ_PLATFORM | OBJ_CABINET | OBJ_CHASSIS | OBJ_BOARD | OBJ_NODE | OBJ_SOCKET | OBJ_CORE
  | OBJ_POWER_PLANE | OBJ_MEM | OBJ_NIC
  | OBJ_TX2_CORE | OBJ_TX2_SRAM | OBJ_TX2_MEM | OBJ_TX2_SOC

definition all_obj_types :: "obj_type list" where
  "all_obj_types =
     [OBJ_PLATFORM, OBJ_CABINET, OBJ_CHASSIS, OBJ_BOARD, OBJ_NODE, OBJ_SOCKET, OBJ_CORE,
      OBJ_POWER_PLANE, OBJ_MEM, OBJ_NIC, OBJ_TX2_CORE, OBJ_TX2_SRAM, OBJ_TX2_MEM, OBJ_TX2_SOC]"

fun obj_code :: "obj_type \<Rightarrow> int" where
  "obj_code OBJ_PLATFORM = 0"
| "obj_code OBJ_CABINET = 1"
| "obj_code OBJ_CHASSIS = 2"
| "obj_code OBJ_BOARD = 3"
| "obj_code OBJ_NODE = 4"
| "obj_code OBJ_SOCKET = 5"
| "obj_code OBJ_CORE = 6"
| "obj_code OBJ_POWER_PLANE = 7"
| "obj_code OBJ_MEM = 8"
| "obj_code OBJ_NIC = 9"
| "obj_code OBJ_TX2_CORE = 10"
| "obj_code OBJ_TX2_SRAM = 11"
| "obj_code OBJ_TX2_MEM = 12"
| "obj_code OBJ_TX2_SOC = 13"

definition NUM_OBJ_TYPES :: nat where
  "NUM_OBJ_TYPES = 14"

datatype attr =
    ATTR_PSTATE | ATTR_CSTATE | ATTR_CSTATE_LIMIT | ATTR_SSTATE | ATTR_CURRENT | ATTR_VOLTAGE
  | ATTR_POWER | ATTR_POWER_LIMIT_MIN | ATTR_POWER_LIMIT_MAX
  | ATTR_FREQ | ATTR_FREQ_LIMIT_MIN | ATTR_FREQ_LIMIT_MAX
  | ATTR_ENERGY | ATTR_TEMP | ATTR_OS_ID | ATTR_THROTTLED_TIME | ATTR_THROTTLED_COUNT | ATTR_GOV

definition all_attrs :: "attr list" where
  "all_attrs =
     [ATTR_PSTATE, ATTR_CSTATE, ATTR_CSTATE_LIMIT, ATTR_SSTATE, ATTR_CURRENT, ATTR_VOLTAGE,
      ATTR_POWER, ATTR_POWER_LIMIT_MIN, ATTR_POWER_LIMIT_MAX, ATTR_FREQ, ATTR_FREQ_LIMIT_MIN,
      ATTR_FREQ_LIMIT_MAX, ATTR_ENERGY, ATTR_TEMP, ATTR_OS_ID, ATTR_THROTTLED_TIME,
      ATTR_THROTTLED_COUNT, ATTR_GOV]"

fun attr_code :: "attr \<Rightarrow> nat" where
  "attr_code ATTR_PSTATE = 0"
| "attr_code ATTR_CSTATE = 1"
| "attr_code ATTR_CSTATE_LIMIT = 2"
| "attr_code ATTR_SSTATE = 3"
| "attr_code ATTR_CURRENT = 4"
| "attr_code ATTR_VOLTAGE = 5"
| "attr_code ATTR_POWER = 6"
| "attr_code ATTR_POWER_LIMIT_MIN = 7"
| "attr_code ATTR_POWER_LIMIT_MAX = 8"
| "attr_code ATTR_FREQ = 9"
| "attr_code ATTR_FREQ_LIMIT_MIN = 10"
| "attr_code ATTR_FREQ_LIMIT_MAX = 11"
| "attr_code ATTR_ENERGY = 12"
| "attr_code ATTR_TEMP = 13"
| "attr_code ATTR_OS_ID = 14"
| "attr_code ATTR_THROTTLED_TIME = 15"
| "attr_code ATTR_THROTTLED_COUNT = 16"
| "attr_code ATTR_GOV = 17"

definition NUM_ATTR_NAMES :: nat where
  "NUM_ATTR_NAMES = 18"

datatype gov =
    GOV_ONDEMAND | GOV_PERFORMANCE | GOV_CONSERVATIVE | GOV_POWERSAVE | GOV_USERSPACE
  | GOV_SCHEDUTIL

fun gov_code :: "gov \<Rightarrow> 32 word" where
  "gov_code GOV_ONDEMAND = 0"
| "gov_code GOV_PERFORMANCE = 1"
| "gov_code GOV_CONSERVATIVE = 2"
| "gov_code GOV_POWERSAVE = 3"
| "gov_code GOV_USERSPACE = 4"
| "gov_code GOV_SCHEDUTIL = 5"

text \<open>The return codes the modelled functions use.\<close>

definition RET_WARN_TRUNC :: int where "RET_WARN_TRUNC = 6"
definition RET_WARN_NO_OBJ_AT_INDEX :: int where "RET_WARN_NO_OBJ_AT_INDEX = 4"
definition RET_WARN_NO_CHILDREN :: int where "RET_WARN_NO_CHILDREN = 3"
definition RET_WARN_NO_PARENT :: int where "RET_WARN_NO_PARENT = 2"
definition RET_SUCCESS :: int where "RET_SUCCESS = 0"
definition RET_FAILURE :: int where "RET_FAILURE = -1"
definition RET_NOT_IMPLEMENTED :: int where "RET_NOT_IMPLEMENTED = -2"
definition RET_EMPTY :: int where "RET_EMPTY = -3"
definition RET_INVALID :: int where "RET_INVALID = -4"
definition RET_STATUS :: int where "RET_STATUS = -15"

lemmas ret_defs =
  RET_WARN_TRUNC_def RET_WARN_NO_OBJ_AT_INDEX_def RET_WARN_NO_CHILDREN_def RET_WARN_NO_PARENT_def RET_SUCCESS_def
  RET_FAILURE_def RET_NOT_IMPLEMENTED_def RET_EMPTY_def RET_INVALID_def RET_STATUS_def

subsection \<open>The enumerators are dense and distinct\<close>

lemma obj_code_nth: "i < NUM_OBJ_TYPES \<Longrightarrow> obj_code (all_obj_types ! i) = int i"
  by (simp add: NUM_OBJ_TYPES_def all_obj_types_def less_Suc_eq eval_nat_numeral) auto

lemma obj_code_range: "0 \<le> obj_code t \<and> obj_code t < 14"
  by (cases t) simp_all

lemma obj_code_inj: "obj_code s = obj_code t \<longleftrightarrow> s = t"
  by (cases s; cases t) simp_all

lemma obj_code_int32 [simp]: "int32 (obj_code t)"
  using obj_code_range [of t] by (simp add: int32_def)

text \<open>
  Enumerators are ordered by their integers, as C compares them and as the framework's ordered maps
  and the loops over all types enumerate them.
\<close>

instantiation obj_type :: linorder
begin

definition less_eq_obj_type :: "obj_type \<Rightarrow> obj_type \<Rightarrow> bool" where
  "less_eq_obj_type s t \<longleftrightarrow> obj_code s \<le> obj_code t"

definition less_obj_type :: "obj_type \<Rightarrow> obj_type \<Rightarrow> bool" where
  "less_obj_type s t \<longleftrightarrow> obj_code s < obj_code t"

instance
  by standard (auto simp: less_eq_obj_type_def less_obj_type_def obj_code_inj)

end

lemma attr_code_inj: "attr_code a = attr_code b \<longleftrightarrow> a = b"
  by (cases a; cases b) simp_all

instantiation attr :: linorder
begin

definition less_eq_attr :: "attr \<Rightarrow> attr \<Rightarrow> bool" where
  "less_eq_attr a b \<longleftrightarrow> attr_code a \<le> attr_code b"

definition less_attr :: "attr \<Rightarrow> attr \<Rightarrow> bool" where
  "less_attr a b \<longleftrightarrow> attr_code a < attr_code b"

instance
  by standard (auto simp: less_eq_attr_def less_attr_def attr_code_inj)

end

lemma sorted_all_obj_types: "sorted all_obj_types"
  by (simp add: all_obj_types_def less_eq_obj_type_def)

text \<open>Reading an object type back from the integer an open string holds.\<close>

definition obj_of_code :: "int \<Rightarrow> obj_type option" where
  "obj_of_code i = (if 0 \<le> i \<and> i < 14 then Some (all_obj_types ! nat i) else None)"

lemma obj_of_code_obj_code [simp]: "obj_of_code (obj_code t) = Some t"
  by (cases t) (simp_all add: obj_of_code_def all_obj_types_def)

lemma attr_code_lt: "attr_code a < NUM_ATTR_NAMES"
  by (cases a) (simp_all add: NUM_ATTR_NAMES_def)

lemma set_all_attrs: "set all_attrs = UNIV"
proof
  show "UNIV \<subseteq> set all_attrs"
  proof
    fix a :: attr show "a \<in> set all_attrs" by (cases a) (simp_all add: all_attrs_def)
  qed
qed simp

lemma distinct_all_attrs: "distinct all_attrs"
  by (simp add: all_attrs_def)

lemma set_all_obj_types: "set all_obj_types = UNIV"
proof
  show "UNIV \<subseteq> set all_obj_types"
  proof
    fix t :: obj_type show "t \<in> set all_obj_types" by (cases t) (simp_all add: all_obj_types_def)
  qed
qed simp

lemma distinct_all_obj_types: "distinct all_obj_types"
  by (simp add: all_obj_types_def)

subsection \<open>Names\<close>

definition canAggregate :: "attr \<Rightarrow> bool" where
  "canAggregate a \<longleftrightarrow> a = ATTR_ENERGY"

fun objTypeToString :: "obj_type \<Rightarrow> string" where
  "objTypeToString OBJ_PLATFORM = ''Platform''"
| "objTypeToString OBJ_CABINET = ''Cabinet''"
| "objTypeToString OBJ_CHASSIS = ''Chassis''"
| "objTypeToString OBJ_BOARD = ''Board''"
| "objTypeToString OBJ_NODE = ''Node''"
| "objTypeToString OBJ_SOCKET = ''Socket''"
| "objTypeToString OBJ_CORE = ''Core''"
| "objTypeToString OBJ_POWER_PLANE = ''PowerPlane''"
| "objTypeToString OBJ_MEM = ''Memory''"
| "objTypeToString OBJ_NIC = ''Nic''"
| "objTypeToString OBJ_TX2_CORE = ''TX2_Core''"
| "objTypeToString OBJ_TX2_SRAM = ''TX2_SRAM''"
| "objTypeToString OBJ_TX2_MEM = ''TX2_MEM''"
| "objTypeToString OBJ_TX2_SOC = ''TX2_SOC''"

text \<open>\<open>None\<close> is \<^verbatim>\<open>PWR_OBJ_INVALID\<close>.\<close>

definition objStringToType :: "string \<Rightarrow> obj_type option" where
  "objStringToType s =
     (if s = ''Platform'' then Some OBJ_PLATFORM
      else if s = ''Cabinet'' then Some OBJ_CABINET
      else if s = ''Chassis'' then Some OBJ_CHASSIS
      else if s = ''Board'' then Some OBJ_BOARD
      else if s = ''Node'' then Some OBJ_NODE
      else if s = ''Socket'' then Some OBJ_SOCKET
      else if s = ''Core'' then Some OBJ_CORE
      else if s = ''TX2_Core'' then Some OBJ_TX2_CORE
      else if s = ''TX2_SRAM'' then Some OBJ_TX2_SRAM
      else if s = ''TX2_Mem'' then Some OBJ_TX2_MEM
      else if s = ''TX2_SOC'' then Some OBJ_TX2_SOC
      else None)"

definition attrStringToType :: "string \<Rightarrow> attr option" where
  "attrStringToType s =
     (if s = ''Power'' then Some ATTR_POWER
      else if s = ''Energy'' then Some ATTR_ENERGY else None)"

fun attrNameToString :: "attr \<Rightarrow> string" where
  "attrNameToString ATTR_PSTATE = ''P-State''"
| "attrNameToString ATTR_CSTATE = ''C-State''"
| "attrNameToString ATTR_CSTATE_LIMIT = ''C-State_Limit''"
| "attrNameToString ATTR_SSTATE = ''S-State''"
| "attrNameToString ATTR_CURRENT = ''Current''"
| "attrNameToString ATTR_VOLTAGE = ''Voltage''"
| "attrNameToString ATTR_POWER = ''Power''"
| "attrNameToString ATTR_POWER_LIMIT_MIN = ''Power_Limit_Min''"
| "attrNameToString ATTR_POWER_LIMIT_MAX = ''Power_Limit_Max''"
| "attrNameToString ATTR_FREQ = ''Freq''"
| "attrNameToString ATTR_FREQ_LIMIT_MIN = ''Freq_Limit_Min''"
| "attrNameToString ATTR_FREQ_LIMIT_MAX = ''Freq_Limit_Max''"
| "attrNameToString ATTR_ENERGY = ''Energy''"
| "attrNameToString ATTR_TEMP = ''Temp''"
| "attrNameToString ATTR_OS_ID = ''OS_ID''"
| "attrNameToString ATTR_GOV = ''Governor''"
| "attrNameToString ATTR_THROTTLED_TIME = ''Throttled_Time''"
| "attrNameToString ATTR_THROTTLED_COUNT = ''Throttled_Count''"

lemma attrNameToString_inj: "attrNameToString a = attrNameToString b \<longleftrightarrow> a = b"
  by (cases a; cases b) simp_all

text \<open>
  The printed names of object types are read back exactly for the types the reader lists
  under the same spelling; the power plane, memory, NIC and TX2 memory types, which the printer
  names, are not recognised again.
\<close>

theorem objStringToType_roundtrip:
  "objStringToType (objTypeToString t) =
     (if t \<in> {OBJ_POWER_PLANE, OBJ_MEM, OBJ_NIC, OBJ_TX2_MEM} then None else Some t)"
  by (cases t) (simp_all add: objStringToType_def)

end
