(* ===== verification/Plugin_Iface.thy ===== *)
theory Plugin_Iface
  imports Pwr_Types
begin

text \<open>
  The interface between the framework and its plugins (\<^verbatim>\<open>src/pwr/pwrdev.h\<close>): the operation
  table of a device, the buffers it reads into and writes from, the array loops every plugin
  builds from its scalar operations, the wrapper class \<^verbatim>\<open>Device\<close> (\<^verbatim>\<open>src/pwr/device.h\<close>) and the
  plugin description reader \<^verbatim>\<open>PluginMeta\<close> (\<^verbatim>\<open>src/pwr/pluginMeta.h\<close>).  The locales state what the
  framework relies on; the theories of the plugins interpret them on their models.
\<close>

subsection \<open>Buffers\<close>

text \<open>
  The caller's 8-byte value buffer: never written, or last written as a \<^verbatim>\<open>double\<close>, as a
  \<^verbatim>\<open>uint64_t\<close>, or in its low half as an \<^verbatim>\<open>int\<close> (the high half is then not tracked).  A time-stamp argument is \<open>None\<close> for a null pointer, else the current content.
\<close>

datatype cell = Uninit | Dbl real | U64 "64 word" | I32 "32 word"

type_synonym ts_ptr = "pwr_time option"

definition store_ts :: "pwr_time \<Rightarrow> ts_ptr \<Rightarrow> ts_ptr res" where
  "store_ts t p = (case p of None \<Rightarrow> Inl MemoryFault | Some _ \<Rightarrow> Inr (Some t))"

lemma store_ts_Some [simp]: "store_ts t (Some u) = Inr (Some t)"
  by (simp add: store_ts_def)

lemma store_ts_None [simp]: "store_ts t None = Inl MemoryFault"
  by (simp add: store_ts_def)

lemma store_ts_eq_Inr_iff: "store_ts t p = Inr q \<longleftrightarrow> p \<noteq> None \<and> q = Some t"
  by (cases p) auto

lemmas [res_simps] = store_ts_eq_Inr_iff

text \<open>Reading a \<^verbatim>\<open>double\<close> out of a buffer: all-zero bits are \<open>0\<close>; other integer bits are not given a value.\<close>

definition as_double :: "cell \<Rightarrow> real option" where
  "as_double c = (case c of Dbl x \<Rightarrow> Some x | U64 w \<Rightarrow> (if w = 0 then Some 0 else None) | _ \<Rightarrow> None)"

text \<open>Passing \<^verbatim>\<open>*((double *)value)\<close> on: an unset buffer is the use of an uninitialised object.\<close>

definition load_double :: "cell \<Rightarrow> real res" where
  "load_double c = (case as_double c of None \<Rightarrow> Inl UninitRead | Some x \<Rightarrow> Inr x)"

lemma as_double_simps [simp]:
  "as_double (Dbl x) = Some x" "as_double (U64 0) = Some 0" "as_double Uninit = None"
  by (simp_all add: as_double_def)

lemma load_double_Dbl [simp]: "load_double (Dbl x) = Inr x"
  by (simp add: load_double_def)

text \<open>
  \<^verbatim>\<open>*(int *)value\<close> and \<^verbatim>\<open>*(uint64_t *)value\<close>: the integer halves of a \<^verbatim>\<open>double\<close> other than zero are
  not given a value.
\<close>

definition load_int :: "cell \<Rightarrow> 32 word res" where
  "load_int c =
     (case c of I32 i \<Rightarrow> Inr i | U64 w \<Rightarrow> Inr (ucast w)
      | Dbl x \<Rightarrow> (if x = 0 then Inr 0 else Inl UninitRead) | Uninit \<Rightarrow> Inl UninitRead)"

definition load_u64 :: "cell \<Rightarrow> 64 word res" where
  "load_u64 c =
     (case c of U64 w \<Rightarrow> Inr w | Dbl x \<Rightarrow> (if x = 0 then Inr 0 else Inl UninitRead) | _ \<Rightarrow> Inl UninitRead)"

lemma load_int_simps [simp]: "load_int (I32 i) = Inr i" "load_int (U64 w) = Inr (ucast w)"
  by (simp_all add: load_int_def)

lemma load_u64_U64 [simp]: "load_u64 (U64 w) = Inr w"
  by (simp add: load_u64_def)

definition SIZEOF_DOUBLE :: nat where
  "SIZEOF_DOUBLE = 8"

subsection \<open>Scalar operations and the array loops built from them\<close>

text \<open>
  A reader takes the descriptor and world \<open>'s\<close>, the attribute, the value buffer, the stated
  buffer length and the time-stamp pointer; it returns the status, the two buffers and the new
  state.  A writer may change its value buffer too (some do).
\<close>

type_synonym 's reader =
  "'s \<Rightarrow> attr \<Rightarrow> cell \<Rightarrow> nat \<Rightarrow> ts_ptr \<Rightarrow> ((int \<times> cell \<times> ts_ptr) \<times> 's) res"

type_synonym 's writer =
  "'s \<Rightarrow> attr \<Rightarrow> cell \<Rightarrow> nat \<Rightarrow> ((int \<times> cell) \<times> 's) res"

text \<open>
  \<^verbatim>\<open>for (i = 0; i < arraysize; i++) status[i] = read(fd, attrs[i], values+i, sizeof(double),
  timestamp+i)\<close>.  The attribute list is the first \<^verbatim>\<open>arraysize\<close> entries of \<^verbatim>\<open>attrs\<close>; an array that is
  too short is a memory fault.
\<close>

fun readv_loop ::
  "'s reader \<Rightarrow> 's \<Rightarrow> attr list \<Rightarrow> cell list \<Rightarrow> pwr_time list \<Rightarrow> int list
   \<Rightarrow> ((cell list \<times> pwr_time list \<times> int list) \<times> 's) res" where
  "readv_loop rd s [] vs ts st = Inr ((vs, ts, st), s)"
| "readv_loop rd s (a # as) (v # vs) (t # ts) (_ # st) =
     rbind (rd s a v SIZEOF_DOUBLE (Some t)) (\<lambda>((rc, v', t'), s').
     rbind (readv_loop rd s' as vs ts st) (\<lambda>((vs', ts', st'), s'').
     Inr ((v' # vs', (case t' of Some u \<Rightarrow> u | None \<Rightarrow> t) # ts', rc # st'), s'')))"
| "readv_loop rd s (a # as) vs ts st = Inl MemoryFault"

fun writev_loop ::
  "'s writer \<Rightarrow> 's \<Rightarrow> attr list \<Rightarrow> cell list \<Rightarrow> int list
   \<Rightarrow> ((cell list \<times> int list) \<times> 's) res" where
  "writev_loop wr s [] vs st = Inr ((vs, st), s)"
| "writev_loop wr s (a # as) (v # vs) (_ # st) =
     rbind (wr s a v SIZEOF_DOUBLE) (\<lambda>((rc, v'), s').
     rbind (writev_loop wr s' as vs st) (\<lambda>((vs', st'), s'').
     Inr ((v' # vs', rc # st'), s'')))"
| "writev_loop wr s (a # as) vs st = Inl MemoryFault"

text \<open>The whole \<^verbatim>\<open>readv\<close>/\<^verbatim>\<open>writev\<close> of the plugins that loop and then return 0.\<close>

type_synonym 's vreader =
  "'s \<Rightarrow> attr list \<Rightarrow> cell list \<Rightarrow> pwr_time list \<Rightarrow> int list
   \<Rightarrow> ((int \<times> cell list \<times> pwr_time list \<times> int list) \<times> 's) res"

type_synonym 's vwriter =
  "'s \<Rightarrow> attr list \<Rightarrow> cell list \<Rightarrow> int list \<Rightarrow> ((int \<times> cell list \<times> int list) \<times> 's) res"

definition readv_of :: "'s reader \<Rightarrow> 's vreader" where
  "readv_of rd s as vs ts st =
     rbind (readv_loop rd s as vs ts st) (\<lambda>((vs', ts', st'), s'). Inr ((0, vs', ts', st'), s'))"

definition writev_of :: "'s writer \<Rightarrow> 's vwriter" where
  "writev_of wr s as vs st =
     rbind (writev_loop wr s as vs st) (\<lambda>((vs', st'), s'). Inr ((0, vs', st'), s'))"

text \<open>\<^verbatim>\<open>time(fd, ts)\<close> in most plugins: a scalar read of one attribute into a local, unset double.\<close>

definition time_of_read :: "'s reader \<Rightarrow> attr \<Rightarrow> 's \<Rightarrow> ts_ptr \<Rightarrow> ((int \<times> ts_ptr) \<times> 's) res" where
  "time_of_read rd a s t =
     rbind (rd s a Uninit SIZEOF_DOUBLE t) (\<lambda>((rc, _, t'), s'). Inr ((rc, t'), s'))"

text \<open>One turn of the loop, taken apart.\<close>

lemma readv_loop_ConsE:
  assumes "readv_loop rd s (a # as) vs ts st = Inr ((vs', ts', st'), s')"
  obtains v vs0 t ts0 x st0 rc v' t' s1 vs1 ts1 st1
  where "vs = v # vs0" and "ts = t # ts0" and "st = x # st0"
    and "rd s a v SIZEOF_DOUBLE (Some t) = Inr ((rc, v', t'), s1)"
    and "readv_loop rd s1 as vs0 ts0 st0 = Inr ((vs1, ts1, st1), s')"
    and "vs' = v' # vs1" and "ts' = (case t' of Some u \<Rightarrow> u | None \<Rightarrow> t) # ts1"
    and "st' = rc # st1"
  using assms by (cases vs; cases ts; cases st) (auto simp: res_simps)

lemma writev_loop_ConsE:
  assumes "writev_loop wr s (a # as) vs st = Inr ((vs', st'), s')"
  obtains v vs0 x st0 rc v' s1 vs1 st1
  where "vs = v # vs0" and "st = x # st0"
    and "wr s a v SIZEOF_DOUBLE = Inr ((rc, v'), s1)"
    and "writev_loop wr s1 as vs0 st0 = Inr ((vs1, st1), s')"
    and "vs' = v' # vs1" and "st' = rc # st1"
  using assms by (cases vs; cases st) (auto simp: res_simps)

lemma readv_loop_lengths:
  "readv_loop rd s as vs ts st = Inr ((vs', ts', st'), s') \<Longrightarrow>
   length vs' = length vs \<and> length ts' = length ts \<and> length st' = length st"
  by (induction rd s as vs ts st arbitrary: vs' ts' st' s' rule: readv_loop.induct)
    (auto simp: res_simps)

lemma readv_loop_rest:
  "readv_loop rd s as vs ts st = Inr ((vs', ts', st'), s') \<Longrightarrow>
   drop (length as) vs' = drop (length as) vs \<and> drop (length as) ts' = drop (length as) ts \<and>
   drop (length as) st' = drop (length as) st"
  by (induction rd s as vs ts st arbitrary: vs' ts' st' s' rule: readv_loop.induct)
    (auto simp: res_simps)

lemma readv_loop_fits:
  "readv_loop rd s as vs ts st = Inr r \<Longrightarrow>
   length as \<le> length vs \<and> length as \<le> length ts \<and> length as \<le> length st"
  by (induction rd s as vs ts st arbitrary: r rule: readv_loop.induct)
    (auto simp: res_simps)

subsection \<open>What the framework relies on: readers\<close>

text \<open>
  \<open>world\<close> projects the operating-system state.  A reader returns success or the generic failure
  code, leaves the files alone and never takes the time-stamp pointer away; a careful reader
  also leaves both buffers as they were when it fails.
\<close>

locale attr_reader =
  fixes rd :: "'s reader" and world :: "'s \<Rightarrow> os"
  assumes rc_range: "rd s a v len t = Inr ((rc, v', t'), s') \<Longrightarrow> rc = 0 \<or> rc = - 1"
    and files_kept: "rd s a v len t = Inr ((rc, v', t'), s') \<Longrightarrow>
      files (world s') = files (world s) \<and> wlog (world s') = wlog (world s)"
    and ts_kept: "rd s a v len t = Inr ((rc, v', t'), s') \<Longrightarrow> t' = None \<longleftrightarrow> t = None"
begin

lemma readv_loop_status:
  "readv_loop rd s as vs ts st = Inr ((vs', ts', st'), s') \<Longrightarrow>
   \<forall>rc\<in>set (take (length as) st'). rc = 0 \<or> rc = - 1"
proof (induction as arbitrary: s vs ts st vs' ts' st')
  case (Cons a as)
  from Cons.prems show ?case
    by (rule readv_loop_ConsE) (auto dest: rc_range Cons.IH)
qed simp

lemma readv_loop_files:
  "readv_loop rd s as vs ts st = Inr ((vs', ts', st'), s') \<Longrightarrow>
   files (world s') = files (world s) \<and> wlog (world s') = wlog (world s)"
proof (induction as arbitrary: s vs ts st vs' ts' st')
  case (Cons a as)
  from Cons.prems show ?case
    by (rule readv_loop_ConsE) (metis Cons.IH files_kept)
qed simp

lemma readv_status:
  "readv_of rd s as vs ts st = Inr ((rc, vs', ts', st'), s') \<Longrightarrow>
   rc = 0 \<and> (\<forall>x\<in>set (take (length as) st'). x = 0 \<or> x = - 1)"
  using readv_loop_status by (fastforce simp: readv_of_def res_simps)

lemma readv_files:
  "readv_of rd s as vs ts st = Inr ((rc, vs', ts', st'), s') \<Longrightarrow>
   files (world s') = files (world s) \<and> wlog (world s') = wlog (world s)"
  using readv_loop_files by (fastforce simp: readv_of_def res_simps)

end

locale careful_reader = attr_reader +
  assumes fail_keeps: "rd s a v len t = Inr ((rc, v', t'), s') \<Longrightarrow> rc \<noteq> 0 \<Longrightarrow> v' = v \<and> t' = t"
begin

text \<open>In an array read, the slots whose status is an error still hold what the caller put there.\<close>

lemma readv_loop_fail_keeps:
  "readv_loop rd s as vs ts st = Inr ((vs', ts', st'), s') \<Longrightarrow> i < length as \<Longrightarrow> st' ! i \<noteq> 0 \<Longrightarrow>
   vs' ! i = vs ! i \<and> ts' ! i = ts ! i"
proof (induction as arbitrary: s vs ts st vs' ts' st' i)
  case (Cons a as)
  from Cons.prems(1) show ?case
  proof (rule readv_loop_ConsE)
    fix v vs0 t ts0 x st0 rc v' t' s1 vs1 ts1 st1
    assume e: "vs = v # vs0" "ts = t # ts0" "vs' = v' # vs1"
      "ts' = (case t' of Some u \<Rightarrow> u | None \<Rightarrow> t) # ts1" "st' = rc # st1"
      and rd: "rd s a v SIZEOF_DOUBLE (Some t) = Inr ((rc, v', t'), s1)"
      and rest: "readv_loop rd s1 as vs0 ts0 st0 = Inr ((vs1, ts1, st1), s')"
    show ?thesis
    proof (cases i)
      case 0
      with Cons.prems e fail_keeps [OF rd] show ?thesis by simp
    next
      case (Suc j)
      with Cons.prems e Cons.IH [OF rest, of j] show ?thesis by simp
    qed
  qed
qed simp

text \<open>The three promises of an array read in one statement, slot by slot.\<close>

lemma readv_contract:
  assumes r: "readv_of rd s as vs ts st = Inr ((rc, vs', ts', st'), s')"
  shows "rc = 0 \<and> files (world s') = files (world s) \<and>
    (\<forall>i<length as. (st' ! i = 0 \<or> st' ! i = - 1) \<and>
       (st' ! i = 0 \<or> vs' ! i = vs ! i \<and> ts' ! i = ts ! i))"
proof -
  have rc: "rc = 0" and l: "readv_loop rd s as vs ts st = Inr ((vs', ts', st'), s')"
    using r by (auto simp: readv_of_def res_simps)
  have "length as \<le> length st'"
    using readv_loop_fits [OF l] readv_loop_lengths [OF l] by simp
  then have "st' ! i \<in> set (take (length as) st')" if "i < length as" for i
    using that by (force simp: in_set_conv_nth)
  then have "\<forall>i<length as. st' ! i = 0 \<or> st' ! i = - 1"
    using readv_loop_status [OF l] by blast
  moreover have "\<forall>i<length as. st' ! i = 0 \<or> vs' ! i = vs ! i \<and> ts' ! i = ts ! i"
    using readv_loop_fail_keeps [OF l] by blast
  ultimately show ?thesis using rc readv_loop_files [OF l] by blast
qed

lemma readv_fail_keeps:
  "readv_of rd s as vs ts st = Inr ((rc, vs', ts', st'), s') \<Longrightarrow> i < length as \<Longrightarrow> st' ! i \<noteq> 0 \<Longrightarrow>
   vs' ! i = vs ! i \<and> ts' ! i = ts ! i"
  using readv_loop_fail_keeps by (fastforce simp: readv_of_def res_simps)

end

subsection \<open>What the framework relies on: writers\<close>

locale attr_writer =
  fixes wr :: "'s writer"
  assumes wrc_range: "wr s a v len = Inr ((rc, v'), s') \<Longrightarrow> rc = 0 \<or> rc = - 1"
begin

lemma writev_loop_status:
  "writev_loop wr s as vs st = Inr ((vs', st'), s') \<Longrightarrow>
   \<forall>rc\<in>set (take (length as) st'). rc = 0 \<or> rc = - 1"
proof (induction as arbitrary: s vs st vs' st')
  case (Cons a as)
  from Cons.prems show ?case
    by (rule writev_loop_ConsE) (auto dest: wrc_range Cons.IH)
qed simp

lemma writev_status:
  "writev_of wr s as vs st = Inr ((rc, vs', st'), s') \<Longrightarrow>
   rc = 0 \<and> (\<forall>x\<in>set (take (length as) st'). x = 0 \<or> x = - 1)"
  using writev_loop_status by (fastforce simp: writev_of_def res_simps)

end

text \<open>
  Closing a descriptor, or finalising a device, that owns nothing but its memory: the memory is released, so only the world is left.
\<close>

definition free_fd :: "'f \<times> os \<Rightarrow> int \<times> os" where
  "free_fd s = (0, snd s)"

subsection \<open>The operation table and the class Device\<close>

text \<open>
  An entry that may be a null pointer in some plugin is an option.  \<open>d_get_samples\<close> takes the
  period, the number of samples asked for and the buffer, and returns the status, the start
  time, the number and the buffer.
\<close>

record 's devops =
  d_read :: "'s reader"
  d_write :: "'s writer"
  d_readv :: "'s vreader option"
  d_writev :: "'s vwriter option"
  d_log_start :: "('s \<Rightarrow> attr \<Rightarrow> (int \<times> 's) res) option"
  d_log_stop :: "('s \<Rightarrow> attr \<Rightarrow> (int \<times> 's) res) option"
  d_get_samples ::
    "('s \<Rightarrow> attr \<Rightarrow> real \<Rightarrow> nat \<Rightarrow> cell list \<Rightarrow> ((int \<times> pwr_time \<times> nat \<times> cell list) \<times> 's) res) option"

definition getValue :: "'s devops \<Rightarrow> 's reader" where
  "getValue dev s a v len t = d_read dev s a v len t"

definition setValue :: "'s devops \<Rightarrow> 's writer" where
  "setValue dev s a v len = d_write dev s a v len"

definition getValues :: "'s devops \<Rightarrow> 's vreader" where
  "getValues dev s as vs ts st =
     (case d_readv dev of
        Some f \<Rightarrow> f s as vs ts st
      | None \<Rightarrow> Inr ((RET_FAILURE, vs, ts, st), s))"

definition setValues :: "'s devops \<Rightarrow> 's vwriter" where
  "setValues dev s as vs st =
     (case d_writev dev of
        Some f \<Rightarrow> f s as vs st
      | None \<Rightarrow> Inr ((RET_FAILURE, vs, st), s))"

definition startLog :: "'s devops \<Rightarrow> 's \<Rightarrow> attr \<Rightarrow> (int \<times> 's) res" where
  "startLog dev s a = (case d_log_start dev of Some f \<Rightarrow> f s a | None \<Rightarrow> Inr (RET_FAILURE, s))"

definition stopLog :: "'s devops \<Rightarrow> 's \<Rightarrow> attr \<Rightarrow> (int \<times> 's) res" where
  "stopLog dev s a = (case d_log_stop dev of Some f \<Rightarrow> f s a | None \<Rightarrow> Inr (RET_FAILURE, s))"

text \<open>A plugin without the operation leaves the out-parameters unset: \<open>None\<close> for the start time.\<close>

definition getSamples ::
  "'s devops \<Rightarrow> 's \<Rightarrow> attr \<Rightarrow> real \<Rightarrow> nat \<Rightarrow> cell list
   \<Rightarrow> ((int \<times> pwr_time option \<times> nat \<times> cell list) \<times> 's) res" where
  "getSamples dev s a period n buf =
     (case d_get_samples dev of
        Some f \<Rightarrow> rbind (f s a period n buf) (\<lambda>((rc, t, n', buf'), s').
                  Inr ((rc, Some t, n', buf'), s'))
      | None \<Rightarrow> Inr ((RET_FAILURE, None, n, buf), s))"

subsection \<open>Plugin descriptions and the class PluginMeta\<close>

text \<open>
  \<open>readObjs n buf\<close> and \<open>readAttrs t n buf\<close> fill the caller's array, which
  \<^verbatim>\<open>std::vector::resize\<close> has zero-initialised: every entry starts as the enumerator of code 0.
\<close>

record plugin_meta =
  numObjs :: nat
  readObjs :: "nat \<Rightarrow> obj_type list \<Rightarrow> obj_type list res"
  numAttrs :: "obj_type \<Rightarrow> nat"
  readAttrs :: "obj_type \<Rightarrow> nat \<Rightarrow> attr list \<Rightarrow> attr list res"
  getDevName :: "obj_type \<Rightarrow> nat \<Rightarrow> string option"
  getDevOpenStr :: "obj_type \<Rightarrow> int \<Rightarrow> nat \<Rightarrow> string"
  getDevInitStr :: "string \<Rightarrow> nat \<Rightarrow> string option"
  getPluginName :: "nat \<Rightarrow> string option"

text \<open>\<^verbatim>\<open>ptr[0] = x0; ptr[1] = x1; ..\<close>: consecutive stores from the start of an array.\<close>

fun fill_from :: "nat \<Rightarrow> 'a list \<Rightarrow> 'a list \<Rightarrow> 'a list res" where
  "fill_from i [] buf = Inr buf"
| "fill_from i (x # xs) buf = rbind (arr_set buf i x) (fill_from (Suc i) xs)"

definition fill :: "'a list \<Rightarrow> 'a list \<Rightarrow> 'a list res" where
  "fill xs buf = fill_from 0 xs buf"

lemma fill_from_eq:
  "i + length xs \<le> length buf \<Longrightarrow>
   fill_from i xs buf = Inr (take i buf @ xs @ drop (i + length xs) buf)"
proof (induction xs arbitrary: i buf)
  case (Cons x xs)
  then have i: "i < length buf" by simp
  then have "fill_from i (x # xs) buf = fill_from (Suc i) xs (buf[i := x])"
    by (simp add: arr_set_ok)
  also have "\<dots> = Inr (take (Suc i) (buf[i := x]) @ xs @ drop (Suc i + length xs) (buf[i := x]))"
    using Cons by simp
  also have "take (Suc i) (buf[i := x]) = take i buf @ [x]"
    using i by (simp add: take_Suc_conv_app_nth)
  finally show ?case by simp
qed simp

lemma fill_eq: "length xs \<le> length buf \<Longrightarrow> fill xs buf = Inr (xs @ drop (length xs) buf)"
  by (simp add: fill_def fill_from_eq)

lemma fill_exact: "length buf = length xs \<Longrightarrow> fill xs buf = Inr xs"
  by (simp add: fill_eq)

text \<open>
  The constructor: the objects the plugin lists, each mapped to the attributes it lists for it.
  An object with no attributes gets no entry.
\<close>

fun meta_attrs :: "plugin_meta \<Rightarrow> obj_type list \<Rightarrow> (obj_type \<times> attr list) list res" where
  "meta_attrs m [] = Inr []"
| "meta_attrs m (t # ts) =
     rbind (readAttrs m t (numAttrs m t) (replicate (numAttrs m t) ATTR_PSTATE)) (\<lambda>as.
     rbind (meta_attrs m ts) (\<lambda>rest. Inr ((t, as) # rest)))"

definition pluginMeta_new :: "plugin_meta \<Rightarrow> (obj_type \<times> attr list) list res" where
  "pluginMeta_new m =
     rbind (readObjs m (numObjs m) (replicate (numObjs m) OBJ_PLATFORM)) (meta_attrs m)"

text \<open>\<^verbatim>\<open>m_objMap\<close> is the union of the listed pairs; \<^verbatim>\<open>findAttr\<close> and \<^verbatim>\<open>isObjectSupported\<close> search it.\<close>

definition isObjectSupported :: "(obj_type \<times> attr list) list \<Rightarrow> obj_type \<Rightarrow> attr \<Rightarrow> bool" where
  "isObjectSupported om t a \<longleftrightarrow> (\<exists>(u, as)\<in>set om. u = t \<and> a \<in> set as)"

text \<open>
  A description keeps its promises when the announced sizes are the numbers of entries written.
  Then what the framework learns is exactly the plugin's own table.
\<close>

locale meta_table =
  fixes m :: plugin_meta and objs :: "obj_type list" and attrs_of :: "obj_type \<Rightarrow> attr list"
  assumes num_objs: "numObjs m = length objs"
    and read_objs: "length buf = length objs \<Longrightarrow> readObjs m (length objs) buf = Inr objs"
    and num_attrs: "t \<in> set objs \<Longrightarrow> numAttrs m t = length (attrs_of t)"
    and read_attrs: "t \<in> set objs \<Longrightarrow> length abuf = length (attrs_of t) \<Longrightarrow>
      readAttrs m t (length (attrs_of t)) abuf = Inr (attrs_of t)"
begin

lemma meta_attrs_map:
  "set ts \<subseteq> set objs \<Longrightarrow> meta_attrs m ts = Inr (map (\<lambda>t. (t, attrs_of t)) ts)"
  by (induction ts) (simp_all add: num_attrs read_attrs)

lemma pluginMeta_new_eq: "pluginMeta_new m = Inr (map (\<lambda>t. (t, attrs_of t)) objs)"
  by (simp add: pluginMeta_new_def num_objs read_objs meta_attrs_map)

lemma supported_iff:
  "pluginMeta_new m = Inr om \<Longrightarrow>
   isObjectSupported om t a \<longleftrightarrow> t \<in> set objs \<and> a \<in> set (attrs_of t)"
  by (auto simp: pluginMeta_new_eq isObjectSupported_def)

end

text \<open>The two open-string formats plugins use, \<^verbatim>\<open>"%d %d"\<close> and \<^verbatim>\<open>"%d"\<close>.\<close>

definition open_str_type_index :: "obj_type \<Rightarrow> int \<Rightarrow> nat \<Rightarrow> string" where
  "open_str_type_index t i len = snprintf len (show_int (obj_code t) @ CHR '' '' # show_int i)"

definition open_str_index :: "obj_type \<Rightarrow> int \<Rightarrow> nat \<Rightarrow> string" where
  "open_str_index t i len = snprintf len (show_int i)"

lemma length_show_int32:
  assumes "int32 i"
  shows "length (show_int i) \<le> 11"
proof -
  from assms have "nat \<bar>i\<bar> < 10 ^ 10" by (auto simp: int32_def)
  then have "length (show_nat (nat \<bar>i\<bar>)) \<le> 10" by (intro length_show_nat) simp_all
  then show ?thesis by (auto simp: show_int_def split: if_splits)
qed

lemma length_show_obj_code: "length (show_int (obj_code t)) \<le> 11"
  by (rule length_show_int32) simp

text \<open>The framework passes a buffer of 100 bytes, which always holds the whole string.\<close>

lemma open_str_type_index_100:
  "int32 i \<Longrightarrow> open_str_type_index t i 100 = show_int (obj_code t) @ CHR '' '' # show_int i"
  using length_show_int32 [of i] length_show_obj_code [of t]
  by (simp add: open_str_type_index_def snprintf_def)

lemma open_str_index_100: "int32 i \<Longrightarrow> open_str_index t i 100 = show_int i"
  using length_show_int32 [of i] by (simp add: open_str_index_def snprintf_def)

lemma sscanf_open_str:
  "int32 i \<Longrightarrow> sscanf_d_d (open_str_type_index t i 100) = (Some (obj_code t), Some i)"
  by (simp add: open_str_type_index_100 sscanf_d_d_show)

end
