(* ===== verification/Counter_File.thy ===== *)
theory Counter_File
  imports Plugin_Iface C_Float
begin

text \<open>
  What three plugins share: each reads a counter file one byte at a time into a 20-byte buffer
  until a space, and writes with \<^verbatim>\<open>%lf\<close> into a buffer of the same size.
\<close>

subsection \<open>Scanning a counter\<close>

text \<open>
  \<^verbatim>\<open>while (read(fd, strval+offset, 1) != EOF) { if (strval[offset] == ' ') ..; offset++; }\<close>.
  The first argument is the room left in \<^verbatim>\<open>strval\<close>.  At the end of a file \<^verbatim>\<open>read\<close> returns 0, which
  is not \<^verbatim>\<open>EOF\<close> (-1): the loop goes on, over the zero bytes of the buffer, and leaves it.
\<close>

fun scan_counter :: "nat \<Rightarrow> string \<Rightarrow> string \<Rightarrow> string res" where
  "scan_counter 0 strval rest = Inl MemoryFault"
| "scan_counter (Suc room) strval [] = scan_counter room strval []"
| "scan_counter (Suc room) strval (c # rest) =
     (if c = CHR '' '' then Inr (strval @ [c]) else scan_counter room (strval @ [c]) rest)"

definition STRVAL_SIZE :: nat where
  "STRVAL_SIZE = 20"

lemma scan_counter_eof: "scan_counter room strval [] = Inl MemoryFault"
  by (induction room) simp_all

lemma scan_counter_found:
  "CHR '' '' \<notin> set p \<Longrightarrow> length p < room \<Longrightarrow>
   scan_counter room strval (p @ CHR '' '' # t) = Inr (strval @ p @ '' '')"
  by (induction p arbitrary: room strval) (auto simp: less_Suc_eq_0_disj gr0_conv_Suc Suc_less_eq2)

lemma scan_counter_cases:
  "scan_counter room strval s =
     (let p = takeWhile (\<lambda>c. c \<noteq> CHR '' '') s
      in if length p < room \<and> p \<noteq> s then Inr (strval @ p @ '' '') else Inl MemoryFault)"
  by (induction room strval s rule: scan_counter.induct) (auto simp: Let_def scan_counter_eof)

text \<open>The value a counter file holds, when the scan finds it.\<close>

definition counter_text :: "string \<Rightarrow> string res" where
  "counter_text s = scan_counter STRVAL_SIZE [] s"

definition store_val :: "cell \<Rightarrow> real option \<Rightarrow> cell" where
  "store_val v x = (case x of Some y \<Rightarrow> Dbl y | None \<Rightarrow> v)"

lemma store_val_simps [simp]: "store_val v (Some y) = Dbl y" "store_val v None = v"
  by (simp_all add: store_val_def)

text \<open>The scan as a function of the text: the number before the first space, or a fault.\<close>

lemma counter_text_eq:
  "counter_text s =
     (let p = takeWhile (\<lambda>c. c \<noteq> CHR '' '') s
      in if length p < 20 \<and> p \<noteq> s then Inr (p @ '' '') else Inl MemoryFault)"
  by (simp add: counter_text_def scan_counter_cases STRVAL_SIZE_def Let_def)

lemma counter_text_no_space: "CHR '' '' \<notin> set s \<Longrightarrow> counter_text s = Inl MemoryFault"
  by (simp add: counter_text_eq takeWhile_eq_all_conv Let_def)

lemma fmt_lf_no_space: "CHR '' '' \<notin> set (fmt_lf x)"
proof -
  have "CHR '' '' \<notin> set (show_nat n)" for n
    using show_nat_digits [of n] by (auto simp: is_digit_def char_code_def)
  then show ?thesis by (auto simp: fmt_lf_def pad6_def)
qed

lemma read_digits_space: "read_digits acc (xs @ '' '') =
  (let (n, r) = read_digits acc xs in (n, r @ '' ''))"
  by (induction xs arbitrary: acc) (auto simp: is_digit_def char_code_def Let_def)

text \<open>\<^verbatim>\<open>atof\<close> does not see the space the scan leaves at the end of a printed value.\<close>

lemma atof_fmt_lf_space: "atof (fmt_lf x @ '' '') = atof (fmt_lf x)"
proof -
  let ?q = "micros x div 1000000" and ?r = "micros x mod 1000000"
  have nd: "\<not> is_digit (CHR ''.'')" by (simp add: is_digit_def char_code_def)
  then have 1: "read_digits 0 (show_nat ?q @ CHR ''.'' # ys) = (?q, CHR ''.'' # ys)" for ys
    by (simp add: read_digits_show_nat_rest)
  have m: "scan_mant (show_nat ?q @ CHR ''.'' # pad6 ?r @ '' '') =
           scan_mant (show_nat ?q @ CHR ''.'' # pad6 ?r)"
    by (simp add: scan_mant_def 1 read_digits_space read_digits_pad6 length_pad6 scan_exp_def)
  have minus: "skip_space (CHR ''-'' # cs) = CHR ''-'' # cs" for cs
    by (simp add: skip_space_def is_space_def char_code_def)
  obtain c cs where c: "show_nat ?q = c # cs" by (cases "show_nat ?q") auto
  with hd_show_nat [of ?q] have dc: "is_digit c" by simp
  show ?thesis
    using m c digit_not_sign [OF dc]
    by (cases "x < 0") (simp_all add: atof_def fmt_lf_def minus skip_space_digit [OF dc])
qed

text \<open>A value that was printed with \<^verbatim>\<open>%lf\<close> and is followed by a space is found by the scan.\<close>

lemma counter_text_fmt_lf:
  assumes "length (fmt_lf x) < 20"
  shows "counter_text (fmt_lf x @ CHR '' '' # rest) = Inr (fmt_lf x @ '' '')"
  using assms scan_counter_found [OF fmt_lf_no_space, of x STRVAL_SIZE "[]" rest]
  by (simp add: counter_text_def STRVAL_SIZE_def)

end
