(* ===== verification/Cpu_Ident.thy ===== *)
theory Cpu_Ident
  imports Plugin_Iface
begin

text \<open>
  Finding out the processor model from \<^verbatim>\<open>/proc/cpuinfo\<close>.  The plugins \<^verbatim>\<open>pwr_rapldev.c\<close> and
  \<^verbatim>\<open>pwr_apmdev.c\<close> hold the same function up to the vendor, the family and the list of models it
  accepts, which are parameters here.
\<close>

text \<open>\<^verbatim>\<open>fgets(buf, n, file)\<close>: lines, cut after \<open>n - 1\<close> characters.  \<open>k\<close> is the room left in the buffer.\<close>

fun fgets_from :: "nat \<Rightarrow> nat \<Rightarrow> string \<Rightarrow> string \<Rightarrow> string list" where
  "fgets_from n k acc [] = (if acc = [] then [] else [acc])"
| "fgets_from n k acc (c # cs) =
     (if c = CHR 0x0A \<or> k \<le> 1 then (acc @ [c]) # fgets_from n (n - 1) [] cs
      else fgets_from n (k - 1) (acc @ [c]) cs)"

definition fgets_lines :: "nat \<Rightarrow> string \<Rightarrow> string list" where
  "fgets_lines n s = fgets_from n (n - 1) [] s"

fun skip_words :: "nat \<Rightarrow> string \<Rightarrow> string option" where
  "skip_words 0 s = Some s"
| "skip_words (Suc n) s = (case scan_word s of None \<Rightarrow> None | Some (_, r) \<Rightarrow> skip_words n r)"

definition sscanf_words_s :: "nat \<Rightarrow> string \<Rightarrow> string option" where
  "sscanf_words_s n s =
     (case skip_words n s of None \<Rightarrow> None | Some r \<Rightarrow> map_option fst (scan_word r))"

definition sscanf_words_d :: "nat \<Rightarrow> string \<Rightarrow> int option" where
  "sscanf_words_d n s = (case skip_words n s of None \<Rightarrow> None | Some r \<Rightarrow> sscanf_d r)"

definition strncmp0 :: "string \<Rightarrow> string \<Rightarrow> nat \<Rightarrow> bool" where
  "strncmp0 s t n \<longleftrightarrow> take n s = take n t"

text \<open>The locals of the loop: \<^verbatim>\<open>family\<close> is uninitialised until a conversion stores it.\<close>

record ident =
  i_model :: int
  i_vendor :: string
  i_family :: "int option"
  i_ret :: int

record chip =
  ch_vendor :: string
  ch_family :: int
  ch_models :: "int list"

definition identify_line :: "chip \<Rightarrow> ident \<Rightarrow> string \<Rightarrow> ident res" where
  "identify_line ch st str =
     (if strncmp0 str ''vendor_id'' 8 then
        (let vendor = (case sscanf_words_s 2 str of Some v \<Rightarrow> v | None \<Rightarrow> i_vendor st)
         in Inr (st\<lparr>i_vendor := vendor,
                    i_ret := (if strncmp0 vendor (ch_vendor ch) 12 then i_ret st else -1)\<rparr>))
      else if strncmp0 str ''cpu_family'' 10 then
        (let family = (case sscanf_words_d 3 str of Some f \<Rightarrow> Some f | None \<Rightarrow> i_family st)
         in case family of
              None \<Rightarrow> Inl UninitRead
            | Some f \<Rightarrow> Inr (st\<lparr>i_family := family, i_ret := (if f = ch_family ch then i_ret st else -1)\<rparr>))
      else if strncmp0 str ''model'' 5 then
        (let model = (case sscanf_words_d 2 str of Some k \<Rightarrow> k | None \<Rightarrow> i_model st)
         in Inr (st\<lparr>i_model := model,
                    i_ret := (if model \<in> set (ch_models ch) then i_ret st else -1)\<rparr>))
      else Inr st)"

fun identify_lines :: "chip \<Rightarrow> ident \<Rightarrow> string list \<Rightarrow> ident res" where
  "identify_lines ch st [] = Inr st"
| "identify_lines ch st (l # ls) =
     rbind (identify_line ch st l) (\<lambda>st'. identify_lines ch st' ls)"

text \<open>The return value and the model stored; the model is left alone when the file cannot be opened.\<close>

definition cpu_identify :: "chip \<Rightarrow> os \<Rightarrow> int \<Rightarrow> (int \<times> int) res" where
  "cpu_identify ch w model =
     (case files w ''/proc/cpuinfo'' of
        None \<Rightarrow> Inr (-1, model)
      | Some Dir \<Rightarrow> Inr (0, -1)
      | Some (Regular c) \<Rightarrow>
          rbind (identify_lines ch \<lparr>i_model = -1, i_vendor = [], i_family = None, i_ret = 0\<rparr>
                   (fgets_lines 80 c)) (\<lambda>st.
          Inr (i_ret st, i_model st)))"

subsection \<open>Facts\<close>

definition model_ok :: "chip \<Rightarrow> int \<Rightarrow> bool" where
  "model_ok ch k \<longleftrightarrow> k \<in> set (ch_models ch) \<or> k = - 1"

lemma identify_line_model:
  "identify_line ch st l = Inr st' \<Longrightarrow> i_ret st' = 0 \<Longrightarrow> (i_ret st = 0 \<longrightarrow> model_ok ch (i_model st)) \<Longrightarrow>
   i_ret st = 0 \<and> model_ok ch (i_model st')"
  by (auto simp: identify_line_def model_ok_def Let_def split: if_splits option.splits)

lemma identify_line_ret:
  "identify_line ch st l = Inr st' \<Longrightarrow> i_ret st' = i_ret st \<or> i_ret st' = - 1"
  by (auto simp: identify_line_def Let_def split: if_splits option.splits)

lemma identify_lines_model:
  "identify_lines ch st ls = Inr st' \<Longrightarrow> (i_ret st = 0 \<longrightarrow> model_ok ch (i_model st)) \<Longrightarrow>
   i_ret st' = 0 \<Longrightarrow> model_ok ch (i_model st')"
proof (induction ls arbitrary: st)
  case (Cons l ls)
  from Cons.prems(1) obtain st1 where l: "identify_line ch st l = Inr st1"
    and ls: "identify_lines ch st1 ls = Inr st'" by (auto simp: res_simps)
  have "i_ret st1 = 0 \<longrightarrow> model_ok ch (i_model st1)"
    using identify_line_model [OF l] Cons.prems(2) by blast
  with Cons.IH [OF ls] Cons.prems(3) show ?case by blast
qed simp

lemma identify_lines_ret:
  "identify_lines ch st ls = Inr st' \<Longrightarrow> i_ret st = 0 \<or> i_ret st = - 1 \<Longrightarrow> i_ret st' = 0 \<or> i_ret st' = - 1"
proof (induction ls arbitrary: st)
  case (Cons l ls)
  from Cons.prems(1) obtain st1 where l: "identify_line ch st l = Inr st1"
    and ls: "identify_lines ch st1 ls = Inr st'" by (auto simp: res_simps)
  show ?case using Cons.IH [OF ls] identify_line_ret [OF l] Cons.prems(2) by auto
qed simp

lemma cpu_identify_model:
  assumes "cpu_identify ch w k = Inr (rc, model)" and "\<not> rc < 0"
  shows "model_ok ch model"
proof (cases "files w ''/proc/cpuinfo''")
  case None
  with assms show ?thesis by (simp add: cpu_identify_def)
next
  case (Some n)
  show ?thesis
  proof (cases n)
    case Dir
    with Some assms show ?thesis by (simp add: cpu_identify_def model_ok_def)
  next
    case (Regular c)
    let ?st = "\<lparr>i_model = -1, i_vendor = [], i_family = None, i_ret = 0\<rparr>"
    from Some Regular assms obtain st
      where st: "identify_lines ch ?st (fgets_lines 80 c) = Inr st" and r: "rc = i_ret st" "model = i_model st"
      by (auto simp: cpu_identify_def res_simps)
    have "i_ret st = 0" using identify_lines_ret [OF st] r assms(2) by auto
    with identify_lines_model [OF st] r show ?thesis by (simp add: model_ok_def)
  qed
qed

text \<open>Linux writes the family as \<^verbatim>\<open>cpu family\<close>; the comparison is with \<^verbatim>\<open>cpu_family\<close>, so the line is ignored.\<close>

lemma identify_ignores_family: "identify_line ch st (''cpu family'' @ rest) = Inr st"
  by (simp add: identify_line_def strncmp0_def)

end
