(* ===== verification/Pmc_Dev.thy ===== *)
theory Pmc_Dev
  imports Counter_File
begin

text \<open>
  \<^verbatim>\<open>src/plugins/pwr_pmcdev.c\<close>: energy, power and power cap of a processor, each in its own counter
  file.  The state is the descriptor (the processor number) and the operating system.
\<close>

record pmc_fd =
  pmc_cpu :: "32 word"

type_synonym pmc_state = "pmc_fd \<times> os"

definition pmc_path :: "32 word \<Rightarrow> nat \<Rightarrow> string" where
  "pmc_path cpu counter =
     ''/sys/devices/system/cpu/cpu'' @ show_nat (unat cpu) @ ''/pmc'' @ show_nat counter"

text \<open>The pair returned is the status and what was stored through \<^verbatim>\<open>val\<close>.\<close>

definition pmcdev_read :: "os \<Rightarrow> 32 word \<Rightarrow> nat \<Rightarrow> ((int \<times> real option) \<times> os) res" where
  "pmcdev_read w cpu counter =
     (case open_rd w (pmc_path cpu counter) of
        None \<Rightarrow> Inr ((-1, None), w)
      | Some (Dir, w1) \<Rightarrow> Inr ((-1, None), sys_close w1)
      | Some (Regular c, w1) \<Rightarrow>
          rbind (counter_text c) (\<lambda>strval. Inr ((0, Some (atof strval)), sys_close w1)))"

definition pmcdev_write :: "os \<Rightarrow> 32 word \<Rightarrow> nat \<Rightarrow> real \<Rightarrow> (int \<times> os) res" where
  "pmcdev_write w cpu counter val =
     (case open_wr w (pmc_path cpu counter) of
        None \<Rightarrow> Inr (-1, w)
      | Some w1 \<Rightarrow>
          rbind (sprintf_lf STRVAL_SIZE val) (\<lambda>strval.
          case write_file w1 (pmc_path cpu counter) strval of
            None \<Rightarrow> Inr (-1, sys_close w1)
          | Some w2 \<Rightarrow> Inr (0, sys_close w2)))"

definition pwr_pmcdev_open :: "os \<Rightarrow> string option \<Rightarrow> pmc_fd option" where
  "pwr_pmcdev_open w openstr =
     (case openstr of
        None \<Rightarrow> None
      | Some s \<Rightarrow> (case strtok '':'' s of
                    None \<Rightarrow> None
                  | Some (token, _) \<Rightarrow> Some \<lparr>pmc_cpu = word_of_int (atoi token)\<rparr>))"

definition pwr_pmcdev_close :: "pmc_state \<Rightarrow> int \<times> os" where
  "pwr_pmcdev_close s = free_fd s"

definition pwr_pmcdev_final :: "pmc_state devops \<times> os \<Rightarrow> int \<times> os" where
  "pwr_pmcdev_final s = free_fd s"

definition pmc_counter :: "attr \<Rightarrow> nat option" where
  "pmc_counter a =
     (case a of ATTR_ENERGY \<Rightarrow> Some 1 | ATTR_POWER \<Rightarrow> Some 2 | ATTR_POWER_LIMIT_MAX \<Rightarrow> Some 3
      | _ \<Rightarrow> None)"

text \<open>An attribute the switch does not list only prints a warning: the value is left as it was.\<close>

definition pwr_pmcdev_read :: "pmc_state reader" where
  "pwr_pmcdev_read s a v len t =
     (let (fd, w) = s
      in if len \<noteq> SIZEOF_DOUBLE then Inr ((-1, v, t), s)
         else rbind (case pmc_counter a of
                       Some k \<Rightarrow> pmcdev_read w (pmc_cpu fd) k
                     | None \<Rightarrow> Inr ((0, None), w)) (\<lambda>((rc, x), w1).
              if rc < 0 then Inr ((-1, v, t), (fd, w1))
              else let (tv, w2) = gettimeofday w1
                   in rbind (store_ts (time_ns tv) t) (\<lambda>t'.
                      Inr ((0, store_val v x, t'), (fd, w2)))))"

definition pwr_pmcdev_write :: "pmc_state writer" where
  "pwr_pmcdev_write s a v len =
     (let (fd, w) = s
      in if len \<noteq> SIZEOF_DOUBLE then Inr ((-1, v), s)
         else if a = ATTR_POWER_LIMIT_MAX then
           rbind (load_double v) (\<lambda>x.
           rbind (pmcdev_write w (pmc_cpu fd) 3 x) (\<lambda>(rc, w1).
           if rc < 0 then Inr ((-1, v), (fd, w1)) else Inr ((0, v), (fd, w1))))
         else Inr ((0, v), s))"

definition pwr_pmcdev_readv :: "pmc_state vreader" where
  "pwr_pmcdev_readv = readv_of pwr_pmcdev_read"

definition pwr_pmcdev_writev :: "pmc_state vwriter" where
  "pwr_pmcdev_writev = writev_of pwr_pmcdev_write"

definition pwr_pmcdev_time :: "pmc_state \<Rightarrow> ts_ptr \<Rightarrow> ((int \<times> ts_ptr) \<times> pmc_state) res" where
  "pwr_pmcdev_time = time_of_read pwr_pmcdev_read ATTR_ENERGY"

definition pwr_pmcdev_clear :: "pmc_state \<Rightarrow> int \<times> pmc_state" where
  "pwr_pmcdev_clear s = (0, s)"

text \<open>The operation table; entries the initialiser leaves out are null pointers.\<close>

definition pmc_ops :: "pmc_state devops" where
  "pmc_ops = \<lparr>d_read = pwr_pmcdev_read, d_write = pwr_pmcdev_write,
     d_readv = Some pwr_pmcdev_readv, d_writev = Some pwr_pmcdev_writev,
     d_log_start = None, d_log_stop = None, d_get_samples = None\<rparr>"

definition pwr_pmcdev_init :: "string \<Rightarrow> pmc_state devops" where
  "pwr_pmcdev_init initstr = pmc_ops"

lemma pmcdev_read_frame: "pmcdev_read w cpu k = Inr ((rc, x), w') \<Longrightarrow> w' = w"
  by (auto simp: pmcdev_read_def res_simps dest: open_rd_close split: option.splits fnode.splits prod.splits)

lemma pwr_pmcdev_read_frame:
  "pwr_pmcdev_read s a v len t = Inr ((rc, v', t'), s') \<Longrightarrow> same_files (snd s) (snd s')"
  by (auto simp: pwr_pmcdev_read_def res_simps Let_def gettimeofday_def same_files_def
      dest: pmcdev_read_frame split: prod.splits if_splits option.splits)

interpretation pmc: careful_reader pwr_pmcdev_read snd
proof
  fix s :: pmc_state and a v len t rc v' t' s'
  assume r: "pwr_pmcdev_read s a v len t = Inr ((rc, v', t'), s')"
  show "rc = 0 \<or> rc = - 1" and "t' = None \<longleftrightarrow> t = None" and "rc \<noteq> 0 \<Longrightarrow> v' = v \<and> t' = t"
    using r by (auto simp: pwr_pmcdev_read_def res_simps Let_def split: prod.splits if_splits option.splits)
  show "files (snd s') = files (snd s) \<and> wlog (snd s') = wlog (snd s)"
    using pwr_pmcdev_read_frame [OF r] by (simp add: same_files_def)
qed

interpretation pmcw: attr_writer pwr_pmcdev_write
proof
  fix s :: pmc_state and a v len rc v' s'
  assume "pwr_pmcdev_write s a v len = Inr ((rc, v'), s')"
  then show "rc = 0 \<or> rc = - 1"
    by (auto simp: pwr_pmcdev_write_def res_simps Let_def split: prod.splits if_splits)
qed

subsection \<open>Properties\<close>

text \<open>
  Reading a performance counter: what it returns is decided by the file alone.  A missing
  file or a directory is the error -1; a number of fewer than 20 characters followed by a space
  is returned; any other file makes the scan leave its 20-byte buffer.  No descriptor is leaked
  and nothing is changed.
\<close>

theorem pmcdev_read_spec:
  "pmcdev_read w cpu k =
     (case files w (pmc_path cpu k) of
        Some (Regular c) \<Rightarrow>
          (let p = takeWhile (\<lambda>c. c \<noteq> CHR '' '') c
           in if length p < 20 \<and> p \<noteq> c then Inr ((0, Some (atof (p @ '' ''))), w)
              else Inl MemoryFault)
      | _ \<Rightarrow> Inr ((-1, None), w))"
  by (auto simp: pmcdev_read_def open_rd_def sys_close_def counter_text_eq Let_def
      split: option.splits fnode.splits)

text \<open>
  Setting the power cap and reading it back: when the kernel stores what is written followed
  by a space (and anything after it), a cap below a hundred billion watts is read back with an
  error of at most half a millionth.
\<close>

theorem pmc_power_cap_roundtrip:
  assumes ok: "open_wr w (pmc_path cpu 3) \<noteq> None"
    and keep: "\<And>old. store w (pmc_path cpu 3) (fmt_lf x) old = Some (fmt_lf x @ CHR '' '' # rest)"
    and small: "micros x < 10 ^ 17"
  shows "\<exists>w' y. pwr_pmcdev_write (\<lparr>pmc_cpu = cpu\<rparr>, w) ATTR_POWER_LIMIT_MAX (Dbl x) 8 =
           Inr ((0, Dbl x), (\<lparr>pmc_cpu = cpu\<rparr>, w')) \<and>
         pwr_pmcdev_read (\<lparr>pmc_cpu = cpu\<rparr>, w') ATTR_POWER_LIMIT_MAX v 8 (Some t) =
           Inr ((0, Dbl y, Some (time_ns (clock w (ticks w)))),
                (\<lparr>pmc_cpu = cpu\<rparr>, w'\<lparr>ticks := Suc (ticks w)\<rparr>)) \<and>
         \<bar>y - x\<bar> \<le> 1 / 2000000"
proof -
  from ok obtain c where f: "files w (pmc_path cpu 3) = Some (Regular c)" and cw: "can_write w (pmc_path cpu 3)"
    by (auto simp: open_wr_def split: option.splits fnode.splits if_splits)
  from small have fits: "sprintf_lf STRVAL_SIZE x = Inr (fmt_lf x)"
    by (auto simp: STRVAL_SIZE_def sprintf_lf_20)
  then have len: "length (fmt_lf x) < 20" by (simp add: sprintf_lf_def STRVAL_SIZE_def split: if_splits)
  let ?new = "fmt_lf x @ CHR '' '' # rest"
  let ?w = "w\<lparr>files := (files w)(pmc_path cpu 3 \<mapsto> Regular ?new),
              wlog := wlog w @ [(pmc_path cpu 3, fmt_lf x)]\<rparr>"
  have "pmcdev_write w cpu 3 x = Inr (0, ?w)"
    using f cw fits keep by (simp add: pmcdev_write_def open_wr_def write_file_def sys_close_def)
  moreover have "pmcdev_read ?w cpu 3 = Inr ((0, Some (atof (fmt_lf x))), ?w)"
    using counter_text_fmt_lf [OF len, of rest]
    by (simp add: pmcdev_read_def open_rd_def sys_close_def atof_fmt_lf_space)
  ultimately show ?thesis
    using atof_fmt_lf_error [of x]
    by (simp add: pwr_pmcdev_write_def pwr_pmcdev_read_def SIZEOF_DOUBLE_def pmc_counter_def gettimeofday_def)
qed

text \<open>
  Reading several attributes at once returns 0; each status is 0 or -1, a slot whose status
  is an error keeps the caller's value and time stamp, and no file changes.
\<close>

theorem pwr_pmcdev_readv_contract:
  assumes "pwr_pmcdev_readv s as vs ts st = Inr ((rc, vs', ts', st'), s')"
  shows "rc = 0 \<and> files (snd s') = files (snd s) \<and>
    (\<forall>i<length as. (st' ! i = 0 \<or> st' ! i = - 1) \<and>
       (st' ! i = 0 \<or> vs' ! i = vs ! i \<and> ts' ! i = ts ! i))"
  using assms unfolding pwr_pmcdev_readv_def by (rule pmc.readv_contract)

definition pmc_demo_os :: os where
  "pmc_demo_os = \<lparr>files = [pmc_path 0 3 \<mapsto> Regular ''0 W''], can_write = (\<lambda>_. True),
     store = (\<lambda>_ d _. Some (d @ '' W'')), wlog = [], fds = 0,
     clock = (\<lambda>n. \<lparr>tv_sec = int n, tv_usec = 0\<rparr>), ticks = 0, msr = (\<lambda>_ _. None)\<rparr>"

theorem pmc_power_cap_roundtrip_witness:
  "\<exists>w' y. pwr_pmcdev_write (\<lparr>pmc_cpu = 0\<rparr>, pmc_demo_os) ATTR_POWER_LIMIT_MAX (Dbl 115) 8 =
           Inr ((0, Dbl 115), (\<lparr>pmc_cpu = 0\<rparr>, w')) \<and>
         pwr_pmcdev_read (\<lparr>pmc_cpu = 0\<rparr>, w') ATTR_POWER_LIMIT_MAX Uninit 8 (Some 0) =
           Inr ((0, Dbl y, Some (time_ns (clock pmc_demo_os (ticks pmc_demo_os)))),
                (\<lparr>pmc_cpu = 0\<rparr>, w'\<lparr>ticks := Suc (ticks pmc_demo_os)\<rparr>)) \<and>
         \<bar>y - 115\<bar> \<le> 1 / 2000000"
proof (rule pmc_power_cap_roundtrip)
  show "open_wr pmc_demo_os (pmc_path 0 3) \<noteq> None" by (simp add: pmc_demo_os_def open_wr_def)
  show "store pmc_demo_os (pmc_path 0 3) (fmt_lf 115) old = Some (fmt_lf 115 @ CHR '' '' # ''W'')" for old
    by (simp add: pmc_demo_os_def)
  show "micros 115 < 10 ^ 17" by (simp add: micros_def round_half_even_def)
qed

lemma pmc_demo_readv:
  "pwr_pmcdev_readv (\<lparr>pmc_cpu = 0\<rparr>, pmc_demo_os) [ATTR_ENERGY] [Uninit] [0] [0] =
   Inr ((0, [Uninit], [0], [-1]), (\<lparr>pmc_cpu = 0\<rparr>, pmc_demo_os))"
  by (simp add: pwr_pmcdev_readv_def readv_of_def pwr_pmcdev_read_def SIZEOF_DOUBLE_def pmc_counter_def
      pmcdev_read_def open_rd_def pmc_demo_os_def pmc_path_def show_nat.simps digit_char_def)

theorem pwr_pmcdev_readv_contract_witness:
  "pwr_pmcdev_readv (\<lparr>pmc_cpu = 0\<rparr>, pmc_demo_os) [ATTR_ENERGY] [Uninit] [0] [0] =
     Inr ((0, [Uninit], [0], [-1]), (\<lparr>pmc_cpu = 0\<rparr>, pmc_demo_os)) \<and>
   files pmc_demo_os = files pmc_demo_os \<and> [-1::int] ! 0 = - 1 \<and>
   ([-1::int] ! 0 = 0 \<or> [Uninit] ! 0 = [Uninit] ! 0 \<and> [0::64 word] ! 0 = [0] ! 0)"
  using pmc_demo_readv pwr_pmcdev_readv_contract [OF pmc_demo_readv] by simp

end
