(* ===== verification/Xtpm_Dev.thy ===== *)
theory Xtpm_Dev
  imports Counter_File
begin

text \<open>
  \<^verbatim>\<open>src/plugins/pwr_xtpmdev.c\<close>: the Cray power management counters, with the generation counter
  each read checks.
\<close>

text \<open>
  The descriptor keeps the generation counter read when it was opened; \<open>xtpm_dev\<close> is false when
  that read failed (the code then clears the device pointer).
\<close>

record xtpm_fd =
  xtpm_dev :: bool
  generation :: real

type_synonym xtpm_state = "xtpm_fd \<times> os"

definition xtpm_path :: "string \<Rightarrow> string" where
  "xtpm_path name = ''/sys/cray/pm_counters/'' @ name"

definition xtpmdev_read :: "os \<Rightarrow> string \<Rightarrow> ((int \<times> real option) \<times> os) res" where
  "xtpmdev_read w name =
     (case open_rd w (xtpm_path name) of
        None \<Rightarrow> Inr ((-1, None), w)
      | Some (Dir, w1) \<Rightarrow> Inr ((-1, None), sys_close w1)
      | Some (Regular c, w1) \<Rightarrow>
          rbind (counter_text c) (\<lambda>strval. Inr ((0, Some (atof strval)), sys_close w1)))"

definition xtpmdev_write :: "os \<Rightarrow> string \<Rightarrow> real \<Rightarrow> (int \<times> os) res" where
  "xtpmdev_write w name val =
     (case open_wr w (xtpm_path name) of
        None \<Rightarrow> Inr (-1, w)
      | Some w1 \<Rightarrow>
          rbind (sprintf_lf STRVAL_SIZE val) (\<lambda>strval.
          case write_file w1 (xtpm_path name) strval of
            None \<Rightarrow> Inr (-1, sys_close w1)
          | Some w2 \<Rightarrow> Inr (0, sys_close w2)))"

text \<open>\<^verbatim>\<open>bzero\<close> leaves the generation 0 when it cannot be read.\<close>

definition pwr_xtpmdev_open :: "os \<Rightarrow> (xtpm_fd \<times> os) res" where
  "pwr_xtpmdev_open w =
     rbind (xtpmdev_read w ''generation'') (\<lambda>((rc, x), w1).
       if rc < 0 then Inr (\<lparr>xtpm_dev = False, generation = 0\<rparr>, w1)
       else Inr (\<lparr>xtpm_dev = True, generation = (case x of Some g \<Rightarrow> g | None \<Rightarrow> 0)\<rparr>, w1))"

definition pwr_xtpmdev_close :: "xtpm_state \<Rightarrow> int \<times> os" where
  "pwr_xtpmdev_close s = free_fd s"

definition pwr_xtpmdev_final :: "xtpm_state devops \<times> os \<Rightarrow> int \<times> os" where
  "pwr_xtpmdev_final s = free_fd s"

definition xtpm_counter :: "attr \<Rightarrow> string option" where
  "xtpm_counter a =
     (case a of ATTR_ENERGY \<Rightarrow> Some ''energy'' | ATTR_POWER \<Rightarrow> Some ''power''
      | ATTR_POWER_LIMIT_MAX \<Rightarrow> Some ''power_cap'' | _ \<Rightarrow> None)"

definition pwr_xtpmdev_read :: "xtpm_state reader" where
  "pwr_xtpmdev_read s a v len t =
     (let (fd, w) = s
      in if \<not> xtpm_dev fd then Inr ((0, Dbl 0, t), s)
         else if len \<noteq> SIZEOF_DOUBLE then Inr ((-1, v, t), s)
         else rbind (case xtpm_counter a of
                       Some name \<Rightarrow> xtpmdev_read w name
                     | None \<Rightarrow> Inr ((0, None), w)) (\<lambda>((rc, x), w1).
              if rc < 0 then Inr ((RET_FAILURE, v, t), (fd, w1))
              else let v' = store_val v x; (tv, w2) = gettimeofday w1
                   in rbind (store_ts (time_ns tv) t) (\<lambda>t'.
                      rbind (xtpmdev_read w2 ''generation'') (\<lambda>((rc2, g), w3).
                      if rc2 < 0 then Inr ((RET_FAILURE, v', t'), (fd, w3))
                      else Inr ((RET_SUCCESS, v', t'),
                                (case g of Some y \<Rightarrow> fd\<lparr>generation := y\<rparr> | None \<Rightarrow> fd, w3))))))"

definition pwr_xtpmdev_write :: "xtpm_state writer" where
  "pwr_xtpmdev_write s a v len =
     (let (fd, w) = s
      in if \<not> xtpm_dev fd then Inr ((RET_FAILURE, v), s)
         else if len \<noteq> SIZEOF_DOUBLE then Inr ((RET_FAILURE, v), s)
         else if a = ATTR_POWER_LIMIT_MAX then
           rbind (load_double v) (\<lambda>x.
           rbind (xtpmdev_write w ''power_cap'' x) (\<lambda>(rc, w1).
           if rc < 0 then Inr ((RET_FAILURE, v), (fd, w1)) else Inr ((RET_SUCCESS, v), (fd, w1))))
         else Inr ((RET_SUCCESS, v), s))"

definition pwr_xtpmdev_readv :: "xtpm_state vreader" where
  "pwr_xtpmdev_readv = readv_of pwr_xtpmdev_read"

definition pwr_xtpmdev_writev :: "xtpm_state vwriter" where
  "pwr_xtpmdev_writev = writev_of pwr_xtpmdev_write"

definition pwr_xtpmdev_time :: "xtpm_state \<Rightarrow> ts_ptr \<Rightarrow> ((int \<times> ts_ptr) \<times> xtpm_state) res" where
  "pwr_xtpmdev_time = time_of_read pwr_xtpmdev_read ATTR_ENERGY"

definition pwr_xtpmdev_clear :: "xtpm_state \<Rightarrow> int \<times> xtpm_state" where
  "pwr_xtpmdev_clear s = (0, s)"

definition xtpm_ops :: "xtpm_state devops" where
  "xtpm_ops = \<lparr>d_read = pwr_xtpmdev_read, d_write = pwr_xtpmdev_write,
     d_readv = Some pwr_xtpmdev_readv, d_writev = Some pwr_xtpmdev_writev,
     d_log_start = None, d_log_stop = None, d_get_samples = None\<rparr>"

definition pwr_xtpmdev_init :: "string \<Rightarrow> xtpm_state devops" where
  "pwr_xtpmdev_init initstr = xtpm_ops"

lemma xtpmdev_read_frame: "xtpmdev_read w name = Inr ((rc, x), w') \<Longrightarrow> w' = w"
  by (auto simp: xtpmdev_read_def res_simps dest: open_rd_close split: option.splits fnode.splits prod.splits)

lemma pwr_xtpmdev_read_frame:
  "pwr_xtpmdev_read s a v len t = Inr ((rc, v', t'), s') \<Longrightarrow> same_files (snd s) (snd s')"
  by (auto simp: pwr_xtpmdev_read_def res_simps Let_def gettimeofday_def same_files_def
      dest!: xtpmdev_read_frame split: prod.splits if_splits option.splits)

text \<open>Not a careful reader: see the property on a failing generation read below.\<close>

interpretation xtpm: attr_reader pwr_xtpmdev_read snd
proof
  fix s :: xtpm_state and a v len t rc v' t' s'
  assume r: "pwr_xtpmdev_read s a v len t = Inr ((rc, v', t'), s')"
  show "rc = 0 \<or> rc = - 1" and "t' = None \<longleftrightarrow> t = None"
    using r by (auto simp: pwr_xtpmdev_read_def res_simps Let_def RET_SUCCESS_def RET_FAILURE_def
        split: prod.splits if_splits option.splits)
  show "files (snd s') = files (snd s) \<and> wlog (snd s') = wlog (snd s)"
    using pwr_xtpmdev_read_frame [OF r] by (simp add: same_files_def)
qed

interpretation xtpmw: attr_writer pwr_xtpmdev_write
proof
  fix s :: xtpm_state and a v len rc v' s'
  assume "pwr_xtpmdev_write s a v len = Inr ((rc, v'), s')"
  then show "rc = 0 \<or> rc = - 1"
    by (auto simp: pwr_xtpmdev_write_def res_simps Let_def RET_SUCCESS_def RET_FAILURE_def
        split: prod.splits if_splits)
qed

text \<open>The plugin's description.\<close>

definition pwr_xtpm_readObjs :: "nat \<Rightarrow> obj_type list \<Rightarrow> obj_type list res" where
  "pwr_xtpm_readObjs n buf = fill [OBJ_NODE] buf"

definition pwr_xtpm_numObjs :: nat where
  "pwr_xtpm_numObjs = 1"

definition pwr_xtpm_readAttrs :: "obj_type \<Rightarrow> nat \<Rightarrow> attr list \<Rightarrow> attr list res" where
  "pwr_xtpm_readAttrs t n buf = fill [ATTR_ENERGY, ATTR_POWER, ATTR_POWER_LIMIT_MAX] buf"

definition pwr_xtpm_numAttrs :: "obj_type \<Rightarrow> nat" where
  "pwr_xtpm_numAttrs t = 3"

definition xtpm_meta :: plugin_meta where
  "xtpm_meta = \<lparr>numObjs = pwr_xtpm_numObjs, readObjs = pwr_xtpm_readObjs,
     numAttrs = pwr_xtpm_numAttrs, readAttrs = pwr_xtpm_readAttrs,
     getDevName = (\<lambda>_ len. strncpy len ''pwr_xtpm_dev0''),
     getDevOpenStr = open_str_type_index,
     getDevInitStr = (\<lambda>_ len. strncpy len []),
     getPluginName = (\<lambda>len. strncpy len ''XTPM'')\<rparr>"

interpretation xtpm_tab: meta_table xtpm_meta "[OBJ_NODE]"
  "\<lambda>_. [ATTR_ENERGY, ATTR_POWER, ATTR_POWER_LIMIT_MAX]"
  by unfold_locales
    (simp_all add: xtpm_meta_def pwr_xtpm_numObjs_def pwr_xtpm_readObjs_def pwr_xtpm_numAttrs_def
      pwr_xtpm_readAttrs_def fill_exact)

subsection \<open>Properties\<close>

lemma xtpmdev_read_ok:
  "files w (xtpm_path name) = Some (Regular (p @ CHR '' '' # t)) \<Longrightarrow> CHR '' '' \<notin> set p \<Longrightarrow> length p < 20 \<Longrightarrow>
   xtpmdev_read w name = Inr ((0, Some (atof (p @ '' ''))), w)"
  by (simp add: xtpmdev_read_def open_rd_def sys_close_def counter_text_def STRVAL_SIZE_def
      scan_counter_found)

lemma xtpmdev_read_missing:
  "files w (xtpm_path name) = None \<Longrightarrow> xtpmdev_read w name = Inr ((-1, None), w)"
  by (simp add: xtpmdev_read_def open_rd_def)

text \<open>
  The generation check comes after the results are stored: when the counter of the attribute
  reads well but the generation counter has gone, the caller gets the failure code together with
  the new value and the new time stamp.
\<close>

theorem xtpm_read_generation_lost:
  assumes dev: "xtpm_dev fd"
    and cnt: "xtpm_counter a = Some name"
    and val: "files w (xtpm_path name) = Some (Regular (p @ CHR '' '' # r))"
    and num: "CHR '' '' \<notin> set p" "length p < 20"
    and lost: "files w (xtpm_path ''generation'') = None"
  shows "pwr_xtpmdev_read (fd, w) a v 8 (Some t) =
     Inr ((RET_FAILURE, Dbl (atof (p @ '' '')), Some (time_ns (clock w (ticks w)))),
          (fd, w\<lparr>ticks := Suc (ticks w)\<rparr>))"
proof -
  have "xtpmdev_read w name = Inr ((0, Some (atof (p @ '' ''))), w)"
    by (rule xtpmdev_read_ok) (use val num in simp_all)
  moreover have "xtpmdev_read (w\<lparr>ticks := Suc (ticks w)\<rparr>) ''generation'' = Inr ((-1, None), w\<lparr>ticks := Suc (ticks w)\<rparr>)"
    by (rule xtpmdev_read_missing) (use lost in simp)
  ultimately show ?thesis
    using dev cnt by (simp add: pwr_xtpmdev_read_def SIZEOF_DOUBLE_def gettimeofday_def)
qed

text \<open>
  After a successful read the descriptor holds the generation the system reported at that
  read, and the value is the one in the attribute's counter file.
\<close>

theorem xtpm_read_tracks_generation:
  assumes dev: "xtpm_dev fd"
    and cnt: "xtpm_counter a = Some name"
    and val: "files w (xtpm_path name) = Some (Regular (p @ CHR '' '' # r))"
    and num: "CHR '' '' \<notin> set p" "length p < 20"
    and gen: "files w (xtpm_path ''generation'') = Some (Regular (g @ CHR '' '' # q))"
    and gnum: "CHR '' '' \<notin> set g" "length g < 20"
  shows "pwr_xtpmdev_read (fd, w) a v 8 (Some t) =
     Inr ((RET_SUCCESS, Dbl (atof (p @ '' '')), Some (time_ns (clock w (ticks w)))),
          (fd\<lparr>generation := atof (g @ '' '')\<rparr>, w\<lparr>ticks := Suc (ticks w)\<rparr>))"
proof -
  have "xtpmdev_read w name = Inr ((0, Some (atof (p @ '' ''))), w)"
    by (rule xtpmdev_read_ok) (use val num in simp_all)
  moreover have "xtpmdev_read (w\<lparr>ticks := Suc (ticks w)\<rparr>) ''generation'' =
      Inr ((0, Some (atof (g @ '' ''))), w\<lparr>ticks := Suc (ticks w)\<rparr>)"
    by (rule xtpmdev_read_ok) (use gen gnum in simp_all)
  ultimately show ?thesis
    using dev cnt by (simp add: pwr_xtpmdev_read_def SIZEOF_DOUBLE_def gettimeofday_def)
qed

definition xtpm_demo_os :: os where
  "xtpm_demo_os = \<lparr>files = [xtpm_path ''power'' \<mapsto> Regular ''225 W 99''], can_write = (\<lambda>_. False),
     store = (\<lambda>_ _ _. None), wlog = [], fds = 0,
     clock = (\<lambda>n. \<lparr>tv_sec = int n, tv_usec = 0\<rparr>), ticks = 0, msr = (\<lambda>_ _. None)\<rparr>"

definition xtpm_demo_os2 :: os where
  "xtpm_demo_os2 = xtpm_demo_os
     \<lparr>files := [xtpm_path ''power'' \<mapsto> Regular ''225 W 99'', xtpm_path ''generation'' \<mapsto> Regular ''7 x'']\<rparr>"

theorem xtpm_read_generation_lost_witness:
  "pwr_xtpmdev_read (\<lparr>xtpm_dev = True, generation = 1\<rparr>, xtpm_demo_os) ATTR_POWER Uninit 8 (Some 5) =
     Inr ((RET_FAILURE, Dbl (atof (''225'' @ '' '')),
           Some (time_ns (clock xtpm_demo_os (ticks xtpm_demo_os)))),
          (\<lparr>xtpm_dev = True, generation = 1\<rparr>, xtpm_demo_os\<lparr>ticks := Suc (ticks xtpm_demo_os)\<rparr>))"
  by (rule xtpm_read_generation_lost [where name = "''power''" and r = "''W 99''"])
    (simp_all add: xtpm_demo_os_def xtpm_counter_def xtpm_path_def)

theorem xtpm_read_tracks_generation_witness:
  "pwr_xtpmdev_read (\<lparr>xtpm_dev = True, generation = 1\<rparr>, xtpm_demo_os2) ATTR_POWER Uninit 8 (Some 5) =
     Inr ((RET_SUCCESS, Dbl (atof (''225'' @ '' '')),
           Some (time_ns (clock xtpm_demo_os2 (ticks xtpm_demo_os2)))),
          (\<lparr>xtpm_dev = True, generation = 1\<rparr>\<lparr>generation := atof (''7'' @ '' '')\<rparr>,
           xtpm_demo_os2\<lparr>ticks := Suc (ticks xtpm_demo_os2)\<rparr>))"
  by (rule xtpm_read_tracks_generation [where name = "''power''" and r = "''W 99''" and q = "''x''"])
    (simp_all add: xtpm_demo_os2_def xtpm_demo_os_def xtpm_counter_def xtpm_path_def)

end
