(* ===== verification/Cpu_Dev.thy ===== *)
theory Cpu_Dev
  imports Counter_File
begin

text \<open>
  \<^verbatim>\<open>src/plugins/pwr_cpudev.c\<close>: sleep state and frequency of a processor, and the list of available
  frequencies read at initialisation.
\<close>

record cpu_dev =
  num_cpus :: nat
  num_freq :: nat
  avail_freqlist :: "int list"

record cpu_fd =
  cpu_num :: int

type_synonym cpu_state = "cpu_fd \<times> os"

definition cpu_path :: "int \<Rightarrow> string \<Rightarrow> string" where
  "cpu_path cpu name = ''/sys/devices/system/cpu/cpu'' @ show_int cpu @ CHR ''/'' # name"

text \<open>No path of this function closes the file it opened.\<close>

definition cpudev_read :: "os \<Rightarrow> int \<Rightarrow> string \<Rightarrow> ((int \<times> real option) \<times> os) res" where
  "cpudev_read w cpu name =
     (case open_rd w (cpu_path cpu name) of
        None \<Rightarrow> Inr ((-1, None), w)
      | Some (Dir, w1) \<Rightarrow> Inr ((-1, None), w1)
      | Some (Regular c, w1) \<Rightarrow>
          rbind (counter_text c) (\<lambda>strval. Inr ((0, Some (atof strval)), w1)))"

definition cpudev_write :: "os \<Rightarrow> int \<Rightarrow> string \<Rightarrow> real \<Rightarrow> (int \<times> os) res" where
  "cpudev_write w cpu name val =
     (case open_wr w (cpu_path cpu name) of
        None \<Rightarrow> Inr (-1, w)
      | Some w1 \<Rightarrow>
          rbind (sprintf_lf STRVAL_SIZE val) (\<lambda>strval.
          case write_file w1 (cpu_path cpu name) strval of
            None \<Rightarrow> Inr (-1, sys_close w1)
          | Some w2 \<Rightarrow> Inr (0, sys_close w2)))"

text \<open>
  The list of frequencies.  \<^verbatim>\<open>val\<close> is a buffer of 20 characters that is never cleared: after the
  first number, \<^verbatim>\<open>atoi\<close> sees the new digits followed by what is left of the older, longer number.
  The increment of the counter is an argument of a debug print: it happens only when the debug
  output of plugins is switched on (\<open>dbg\<close>).
\<close>

definition c_str :: "char list \<Rightarrow> string" where
  "c_str buf = takeWhile (\<lambda>c. c \<noteq> CHR 0x00) buf"

fun avail_freq_loop ::
  "bool \<Rightarrow> string \<Rightarrow> char list \<Rightarrow> nat \<Rightarrow> int list \<Rightarrow> nat \<Rightarrow> (int list \<times> nat) res" where
  "avail_freq_loop dbg [] val offset freq count = Inr (freq, count)"
| "avail_freq_loop dbg (c # cs) val offset freq count =
     (if is_digit c then
        rbind (arr_set val offset c) (\<lambda>val'. avail_freq_loop dbg cs val' (Suc offset) freq count)
      else if c = CHR '' '' then
        c_assert (offset \<noteq> 0)
          (rbind (arr_set freq count (atoi (c_str val))) (\<lambda>freq'.
             avail_freq_loop dbg cs val 0 freq' (if dbg then Suc count else count)))
      else avail_freq_loop dbg cs val offset freq count)"

definition pstates_path :: string where
  "pstates_path = ''/sys/devices/system/cpu/intel_pstate/num_pstates''"

definition cpudev_avail_freq ::
  "bool \<Rightarrow> os \<Rightarrow> int list \<Rightarrow> nat \<Rightarrow> ((int list \<times> nat) \<times> os) res" where
  "cpudev_avail_freq dbg w freq count =
     (case open_rd w pstates_path of
        None \<Rightarrow> Inl AssertFailed
      | Some (Dir, w1) \<Rightarrow> Inr ((freq, count), sys_close w1)
      | Some (Regular c, w1) \<Rightarrow>
          rbind (avail_freq_loop dbg c (replicate 20 (CHR 0x00)) 0 freq count) (\<lambda>r.
          Inr (r, sys_close w1)))"

text \<open>\<open>ncpu\<close> is what \<^verbatim>\<open>sysconf(_SC_NPROCESSORS_CONF)\<close> returns.\<close>

definition pwr_cpudev_init :: "bool \<Rightarrow> nat \<Rightarrow> os \<Rightarrow> (cpu_dev \<times> os) res" where
  "pwr_cpudev_init dbg ncpu w =
     rbind (cpudev_avail_freq dbg w (replicate 100 0) 0) (\<lambda>((freq, count), w1).
     Inr (\<lparr>num_cpus = ncpu, num_freq = count, avail_freqlist = freq\<rparr>, w1))"

definition pwr_cpudev_open :: "string option \<Rightarrow> cpu_fd option" where
  "pwr_cpudev_open openstr =
     (case openstr of
        None \<Rightarrow> None
      | Some s \<Rightarrow> (case strtok '':'' s of
                    None \<Rightarrow> None
                  | Some (token, _) \<Rightarrow> Some \<lparr>cpu_num = atoi token\<rparr>))"

definition pwr_cpudev_close :: "cpu_state \<Rightarrow> int \<times> os" where
  "pwr_cpudev_close s = free_fd s"

definition pwr_cpudev_final :: "cpu_dev \<times> os \<Rightarrow> int \<times> os" where
  "pwr_cpudev_final s = free_fd s"

definition pwr_cpudev_read :: "cpu_state reader" where
  "pwr_cpudev_read s a v len t =
     (let (fd, w) = s
      in if len \<noteq> 8 then Inr ((-1, v, t), s)
         else rbind (case a of
                       ATTR_PSTATE \<Rightarrow> Inr ((0, U64 0), w)
                     | ATTR_CSTATE \<Rightarrow> Inr ((0, U64 0), w)
                     | ATTR_SSTATE \<Rightarrow>
                         rbind (cpudev_read w (cpu_num fd) ''online'') (\<lambda>((rc, x), w1).
                         Inr ((rc, store_val v x), w1))
                     | ATTR_FREQ \<Rightarrow>
                         rbind (cpudev_read w (cpu_num fd) ''cpufreq'') (\<lambda>((rc, x), w1).
                         Inr ((rc, store_val v x), w1))
                     | ATTR_TEMP \<Rightarrow> Inr ((0, Dbl 0), w)
                     | _ \<Rightarrow> Inr ((0, v), w)) (\<lambda>((rc, v'), w1).
              if rc < 0 then Inr ((-1, v', t), (fd, w1))
              else let (tv, w2) = gettimeofday w1
                   in rbind (store_ts (time_ns tv) t) (\<lambda>t'. Inr ((0, v', t'), (fd, w2)))))"

text \<open>Writing a P- or C-state stores 0 into the caller's buffer and nothing into the system.\<close>

definition pwr_cpudev_write :: "cpu_state writer" where
  "pwr_cpudev_write s a v len =
     (let (fd, w) = s
      in if len \<noteq> 8 then Inr ((-1, v), s)
         else case a of
                ATTR_PSTATE \<Rightarrow> Inr ((0, U64 0), s)
              | ATTR_CSTATE \<Rightarrow> Inr ((0, U64 0), s)
              | ATTR_SSTATE \<Rightarrow>
                  rbind (load_double v) (\<lambda>x.
                  rbind (cpudev_write w (cpu_num fd) ''online'' x) (\<lambda>(rc, w1).
                  Inr ((if rc < 0 then -1 else 0, v), (fd, w1))))
              | ATTR_FREQ \<Rightarrow>
                  rbind (load_double v) (\<lambda>x.
                  rbind (cpudev_write w (cpu_num fd) ''cpufreq'' x) (\<lambda>(rc, w1).
                  Inr ((if rc < 0 then -1 else 0, v), (fd, w1))))
              | ATTR_TEMP \<Rightarrow> Inr ((0, Dbl 0), s)
              | _ \<Rightarrow> Inr ((0, v), s))"

definition pwr_cpudev_readv :: "cpu_state vreader" where
  "pwr_cpudev_readv = readv_of pwr_cpudev_read"

definition pwr_cpudev_writev :: "cpu_state vwriter" where
  "pwr_cpudev_writev = writev_of pwr_cpudev_write"

definition pwr_cpudev_time :: "cpu_state \<Rightarrow> ts_ptr \<Rightarrow> ((int \<times> ts_ptr) \<times> cpu_state) res" where
  "pwr_cpudev_time = time_of_read pwr_cpudev_read ATTR_FREQ"

definition pwr_cpudev_clear :: "cpu_state \<Rightarrow> int \<times> cpu_state" where
  "pwr_cpudev_clear s = (0, s)"

definition cpu_ops :: "cpu_state devops" where
  "cpu_ops = \<lparr>d_read = pwr_cpudev_read, d_write = pwr_cpudev_write,
     d_readv = Some pwr_cpudev_readv, d_writev = Some pwr_cpudev_writev,
     d_log_start = None, d_log_stop = None, d_get_samples = None\<rparr>"

lemma cpudev_read_frame:
  "cpudev_read w cpu name = Inr ((rc, x), w') \<Longrightarrow>
   w' = (if files w (cpu_path cpu name) = None then w else w\<lparr>fds := Suc (fds w)\<rparr>)"
  by (auto simp: cpudev_read_def res_simps open_rd_def split: option.splits fnode.splits prod.splits)

lemma cpudev_read_rc:
  "cpudev_read w cpu name = Inr ((rc, x), w') \<Longrightarrow> rc = 0 \<and> x \<noteq> None \<or> rc = - 1 \<and> x = None"
  by (auto simp: cpudev_read_def res_simps split: option.splits fnode.splits prod.splits)

interpretation cpu: careful_reader pwr_cpudev_read snd
proof
  fix s :: cpu_state and a v len t rc v' t' s'
  assume r: "pwr_cpudev_read s a v len t = Inr ((rc, v', t'), s')"
  show "rc = 0 \<or> rc = - 1" and "t' = None \<longleftrightarrow> t = None" and "rc \<noteq> 0 \<Longrightarrow> v' = v \<and> t' = t"
    using r by (cases a; auto simp: pwr_cpudev_read_def res_simps Let_def
        dest: cpudev_read_rc split: prod.splits if_splits)+
  show "files (snd s') = files (snd s) \<and> wlog (snd s') = wlog (snd s)"
    using r by (cases a; auto simp: pwr_cpudev_read_def res_simps Let_def gettimeofday_def
        dest!: cpudev_read_frame split: prod.splits if_splits)
qed

interpretation cpuw: attr_writer pwr_cpudev_write
proof
  fix s :: cpu_state and a v len rc v' s'
  assume "pwr_cpudev_write s a v len = Inr ((rc, v'), s')"
  then show "rc = 0 \<or> rc = - 1"
    by (cases a; auto simp: pwr_cpudev_write_def res_simps Let_def split: prod.splits if_splits)
qed

definition pwr_cpudev_numObjs :: nat where
  "pwr_cpudev_numObjs = 1"

definition pwr_cpudev_readObjs :: "nat \<Rightarrow> obj_type list \<Rightarrow> obj_type list res" where
  "pwr_cpudev_readObjs n buf = fill [OBJ_CORE] buf"

definition pwr_cpudev_numAttrs :: "obj_type \<Rightarrow> nat" where
  "pwr_cpudev_numAttrs t = 2"

definition pwr_cpudev_readAttrs :: "obj_type \<Rightarrow> nat \<Rightarrow> attr list \<Rightarrow> attr list res" where
  "pwr_cpudev_readAttrs t n buf = fill [ATTR_SSTATE, ATTR_FREQ] buf"

definition cpu_meta :: plugin_meta where
  "cpu_meta = \<lparr>numObjs = pwr_cpudev_numObjs, readObjs = pwr_cpudev_readObjs,
     numAttrs = pwr_cpudev_numAttrs, readAttrs = pwr_cpudev_readAttrs,
     getDevName = (\<lambda>_ len. strncpy len ''cpu_dev0''),
     getDevOpenStr = open_str_index,
     getDevInitStr = (\<lambda>_ len. strncpy len []),
     getPluginName = (\<lambda>len. strncpy len ''CPU'')\<rparr>"

interpretation cpu_tab: meta_table cpu_meta "[OBJ_CORE]" "\<lambda>_. [ATTR_SSTATE, ATTR_FREQ]"
  by unfold_locales
    (simp_all add: cpu_meta_def pwr_cpudev_numObjs_def pwr_cpudev_readObjs_def
      pwr_cpudev_numAttrs_def pwr_cpudev_readAttrs_def fill_exact)

subsection \<open>Properties\<close>

text \<open>
  A processor file that holds no space, as \<^verbatim>\<open>cpuN/online\<close> does, makes every read of the sleep
  state run past the 20-byte buffer.
\<close>

theorem cpu_sstate_overrun:
  assumes "files w (cpu_path (cpu_num fd) ''online'') = Some (Regular c)"
    and "CHR '' '' \<notin> set c"
  shows "pwr_cpudev_read (fd, w) ATTR_SSTATE v 8 t = Inl MemoryFault"
  using assms by (simp add: pwr_cpudev_read_def cpudev_read_def open_rd_def counter_text_no_space)

text \<open>
  Each successful read of a processor file leaves one more descriptor open, so an array read
  that asks for the frequency \<open>n\<close> times and succeeds leaks \<open>n\<close> descriptors.
\<close>

lemma cpu_read_leak:
  assumes "pwr_cpudev_read s ATTR_FREQ v 8 t = Inr ((0, v', t'), s')"
  shows "fds (snd s') = Suc (fds (snd s)) \<and> files (snd s') = files (snd s) \<and> fst s' = fst s"
  using assms
  by (auto simp: pwr_cpudev_read_def cpudev_read_def res_simps open_rd_def gettimeofday_def Let_def
      split: prod.splits option.splits fnode.splits if_splits)

theorem cpu_readv_leaks:
  assumes "pwr_cpudev_readv s (replicate n ATTR_FREQ) vs ts st = Inr ((0, vs', ts', st'), s')"
    and "list_all (\<lambda>rc. rc = 0) (take n st')"
  shows "fds (snd s') = fds (snd s) + n"
proof -
  from assms(1) have "readv_loop pwr_cpudev_read s (replicate n ATTR_FREQ) vs ts st = Inr ((vs', ts', st'), s')"
    by (auto simp: pwr_cpudev_readv_def readv_of_def res_simps)
  then show ?thesis using assms(2)
  proof (induction n arbitrary: s vs ts st vs' ts' st')
    case (Suc n)
    from Suc.prems(1) [simplified] show ?case
    proof (rule readv_loop_ConsE)
      fix v vs0 t ts0 x st0 rc v' t' s1 vs1 ts1 st1
      assume rd: "pwr_cpudev_read s ATTR_FREQ v SIZEOF_DOUBLE (Some t) = Inr ((rc, v', t'), s1)"
        and rest: "readv_loop pwr_cpudev_read s1 (replicate n ATTR_FREQ) vs0 ts0 st0 = Inr ((vs1, ts1, st1), s')"
        and st: "st' = rc # st1"
      from st Suc.prems(2) have "rc = 0" and "list_all (\<lambda>rc. rc = 0) (take n st1)" by simp_all
      with Suc.IH [OF rest] cpu_read_leak [of s v "Some t" v' t' s1] rd show ?thesis
        by (simp add: SIZEOF_DOUBLE_def)
    qed
  qed simp
qed

text \<open>
  Without the debug output of plugins, initialisation records no frequency at all: the
  counter is incremented only inside the debug print.
\<close>

lemma avail_freq_loop_count:
  "avail_freq_loop False cs val off freq n = Inr (freq', n') \<Longrightarrow> n' = n"
  by (induction cs arbitrary: val off freq) (auto simp: res_simps split: if_splits)

theorem cpu_init_no_freq:
  assumes "pwr_cpudev_init False ncpu w = Inr (d, w')"
  shows "num_freq d = 0 \<and> num_cpus d = ncpu"
  using assms avail_freq_loop_count
  by (fastforce simp: pwr_cpudev_init_def cpudev_avail_freq_def res_simps
      split: option.splits fnode.splits prod.splits)

text \<open>
  With the debug output on, a shorter number after a longer one keeps the longer one's last
  digits: the list \<^verbatim>\<open>1200000 800000\<close> is recorded as 1200000 and 8000000.
\<close>

theorem cpu_freq_stale_digits:
  "avail_freq_loop True ''1200000 800000 '' (replicate 20 (CHR 0x00)) 0 (replicate 100 0) 0 =
   Inr ((replicate 100 0)[0 := 1200000, 1 := 8000000], 2)"
proof -
  have r20: "replicate 20 (CHR 0x00) = replicate 7 (CHR 0x00) @ replicate 13 (CHR 0x00)"
    by (simp flip: replicate_add)
  have r7: "replicate 7 (CHR 0x00) = [CHR 0x00, CHR 0x00, CHR 0x00, CHR 0x00, CHR 0x00, CHR 0x00, CHR 0x00]"
    by (simp add: eval_nat_numeral)
  have c1: "atoi (c_str (''1200000'' @ replicate 13 (CHR 0x00))) = 1200000"
    by (simp add: c_str_def atoi_def scan_int_def skip_space_def scan_unsigned_def is_digit_def
        is_space_def char_code_def digit_val_def c_int_id int32_def)
  have c2: "atoi (c_str (''8000000'' @ replicate 13 (CHR 0x00))) = 8000000"
    by (simp add: c_str_def atoi_def scan_int_def skip_space_def scan_unsigned_def is_digit_def
        is_space_def char_code_def digit_val_def c_int_id int32_def)
  show ?thesis
    using c1 c2 by (simp add: r20 r7 is_digit_def char_code_def arr_set_def eval_nat_numeral)
qed

text \<open>
  The open string the plugin prints for a processor opens exactly that processor.
\<close>

theorem cpu_open_roundtrip:
  assumes "int32 i"
  shows "pwr_cpudev_open (Some (getDevOpenStr cpu_meta t i 100)) = Some \<lparr>cpu_num = i\<rparr>"
  using assms by (simp add: pwr_cpudev_open_def cpu_meta_def open_str_index_100 strtok_colon_show_int atoi_show_int)

theorem cpu_open_roundtrip_witness:
  "pwr_cpudev_open (Some (getDevOpenStr cpu_meta OBJ_CORE 17 100)) = Some \<lparr>cpu_num = 17\<rparr>"
  by (rule cpu_open_roundtrip) (simp add: int32_def)

definition cpu_demo_os :: os where
  "cpu_demo_os = \<lparr>files = [cpu_path 0 ''online'' \<mapsto> Regular ''1'', cpu_path 0 ''cpufreq'' \<mapsto> Regular ''5 '',
                           pstates_path \<mapsto> Regular ''12 34 ''],
     can_write = (\<lambda>_. False), store = (\<lambda>_ _ _. None), wlog = [], fds = 0,
     clock = (\<lambda>n. \<lparr>tv_sec = int n, tv_usec = 0\<rparr>), ticks = 0, msr = (\<lambda>_ _. None)\<rparr>"

theorem cpu_sstate_overrun_witness:
  "pwr_cpudev_read (\<lparr>cpu_num = 0\<rparr>, cpu_demo_os) ATTR_SSTATE Uninit 8 (Some 0) = Inl MemoryFault"
  by (rule cpu_sstate_overrun [where c = "''1''"]) (simp_all add: cpu_demo_os_def cpu_path_def pstates_path_def)

lemma cpu_demo_readv:
  "\<exists>vs ts s'. pwr_cpudev_readv (\<lparr>cpu_num = 0\<rparr>, cpu_demo_os) (replicate 1 ATTR_FREQ) [Uninit] [0] [9] =
     Inr ((0, vs, ts, [0]), s') \<and> fds (snd s') = 1"
  by (simp add: pwr_cpudev_readv_def readv_of_def pwr_cpudev_read_def SIZEOF_DOUBLE_def cpudev_read_def
      open_rd_def cpu_demo_os_def cpu_path_def pstates_path_def counter_text_def STRVAL_SIZE_def
      gettimeofday_def eval_nat_numeral)

theorem cpu_readv_leaks_witness:
  "\<exists>vs ts s'. pwr_cpudev_readv (\<lparr>cpu_num = 0\<rparr>, cpu_demo_os) (replicate 1 ATTR_FREQ) [Uninit] [0] [9] =
     Inr ((0, vs, ts, [0]), s') \<and> fds (snd s') = fds cpu_demo_os + 1"
proof -
  obtain vs ts s' where r: "pwr_cpudev_readv (\<lparr>cpu_num = 0\<rparr>, cpu_demo_os) (replicate 1 ATTR_FREQ)
      [Uninit] [0] [9] = Inr ((0, vs, ts, [0]), s')"
    using cpu_demo_readv by blast
  from cpu_readv_leaks [OF r] have "fds (snd s') = fds cpu_demo_os + 1" by simp
  with r show ?thesis by blast
qed

lemma cpu_demo_init:
  "\<exists>d w'. pwr_cpudev_init False 4 cpu_demo_os = Inr (d, w') \<and> num_freq d = 0"
  by (simp add: pwr_cpudev_init_def cpudev_avail_freq_def open_rd_def cpu_demo_os_def cpu_path_def
      pstates_path_def is_digit_def char_code_def arr_set_def c_assert_def eval_nat_numeral)

theorem cpu_init_no_freq_witness:
  "\<exists>d w'. pwr_cpudev_init False 4 cpu_demo_os = Inr (d, w') \<and> num_freq d = 0 \<and> num_cpus d = 4"
proof -
  obtain d w' where r: "pwr_cpudev_init False 4 cpu_demo_os = Inr (d, w')"
    using cpu_demo_init by blast
  from r cpu_init_no_freq [OF r] show ?thesis by blast
qed

end
