(* ===== verification/Rapl_Dev.thy ===== *)
theory Rapl_Dev
  imports Cpu_Ident
begin

unbundle bit_operations_syntax

text \<open>
  \<^verbatim>\<open>src/plugins/pwr_rapldev.c\<close>: Intel running average power limit counters, read from the
  model-specific registers of a processor.  The device structure holds the register file opened
  for a package, the processor model and the decoded units, power information and limits; a
  descriptor names a package device and the layers whose counters are added up.
\<close>

subsection \<open>Registers and fields\<close>

definition MSR_RAPL_POWER_UNIT :: nat where "MSR_RAPL_POWER_UNIT = 0x606"
definition MSR_POWER_LIMIT :: nat where "MSR_POWER_LIMIT = 0x610"
definition MSR_ENERGY_STATUS :: nat where "MSR_ENERGY_STATUS = 0x611"
definition MSR_PERF_STATUS :: nat where "MSR_PERF_STATUS = 0x613"
definition MSR_POWER_INFO :: nat where "MSR_POWER_INFO = 0x614"
definition MSR_PP0_ENERGY_STATUS :: nat where "MSR_PP0_ENERGY_STATUS = 0x639"
definition MSR_PP0_POLICY_STATUS :: nat where "MSR_PP0_POLICY_STATUS = 0x63a"
definition MSR_PP0_PERF_STATUS :: nat where "MSR_PP0_PERF_STATUS = 0x63b"
definition MSR_PP1_ENERGY_STATUS :: nat where "MSR_PP1_ENERGY_STATUS = 0x641"
definition MSR_PP1_POLICY_STATUS :: nat where "MSR_PP1_POLICY_STATUS = 0x642"
definition MSR_DRAM_ENERGY_STATUS :: nat where "MSR_DRAM_ENERGY_STATUS = 0x619"

lemmas msr_addrs =
  MSR_RAPL_POWER_UNIT_def MSR_POWER_LIMIT_def MSR_ENERGY_STATUS_def MSR_PERF_STATUS_def
  MSR_POWER_INFO_def MSR_PP0_ENERGY_STATUS_def MSR_PP0_POLICY_STATUS_def
  MSR_PP0_PERF_STATUS_def MSR_PP1_ENERGY_STATUS_def MSR_PP1_POLICY_STATUS_def
  MSR_DRAM_ENERGY_STATUS_def

text \<open>
  \<^verbatim>\<open>#define MSR(X,Y,Z) ((X>>Y)&Z)\<close> and \<^verbatim>\<open>#define MSR_BIT(X,Y) ((X&(1LL<<Y))?1:0)\<close> on a
  \<^verbatim>\<open>long long\<close>: the shift is arithmetic.
\<close>

definition MSR_FIELD :: "64 word \<Rightarrow> nat \<Rightarrow> 64 word \<Rightarrow> 64 word" where
  "MSR_FIELD x sh msk = signed_drop_bit sh x AND msk"

definition MSR_BIT :: "64 word \<Rightarrow> nat \<Rightarrow> bool" where
  "MSR_BIT x n \<longleftrightarrow> bit x n"

text \<open>\<^verbatim>\<open>(double)msr\<close> for a signed register value, and for a field (which is never negative).\<close>

definition msr_double :: "64 word \<Rightarrow> real" where
  "msr_double x = of_int (sint x)"

subsection \<open>Data\<close>

text \<open>\<^verbatim>\<open>INTEL_LAYER_DRAM\<close> is the same enumerator value as \<^verbatim>\<open>INTEL_LAYER_PP1\<close>.\<close>

datatype layer = LAYER_INVALID | LAYER_PKG | LAYER_PP0 | LAYER_PP1

definition LAYER_DRAM :: layer where
  "LAYER_DRAM = LAYER_PP1"

record units =
  u_power :: real
  u_energy :: real
  u_time :: real

record power_info =
  thermal :: real
  minimum :: real
  maximum :: real
  window :: real

record limit =
  power1 :: real
  window1 :: real
  enabled1 :: bool
  clamped1 :: bool
  power2 :: real
  window2 :: real
  enabled2 :: bool
  clamped2 :: bool

record rapl_dev =
  rd_fd :: string
  cpu_model :: int
  units :: units
  pinfo :: power_info
  plimit :: limit

text \<open>A package device is \<open>None\<close> when its initialisation returned a null pointer.\<close>

record rapl_private =
  numPkgs :: nat
  pkgs :: "rapl_dev option list"

definition MAX_NUM_PKGS :: nat where
  "MAX_NUM_PKGS = 8"

definition MAX_CPU :: nat where
  "MAX_CPU = 512"

text \<open>\<open>r_layers = None\<close>: the open switch set no layers, \<^verbatim>\<open>numLayers\<close> holds what \<^verbatim>\<open>malloc\<close> left.\<close>

record rapl_fd =
  r_dev :: "rapl_dev option"
  r_layers :: "layer list option"

type_synonym rapl_state = "rapl_fd \<times> os"

definition rapldev_parse_open :: "string \<Rightarrow> layer" where
  "rapldev_parse_open name =
     (if name = ''pkg'' then LAYER_PKG
      else if name = ''pp0'' then LAYER_PP0
      else if name = ''pp1'' then LAYER_PP1
      else if name = ''dram'' then LAYER_DRAM
      else LAYER_INVALID)"

subsection \<open>Identifying the processor\<close>

definition rapl_models :: "int list" where
  "rapl_models = [42, 45, 58, 62, 60]"

definition rapl_chip :: chip where
  "rapl_chip = \<lparr>ch_vendor = ''GenuineIntel'', ch_family = 6, ch_models = rapl_models\<rparr>"

definition rapldev_identify :: "os \<Rightarrow> int \<Rightarrow> (int \<times> int) res" where
  "rapldev_identify w model = cpu_identify rapl_chip w model"

subsection \<open>Reading registers\<close>

text \<open>\<^verbatim>\<open>rapldev_read\<close>: \<open>None\<close> is the return value -1, else the value stored through \<^verbatim>\<open>msr\<close>.\<close>

definition rapldev_read :: "os \<Rightarrow> string \<Rightarrow> nat \<Rightarrow> 64 word option" where
  "rapldev_read w fd offset = msr w fd offset"

text \<open>The out-parameters of \<^verbatim>\<open>rapldev_gather\<close>.\<close>

record gathered =
  g_energy :: real
  g_time :: real
  g_policy :: int

definition is_ep :: "int \<Rightarrow> bool" where
  "is_ep model \<longleftrightarrow> model = 45 \<or> model = 62"

definition is_client :: "int \<Rightarrow> bool" where
  "is_client model \<longleftrightarrow> model = 42 \<or> model = 58 \<or> model = 60"

definition gather_time :: "os \<Rightarrow> string \<Rightarrow> int \<Rightarrow> units \<Rightarrow> nat \<Rightarrow> gathered \<Rightarrow> int \<times> gathered" where
  "gather_time w fd model u reg g =
     (if is_ep model then
        (case rapldev_read w fd reg of
           None \<Rightarrow> (-1, g)
         | Some m \<Rightarrow> (0, g\<lparr>g_time := msr_double m * u_time u\<rparr>))
      else (0, g))"

definition rapldev_gather ::
  "os \<Rightarrow> string \<Rightarrow> int \<Rightarrow> layer \<Rightarrow> units \<Rightarrow> gathered \<Rightarrow> int \<times> gathered" where
  "rapldev_gather w fd model layer u g =
     (case layer of
        LAYER_PKG \<Rightarrow>
          (case rapldev_read w fd MSR_ENERGY_STATUS of
             None \<Rightarrow> (-1, g)
           | Some m \<Rightarrow>
               gather_time w fd model u MSR_PERF_STATUS (g\<lparr>g_energy := msr_double m * u_energy u\<rparr>))
      | LAYER_PP0 \<Rightarrow>
          (case rapldev_read w fd MSR_PP0_ENERGY_STATUS of
             None \<Rightarrow> (-1, g)
           | Some m \<Rightarrow>
               (let g1 = g\<lparr>g_energy := msr_double m * u_energy u\<rparr>
                in case rapldev_read w fd MSR_PP0_POLICY_STATUS of
                     None \<Rightarrow> (-1, g1)
                   | Some p \<Rightarrow>
                       gather_time w fd model u MSR_PP0_PERF_STATUS
                         (g1\<lparr>g_policy := sint (MSR_FIELD p 0 0x1f)\<rparr>)))
      | LAYER_PP1 \<Rightarrow>
          (if is_client model then
             (case rapldev_read w fd MSR_PP1_ENERGY_STATUS of
                None \<Rightarrow> (-1, g)
              | Some m \<Rightarrow>
                  (let g1 = g\<lparr>g_energy := msr_double m * u_energy u\<rparr>
                   in case rapldev_read w fd MSR_PP1_POLICY_STATUS of
                        None \<Rightarrow> (-1, g1)
                      | Some p \<Rightarrow> (0, g1\<lparr>g_policy := sint (MSR_FIELD p 0 0x1f)\<rparr>)))
           else
             (case rapldev_read w fd MSR_DRAM_ENERGY_STATUS of
                None \<Rightarrow> (-1, g)
              | Some m \<Rightarrow> (0, g\<lparr>g_energy := msr_double m * u_energy u\<rparr>)))
      | LAYER_INVALID \<Rightarrow> (0, g))"

subsection \<open>Initialisation\<close>

definition msr_path :: "nat \<Rightarrow> string" where
  "msr_path core = ''/dev/cpu/'' @ show_nat core @ ''/msr''"

definition half_pow :: "64 word \<Rightarrow> real" where
  "half_pow f = (1 / 2) ^ unat f"

definition decode_units :: "64 word \<Rightarrow> units" where
  "decode_units m =
     \<lparr>u_power = half_pow (MSR_FIELD m 0 0xf), u_energy = half_pow (MSR_FIELD m 8 0x1f),
      u_time = half_pow (MSR_FIELD m 16 0xf)\<rparr>"

definition decode_power :: "units \<Rightarrow> 64 word \<Rightarrow> power_info" where
  "decode_power u m =
     \<lparr>thermal = u_power u * msr_double (MSR_FIELD m 0 0x7fff),
      minimum = u_power u * msr_double (MSR_FIELD m 16 0x7fff),
      maximum = u_power u * msr_double (MSR_FIELD m 32 0x7fff),
      window = u_time u * msr_double (MSR_FIELD m 48 0x7fff)\<rparr>"

definition decode_limit :: "units \<Rightarrow> 64 word \<Rightarrow> limit" where
  "decode_limit u m =
     \<lparr>power1 = u_power u * msr_double (MSR_FIELD m 0 0x7fff),
      window1 = u_time u * msr_double (MSR_FIELD m 17 0x7f),
      enabled1 = MSR_BIT m 15, clamped1 = MSR_BIT m 16,
      power2 = u_power u * msr_double (MSR_FIELD m 32 0x7fff),
      window2 = u_time u * msr_double (MSR_FIELD m 49 0x7f),
      enabled2 = MSR_BIT m 47, clamped2 = MSR_BIT m 48\<rparr>"

text \<open>The structure is zeroed first, so an unreadable cpuinfo leaves model 0; the register file stays open.\<close>

definition rapldev_init_pkg :: "os \<Rightarrow> nat \<Rightarrow> (rapl_dev option \<times> os) res" where
  "rapldev_init_pkg w core =
     rbind (rapldev_identify w 0) (\<lambda>(rc, model).
     if rc < 0 then Inr (None, w)
     else case open_rd w (msr_path core) of
            None \<Rightarrow> Inr (None, w)
          | Some (_, w1) \<Rightarrow>
              (case rapldev_read w1 (msr_path core) MSR_RAPL_POWER_UNIT of
                 None \<Rightarrow> Inr (None, w1)
               | Some mu \<Rightarrow>
              (case rapldev_read w1 (msr_path core) MSR_POWER_INFO of
                 None \<Rightarrow> Inr (None, w1)
               | Some mp \<Rightarrow>
              (case rapldev_read w1 (msr_path core) MSR_POWER_LIMIT of
                 None \<Rightarrow> Inr (None, w1)
               | Some ml \<Rightarrow>
                   Inr (Some \<lparr>rd_fd = msr_path core, cpu_model = model, units = decode_units mu,
                              pinfo = decode_power (decode_units mu) mp,
                              plimit = decode_limit (decode_units mu) ml\<rparr>, w1)))))"

definition topology_path :: "nat \<Rightarrow> string" where
  "topology_path i =
     ''/sys/devices/system/cpu/cpu'' @ show_nat i @ ''/topology/physical_package_id''"

text \<open>
  The loop over processors; \<open>k\<close> counts the turns left of \<^verbatim>\<open>MAX_CPU\<close>.  The topology file is not
  closed.  The package with index \<open>p\<close> is initialised with \<open>p\<close> as the processor number.
\<close>

fun rapl_init_loop :: "nat \<Rightarrow> nat \<Rightarrow> os \<Rightarrow> rapl_dev option list \<Rightarrow> (rapl_dev option list \<times> os) res" where
  "rapl_init_loop 0 i w ps = Inr (ps, w)"
| "rapl_init_loop (Suc k) i w ps =
     (case open_rd w (topology_path i) of
        None \<Rightarrow> Inr (ps, w)
      | Some (Dir, w1) \<Rightarrow> Inl UninitRead
      | Some (Regular c, w1) \<Rightarrow>
          (case sscanf_d c of
             None \<Rightarrow> Inl UninitRead
           | Some pkgNum \<Rightarrow>
               if pkgNum > int (length ps) - 1 then
                 c_assert (length ps < MAX_NUM_PKGS)
                   (rbind (rapldev_init_pkg w1 (length ps)) (\<lambda>(p, w2).
                      rapl_init_loop k (Suc i) w2 (ps @ [p])))
               else rapl_init_loop k (Suc i) w1 ps))"

definition pwr_rapldev_init :: "os \<Rightarrow> (rapl_private \<times> os) res" where
  "pwr_rapldev_init w =
     rbind (rapl_init_loop MAX_CPU 0 w []) (\<lambda>(ps, w1).
     c_assert (0 < length ps) (Inr (\<lparr>numPkgs = length ps, pkgs = ps\<rparr>, w1)))"

text \<open>Finalisation closes the register file of every package through its device pointer.\<close>

fun rapl_final_loop :: "os \<Rightarrow> rapl_dev option list \<Rightarrow> os res" where
  "rapl_final_loop w [] = Inr w"
| "rapl_final_loop w (p # ps) =
     (case p of None \<Rightarrow> Inl MemoryFault | Some _ \<Rightarrow> rapl_final_loop (sys_close w) ps)"

definition pwr_rapldev_final :: "rapl_private \<Rightarrow> os \<Rightarrow> (int \<times> os) res" where
  "pwr_rapldev_final priv w = rbind (rapl_final_loop w (pkgs priv)) (\<lambda>w'. Inr (0, w'))"

subsection \<open>Descriptor operations\<close>

definition pwr_rapldev_open :: "rapl_private \<Rightarrow> string \<Rightarrow> rapl_fd res" where
  "pwr_rapldev_open priv openstr =
     (case sscanf_d_d openstr of
        (Some type, Some global_index) \<Rightarrow>
          (let ls = (if type = obj_code OBJ_SOCKET then
                       Some [rapldev_parse_open ''pp0'', rapldev_parse_open ''pp1'']
                     else if type = obj_code OBJ_MEM then Some [rapldev_parse_open ''dram'']
                     else None)
           in c_assert (global_index < int (numPkgs priv))
                (if global_index < 0 then Inl MemoryFault
                 else rbind (arr_get (pkgs priv) (nat global_index)) (\<lambda>p.
                      Inr \<lparr>r_dev = p, r_layers = ls\<rparr>)))
      | _ \<Rightarrow> Inl UninitRead)"

definition pwr_rapldev_close :: "rapl_state \<Rightarrow> int \<times> os" where
  "pwr_rapldev_close s = free_fd s"

text \<open>The loop that adds the layers up; the first failing layer ends it (\<open>None\<close>).\<close>

fun rapl_sum_layers :: "os \<Rightarrow> rapl_dev \<Rightarrow> layer list \<Rightarrow> real \<Rightarrow> real \<Rightarrow> int \<Rightarrow> (real \<times> real) option" where
  "rapl_sum_layers w d [] energy time policy = Some (energy, time)"
| "rapl_sum_layers w d (l # ls) energy time policy =
     (let (rc, g) = rapldev_gather w (rd_fd d) (cpu_model d) l (units d)
                      \<lparr>g_energy = 0, g_time = time, g_policy = policy\<rparr>
      in if rc < 0 then None
         else rapl_sum_layers w d ls (energy + g_energy g) (g_time g) (g_policy g))"

text \<open>
  With \<^verbatim>\<open>USE_SYSTIME\<close> defined the time stamp is the throttle time of the last layer, whole seconds
  and fraction scaled to nanoseconds.  The C conversion to \<^verbatim>\<open>unsigned int\<close> is undefined above
  2^32; the model takes the low half.
\<close>

definition systime_stamp :: "real \<Rightarrow> pwr_time" where
  "systime_stamp time =
     (let secs = word_of_int (trunc time) :: 32 word
      in time_of_double (of_nat (unat secs) * 1000000000 + (time - of_nat (unat secs)) * 1000000000))"

definition pwr_rapldev_read :: "rapl_state reader" where
  "pwr_rapldev_read s a v len t =
     (let (fd, w) = s
      in if len \<noteq> SIZEOF_DOUBLE then Inr ((-1, v, t), s)
         else case r_layers fd of
                None \<Rightarrow> Inl UninitRead
              | Some ls \<Rightarrow>
                  (case r_dev fd of
                     None \<Rightarrow> Inl MemoryFault
                   | Some d \<Rightarrow>
                       (case rapl_sum_layers w d ls 0 0 0 of
                          None \<Rightarrow> Inr ((-1, v, t), s)
                        | Some (energy, time) \<Rightarrow>
                            rbind (store_ts (systime_stamp time) t) (\<lambda>t'.
                            Inr ((0, (if a = ATTR_ENERGY then Dbl energy else v), t'), s)))))"

definition pwr_rapldev_write :: "rapl_state writer" where
  "pwr_rapldev_write s a v len = Inr ((0, v), s)"

definition pwr_rapldev_readv :: "rapl_state vreader" where
  "pwr_rapldev_readv = readv_of pwr_rapldev_read"

definition pwr_rapldev_writev :: "rapl_state vwriter" where
  "pwr_rapldev_writev = writev_of pwr_rapldev_write"

definition pwr_rapldev_time :: "rapl_state \<Rightarrow> ts_ptr \<Rightarrow> ((int \<times> ts_ptr) \<times> rapl_state) res" where
  "pwr_rapldev_time = time_of_read pwr_rapldev_read ATTR_POWER"

definition pwr_rapldev_clear :: "rapl_state \<Rightarrow> int \<times> rapl_state" where
  "pwr_rapldev_clear s = (0, s)"

definition rapl_ops :: "rapl_state devops" where
  "rapl_ops = \<lparr>d_read = pwr_rapldev_read, d_write = pwr_rapldev_write,
     d_readv = Some pwr_rapldev_readv, d_writev = Some pwr_rapldev_writev,
     d_log_start = None, d_log_stop = None, d_get_samples = None\<rparr>"

definition rapldev_numObjs :: nat where
  "rapldev_numObjs = 2"

definition rapldev_readObjs :: "nat \<Rightarrow> obj_type list \<Rightarrow> obj_type list res" where
  "rapldev_readObjs n buf = fill [OBJ_SOCKET, OBJ_MEM] buf"

definition rapldev_numAttrs :: "obj_type \<Rightarrow> nat" where
  "rapldev_numAttrs t = 1"

definition rapldev_readAttrs :: "obj_type \<Rightarrow> nat \<Rightarrow> attr list \<Rightarrow> attr list res" where
  "rapldev_readAttrs t n buf = fill [ATTR_ENERGY] buf"

definition rapl_meta :: plugin_meta where
  "rapl_meta = \<lparr>numObjs = rapldev_numObjs, readObjs = rapldev_readObjs,
     numAttrs = rapldev_numAttrs, readAttrs = rapldev_readAttrs,
     getDevName = (\<lambda>_ len. strncpy len ''rapl_dev0''),
     getDevOpenStr = open_str_type_index,
     getDevInitStr = (\<lambda>_ len. Some (snprintf len [])),
     getPluginName = (\<lambda>len. Some (snprintf len ''RAPL''))\<rparr>"

interpretation rapl_tab: meta_table rapl_meta "[OBJ_SOCKET, OBJ_MEM]" "\<lambda>_. [ATTR_ENERGY]"
  by unfold_locales
    (simp_all add: rapl_meta_def rapldev_numObjs_def rapldev_readObjs_def rapldev_numAttrs_def
      rapldev_readAttrs_def fill_exact)

interpretation rapl: careful_reader pwr_rapldev_read snd
proof
  fix s :: rapl_state and a v len t rc v' t' s'
  assume r: "pwr_rapldev_read s a v len t = Inr ((rc, v', t'), s')"
  show "rc = 0 \<or> rc = - 1" and "t' = None \<longleftrightarrow> t = None" and "rc \<noteq> 0 \<Longrightarrow> v' = v \<and> t' = t"
    and "files (snd s') = files (snd s) \<and> wlog (snd s') = wlog (snd s)"
    using r by (auto simp: pwr_rapldev_read_def res_simps Let_def split: prod.splits if_splits option.splits)
qed

interpretation raplw: attr_writer pwr_rapldev_write
  by unfold_locales (simp add: pwr_rapldev_write_def)

subsection \<open>Bit fields\<close>

lemma bit_signed_drop: "sh + n < 64 \<Longrightarrow> bit (signed_drop_bit sh (x :: 64 word)) n \<longleftrightarrow> bit x (sh + n)"
  by (auto simp: bit_signed_drop_bit_iff)

text \<open>
  A field that ends below bit 64 is the unsigned quotient and remainder one expects, although the
  macro shifts a signed value.
\<close>

lemma MSR_FIELD_take_bit:
  assumes "sh + k \<le> 64"
  shows "MSR_FIELD x sh (2 ^ k - 1) = take_bit k (drop_bit sh x)"
proof -
  have m: "(2 ^ k - 1 :: 64 word) = mask k" by (simp add: mask_eq_exp_minus_1)
  show ?thesis unfolding MSR_FIELD_def m
  proof (rule bit_word_eqI)
    fix n assume "n < LENGTH(64)"
    then show "bit (signed_drop_bit sh x AND mask k) n = bit (take_bit k (drop_bit sh x)) n"
      using assms by (auto simp: bit_and_iff bit_mask_iff bit_take_bit_iff bit_drop_bit_eq bit_signed_drop)
  qed
qed

lemma unat_MSR_FIELD:
  assumes "sh + k \<le> 64"
  shows "unat (MSR_FIELD x sh (2 ^ k - 1)) = unat x div 2 ^ sh mod 2 ^ k"
proof -
  have "take_bit 64 (unat x) = unat x" using unsigned_less [of x, where ?'a = nat]
    by (simp add: take_bit_nat_eq_self)
  then have "unat (MSR_FIELD x sh (2 ^ k - 1)) = take_bit k (drop_bit sh (unat x))"
    by (simp add: MSR_FIELD_take_bit [OF assms] unsigned_take_bit_eq unsigned_drop_bit_eq)
  then show ?thesis by (simp add: take_bit_eq_mod drop_bit_eq_div)
qed

lemma MSR_FIELD_masks:
  "MSR_FIELD x sh 0xf = MSR_FIELD x sh (2 ^ 4 - 1)"
  "MSR_FIELD x sh 0x1f = MSR_FIELD x sh (2 ^ 5 - 1)"
  "MSR_FIELD x sh 0x7f = MSR_FIELD x sh (2 ^ 7 - 1)"
  "MSR_FIELD x sh 0x7fff = MSR_FIELD x sh (2 ^ 15 - 1)"
  by simp_all

lemma unat_field4: "sh \<le> 60 \<Longrightarrow> unat (MSR_FIELD x sh 0xf) = unat x div 2 ^ sh mod 16"
  unfolding MSR_FIELD_masks by (subst unat_MSR_FIELD) simp_all

lemma unat_field5: "sh \<le> 59 \<Longrightarrow> unat (MSR_FIELD x sh 0x1f) = unat x div 2 ^ sh mod 32"
  unfolding MSR_FIELD_masks by (subst unat_MSR_FIELD) simp_all

lemma unat_field7: "sh \<le> 57 \<Longrightarrow> unat (MSR_FIELD x sh 0x7f) = unat x div 2 ^ sh mod 128"
  unfolding MSR_FIELD_masks by (subst unat_MSR_FIELD) simp_all

lemma unat_field15: "sh \<le> 49 \<Longrightarrow> unat (MSR_FIELD x sh 0x7fff) = unat x div 2 ^ sh mod 32768"
  unfolding MSR_FIELD_masks by (subst unat_MSR_FIELD) simp_all

lemma msr_double_small: "unat x < 2 ^ 63 \<Longrightarrow> msr_double x = real (unat x)"
proof -
  assume "unat x < 2 ^ 63"
  then have "uint x < 2 ^ 63" by (metis int_eq_iff_numeral of_nat_less_iff of_nat_numeral of_nat_power uint_nat)
  moreover have "- (2 ^ 63) \<le> uint x" by (rule order_trans [OF _ uint_ge_0]) simp
  ultimately have "sint x = uint x" by (simp add: sint_uint signed_take_bit_int_eq_self)
  then show ?thesis by (simp add: msr_double_def)
qed

subsection \<open>Decoding\<close>

text \<open>
  The decoded units are negative powers of two within the ranges the field widths allow:
  power and time units between 2^-15 and 1, the energy unit between 2^-31 and 1.
\<close>

theorem decode_units_spec:
  "u_power (decode_units m) = (1 / 2) ^ (unat m mod 16) \<and>
   u_energy (decode_units m) = (1 / 2) ^ (unat m div 256 mod 32) \<and>
   u_time (decode_units m) = (1 / 2) ^ (unat m div 65536 mod 16) \<and>
   (1 / 2) ^ 15 \<le> u_power (decode_units m) \<and> u_power (decode_units m) \<le> 1 \<and>
   (1 / 2) ^ 31 \<le> u_energy (decode_units m) \<and> u_energy (decode_units m) \<le> 1 \<and>
   (1 / 2) ^ 15 \<le> u_time (decode_units m) \<and> u_time (decode_units m) \<le> 1"
proof -
  have le: "(1 / 2) ^ k \<le> (1 / 2 :: real) ^ j \<and> (1 / 2 :: real) ^ j \<le> 1" if "j \<le> k" for j k
    using that by (simp add: power_decreasing power_le_one)
  have eqs: "u_power (decode_units m) = (1 / 2) ^ (unat m mod 16)"
    "u_energy (decode_units m) = (1 / 2) ^ (unat m div 256 mod 32)"
    "u_time (decode_units m) = (1 / 2) ^ (unat m div 65536 mod 16)"
    by (simp_all add: decode_units_def half_pow_def unat_field4 unat_field5)
  have "unat m mod 16 \<le> 15" "unat m div 256 mod 32 \<le> 31" "unat m div 65536 mod 16 \<le> 15"
    by (rule Suc_le_mono [THEN iffD1], simp)+
  with eqs le show ?thesis by simp
qed

text \<open>
  C40.  The decoded power information and limits are the register's bit fields times the units,
  and none of them is negative.
\<close>

theorem decode_power_limit_spec:
  assumes "0 \<le> u_power u" and "0 \<le> u_time u"
  shows "maximum (decode_power u m) = u_power u * real (unat m div 2 ^ 32 mod 32768) \<and>
    minimum (decode_power u m) = u_power u * real (unat m div 65536 mod 32768) \<and>
    thermal (decode_power u m) = u_power u * real (unat m mod 32768) \<and>
    window (decode_power u m) = u_time u * real (unat m div 2 ^ 48 mod 32768) \<and>
    power1 (decode_limit u m) = u_power u * real (unat m mod 32768) \<and>
    power2 (decode_limit u m) = u_power u * real (unat m div 2 ^ 32 mod 32768) \<and>
    window1 (decode_limit u m) = u_time u * real (unat m div 2 ^ 17 mod 128) \<and>
    window2 (decode_limit u m) = u_time u * real (unat m div 2 ^ 49 mod 128) \<and>
    0 \<le> maximum (decode_power u m) \<and> maximum (decode_power u m) \<le> u_power u * 32767"
proof -
  have f15: "msr_double (MSR_FIELD m sh 0x7fff) = real (unat m div 2 ^ sh mod 32768)" if "sh \<le> 49" for sh
  proof -
    have "unat (MSR_FIELD m sh 0x7fff) < 2 ^ 63"
      using mod_less_divisor [of 32768 "unat m div 2 ^ sh"] by (simp add: unat_field15 that)
    then show ?thesis by (simp add: msr_double_small unat_field15 that)
  qed
  have f7: "msr_double (MSR_FIELD m sh 0x7f) = real (unat m div 2 ^ sh mod 128)" if "sh \<le> 57" for sh
  proof -
    have "unat (MSR_FIELD m sh 0x7f) < 2 ^ 63"
      using mod_less_divisor [of 128 "unat m div 2 ^ sh"] by (simp add: unat_field7 that)
    then show ?thesis by (simp add: msr_double_small unat_field7 that)
  qed
  have "unat m div 2 ^ 32 mod 32768 \<le> 32767"
    by (rule Suc_le_mono [THEN iffD1]) simp
  then have "real (unat m div 2 ^ 32 mod 32768) \<le> 32767" by linarith
  then have "u_power u * real (unat m div 2 ^ 32 mod 32768) \<le> u_power u * 32767"
    using assms(1) by (rule mult_left_mono)
  with assms show ?thesis
    using f15 [of 0] f15 [of 16] f15 [of 32] f15 [of 48] f7 [of 17] f7 [of 49]
    by (simp add: decode_power_def decode_limit_def)
qed

theorem decode_power_limit_spec_witness:
  "maximum (decode_power \<lparr>u_power = 1 / 8, u_energy = 1 / 65536, u_time = 1 / 1024\<rparr> 0x30000002000100) =
   1 / 8 * real (0x30000002000100 div 2 ^ 32 mod 32768)"
  using decode_power_limit_spec
    [of "\<lparr>u_power = 1 / 8, u_energy = 1 / 65536, u_time = 1 / 1024\<rparr>" "0x30000002000100"]
  by simp

subsection \<open>Initialisation and the energy reading\<close>

text \<open>What initialisation establishes of a package device.\<close>

definition rapl_pkg_ok :: "os \<Rightarrow> nat \<Rightarrow> rapl_dev \<Rightarrow> bool" where
  "rapl_pkg_ok w p d \<longleftrightarrow>
     rd_fd d = msr_path p \<and> model_ok rapl_chip (cpu_model d) \<and>
     (case msr w (msr_path p) MSR_RAPL_POWER_UNIT of
        None \<Rightarrow> False | Some m \<Rightarrow> units d = decode_units m)"

definition rapl_pkgs_ok :: "os \<Rightarrow> rapl_dev option list \<Rightarrow> bool" where
  "rapl_pkgs_ok w ps \<longleftrightarrow>
     length ps \<le> MAX_NUM_PKGS \<and> (\<forall>p<length ps. \<forall>d. ps ! p = Some d \<longrightarrow> rapl_pkg_ok w p d)"

lemma open_rd_msr: "open_rd w p = Some (n, w1) \<Longrightarrow> msr w1 = msr w \<and> files w1 = files w"
  by (auto simp: open_rd_def)

lemma rapldev_init_pkg_ok:
  assumes "rapldev_init_pkg w p = Inr (d, w')"
  shows "msr w' = msr w \<and> (\<forall>e. d = Some e \<longrightarrow> rapl_pkg_ok w p e)"
proof -
  from assms obtain rc model where id: "rapldev_identify w 0 = Inr (rc, model)"
    by (auto simp: rapldev_init_pkg_def rbind_eq_Inr_iff)
  show ?thesis
  proof (cases "rc < 0 \<or> open_rd w (msr_path p) = None")
    case True
    with assms id show ?thesis by (auto simp: rapldev_init_pkg_def split: if_splits)
  next
    case False
    then obtain n w1 where o: "open_rd w (msr_path p) = Some (n, w1)" and rc: "\<not> rc < 0" by auto
    have m: "msr w1 = msr w" using open_rd_msr [OF o] by simp
    have k: "model_ok rapl_chip model" using cpu_identify_model [OF id [unfolded rapldev_identify_def] rc] .
    show ?thesis
      using assms by (simp add: rapldev_init_pkg_def id rc o rapldev_read_def m split: option.splits)
        (use m k in \<open>auto simp: rapl_pkg_ok_def\<close>)
  qed
qed

lemma rapl_pkg_ok_cong: "msr w' = msr w \<Longrightarrow> rapl_pkg_ok w' p d = rapl_pkg_ok w p d"
  by (simp add: rapl_pkg_ok_def)

lemma rapl_init_loop_ok:
  "rapl_init_loop k i w ps = Inr (ps', w') \<Longrightarrow> rapl_pkgs_ok w ps \<Longrightarrow> rapl_pkgs_ok w ps' \<and> msr w' = msr w"
proof (induction k i w ps arbitrary: ps' w' rule: rapl_init_loop.induct)
  case (2 k i w ps)
  show ?case
  proof (cases "open_rd w (topology_path i)")
    case None
    with 2 show ?thesis by auto
  next
    case (Some p)
    with 2(3) obtain c w1 where c: "open_rd w (topology_path i) = Some (Regular c, w1)"
      by (cases p) (auto split: fnode.splits)
    with 2(3) obtain pkgNum where n: "sscanf_d c = Some pkgNum" by (auto split: option.splits)
    have m1: "msr w1 = msr w" using open_rd_msr [OF c] by simp
    show ?thesis
    proof (cases "pkgNum > int (length ps) - 1")
      case True
      with 2(3) c n obtain d w2 where lt: "length ps < MAX_NUM_PKGS"
        and d: "rapldev_init_pkg w1 (length ps) = Inr (d, w2)"
        and rest: "rapl_init_loop k (Suc i) w2 (ps @ [d]) = Inr (ps', w')"
        by (auto simp: res_simps)
      have m2: "msr w2 = msr w" and e: "\<forall>e. d = Some e \<longrightarrow> rapl_pkg_ok w (length ps) e"
        using rapldev_init_pkg_ok [OF d] m1 rapl_pkg_ok_cong [OF m1] by simp_all
      have "rapl_pkgs_ok w (ps @ [d])"
        using 2(4) lt e by (auto simp: rapl_pkgs_ok_def nth_append less_Suc_eq)
      then have "rapl_pkgs_ok w2 (ps @ [d])" using m2 by (simp add: rapl_pkgs_ok_def rapl_pkg_ok_def)
      then have "rapl_pkgs_ok w2 ps' \<and> msr w' = msr w2"
        using 2(1) [OF c refl refl n True] d rest by auto
      with m2 show ?thesis by (simp add: rapl_pkgs_ok_def rapl_pkg_ok_def)
    next
      case False
      with 2(3) c n have rest: "rapl_init_loop k (Suc i) w1 ps = Inr (ps', w')" by simp
      have "rapl_pkgs_ok w1 ps" using 2(4) m1 by (simp add: rapl_pkgs_ok_def rapl_pkg_ok_def)
      with 2(2) [OF c refl refl n False] rest have "rapl_pkgs_ok w1 ps' \<and> msr w' = msr w1" by blast
      with m1 show ?thesis by (simp add: rapl_pkgs_ok_def rapl_pkg_ok_def)
    qed
  qed
qed simp

text \<open>What the second layer of a socket reads: the graphics plane only on the client models.\<close>

lemma gather_PP0:
  assumes "msr w fd MSR_PP0_ENERGY_STATUS = Some m" and "msr w fd MSR_PP0_POLICY_STATUS = Some q"
    and "is_ep model \<longrightarrow> msr w fd MSR_PP0_PERF_STATUS = Some p"
  shows "rapldev_gather w fd model LAYER_PP0 u g =
    (0, g\<lparr>g_energy := msr_double m * u_energy u, g_policy := sint (MSR_FIELD q 0 0x1f),
          g_time := (if is_ep model then msr_double p * u_time u else g_time g)\<rparr>)"
  using assms by (auto simp: rapldev_gather_def rapldev_read_def gather_time_def Let_def)

lemma gather_PP1_client:
  assumes "is_client model" and "msr w fd MSR_PP1_ENERGY_STATUS = Some m"
    and "msr w fd MSR_PP1_POLICY_STATUS = Some q"
  shows "rapldev_gather w fd model LAYER_PP1 u g =
    (0, g\<lparr>g_energy := msr_double m * u_energy u, g_policy := sint (MSR_FIELD q 0 0x1f)\<rparr>)"
  using assms by (simp add: rapldev_gather_def rapldev_read_def Let_def)

lemma gather_PP1_other:
  assumes "\<not> is_client model" and "msr w fd MSR_DRAM_ENERGY_STATUS = Some m"
  shows "rapldev_gather w fd model LAYER_PP1 u g = (0, g\<lparr>g_energy := msr_double m * u_energy u\<rparr>)"
  using assms by (simp add: rapldev_gather_def rapldev_read_def)

lemmas gather_layers = gather_PP0 gather_PP1_client gather_PP1_other

text \<open>
  When initialisation succeeds there are between one and eight packages, and package \<open>p\<close>,
  if its own initialisation succeeded, reads the registers of processor number \<open>p\<close> (whatever
  processors belong to that package), has a supported model or none found, and the units decoded from
  its unit register.
\<close>

theorem pwr_rapldev_init_packages:
  assumes "pwr_rapldev_init w = Inr (priv, w')"
  shows "1 \<le> numPkgs priv \<and> numPkgs priv \<le> 8 \<and> length (pkgs priv) = numPkgs priv \<and>
    (\<forall>p<numPkgs priv. \<forall>d. pkgs priv ! p = Some d \<longrightarrow> rapl_pkg_ok w p d)"
proof -
  from assms obtain ps where ps: "rapl_init_loop MAX_CPU 0 w [] = Inr (ps, w')" "0 < length ps"
    and priv: "priv = \<lparr>numPkgs = length ps, pkgs = ps\<rparr>"
    by (auto simp: pwr_rapldev_init_def res_simps)
  have "rapl_pkgs_ok w []" by (simp add: rapl_pkgs_ok_def)
  then have "rapl_pkgs_ok w ps" using rapl_init_loop_ok [OF ps(1)] by blast
  with ps(2) priv show ?thesis by (cases ps) (simp_all add: rapl_pkgs_ok_def MAX_NUM_PKGS_def)
qed

text \<open>
  The open string the framework builds for a socket or a memory is read back: the descriptor
  points to that package and lists the two power-plane layers or the memory layer.  An index
  beyond the packages found stops the program.
\<close>

theorem rapl_open_roundtrip:
  assumes "length (pkgs priv) = numPkgs priv" and "0 \<le> i" and "int32 i"
  shows "pwr_rapldev_open priv (open_str_type_index t i 100) =
    (if int (numPkgs priv) \<le> i then Inl AssertFailed
     else Inr \<lparr>r_dev = pkgs priv ! nat i,
               r_layers = (if t = OBJ_SOCKET then Some [LAYER_PP0, LAYER_PP1]
                           else if t = OBJ_MEM then Some [LAYER_DRAM] else None)\<rparr>)"
proof -
  have codes: "obj_code t = 5 \<longleftrightarrow> t = OBJ_SOCKET" "obj_code t = 8 \<longleftrightarrow> t = OBJ_MEM"
    by (cases t; simp)+
  show ?thesis
    using assms
    by (auto simp: pwr_rapldev_open_def sscanf_open_str codes rapldev_parse_open_def c_assert_def arr_get_def Let_def)
qed

text \<open>
  C31.  The energy of a socket is the core counter plus a second counter, both in the package's
  energy unit.  On the client models the second counter is the graphics plane; on every other
  model, the two server models among them, it is the memory counter, so that the memory's energy
  is counted for the socket and again for the memory object.
\<close>

theorem rapl_socket_energy:
  assumes pp0: "msr w (rd_fd d) MSR_PP0_ENERGY_STATUS = Some m0" "msr w (rd_fd d) MSR_PP0_POLICY_STATUS = Some q0"
    and perf: "is_ep (cpu_model d) \<Longrightarrow> msr w (rd_fd d) MSR_PP0_PERF_STATUS = Some p0"
    and pp1: "is_client (cpu_model d) \<Longrightarrow>
      msr w (rd_fd d) MSR_PP1_ENERGY_STATUS = Some m1 \<and> msr w (rd_fd d) MSR_PP1_POLICY_STATUS = Some q1"
    and dram: "\<not> is_client (cpu_model d) \<Longrightarrow> msr w (rd_fd d) MSR_DRAM_ENERGY_STATUS = Some md"
  shows "pwr_rapldev_read (\<lparr>r_dev = Some d, r_layers = Some [LAYER_PP0, LAYER_PP1]\<rparr>, w) ATTR_ENERGY v 8 (Some t) =
      Inr ((0, Dbl (msr_double m0 * u_energy (units d) +
                    msr_double (if is_client (cpu_model d) then m1 else md) * u_energy (units d)),
            Some (systime_stamp (if is_ep (cpu_model d) then msr_double p0 * u_time (units d) else 0))),
           (\<lparr>r_dev = Some d, r_layers = Some [LAYER_PP0, LAYER_PP1]\<rparr>, w)) \<and>
    (\<not> is_client (cpu_model d) \<longrightarrow>
      pwr_rapldev_read (\<lparr>r_dev = Some d, r_layers = Some [LAYER_DRAM]\<rparr>, w) ATTR_ENERGY v 8 (Some t) =
        Inr ((0, Dbl (msr_double md * u_energy (units d)), Some (systime_stamp 0)),
             (\<lparr>r_dev = Some d, r_layers = Some [LAYER_DRAM]\<rparr>, w)))"
proof -
  have g0: "rapldev_gather w (rd_fd d) (cpu_model d) LAYER_PP0 (units d) g =
    (0, g\<lparr>g_energy := msr_double m0 * u_energy (units d), g_policy := sint (MSR_FIELD q0 0 0x1f),
          g_time := (if is_ep (cpu_model d) then msr_double p0 * u_time (units d) else g_time g)\<rparr>)" for g
    by (rule gather_PP0) (use pp0 perf in auto)
  show ?thesis
  proof (cases "is_client (cpu_model d)")
    case True
    with pp1 have "rapldev_gather w (rd_fd d) (cpu_model d) LAYER_PP1 (units d) g =
      (0, g\<lparr>g_energy := msr_double m1 * u_energy (units d), g_policy := sint (MSR_FIELD q1 0 0x1f)\<rparr>)" for g
      by (simp add: gather_PP1_client)
    with g0 True show ?thesis by (simp add: pwr_rapldev_read_def SIZEOF_DOUBLE_def)
  next
    case False
    with dram have "rapldev_gather w (rd_fd d) (cpu_model d) LAYER_PP1 (units d) g =
      (0, g\<lparr>g_energy := msr_double md * u_energy (units d)\<rparr>)" for g
      by (simp add: gather_PP1_other)
    with g0 False show ?thesis by (simp add: pwr_rapldev_read_def SIZEOF_DOUBLE_def LAYER_DRAM_def)
  qed
qed

subsection \<open>A machine with one server package\<close>

definition rapl_demo_os :: os where
  "rapl_demo_os =
     \<lparr>files = [''/proc/cpuinfo'' \<mapsto> Regular (''model : 45'' @ [CHR 0x0A]),
               topology_path 0 \<mapsto> Regular ''0'', msr_path 0 \<mapsto> Regular []],
      can_write = (\<lambda>_. False), store = (\<lambda>_ _ _. None), wlog = [], fds = 0,
      clock = (\<lambda>_. \<lparr>tv_sec = 0, tv_usec = 0\<rparr>), ticks = 0,
      msr = (\<lambda>_ reg. Some (if reg = MSR_RAPL_POWER_UNIT then 0xa1003 else of_nat reg))\<rparr>"

lemma rapl_demo_paths:
  "topology_path 0 = ''/sys/devices/system/cpu/cpu0/topology/physical_package_id''"
  "topology_path 1 = ''/sys/devices/system/cpu/cpu1/topology/physical_package_id''"
  "msr_path 0 = ''/dev/cpu/0/msr''"
proof -
  have "show_nat 0 = ''0''" "show_nat 1 = ''1''" by code_simp+
  then show "topology_path 0 = ''/sys/devices/system/cpu/cpu0/topology/physical_package_id''"
    "topology_path 1 = ''/sys/devices/system/cpu/cpu1/topology/physical_package_id''"
    "msr_path 0 = ''/dev/cpu/0/msr''"
    by (simp_all add: topology_path_def msr_path_def)
qed

lemma rapl_demo_data:
  "files rapl_demo_os (msr_path 0) = Some (Regular [])"
  "msr rapl_demo_os p reg = Some (if reg = MSR_RAPL_POWER_UNIT then 0xa1003 else of_nat reg)"
  by (simp_all add: rapl_demo_os_def rapl_demo_paths)

lemma rapl_demo_identify:
  "rapldev_identify (rapl_demo_os\<lparr>fds := n\<rparr>) 0 = Inr (0, 45)"
proof -
  have "fgets_lines 80 (''model : 45'' @ [CHR 0x0A]) = [''model : 45'' @ [CHR 0x0A]]"
    by (simp add: fgets_lines_def)
  moreover have "sscanf_words_d 2 (''model : 45'' @ [CHR 0x0A]) = Some 45" by code_simp
  ultimately show ?thesis
    by (simp add: rapldev_identify_def cpu_identify_def rapl_chip_def rapl_demo_os_def identify_line_def strncmp0_def rapl_models_def
        rapl_demo_paths)
qed

lemma rapl_demo_pkg:
  "\<exists>d. rapldev_init_pkg (rapl_demo_os\<lparr>fds := n\<rparr>) 0 = Inr (Some d, rapl_demo_os\<lparr>fds := Suc n\<rparr>) \<and>
     cpu_model d = 45 \<and> rd_fd d = ''/dev/cpu/0/msr''"
proof -
  have "fds rapl_demo_os = 0" by (simp add: rapl_demo_os_def)
  then show ?thesis
    by (simp add: rapldev_init_pkg_def rapl_demo_identify open_rd_def rapldev_read_def rapl_demo_data)
      (simp add: rapl_demo_paths)
qed

lemma rapl_demo_init:
  "\<exists>d w'. pwr_rapldev_init rapl_demo_os = Inr (\<lparr>numPkgs = 1, pkgs = [Some d]\<rparr>, w') \<and>
     cpu_model d = 45 \<and> rd_fd d = ''/dev/cpu/0/msr''"
proof -
  obtain d where d: "rapldev_init_pkg (rapl_demo_os\<lparr>fds := 1\<rparr>) 0 = Inr (Some d, rapl_demo_os\<lparr>fds := 2\<rparr>)"
    and m: "cpu_model d = 45" "rd_fd d = ''/dev/cpu/0/msr''" using rapl_demo_pkg [of 1] by auto
  have k: "MAX_CPU = Suc (Suc 510)" by (simp add: MAX_CPU_def)
  have "open_rd rapl_demo_os (topology_path 0) = Some (Regular ''0'', rapl_demo_os\<lparr>fds := 1\<rparr>)"
    by (simp add: open_rd_def) (simp add: rapl_demo_os_def rapl_demo_paths)
  moreover have "open_rd (rapl_demo_os\<lparr>fds := 2\<rparr>) (topology_path 1) = None"
    by (simp only: rapl_demo_paths open_rd_def) (simp add: rapl_demo_os_def rapl_demo_paths)
  moreover have "sscanf_d ''0'' = Some 0" by code_simp
  ultimately have "pwr_rapldev_init rapl_demo_os = Inr (\<lparr>numPkgs = 1, pkgs = [Some d]\<rparr>, rapl_demo_os\<lparr>fds := 2\<rparr>)"
    unfolding pwr_rapldev_init_def k rapl_init_loop.simps using d by (simp add: MAX_NUM_PKGS_def)
  with m show ?thesis by blast
qed

theorem pwr_rapldev_init_packages_witness:
  "\<exists>priv w'. pwr_rapldev_init rapl_demo_os = Inr (priv, w') \<and> 1 \<le> numPkgs priv \<and>
     length (pkgs priv) = numPkgs priv \<and> (\<exists>d. pkgs priv ! 0 = Some d \<and> rapl_pkg_ok rapl_demo_os 0 d)"
proof -
  obtain d w' where i: "pwr_rapldev_init rapl_demo_os = Inr (\<lparr>numPkgs = 1, pkgs = [Some d]\<rparr>, w')"
    using rapl_demo_init by blast
  from pwr_rapldev_init_packages [OF i] have "rapl_pkg_ok rapl_demo_os 0 d" by simp
  with i show ?thesis by simp
qed

theorem rapl_open_roundtrip_witness:
  "pwr_rapldev_open \<lparr>numPkgs = 1, pkgs = [None]\<rparr> (open_str_type_index OBJ_MEM 0 100) =
     Inr \<lparr>r_dev = None, r_layers = Some [LAYER_DRAM]\<rparr>"
  using rapl_open_roundtrip [of "\<lparr>numPkgs = 1, pkgs = [None]\<rparr>" 0 OBJ_MEM] by (simp add: int32_def)

definition rapl_demo_dev :: rapl_dev where
  "rapl_demo_dev =
     \<lparr>rd_fd = msr_path 0, cpu_model = 45, units = \<lparr>u_power = 1 / 8, u_energy = 1 / 65536, u_time = 1 / 1024\<rparr>,
      pinfo = \<lparr>thermal = 0, minimum = 0, maximum = 0, window = 0\<rparr>,
      plimit = \<lparr>power1 = 0, window1 = 0, enabled1 = False, clamped1 = False,
               power2 = 0, window2 = 0, enabled2 = False, clamped2 = False\<rparr>\<rparr>"

text \<open>The demonstration register file answers each energy register with its own address.\<close>

theorem rapl_socket_energy_witness:
  "pwr_rapldev_read (\<lparr>r_dev = Some rapl_demo_dev, r_layers = Some [LAYER_PP0, LAYER_PP1]\<rparr>, rapl_demo_os)
     ATTR_ENERGY Uninit 8 (Some 0) =
   Inr ((0, Dbl (msr_double 0x639 / 65536 + msr_double 0x619 / 65536),
         Some (systime_stamp (msr_double 0x63b / 1024))),
        (\<lparr>r_dev = Some rapl_demo_dev, r_layers = Some [LAYER_PP0, LAYER_PP1]\<rparr>, rapl_demo_os))"
  using rapl_socket_energy [of rapl_demo_os rapl_demo_dev "0x639" "0x63a" "0x63b" 0 0 "0x619" Uninit 0]
  by (simp add: rapl_demo_data rapl_demo_dev_def is_client_def is_ep_def msr_addrs)

end
