(* ===== verification/Powercap_Dev.thy ===== *)
theory Powercap_Dev
  imports Plugin_Iface "HOL-Library.While_Combinator"
begin

text \<open>
  \<^verbatim>\<open>src/plugins/pwr_powercap.c\<close>: energy counters of the Linux powercap tree.  Initialisation counts
  the packages and their sub-zones by probing for name files and remembers every counter's start
  value; a read returns the counter's growth since then.
\<close>

subsection \<open>Data\<close>

record zone =
  z_name :: "string option"
  z_energy :: string
  startValue :: int

record pc_pkg =
  p_zone :: zone
  zones :: "zone list"

text \<open>\<^verbatim>\<open>numZones\<close> and \<^verbatim>\<open>numPkgs\<close> are the lengths of the two arrays.\<close>

type_synonym powercap_info = "pc_pkg list"

text \<open>The descriptor's package pointer: \<open>None\<close> when it points outside the array.\<close>

record pc_fd =
  pc_type :: int
  pc_pkg_ptr :: "pc_pkg option"

type_synonym pc_state = "pc_fd \<times> os"

subsection \<open>Probing and initialisation\<close>

definition zone_name_path :: "string \<Rightarrow> nat \<Rightarrow> string" where
  "zone_name_path pre n = pre @ show_nat n @ ''/name''"

text \<open>
  The loop probes \<open>prefix0/name\<close>, \<open>prefix1/name\<close>, .. and stops at the first file that cannot be
  opened; each opened file is closed again, so the world is unchanged.
\<close>

definition findNumZones :: "os \<Rightarrow> string \<Rightarrow> nat res" where
  "findNumZones w pre =
     (case while_option (\<lambda>n. files w (zone_name_path pre n) \<noteq> None) Suc 0 of
        None \<Rightarrow> Inl Diverges
      | Some n \<Rightarrow> Inr n)"

text \<open>
  \<^verbatim>\<open>findSuffix\<close> walks back from the end; the pointer is moved once more after the slash is seen, so
  the suffix starts with the slash.
\<close>

definition findSuffix :: "string \<Rightarrow> string" where
  "findSuffix path =
     (let tl_rev = takeWhile (\<lambda>c. c \<noteq> CHR ''/'') (rev path)
      in if CHR ''/'' \<in> set path then CHR ''/'' # rev tl_rev else path)"

definition readValue :: "os \<Rightarrow> string \<Rightarrow> int res" where
  "readValue w path =
     (case files w path of
        Some (Regular c) \<Rightarrow>
          (case fscanf_lld c of
             ScanEOF \<Rightarrow> Inl AssertFailed
           | ScanFail \<Rightarrow> Inl UninitRead
           | Scanned v \<Rightarrow> Inr v)
      | _ \<Rightarrow> Inl AssertFailed)"

definition readValue2 :: "os \<Rightarrow> zone \<Rightarrow> int res" where
  "readValue2 w z = rbind (readValue w (z_energy z)) (\<lambda>value. ll_sub value (startValue z))"

text \<open>The file opened for the name must exist; \<^verbatim>\<open>%ms\<close> leaves the pointer unset on a directory or empty file.\<close>

definition read_name :: "os \<Rightarrow> string \<Rightarrow> string option res" where
  "read_name w pre =
     (case files w (pre @ ''/name'') of
        None \<Rightarrow> Inl AssertFailed
      | Some Dir \<Rightarrow> Inr None
      | Some (Regular c) \<Rightarrow> Inr (map_option fst (scan_word c)))"

definition initZone :: "os \<Rightarrow> string \<Rightarrow> zone res" where
  "initZone w pre =
     rbind (read_name w pre) (\<lambda>name.
     rbind (readValue w (pre @ ''/energy_uj'')) (\<lambda>start.
     Inr \<lparr>z_name = name, z_energy = pre @ ''/energy_uj'', startValue = start\<rparr>))"

fun mapM :: "('a \<Rightarrow> 'b res) \<Rightarrow> 'a list \<Rightarrow> 'b list res" where
  "mapM f [] = Inr []"
| "mapM f (x # xs) = rbind (f x) (\<lambda>y. rbind (mapM f xs) (\<lambda>ys. Inr (y # ys)))"

definition zone_prefix :: "string \<Rightarrow> nat \<Rightarrow> nat \<Rightarrow> string" where
  "zone_prefix pre num i = pre @ ''/intel-rapl:'' @ show_nat num @ '':'' @ show_nat i"

definition initPkg :: "os \<Rightarrow> nat \<Rightarrow> string \<Rightarrow> pc_pkg res" where
  "initPkg w num pre =
     rbind (initZone w pre) (\<lambda>z.
     rbind (findNumZones w (pre @ ''/'' @ findSuffix pre @ '':'')) (\<lambda>n.
     rbind (mapM (\<lambda>i. initZone w (zone_prefix pre num i)) [0..<n]) (\<lambda>zs.
     Inr \<lparr>p_zone = z, zones = zs\<rparr>)))"

definition powercap_prefix :: string where
  "powercap_prefix = ''/sys/devices/virtual/powercap/intel-rapl/intel-rapl:''"

text \<open>\<open>None\<close> is the null pointer returned when there is no package.\<close>

definition powercap_dev_init :: "os \<Rightarrow> powercap_info option res" where
  "powercap_dev_init w =
     rbind (findNumZones w powercap_prefix) (\<lambda>n.
     if n = 0 then Inr None
     else rbind (mapM (\<lambda>i. initPkg w i (powercap_prefix @ show_nat i)) [0..<n]) (\<lambda>ps.
          Inr (Some ps)))"

text \<open>
  Finalisation frees \<^verbatim>\<open>pkgs[i].zones\<close> once per zone.  \<open>live\<close> lists the packages whose zone array is
  still allocated; what is left at the end has leaked.
\<close>

fun free_times :: "nat \<Rightarrow> nat \<Rightarrow> nat list \<Rightarrow> nat list res" where
  "free_times 0 i live = Inr live"
| "free_times (Suc k) i live =
     (if i \<in> set live then free_times k i (removeAll i live) else Inl DoubleFree)"

fun final_pkgs :: "nat \<Rightarrow> powercap_info \<Rightarrow> nat list \<Rightarrow> nat list res" where
  "final_pkgs i [] live = Inr live"
| "final_pkgs i (p # ps) live =
     rbind (free_times (length (zones p)) i live) (final_pkgs (Suc i) ps)"

definition powercap_dev_final :: "powercap_info \<Rightarrow> (int \<times> nat list) res" where
  "powercap_dev_final ps = rbind (final_pkgs 0 ps [0..<length ps]) (\<lambda>live. Inr (0, live))"

subsection \<open>Descriptor operations\<close>

definition powercap_dev_open :: "powercap_info \<Rightarrow> string \<Rightarrow> pc_fd res" where
  "powercap_dev_open ps openstr =
     (case sscanf_d_d openstr of
        (Some t, Some i) \<Rightarrow>
          Inr \<lparr>pc_type = t,
               pc_pkg_ptr = (if 0 \<le> i \<and> nat i < length ps then Some (ps ! nat i) else None)\<rparr>
      | _ \<Rightarrow> Inl UninitRead)"

definition powercap_dev_close :: "pc_state \<Rightarrow> int \<times> os" where
  "powercap_dev_close s = free_fd s"

definition first_zone :: "pc_pkg \<Rightarrow> zone res" where
  "first_zone p = arr_get (zones p) 0"

text \<open>The attribute and the length are not looked at; the time stamp is optional.\<close>

definition powercap_value :: "os \<Rightarrow> pc_fd \<Rightarrow> int res" where
  "powercap_value w fd =
     (if pc_type fd = obj_code OBJ_MEM \<or> pc_type fd = obj_code OBJ_SOCKET then
        (case pc_pkg_ptr fd of
           None \<Rightarrow> Inl MemoryFault
         | Some p \<Rightarrow>
             rbind (first_zone p) (\<lambda>z0.
             rbind (readValue2 w z0) (\<lambda>value0.
             if pc_type fd = obj_code OBJ_MEM then Inr value0
             else rbind (readValue2 w (p_zone p)) (\<lambda>value1. ll_sub value1 value0))))
      else Inl UninitRead)"

definition powercap_dev_read :: "pc_state reader" where
  "powercap_dev_read s a v len ts =
     (let (fd, w) = s
      in rbind (powercap_value w fd) (\<lambda>value.
         let (ts', w') = (case ts of
                            None \<Rightarrow> (None, w)
                          | Some _ \<Rightarrow> (let (d, w1) = getTime w in (Some (time_of_double d), w1)))
         in Inr ((RET_SUCCESS, Dbl (of_int value / 1000000), ts'), (fd, w'))))"

definition powercap_dev_write :: "pc_state writer" where
  "powercap_dev_write s a v len = Inr ((RET_FAILURE, v), s)"

text \<open>
  An array read works for one attribute only.  Its last argument of \<^verbatim>\<open>read\<close> is the address of
  \<^verbatim>\<open>ts[0]\<close>, never null.
\<close>

definition powercap_dev_readv :: "pc_state vreader" where
  "powercap_dev_readv s as vs ts st =
     (case as of
        [a] \<Rightarrow>
          rbind (arr_get vs 0) (\<lambda>v. rbind (arr_get ts 0) (\<lambda>t.
          rbind (powercap_dev_read s a v 8 (Some t)) (\<lambda>((rc, v', t'), s').
          rbind (arr_set st 0 rc) (\<lambda>st'.
          Inr ((rc, vs[0 := v'], (case t' of Some u \<Rightarrow> ts[0 := u] | None \<Rightarrow> ts), st'), s')))))
      | _ \<Rightarrow> Inr ((RET_FAILURE, vs, ts, st), s))"

definition powercap_dev_writev :: "pc_state vwriter" where
  "powercap_dev_writev s as vs st = Inr ((RET_FAILURE, vs, st), s)"

definition powercap_dev_time :: "pc_state \<Rightarrow> ts_ptr \<Rightarrow> int \<times> ts_ptr" where
  "powercap_dev_time s t = (RET_FAILURE, t)"

definition powercap_dev_clear :: "pc_state \<Rightarrow> int" where
  "powercap_dev_clear s = RET_FAILURE"

definition powercap_dev_log_start :: "pc_state \<Rightarrow> attr \<Rightarrow> (int \<times> pc_state) res" where
  "powercap_dev_log_start s a = Inr (RET_FAILURE, s)"

definition powercap_dev_log_stop :: "pc_state \<Rightarrow> attr \<Rightarrow> (int \<times> pc_state) res" where
  "powercap_dev_log_stop s a = Inr (RET_FAILURE, s)"

text \<open>The start-time argument is not stored; the model gives the wrapper's zero.\<close>

definition powercap_dev_get_samples ::
  "pc_state \<Rightarrow> attr \<Rightarrow> real \<Rightarrow> nat \<Rightarrow> cell list \<Rightarrow> ((int \<times> pwr_time \<times> nat \<times> cell list) \<times> pc_state) res" where
  "powercap_dev_get_samples s a period n buf = Inr ((RET_FAILURE, 0, n, buf), s)"

definition powercap_ops :: "pc_state devops" where
  "powercap_ops = \<lparr>d_read = powercap_dev_read, d_write = powercap_dev_write,
     d_readv = Some powercap_dev_readv, d_writev = Some powercap_dev_writev,
     d_log_start = Some powercap_dev_log_start, d_log_stop = Some powercap_dev_log_stop,
     d_get_samples = Some powercap_dev_get_samples\<rparr>"

definition powercap_numObjs :: nat where
  "powercap_numObjs = 2"

definition powercap_readObjs :: "nat \<Rightarrow> obj_type list \<Rightarrow> obj_type list res" where
  "powercap_readObjs n buf = fill [OBJ_SOCKET, OBJ_MEM] buf"

definition powercap_numAttrs :: "obj_type \<Rightarrow> nat" where
  "powercap_numAttrs t = 1"

definition powercap_readAttrs :: "obj_type \<Rightarrow> nat \<Rightarrow> attr list \<Rightarrow> attr list res" where
  "powercap_readAttrs t n buf = fill [ATTR_ENERGY] buf"

definition powercap_meta :: plugin_meta where
  "powercap_meta = \<lparr>numObjs = powercap_numObjs, readObjs = powercap_readObjs,
     numAttrs = powercap_numAttrs, readAttrs = powercap_readAttrs,
     getDevName = (\<lambda>_ len. strncpy len ''powercap_dev0''),
     getDevOpenStr = open_str_type_index,
     getDevInitStr = (\<lambda>_ len. strncpy len []),
     getPluginName = (\<lambda>len. strncpy len ''PowerCap'')\<rparr>"

interpretation powercap_tab: meta_table powercap_meta "[OBJ_SOCKET, OBJ_MEM]" "\<lambda>_. [ATTR_ENERGY]"
  by unfold_locales
    (simp_all add: powercap_meta_def powercap_numObjs_def powercap_readObjs_def powercap_numAttrs_def
      powercap_readAttrs_def fill_exact)

interpretation powercap: careful_reader powercap_dev_read snd
proof
  fix s :: pc_state and a v len t rc v' t' s'
  assume r: "powercap_dev_read s a v len t = Inr ((rc, v', t'), s')"
  show "rc = 0 \<or> rc = - 1" and "t' = None \<longleftrightarrow> t = None" and "rc \<noteq> 0 \<Longrightarrow> v' = v \<and> t' = t"
    and "files (snd s') = files (snd s) \<and> wlog (snd s') = wlog (snd s)"
    using r by (auto simp: powercap_dev_read_def RET_SUCCESS_def getTime_def gettimeofday_def rbind_eq_Inr_iff Let_def
        split: prod.splits option.splits)
qed

interpretation powercapw: attr_writer powercap_dev_write
  by unfold_locales (simp add: powercap_dev_write_def RET_FAILURE_def)
subsection \<open>Properties\<close>

lemma Suc_funpow_0: "(Suc ^^ k) 0 = k"
  by (induction k) simp_all

lemma findNumZones_eq:
  "findNumZones w pre =
     (if \<exists>n. files w (zone_name_path pre n) = None
      then Inr (LEAST n. files w (zone_name_path pre n) = None) else Inl Diverges)"
  by (simp add: findNumZones_def while_option_def Suc_funpow_0)

lemma Least_nat_eq_iff:
  fixes n :: nat
  assumes "\<exists>k. P k"
  shows "(LEAST k. P k) = n \<longleftrightarrow> (\<forall>i<n. \<not> P i) \<and> P n"
proof
  assume "(LEAST k. P k) = n"
  then show "(\<forall>i<n. \<not> P i) \<and> P n" using LeastI_ex [OF assms] not_less_Least [of _ P] by blast
next
  assume "(\<forall>i<n. \<not> P i) \<and> P n"
  then show "(LEAST k. P k) = n" by (intro Least_equality) (auto simp: not_less [symmetric])
qed

text \<open>
  The probing loop returns the number of consecutive zones: every smaller index has a name
  file and this one has none.  It runs forever exactly when every index has one.
\<close>

theorem findNumZones_spec:
  "(findNumZones w pre = Inr n \<longleftrightarrow>
      (\<forall>i<n. files w (zone_name_path pre i) \<noteq> None) \<and> files w (zone_name_path pre n) = None) \<and>
   (findNumZones w pre = Inl Diverges \<longleftrightarrow> (\<forall>i. files w (zone_name_path pre i) \<noteq> None))"
proof (cases "\<exists>k. files w (zone_name_path pre k) = None")
  case True
  then show ?thesis by (simp add: findNumZones_eq Least_nat_eq_iff)
next
  case False
  then show ?thesis by (simp add: findNumZones_eq)
qed

lemma mapM_length: "mapM f xs = Inr ys \<Longrightarrow> length ys = length xs"
  by (induction xs arbitrary: ys) (auto simp: res_simps)

lemma mapM_nth: "mapM f xs = Inr ys \<Longrightarrow> i < length xs \<Longrightarrow> f (xs ! i) = Inr (ys ! i)"
proof (induction xs arbitrary: ys i)
  case (Cons x xs)
  then show ?case by (cases i) (auto simp: res_simps)
qed simp

text \<open>A zone that starts at the value its counter has in a given world.\<close>

definition zone_at :: "os \<Rightarrow> string \<Rightarrow> zone \<Rightarrow> bool" where
  "zone_at w pre z \<longleftrightarrow>
     z_energy z = pre @ ''/energy_uj'' \<and> readValue w (z_energy z) = Inr (startValue z)"

definition pkg_at :: "os \<Rightarrow> nat \<Rightarrow> pc_pkg \<Rightarrow> bool" where
  "pkg_at w i p \<longleftrightarrow>
     zone_at w (powercap_prefix @ show_nat i) (p_zone p) \<and>
     (\<forall>j<length (zones p). zone_at w (zone_prefix (powercap_prefix @ show_nat i) i j) (zones p ! j))"

lemma initZone_at: "initZone w pre = Inr z \<Longrightarrow> zone_at w pre z"
  by (auto simp: initZone_def zone_at_def res_simps)

lemma initPkg_at:
  assumes "initPkg w i (powercap_prefix @ show_nat i) = Inr p"
  shows "pkg_at w i p"
proof -
  from assms obtain z n zs where z: "initZone w (powercap_prefix @ show_nat i) = Inr z"
    and zs: "mapM (\<lambda>j. initZone w (zone_prefix (powercap_prefix @ show_nat i) i j)) [0..<n] = Inr zs"
    and p: "p = \<lparr>p_zone = z, zones = zs\<rparr>"
    by (auto simp: initPkg_def res_simps)
  have "length zs = n" using mapM_length [OF zs] by simp
  with mapM_nth [OF zs] initZone_at [OF z] initZone_at p show ?thesis by (auto simp: pkg_at_def)
qed

lemma powercap_init_at:
  assumes "powercap_dev_init w = Inr (Some ps)"
  shows "findNumZones w powercap_prefix = Inr (length ps) \<and> 0 < length ps \<and> (\<forall>i<length ps. pkg_at w i (ps ! i))"
proof -
  from assms obtain n where n: "findNumZones w powercap_prefix = Inr n" "0 < n"
    and ps: "mapM (\<lambda>i. initPkg w i (powercap_prefix @ show_nat i)) [0..<n] = Inr ps"
    by (auto simp: powercap_dev_init_def res_simps split: if_splits)
  have "length ps = n" using mapM_length [OF ps] by simp
  with n mapM_nth [OF ps] initPkg_at show ?thesis by auto
qed

lemma ll_sub_self [simp]: "ll_sub a a = Inr 0"
  by (simp add: ll_sub_def)

lemma ll_sub_ok: "0 \<le> a \<Longrightarrow> a < 2 ^ 62 \<Longrightarrow> 0 \<le> b \<Longrightarrow> b < 2 ^ 62 \<Longrightarrow> ll_sub a b = Inr (a - b)"
  by (simp add: ll_sub_def)

lemma zone_at_start: "zone_at w pre z \<Longrightarrow> readValue2 w z = Inr 0"
  by (auto simp: zone_at_def readValue2_def)

lemma powercap_read_value:
  assumes "powercap_value w fd = Inr x"
  shows "powercap_dev_read (fd, w) a v len (Some t) =
    Inr ((0, Dbl (of_int x / 1000000),
          Some (time_of_double (fst (getTime w)))),
         (fd, w\<lparr>ticks := Suc (ticks w)\<rparr>))"
  using assms by (simp add: powercap_dev_read_def getTime_def gettimeofday_def RET_SUCCESS_def)

text \<open>
  C30.  The energy of a memory is the growth of the package's first sub-zone and the energy of a
  socket is the growth of the package counter minus that, in joules, whatever attribute is asked
  for: the two add up to the growth of the package counter.  Counters are assumed between 0
  and 2^62 microjoules.
\<close>

theorem powercap_energy:
  assumes z: "zones p = z0 # zs"
    and e0: "readValue w (z_energy z0) = Inr e0" and e1: "readValue w (z_energy (p_zone p)) = Inr e1"
    and range: "0 \<le> e0" "e0 < 2 ^ 62" "0 \<le> e1" "e1 < 2 ^ 62"
      "0 \<le> startValue z0" "startValue z0 \<le> e0" "0 \<le> startValue (p_zone p)" "startValue (p_zone p) \<le> e1"
  shows "\<exists>mem socket stamp.
    powercap_dev_read (\<lparr>pc_type = obj_code OBJ_MEM, pc_pkg_ptr = Some p\<rparr>, w) a v len (Some t) =
      Inr ((0, Dbl mem, Some stamp), (\<lparr>pc_type = obj_code OBJ_MEM, pc_pkg_ptr = Some p\<rparr>, w\<lparr>ticks := Suc (ticks w)\<rparr>)) \<and>
    powercap_dev_read (\<lparr>pc_type = obj_code OBJ_SOCKET, pc_pkg_ptr = Some p\<rparr>, w) a v len (Some t) =
      Inr ((0, Dbl socket, Some stamp), (\<lparr>pc_type = obj_code OBJ_SOCKET, pc_pkg_ptr = Some p\<rparr>, w\<lparr>ticks := Suc (ticks w)\<rparr>)) \<and>
    mem = of_int (e0 - startValue z0) / 1000000 \<and> 0 \<le> mem \<and>
    mem + socket = of_int (e1 - startValue (p_zone p)) / 1000000"
proof -
  have r0: "readValue2 w z0 = Inr (e0 - startValue z0)"
    using e0 range by (simp add: readValue2_def ll_sub_ok)
  have r1: "readValue2 w (p_zone p) = Inr (e1 - startValue (p_zone p))"
    using e1 range by (simp add: readValue2_def ll_sub_ok)
  have d: "ll_sub (e1 - startValue (p_zone p)) (e0 - startValue z0) =
    Inr (e1 - startValue (p_zone p) - (e0 - startValue z0))"
    using range by (intro ll_sub_ok) auto
  have f: "first_zone p = Inr z0" using z by (simp add: first_zone_def arr_get_def)
  have m: "powercap_value w \<lparr>pc_type = obj_code OBJ_MEM, pc_pkg_ptr = Some p\<rparr> = Inr (e0 - startValue z0)"
    using f r0 by (simp add: powercap_value_def)
  have s: "powercap_value w \<lparr>pc_type = obj_code OBJ_SOCKET, pc_pkg_ptr = Some p\<rparr> =
    Inr (e1 - startValue (p_zone p) - (e0 - startValue z0))"
    using f r0 r1 d by (simp add: powercap_value_def)
  show ?thesis
    unfolding powercap_read_value [OF m] powercap_read_value [OF s]
    using range
    by (intro exI [of _ "of_int (e0 - startValue z0) / 1000000"] exI
        [of _ "of_int (e1 - startValue (p_zone p) - (e0 - startValue z0)) / 1000000"]
        exI [of _ "time_of_double (fst (getTime w))"]) (simp add: field_simps)
qed

text \<open>
  From initialisation to the first reading: when initialisation succeeds, the object opened
  with the framework's open string for a socket or memory of a package that has a sub-zone reads
  no energy yet, for every such package.
\<close>

theorem powercap_starts_at_zero:
  assumes init: "powercap_dev_init w = Inr (Some ps)"
    and i: "i < length ps" "int32 (int i)" and z: "zones (ps ! i) \<noteq> []"
    and t: "t = OBJ_SOCKET \<or> t = OBJ_MEM"
  shows "\<exists>fd stamp s'. powercap_dev_open ps (open_str_type_index t (int i) 100) = Inr fd \<and>
    powercap_dev_read (fd, w) a v len (Some ts) = Inr ((0, Dbl 0, Some stamp), s')"
proof -
  let ?fd = "\<lparr>pc_type = obj_code t, pc_pkg_ptr = Some (ps ! i)\<rparr>"
  have o: "powercap_dev_open ps (open_str_type_index t (int i) 100) = Inr ?fd"
    using i by (simp add: powercap_dev_open_def sscanf_open_str)
  have p: "pkg_at w i (ps ! i)" using powercap_init_at [OF init] i by blast
  from z obtain z0 zs where zs: "zones (ps ! i) = z0 # zs" by (cases "zones (ps ! i)") auto
  with p have "readValue2 w z0 = Inr 0"
    by (force simp: pkg_at_def intro: zone_at_start)
  moreover have "readValue2 w (p_zone (ps ! i)) = Inr 0"
    using p by (auto simp: pkg_at_def intro: zone_at_start)
  ultimately have "powercap_value w ?fd = Inr 0"
    using t zs by (auto simp: powercap_value_def first_zone_def arr_get_def)
  from o powercap_read_value [OF this] show ?thesis by simp
qed

lemma findNumZones_I:
  "files w (zone_name_path pre n) = None \<Longrightarrow> \<forall>i<n. files w (zone_name_path pre i) \<noteq> None \<Longrightarrow>
   findNumZones w pre = Inr n"
  unfolding findNumZones_eq using Least_nat_eq_iff [of "\<lambda>k. files w (zone_name_path pre k) = None" n] by auto

lemma findNumZones_D: "findNumZones w pre = Inr n \<Longrightarrow> i < n \<Longrightarrow> files w (zone_name_path pre i) \<noteq> None"
  unfolding findNumZones_eq
  using Least_nat_eq_iff [of "\<lambda>k. files w (zone_name_path pre k) = None" n] by (auto split: if_splits)

text \<open>The suffix of a package directory keeps its slash, so the probed path has two in a row.\<close>

lemma findSuffix_append:
  assumes "CHR ''/'' \<notin> set q"
  shows "findSuffix (p @ CHR ''/'' # q) = CHR ''/'' # q"
proof -
  have "takeWhile (\<lambda>c. c \<noteq> CHR ''/'') (rev q) = rev q"
    using assms by (auto simp: takeWhile_eq_all_conv)
  moreover have "takeWhile (\<lambda>c. c \<noteq> CHR ''/'') (rev q @ CHR ''/'' # rev p) = takeWhile (\<lambda>c. c \<noteq> CHR ''/'') (rev q)"
    by (simp add: takeWhile_tail)
  ultimately show ?thesis by (simp add: findSuffix_def del: takeWhile_eq_all_conv)
qed

lemma findSuffix_pkg: "findSuffix (powercap_prefix @ show_nat i) = ''/intel-rapl:'' @ show_nat i"
proof -
  have "CHR ''/'' \<notin> set (show_nat i)"
    using show_nat_digits [of i] by (auto simp: is_digit_def char_code_def)
  then have "CHR ''/'' \<notin> set (''intel-rapl:'' @ show_nat i)" by simp
  from findSuffix_append [OF this, of "''/sys/devices/virtual/powercap/intel-rapl''"]
  show ?thesis by (simp add: powercap_prefix_def)
qed

text \<open>
  A sub-zone that was counted can be opened under the path later used for it: the count
  probes \<^verbatim>\<open>dir//intel-rapl:i:j/name\<close>, with two slashes, and the zone is read from
  \<^verbatim>\<open>dir/intel-rapl:i:j/name\<close>.  This needs a file system that takes two slashes for one.
\<close>

theorem powercap_zone_paths_agree:
  assumes slash: "\<And>p q. files w (p @ ''//'' @ q) = files w (p @ ''/'' @ q)"
    and n: "findNumZones w (powercap_prefix @ show_nat i @ ''/'' @ findSuffix (powercap_prefix @ show_nat i) @ '':'') = Inr n"
    and j: "j < n"
  shows "\<exists>name. read_name w (zone_prefix (powercap_prefix @ show_nat i) i j) = Inr name"
proof -
  have "files w (zone_name_path (powercap_prefix @ show_nat i @ ''/'' @ findSuffix (powercap_prefix @ show_nat i) @ '':'') j) =
    files w ((powercap_prefix @ show_nat i) @ ''//'' @ ''intel-rapl:'' @ show_nat i @ '':'' @ show_nat j @ ''/name'')"
    by (simp add: zone_name_path_def findSuffix_pkg)
  also have "\<dots> = files w (zone_prefix (powercap_prefix @ show_nat i) i j @ ''/name'')"
    unfolding slash by (simp add: zone_prefix_def)
  finally show ?thesis
    using findNumZones_D [OF n j] by (auto simp: read_name_def split: fnode.split)
qed

lemma free_times_1: "i \<in> set live \<Longrightarrow> free_times (Suc 0) i live = Inr (removeAll i live)"
  by simp

lemma free_times_2: "free_times (Suc (Suc k)) i live = Inl DoubleFree"
  by simp

lemma final_pkgs_eq:
  "final_pkgs i ps ([k \<leftarrow> [0..<i]. keep k] @ [i..<i + length ps]) =
     (if \<exists>p\<in>set ps. 2 \<le> length (zones p) then Inl DoubleFree
      else Inr ([k \<leftarrow> [0..<i]. keep k] @ [k \<leftarrow> [i..<i + length ps]. zones (ps ! (k - i)) = []]))"
proof (induction ps arbitrary: i keep)
  case (Cons p ps)
  let ?live = "[k \<leftarrow> [0..<i]. keep k] @ [i..<i + length (p # ps)]"
  let ?keep = "\<lambda>k. if k = i then zones p = [] else keep k"
  have upt: "[i..<i + length (p # ps)] = i # [Suc i..<Suc i + length ps]" by (simp add: upt_rec)
  have pre: "[k \<leftarrow> [0..<Suc i]. ?keep k] = [k \<leftarrow> [0..<i]. keep k] @ (if zones p = [] then [i] else [])"
    by (auto intro: filter_cong)
  have rest: "[k \<leftarrow> [Suc i..<Suc i + length ps]. zones (ps ! (k - Suc i)) = []] =
    [k \<leftarrow> [Suc i..<Suc i + length ps]. zones ((p # ps) ! (k - i)) = []]"
  proof (intro filter_cong refl)
    fix k assume "k \<in> set [Suc i..<Suc i + length ps]"
    then have "k - i = Suc (k - Suc i)" by auto
    then show "(zones (ps ! (k - Suc i)) = []) = (zones ((p # ps) ! (k - i)) = [])" by simp
  qed
  show ?case
  proof (cases "2 \<le> length (zones p)")
    case True
    then obtain k where "length (zones p) = Suc (Suc k)" by (metis numeral_2_eq_2 le_iff_add add_Suc)
    then show ?thesis using True by simp
  next
    case False
    have "free_times (length (zones p)) i ?live =
      Inr ([k \<leftarrow> [0..<Suc i]. ?keep k] @ [Suc i..<Suc i + length ps])"
    proof (cases "zones p")
      case Nil
      then show ?thesis using upt pre by simp
    next
      case (Cons z zs)
      with False have "length (zones p) = Suc 0" by (cases zs) simp_all
      moreover have "removeAll i ([k \<leftarrow> [0..<i]. keep k] @ i # [Suc i..<Suc i + length ps]) =
        [k \<leftarrow> [0..<i]. keep k] @ [Suc i..<Suc i + length ps]"
        by (simp add: removeAll_id)
      ultimately show ?thesis using upt pre Cons by simp
    qed
    then show ?thesis
      using False Cons.IH [of "Suc i" ?keep] pre rest upt by auto
  qed
qed simp

text \<open>
  Finalisation releases a package's zone array once per zone: with two or more sub-zones the
  array is freed twice, with none it is never freed, and only packages with exactly one zone are
  cleaned up.
\<close>

theorem powercap_final_spec:
  "powercap_dev_final ps =
     (if \<exists>p\<in>set ps. 2 \<le> length (zones p) then Inl DoubleFree
      else Inr (0, [i \<leftarrow> [0..<length ps]. zones (ps ! i) = []]))"
  using final_pkgs_eq [of 0 ps "\<lambda>_. True"] by (simp add: powercap_dev_final_def)

subsection \<open>A machine with one package and one sub-zone\<close>

fun squeeze :: "string \<Rightarrow> string" where
  "squeeze [] = []"
| "squeeze (c # cs) =
     (if c = CHR ''/'' \<and> (case cs of d # _ \<Rightarrow> d = CHR ''/'' | [] \<Rightarrow> False) then squeeze cs else c # squeeze cs)"

lemma squeeze_slashes: "squeeze (p @ ''//'' @ q) = squeeze (p @ ''/'' @ q)"
  by (induction p) (auto split: list.splits simp: append_eq_Cons_conv Cons_eq_append_conv)

definition pc_demo_dir :: string where
  "pc_demo_dir = ''/sys/devices/virtual/powercap/intel-rapl/intel-rapl:0''"

definition pc_demo_files :: "string \<rightharpoonup> fnode" where
  "pc_demo_files = [pc_demo_dir @ ''/name'' \<mapsto> Regular ''package-0'',
     pc_demo_dir @ ''/energy_uj'' \<mapsto> Regular ''50'',
     pc_demo_dir @ ''/intel-rapl:0:0/name'' \<mapsto> Regular ''dram'',
     pc_demo_dir @ ''/intel-rapl:0:0/energy_uj'' \<mapsto> Regular ''20'']"

definition pc_demo_os :: os where
  "pc_demo_os = \<lparr>files = (\<lambda>p. pc_demo_files (squeeze p)), can_write = (\<lambda>_. False),
     store = (\<lambda>_ _ _. None), wlog = [], fds = 0, clock = (\<lambda>n. \<lparr>tv_sec = int n, tv_usec = 0\<rparr>),
     ticks = 0, msr = (\<lambda>_ _. None)\<rparr>"

definition pc_demo_zone :: zone where
  "pc_demo_zone = \<lparr>z_name = Some ''dram'', z_energy = pc_demo_dir @ ''/intel-rapl:0:0/energy_uj'', startValue = 20\<rparr>"

definition pc_demo_pkg :: pc_pkg where
  "pc_demo_pkg = \<lparr>p_zone = \<lparr>z_name = Some ''package-0'', z_energy = pc_demo_dir @ ''/energy_uj'', startValue = 50\<rparr>,
     zones = [pc_demo_zone]\<rparr>"

lemma pc_demo_names:
  "files pc_demo_os (zone_name_path powercap_prefix 0) = Some (Regular ''package-0'')"
  "files pc_demo_os (zone_name_path powercap_prefix 1) = None"
  "files pc_demo_os (zone_name_path (pc_demo_dir @ ''/'' @ findSuffix pc_demo_dir @ '':'') 0) = Some (Regular ''dram'')"
  "files pc_demo_os (zone_name_path (pc_demo_dir @ ''/'' @ findSuffix pc_demo_dir @ '':'') 1) = None"
  by code_simp+

lemma pc_demo_files:
  "files pc_demo_os (pc_demo_dir @ ''/name'') = Some (Regular ''package-0'')"
  "files pc_demo_os (pc_demo_dir @ ''/energy_uj'') = Some (Regular ''50'')"
  "files pc_demo_os (zone_prefix pc_demo_dir 0 0 @ ''/name'') = Some (Regular ''dram'')"
  "files pc_demo_os (pc_demo_dir @ ''/intel-rapl:0:0/energy_uj'') = Some (Regular ''20'')"
  "zone_prefix pc_demo_dir 0 0 @ ''/energy_uj'' = pc_demo_dir @ ''/intel-rapl:0:0/energy_uj''"
  "scan_word ''package-0'' = Some (''package-0'', [])" "scan_word ''dram'' = Some (''dram'', [])"
  "powercap_prefix @ show_nat 0 = pc_demo_dir"
  by code_simp+

lemma pc_demo_dir_append: "powercap_prefix @ show_nat 0 @ s = pc_demo_dir @ s"
  unfolding pc_demo_files(8) [symmetric] by simp

lemma pc_demo_counters:
  "fscanf_lld ''50'' = Scanned 50" "fscanf_lld ''20'' = Scanned 20"
proof -
  have "scan_int ''50'' = Some (50, [])" "skip_space ''50'' \<noteq> []"
    "scan_int ''20'' = Some (20, [])" "skip_space ''20'' \<noteq> []" by code_simp+
  then show "fscanf_lld ''50'' = Scanned 50" "fscanf_lld ''20'' = Scanned 20"
    by (simp_all add: fscanf_lld_def c_long_id)
qed

lemma pc_demo_values:
  "readValue pc_demo_os (pc_demo_dir @ ''/energy_uj'') = Inr 50"
  "readValue pc_demo_os (pc_demo_dir @ ''/intel-rapl:0:0/energy_uj'') = Inr 20"
  by (simp_all only: readValue_def pc_demo_files pc_demo_counters option.case fnode.case scan.case)

lemma pc_demo_init: "powercap_dev_init pc_demo_os = Inr (Some [pc_demo_pkg])"
proof -
  have z: "initZone pc_demo_os pc_demo_dir =
      Inr \<lparr>z_name = Some ''package-0'', z_energy = pc_demo_dir @ ''/energy_uj'', startValue = 50\<rparr>"
    "initZone pc_demo_os (zone_prefix pc_demo_dir 0 0) = Inr pc_demo_zone"
    by (simp_all only: initZone_def read_name_def pc_demo_files pc_demo_values option.case fnode.case
        option.map fst_conv rbind_Inr pc_demo_zone_def)
  have "findNumZones pc_demo_os powercap_prefix = Inr 1"
    using pc_demo_names by (intro findNumZones_I) auto
  moreover have "findNumZones pc_demo_os (pc_demo_dir @ ''/'' @ findSuffix pc_demo_dir @ '':'') = Inr 1"
    using pc_demo_names by (intro findNumZones_I) auto
  ultimately show ?thesis
    by (simp add: powercap_dev_init_def initPkg_def z pc_demo_pkg_def pc_demo_files(8) pc_demo_dir_append)
qed

theorem findNumZones_spec_witness:
  "findNumZones pc_demo_os powercap_prefix = Inr 1"
  using findNumZones_spec [of pc_demo_os powercap_prefix 1] pc_demo_names by simp

theorem powercap_energy_witness:
  "\<exists>mem socket stamp.
    powercap_dev_read (\<lparr>pc_type = obj_code OBJ_SOCKET, pc_pkg_ptr = Some pc_demo_pkg\<rparr>, pc_demo_os) ATTR_ENERGY Uninit 8 (Some 0) =
      Inr ((0, Dbl socket, Some stamp),
           (\<lparr>pc_type = obj_code OBJ_SOCKET, pc_pkg_ptr = Some pc_demo_pkg\<rparr>, pc_demo_os\<lparr>ticks := Suc (ticks pc_demo_os)\<rparr>)) \<and>
    mem + socket = 0"
  using powercap_energy [of pc_demo_pkg pc_demo_zone "[]" pc_demo_os 20 50 ATTR_ENERGY Uninit 8 0]
    pc_demo_values by (auto simp: pc_demo_pkg_def pc_demo_zone_def)

theorem powercap_starts_at_zero_witness:
  "\<exists>fd stamp s'. powercap_dev_open [pc_demo_pkg] (open_str_type_index OBJ_MEM (int 0) 100) = Inr fd \<and>
    powercap_dev_read (fd, pc_demo_os) ATTR_ENERGY Uninit 8 (Some 0) = Inr ((0, Dbl 0, Some stamp), s')"
  by (rule powercap_starts_at_zero [OF pc_demo_init]) (simp_all add: int32_def pc_demo_pkg_def)

theorem powercap_zone_paths_agree_witness:
  "\<exists>name. read_name pc_demo_os (zone_prefix (powercap_prefix @ show_nat 0) 0 0) = Inr name"
proof (rule powercap_zone_paths_agree)
  show "files pc_demo_os (p @ ''//'' @ q) = files pc_demo_os (p @ ''/'' @ q)" for p q
    by (simp only: pc_demo_os_def os.simps squeeze_slashes)
  show "findNumZones pc_demo_os (powercap_prefix @ show_nat 0 @ ''/'' @ findSuffix (powercap_prefix @ show_nat 0) @ '':'') = Inr 1"
    unfolding pc_demo_dir_append pc_demo_files(8) using pc_demo_names by (intro findNumZones_I) auto
qed simp

end
