(* ===== verification/Apm_Dev.thy ===== *)
theory Apm_Dev
  imports Cpu_Ident
begin

unbundle bit_operations_syntax

text \<open>
  \<^verbatim>\<open>src/plugins/pwr_apmdev.c\<close>: AMD application power management, read through the command
  \<^verbatim>\<open>setpci\<close>.  The command interpreter is a parameter \<open>sh\<close> of the model: given a command line and
  the world it yields \<open>None\<close> when \<^verbatim>\<open>popen\<close> fails, else the first line of output (\<open>None\<close> when there is
  no output) and the new world.
\<close>

type_synonym shell = "string \<Rightarrow> os \<Rightarrow> (string option \<times> os) option"

subsection \<open>Data\<close>

definition MSR_AND :: "64 word \<Rightarrow> 64 word \<Rightarrow> nat \<Rightarrow> 64 word" where
  "MSR_AND x y z = drop_bit z (x AND y)"

definition LMSR :: "64 word \<Rightarrow> 64 word \<Rightarrow> nat \<Rightarrow> 64 word" where
  "LMSR x y z = push_bit z (x AND y)"

text \<open>
  \<^verbatim>\<open>run_avg_range\<close> and \<^verbatim>\<open>proc_tdp\<close> are doubles that only ever hold a small whole number.
  \<open>avg_divide_by\<close> is 0 in a node that was never set up.
\<close>

record apm_node =
  n_number :: nat
  tdp_to_watt :: real
  run_avg_range :: nat
  avg_divide_by :: real
  proc_tdp :: nat

definition zero_node :: apm_node where
  "zero_node = \<lparr>n_number = 0, tdp_to_watt = 0, run_avg_range = 0, avg_divide_by = 0, proc_tdp = 0\<rparr>"

definition APM_NODE_MAX :: nat where
  "APM_NODE_MAX = 8"

record apm_dev =
  a_model :: int
  node_count :: nat
  apm_nodes :: "apm_node list"
  a_core :: int

type_synonym apm_state = "apm_dev \<times> os"

definition apmdev_parse :: "string \<Rightarrow> int option" where
  "apmdev_parse initstr = map_option (atoi \<circ> fst) (strtok '':'' initstr)"

definition apm_chip :: chip where
  "apm_chip = \<lparr>ch_vendor = ''AuthenticAMD'', ch_family = 21, ch_models = [1, 16, 48]\<rparr>"

definition apmdev_identify :: "os \<Rightarrow> int \<Rightarrow> (int \<times> int) res" where
  "apmdev_identify w model = cpu_identify apm_chip w model"

subsection \<open>Registers\<close>

definition setpci_cmd :: "nat \<Rightarrow> nat \<Rightarrow> nat \<Rightarrow> string" where
  "setpci_cmd node reg off =
     ''setpci -f -s 0:'' @ show_hex (node + 0x18) @ ''.'' @ show_hex reg @ '' 0x'' @ show_hex off @ ''.l''"

text \<open>
  The variable \<^verbatim>\<open>msr\<close> keeps its old content when the output is no hexadecimal number.  A pipe whose
  first line cannot be read is never closed.
\<close>

definition apmdev_read ::
  "shell \<Rightarrow> os \<Rightarrow> nat \<Rightarrow> nat \<Rightarrow> nat \<Rightarrow> 64 word option \<Rightarrow> (int \<times> 64 word option) \<times> os" where
  "apmdev_read sh w node reg off m =
     (case sh (setpci_cmd node reg off @ '' 2>&1'') w of
        None \<Rightarrow> ((-1, m), w)
      | Some (None, w1) \<Rightarrow> ((-1, m), w1\<lparr>fds := Suc (fds w1)\<rparr>)
      | Some (Some line, w1) \<Rightarrow>
          ((0, case sscanf_lx (take 254 line) of Some v \<Rightarrow> Some v | None \<Rightarrow> m), w1))"

definition apmdev_write :: "shell \<Rightarrow> os \<Rightarrow> nat \<Rightarrow> nat \<Rightarrow> nat \<Rightarrow> nat \<Rightarrow> (int \<times> os) res" where
  "apmdev_write sh w node reg off v =
     (case sh (setpci_cmd node reg off @ ''=0x'' @ show_hex v @ '' 2>&1'') w of
        None \<Rightarrow> Inl MemoryFault
      | Some (None, w1) \<Rightarrow> Inr (0, w1)
      | Some (Some line, w1) \<Rightarrow> Inr (-1, w1\<lparr>fds := Suc (fds w1)\<rparr>))"

definition use_msr :: "64 word option \<Rightarrow> 64 word res" where
  "use_msr m = (case m of None \<Rightarrow> Inl UninitRead | Some v \<Rightarrow> Inr v)"

text \<open>The accumulator field: 22 bits, negated in unsigned arithmetic when its top bit is set.\<close>

definition run_avg_acc_cap :: "64 word \<Rightarrow> 64 word" where
  "run_avg_acc_cap m =
     (let c = MSR_AND m 0x03ffffff 4
      in if 0x00200000 \<le> c then - ((NOT (c AND 0x001fffff) AND 0x001fffff) + 1) else c)"

text \<open>
  The power is \<open>None\<close> when the quotient is a division by zero: a node that was never set up gives
  infinity times zero, not a number.
\<close>

definition apm_power :: "apm_node \<Rightarrow> 64 word \<Rightarrow> 64 word \<Rightarrow> real option" where
  "apm_power node ml mc =
     (if avg_divide_by node = 0 then None
      else Some ((real (unat (MSR_AND ml 0x1fffffff 16)) - real (unat (run_avg_acc_cap mc)) / avg_divide_by node)
                 * tdp_to_watt node))"

definition apmdev_gather :: "shell \<Rightarrow> os \<Rightarrow> apm_node \<Rightarrow> ((int \<times> real option) \<times> os) res" where
  "apmdev_gather sh w node =
     (let ((rc, m), w1) = apmdev_read sh w (n_number node) 5 0xe8 None
      in if rc < 0 then Inr ((-1, Some 0), w1)
         else rbind (use_msr m) (\<lambda>ml.
              let ((rc2, m2), w2) = apmdev_read sh w1 (n_number node) 5 0xe0 m
              in if rc2 < 0 then Inr ((-1, Some 0), w2)
                 else rbind (use_msr m2) (\<lambda>mc. Inr ((0, apm_power node ml mc), w2))))"

subsection \<open>Initialisation\<close>

text \<open>
  The first loop looks for nodes by vendor; it returns the numbers found, or \<open>None\<close> when the
  function returns a null pointer.  \<open>m\<close> is the shared variable \<^verbatim>\<open>msr\<close>.
\<close>

fun apm_find_nodes ::
  "shell \<Rightarrow> nat list \<Rightarrow> nat list \<Rightarrow> 64 word option \<Rightarrow> os \<Rightarrow> ((nat list option \<times> 64 word option) \<times> os) res" where
  "apm_find_nodes sh [] found m w = Inr ((Some found, m), w)"
| "apm_find_nodes sh (i # is) found m w =
     (let ((rc, m1), w1) = apmdev_read sh w i 0 0 m
      in if rc < 0 then apm_find_nodes sh is found m1 w1
         else rbind (use_msr m1) (\<lambda>v.
              if MSR_AND v 0xffff 0 = 0x1022 then
                (let ((rc2, m2), w2) = apmdev_read sh w1 i 3 0xe8 m1
                 in if rc2 < 0 then Inr ((None, m2), w2)
                    else apm_find_nodes sh is (found @ [i]) m2 w2)
              else apm_find_nodes sh is found m1 w1))"

definition decode_tdp :: "64 word \<Rightarrow> real" where
  "decode_tdp m = real (unat (LMSR m 0x03ff 6 OR MSR_AND m 0xfc00 10)) / 65536"

text \<open>The averaging range each model should have; another model keeps what it has.\<close>

definition wanted_range :: "int \<Rightarrow> nat option" where
  "wanted_range model = (if model = 1 then Some 9 else if model = 16 \<or> model = 48 then Some 2 else None)"

definition fix_range :: "shell \<Rightarrow> os \<Rightarrow> int \<Rightarrow> nat \<Rightarrow> nat \<Rightarrow> (nat option \<times> os) res" where
  "fix_range sh w model number r =
     (case wanted_range model of
        None \<Rightarrow> Inr (Some r, w)
      | Some r' \<Rightarrow>
          if r \<noteq> r' then
            rbind (apmdev_write sh w number 5 0xe0 r') (\<lambda>(rc, w1).
            if rc < 0 then Inr (None, w1) else Inr (Some r', w1))
          else Inr (Some r, w))"

definition apm_setup_node ::
  "shell \<Rightarrow> int \<Rightarrow> nat \<Rightarrow> 64 word option \<Rightarrow> os \<Rightarrow> ((apm_node option \<times> 64 word option) \<times> os) res" where
  "apm_setup_node sh model number m w =
     (let ((rc, m1), w1) = apmdev_read sh w number 5 0xe8 m
      in if rc < 0 then Inr ((None, m1), w1)
         else rbind (use_msr m1) (\<lambda>mt.
     (let ((rc, m2), w2) = apmdev_read sh w1 number 5 0xe0 m1
      in if rc < 0 then Inr ((None, m2), w2)
         else rbind (use_msr m2) (\<lambda>mr.
              rbind (fix_range sh w2 model number (unat (MSR_AND mr 0x000f 0))) (\<lambda>(r, w3).
              case r of
                None \<Rightarrow> Inr ((None, m2), w3)
              | Some rg \<Rightarrow>
     (let ((rc, m3), w4) = apmdev_read sh w3 number 4 0x1b8 m2
      in if rc < 0 then Inr ((None, m3), w4)
         else rbind (use_msr m3) (\<lambda>mp.
              Inr ((Some \<lparr>n_number = number, tdp_to_watt = decode_tdp mt, run_avg_range = rg,
                          avg_divide_by = 2 ^ (rg + 1), proc_tdp = unat (MSR_AND mp 0xffff 0)\<rparr>, m3),
                   w4))))))))"

fun apm_setup_nodes ::
  "shell \<Rightarrow> int \<Rightarrow> nat list \<Rightarrow> 64 word option \<Rightarrow> os \<Rightarrow> (apm_node list option \<times> os) res" where
  "apm_setup_nodes sh model [] m w = Inr (Some [], w)"
| "apm_setup_nodes sh model (i # is) m w =
     rbind (apm_setup_node sh model i m w) (\<lambda>((n, m1), w1).
     case n of
       None \<Rightarrow> Inr (None, w1)
     | Some node \<Rightarrow>
         rbind (apm_setup_nodes sh model is m1 w1) (\<lambda>(ns, w2).
         Inr (map_option (\<lambda>l. node # l) ns, w2)))"

text \<open>The core number of the initialisation string is parsed into a local and never stored.\<close>

definition pwr_apmdev_init :: "shell \<Rightarrow> string \<Rightarrow> os \<Rightarrow> (apm_dev option \<times> os) res" where
  "pwr_apmdev_init sh initstr w =
     (case apmdev_parse initstr of
        None \<Rightarrow> Inr (None, w)
      | Some core \<Rightarrow>
          rbind (apmdev_identify w 0) (\<lambda>(rc, model).
          if rc < 0 then Inr (None, w)
          else rbind (apm_find_nodes sh [0..<APM_NODE_MAX] [] None w) (\<lambda>((found, m), w1).
               case found of
                 None \<Rightarrow> Inr (None, w1)
               | Some is \<Rightarrow>
                   rbind (apm_setup_nodes sh model is m w1) (\<lambda>(ns, w2).
                   Inr (map_option (\<lambda>l. \<lparr>a_model = model, node_count = length is,
                          apm_nodes = l @ replicate (APM_NODE_MAX - length l) zero_node, a_core = 0\<rparr>) ns,
                        w2)))))"

subsection \<open>Descriptor operations\<close>

definition pwr_apmdev_open :: "apm_dev \<Rightarrow> string \<Rightarrow> apm_dev" where
  "pwr_apmdev_open dev openstr = dev"

definition pwr_apmdev_close :: "apm_state \<Rightarrow> int \<times> os" where
  "pwr_apmdev_close s = free_fd s"

definition pwr_apmdev_final :: "apm_dev \<times> os \<Rightarrow> int \<times> os" where
  "pwr_apmdev_final s = free_fd s"

text \<open>A quotient that is no number is stored as the bits of the processor's default NaN.\<close>

definition nan_bits :: "64 word" where
  "nan_bits = 0xfff8000000000000"

definition cell_of_power :: "real option \<Rightarrow> cell" where
  "cell_of_power p = (case p of Some x \<Rightarrow> Dbl x | None \<Rightarrow> U64 nan_bits)"

definition pwr_apmdev_read :: "shell \<Rightarrow> apm_state reader" where
  "pwr_apmdev_read sh s a v len t =
     (let (dev, w) = s
      in if len \<noteq> SIZEOF_DOUBLE then Inr ((-1, v, t), s)
         else if a_core dev < 0 then Inl MemoryFault
         else rbind (arr_get (apm_nodes dev) (nat (a_core dev))) (\<lambda>node.
              rbind (apmdev_gather sh w node) (\<lambda>((rc, power), w1).
              if rc < 0 then Inr ((-1, v, t), (dev, w1))
              else let (tv, w2) = gettimeofday w1
                   in rbind (store_ts (time_ns tv) t) (\<lambda>t'.
                      Inr ((0, (if a = ATTR_POWER then cell_of_power power else v), t'), (dev, w2))))))"

definition pwr_apmdev_write :: "apm_state writer" where
  "pwr_apmdev_write s a v len = Inr ((0, v), s)"

definition pwr_apmdev_readv :: "shell \<Rightarrow> apm_state vreader" where
  "pwr_apmdev_readv sh = readv_of (pwr_apmdev_read sh)"

definition pwr_apmdev_writev :: "apm_state vwriter" where
  "pwr_apmdev_writev = writev_of pwr_apmdev_write"

definition pwr_apmdev_time :: "shell \<Rightarrow> apm_state \<Rightarrow> ts_ptr \<Rightarrow> ((int \<times> ts_ptr) \<times> apm_state) res" where
  "pwr_apmdev_time sh = time_of_read (pwr_apmdev_read sh) ATTR_POWER"

definition pwr_apmdev_clear :: "apm_state \<Rightarrow> int \<times> apm_state" where
  "pwr_apmdev_clear s = (0, s)"

definition apm_ops :: "shell \<Rightarrow> apm_state devops" where
  "apm_ops sh = \<lparr>d_read = pwr_apmdev_read sh, d_write = pwr_apmdev_write,
     d_readv = Some (pwr_apmdev_readv sh), d_writev = Some pwr_apmdev_writev,
     d_log_start = None, d_log_stop = None, d_get_samples = None\<rparr>"

interpretation apm: careful_reader "pwr_apmdev_read (\<lambda>cmd w. Some (out cmd, w))" snd for out :: "string \<Rightarrow> string option"
proof
  fix s :: apm_state and a v len t rc v' t' s'
  assume r: "pwr_apmdev_read (\<lambda>cmd w. Some (out cmd, w)) s a v len t = Inr ((rc, v', t'), s')"
  show "rc = 0 \<or> rc = - 1" and "t' = None \<longleftrightarrow> t = None" and "rc \<noteq> 0 \<Longrightarrow> v' = v \<and> t' = t"
    and "files (snd s') = files (snd s) \<and> wlog (snd s') = wlog (snd s)"
    using r by (auto simp: pwr_apmdev_read_def apmdev_gather_def apmdev_read_def gettimeofday_def rbind_eq_Inr_iff
        store_ts_eq_Inr_iff Let_def
        split: prod.splits option.splits if_splits)
qed

interpretation apmw: attr_writer pwr_apmdev_write
  by unfold_locales (simp add: pwr_apmdev_write_def)

subsection \<open>Bit fields\<close>

lemma MSR_AND_mask:
  assumes "k \<le> 64"
  shows "unat (MSR_AND x (2 ^ k - 1) z) = unat x mod 2 ^ k div 2 ^ z"
proof -
  have t: "take_bit 64 (take_bit k (unat x)) = take_bit k (unat x)" using assms by (simp add: min_def)
  have "x AND (2 ^ k - 1) = take_bit k x" by (simp add: take_bit_eq_mask mask_eq_exp_minus_1)
  then have "unat (MSR_AND x (2 ^ k - 1) z) = drop_bit z (take_bit k (unat x))"
    using t by (simp only: MSR_AND_def unsigned_drop_bit_eq unsigned_take_bit_eq) simp
  then show ?thesis by (simp add: take_bit_eq_mod drop_bit_eq_div)
qed

definition acc_field :: "64 word \<Rightarrow> nat" where
  "acc_field m = unat m div 16 mod 2 ^ 22"

text \<open>The field read as a 22-bit two's complement number.\<close>

definition acc_signed :: "64 word \<Rightarrow> int" where
  "acc_signed m = (if acc_field m < 2 ^ 21 then int (acc_field m) else int (acc_field m) - 2 ^ 22)"

lemma acc_field_eq: "unat (MSR_AND m 0x03ffffff 4) = acc_field m"
proof -
  have "unat (MSR_AND m (2 ^ 26 - 1) 4) = unat m mod 2 ^ 26 div 2 ^ 4" by (rule MSR_AND_mask) simp
  also have "\<dots> = unat m div 2 ^ 4 mod 2 ^ 22" using div_exp_mod_exp_eq [of "unat m" 4 22] by simp
  finally show ?thesis by (simp add: acc_field_def)
qed

lemma acc_field_less: "acc_field m < 2 ^ 22"
  by (simp add: acc_field_def)

lemma neg_field_eq:
  assumes "2 ^ 21 \<le> unat c" and "unat c < 2 ^ 22"
  shows "- ((NOT (c AND 0x001fffff) AND 0x001fffff) + 1) = (c :: 64 word) - 2 ^ 22"
proof -
  have m: "(0x001fffff :: 64 word) = mask 21" by (simp add: mask_eq_exp_minus_1)
  have a: "c AND mask 21 = take_bit 21 c" by (simp add: take_bit_eq_mask)
  have "unat (take_bit 21 c) = unat c mod 2 ^ 21"
    by (subst unsigned_take_bit_eq) (simp only: take_bit_eq_mod)
  also have "\<dots> = unat c - 2 ^ 21" using assms by (simp add: mod_if le_mod_geq)
  also have "\<dots> = unat (c - 2 ^ 21)"
    using assms by (subst unat_sub) (simp_all add: word_le_nat_alt)
  finally have t: "take_bit 21 c = c - 2 ^ 21" by (simp add: word_unat_eq_iff)
  have "NOT (c AND mask 21) AND mask 21 = take_bit 21 (NOT (take_bit 21 c))"
    unfolding a by (rule take_bit_eq_mask [symmetric])
  also have "\<dots> = mask 21 - take_bit 21 (take_bit 21 c)" by (rule take_bit_not_eq_mask_diff)
  also have "\<dots> = mask 21 - (c - 2 ^ 21)" by (simp only: take_bit_take_bit min.idem) (simp only: t)
  finally show ?thesis unfolding m by (simp add: mask_eq_exp_minus_1)
qed

lemma unat_run_avg_acc_cap:
  "real (unat (run_avg_acc_cap m)) = acc_signed m + (if acc_field m < 2 ^ 21 then 0 else 2 ^ 64)"
proof -
  let ?c = "MSR_AND m 0x03ffffff 4"
  have c: "unat ?c = acc_field m" by (rule acc_field_eq)
  have neg: "(0x00200000 \<le> ?c) = (2 ^ 21 \<le> acc_field m)" by (simp add: word_le_nat_alt c)
  show ?thesis
  proof (cases "acc_field m < 2 ^ 21")
    case True
    with neg c show ?thesis by (simp add: run_avg_acc_cap_def acc_signed_def Let_def)
  next
    case False
    with c acc_field_less [of m] have "run_avg_acc_cap m = ?c - 2 ^ 22"
      using neg_field_eq [of ?c] neg by (simp add: run_avg_acc_cap_def Let_def)
    moreover have "unat (?c - 2 ^ 22) = 2 ^ 64 + acc_field m - 2 ^ 22"
      using c acc_field_less [of m] by (simp add: unat_sub_if')
    ultimately show ?thesis using False acc_field_less [of m] by (simp add: acc_signed_def)
  qed
qed

subsection \<open>Properties\<close>

definition apm_limit :: "64 word \<Rightarrow> nat" where
  "apm_limit m = unat m mod 2 ^ 29 div 2 ^ 16"

text \<open>
  C38.  The power of a node in watts is the limit minus the running average, scaled, when the
  accumulator field is not negative as a 22-bit number.  When it is negative the code negates it
  as an \<^verbatim>\<open>unsigned long\<close>, and what is reported is too small by 2^64 divided by the averaging
  divisor, scaled.
\<close>

theorem apm_power_spec:
  assumes "avg_divide_by node \<noteq> 0"
  shows "apm_power node ml mc =
    Some ((real (apm_limit ml) - acc_signed mc / avg_divide_by node) * tdp_to_watt node
          - (if acc_signed mc < 0 then 2 ^ 64 / avg_divide_by node * tdp_to_watt node else 0))"
proof -
  have l: "unat (MSR_AND ml 0x1fffffff 16) = apm_limit ml"
    using MSR_AND_mask [of 29 ml 16] by (simp add: apm_limit_def)
  have s: "acc_signed mc < 0 \<longleftrightarrow> \<not> acc_field mc < 2 ^ 21"
    using acc_field_less [of mc] by (auto simp: acc_signed_def)
  show ?thesis
    using assms unfolding apm_power_def l unat_run_avg_acc_cap s
    by (simp add: field_simps)
qed

text \<open>Nodes that initialisation set up.\<close>

definition apm_node_ok :: "int \<Rightarrow> apm_node \<Rightarrow> bool" where
  "apm_node_ok model n \<longleftrightarrow>
     avg_divide_by n = 2 ^ (run_avg_range n + 1) \<and> 0 \<le> tdp_to_watt n \<and>
     (case wanted_range model of Some r \<Rightarrow> run_avg_range n = r | None \<Rightarrow> run_avg_range n < 16)"

lemma fix_range_ok:
  "fix_range sh w model i r = Inr (Some r', w') \<Longrightarrow> r < 16 \<Longrightarrow>
   (case wanted_range model of Some k \<Rightarrow> r' = k | None \<Rightarrow> r' < 16)"
  by (auto simp: fix_range_def rbind_eq_Inr_iff split: option.splits if_splits prod.splits)

lemma range_field: "unat (MSR_AND m 0x000f 0) < 16"
  using MSR_AND_mask [of 4 m 0] by simp

lemma apm_setup_node_ok:
  assumes "apm_setup_node sh model i m w = Inr ((Some n, m'), w')"
  shows "n_number n = i \<and> apm_node_ok model n"
proof -
  obtain rc1 m1 w1 where r1: "apmdev_read sh w i 5 0xe8 m = ((rc1, m1), w1)" by (metis prod.exhaust)
  obtain rc2 m2 w2 where r2: "apmdev_read sh w1 i 5 0xe0 m1 = ((rc2, m2), w2)" by (metis prod.exhaust)
  from assms r1 obtain mt where c1: "\<not> rc1 < 0" "use_msr m1 = Inr mt"
    by (auto simp: apm_setup_node_def rbind_eq_Inr_iff split: if_splits)
  with assms r1 r2 obtain mr where c2: "\<not> rc2 < 0" "use_msr m2 = Inr mr"
    by (auto simp: apm_setup_node_def rbind_eq_Inr_iff split: if_splits)
  with assms r1 r2 c1 obtain rg w3 where f: "fix_range sh w2 model i (unat (MSR_AND mr 0x000f 0)) = Inr (Some rg, w3)"
    by (auto simp: apm_setup_node_def rbind_eq_Inr_iff split: option.splits)
  obtain rc3 m3 w4 where r3: "apmdev_read sh w3 i 4 0x1b8 m2 = ((rc3, m3), w4)" by (metis prod.exhaust)
  with assms r1 r2 c1 c2 f obtain mp where n: "n = \<lparr>n_number = i, tdp_to_watt = decode_tdp mt,
    run_avg_range = rg, avg_divide_by = 2 ^ (rg + 1), proc_tdp = mp\<rparr>"
    by (auto simp: apm_setup_node_def rbind_eq_Inr_iff split: if_splits)
  have "0 \<le> decode_tdp mt" unfolding decode_tdp_def by (intro divide_nonneg_nonneg of_nat_0_le_iff) simp
  with fix_range_ok [OF f range_field] show ?thesis
    by (simp add: n apm_node_ok_def split: option.splits)
qed

lemma apm_setup_nodes_ok:
  "apm_setup_nodes sh model is m w = Inr (Some ns, w') \<Longrightarrow>
   map n_number ns = is \<and> (\<forall>n\<in>set ns. apm_node_ok model n)"
proof (induction "is" arbitrary: m w ns)
  case (Cons i "is")
  from Cons.prems obtain n m1 w1 l where n: "apm_setup_node sh model i m w = Inr ((Some n, m1), w1)"
    and l: "apm_setup_nodes sh model is m1 w1 = Inr (Some l, w')" and ns: "ns = n # l"
    by (auto simp: rbind_eq_Inr_iff split: option.splits)
  from apm_setup_node_ok [OF n] Cons.IH [OF l] ns show ?case by simp
qed simp

lemma apm_find_nodes_sorted:
  "apm_find_nodes sh is found m w = Inr ((Some r, m'), w') \<Longrightarrow> sorted_wrt (<) (found @ is) \<Longrightarrow>
   sorted_wrt (<) r \<and> set r \<subseteq> set found \<union> set is"
proof (induction sh "is" found m w rule: apm_find_nodes.induct)
  case (2 sh i "is" found m w)
  obtain rc m1 w1 where rd: "apmdev_read sh w i 0 0 m = ((rc, m1), w1)"
    by (cases "apmdev_read sh w i 0 0 m") auto
  have sub: "sorted_wrt (<) (found @ is)" using 2(5) by (simp add: sorted_wrt_append)
  show ?case
  proof (cases "rc < 0")
    case True
    then have rest: "apm_find_nodes sh is found m1 w1 = Inr ((Some r, m'), w')" using 2(4) rd by simp
    from 2(1) [OF rd [symmetric] refl refl True rest sub] show ?thesis by auto
  next
    case False
    with 2(4) rd obtain v where v: "use_msr m1 = Inr v" by (auto simp: rbind_eq_Inr_iff)
    show ?thesis
    proof (cases "MSR_AND v 0xffff 0 = 0x1022")
      case True
      obtain rc2 m2 w2 where rd2: "apmdev_read sh w1 i 3 0xe8 m1 = ((rc2, m2), w2)"
        by (cases "apmdev_read sh w1 i 3 0xe8 m1") auto
      have nf: "\<not> rc2 < 0" and rest: "apm_find_nodes sh is (found @ [i]) m2 w2 = Inr ((Some r, m'), w')"
        using 2(4) rd rd2 False v True by (auto split: if_splits)
      from 2(2) [OF rd [symmetric] refl refl False True rd2 [symmetric] refl refl nf rest] 2(5) show ?thesis by auto
    next
      case noid: False
      have "apm_find_nodes sh is found m1 w1 = Inr ((Some r, m'), w')"
        using 2(4) rd False v noid by simp
      from 2(3) [OF rd [symmetric] refl refl False noid this sub] show ?thesis by auto
    qed
  qed
qed simp

text \<open>
  A successful initialisation finds at most eight nodes with strictly increasing numbers below
  eight; each has the averaging range its processor model needs and the matching divisor.  Whatever
  core the initialisation string names, the device always reads the first node.
\<close>

theorem pwr_apmdev_init_nodes:
  assumes "pwr_apmdev_init sh initstr w = Inr (Some dev, w')"
  shows "node_count dev \<le> 8 \<and> length (apm_nodes dev) = 8 \<and> a_core dev = 0 \<and>
    sorted_wrt (<) (map n_number (take (node_count dev) (apm_nodes dev))) \<and>
    (\<forall>n\<in>set (take (node_count dev) (apm_nodes dev)). n_number n < 8 \<and> apm_node_ok (a_model dev) n)"
proof -
  from assms obtain model "is" m w1 w2 ns
    where f: "apm_find_nodes sh [0..<APM_NODE_MAX] [] None w = Inr ((Some is, m), w1)"
      and s: "apm_setup_nodes sh model is m w1 = Inr (Some ns, w2)"
      and dev: "dev = \<lparr>a_model = model, node_count = length is,
        apm_nodes = ns @ replicate (APM_NODE_MAX - length ns) zero_node, a_core = 0\<rparr>"
    by (auto simp: pwr_apmdev_init_def rbind_eq_Inr_iff split: option.splits if_splits)
  have srt: "sorted_wrt (<) is" and sub: "set is \<subseteq> {..<8}"
    using apm_find_nodes_sorted [OF f] by (auto simp: APM_NODE_MAX_def)
  have num: "map n_number ns = is" and ok: "\<forall>n\<in>set ns. apm_node_ok model n"
    using apm_setup_nodes_ok [OF s] by auto
  have "distinct is" using srt by (simp add: strict_sorted_iff)
  then have "length is = card (set is)" by (simp add: distinct_card)
  also have "\<dots> \<le> card {..<8::nat}" using sub by (intro card_mono) simp_all
  finally have len: "length is \<le> 8" by simp
  have "length ns = length is" using num by (metis length_map)
  with dev have t: "take (node_count dev) (apm_nodes dev) = ns" by simp
  have "\<forall>n\<in>set ns. n_number n < 8" using num sub by force
  with t ok dev num srt len \<open>length ns = length is\<close> show ?thesis by (simp add: APM_NODE_MAX_def)
qed

subsection \<open>A machine with one node\<close>

definition apm_demo_os :: os where
  "apm_demo_os =
     \<lparr>files = [''/proc/cpuinfo'' \<mapsto> Regular (''model : 1'' @ [CHR 0x0A])],
      can_write = (\<lambda>_. False), store = (\<lambda>_ _ _. None), wlog = [], fds = 0,
      clock = (\<lambda>_. \<lparr>tv_sec = 0, tv_usec = 0\<rparr>), ticks = 0, msr = (\<lambda>_ _. None)\<rparr>"

text \<open>A command interpreter that answers reads of the first node and is silent otherwise.\<close>

definition apm_demo_sh :: shell where
  "apm_demo_sh cmd w =
     Some (if cmd = setpci_cmd 0 0 0 @ '' 2>&1'' then Some ''00001022''
           else if cmd = setpci_cmd 0 3 0xe8 @ '' 2>&1'' then Some ''00000000''
           else if cmd = setpci_cmd 0 5 0xe8 @ '' 2>&1'' then Some ''00640400''
           else if cmd = setpci_cmd 0 5 0xe0 @ '' 2>&1'' then Some ''00000009''
           else if cmd = setpci_cmd 0 4 0x1b8 @ '' 2>&1'' then Some ''00000073''
           else None, w)"

lemma apm_demo_cmds:
  "setpci_cmd 0 0 0 = ''setpci -f -s 0:18.0 0x0.l''"
  "setpci_cmd 1 0 0 = ''setpci -f -s 0:19.0 0x0.l''"
  "setpci_cmd 2 0 0 = ''setpci -f -s 0:1a.0 0x0.l''"
  "setpci_cmd 3 0 0 = ''setpci -f -s 0:1b.0 0x0.l''"
  "setpci_cmd 4 0 0 = ''setpci -f -s 0:1c.0 0x0.l''"
  "setpci_cmd 5 0 0 = ''setpci -f -s 0:1d.0 0x0.l''"
  "setpci_cmd 6 0 0 = ''setpci -f -s 0:1e.0 0x0.l''"
  "setpci_cmd 7 0 0 = ''setpci -f -s 0:1f.0 0x0.l''"
  "setpci_cmd 0 3 0xe8 = ''setpci -f -s 0:18.3 0xe8.l''"
  "setpci_cmd 0 5 0xe8 = ''setpci -f -s 0:18.5 0xe8.l''"
  "setpci_cmd 0 5 0xe0 = ''setpci -f -s 0:18.5 0xe0.l''"
  "setpci_cmd 0 4 0x1b8 = ''setpci -f -s 0:18.4 0x1b8.l''"
  by code_simp+

lemma apm_demo_lx:
  "sscanf_lx ''00001022'' = Some 0x1022" "sscanf_lx ''00000000'' = Some 0" "sscanf_lx ''00640400'' = Some 0x640400"
  "sscanf_lx ''00000009'' = Some 9" "sscanf_lx ''00000073'' = Some 0x73"
  by (simp_all add: sscanf_lx_def skip_space_def is_space_def char_code_def scan_xdigits_def drop_0x_def
      is_xdigit_def is_digit_def xdigit_val_def digit_val_def c_ulong_def)

lemma apm_demo_vendor:
  assumes "i < 8" and "i \<noteq> 0"
  shows "apmdev_read apm_demo_sh w i 0 0 m = ((-1, m), w\<lparr>fds := Suc (fds w)\<rparr>)"
proof -
  from assms have "i \<in> {1, 2, 3, 4, 5, 6, 7}" by auto
  then show ?thesis
    by (auto simp: apmdev_read_def apm_demo_sh_def apm_demo_cmds apm_demo_cmds(2) [simplified])
qed

lemma apm_demo_reads:
  "apmdev_read apm_demo_sh w 0 0 0 m = ((0, Some 0x1022), w)"
  "apmdev_read apm_demo_sh w 0 3 0xe8 m = ((0, Some 0), w)"
  "apmdev_read apm_demo_sh w 0 5 0xe8 m = ((0, Some 0x640400), w)"
  "apmdev_read apm_demo_sh w 0 5 0xe0 m = ((0, Some 9), w)"
  "apmdev_read apm_demo_sh w 0 4 0x1b8 m = ((0, Some 0x73), w)"
  by (simp_all add: apmdev_read_def apm_demo_sh_def apm_demo_cmds apm_demo_lx)

lemma apm_demo_find_rest:
  "set is \<subseteq> {1..7} \<Longrightarrow> \<exists>w'. apm_find_nodes apm_demo_sh is found m w = Inr ((Some found, m), w')"
  by (induction "is" arbitrary: w) (auto simp: apm_demo_vendor)

lemma apm_demo_init:
  "\<exists>dev w'. pwr_apmdev_init apm_demo_sh ''3'' apm_demo_os = Inr (Some dev, w') \<and> node_count dev = 1"
proof -
  have "[0..<APM_NODE_MAX] = 0 # [1..<8]" by (simp add: APM_NODE_MAX_def upt_rec)
  moreover obtain w' where "apm_find_nodes apm_demo_sh [1..<8] [0] (Some 0) apm_demo_os = Inr ((Some [0], Some 0), w')"
    using apm_demo_find_rest [of "[1..<8]" "[0]"] by fastforce
  moreover have "MSR_AND 0x1022 0xffff 0 = 0x1022" by (simp add: MSR_AND_def)
  ultimately have f: "apm_find_nodes apm_demo_sh [0..<APM_NODE_MAX] [] None apm_demo_os = Inr ((Some [0], Some 0), w')"
    by (simp add: apm_demo_reads use_msr_def)
  have s: "\<exists>n. apm_setup_nodes apm_demo_sh 1 [0] (Some 0) w' = Inr (Some [n], w')"
    by (simp add: apm_setup_node_def apm_demo_reads use_msr_def fix_range_def wanted_range_def MSR_AND_def)
  have "fgets_lines 80 (''model : 1'' @ [CHR 0x0A]) = [''model : 1'' @ [CHR 0x0A]]"
    by (simp add: fgets_lines_def)
  moreover have "sscanf_words_d 2 (''model : 1'' @ [CHR 0x0A]) = Some 1" by code_simp
  ultimately have "apmdev_identify apm_demo_os 0 = Inr (0, 1)"
    by (simp add: apmdev_identify_def cpu_identify_def apm_chip_def apm_demo_os_def identify_line_def strncmp0_def)
  moreover have "apmdev_parse ''3'' = Some 3" by code_simp
  ultimately show ?thesis using f s by (auto simp: pwr_apmdev_init_def)
qed

theorem apm_power_spec_witness:
  "apm_power \<lparr>n_number = 0, tdp_to_watt = 1, run_avg_range = 2, avg_divide_by = 8, proc_tdp = 0\<rparr> 0x640000 0x3fffff0 =
   Some (100 + 1 / 8 - 2 ^ 61)"
proof -
  have "apm_limit 0x640000 = 100" "acc_signed 0x3fffff0 = - 1"
    by (simp_all add: apm_limit_def acc_signed_def acc_field_def)
  then show ?thesis
    using apm_power_spec [of "\<lparr>n_number = 0, tdp_to_watt = 1, run_avg_range = 2, avg_divide_by = 8, proc_tdp = 0\<rparr>"
        "0x640000" "0x3fffff0"] by simp
qed

theorem pwr_apmdev_init_nodes_witness:
  "\<exists>dev w'. pwr_apmdev_init apm_demo_sh ''3'' apm_demo_os = Inr (Some dev, w') \<and> node_count dev \<le> 8 \<and> a_core dev = 0"
proof -
  obtain dev w' where i: "pwr_apmdev_init apm_demo_sh ''3'' apm_demo_os = Inr (Some dev, w')"
    using apm_demo_init by blast
  with pwr_apmdev_init_nodes [OF i] show ?thesis by blast
qed

end
