(* ===== verification/Toilet_Dev.thy ===== *)
theory Toilet_Dev
  imports Plugin_Iface
begin

text \<open>
  \<^verbatim>\<open>src/plugins/pwr_toiletdev.c\<close>: frequency, frequency limits and governor of a core through the
  cpufreq files, and the energy counter of a package.  Two things the code leaves to the machine are
  parameters: \<open>junk\<close>, the bytes that lie in memory after the string handed to a \<^verbatim>\<open>write\<close> of 100 bytes,
  and \<open>reg\<close>, what the return register holds when a function ends without a return statement.
\<close>

subsection \<open>Data\<close>

text \<open>The third field, a pointer to an object nobody uses, is left out.\<close>

record toilet_fd =
  t_num :: int
  t_type :: int

type_synonym toilet_state = "toilet_fd \<times> os"

definition toilet_open :: "string \<Rightarrow> toilet_fd" where
  "toilet_open openstr =
     (if contains_str ''pkg'' openstr then
        \<lparr>t_num = (case sscanf_lit_d ''pkg'' openstr of Some n \<Rightarrow> n | None \<Rightarrow> 0), t_type = 1\<rparr>
      else if contains_str ''core'' openstr then
        \<lparr>t_num = (case sscanf_lit_d ''core'' openstr of Some n \<Rightarrow> n | None \<Rightarrow> 0), t_type = 0\<rparr>
      else \<lparr>t_num = 0, t_type = 0\<rparr>)"

definition toilet_close :: "toilet_state \<Rightarrow> int \<times> os" where
  "toilet_close s = free_fd s"

definition toilet_final :: "toilet_state devops \<times> os \<Rightarrow> int \<times> os" where
  "toilet_final s = free_fd s"

subsection \<open>Paths\<close>

definition cpufreq_path :: "int \<Rightarrow> string \<Rightarrow> string" where
  "cpufreq_path num file = ''/sys/devices/system/cpu/cpu'' @ show_int num @ ''/cpufreq/'' @ file"

definition pkg_energy_path :: "int \<Rightarrow> string" where
  "pkg_energy_path num =
     ''/sys/devices/virtual/powercap/intel-rapl/intel-rapl:'' @ show_int num @ ''/energy_uj''"

definition toilet_read_path :: "toilet_fd \<Rightarrow> attr \<Rightarrow> string option" where
  "toilet_read_path fd a =
     (if t_type fd = 1 then
        (case a of ATTR_ENERGY \<Rightarrow> Some (pkg_energy_path (t_num fd)) | _ \<Rightarrow> None)
      else
        (case a of
           ATTR_FREQ \<Rightarrow> Some (cpufreq_path (t_num fd) ''scaling_cur_freq'')
         | ATTR_FREQ_LIMIT_MAX \<Rightarrow> Some (cpufreq_path (t_num fd) ''scaling_max_freq'')
         | ATTR_FREQ_LIMIT_MIN \<Rightarrow> Some (cpufreq_path (t_num fd) ''scaling_min_freq'')
         | ATTR_GOV \<Rightarrow> Some (cpufreq_path (t_num fd) ''scaling_governor'')
         | _ \<Rightarrow> None))"

definition toilet_write_path :: "toilet_fd \<Rightarrow> attr \<Rightarrow> string option" where
  "toilet_write_path fd a =
     (if t_type fd = 1 then
        (case a of ATTR_ENERGY \<Rightarrow> Some (pkg_energy_path (t_num fd)) | _ \<Rightarrow> None)
      else
        (case a of
           ATTR_FREQ \<Rightarrow> Some (cpufreq_path (t_num fd) ''scaling_setspeed'')
         | ATTR_FREQ_LIMIT_MAX \<Rightarrow> Some (cpufreq_path (t_num fd) ''scaling_max_freq'')
         | ATTR_FREQ_LIMIT_MIN \<Rightarrow> Some (cpufreq_path (t_num fd) ''scaling_min_freq'')
         | ATTR_GOV \<Rightarrow> Some (cpufreq_path (t_num fd) ''scaling_governor'')
         | _ \<Rightarrow> None))"

subsection \<open>Reading\<close>

text \<open>A C string ends at the first null byte.\<close>

definition cstr :: "string \<Rightarrow> string" where
  "cstr s = takeWhile (\<lambda>c. c \<noteq> CHR 0x00) s"

text \<open>The governor is found by substring, in this order; an unknown name leaves the value alone.\<close>

definition gov_of_str :: "string \<Rightarrow> gov option" where
  "gov_of_str s =
     (if contains_str ''ondemand'' s then Some GOV_ONDEMAND
      else if contains_str ''performance'' s then Some GOV_PERFORMANCE
      else if contains_str ''conservative'' s then Some GOV_CONSERVATIVE
      else if contains_str ''powersave'' s then Some GOV_POWERSAVE
      else if contains_str ''userspace'' s then Some GOV_USERSPACE
      else if contains_str ''schedutil'' s then Some GOV_SCHEDUTIL
      else None)"

definition toilet_parse :: "attr \<Rightarrow> string \<Rightarrow> cell \<Rightarrow> cell" where
  "toilet_parse a strval v =
     (if a = ATTR_GOV then (case gov_of_str strval of Some g \<Rightarrow> I32 (gov_code g) | None \<Rightarrow> v)
      else (case sscanf_lu strval of Some n \<Rightarrow> U64 n | None \<Rightarrow> v))"

definition toilet_read :: "toilet_state reader" where
  "toilet_read s a v len t =
     (let (fd, w) = s
      in if len \<noteq> 8 then Inr ((RET_FAILURE, v, t), s)
         else case toilet_read_path fd a of
                None \<Rightarrow> Inr ((RET_FAILURE, v, t), s)
              | Some path \<Rightarrow>
                  (case open_rd w path of
                     None \<Rightarrow> Inr ((RET_FAILURE, v, t), s)
                   | Some (Dir, w1) \<Rightarrow> Inr ((RET_FAILURE, v, t), (fd, sys_close w1))
                   | Some (Regular c, w1) \<Rightarrow>
                       (let (tv, w2) = gettimeofday (sys_close w1)
                        in rbind (store_ts (time_ns tv) t) (\<lambda>t'.
                           Inr ((RET_SUCCESS, toilet_parse a (cstr (take 100 c)) v, t'), (fd, w2))))))"

subsection \<open>Writing\<close>

text \<open>\<^verbatim>\<open>write(file, s, 100)\<close>: the string, its terminator, and whatever follows it in memory.\<close>

definition bytes100 :: "string \<Rightarrow> string \<Rightarrow> string" where
  "bytes100 junk s = take 100 (s @ CHR 0x00 # junk)"

text \<open>Open, write, close: \<open>False\<close> when the open or the write fails.\<close>

definition put_file :: "string \<Rightarrow> os \<Rightarrow> string \<Rightarrow> string \<Rightarrow> bool \<times> os" where
  "put_file junk w path s =
     (case open_wr w path of
        None \<Rightarrow> (False, w)
      | Some w1 \<Rightarrow>
          (case write_file w1 path (bytes100 junk s) of
             None \<Rightarrow> (False, sys_close w1)
           | Some w2 \<Rightarrow> (True, sys_close w2)))"

fun put_files :: "string \<Rightarrow> os \<Rightarrow> (string \<times> string) list \<Rightarrow> bool \<times> os" where
  "put_files junk w [] = (True, w)"
| "put_files junk w ((path, s) # ps) =
     (let (ok, w') = put_file junk w path s in if ok then put_files junk w' ps else (False, w'))"

fun gov_str :: "gov \<Rightarrow> string" where
  "gov_str GOV_ONDEMAND = ''ondemand''"
| "gov_str GOV_PERFORMANCE = ''performance''"
| "gov_str GOV_CONSERVATIVE = ''conservative''"
| "gov_str GOV_POWERSAVE = ''powersave''"
| "gov_str GOV_USERSPACE = ''userspace''"
| "gov_str GOV_SCHEDUTIL = ''schedutil''"

text \<open>The text for a governor code and \<^verbatim>\<open>set_default\<close>; any code not listed counts as schedutil.\<close>

definition gov_text :: "32 word \<Rightarrow> string \<times> bool" where
  "gov_text i =
     (if i = gov_code GOV_ONDEMAND then (''ondemand'', True)
      else if i = gov_code GOV_PERFORMANCE then (''performance'', True)
      else if i = gov_code GOV_CONSERVATIVE then (''conservative'', True)
      else if i = gov_code GOV_POWERSAVE then (''powersave'', True)
      else if i = gov_code GOV_USERSPACE then (''userspace'', False)
      else (''schedutil'', True))"

definition default_limits :: "toilet_fd \<Rightarrow> (string \<times> string) list" where
  "default_limits fd =
     [(cpufreq_path (t_num fd) ''scaling_max_freq'', ''3200000''),
      (cpufreq_path (t_num fd) ''scaling_min_freq'', ''1600000'')]"

definition freq_files :: "toilet_fd \<Rightarrow> string \<Rightarrow> (string \<times> string) list" where
  "freq_files fd s =
     [(cpufreq_path (t_num fd) ''scaling_setspeed'', s),
      (cpufreq_path (t_num fd) ''scaling_max_freq'', s),
      (cpufreq_path (t_num fd) ''scaling_min_freq'', s)]"

text \<open>\<^verbatim>\<open>sprintf(strval, "%lu", ..)\<close> into 20 bytes.\<close>

definition sprintf_lu_20 :: "64 word \<Rightarrow> string res" where
  "sprintf_lu_20 x =
     (let s = show_nat (unat x) in if length s < 20 then Inr s else Inl MemoryFault)"

text \<open>
  What is to be written: the text for the attribute and the resets that come first.
\<close>

definition toilet_text :: "toilet_fd \<Rightarrow> attr \<Rightarrow> cell \<Rightarrow> (string \<times> (string \<times> string) list) res" where
  "toilet_text fd a v =
     (if a = ATTR_GOV then
        rbind (load_int v) (\<lambda>i.
        let (s, set_default) = gov_text i
        in Inr (s, if set_default then default_limits fd else []))
      else rbind (load_u64 v) (\<lambda>x. rbind (sprintf_lu_20 x) (\<lambda>s. Inr (s, []))))"

text \<open>
  After the frequency loop control falls off the end of the function.
\<close>

definition toilet_write :: "string \<Rightarrow> int \<Rightarrow> toilet_state writer" where
  "toilet_write junk reg s a v len =
     (let (fd, w) = s
      in if len \<noteq> 8 then Inr ((RET_FAILURE, v), s)
         else case toilet_write_path fd a of
                None \<Rightarrow> Inr ((RET_FAILURE, v), s)
              | Some path \<Rightarrow>
                  rbind (toilet_text fd a v) (\<lambda>(strval, resets).
                  let (ok, w1) = put_files junk w resets
                  in if \<not> ok then Inr ((RET_FAILURE, v), (fd, w1))
                     else if a = ATTR_FREQ then
                       (let (ok2, w2) = put_files junk w1 (freq_files fd strval)
                        in Inr ((if ok2 then reg else RET_FAILURE, v), (fd, w2)))
                     else
                       (let (ok2, w2) = put_file junk w1 path strval
                        in Inr ((if ok2 then RET_SUCCESS else RET_FAILURE, v), (fd, w2)))))"

text \<open>The other operations of the table are not set: the wrapper finds null pointers.\<close>

definition toilet_ops :: "string \<Rightarrow> int \<Rightarrow> toilet_state devops" where
  "toilet_ops junk reg = \<lparr>d_read = toilet_read, d_write = toilet_write junk reg,
     d_readv = None, d_writev = None, d_log_start = None, d_log_stop = None, d_get_samples = None\<rparr>"

subsection \<open>Description\<close>

definition pwr_toiletdev_numObjs :: nat where
  "pwr_toiletdev_numObjs = 2"

definition pwr_toiletdev_readObjs :: "nat \<Rightarrow> obj_type list \<Rightarrow> obj_type list res" where
  "pwr_toiletdev_readObjs n buf = fill [OBJ_SOCKET, OBJ_CORE] buf"

definition pwr_toiletdev_numAttrs :: "obj_type \<Rightarrow> nat" where
  "pwr_toiletdev_numAttrs t = 5"

definition toilet_attrs :: "attr list" where
  "toilet_attrs = [ATTR_POWER, ATTR_FREQ, ATTR_FREQ_LIMIT_MIN, ATTR_FREQ_LIMIT_MAX, ATTR_GOV]"

definition pwr_toiletdev_readAttrs :: "obj_type \<Rightarrow> nat \<Rightarrow> attr list \<Rightarrow> attr list res" where
  "pwr_toiletdev_readAttrs t n buf = fill toilet_attrs buf"

definition toilet_meta :: plugin_meta where
  "toilet_meta = \<lparr>numObjs = pwr_toiletdev_numObjs, readObjs = pwr_toiletdev_readObjs,
     numAttrs = pwr_toiletdev_numAttrs, readAttrs = pwr_toiletdev_readAttrs,
     getDevName = (\<lambda>_ len. strncpy len ''toilet_dev0''),
     getDevOpenStr = open_str_index,
     getDevInitStr = (\<lambda>_ len. strncpy len []),
     getPluginName = (\<lambda>len. strncpy len ''toilet'')\<rparr>"

interpretation toilet_tab: meta_table toilet_meta "[OBJ_SOCKET, OBJ_CORE]" "\<lambda>_. toilet_attrs"
  by unfold_locales
    (simp_all add: toilet_meta_def pwr_toiletdev_numObjs_def pwr_toiletdev_readObjs_def
      pwr_toiletdev_numAttrs_def pwr_toiletdev_readAttrs_def toilet_attrs_def fill_exact)

interpretation toilet: careful_reader toilet_read snd
proof
  fix s :: toilet_state and a v len t rc v' t' s'
  assume r: "toilet_read s a v len t = Inr ((rc, v', t'), s')"
  show "rc = 0 \<or> rc = - 1" and "t' = None \<longleftrightarrow> t = None" and "rc \<noteq> 0 \<Longrightarrow> v' = v \<and> t' = t"
    and "files (snd s') = files (snd s) \<and> wlog (snd s') = wlog (snd s)"
    using r by (auto simp: toilet_read_def RET_SUCCESS_def RET_FAILURE_def open_rd_def sys_close_def gettimeofday_def
        rbind_eq_Inr_iff store_ts_eq_Inr_iff Let_def split: prod.splits option.splits if_splits fnode.splits)
qed

subsection \<open>Writing sequences of files\<close>

definition newline :: char where
  "newline = CHR 0x0A"

text \<open>
  Files the kernel accepts: writing stores the text up to the null byte, and reading it gives the
  text back with a newline.
\<close>

definition keeps_text :: "os \<Rightarrow> bool" where
  "keeps_text w \<longleftrightarrow> (\<forall>p d old. store w p d old = Some (cstr d @ [newline]))"

definition writable :: "os \<Rightarrow> string \<Rightarrow> bool" where
  "writable w p \<longleftrightarrow> can_write w p \<and> (case files w p of Some (Regular _) \<Rightarrow> True | _ \<Rightarrow> False)"

definition plain_text :: "string \<Rightarrow> bool" where
  "plain_text s \<longleftrightarrow> length s < 100 \<and> CHR 0x00 \<notin> set s"

definition after_puts :: "string \<Rightarrow> os \<Rightarrow> (string \<times> string) list \<Rightarrow> os" where
  "after_puts junk w ps =
     w\<lparr>files := (\<lambda>f. foldl (\<lambda>g (p, s). g(p \<mapsto> Regular (s @ [newline]))) f ps) (files w),
       wlog := wlog w @ map (\<lambda>(p, s). (p, bytes100 junk s)) ps\<rparr>"

lemma cstr_bytes100: "plain_text s \<Longrightarrow> cstr (bytes100 junk s) = s"
proof -
  assume s: "plain_text s"
  then have "take 100 (s @ CHR 0x00 # junk) = s @ take (100 - length s) (CHR 0x00 # junk)"
    by (simp add: plain_text_def)
  also have "\<dots> = s @ CHR 0x00 # take (99 - length s) junk"
    using s by (simp add: plain_text_def take_Cons')
  finally have b: "bytes100 junk s = s @ CHR 0x00 # take (99 - length s) junk" by (simp add: bytes100_def)
  have "\<forall>c\<in>set s. c \<noteq> CHR 0x00" using s by (auto simp: plain_text_def)
  then show ?thesis unfolding b cstr_def by (subst takeWhile_append2) auto
qed

lemma put_file_ok:
  assumes "writable w p" and "keeps_text w" and "plain_text s"
  shows "put_file junk w p s =
    (True, w\<lparr>files := (files w)(p \<mapsto> Regular (s @ [newline])), wlog := wlog w @ [(p, bytes100 junk s)]\<rparr>)"
  using assms cstr_bytes100 [OF assms(3)]
  by (auto simp: put_file_def open_wr_def write_file_def sys_close_def keeps_text_def writable_def
      split: option.splits fnode.splits)

lemma writable_upd:
  "writable (w\<lparr>files := (files w)(p \<mapsto> Regular c), wlog := l\<rparr>) q \<longleftrightarrow>
   (if q = p then can_write w p else writable w q)"
  by (simp add: writable_def)

lemma put_files_ok:
  "\<forall>(p, s)\<in>set ps. writable w p \<and> plain_text s \<Longrightarrow> keeps_text w \<Longrightarrow>
   put_files junk w ps = (True, after_puts junk w ps)"
proof (induction ps arbitrary: w)
  case (Cons x ps)
  obtain p s where x: "x = (p, s)" by (cases x)
  let ?w = "w\<lparr>files := (files w)(p \<mapsto> Regular (s @ [newline])), wlog := wlog w @ [(p, bytes100 junk s)]\<rparr>"
  have "put_file junk w p s = (True, ?w)" using Cons.prems x by (intro put_file_ok) auto
  moreover have "put_files junk ?w ps = (True, after_puts junk ?w ps)"
    using Cons.prems x by (intro Cons.IH) (auto simp: writable_upd writable_def keeps_text_def)
  ultimately show ?case by (simp add: x after_puts_def)
qed (simp add: after_puts_def)

lemma plain_texts [simp]:
  "plain_text ''3200000''" "plain_text ''1600000''" "plain_text (gov_str g)"
  by (cases g; simp add: plain_text_def)+

lemma gov_of_gov_str: "gov_of_str (cstr (take 100 (gov_str g @ [newline]))) = Some g"
  by (cases g) (simp_all add: gov_of_str_def cstr_def newline_def contains_str_def)

lemma gov_text_code: "gov_text (gov_code g) = (gov_str g, g \<noteq> GOV_USERSPACE)"
  by (cases g) (simp_all add: gov_text_def)

lemma cpufreq_path_eq: "cpufreq_path n f = cpufreq_path n g \<longleftrightarrow> f = g"
  by (simp add: cpufreq_path_def)

text \<open>What an operation appended to the write log, as text.\<close>

definition new_writes :: "os \<Rightarrow> os \<Rightarrow> (string \<times> string) list" where
  "new_writes w w' = map (\<lambda>(p, d). (p, cstr d)) (drop (length (wlog w)) (wlog w'))"

lemma new_writes_after:
  "\<forall>(p, s)\<in>set ps. plain_text s \<Longrightarrow> new_writes w (after_puts junk w ps) = ps"
proof -
  assume "\<forall>(p, s)\<in>set ps. plain_text s"
  then have "map (\<lambda>(p, d). (p, cstr d)) (map (\<lambda>(p, s). (p, bytes100 junk s)) ps) = ps"
    by (induction ps) (auto simp: cstr_bytes100)
  then show ?thesis by (simp add: new_writes_def after_puts_def)
qed

lemma after_puts_append: "after_puts junk (after_puts junk w ps) qs = after_puts junk w (ps @ qs)"
  by (simp add: after_puts_def)

lemma keeps_text_after [simp]: "keeps_text (after_puts junk w ps) = keeps_text w"
  by (simp add: keeps_text_def after_puts_def)

lemma can_write_after [simp]: "can_write (after_puts junk w ps) = can_write w"
  by (simp add: after_puts_def)

lemma ticks_after [simp]: "ticks (after_puts junk w ps) = ticks w" "clock (after_puts junk w ps) = clock w"
  by (simp_all add: after_puts_def)

lemma files_after_snoc: "files (after_puts junk w (ps @ [(p, s)])) p = Some (Regular (s @ [newline]))"
  by (simp add: after_puts_def)

lemma writable_after: "writable w p \<Longrightarrow> writable (after_puts junk w ps) p"
proof (induction ps arbitrary: w)
  case (Cons x ps)
  have "writable (after_puts junk w [x]) p"
    using Cons.prems by (cases x) (auto simp: after_puts_def writable_def)
  from Cons.IH [OF this] show ?case by (simp add: after_puts_append)
qed (simp add: after_puts_def writable_def)

lemma put_file_after: "put_file junk w p s = put_files junk w [(p, s)]"
  by (simp add: split: prod.splits)

lemma put_file_writable:
  "writable w p \<Longrightarrow> keeps_text w \<Longrightarrow> plain_text s \<Longrightarrow> put_file junk w p s = (True, after_puts junk w [(p, s)])"
  unfolding put_file_after by (intro put_files_ok) auto

lemma toilet_read_text:
  assumes "toilet_read_path fd a = Some p" and "files w p = Some (Regular c)"
  shows "toilet_read (fd, w) a v 8 (Some t) =
    Inr ((RET_SUCCESS, toilet_parse a (cstr (take 100 c)) v, Some (time_ns (clock w (ticks w)))),
         (fd, w\<lparr>ticks := Suc (ticks w)\<rparr>))"
  using assms by (simp add: toilet_read_def open_rd_def sys_close_def gettimeofday_def)

lemma toilet_write_other:
  assumes "toilet_write_path fd a = Some path" and "toilet_text fd a v = Inr (s, rs)" and "a \<noteq> ATTR_FREQ"
    and "put_files junk w rs = (True, w1)" and "put_file junk w1 path s = (ok, w2)"
  shows "toilet_write junk reg (fd, w) a v 8 = Inr ((if ok then RET_SUCCESS else RET_FAILURE, v), (fd, w2))"
  using assms by (simp add: toilet_write_def)

lemma toilet_write_freq:
  assumes "toilet_write_path fd ATTR_FREQ = Some path" and "toilet_text fd ATTR_FREQ v = Inr (s, [])"
    and "put_files junk w (freq_files fd s) = (ok, w2)"
  shows "toilet_write junk reg (fd, w) ATTR_FREQ v 8 = Inr ((if ok then reg else RET_FAILURE, v), (fd, w2))"
  using assms by (simp add: toilet_write_def)

subsection \<open>Properties\<close>

text \<open>
  C37.  Setting a governor and reading it back gives the same governor, for all six, on files
  that keep what is written.  Every governor but userspace first resets both frequency limits to
  fixed values, and nothing else is written.
\<close>

theorem toilet_governor_roundtrip:
  assumes fd: "t_type fd \<noteq> 1" and k: "keeps_text w"
    and wr: "writable w (cpufreq_path (t_num fd) ''scaling_max_freq'')"
      "writable w (cpufreq_path (t_num fd) ''scaling_min_freq'')"
      "writable w (cpufreq_path (t_num fd) ''scaling_governor'')"
  shows "\<exists>w' w'' stamp.
    toilet_write junk reg (fd, w) ATTR_GOV (I32 (gov_code g)) 8 = Inr ((RET_SUCCESS, I32 (gov_code g)), (fd, w')) \<and>
    toilet_read (fd, w') ATTR_GOV v 8 (Some t) = Inr ((RET_SUCCESS, I32 (gov_code g), Some stamp), (fd, w'')) \<and>
    new_writes w w' =
      (if g = GOV_USERSPACE then []
       else [(cpufreq_path (t_num fd) ''scaling_max_freq'', ''3200000''),
             (cpufreq_path (t_num fd) ''scaling_min_freq'', ''1600000'')])
      @ [(cpufreq_path (t_num fd) ''scaling_governor'', gov_str g)]"
proof -
  let ?gp = "cpufreq_path (t_num fd) ''scaling_governor''"
  let ?rs = "if g = GOV_USERSPACE then [] else default_limits fd"
  let ?w = "after_puts junk w (?rs @ [(?gp, gov_str g)])"
  have rs: "\<forall>(p, s)\<in>set ?rs. writable w p \<and> plain_text s" using wr by (simp add: default_limits_def)
  have r1: "put_files junk w ?rs = (True, after_puts junk w ?rs)" using rs k by (rule put_files_ok)
  have r2: "put_file junk (after_puts junk w ?rs) ?gp (gov_str g) = (True, ?w)"
    using put_file_writable [of "after_puts junk w ?rs" ?gp "gov_str g" junk] wr(3) k
    by (simp add: writable_after after_puts_append)
  have p: "toilet_write_path fd ATTR_GOV = Some ?gp" "toilet_read_path fd ATTR_GOV = Some ?gp"
    using fd by (simp_all add: toilet_write_path_def toilet_read_path_def)
  have tx: "toilet_text fd ATTR_GOV (I32 (gov_code g)) = Inr (gov_str g, ?rs)"
    by (simp add: toilet_text_def gov_text_code)
  have "toilet_write junk reg (fd, w) ATTR_GOV (I32 (gov_code g)) 8 = Inr ((RET_SUCCESS, I32 (gov_code g)), (fd, ?w))"
    using toilet_write_other [OF p(1) tx _ r1 r2] by simp
  moreover have "toilet_parse ATTR_GOV (cstr (take 100 (gov_str g @ [newline]))) v = I32 (gov_code g)"
    by (simp add: toilet_parse_def gov_of_gov_str del: take_append)
  then have "toilet_read (fd, ?w) ATTR_GOV v 8 (Some t) =
      Inr ((RET_SUCCESS, I32 (gov_code g), Some (time_ns (clock w (ticks w)))), (fd, ?w\<lparr>ticks := Suc (ticks w)\<rparr>))"
    using toilet_read_text [OF p(2) files_after_snoc] by simp
  moreover have "new_writes w ?w = ?rs @ [(?gp, gov_str g)]"
    using rs by (intro new_writes_after) auto
  ultimately show ?thesis by (auto simp: default_limits_def)
qed

lemma sprintf_lu_20_ok: "unat x < 10 ^ 19 \<Longrightarrow> sprintf_lu_20 x = Inr (show_nat (unat x)) \<and> plain_text (show_nat (unat x))"
proof -
  assume "unat x < 10 ^ 19"
  then have "length (show_nat (unat x)) \<le> 19" by (intro length_show_nat) simp_all
  moreover have "CHR 0x00 \<notin> set (show_nat (unat x))"
    using show_nat_digits [of "unat x"] by (auto simp: is_digit_def char_code_def)
  ultimately show ?thesis by (simp add: sprintf_lu_20_def plain_text_def)
qed

lemma sscanf_lu_show:
  assumes "unat x < 10 ^ 19"
  shows "sscanf_lu (cstr (take 100 (show_nat (unat x) @ [newline]))) = Some x"
proof -
  have pl: "plain_text (show_nat (unat x))" using sprintf_lu_20_ok [OF assms] by blast
  then have "take 100 (show_nat (unat x) @ [newline]) = show_nat (unat x) @ [newline]"
    by (intro take_all) (simp add: plain_text_def)
  moreover have "\<forall>c\<in>set (show_nat (unat x) @ [newline]). c \<noteq> CHR 0x00"
    using pl by (auto simp: plain_text_def newline_def)
  ultimately have "cstr (take 100 (show_nat (unat x) @ [newline])) = show_int (int (unat x)) @ [newline]"
    by (simp add: cstr_def show_int_def)
  moreover have "scan_int (show_int (int (unat x)) @ [newline]) = Some (int (unat x), [newline])"
    by (rule scan_int_show_int) (simp add: newline_def is_digit_def char_code_def)
  moreover have "min (unat x) (2 ^ 64 - 1) = unat x" using assms by simp
  ultimately show ?thesis by (simp add: sscanf_lu_def c_ulong_def)
qed

text \<open>
  Setting the frequency writes the decimal number to the set-speed file, the upper limit and
  the lower limit, in this order, and both limits then read back as that frequency; but the
  status returned is whatever the return register held, since the function ends without a return
  statement on this path.
\<close>

theorem toilet_freq_write:
  assumes fd: "t_type fd \<noteq> 1" and k: "keeps_text w" and x: "unat x < 10 ^ 19"
    and wr: "writable w (cpufreq_path (t_num fd) ''scaling_setspeed'')"
      "writable w (cpufreq_path (t_num fd) ''scaling_max_freq'')"
      "writable w (cpufreq_path (t_num fd) ''scaling_min_freq'')"
  shows "\<exists>w'. toilet_write junk reg (fd, w) ATTR_FREQ (U64 x) 8 = Inr ((reg, U64 x), (fd, w')) \<and>
    new_writes w w' = [(cpufreq_path (t_num fd) ''scaling_setspeed'', show_nat (unat x)),
      (cpufreq_path (t_num fd) ''scaling_max_freq'', show_nat (unat x)),
      (cpufreq_path (t_num fd) ''scaling_min_freq'', show_nat (unat x))] \<and>
    (\<forall>a\<in>{ATTR_FREQ_LIMIT_MAX, ATTR_FREQ_LIMIT_MIN}. \<exists>stamp w''.
      toilet_read (fd, w') a v 8 (Some t) = Inr ((RET_SUCCESS, U64 x, Some stamp), (fd, w'')))"
proof -
  let ?s = "show_nat (unat x)"
  let ?w = "after_puts junk w (freq_files fd ?s)"
  have s: "sprintf_lu_20 x = Inr ?s" "plain_text ?s" using sprintf_lu_20_ok [OF x] by auto
  have r: "put_files junk w (freq_files fd ?s) = (True, ?w)"
    using wr s k by (intro put_files_ok) (auto simp: freq_files_def)
  have p: "toilet_write_path fd ATTR_FREQ = Some (cpufreq_path (t_num fd) ''scaling_setspeed'')"
    "toilet_read_path fd ATTR_FREQ_LIMIT_MAX = Some (cpufreq_path (t_num fd) ''scaling_max_freq'')"
    "toilet_read_path fd ATTR_FREQ_LIMIT_MIN = Some (cpufreq_path (t_num fd) ''scaling_min_freq'')"
    using fd by (simp_all add: toilet_write_path_def toilet_read_path_def)
  have "toilet_text fd ATTR_FREQ (U64 x) = Inr (?s, [])" using s by (simp add: toilet_text_def)
  from toilet_write_freq [OF p(1) this r]
  have "toilet_write junk reg (fd, w) ATTR_FREQ (U64 x) 8 = Inr ((reg, U64 x), (fd, ?w))" by simp
  moreover have "new_writes w ?w = freq_files fd ?s"
    using s by (intro new_writes_after) (auto simp: freq_files_def)
  moreover have f: "files ?w (cpufreq_path (t_num fd) ''scaling_max_freq'') = Some (Regular (?s @ [newline]))"
    "files ?w (cpufreq_path (t_num fd) ''scaling_min_freq'') = Some (Regular (?s @ [newline]))"
    by (simp_all add: after_puts_def freq_files_def cpufreq_path_eq)
  have "toilet_parse a (cstr (take 100 (?s @ [newline]))) v = U64 x" if "a \<noteq> ATTR_GOV" for a
    using that sscanf_lu_show [OF x] by (simp add: toilet_parse_def del: take_append)
  with toilet_read_text [OF p(2) f(1)] toilet_read_text [OF p(3) f(2)]
  have "\<forall>a\<in>{ATTR_FREQ_LIMIT_MAX, ATTR_FREQ_LIMIT_MIN}. \<exists>stamp w''.
      toilet_read (fd, ?w) a v 8 (Some t) = Inr ((RET_SUCCESS, U64 x, Some stamp), (fd, w''))" by simp
  ultimately show ?thesis unfolding freq_files_def by blast
qed

text \<open>
  A governor change is not atomic: when the limit files can be written and the governor file
  cannot, the call reports failure and has already reset both limits.
\<close>

theorem toilet_governor_partial:
  assumes fd: "t_type fd \<noteq> 1" and k: "keeps_text w" and g: "g \<noteq> GOV_USERSPACE"
    and wr: "writable w (cpufreq_path (t_num fd) ''scaling_max_freq'')"
      "writable w (cpufreq_path (t_num fd) ''scaling_min_freq'')"
    and no: "files w (cpufreq_path (t_num fd) ''scaling_governor'') = None"
  shows "\<exists>w'. toilet_write junk reg (fd, w) ATTR_GOV (I32 (gov_code g)) 8 =
      Inr ((RET_FAILURE, I32 (gov_code g)), (fd, w')) \<and>
    new_writes w w' = [(cpufreq_path (t_num fd) ''scaling_max_freq'', ''3200000''),
                       (cpufreq_path (t_num fd) ''scaling_min_freq'', ''1600000'')]"
proof -
  let ?gp = "cpufreq_path (t_num fd) ''scaling_governor''"
  let ?w = "after_puts junk w (default_limits fd)"
  have r1: "put_files junk w (default_limits fd) = (True, ?w)"
    using wr k by (intro put_files_ok) (auto simp: default_limits_def)
  have "files ?w ?gp = None" using no by (simp add: after_puts_def default_limits_def cpufreq_path_eq)
  then have r2: "put_file junk ?w ?gp (gov_str g) = (False, ?w)" by (simp add: put_file_def open_wr_def)
  have p: "toilet_write_path fd ATTR_GOV = Some ?gp" using fd by (simp add: toilet_write_path_def)
  have tx: "toilet_text fd ATTR_GOV (I32 (gov_code g)) = Inr (gov_str g, default_limits fd)"
    using g by (simp add: toilet_text_def gov_text_code)
  have "new_writes w ?w = default_limits fd" by (intro new_writes_after) (simp add: default_limits_def)
  with toilet_write_other [OF p tx _ r1 r2] show ?thesis by (auto simp: default_limits_def)
qed

text \<open>
  The plugin's own open string is a bare number, and its open function only knows the forms
  \<^verbatim>\<open>pkg<n>\<close> and \<^verbatim>\<open>core<n>\<close>: opened through its own description, every socket and core is core 0.
\<close>

theorem toilet_open_own_string:
  assumes "int32 i"
  shows "toilet_open (getDevOpenStr toilet_meta t i 100) = \<lparr>t_num = 0, t_type = 0\<rparr> \<and>
    toilet_open (''core'' @ show_int i) = \<lparr>t_num = i, t_type = 0\<rparr> \<and>
    toilet_open (''pkg'' @ show_int i) = \<lparr>t_num = i, t_type = 1\<rparr>"
proof -
  have no: "contains_str (c # cs) (show_int i) = False" if "\<not> is_digit c" "c \<noteq> CHR ''-''" for c cs
  proof -
    have "strstr (c # cs) s = None" if "c \<notin> set s" for s
      using that by (induction s) (auto simp: prefix_def)
    then show ?thesis using that show_int_chars [of c i] by (auto simp: contains_str_def)
  qed
  have p: "contains_str ''pkg'' (show_int i) = False" "contains_str ''core'' (show_int i) = False"
    by (rule no; simp add: is_digit_def char_code_def)+
  have c: "contains_str ''pkg'' (''core'' @ show_int i) = False"
    using p(1) by (simp add: contains_str_def)
  have own: "getDevOpenStr toilet_meta t i 100 = show_int i"
    using assms by (simp add: toilet_meta_def open_str_index_100)
  show ?thesis
    unfolding own using p c assms
    by (simp add: toilet_open_def sscanf_lit_d_def sscanf_d_show_int contains_str_def)
qed

subsection \<open>A machine with one core\<close>

definition toilet_demo_os :: "string list \<Rightarrow> os" where
  "toilet_demo_os names =
     \<lparr>files = (\<lambda>p. if p \<in> set (map (cpufreq_path 0) names) then Some (Regular ''0'') else None),
      can_write = (\<lambda>_. True), store = (\<lambda>p d old. Some (cstr d @ [newline])), wlog = [], fds = 0,
      clock = (\<lambda>_. \<lparr>tv_sec = 0, tv_usec = 0\<rparr>), ticks = 0, msr = (\<lambda>_ _. None)\<rparr>"

definition demo_limits :: "string list" where
  "demo_limits = [''scaling_max_freq'', ''scaling_min_freq'']"

abbreviation core0 :: toilet_fd where
  "core0 \<equiv> \<lparr>t_num = 0, t_type = 0\<rparr>"

lemma toilet_demo_keeps: "keeps_text (toilet_demo_os ns)"
  by (simp add: keeps_text_def toilet_demo_os_def)

lemma toilet_demo_writable: "writable (toilet_demo_os ns) (cpufreq_path 0 f) \<longleftrightarrow> f \<in> set ns"
  by (auto simp: writable_def toilet_demo_os_def cpufreq_path_eq)

theorem toilet_governor_roundtrip_witness:
  "\<exists>w' w'' stamp.
    toilet_write [] 7 (core0, toilet_demo_os (''scaling_governor'' # demo_limits)) ATTR_GOV (I32 (gov_code GOV_ONDEMAND)) 8 =
      Inr ((RET_SUCCESS, I32 (gov_code GOV_ONDEMAND)), (core0, w')) \<and>
    toilet_read (core0, w') ATTR_GOV Uninit 8 (Some 0) = Inr ((RET_SUCCESS, I32 (gov_code GOV_ONDEMAND), Some stamp), (core0, w''))"
  using toilet_governor_roundtrip [of core0 "toilet_demo_os (''scaling_governor'' # demo_limits)" "[]" 7 GOV_ONDEMAND Uninit 0]
  by (auto simp: toilet_demo_keeps toilet_demo_writable demo_limits_def)

theorem toilet_freq_write_witness:
  "\<exists>w'. toilet_write [] 7 (core0, toilet_demo_os (''scaling_setspeed'' # demo_limits)) ATTR_FREQ (U64 2000000) 8 =
    Inr ((7, U64 2000000), (core0, w'))"
  using toilet_freq_write [of core0 "toilet_demo_os (''scaling_setspeed'' # demo_limits)" 2000000 "[]" 7 Uninit 0]
  by (auto simp: toilet_demo_keeps toilet_demo_writable demo_limits_def)

theorem toilet_governor_partial_witness:
  "\<exists>w'. toilet_write [] 7 (core0, toilet_demo_os demo_limits) ATTR_GOV (I32 (gov_code GOV_POWERSAVE)) 8 =
      Inr ((RET_FAILURE, I32 (gov_code GOV_POWERSAVE)), (core0, w')) \<and>
    length (new_writes (toilet_demo_os demo_limits) w') = 2"
proof -
  have "files (toilet_demo_os demo_limits) (cpufreq_path 0 ''scaling_governor'') = None"
    by (auto simp: toilet_demo_os_def demo_limits_def cpufreq_path_eq)
  then show ?thesis
    using toilet_governor_partial [of core0 "toilet_demo_os demo_limits" GOV_POWERSAVE "[]" 7]
    by (auto simp: toilet_demo_keeps toilet_demo_writable demo_limits_def)
qed

theorem toilet_open_own_string_witness:
  "toilet_open (getDevOpenStr toilet_meta OBJ_SOCKET 1 100) = \<lparr>t_num = 0, t_type = 0\<rparr>"
  using toilet_open_own_string [of 1 OBJ_SOCKET] by (simp add: int32_def)

end
