(* ===== verification/Tx2mon_Dev.thy ===== *)
theory Tx2mon_Dev
  imports Plugin_Iface "HOL-Library.Signed_Division"
begin

text \<open>
  \<^verbatim>\<open>src/plugins/pwr_tx2mon.c\<close>: sensors of a Cavium ThunderX2 node.  Descriptors are heap objects: the
  device keeps a table of the socket descriptors whose energy a sampling thread integrates, so the
  model has an explicit store of descriptors and the thread's work is a step of its own,
  interleaved with open, close, read and write.

  The layout of the sensor region (\<^verbatim>\<open>mc_oper_region.h\<close>) is not part of the repository: the fields
  the code reads are a record, and how a node file yields them, with the temperature conversion
  \<^verbatim>\<open>to_c\<close>, is an environment parameter.
\<close>

subsection \<open>Data\<close>

record mc_oper_region =
  freq_cpu :: "nat \<Rightarrow> int"
  tmon_cpu :: "nat \<Rightarrow> int"
  freq_socs :: int
  tmon_soc_avg :: int
  pwr_core :: int
  pwr_sram :: int
  pwr_mem :: int
  pwr_soc :: int
  v_soc :: int

text \<open>\<open>region w k\<close>: what a complete read of the file of node \<open>k\<close> stores, \<open>None\<close> when it cannot be read.\<close>

record tx_env =
  region :: "os \<Rightarrow> nat \<Rightarrow> mc_oper_region option"
  to_c :: "int \<Rightarrow> real"

record tx_fd =
  objType :: int
  tx_id :: int
  en :: real

text \<open>
  \<open>bufs\<close> are the regions of the two \<^verbatim>\<open>node_data\<close> entries, \<open>None\<close> while never filled.  \<open>heap\<close> maps the
  descriptors in use; \<open>next_fd\<close> is an address never used before.
\<close>

record tx2mon =
  nodes :: int
  cores :: int
  bufs :: "mc_oper_region option list"
  energyObjs :: "nat option list"
  lastSample :: real
  sleep_us :: int
  heap :: "nat \<rightharpoonup> tx_fd"
  next_fd :: nat

type_synonym tx_state = "tx2mon \<times> os"

definition to_v :: "int \<Rightarrow> real" where
  "to_v mv = of_int mv / 1000"

definition to_w :: "int \<Rightarrow> real" where
  "to_w mw = of_int mw / 1000"

definition getTimeSec :: "os \<Rightarrow> real \<times> os" where
  "getTimeSec w = (let (t, w') = getTime w in (t / 1000000000, w'))"

subsection \<open>Initialisation\<close>

definition sscanf_ddd :: "string \<Rightarrow> (int \<times> int \<times> int) option" where
  "sscanf_ddd s =
     (case scan_int s of
        None \<Rightarrow> None
      | Some (a, r) \<Rightarrow>
          (case scan_int r of
             None \<Rightarrow> None
           | Some (b, r2) \<Rightarrow>
               (case scan_int r2 of
                  None \<Rightarrow> None
                | Some (c, _) \<Rightarrow> Some (c_int a, c_int b, c_int c))))"

definition PATH_T99MON_DEV :: string where
  "PATH_T99MON_DEV = ''/sys/bus/platform/devices/tx2mon''"

text \<open>
  The number of nodes and of cores per node; every failure ends the program.  At most 32 bytes are
  read; the file is taken to end within them.
\<close>

definition init_socinfo :: "os \<Rightarrow> (int \<times> int) res" where
  "init_socinfo w =
     (case files w (PATH_T99MON_DEV @ ''/socinfo'') of
        Some (Regular c) \<Rightarrow>
          (if c = [] then Inl ExitFatal
           else case sscanf_ddd (take 32 c) of
                  None \<Rightarrow> Inl ExitFatal
                | Some (n, k, threads) \<Rightarrow> Inr (n, k))
      | _ \<Rightarrow> Inl ExitFatal)"

definition open_node :: "os \<Rightarrow> string \<Rightarrow> os res" where
  "open_node w name =
     (case open_rd w (PATH_T99MON_DEV @ name) of None \<Rightarrow> Inl ExitFatal | Some (_, w') \<Rightarrow> Inr w')"

text \<open>
  The processors named in \<^verbatim>\<open>PWR_SOCMON_THREAD_AFFINITY\<close>: every turn of the loop takes the characters up
  to a comma, skips the comma and converts what it took.
\<close>

function affinity_cpus :: "string \<Rightarrow> int list" where
  "affinity_cpus s =
     (if s = [] then []
      else atoi (takeWhile (\<lambda>c. c \<noteq> CHR '','') s) #
           affinity_cpus (drop 1 (dropWhile (\<lambda>c. c \<noteq> CHR '','') s)))"
  by pat_completeness auto

termination
proof (relation "measure length")
  fix s :: string
  assume "s \<noteq> []"
  then have "0 < length s" by simp
  moreover have "length (dropWhile (\<lambda>c. c \<noteq> CHR '','') s) \<le> length s" by (rule length_dropWhile_le)
  ultimately have "length (dropWhile (\<lambda>c. c \<noteq> CHR '','') s) - 1 < length s" by linarith
  then show "(drop 1 (dropWhile (\<lambda>c. c \<noteq> CHR '','') s), s) \<in> measure length" by simp
qed simp

declare affinity_cpus.simps [simp del]

text \<open>
  Starting the thread: \<open>poll\<close> and \<open>aff\<close> are the two environment variables; \<open>set_aff\<close> says whether
  setting the affinity to the listed processors works.
\<close>

definition initSampleThread :: "string option \<Rightarrow> string option \<Rightarrow> (int list \<Rightarrow> bool) \<Rightarrow> int res" where
  "initSampleThread poll aff set_aff =
     (let us = (case poll of None \<Rightarrow> 10000 | Some p \<Rightarrow> atoi p)
      in case aff of
           None \<Rightarrow> Inr us
         | Some a \<Rightarrow> if set_aff (affinity_cpus a) then Inr us else Inl ExitFatal)"

definition tx2monInit :: "string option \<Rightarrow> string option \<Rightarrow> (int list \<Rightarrow> bool) \<Rightarrow> os \<Rightarrow> tx_state res" where
  "tx2monInit poll aff set_aff w =
     rbind (init_socinfo w) (\<lambda>(n, k).
     if n < 0 then Inl MemoryFault
     else rbind (open_node w ''/node0_raw'') (\<lambda>w1.
     rbind (if 1 < n then open_node w1 ''/node1_raw'' else Inr w1) (\<lambda>w2.
     rbind (initSampleThread poll aff set_aff) (\<lambda>us.
     Inr (\<lparr>nodes = n, cores = k, bufs = [None, None], energyObjs = replicate (nat n) None,
           lastSample = 0, sleep_us = us, heap = Map.empty, next_fd = 0\<rparr>, w2)))))"

text \<open>
  The operation table's \<^verbatim>\<open>init\<close>: \<^verbatim>\<open>tx2monInit\<close> never returns a null pointer, and the array of
  set-speed files stays null.
\<close>

definition pwr_tx2mon_dev_init :: "string option \<Rightarrow> string option \<Rightarrow> (int list \<Rightarrow> bool) \<Rightarrow> string \<Rightarrow> os \<Rightarrow> tx_state res" where
  "pwr_tx2mon_dev_init poll aff set_aff initstr w = tx2monInit poll aff set_aff w"

subsection \<open>Opening and closing\<close>

definition pwr_tx2mon_dev_open :: "tx2mon \<Rightarrow> string \<Rightarrow> (nat \<times> tx2mon) res" where
  "pwr_tx2mon_dev_open d openstr =
     (case sscanf_d_d openstr of
        (Some t, Some i) \<Rightarrow>
          (let p = next_fd d;
               d1 = d\<lparr>heap := (heap d)(p \<mapsto> \<lparr>objType = t, tx_id = i, en = 0\<rparr>), next_fd := Suc p\<rparr>
           in if t = obj_code OBJ_SOCKET then
                (if i < 0 then Inl MemoryFault
                 else rbind (arr_set (energyObjs d1) (nat i) (Some p)) (\<lambda>es.
                      Inr (p, d1\<lparr>energyObjs := es\<rparr>)))
              else Inr (p, d1))
      | _ \<Rightarrow> Inl UninitRead)"

definition pwr_tx2mon_dev_close :: "tx2mon \<Rightarrow> nat \<Rightarrow> (int \<times> tx2mon) res" where
  "pwr_tx2mon_dev_close d p =
     (case heap d p of
        None \<Rightarrow> Inl MemoryFault
      | Some f \<Rightarrow>
          rbind (if objType f = obj_code OBJ_SOCKET then
                   (if tx_id f < 0 then Inl MemoryFault
                    else arr_set (energyObjs d) (nat (tx_id f)) None)
                 else Inr (energyObjs d)) (\<lambda>es.
          Inr (0, d\<lparr>energyObjs := es, heap := (heap d)(p := None)\<rparr>)))"

subsection \<open>Reading\<close>

text \<open>
  \<^verbatim>\<open>read_node\<close>: its result is not looked at by any caller.  A failed read leaves the buffer; a region
  whose status is not ready is used all the same.
\<close>

definition read_node :: "tx_env \<Rightarrow> tx2mon \<Rightarrow> os \<Rightarrow> int \<Rightarrow> (mc_oper_region \<times> tx2mon) res" where
  "read_node e d w k =
     (if k < 0 then Inl MemoryFault
      else rbind (arr_get (bufs d) (nat k)) (\<lambda>old.
           let b = (case region e w (nat k) of Some m \<Rightarrow> Some m | None \<Rightarrow> old);
               d' = d\<lparr>bufs := (bufs d)[nat k := b]\<rparr>
           in case b of None \<Rightarrow> Inl UninitRead | Some m \<Rightarrow> Inr (m, d')))"

text \<open>\<^verbatim>\<open>if (time) *time = getTime();\<close>\<close>

definition stamp_opt :: "os \<Rightarrow> ts_ptr \<Rightarrow> ts_ptr \<times> os" where
  "stamp_opt w t =
     (case t of None \<Rightarrow> (None, w) | Some _ \<Rightarrow> (let (x, w') = getTime w in (Some (time_of_double x), w')))"

definition socket_power :: "mc_oper_region \<Rightarrow> real" where
  "socket_power m = to_w (pwr_core m) + to_w (pwr_sram m) + to_w (pwr_mem m) + to_w (pwr_soc m) + 12"

text \<open>The power of the four domains: the first assigns, the other three add to what the buffer holds.\<close>

definition tx_power :: "int \<Rightarrow> mc_oper_region \<Rightarrow> cell \<Rightarrow> real res" where
  "tx_power t m v =
     (if t = obj_code OBJ_TX2_CORE then Inr (to_w (pwr_core m))
      else if t = obj_code OBJ_TX2_SRAM then rbind (load_double v) (\<lambda>x. Inr (x + to_w (pwr_sram m)))
      else if t = obj_code OBJ_TX2_MEM then rbind (load_double v) (\<lambda>x. Inr (x + to_w (pwr_mem m)))
      else if t = obj_code OBJ_TX2_SOC then rbind (load_double v) (\<lambda>x. Inr (x + to_w (pwr_soc m)))
      else Inr (socket_power m))"

definition readSocket ::
  "tx_env \<Rightarrow> tx_fd \<Rightarrow> tx_state \<Rightarrow> attr \<Rightarrow> cell \<Rightarrow> nat \<Rightarrow> ts_ptr \<Rightarrow> ((int \<times> cell \<times> ts_ptr) \<times> tx_state) res" where
  "readSocket e f s a v len t =
     (let (d, w) = s
      in c_assert (len = SIZEOF_DOUBLE) (c_assert (tx_id f < nodes d)
         (rbind (read_node e d w (tx_id f)) (\<lambda>(m, d').
          rbind (case a of
                   ATTR_FREQ \<Rightarrow> Inr (of_int (freq_socs m))
                 | ATTR_TEMP \<Rightarrow> Inr (to_c e (tmon_soc_avg m))
                 | ATTR_POWER \<Rightarrow> tx_power (objType f) m v
                 | ATTR_VOLTAGE \<Rightarrow> Inr (to_v (v_soc m))
                 | ATTR_ENERGY \<Rightarrow> Inr (en f)
                 | _ \<Rightarrow> Inl AssertFailed) (\<lambda>x.
          let (t', w') = stamp_opt w t in Inr ((RET_SUCCESS, Dbl x, t'), (d', w')))))))"

text \<open>The socket and the core of a processor; C division truncates.\<close>

definition split_core :: "tx2mon \<Rightarrow> int \<Rightarrow> (int \<times> int) res" where
  "split_core d i = (if cores d = 0 then Inl DivByZero else Inr (i sdiv cores d, i smod cores d))"

definition readCore ::
  "tx_env \<Rightarrow> tx_fd \<Rightarrow> tx_state \<Rightarrow> attr \<Rightarrow> cell \<Rightarrow> nat \<Rightarrow> ts_ptr \<Rightarrow> ((int \<times> cell \<times> ts_ptr) \<times> tx_state) res" where
  "readCore e f s a v len t =
     (let (d, w) = s
      in rbind (split_core d (tx_id f)) (\<lambda>(soc, core).
         c_assert (len = SIZEOF_DOUBLE) (c_assert (soc < nodes d) (c_assert (core < cores d)
         (rbind (read_node e d w soc) (\<lambda>(m, d').
          rbind (case a of
                   ATTR_FREQ \<Rightarrow> (if core < 0 then Inl MemoryFault else Inr (of_int (freq_cpu m (nat core))))
                 | ATTR_TEMP \<Rightarrow> (if core < 0 then Inl MemoryFault else Inr (to_c e (tmon_cpu m (nat core))))
                 | _ \<Rightarrow> Inl AssertFailed) (\<lambda>x.
          let (t', w') = stamp_opt w t in Inr ((RET_SUCCESS, Dbl x, t'), (d', w'))))))))) "

definition tx_socket_types :: "int list" where
  "tx_socket_types = map obj_code [OBJ_SOCKET, OBJ_TX2_CORE, OBJ_TX2_SRAM, OBJ_TX2_MEM, OBJ_TX2_SOC]"

definition readDev ::
  "tx_env \<Rightarrow> tx_fd \<Rightarrow> tx_state \<Rightarrow> attr \<Rightarrow> cell \<Rightarrow> nat \<Rightarrow> ts_ptr \<Rightarrow> ((int \<times> cell \<times> ts_ptr) \<times> tx_state) res" where
  "readDev e f s a v len t =
     (if objType f \<in> set tx_socket_types then readSocket e f s a v len t
      else if objType f = obj_code OBJ_CORE then readCore e f s a v len t
      else Inl AssertFailed)"

definition pwr_tx2mon_dev_read ::
  "tx_env \<Rightarrow> nat \<Rightarrow> tx_state \<Rightarrow> attr \<Rightarrow> cell \<Rightarrow> nat \<Rightarrow> ts_ptr \<Rightarrow> ((int \<times> cell \<times> ts_ptr) \<times> tx_state) res" where
  "pwr_tx2mon_dev_read e p s a v len t =
     (case heap (fst s) p of None \<Rightarrow> Inl MemoryFault | Some f \<Rightarrow> readDev e f s a v len t)"

subsection \<open>Writing\<close>

text \<open>
  \<^verbatim>\<open>scaling_setspeed_fd\<close> is a null pointer (the code that fills it is compiled out), so setting a core's
  frequency reads through it.
\<close>

definition setCoreFreq :: "tx2mon \<Rightarrow> int \<Rightarrow> real \<Rightarrow> int res" where
  "setCoreFreq d core freq = Inl MemoryFault"

definition writeCore :: "tx_env \<Rightarrow> tx_fd \<Rightarrow> tx_state \<Rightarrow> attr \<Rightarrow> cell \<Rightarrow> nat \<Rightarrow> ((int \<times> cell) \<times> tx_state) res" where
  "writeCore e f s a v len =
     (let (d, w) = s
      in rbind (split_core d (tx_id f)) (\<lambda>(soc, core).
         c_assert (len = SIZEOF_DOUBLE) (c_assert (soc < nodes d) (c_assert (core < cores d)
         (rbind (read_node e d w soc) (\<lambda>(m, d').
          c_assert (a = ATTR_FREQ)
            (rbind (load_double v) (\<lambda>x. rbind (setCoreFreq d' (tx_id f) x) (\<lambda>rc. Inr ((rc, v), (d', w)))))))))))"

definition writeSocket :: "tx_env \<Rightarrow> tx_fd \<Rightarrow> tx_state \<Rightarrow> attr \<Rightarrow> cell \<Rightarrow> nat \<Rightarrow> ((int \<times> cell) \<times> tx_state) res" where
  "writeSocket e f s a v len =
     (let (d, w) = s
      in c_assert (len = SIZEOF_DOUBLE) (c_assert (tx_id f < nodes d)
         (rbind (read_node e d w (tx_id f)) (\<lambda>(m, d').
          c_assert (a = ATTR_FREQ) (Inr ((RET_SUCCESS, v), (d', w)))))))"

definition writeDev :: "tx_env \<Rightarrow> tx_fd \<Rightarrow> tx_state \<Rightarrow> attr \<Rightarrow> cell \<Rightarrow> nat \<Rightarrow> ((int \<times> cell) \<times> tx_state) res" where
  "writeDev e f s a v len =
     (if objType f = obj_code OBJ_SOCKET then writeSocket e f s a v len
      else if objType f = obj_code OBJ_CORE then writeCore e f s a v len
      else Inl AssertFailed)"

definition pwr_tx2mon_dev_write ::
  "tx_env \<Rightarrow> nat \<Rightarrow> tx_state \<Rightarrow> attr \<Rightarrow> cell \<Rightarrow> nat \<Rightarrow> ((int \<times> cell) \<times> tx_state) res" where
  "pwr_tx2mon_dev_write e p s a v len =
     (case heap (fst s) p of None \<Rightarrow> Inl MemoryFault | Some f \<Rightarrow> writeDev e f s a v len)"

subsection \<open>The sampling thread\<close>

text \<open>One entry of the loop over sockets, with the time \<open>now\<close>; the local \<^verbatim>\<open>value\<close> starts unset.\<close>

definition sample_socket :: "tx_env \<Rightarrow> real \<Rightarrow> nat \<Rightarrow> tx_state \<Rightarrow> tx_state res" where
  "sample_socket e now i s =
     rbind (arr_get (energyObjs (fst s)) i) (\<lambda>entry.
     case entry of
       None \<Rightarrow> Inr s
     | Some p \<Rightarrow>
         if lastSample (fst s) = 0 then Inr s
         else rbind (pwr_tx2mon_dev_read e p s ATTR_POWER Uninit SIZEOF_DOUBLE None) (\<lambda>((rc, v, t), (d, w)).
              rbind (load_double v) (\<lambda>value.
              case heap d p of
                None \<Rightarrow> Inl MemoryFault
              | Some f \<Rightarrow>
                  Inr (d\<lparr>heap := (heap d)(p \<mapsto> f\<lparr>en := en f + (now - lastSample d) * value\<rparr>)\<rparr>, w))))"

fun sample_sockets :: "tx_env \<Rightarrow> real \<Rightarrow> nat list \<Rightarrow> tx_state \<Rightarrow> tx_state res" where
  "sample_sockets e now [] s = Inr s"
| "sample_sockets e now (i # is) s = rbind (sample_socket e now i s) (sample_sockets e now is)"

text \<open>\<^verbatim>\<open>energy\<close>: the clock is read twice and the first reading is not used.\<close>

definition tx_energy :: "tx_env \<Rightarrow> tx_state \<Rightarrow> tx_state res" where
  "tx_energy e s =
     (let (d, w) = s; (_, w1) = gettimeofday w; (now, w2) = getTimeSec w1
      in rbind (sample_sockets e now [0..<nat (nodes d)] (d, w2)) (\<lambda>(d', w').
         Inr (d'\<lparr>lastSample := now\<rparr>, w')))"

definition pwr_tx2mon_dev_final :: "tx_state \<Rightarrow> int" where
  "pwr_tx2mon_dev_final s = 0"

subsection \<open>Description\<close>

record tx_meta_info =
  num_objects :: nat
  metaObj :: "obj_type \<Rightarrow> attr list"

definition addAttr :: "obj_type \<Rightarrow> attr \<Rightarrow> tx_meta_info \<Rightarrow> tx_meta_info" where
  "addAttr t a mi = mi\<lparr>metaObj := (metaObj mi)(t := metaObj mi t @ [a])\<rparr>"

definition count_obj :: "tx_meta_info \<Rightarrow> tx_meta_info" where
  "count_obj mi = mi\<lparr>num_objects := num_objects mi + 1\<rparr>"

definition initMeta :: "tx_meta_info \<Rightarrow> tx_meta_info" where
  "initMeta mi =
     fold (\<lambda>f x. f x)
       [addAttr OBJ_CORE ATTR_FREQ, addAttr OBJ_CORE ATTR_TEMP, count_obj,
        addAttr OBJ_TX2_CORE ATTR_POWER, count_obj,
        addAttr OBJ_TX2_SRAM ATTR_POWER, count_obj,
        addAttr OBJ_TX2_MEM ATTR_POWER, count_obj,
        addAttr OBJ_TX2_SOC ATTR_POWER, count_obj,
        addAttr OBJ_SOCKET ATTR_TEMP, addAttr OBJ_SOCKET ATTR_POWER, addAttr OBJ_SOCKET ATTR_VOLTAGE,
        addAttr OBJ_SOCKET ATTR_FREQ, addAttr OBJ_SOCKET ATTR_ENERGY, count_obj]
       \<lparr>num_objects = 0, metaObj = (\<lambda>_. [])\<rparr>"

definition tx_numObjs :: "tx_meta_info \<Rightarrow> nat" where
  "tx_numObjs mi = num_objects mi"

definition tx_readObjs :: "tx_meta_info \<Rightarrow> nat \<Rightarrow> obj_type list \<Rightarrow> obj_type list res" where
  "tx_readObjs mi n buf =
     c_assert (n = num_objects mi) (fill [t \<leftarrow> all_obj_types. metaObj mi t \<noteq> []] buf)"

definition tx_numAttrs :: "tx_meta_info \<Rightarrow> obj_type \<Rightarrow> nat" where
  "tx_numAttrs mi t = length (metaObj mi t)"

definition tx_readAttrs :: "tx_meta_info \<Rightarrow> obj_type \<Rightarrow> nat \<Rightarrow> attr list \<Rightarrow> attr list res" where
  "tx_readAttrs mi t n buf = c_assert (n = length (metaObj mi t)) (fill (metaObj mi t) buf)"

definition tx_meta :: "tx_meta_info \<Rightarrow> plugin_meta" where
  "tx_meta mi0 =
     (let mi = initMeta mi0
      in \<lparr>numObjs = tx_numObjs mi, readObjs = tx_readObjs mi,
          numAttrs = tx_numAttrs mi, readAttrs = tx_readAttrs mi,
          getDevName = (\<lambda>_ len. strncpy len ''pwr_tx2mon_dev0''),
          getDevOpenStr = open_str_type_index,
          getDevInitStr = (\<lambda>_ len. strncpy len []),
          getPluginName = (\<lambda>len. strncpy len ''tx2mon'')\<rparr>)"

definition tx_objs :: "obj_type list" where
  "tx_objs = [OBJ_SOCKET, OBJ_CORE, OBJ_TX2_CORE, OBJ_TX2_SRAM, OBJ_TX2_MEM, OBJ_TX2_SOC]"

fun tx_attrs :: "obj_type \<Rightarrow> attr list" where
  "tx_attrs OBJ_SOCKET = [ATTR_TEMP, ATTR_POWER, ATTR_VOLTAGE, ATTR_FREQ, ATTR_ENERGY]"
| "tx_attrs OBJ_CORE = [ATTR_FREQ, ATTR_TEMP]"
| "tx_attrs t = (if t \<in> {OBJ_TX2_CORE, OBJ_TX2_SRAM, OBJ_TX2_MEM, OBJ_TX2_SOC} then [ATTR_POWER] else [])"

lemma initMeta_attrs: "metaObj (initMeta mi) t = tx_attrs t"
  by (cases t) (simp_all add: initMeta_def addAttr_def count_obj_def)

lemma initMeta_num: "num_objects (initMeta mi) = length tx_objs"
  by (simp add: initMeta_def addAttr_def count_obj_def tx_objs_def)

lemma tx_listed: "[t \<leftarrow> all_obj_types. tx_attrs t \<noteq> []] = tx_objs"
  by (simp add: all_obj_types_def tx_objs_def)

lemma sorted_tx_objs: "sorted tx_objs"
  unfolding tx_listed [symmetric] by (rule sorted_filter [where f = "\<lambda>x. x", simplified]) (rule sorted_all_obj_types)

interpretation tx_tab: meta_table "tx_meta mi" tx_objs tx_attrs for mi
  by unfold_locales
    (simp_all add: tx_meta_def tx_numObjs_def tx_readObjs_def tx_numAttrs_def tx_readAttrs_def
      initMeta_attrs initMeta_num tx_listed fill_exact Let_def)

subsection \<open>Runs and their invariant\<close>

text \<open>
  What can happen to a device in any order: calls of the framework, one turn of the sampling thread,
  and anything else that changes the outside world.
\<close>

inductive tx_step :: "tx_env \<Rightarrow> tx_state \<Rightarrow> tx_state \<Rightarrow> bool" for e where
  step_open: "pwr_tx2mon_dev_open d str = Inr (p, d') \<Longrightarrow> tx_step e (d, w) (d', w)"
| step_close: "pwr_tx2mon_dev_close d p = Inr (rc, d') \<Longrightarrow> tx_step e (d, w) (d', w)"
| step_read: "pwr_tx2mon_dev_read e p s a v len t = Inr (r, s') \<Longrightarrow> tx_step e s s'"
| step_write: "pwr_tx2mon_dev_write e p s a v len = Inr (r, s') \<Longrightarrow> tx_step e s s'"
| step_energy: "tx_energy e s = Inr s' \<Longrightarrow> tx_step e s s'"
| step_world: "tx_step e (d, w) (d, w')"

inductive_cases tx_stepE: "tx_step e s s'"

text \<open>
  Every entry of the energy table points to a live descriptor of that very socket, and fresh
  addresses are unused.
\<close>

definition tx_inv :: "tx2mon \<Rightarrow> bool" where
  "tx_inv d \<longleftrightarrow>
     length (energyObjs d) = nat (nodes d) \<and> length (bufs d) = 2 \<and> (\<forall>p\<in>dom (heap d). p < next_fd d) \<and>
     (\<forall>i p. i < length (energyObjs d) \<longrightarrow> energyObjs d ! i = Some p \<longrightarrow>
        (\<exists>f. heap d p = Some f \<and> objType f = obj_code OBJ_SOCKET \<and> tx_id f = int i))"

lemma tx_inv_entry:
  "tx_inv d \<Longrightarrow> i < length (energyObjs d) \<Longrightarrow> energyObjs d ! i = Some p \<Longrightarrow>
   \<exists>f. heap d p = Some f \<and> objType f = obj_code OBJ_SOCKET \<and> tx_id f = int i"
  by (simp add: tx_inv_def)

lemma tx_inv_fresh: "tx_inv d \<Longrightarrow> heap d p = Some f \<Longrightarrow> p < next_fd d"
  by (force simp: tx_inv_def)

lemma tx_invI:
  assumes "length (energyObjs d) = nat (nodes d)" and "length (bufs d) = 2"
    and "\<And>p f. heap d p = Some f \<Longrightarrow> p < next_fd d"
    and "\<And>i p. i < length (energyObjs d) \<Longrightarrow> energyObjs d ! i = Some p \<Longrightarrow>
      \<exists>f. heap d p = Some f \<and> objType f = obj_code OBJ_SOCKET \<and> tx_id f = int i"
  shows "tx_inv d"
  using assms by (auto simp: tx_inv_def)

lemma list_update_Some:
  "xs[k := y] ! j = Some q \<Longrightarrow> j < length xs \<Longrightarrow> (j = k \<and> y = Some q) \<or> (j \<noteq> k \<and> xs ! j = Some q)"
  by (cases "j = k") auto

lemma tx_inv_open:
  assumes "pwr_tx2mon_dev_open d str = Inr (p, d')" and inv: "tx_inv d"
  shows "tx_inv d'"
proof -
  from assms(1) obtain t i where s: "sscanf_d_d str = (Some t, Some i)"
    by (auto simp: pwr_tx2mon_dev_open_def split: prod.splits option.splits)
  have len: "length (energyObjs d) = nat (nodes d)" "length (bufs d) = 2" using inv by (auto simp: tx_inv_def)
  have fresh: "heap d (next_fd d) = None" using tx_inv_fresh [OF inv, of "next_fd d"] by (cases "heap d (next_fd d)") auto
  let ?f = "\<lparr>objType = t, tx_id = i, en = 0\<rparr>"
  show ?thesis
  proof (cases "t = obj_code OBJ_SOCKET")
    case False
    with assms(1) s have d': "d' = d\<lparr>heap := (heap d)(next_fd d \<mapsto> ?f), next_fd := Suc (next_fd d)\<rparr>"
      by (auto simp: pwr_tx2mon_dev_open_def Let_def)
    show ?thesis
    proof (rule tx_invI)
      fix q f assume "heap d' q = Some f"
      then show "q < next_fd d'" using tx_inv_fresh [OF inv, of q f] d' by (auto split: if_splits)
    next
      fix j q assume "j < length (energyObjs d')" "energyObjs d' ! j = Some q"
      with tx_inv_entry [OF inv, of j q] d' fresh
      show "\<exists>f. heap d' q = Some f \<and> objType f = obj_code OBJ_SOCKET \<and> tx_id f = int j" by auto
    qed (use d' len in simp_all)
  next
    case True
    with assms(1) s obtain k where k: "i = int k" "k < length (energyObjs d)" and
      d': "d' = d\<lparr>heap := (heap d)(next_fd d \<mapsto> ?f), next_fd := Suc (next_fd d),
                  energyObjs := (energyObjs d)[k := Some (next_fd d)]\<rparr>"
      by (auto simp: pwr_tx2mon_dev_open_def Let_def rbind_eq_Inr_iff arr_set_eq_Inr_iff not_less
          elim!: nonneg_int_cases split: if_splits)
    show ?thesis
    proof (rule tx_invI)
      fix q f assume "heap d' q = Some f"
      then show "q < next_fd d'" using tx_inv_fresh [OF inv, of q f] d' by (auto split: if_splits)
    next
      fix j q assume "j < length (energyObjs d')" and "energyObjs d' ! j = Some q"
      with d' have j: "j < length (energyObjs d)" "(energyObjs d)[k := Some (next_fd d)] ! j = Some q" by auto
      from list_update_Some [OF j(2,1)] show "\<exists>f. heap d' q = Some f \<and> objType f = obj_code OBJ_SOCKET \<and> tx_id f = int j"
        using tx_inv_entry [OF inv j(1), of q] d' fresh k True by auto
    qed (use d' len in simp_all)
  qed
qed

lemma tx_inv_close:
  assumes "pwr_tx2mon_dev_close d p = Inr (rc, d')" and inv: "tx_inv d"
  shows "tx_inv d'"
proof -
  from assms(1) obtain f es where f: "heap d p = Some f"
    and es: "(if objType f = obj_code OBJ_SOCKET then
                   (if tx_id f < 0 then Inl MemoryFault else arr_set (energyObjs d) (nat (tx_id f)) None)
                 else Inr (energyObjs d)) = Inr es"
    and d': "d' = d\<lparr>energyObjs := es, heap := (heap d)(p := None)\<rparr>"
    by (auto simp: pwr_tx2mon_dev_close_def rbind_eq_Inr_iff split: option.splits)
  have len: "length (energyObjs d) = nat (nodes d)" "length (bufs d) = 2" using inv by (auto simp: tx_inv_def)
  have es_len: "length es = length (energyObjs d)" using es by (auto simp: arr_set_eq_Inr_iff split: if_splits)
  have entry: "energyObjs d ! j = Some q \<and> q \<noteq> p" if j: "j < length es" "es ! j = Some q" for j q
  proof (cases "objType f = obj_code OBJ_SOCKET")
    case False
    with es have "es = energyObjs d" by simp
    with j tx_inv_entry [OF inv, of j q] f False show ?thesis by auto
  next
    case True
    with es obtain k where k: "tx_id f = int k" and e: "es = (energyObjs d)[k := None]"
      by (auto simp: arr_set_eq_Inr_iff not_less elim!: nonneg_int_cases split: if_splits)
    from j e list_update_Some [of "energyObjs d" k None j q] have "j \<noteq> k" "energyObjs d ! j = Some q" by auto
    with tx_inv_entry [OF inv, of j q] j e f k show ?thesis by auto
  qed
  show ?thesis
  proof (rule tx_invI)
    fix q g assume "heap d' q = Some g"
    then show "q < next_fd d'" using tx_inv_fresh [OF inv, of q g] d' by (auto split: if_splits)
  next
    fix j q assume "j < length (energyObjs d')" "energyObjs d' ! j = Some q"
    with entry [of j q] tx_inv_entry [OF inv, of j q] d' es_len
    show "\<exists>f. heap d' q = Some f \<and> objType f = obj_code OBJ_SOCKET \<and> tx_id f = int j" by auto
  qed (use d' len es_len in simp_all)
qed

text \<open>Reads and writes only fill the region buffers.\<close>

lemma read_node_frame:
  "read_node e d w k = Inr (m, d') \<Longrightarrow> \<exists>b. d' = d\<lparr>bufs := b\<rparr> \<and> length b = length (bufs d)"
  by (auto simp: read_node_def rbind_eq_Inr_iff Let_def split: if_splits option.splits)

lemma readDev_frame:
  assumes "readDev e f (d, w) a v len t = Inr (r, (d', w'))"
  shows "\<exists>b. d' = d\<lparr>bufs := b\<rparr> \<and> length b = length (bufs d)"
proof -
  obtain t1 w1 where st: "stamp_opt w t = (t1, w1)" by fastforce
  from assms obtain k m where "read_node e d w k = Inr (m, d')"
    by (auto simp: readDev_def readSocket_def readCore_def st rbind_eq_Inr_iff c_assert_eq_Inr_iff
        split: if_splits)
  then show ?thesis by (rule read_node_frame)
qed

lemma writeDev_frame:
  assumes "writeDev e f (d, w) a v len = Inr (r, (d', w'))"
  shows "\<exists>b. d' = d\<lparr>bufs := b\<rparr> \<and> length b = length (bufs d)"
proof -
  from assms obtain k m where "read_node e d w k = Inr (m, d')"
    by (auto simp: writeDev_def writeSocket_def writeCore_def rbind_eq_Inr_iff c_assert_eq_Inr_iff setCoreFreq_def
        split: if_splits prod.splits)
  then show ?thesis by (rule read_node_frame)
qed

lemma tx_inv_bufs: "length b = length (bufs d) \<Longrightarrow> tx_inv (d\<lparr>bufs := b\<rparr>) = tx_inv d"
  by (simp add: tx_inv_def)

lemma tx_inv_read:
  assumes "pwr_tx2mon_dev_read e p s a v len t = Inr (r, s')" and "tx_inv (fst s)"
  shows "tx_inv (fst s')"
proof -
  obtain d w d' w' where s: "s = (d, w)" "s' = (d', w')" by fastforce
  with assms(1) obtain f where "readDev e f (d, w) a v len t = Inr (r, (d', w'))"
    by (auto simp: pwr_tx2mon_dev_read_def split: option.splits)
  from readDev_frame [OF this] assms(2) s show ?thesis by (auto simp: tx_inv_bufs)
qed

lemma tx_inv_write:
  assumes "pwr_tx2mon_dev_write e p s a v len = Inr (r, s')" and "tx_inv (fst s)"
  shows "tx_inv (fst s')"
proof -
  obtain d w d' w' where s: "s = (d, w)" "s' = (d', w')" by fastforce
  with assms(1) obtain f where "writeDev e f (d, w) a v len = Inr (r, (d', w'))"
    by (auto simp: pwr_tx2mon_dev_write_def split: option.splits)
  from writeDev_frame [OF this] assms(2) s show ?thesis by (auto simp: tx_inv_bufs)
qed

text \<open>One turn of the sampling loop changes the energy of at most the descriptor in its entry.\<close>

lemma sample_socket_cases:
  assumes "sample_socket e now i (d, w) = Inr (d', w')" and "tx_inv d"
  obtains (idle) "d' = d" "w' = w" "i < length (energyObjs d)" "energyObjs d ! i = None \<or> lastSample d = 0"
  | (busy) p f b m where "i < length (energyObjs d)" "energyObjs d ! i = Some p" "heap d p = Some f"
      "objType f = obj_code OBJ_SOCKET" "tx_id f = int i" "lastSample d \<noteq> 0"
      "read_node e d w (int i) = Inr (m, d\<lparr>bufs := b\<rparr>)" "length b = length (bufs d)"
      "d' = d\<lparr>bufs := b, heap := (heap d)(p \<mapsto> f\<lparr>en := en f + (now - lastSample d) * socket_power m\<rparr>)\<rparr>"
proof -
  from assms(1) have i: "i < length (energyObjs d)"
    by (auto simp: sample_socket_def rbind_eq_Inr_iff arr_get_eq_Inr_iff)
  show thesis
  proof (cases "energyObjs d ! i = None \<or> lastSample d = 0")
    case True
    with assms(1) i have "d' = d" "w' = w"
      by (auto simp: sample_socket_def arr_get_def split: option.splits)
    with True i idle show thesis by blast
  next
    case False
    then obtain p where p: "energyObjs d ! i = Some p" and l: "lastSample d \<noteq> 0" by auto
    from tx_inv_entry [OF assms(2) i p] obtain f where f: "heap d p = Some f"
      "objType f = obj_code OBJ_SOCKET" "tx_id f = int i" by blast
    from assms(1) i p l f obtain v d1 m where rn: "read_node e d w (int i) = Inr (m, d1)"
      and d': "\<exists>g. heap d1 p = Some g \<and>
        d' = d1\<lparr>heap := (heap d1)(p \<mapsto> g\<lparr>en := en g + (now - lastSample d1) * socket_power m\<rparr>)\<rparr>"
      by (auto simp: sample_socket_def arr_get_def pwr_tx2mon_dev_read_def readDev_def readSocket_def tx_power_def
          tx_socket_types_def stamp_opt_def rbind_eq_Inr_iff c_assert_eq_Inr_iff split: option.splits)
    from read_node_frame [OF rn] obtain b where b: "d1 = d\<lparr>bufs := b\<rparr>" "length b = length (bufs d)" by blast
    show thesis using busy [OF i p f(1,2,3) l] rn d' b f(1) by simp
  qed
qed

lemma tx_inv_sample:
  assumes "sample_socket e now i (d, w) = Inr (d', w')" and "tx_inv d"
  shows "tx_inv d'"
  using assms
proof (cases rule: sample_socket_cases)
  case (busy p f b m)
  show ?thesis
  proof (rule tx_invI)
    fix q g assume "heap d' q = Some g"
    then show "q < next_fd d'"
      using tx_inv_fresh [OF assms(2), of q] busy by (auto split: if_splits)
  next
    fix j q assume "j < length (energyObjs d')" "energyObjs d' ! j = Some q"
    with tx_inv_entry [OF assms(2), of j q] busy
    show "\<exists>f. heap d' q = Some f \<and> objType f = obj_code OBJ_SOCKET \<and> tx_id f = int j" by auto
  qed (use assms(2) busy in \<open>simp_all add: tx_inv_def\<close>)
qed (use assms(2) in simp)

lemma tx_inv_samples:
  "sample_sockets e now is (d, w) = Inr (d', w') \<Longrightarrow> tx_inv d \<Longrightarrow> tx_inv d'"
proof (induction "is" arbitrary: d w)
  case (Cons i "is")
  from Cons.prems(1) obtain d1 w1 where "sample_socket e now i (d, w) = Inr (d1, w1)"
    "sample_sockets e now is (d1, w1) = Inr (d', w')" by (auto simp: rbind_eq_Inr_iff)
  with Cons.IH tx_inv_sample Cons.prems(2) show ?case by blast
qed simp

lemma tx_inv_last: "tx_inv (d\<lparr>lastSample := x\<rparr>) = tx_inv d"
  by (simp add: tx_inv_def)

text \<open>The time a turn of the thread sees, and one turn taken apart.\<close>

definition sample_time :: "os \<Rightarrow> real" where
  "sample_time w = fst (getTimeSec (snd (gettimeofday w)))"

lemma tx_energy_eq:
  "tx_energy e (d, w) =
     rbind (sample_sockets e (sample_time w) [0..<nat (nodes d)] (d, w\<lparr>ticks := Suc (Suc (ticks w))\<rparr>))
       (\<lambda>(d', w'). Inr (d'\<lparr>lastSample := sample_time w\<rparr>, w'))"
  by (simp add: tx_energy_def sample_time_def getTimeSec_def getTime_def gettimeofday_def)

lemma tx_energyE:
  assumes "tx_energy e (d, w) = Inr (d', w')"
  obtains d1 where
    "sample_sockets e (sample_time w) [0..<nat (nodes d)] (d, w\<lparr>ticks := Suc (Suc (ticks w))\<rparr>) = Inr (d1, w')"
    and "d' = d1\<lparr>lastSample := sample_time w\<rparr>"
  using assms by (auto simp: tx_energy_eq rbind_eq_Inr_iff)

lemma tx_inv_energy:
  assumes "tx_energy e s = Inr s'" and "tx_inv (fst s)"
  shows "tx_inv (fst s')"
proof -
  obtain d w d' w' where s: "s = (d, w)" "s' = (d', w')" by fastforce
  with assms(1) have "tx_energy e (d, w) = Inr (d', w')" by simp
  then show ?thesis using assms(2) s tx_inv_samples
    by (elim tx_energyE) (auto simp: tx_inv_last)
qed

lemma tx_inv_step: "tx_step e s s' \<Longrightarrow> tx_inv (fst s) \<Longrightarrow> tx_inv (fst s')"
  by (induction rule: tx_step.induct)
    (auto dest: tx_inv_open tx_inv_close tx_inv_read tx_inv_write tx_inv_energy)

lemma tx_init_inv: "tx2monInit poll aff set_aff w = Inr s \<Longrightarrow> tx_inv (fst s)"
  by (auto simp: tx2monInit_def rbind_eq_Inr_iff tx_inv_def split: if_splits)

text \<open>The states a device can get into after initialisation.\<close>

definition tx_reachable :: "tx_env \<Rightarrow> tx_state \<Rightarrow> bool" where
  "tx_reachable e s \<longleftrightarrow> (\<exists>poll aff set_aff w s0. tx2monInit poll aff set_aff w = Inr s0 \<and> (tx_step e)\<^sup>*\<^sup>* s0 s)"

lemma tx_reachable_inv:
  assumes "tx_reachable e s"
  shows "tx_inv (fst s)"
proof -
  from assms obtain poll aff set_aff w s0 where i: "tx2monInit poll aff set_aff w = Inr s0" and r: "(tx_step e)\<^sup>*\<^sup>* s0 s"
    by (auto simp: tx_reachable_def)
  from r show ?thesis by (induction rule: rtranclp_induct) (use tx_inv_step tx_init_inv [OF i] in blast)+
qed
subsection \<open>Properties\<close>

text \<open>Reading the power of a socket descriptor whose region is available.\<close>

lemma read_node_ok:
  assumes "region e w k = Some m" and "k < length (bufs d)"
  shows "read_node e d w (int k) = Inr (m, d\<lparr>bufs := (bufs d)[k := Some m]\<rparr>)"
  using assms by (simp add: read_node_def arr_get_def)

lemma sample_socket_ok:
  assumes inv: "tx_inv d" and i: "i < nat (nodes d)" "nodes d \<le> 2" and m: "region e w i = Some m"
  shows "\<exists>d'. sample_socket e now i (d, w) = Inr (d', w) \<and> nodes d' = nodes d"
proof -
  have len: "i < length (energyObjs d)" "i < length (bufs d)" using inv i by (auto simp: tx_inv_def)
  show ?thesis
  proof (cases "energyObjs d ! i")
    case None
    with len show ?thesis by (simp add: sample_socket_def arr_get_def)
  next
    case (Some p)
    from tx_inv_entry [OF inv len(1) Some] obtain f where f: "heap d p = Some f"
      "objType f = obj_code OBJ_SOCKET" "tx_id f = int i" by blast
    have "5 \<in> set tx_socket_types" "int i < nodes d" using i by (auto simp: tx_socket_types_def)
    with Some len f i read_node_ok [OF m len(2)] show ?thesis
      by (simp add: sample_socket_def arr_get_def pwr_tx2mon_dev_read_def readDev_def readSocket_def tx_power_def
          stamp_opt_def SIZEOF_DOUBLE_def)
  qed
qed

lemma sample_sockets_ok:
  assumes "tx_inv d" and "set is \<subseteq> {..<nat (nodes d)}" and "nodes d \<le> 2"
    and reg: "\<And>k. k < 2 \<Longrightarrow> region e w k \<noteq> None"
  shows "\<exists>d'. sample_sockets e now is (d, w) = Inr (d', w)"
  using assms(1-3)
proof (induction "is" arbitrary: d)
  case (Cons i "is")
  from Cons.prems have i: "i < nat (nodes d)" "i < 2" by auto
  with reg obtain m where m: "region e w i = Some m" by blast
  from sample_socket_ok [OF Cons.prems(1) i(1) Cons.prems(3) m] obtain d1
    where d1: "sample_socket e now i (d, w) = Inr (d1, w)" "nodes d1 = nodes d" by blast
  from Cons.IH [OF tx_inv_sample [OF d1(1) Cons.prems(1)]] Cons.prems d1 show ?case by auto
qed simp


text \<open>The effect of the whole loop on the descriptor in entry \<open>i\<close>, and on one in no entry.\<close>

lemma sample_sockets_entries:
  "sample_sockets e now is (d, w) = Inr (d', w') \<Longrightarrow> tx_inv d \<Longrightarrow>
   energyObjs d' = energyObjs d \<and> lastSample d' = lastSample d \<and> nodes d' = nodes d"
proof (induction "is" arbitrary: d w)
  case (Cons i "is")
  from Cons.prems(1) obtain d1 w1 where d1: "sample_socket e now i (d, w) = Inr (d1, w1)"
    and rest: "sample_sockets e now is (d1, w1) = Inr (d', w')" by (auto simp: rbind_eq_Inr_iff)
  from d1 Cons.prems(2) have "energyObjs d1 = energyObjs d \<and> lastSample d1 = lastSample d \<and> nodes d1 = nodes d"
    by (cases rule: sample_socket_cases) auto
  with Cons.IH [OF rest tx_inv_sample [OF d1 Cons.prems(2)]] show ?case by simp
qed simp

lemma sample_sockets_other:
  "sample_sockets e now is (d, w) = Inr (d', w') \<Longrightarrow> tx_inv d \<Longrightarrow>
   \<forall>i\<in>set is. i < length (energyObjs d) \<longrightarrow> energyObjs d ! i \<noteq> Some p \<Longrightarrow> heap d' p = heap d p"
proof (induction "is" arbitrary: d w)
  case (Cons i "is")
  from Cons.prems(1) obtain d1 w1 where d1: "sample_socket e now i (d, w) = Inr (d1, w1)"
    and rest: "sample_sockets e now is (d1, w1) = Inr (d', w')" by (auto simp: rbind_eq_Inr_iff)
  from d1 Cons.prems(2) Cons.prems(3) have "energyObjs d1 = energyObjs d \<and> heap d1 p = heap d p"
    by (cases rule: sample_socket_cases) auto
  with Cons.IH [OF rest tx_inv_sample [OF d1 Cons.prems(2)]] Cons.prems(3) show ?case by simp
qed simp

text \<open>
  Opening a socket twice and closing either descriptor stops the energy count of the other: its
  table entry is cleared, and no later turn of the thread changes its energy.
\<close>

theorem tx_close_stops_other:
  assumes inv: "tx_inv d" and o1: "pwr_tx2mon_dev_open d (open_str_type_index OBJ_SOCKET (int k) 100) = Inr (a, d1)"
    and o2: "pwr_tx2mon_dev_open d1 (open_str_type_index OBJ_SOCKET (int k) 100) = Inr (b, d2)"
    and k: "int32 (int k)" and c: "pwr_tx2mon_dev_close d2 a = Inr (rc, d3)"
    and t: "tx_energy e (d3, w) = Inr (d4, w')"
  shows "heap d3 b = Some \<lparr>objType = obj_code OBJ_SOCKET, tx_id = int k, en = 0\<rparr> \<and> energyObjs d3 ! k = None \<and>
    heap d4 b = heap d3 b"
proof -
  let ?f = "\<lparr>objType = obj_code OBJ_SOCKET, tx_id = int k, en = 0\<rparr>"
  have op: "k < length (energyObjs x) \<and> p = next_fd x \<and>
      y = x\<lparr>heap := (heap x)(next_fd x \<mapsto> ?f), next_fd := Suc (next_fd x), energyObjs := (energyObjs x)[k := Some (next_fd x)]\<rparr>"
    if "pwr_tx2mon_dev_open x (open_str_type_index OBJ_SOCKET (int k) 100) = Inr (p, y)" for x y p
    using that k by (auto simp: pwr_tx2mon_dev_open_def sscanf_open_str Let_def rbind_eq_Inr_iff arr_set_eq_Inr_iff)
  from op [OF o1] op [OF o2] have ab: "a = next_fd d" "b = Suc (next_fd d)" "k < length (energyObjs d)"
    and h2: "heap d2 = (heap d)(a \<mapsto> ?f, b \<mapsto> ?f)" and e2: "energyObjs d2 = (energyObjs d)[k := Some b]" by auto
  from c h2 ab e2 have d3: "d3 = d2\<lparr>energyObjs := (energyObjs d)[k := None], heap := (heap d2)(a := None)\<rparr>"
    by (auto simp: pwr_tx2mon_dev_close_def rbind_eq_Inr_iff arr_set_eq_Inr_iff)
  have inv3: "tx_inv d3" using tx_inv_close [OF c tx_inv_open [OF o2 tx_inv_open [OF o1 inv]]] .
  have none: "energyObjs d3 ! i \<noteq> Some b" if "i < length (energyObjs d3)" for i
  proof
    assume s: "energyObjs d3 ! i = Some b"
    with d3 that list_update_Some [of "energyObjs d" k None i b] have "energyObjs d ! i = Some b" "i < length (energyObjs d)"
      by auto
    with tx_inv_entry [OF inv] tx_inv_fresh [OF inv, of b] ab show False by fastforce
  qed
  from t obtain dm where dm: "sample_sockets e (sample_time w) [0..<nat (nodes d3)] (d3, w\<lparr>ticks := Suc (Suc (ticks w))\<rparr>) = Inr (dm, w')"
    and d4: "d4 = dm\<lparr>lastSample := sample_time w\<rparr>" by (rule tx_energyE)
  have "heap dm b = heap d3 b" using none by (intro sample_sockets_other [OF dm inv3]) auto
  with d3 h2 ab d4 show ?thesis by simp
qed

text \<open>
  A read of the power of the memory, cache or system domain adds to what the caller's buffer
  holds: reading again into the same buffer reports the sum, and an unset buffer is used
  uninitialised.  The core domain and the whole socket overwrite it; the socket is the sum of the
  four domains and twelve watts.
\<close>

theorem tx_power_accumulates:
  assumes m: "region e w k = Some m" and k: "k < length (bufs d)" "int k < nodes d"
    and h: "heap d p = Some \<lparr>objType = obj_code t, tx_id = int k, en = x0\<rparr>"
    and t: "t \<in> {OBJ_TX2_SRAM, OBJ_TX2_MEM, OBJ_TX2_SOC}"
  shows "\<exists>mw d'. mw = (if t = OBJ_TX2_SRAM then pwr_sram m else if t = OBJ_TX2_MEM then pwr_mem m else pwr_soc m) \<and>
    pwr_tx2mon_dev_read e p (d, w) ATTR_POWER (Dbl x) 8 None = Inr ((0, Dbl (x + of_int mw / 1000), None), (d', w)) \<and>
    pwr_tx2mon_dev_read e p (d', w) ATTR_POWER (Dbl (x + of_int mw / 1000)) 8 None =
      Inr ((0, Dbl (x + 2 * (of_int mw / 1000)), None), (d', w)) \<and>
    pwr_tx2mon_dev_read e p (d, w) ATTR_POWER Uninit 8 None = Inl UninitRead"
proof -
  let ?d = "d\<lparr>bufs := (bufs d)[k := Some m]\<rparr>"
  have rn: "read_node e d w (int k) = Inr (m, ?d)" using m k by (intro read_node_ok) simp_all
  have rn2: "read_node e ?d w (int k) = Inr (m, ?d)" using read_node_ok [OF m, of ?d] k by simp
  have ty: "obj_code t \<in> set tx_socket_types" using t by (auto simp: tx_socket_types_def)
  have rd: "pwr_tx2mon_dev_read e p (y, w) ATTR_POWER v 8 None =
      rbind (tx_power (obj_code t) m v) (\<lambda>z. Inr ((0, Dbl z, None), (?d, w)))"
    if "read_node e y w (int k) = Inr (m, ?d)" "heap y = heap d" "nodes y = nodes d" for y v
    using that h ty k
    by (simp add: pwr_tx2mon_dev_read_def readDev_def readSocket_def SIZEOF_DOUBLE_def stamp_opt_def RET_SUCCESS_def)
  show ?thesis
    using t by (auto simp: rd [OF rn] rd [OF rn2] tx_power_def to_w_def load_double_def field_simps)
qed
lemma sample_sockets_append:
  "sample_sockets e now (is @ js) s = rbind (sample_sockets e now is s) (sample_sockets e now js)"
proof (induction "is" arbitrary: s)
  case (Cons i "is")
  then have "sample_sockets e now (is @ js) = (\<lambda>x. rbind (sample_sockets e now is x) (sample_sockets e now js))" by blast
  then show ?case by (simp add: rbind_assoc)
qed simp

lemma sample_socket_world: "sample_socket e now i (d, w) = Inr (d', w') \<Longrightarrow> w' = w"
  by (auto simp: sample_socket_def arr_get_def pwr_tx2mon_dev_read_def readDev_def readSocket_def readCore_def
      stamp_opt_def rbind_eq_Inr_iff c_assert_eq_Inr_iff split: option.splits if_splits prod.splits)

lemma sample_sockets_world: "sample_sockets e now is (d, w) = Inr (d', w') \<Longrightarrow> w' = w"
proof (induction "is" arbitrary: d w)
  case (Cons i "is")
  then obtain d1 w1 where "sample_socket e now i (d, w) = Inr (d1, w1)"
    "sample_sockets e now is (d1, w1) = Inr (d', w')" by (auto simp: rbind_eq_Inr_iff)
  with Cons.IH sample_socket_world show ?case by blast
qed simp

lemma tx_energy_entry:
  assumes inv: "tx_inv d" and i: "i < nat (nodes d)" and p: "energyObjs d ! i = Some p" and f: "heap d p = Some f"
    and l: "lastSample d \<noteq> 0" and m: "\<And>w. region e w i = Some m" and t: "tx_energy e (d, w) = Inr (d', w')"
  shows "heap d' p = Some (f\<lparr>en := en f + (sample_time w - lastSample d) * socket_power m\<rparr>) \<and>
    lastSample d' = sample_time w \<and> energyObjs d' = energyObjs d \<and> nodes d' = nodes d \<and> tx_inv d' \<and>
    w' = w\<lparr>ticks := Suc (Suc (ticks w))\<rparr>"
proof -
  let ?now = "sample_time w" and ?w = "w\<lparr>ticks := Suc (Suc (ticks w))\<rparr>"
  have len: "length (energyObjs d) = nat (nodes d)" using inv by (simp add: tx_inv_def)
  have only: "energyObjs d ! j \<noteq> Some p" if "j < length (energyObjs d)" "j \<noteq> i" for j
    using tx_inv_entry [OF inv, of j p] tx_inv_entry [OF inv, of i p] that i len p by fastforce
  from t obtain dm where s: "sample_sockets e ?now [0..<nat (nodes d)] (d, ?w) = Inr (dm, w')"
    and d': "d' = dm\<lparr>lastSample := ?now\<rparr>" by (rule tx_energyE)
  have "[0..<nat (nodes d)] = [0..<i] @ i # [Suc i..<nat (nodes d)]"
    using i upt_add_eq_append [of 0 i "nat (nodes d) - i"] by (simp add: upt_conv_Cons)
  with s obtain d1 w1 d2 w2 where s1: "sample_sockets e ?now [0..<i] (d, ?w) = Inr (d1, w1)"
    and s2: "sample_socket e ?now i (d1, w1) = Inr (d2, w2)"
    and s3: "sample_sockets e ?now [Suc i..<nat (nodes d)] (d2, w2) = Inr (dm, w')"
    by (auto simp: sample_sockets_append rbind_eq_Inr_iff)
  have inv1: "tx_inv d1" using tx_inv_samples [OF s1 inv] .
  have e1: "energyObjs d1 = energyObjs d" "lastSample d1 = lastSample d" "nodes d1 = nodes d"
    using sample_sockets_entries [OF s1 inv] by auto
  have h1: "heap d1 p = Some f" using sample_sockets_other [OF s1 inv, of p] only f by auto
  have h2: "heap d2 p = Some (f\<lparr>en := en f + (?now - lastSample d) * socket_power m\<rparr>) \<and> energyObjs d2 = energyObjs d"
    using s2 inv1
  proof (cases rule: sample_socket_cases)
    case idle
    with e1 p l show ?thesis by auto
  next
    case (busy q g b k)
    from busy(1) m have "k = m" using busy(7) by (auto simp: read_node_def rbind_eq_Inr_iff Let_def split: option.splits)
    with busy e1 p h1 show ?thesis by auto
  qed
  have inv2: "tx_inv d2" using tx_inv_sample [OF s2 inv1] .
  have h3: "heap dm p = heap d2 p" using sample_sockets_other [OF s3 inv2, of p] only h2 by auto
  show ?thesis
    using h2 h3 d' sample_sockets_entries [OF s inv] tx_inv_samples [OF s inv] sample_sockets_world [OF s]
    by (simp add: tx_inv_last)
qed

fun tx_turns :: "nat \<Rightarrow> tx_env \<Rightarrow> tx_state \<Rightarrow> tx_state res" where
  "tx_turns 0 e s = Inr s"
| "tx_turns (Suc n) e s = rbind (tx_energy e s) (tx_turns n e)"

text \<open>
  C29.  While a socket draws constant power, the energy counted between two turns of the sampling
  thread is that power times the time between them, however many turns lie in between and at
  whatever intervals they come.
\<close>

theorem tx_energy_integrates:
  assumes "tx_inv d" and "i < nat (nodes d)" and "energyObjs d ! i = Some p" and "heap d p = Some f"
    and "lastSample d \<noteq> 0" and m: "\<And>w. region e w i = Some m"
    and clk: "\<And>n. 0 < tv_sec (clock w n) \<and> 0 \<le> tv_usec (clock w n)"
    and run: "tx_turns n e (d, w) = Inr (d', w')"
  shows "heap d' p = Some (f\<lparr>en := en f + (lastSample d' - lastSample d) * socket_power m\<rparr>)"
  using assms(1-5) clk run
proof (induction n arbitrary: d w f)
  case 0
  then show ?case by simp
next
  case (Suc n)
  from Suc.prems(7) obtain d1 w1 where t: "tx_energy e (d, w) = Inr (d1, w1)" and rest: "tx_turns n e (d1, w1) = Inr (d', w')"
    by (auto simp: rbind_eq_Inr_iff)
  let ?f = "f\<lparr>en := en f + (sample_time w - lastSample d) * socket_power m\<rparr>"
  from tx_energy_entry [OF Suc.prems(1-5) m t]
  have h: "heap d1 p = Some ?f" and l: "lastSample d1 = sample_time w" and e1: "energyObjs d1 = energyObjs d"
    "nodes d1 = nodes d" "tx_inv d1" and w1: "w1 = w\<lparr>ticks := Suc (Suc (ticks w))\<rparr>" by auto
  have "0 < sample_time w"
    using Suc.prems(6) [of "Suc (ticks w)"]
    by (simp add: sample_time_def getTimeSec_def getTime_def gettimeofday_def add_pos_nonneg)
  then have "lastSample d1 \<noteq> 0" using l by simp
  moreover have "0 < tv_sec (clock w1 n) \<and> 0 \<le> tv_usec (clock w1 n)" for n using Suc.prems(6) w1 by simp
  ultimately have "heap d' p = Some (?f\<lparr>en := en ?f + (lastSample d' - lastSample d1) * socket_power m\<rparr>)"
    using Suc.IH [OF e1(3) _ _ h _ _ rest] Suc.prems(2,3) e1 by simp
  then show ?case using l by (simp add: algebra_simps)
qed

lemma affinity_step:
  assumes "CHR '','' \<notin> set t"
  shows "affinity_cpus (t @ CHR '','' # s) = atoi t # affinity_cpus s"
    and "t \<noteq> [] \<Longrightarrow> affinity_cpus t = [atoi t]"
proof -
  have t: "\<forall>c\<in>set t. c \<noteq> CHR '',''" using assms by auto
  then have tw: "takeWhile (\<lambda>c. c \<noteq> CHR '','') (t @ CHR '','' # s) = t"
    "dropWhile (\<lambda>c. c \<noteq> CHR '','') (t @ CHR '','' # s) = CHR '','' # s"
    by (simp_all add: takeWhile_append2 dropWhile_append2)
  show "affinity_cpus (t @ CHR '','' # s) = atoi t # affinity_cpus s"
    by (subst affinity_cpus.simps) (simp add: tw del: takeWhile_append2)
  have "takeWhile (\<lambda>c. c \<noteq> CHR '','') t = t" "dropWhile (\<lambda>c. c \<noteq> CHR '','') t = []"
    using t by (auto simp: takeWhile_eq_all_conv dropWhile_eq_Nil_conv)
  then show "t \<noteq> [] \<Longrightarrow> affinity_cpus t = [atoi t]"
    using affinity_cpus.simps [of t] by (simp only: drop_Nil if_False) (simp add: affinity_cpus.simps)
qed

fun comma_list :: "int list \<Rightarrow> string" where
  "comma_list [] = []"
| "comma_list [i] = show_int i"
| "comma_list (i # j # is) = show_int i @ CHR '','' # comma_list (j # is)"

text \<open>The affinity list is read back: the processors named in a comma-separated list, in order.\<close>

theorem affinity_cpus_roundtrip:
  assumes "\<forall>i\<in>set is. int32 i"
  shows "affinity_cpus (comma_list is) = is"
proof -
  have nc: "CHR '','' \<notin> set (show_int i)" for i
    using show_int_chars [of "CHR '',''" i] by (auto simp: is_digit_def char_code_def)
  show ?thesis using assms
    by (induction "is" rule: comma_list.induct)
      (simp_all add: affinity_step nc atoi_show_int, simp add: affinity_cpus.simps)
qed

subsection \<open>A machine with one node\<close>

definition tx_demo_region :: mc_oper_region where
  "tx_demo_region = \<lparr>freq_cpu = (\<lambda>_. 2000), tmon_cpu = (\<lambda>_. 40), freq_socs = 2000, tmon_soc_avg = 45,
     pwr_core = 30000, pwr_sram = 4000, pwr_mem = 3000, pwr_soc = 1000, v_soc = 900\<rparr>"

definition tx_demo_env :: tx_env where
  "tx_demo_env = \<lparr>region = (\<lambda>_ _. Some tx_demo_region), to_c = of_int\<rparr>"

definition tx_demo_os :: os where
  "tx_demo_os = \<lparr>files = [PATH_T99MON_DEV @ ''/socinfo'' \<mapsto> Regular ''1 28 4'',
       PATH_T99MON_DEV @ ''/node0_raw'' \<mapsto> Regular []],
     can_write = (\<lambda>_. False), store = (\<lambda>_ _ _. None), wlog = [], fds = 0,
     clock = (\<lambda>n. \<lparr>tv_sec = 1 + int n, tv_usec = 0\<rparr>), ticks = 0, msr = (\<lambda>_ _. None)\<rparr>"

definition tx_demo_dev :: tx2mon where
  "tx_demo_dev = \<lparr>nodes = 1, cores = 28, bufs = [None, None], energyObjs = [None], lastSample = 0,
     sleep_us = 10000, heap = Map.empty, next_fd = 0\<rparr>"

lemma tx_demo_init:
  "tx2monInit None None (\<lambda>_. True) tx_demo_os = Inr (tx_demo_dev, tx_demo_os\<lparr>fds := 1\<rparr>)"
proof -
  have "scan_int ''1 28 4'' = Some (1, '' 28 4'')" "scan_int '' 28 4'' = Some (28, '' 4'')"
    "scan_int '' 4'' = Some (4, [])" by code_simp+
  then have s: "sscanf_ddd ''1 28 4'' = Some (1, 28, 4)" by (simp add: sscanf_ddd_def c_int_id int32_def)
  show ?thesis
    by (simp add: tx2monInit_def init_socinfo_def open_node_def open_rd_def tx_demo_os_def s initSampleThread_def
        tx_demo_dev_def numeral_2_eq_2)
qed

definition tx_demo_open :: tx2mon where
  "tx_demo_open = tx_demo_dev\<lparr>heap := [0 \<mapsto> \<lparr>objType = obj_code OBJ_SOCKET, tx_id = 0, en = 0\<rparr>],
     energyObjs := [Some 0], next_fd := 1\<rparr>"

lemma tx_demo_opened:
  "pwr_tx2mon_dev_open tx_demo_dev (open_str_type_index OBJ_SOCKET (int 0) 100) = Inr (0, tx_demo_open)"
proof -
  have "sscanf_d_d (open_str_type_index OBJ_SOCKET (int 0) 100) = (Some (obj_code OBJ_SOCKET), Some (int 0))"
    by (rule sscanf_open_str) (simp add: int32_def)
  then show ?thesis
    by (simp add: pwr_tx2mon_dev_open_def tx_demo_dev_def tx_demo_open_def arr_set_def)
qed

lemma tx_demo_reachable: "tx_reachable tx_demo_env (tx_demo_open, tx_demo_os\<lparr>fds := 1\<rparr>)"
  unfolding tx_reachable_def
  using tx_demo_init step_open [OF tx_demo_opened, of tx_demo_env "tx_demo_os\<lparr>fds := 1\<rparr>"] by blast

lemma tx_demo_inv: "tx_inv tx_demo_dev" "tx_inv tx_demo_open" "tx_inv (tx_demo_open\<lparr>lastSample := 1\<rparr>)"
  by (simp_all add: tx_inv_def tx_demo_open_def tx_demo_dev_def)


lemma tx_demo_second:
  "pwr_tx2mon_dev_open tx_demo_open (open_str_type_index OBJ_SOCKET (int 0) 100) =
     Inr (1, tx_demo_open\<lparr>heap := [0 \<mapsto> \<lparr>objType = obj_code OBJ_SOCKET, tx_id = 0, en = 0\<rparr>,
                                  1 \<mapsto> \<lparr>objType = obj_code OBJ_SOCKET, tx_id = 0, en = 0\<rparr>],
                          energyObjs := [Some 1], next_fd := 2\<rparr>)"
proof -
  have "sscanf_d_d (open_str_type_index OBJ_SOCKET (int 0) 100) = (Some (obj_code OBJ_SOCKET), Some (int 0))"
    by (rule sscanf_open_str) (simp add: int32_def)
  then show ?thesis
    by (simp add: pwr_tx2mon_dev_open_def tx_demo_dev_def tx_demo_open_def arr_set_def)
qed

theorem tx_close_stops_other_witness:
  "\<exists>d3 d4 w'. tx_energy tx_demo_env (d3, tx_demo_os) = Inr (d4, w') \<and>
    heap d3 1 = Some \<lparr>objType = obj_code OBJ_SOCKET, tx_id = int 0, en = 0\<rparr> \<and> heap d4 1 = heap d3 1"
proof -
  let ?d2 = "tx_demo_open\<lparr>heap := [0 \<mapsto> \<lparr>objType = obj_code OBJ_SOCKET, tx_id = 0, en = 0\<rparr>,
                                  1 \<mapsto> \<lparr>objType = obj_code OBJ_SOCKET, tx_id = 0, en = 0\<rparr>],
                          energyObjs := [Some 1], next_fd := 2\<rparr>"
  let ?d3 = "?d2\<lparr>energyObjs := [None], heap := [1 \<mapsto> \<lparr>objType = obj_code OBJ_SOCKET, tx_id = 0, en = 0\<rparr>]\<rparr>"
  have c: "pwr_tx2mon_dev_close ?d2 0 = Inr (0, ?d3)"
    by (auto simp: pwr_tx2mon_dev_close_def arr_set_def fun_upd_twist)
  have t: "tx_energy tx_demo_env (?d3, tx_demo_os) =
      Inr (?d3\<lparr>lastSample := sample_time tx_demo_os\<rparr>, tx_demo_os\<lparr>ticks := Suc (Suc (ticks tx_demo_os))\<rparr>)"
    by (simp add: tx_energy_eq tx_demo_open_def tx_demo_dev_def sample_socket_def arr_get_def)
  have "int32 (int 0)" by (simp add: int32_def)
  from tx_close_stops_other [OF tx_demo_inv(1) tx_demo_opened tx_demo_second this c t] t
  show ?thesis by blast
qed

theorem tx_power_accumulates_witness:
  "\<exists>d'. pwr_tx2mon_dev_read tx_demo_env 0 (tx_demo_dev\<lparr>heap := [0 \<mapsto> \<lparr>objType = obj_code OBJ_TX2_MEM, tx_id = int 0, en = 0\<rparr>]\<rparr>, tx_demo_os)
     ATTR_POWER (Dbl 1) 8 None = Inr ((0, Dbl 4, None), (d', tx_demo_os))"
  using tx_power_accumulates [of tx_demo_env tx_demo_os 0 tx_demo_region
      "tx_demo_dev\<lparr>heap := [0 \<mapsto> \<lparr>objType = obj_code OBJ_TX2_MEM, tx_id = int 0, en = 0\<rparr>]\<rparr>" 0 OBJ_TX2_MEM 0 1]
  by (auto simp: tx_demo_env_def tx_demo_dev_def tx_demo_region_def)

theorem tx_energy_integrates_witness:
  "\<exists>d' w'. tx_turns 1 tx_demo_env (tx_demo_open\<lparr>lastSample := 1\<rparr>, tx_demo_os) = Inr (d', w') \<and>
    heap d' 0 = Some \<lparr>objType = obj_code OBJ_SOCKET, tx_id = 0, en = (lastSample d' - 1) * 50\<rparr>"
proof -
  let ?d = "tx_demo_open\<lparr>lastSample := 1\<rparr>"
  have n: "nodes ?d = 1" by (simp add: tx_demo_open_def tx_demo_dev_def)
  then obtain d1 where "sample_sockets tx_demo_env (sample_time tx_demo_os) [0..<nat (nodes ?d)]
      (?d, tx_demo_os\<lparr>ticks := Suc (Suc (ticks tx_demo_os))\<rparr>) = Inr (d1, tx_demo_os\<lparr>ticks := Suc (Suc (ticks tx_demo_os))\<rparr>)"
    using sample_sockets_ok [OF tx_demo_inv(3), of "[0]" tx_demo_env] by (auto simp: tx_demo_env_def)
  then have "\<exists>s'. tx_energy tx_demo_env (?d, tx_demo_os) = Inr s'" by (simp add: tx_energy_eq)
  then obtain d' w' where run: "tx_turns 1 tx_demo_env (?d, tx_demo_os) = Inr (d', w')" by auto
  have "socket_power tx_demo_region = 50" by (simp add: socket_power_def tx_demo_region_def to_w_def)
  with tx_energy_integrates [OF tx_demo_inv(3) _ _ _ _ _ _ run, of 0 0 _ tx_demo_region]
  have "heap d' 0 = Some \<lparr>objType = obj_code OBJ_SOCKET, tx_id = 0, en = (lastSample d' - 1) * 50\<rparr>"
    by (simp add: tx_demo_open_def tx_demo_dev_def tx_demo_env_def tx_demo_os_def)
  with run show ?thesis by blast
qed

theorem affinity_cpus_roundtrip_witness:
  "affinity_cpus (comma_list [0, 27, 3]) = [0, 27, 3]"
  by (rule affinity_cpus_roundtrip) (simp add: int32_def)

end
