(* ===== verification/Dummy_Dev.thy ===== *)
theory Dummy_Dev
  imports Plugin_Iface C_Float
begin

text \<open>
  The dummy plugin (\<^verbatim>\<open>src/plugins/dummy_dev.c\<close>), which the examples and tests of the repository use: every attribute is a number
  that grows with time by 9.88 per second, whatever the attribute.
\<close>

subsection \<open>State\<close>

text \<open>
  The descriptor comes from \<^verbatim>\<open>malloc\<close>: the entries \<^verbatim>\<open>open\<close> does not set are unset.  Of the arrays of ten values and
  time stamps only the first entry is ever used.
\<close>

record dummy_fd =
  du_value :: "attr \<Rightarrow> real option"
  du_stamp :: "attr \<Rightarrow> pwr_time option"
  lastAccess :: real

type_synonym dummy_state = "dummy_fd \<times> os"

definition JOULES_PER_SEC :: real where
  "JOULES_PER_SEC = 988 / 100"

definition dummy_getTimeSec :: "os \<Rightarrow> real \<times> os" where
  "dummy_getTimeSec w = (let (t, w') = getTime w in (t / 1000000000, w'))"

definition dummy_dev_open :: "string \<Rightarrow> os \<Rightarrow> dummy_state" where
  "dummy_dev_open openstr w =
     (let (now, w') = dummy_getTimeSec w
      in (\<lparr>du_value = (\<lambda>_. None)(ATTR_POWER := Some (101234 / 10000), ATTR_ENERGY := Some 100000000),
           du_stamp = (\<lambda>_. None), lastAccess = now\<rparr>, w'))"

definition dummy_dev_close :: "dummy_state \<Rightarrow> int \<times> os" where
  "dummy_dev_close s = free_fd s"

subsection \<open>Operations\<close>

text \<open>
  The counter advances by the time since the last access to any attribute of the descriptor; the time stamp is the
  clock in seconds.
\<close>

definition dummy_dev_read :: "dummy_state reader" where
  "dummy_dev_read s a v len ts =
     (let (fd, w) = s; (now, w') = dummy_getTimeSec w
      in case du_value fd a of
           None \<Rightarrow> Inl UninitRead
         | Some x \<Rightarrow>
             (let y = x + (now - lastAccess fd) * JOULES_PER_SEC;
                  fd' = fd\<lparr>du_value := (du_value fd)(a := Some y), lastAccess := now\<rparr>
              in Inr ((RET_SUCCESS, Dbl y,
                       (case ts of None \<Rightarrow> None | Some _ \<Rightarrow> Some (time_of_double now))), (fd', w'))))"

definition dummy_dev_write :: "dummy_state writer" where
  "dummy_dev_write s a v len =
     (let (fd, w) = s; (now, w') = dummy_getTimeSec w
      in rbind (load_double v) (\<lambda>x.
         Inr ((RET_SUCCESS, v), (fd\<lparr>du_value := (du_value fd)(a := Some x), lastAccess := now\<rparr>, w'))))"

text \<open>The array operations neither advance the counters nor the access time.\<close>

fun dummy_readv_loop ::
  "dummy_state \<Rightarrow> attr list \<Rightarrow> cell list \<Rightarrow> pwr_time list \<Rightarrow> int list
   \<Rightarrow> ((cell list \<times> pwr_time list \<times> int list) \<times> dummy_state) res" where
  "dummy_readv_loop s [] vs ts st = Inr ((vs, ts, st), s)"
| "dummy_readv_loop s (a # as) (v # vs) (t # ts) (r # st) =
     (case du_value (fst s) a of
        None \<Rightarrow> Inl UninitRead
      | Some x \<Rightarrow>
          (let (now, w') = getTime (snd s)
           in rbind (dummy_readv_loop (fst s, w') as vs ts st) (\<lambda>((vs', ts', st'), s').
              Inr ((Dbl x # vs', time_of_double now # ts', RET_SUCCESS # st'), s'))))"
| "dummy_readv_loop s (a # as) vs ts st = Inl MemoryFault"

definition dummy_dev_readv :: "dummy_state vreader" where
  "dummy_dev_readv s as vs ts st =
     rbind (dummy_readv_loop s as vs ts st) (\<lambda>((vs', ts', st'), s'). Inr ((RET_SUCCESS, vs', ts', st'), s'))"

fun dummy_writev_loop ::
  "dummy_state \<Rightarrow> attr list \<Rightarrow> cell list \<Rightarrow> int list \<Rightarrow> (int list \<times> dummy_state) res" where
  "dummy_writev_loop s [] vs st = Inr (st, s)"
| "dummy_writev_loop s (a # as) (v # vs) (r # st) =
     rbind (load_double v) (\<lambda>x.
     rbind (dummy_writev_loop ((fst s)\<lparr>du_value := (du_value (fst s))(a := Some x)\<rparr>, snd s) as vs st)
       (\<lambda>(st', s'). Inr (RET_SUCCESS # st', s')))"
| "dummy_writev_loop s (a # as) vs st = Inl MemoryFault"

definition dummy_dev_writev :: "dummy_state vwriter" where
  "dummy_dev_writev s as vs st =
     rbind (dummy_writev_loop s as vs st) (\<lambda>(st', s'). Inr ((RET_SUCCESS, vs, st'), s'))"

text \<open>\<^verbatim>\<open>time\<close> and \<^verbatim>\<open>clear\<close> report success and do nothing.\<close>

definition dummy_dev_time :: "dummy_state \<Rightarrow> ts_ptr \<Rightarrow> int \<times> ts_ptr" where
  "dummy_dev_time s t = (0, t)"

definition dummy_dev_clear :: "dummy_state \<Rightarrow> int" where
  "dummy_dev_clear s = 0"

definition dummy_dev_log_start :: "dummy_state \<Rightarrow> attr \<Rightarrow> (int \<times> dummy_state) res" where
  "dummy_dev_log_start s a =
     (let (fd, w) = s; (t, w') = getTime w
      in Inr (RET_SUCCESS, (fd\<lparr>du_stamp := (du_stamp fd)(a := Some (time_of_double t))\<rparr>, w')))"

definition dummy_dev_log_stop :: "dummy_state \<Rightarrow> attr \<Rightarrow> (int \<times> dummy_state) res" where
  "dummy_dev_log_stop s a = Inr (RET_SUCCESS, s)"

text \<open>
  Samples are random: \<open>rnd seed i\<close> is the \<open>i\<close>-th number of the generator seeded with the microseconds of the clock (the earlier
  seeding with milliseconds has no effect), between 0 and \<^verbatim>\<open>RAND_MAX\<close>.
\<close>

definition RAND_MAX :: nat where
  "RAND_MAX = 2147483647"

definition dummy_sample :: "nat \<Rightarrow> real" where
  "dummy_sample r = 100 + real r / (real RAND_MAX / 2)"

definition dummy_dev_get_samples ::
  "(int \<Rightarrow> nat \<Rightarrow> nat) \<Rightarrow> dummy_state \<Rightarrow> attr \<Rightarrow> real \<Rightarrow> nat \<Rightarrow> cell list
   \<Rightarrow> ((int \<times> pwr_time \<times> nat \<times> cell list) \<times> dummy_state) res" where
  "dummy_dev_get_samples rnd s a period n buf =
     (let (fd, w) = s; (tv, w1) = gettimeofday w; (now, w2) = getTime w1
      in if length buf < n then Inl MemoryFault
         else Inr ((RET_SUCCESS, time_of_double (now - real n * period * 1000000000), n,
                    map (\<lambda>i. Dbl (dummy_sample (rnd (tv_usec tv) i))) [0..<n] @ drop n buf), (fd, w2)))"

definition dummy_ops :: "(int \<Rightarrow> nat \<Rightarrow> nat) \<Rightarrow> dummy_state devops" where
  "dummy_ops rnd = \<lparr>d_read = dummy_dev_read, d_write = dummy_dev_write,
     d_readv = Some dummy_dev_readv, d_writev = Some dummy_dev_writev,
     d_log_start = Some dummy_dev_log_start, d_log_stop = Some dummy_dev_log_stop,
     d_get_samples = Some (dummy_dev_get_samples rnd)\<rparr>"

text \<open>Initialisation and finalisation only allocate and free the table.\<close>

definition dummy_dev_init :: "(int \<Rightarrow> nat \<Rightarrow> nat) \<Rightarrow> string \<Rightarrow> dummy_state devops" where
  "dummy_dev_init rnd initstr = dummy_ops rnd"

definition dummy_dev_final :: "dummy_state devops \<times> os \<Rightarrow> int \<times> os" where
  "dummy_dev_final s = free_fd s"

subsection \<open>Description\<close>

definition dummy_numObjs :: nat where
  "dummy_numObjs = 1"

definition dummy_readObjs :: "nat \<Rightarrow> obj_type list \<Rightarrow> obj_type list res" where
  "dummy_readObjs n buf = fill [OBJ_CORE] buf"

definition dummy_numAttrs :: "obj_type \<Rightarrow> nat" where
  "dummy_numAttrs t = 2"

definition dummy_readAttrs :: "obj_type \<Rightarrow> nat \<Rightarrow> attr list \<Rightarrow> attr list res" where
  "dummy_readAttrs t n buf = fill [ATTR_ENERGY, ATTR_POWER] buf"

definition dummy_meta :: plugin_meta where
  "dummy_meta = \<lparr>numObjs = dummy_numObjs, readObjs = dummy_readObjs,
     numAttrs = dummy_numAttrs, readAttrs = dummy_readAttrs,
     getDevName = (\<lambda>_ len. strncpy len ''dummy_dev0''),
     getDevOpenStr = open_str_type_index,
     getDevInitStr = (\<lambda>_ len. strncpy len []),
     getPluginName = (\<lambda>len. strncpy len ''Dummy'')\<rparr>"

interpretation dummy_tab: meta_table dummy_meta "[OBJ_CORE]" "\<lambda>_. [ATTR_ENERGY, ATTR_POWER]"
  by unfold_locales
    (simp_all add: dummy_meta_def dummy_numObjs_def dummy_readObjs_def dummy_numAttrs_def
      dummy_readAttrs_def fill_exact)

interpretation dummy: careful_reader dummy_dev_read snd
  by unfold_locales
    (auto simp: dummy_dev_read_def dummy_getTimeSec_def getTime_def gettimeofday_def RET_SUCCESS_def Let_def
      split: prod.splits option.splits)

interpretation dummyw: attr_writer dummy_dev_write
  by unfold_locales (auto simp: dummy_dev_write_def Let_def res_simps RET_SUCCESS_def split: prod.splits)

subsection \<open>What the counters add up to\<close>

text \<open>The clock in seconds at the \<open>n\<close>-th call.\<close>

definition sec_at :: "os \<Rightarrow> nat \<Rightarrow> real" where
  "sec_at w n = of_int (tv_sec (clock w n) * 1000000000 + tv_usec (clock w n) * 1000) / 1000000000"

lemma dummy_getTimeSec_eq: "dummy_getTimeSec w = (sec_at w (ticks w), w\<lparr>ticks := Suc (ticks w)\<rparr>)"
  by (simp add: dummy_getTimeSec_def getTime_def gettimeofday_def sec_at_def)

lemma sec_at_ticks [simp]: "sec_at (w\<lparr>ticks := k\<rparr>) n = sec_at w n"
  by (simp add: sec_at_def)

lemma dummy_dev_read_eq:
  "du_value fd a = Some x \<Longrightarrow>
   dummy_dev_read (fd, w) a v len ts =
     (let now = sec_at w (ticks w); y = x + (now - lastAccess fd) * JOULES_PER_SEC
      in Inr ((RET_SUCCESS, Dbl y, (case ts of None \<Rightarrow> None | Some _ \<Rightarrow> Some (time_of_double now))),
              (fd\<lparr>du_value := (du_value fd)(a := Some y), lastAccess := now\<rparr>, w\<lparr>ticks := Suc (ticks w)\<rparr>)))"
  by (simp add: dummy_dev_read_def dummy_getTimeSec_eq Let_def)

text \<open>The reads of a list of attributes, one after the other.\<close>

fun dummy_reads :: "dummy_state \<Rightarrow> attr list \<Rightarrow> dummy_state res" where
  "dummy_reads s [] = Inr s"
| "dummy_reads s (a # as) =
     rbind (dummy_dev_read s a Uninit SIZEOF_DOUBLE None) (\<lambda>(_, s'). dummy_reads s' as)"

definition total :: "dummy_fd \<Rightarrow> real" where
  "total fd = (\<Sum>a\<leftarrow>all_attrs. case du_value fd a of Some x \<Rightarrow> x | None \<Rightarrow> 0)"

lemma total_update:
  assumes "du_value fd a = Some x"
  shows "total (fd\<lparr>du_value := (du_value fd)(a := Some y), lastAccess := t\<rparr>) = total fd + (y - x)"
proof -
  let ?f = "\<lambda>b. case du_value fd b of Some x \<Rightarrow> x | None \<Rightarrow> 0"
  have "sum_list (map (?f(a := y)) xs) = sum_list (map ?f xs) + (if a \<in> set xs then y - x else 0)"
    if "distinct xs" for xs
    using that assms by (induction xs) auto
  from this [OF distinct_all_attrs]
  have "sum_list (map (?f(a := y)) all_attrs) = sum_list (map ?f all_attrs) + (y - x)"
    by (simp add: set_all_attrs)
  moreover have "(\<lambda>b. case (if b = a then Some y else du_value fd b) of Some x \<Rightarrow> x | None \<Rightarrow> 0) = ?f(a := y)"
    by (auto simp: fun_eq_iff)
  ultimately show ?thesis by (simp add: total_def)
qed

text \<open>
  The time between two accesses is paid out once: over any sequence of reads the attributes together grow by 9.88 per
  second, so reading the power takes from the energy what it would have shown.
\<close>

lemma dummy_reads_total:
  "dummy_reads (fd, w) as = Inr (fd', w') \<Longrightarrow>
   total fd' - total fd = (lastAccess fd' - lastAccess fd) * JOULES_PER_SEC"
proof (induction as arbitrary: fd w)
  case (Cons a as)
  then obtain x where x: "du_value fd a = Some x"
    by (cases "du_value fd a") (auto simp: dummy_dev_read_def Let_def split: prod.splits)
  from Cons.IH Cons.prems show ?case
    by (fastforce simp: dummy_dev_read_eq [OF x] Let_def total_update [OF x] algebra_simps)
qed simp

end
