(* ===== verification/Pwr_Object.thy ===== *)
theory Pwr_Object
  imports Dummy_Dev
begin

text \<open>
  The objects of the framework: the error queue \<^verbatim>\<open>Status\<close> (\<^verbatim>\<open>src/pwr/status.h\<close>), the per-attribute
  record \<^verbatim>\<open>AttrInfo\<close> (\<^verbatim>\<open>src/pwr/attrInfo.h\<close>) with the operations that combine device values
  (\<^verbatim>\<open>src/pwr/distCntxt.cc\<close>), and the class \<^verbatim>\<open>Object\<close> (\<^verbatim>\<open>src/pwr/object.cc\<close>), whose reads and writes go
  to every device of the attribute in order.
\<close>

subsection \<open>Status\<close>

text \<open>
  An object is identified by its name, \<open>None\<close> being a null pointer.  \<^verbatim>\<open>Status::add\<close> leaves the field
  \<^verbatim>\<open>index\<close> of an error unset; it is not modelled.
\<close>

record access_error =
  err_obj :: "string option"
  err_name :: attr
  err_error :: int

type_synonym status = "access_error list"

definition status_empty :: "status \<Rightarrow> bool" where
  "status_empty st \<longleftrightarrow> st = []"

definition status_pop :: "status \<Rightarrow> int \<times> access_error option \<times> status" where
  "status_pop st = (case st of [] \<Rightarrow> (RET_EMPTY, None, []) | e # es \<Rightarrow> (RET_SUCCESS, Some e, es))"

definition status_add :: "status \<Rightarrow> string option \<Rightarrow> attr \<Rightarrow> int \<Rightarrow> status" where
  "status_add st ob a e = st @ [\<lparr>err_obj = ob, err_name = a, err_error = e\<rparr>]"

definition status_clear :: "status \<Rightarrow> int \<times> status" where
  "status_clear st = (RET_SUCCESS, [])"

text \<open>The status code both value calls end with.\<close>

definition status_ret :: "status \<Rightarrow> int" where
  "status_ret st = (if status_empty st then RET_SUCCESS else RET_STATUS)"

lemma status_ret_Nil [simp]: "status_ret [] = RET_SUCCESS"
  by (simp add: status_ret_def status_empty_def)

lemma status_ret_eq [simp]: "status_ret st = RET_SUCCESS \<longleftrightarrow> st = []"
  by (simp add: status_ret_def status_empty_def ret_defs)

lemma status_ret_add [simp]: "status_ret (status_add st ob a e) = RET_STATUS"
  by (simp add: status_ret_def status_empty_def status_add_def)

subsection \<open>AttrInfo and the combining operations\<close>

datatype value_op = NO_OP | FP_ADD | INT_ADD | FP_AVG | INT_AVG

text \<open>
  A communicator is determined by the set of remote objects it serves (\<^verbatim>\<open>DistCntxt::getCommunicator\<close>
  keeps one per set); \<open>None\<close> is the null pointer.  The operation may be a null pointer too.
\<close>

record 's attr_info =
  devices :: "'s devops list"
  comm :: "string set option"
  operation :: "(cell list \<Rightarrow> cell res) option"
  calcTime :: "pwr_time list \<Rightarrow> pwr_time res"
  valueOp :: value_op

definition isValid :: "'s attr_info \<Rightarrow> bool" where
  "isValid info \<longleftrightarrow> devices info \<noteq> [] \<or> comm info \<noteq> None"

fun sum_loop :: "real \<Rightarrow> cell list \<Rightarrow> real res" where
  "sum_loop tmp [] = Inr tmp"
| "sum_loop tmp (c # cs) = rbind (load_double c) (\<lambda>x. sum_loop (tmp + x) cs)"

definition sumOp :: "cell list \<Rightarrow> cell res" where
  "sumOp cs = rbind (sum_loop 0 cs) (\<lambda>x. Inr (Dbl x))"

definition avgOp :: "cell list \<Rightarrow> cell res" where
  "avgOp cs = rbind (sum_loop 0 cs) (\<lambda>x. Inr (Dbl (x / real (length cs))))"

definition timeOp :: "pwr_time list \<Rightarrow> pwr_time res" where
  "timeOp ts = arr_get ts 0"

lemma sum_loop_Dbl: "sum_loop tmp (map Dbl xs) = Inr (tmp + sum_list xs)"
  by (induction xs arbitrary: tmp) (simp_all add: algebra_simps)

lemma sumOp_Dbl [simp]: "sumOp (map Dbl xs) = Inr (Dbl (sum_list xs))"
  by (simp add: sumOp_def sum_loop_Dbl)

lemma avgOp_Dbl [simp]: "avgOp (map Dbl xs) = Inr (Dbl (sum_list xs / real (length xs)))"
  by (simp add: avgOp_def sum_loop_Dbl)

subsection \<open>Object: reading and writing values\<close>

record 's object =
  o_name :: string
  o_type :: obj_type
  attrInfo :: "attr \<Rightarrow> 's attr_info"

text \<open>
  The loop over the devices of \<^verbatim>\<open>attrGetValuesDevice\<close>: zero-initialised slots, the first failing device
  ends it.
\<close>

fun read_devices ::
  "'s devops list \<Rightarrow> attr \<Rightarrow> 's \<Rightarrow> ((int \<times> cell list \<times> pwr_time list) \<times> 's) res" where
  "read_devices [] a s = Inr ((RET_SUCCESS, [], []), s)"
| "read_devices (d # ds) a s =
     rbind (getValue d s a (U64 0) 8 (Some 0)) (\<lambda>((rc, v, t), s').
     if rc \<noteq> RET_SUCCESS then Inr ((rc, [], []), s')
     else rbind (read_devices ds a s') (\<lambda>((rc', vs, ts), s'').
          Inr ((rc', v # vs, (case t of Some u \<Rightarrow> u | None \<Rightarrow> 0) # ts), s'')))"

definition attrGetValuesDevice ::
  "'s attr_info \<Rightarrow> attr \<Rightarrow> 's \<Rightarrow> cell \<Rightarrow> pwr_time \<Rightarrow> ((int \<times> cell \<times> pwr_time) \<times> 's) res" where
  "attrGetValuesDevice info a s buf t =
     rbind (read_devices (devices info) a s) (\<lambda>((rc, vs, ts), s').
     if rc \<noteq> RET_SUCCESS then Inr ((rc, buf, t), s')
     else if devices info = [] then Inr ((RET_SUCCESS, buf, t), s')
     else case operation info of
        None \<Rightarrow> Inl NullCall
      | Some opf \<Rightarrow> rbind (opf vs) (\<lambda>v. rbind (calcTime info ts) (\<lambda>u. Inr ((RET_SUCCESS, v, u), s'))))"

text \<open>
  \<open>off\<close> is where the caller's pointers \<^verbatim>\<open>buf\<close> and \<^verbatim>\<open>ts\<close> point to in the arrays (groups pass
  \<^verbatim>\<open>ptr + i * num\<close>); \<open>i\<close> is the loop counter.
\<close>

fun get_values_loop ::
  "'s object \<Rightarrow> nat \<Rightarrow> attr list \<Rightarrow> 's \<Rightarrow> cell list \<Rightarrow> pwr_time list \<Rightarrow> status
   \<Rightarrow> ((cell list \<times> pwr_time list \<times> status) \<times> 's) res" where
  "get_values_loop ob i [] s buf ts st = Inr ((buf, ts, st), s)"
| "get_values_loop ob i (a # as) s buf ts st =
     rbind (arr_set buf i (U64 0)) (\<lambda>buf0.
     rbind (arr_set ts i 0) (\<lambda>ts0.
     if \<not> isValid (attrInfo ob a) then
       Inr ((buf0, ts0, status_add st (Some (o_name ob)) a RET_INVALID), s)
     else
       rbind (attrGetValuesDevice (attrInfo ob a) a s (U64 0) 0) (\<lambda>((rc, v, t), s').
       if rc \<noteq> RET_SUCCESS then
         Inr ((buf0[i := v], ts0[i := t], status_add st (Some (o_name ob)) a rc), s')
       else get_values_loop ob (Suc i) as s' (buf0[i := v]) (ts0[i := t]) st)))"

definition attrGetValues ::
  "'s object \<Rightarrow> nat \<Rightarrow> attr list \<Rightarrow> 's \<Rightarrow> cell list \<Rightarrow> pwr_time list \<Rightarrow> status
   \<Rightarrow> ((int \<times> cell list \<times> pwr_time list \<times> status) \<times> 's) res" where
  "attrGetValues ob off as s buf ts st =
     rbind (get_values_loop ob off as s buf ts st) (\<lambda>((buf', ts', st'), s').
     Inr ((status_ret st', buf', ts', st'), s'))"

text \<open>The same buffer goes to one device after the other; a device may change it.\<close>

fun attrSetValuesDevice ::
  "'s devops list \<Rightarrow> attr \<Rightarrow> 's \<Rightarrow> cell \<Rightarrow> ((int \<times> cell) \<times> 's) res" where
  "attrSetValuesDevice [] a s buf = Inr ((RET_SUCCESS, buf), s)"
| "attrSetValuesDevice (d # ds) a s buf =
     rbind (setValue d s a buf 8) (\<lambda>((rc, buf'), s').
     if rc \<noteq> RET_SUCCESS then Inr ((rc, buf'), s') else attrSetValuesDevice ds a s' buf')"

fun set_values_loop ::
  "'s object \<Rightarrow> nat \<Rightarrow> attr list \<Rightarrow> 's \<Rightarrow> cell list \<Rightarrow> status \<Rightarrow> ((cell list \<times> status) \<times> 's) res" where
  "set_values_loop ob i [] s buf st = Inr ((buf, st), s)"
| "set_values_loop ob i (a # as) s buf st =
     (if \<not> isValid (attrInfo ob a) then
        Inr ((buf, status_add st (Some (o_name ob)) a RET_INVALID), s)
      else
        rbind (arr_get buf i) (\<lambda>v.
        rbind (attrSetValuesDevice (devices (attrInfo ob a)) a s v) (\<lambda>((rc, v'), s').
        if rc \<noteq> RET_SUCCESS then
          Inr ((buf[i := v'], status_add st (Some (o_name ob)) a rc), s')
        else set_values_loop ob (Suc i) as s' (buf[i := v']) st)))"

definition attrSetValues ::
  "'s object \<Rightarrow> attr list \<Rightarrow> 's \<Rightarrow> cell list \<Rightarrow> status \<Rightarrow> ((int \<times> cell list \<times> status) \<times> 's) res" where
  "attrSetValues ob as s buf st =
     rbind (set_values_loop ob 0 as s buf st) (\<lambda>((buf', st'), s').
     Inr ((status_ret st', buf', st'), s'))"

text \<open>The scalar calls: one attribute, a local queue, and the error popped from it asserted to exist.\<close>

definition pop_error :: "status \<Rightarrow> int res" where
  "pop_error st =
     (let (rc, e, _) = status_pop st
      in c_assert (rc = RET_SUCCESS) (case e of Some x \<Rightarrow> Inr (err_error x) | None \<Rightarrow> Inl UninitRead))"

definition attrGetValue ::
  "'s object \<Rightarrow> attr \<Rightarrow> 's \<Rightarrow> cell \<Rightarrow> pwr_time \<Rightarrow> ((int \<times> cell list \<times> pwr_time list) \<times> 's) res" where
  "attrGetValue ob a s v t =
     rbind (attrGetValues ob 0 [a] s [v] [t] []) (\<lambda>((rc, buf', ts', st'), s').
     if rc \<noteq> RET_SUCCESS then rbind (pop_error st') (\<lambda>e. Inr ((e, buf', ts'), s'))
     else Inr ((RET_SUCCESS, buf', ts'), s'))"

definition attrSetValue :: "'s object \<Rightarrow> attr \<Rightarrow> 's \<Rightarrow> cell \<Rightarrow> ((int \<times> cell list) \<times> 's) res" where
  "attrSetValue ob a s v =
     rbind (attrSetValues ob [a] s [v] []) (\<lambda>((rc, buf', st'), s').
     if rc \<noteq> RET_SUCCESS then rbind (pop_error st') (\<lambda>e. Inr ((e, buf'), s'))
     else Inr ((RET_SUCCESS, buf'), s'))"

subsection \<open>Object: logging and samples\<close>

fun log_devices :: "('s devops \<Rightarrow> 's \<Rightarrow> (int \<times> 's) res) \<Rightarrow> 's devops list \<Rightarrow> 's \<Rightarrow> (int \<times> 's) res" where
  "log_devices f [] s = Inr (RET_SUCCESS, s)"
| "log_devices f (d # ds) s =
     rbind (f d s) (\<lambda>(rc, s'). if rc \<noteq> RET_SUCCESS then Inr (rc, s') else log_devices f ds s')"

definition attrStartLog :: "'s object \<Rightarrow> attr \<Rightarrow> 's \<Rightarrow> (int \<times> 's) res" where
  "attrStartLog ob a s =
     (if \<not> isValid (attrInfo ob a) then Inr (RET_FAILURE, s)
      else log_devices (\<lambda>d s. startLog d s a) (devices (attrInfo ob a)) s)"

definition attrStopLog :: "'s object \<Rightarrow> attr \<Rightarrow> 's \<Rightarrow> (int \<times> 's) res" where
  "attrStopLog ob a s =
     (if \<not> isValid (attrInfo ob a) then Inr (RET_FAILURE, s)
      else log_devices (\<lambda>d s. stopLog d s a) (devices (attrInfo ob a)) s)"

text \<open>
  \<^verbatim>\<open>((uint64_t*)buf)[i] += data[i]\<close> adds bit patterns: defined here when one of them is all zeros.
\<close>

definition add_bits :: "cell \<Rightarrow> cell \<Rightarrow> cell res" where
  "add_bits b d =
     (case (b, d) of
        (U64 x, U64 y) \<Rightarrow> Inr (U64 (x + y))
      | (U64 x, Dbl y) \<Rightarrow> if x = 0 then Inr (Dbl y) else Inl UninitRead
      | (Dbl x, Dbl y) \<Rightarrow> if x = 0 then Inr (Dbl y) else Inl UninitRead
      | _ \<Rightarrow> Inl UninitRead)"

fun add_samples :: "cell list \<Rightarrow> cell list \<Rightarrow> cell list res" where
  "add_samples buf [] = Inr buf"
| "add_samples [] (d # ds) = Inl MemoryFault"
| "add_samples (b # bs) (d # ds) =
     rbind (add_bits b d) (\<lambda>b'. rbind (add_samples bs ds) (\<lambda>bs'. Inr (b' # bs')))"

text \<open>
  At most one device.  The number of samples the device returns stays in a local: the caller's count
  is not changed, and as many samples as were asked for are added to the buffer.
\<close>

definition attrGetSamples ::
  "'s object \<Rightarrow> attr \<Rightarrow> 's \<Rightarrow> pwr_time option \<Rightarrow> real \<Rightarrow> nat \<Rightarrow> cell list
   \<Rightarrow> ((int \<times> pwr_time option \<times> cell list) \<times> 's) res" where
  "attrGetSamples ob a s start period count buf =
     (if \<not> isValid (attrInfo ob a) then Inr ((RET_FAILURE, start, buf), s)
      else case devices (attrInfo ob a) of
         [] \<Rightarrow> Inr ((RET_SUCCESS, start, buf), s)
       | [d] \<Rightarrow> rbind (getSamples d s a period count (replicate count (U64 0))) (\<lambda>((rc, t, n, data), s').
                 if rc \<noteq> RET_SUCCESS then Inr ((rc, start, buf), s')
                 else rbind (add_samples buf data) (\<lambda>buf'. Inr ((RET_SUCCESS, t, buf'), s')))
       | _ \<Rightarrow> Inl AssertFailed)"

subsection \<open>Reading: which devices are asked, and what is combined\<close>

text \<open>
  \<open>reads a s ds xs us s'\<close>: asked one after the other from state \<open>s\<close>, all of \<open>ds\<close> succeed with the numbers
  \<open>xs\<close> and the time stamps \<open>us\<close> and leave state \<open>s'\<close>.
\<close>

inductive reads :: "attr \<Rightarrow> 's \<Rightarrow> 's devops list \<Rightarrow> real list \<Rightarrow> pwr_time list \<Rightarrow> 's \<Rightarrow> bool" for a where
  reads_Nil: "reads a s [] [] [] s"
| reads_Cons: "getValue d s a (U64 0) 8 (Some 0) = Inr ((RET_SUCCESS, Dbl x, Some u), s1) \<Longrightarrow>
    reads a s1 ds xs us s2 \<Longrightarrow> reads a s (d # ds) (x # xs) (u # us) s2"

inductive_cases reads_NilE [elim!]: "reads a s [] xs us s'"
inductive_cases reads_ConsE [elim!]: "reads a s (d # ds) xs us s'"
inductive_simps reads_Nil_iff [simp]: "reads a s [] xs us s'"

lemma reads_length: "reads a s ds xs us s' \<Longrightarrow> length xs = length ds \<and> length us = length ds"
  by (induction rule: reads.induct) simp_all

lemma read_devices_reads:
  "reads a s ds xs us s' \<Longrightarrow> read_devices ds a s = Inr ((RET_SUCCESS, map Dbl xs, us), s')"
  by (induction rule: reads.induct) simp_all

lemma read_devices_fail:
  "reads a s ds1 xs us s1 \<Longrightarrow> getValue d s1 a (U64 0) 8 (Some 0) = Inr ((rc, v, t), s2) \<Longrightarrow>
   rc \<noteq> RET_SUCCESS \<Longrightarrow> \<exists>vs ts. read_devices (ds1 @ d # ds2) a s = Inr ((rc, vs, ts), s2)"
  by (induction rule: reads.induct) auto

lemma attrGetValuesDevice_reads:
  assumes "reads a s (devices info) xs us s'" and "devices info \<noteq> []"
    and "operation info = Some opf" and "calcTime info = timeOp" and "opf (map Dbl xs) = Inr v"
  shows "attrGetValuesDevice info a s buf t = Inr ((RET_SUCCESS, v, us ! 0), s')"
proof -
  have "us \<noteq> []" using reads_length [OF assms(1)] assms(2) by auto
  then show ?thesis
    using assms(2-) by (simp add: attrGetValuesDevice_def read_devices_reads [OF assms(1)] timeOp_def arr_get_ok)
qed

lemma attrGetValuesDevice_fail:
  assumes "reads a s ds1 xs us s1" and "devices info = ds1 @ d # ds2"
    and "getValue d s1 a (U64 0) 8 (Some 0) = Inr ((rc, v, t), s2)" and "rc \<noteq> RET_SUCCESS"
  shows "attrGetValuesDevice info a s buf u = Inr ((rc, buf, u), s2)"
  using read_devices_fail [OF assms(1,3,4), of ds2] assms(2,4) by (auto simp: attrGetValuesDevice_def)

lemma pop_error_single [simp]: "pop_error [e] = Inr (err_error e)"
  by (simp add: pop_error_def status_pop_def)

text \<open>A call for one attribute is decided by the device part.\<close>

lemma attrGetValue_unfold:
  "attrGetValue ob a s v t =
     (if \<not> isValid (attrInfo ob a) then Inr ((RET_INVALID, [U64 0], [0]), s)
      else rbind (attrGetValuesDevice (attrInfo ob a) a s (U64 0) 0) (\<lambda>((rc, v', t'), s').
           Inr ((rc, [v'], [t']), s')))"
  by (auto simp: attrGetValue_def attrGetValues_def arr_set_ok status_add_def status_ret_def status_empty_def
      ret_defs split: rbind_split)

text \<open>
  C6.  Reading an attribute of an object asks its devices in their order.  If all answer, the value is
  the sum (for a \<^verbatim>\<open>SUM\<close> attribute) or the mean (for \<^verbatim>\<open>AVG\<close>) of their values and the time stamp
  that of the first; if one fails, its error is the result, value and time stamp are zero, and the
  devices after it are not asked.
\<close>

theorem object_aggregates:
  assumes "reads a s ds1 xs us s1" and "calcTime (attrInfo ob a) = timeOp"
  shows "(devices (attrInfo ob a) = ds1 \<and> ds1 \<noteq> [] \<and> operation (attrInfo ob a) = Some sumOp \<longrightarrow>
            attrGetValue ob a s v t = Inr ((RET_SUCCESS, [Dbl (sum_list xs)], [us ! 0]), s1)) \<and>
         (devices (attrInfo ob a) = ds1 \<and> ds1 \<noteq> [] \<and> operation (attrInfo ob a) = Some avgOp \<longrightarrow>
            attrGetValue ob a s v t =
              Inr ((RET_SUCCESS, [Dbl (sum_list xs / real (length ds1))], [us ! 0]), s1)) \<and>
         (\<forall>d ds2 rc w u s2. devices (attrInfo ob a) = ds1 @ d # ds2 \<longrightarrow>
            getValue d s1 a (U64 0) 8 (Some 0) = Inr ((rc, w, u), s2) \<longrightarrow> rc \<noteq> RET_SUCCESS \<longrightarrow>
            attrGetValue ob a s v t = Inr ((rc, [U64 0], [0]), s2))"
  using assms reads_length [OF assms(1)]
  by (auto simp: attrGetValue_unfold isValid_def attrGetValuesDevice_reads attrGetValuesDevice_fail)

subsection \<open>Several attributes\<close>

lemma get_values_loop_lengths:
  "get_values_loop ob i as s buf ts st = Inr ((buf', ts', st'), s') \<Longrightarrow>
   length buf' = length buf \<and> length ts' = length ts"
  by (induction ob i as s buf ts st arbitrary: buf' ts' st' s' rule: get_values_loop.induct)
    (fastforce simp: res_simps split: if_splits)+

lemma attrGetValuesDevice_fail_keeps:
  "attrGetValuesDevice info a s buf t = Inr ((rc, v, u), s') \<Longrightarrow> rc \<noteq> RET_SUCCESS \<Longrightarrow> v = buf \<and> u = t"
  by (auto simp: attrGetValuesDevice_def res_simps split: if_splits option.splits)

text \<open>How the loop ends: through, or at the first attribute that fails.\<close>

definition stopped_at ::
  "'s object \<Rightarrow> nat \<Rightarrow> attr list \<Rightarrow> nat \<Rightarrow> int \<Rightarrow> cell list \<Rightarrow> pwr_time list \<Rightarrow> status
   \<Rightarrow> cell list \<Rightarrow> pwr_time list \<Rightarrow> status \<Rightarrow> bool" where
  "stopped_at ob off as k e buf ts st buf' ts' st' \<longleftrightarrow>
     k < length as \<and> e \<noteq> RET_SUCCESS \<and>
     (\<not> isValid (attrInfo ob (as ! k)) \<longrightarrow> e = RET_INVALID) \<and>
     (\<forall>j<k. isValid (attrInfo ob (as ! j))) \<and>
     st' = status_add st (Some (o_name ob)) (as ! k) e \<and>
     buf' ! (off + k) = U64 0 \<and> ts' ! (off + k) = 0 \<and>
     drop (off + Suc k) buf' = drop (off + Suc k) buf \<and> drop (off + Suc k) ts' = drop (off + Suc k) ts"

lemma get_values_loop_ConsE:
  assumes "get_values_loop ob i (a # as) s buf ts st = Inr (r, s')"
  obtains
    (invalid) "\<not> isValid (attrInfo ob a)" "i < length buf" "i < length ts"
      "r = (buf[i := U64 0], ts[i := 0], status_add st (Some (o_name ob)) a RET_INVALID)"
  | (fails) rc v t where "isValid (attrInfo ob a)" "i < length buf" "i < length ts" "rc \<noteq> RET_SUCCESS"
      "attrGetValuesDevice (attrInfo ob a) a s (U64 0) 0 = Inr ((rc, v, t), s')"
      "r = (buf[i := v], ts[i := t], status_add st (Some (o_name ob)) a rc)"
  | (goes_on) v t s1 where "isValid (attrInfo ob a)" "i < length buf" "i < length ts"
      "attrGetValuesDevice (attrInfo ob a) a s (U64 0) 0 = Inr ((RET_SUCCESS, v, t), s1)"
      "get_values_loop ob (Suc i) as s1 (buf[i := v]) (ts[i := t]) st = Inr (r, s')"
  using assms by (auto simp: arr_set_def res_simps split: prod.splits if_splits)

lemma get_values_loop_end:
  "get_values_loop ob i as s buf ts st = Inr ((buf', ts', st'), s') \<Longrightarrow>
   (st' = st \<and> (\<forall>a\<in>set as. isValid (attrInfo ob a))) \<or>
   (\<exists>k e. stopped_at ob i as k e buf ts st buf' ts' st')"
proof (induction as arbitrary: i s buf ts)
  case (Cons a as)
  from Cons.prems show ?case
  proof (cases rule: get_values_loop_ConsE)
    case invalid
    then have "stopped_at ob i (a # as) 0 RET_INVALID buf ts st buf' ts' st'"
      by (auto simp: stopped_at_def ret_defs)
    then show ?thesis by blast
  next
    case (fails rc v t)
    with attrGetValuesDevice_fail_keeps [OF fails(5)]
    have "stopped_at ob i (a # as) 0 rc buf ts st buf' ts' st'" by (auto simp: stopped_at_def)
    then show ?thesis by blast
  next
    case (goes_on v t s1)
    from Cons.IH [OF goes_on(5)] show ?thesis
    proof
      assume "\<exists>k e. stopped_at ob (Suc i) as k e (buf[i := v]) (ts[i := t]) st buf' ts' st'"
      then obtain k e where "stopped_at ob (Suc i) as k e (buf[i := v]) (ts[i := t]) st buf' ts' st'" by blast
      then have "stopped_at ob i (a # as) (Suc k) e buf ts st buf' ts' st'"
        using goes_on(1) by (auto simp: stopped_at_def All_less_Suc2)
      then show ?thesis by blast
    qed (use goes_on(1) in auto)
  qed
qed simp


subsection \<open>Writing\<close>

text \<open>\<open>writes a s v ds v' s'\<close>: all of \<open>ds\<close> accept the write, one after the other.\<close>

inductive writes :: "attr \<Rightarrow> 's \<Rightarrow> cell \<Rightarrow> 's devops list \<Rightarrow> cell \<Rightarrow> 's \<Rightarrow> bool" for a where
  writes_Nil: "writes a s v [] v s"
| writes_Cons: "setValue d s a v 8 = Inr ((RET_SUCCESS, v1), s1) \<Longrightarrow> writes a s1 v1 ds v2 s2 \<Longrightarrow>
    writes a s v (d # ds) v2 s2"

inductive_simps writes_Nil_iff [simp]: "writes a s v [] v' s'"
inductive_cases writes_ConsE [elim!]: "writes a s v (d # ds) v' s'"

lemma attrSetValuesDevice_writes:
  "writes a s v ds v' s' \<Longrightarrow> attrSetValuesDevice ds a s v = Inr ((RET_SUCCESS, v'), s')"
  by (induction rule: writes.induct) simp_all

lemma attrSetValuesDevice_fail:
  "writes a s v ds1 v1 s1 \<Longrightarrow> setValue d s1 a v1 8 = Inr ((rc, v2), s2) \<Longrightarrow> rc \<noteq> RET_SUCCESS \<Longrightarrow>
   attrSetValuesDevice (ds1 @ d # ds2) a s v = Inr ((rc, v2), s2)"
  by (induction rule: writes.induct) simp_all

lemma attrSetValue_unfold:
  "attrSetValue ob a s v =
     (if \<not> isValid (attrInfo ob a) then Inr ((RET_INVALID, [v]), s)
      else rbind (attrSetValuesDevice (devices (attrInfo ob a)) a s v) (\<lambda>((rc, v'), s').
           Inr ((rc, [v']), s')))"
  by (auto simp: attrSetValue_def attrSetValues_def arr_get_ok status_add_def status_ret_def status_empty_def
      ret_defs split: rbind_split)

text \<open>
  Writing an attribute of an object goes to its devices in their order and stops at the first that
  refuses, whose error is the result: the devices before it keep the new value (nothing is rolled back) and
  the devices after it are not written.
\<close>

theorem object_writes_partially:
  assumes "writes a s v ds1 v1 s1"
  shows "(devices (attrInfo ob a) = ds1 \<longrightarrow> ds1 \<noteq> [] \<longrightarrow>
            attrSetValue ob a s v = Inr ((RET_SUCCESS, [v1]), s1)) \<and>
         (\<forall>d ds2 rc v2 s2. devices (attrInfo ob a) = ds1 @ d # ds2 \<longrightarrow>
            setValue d s1 a v1 8 = Inr ((rc, v2), s2) \<longrightarrow> rc \<noteq> RET_SUCCESS \<longrightarrow>
            attrSetValue ob a s v = Inr ((rc, [v2]), s2))"
  using assms
  by (auto simp: attrSetValue_unfold isValid_def attrSetValuesDevice_writes attrSetValuesDevice_fail)

subsection \<open>Devices of one process\<close>

text \<open>
  Several open descriptors of a plugin in one world: the table of the \<open>i\<close>-th works on its own descriptor and
  on the world they share.
\<close>

definition on_fd :: "nat \<Rightarrow> ('f \<times> os \<Rightarrow> ('r \<times> 'f \<times> os) res) \<Rightarrow> 'f list \<times> os \<Rightarrow> ('r \<times> 'f list \<times> os) res" where
  "on_fd i f s =
     rbind (arr_get (fst s) i) (\<lambda>fd.
     rbind (f (fd, snd s)) (\<lambda>(r, (fd', w')). Inr (r, ((fst s)[i := fd'], w'))))"

definition nth_dev :: "('f \<times> os) devops \<Rightarrow> nat \<Rightarrow> ('f list \<times> os) devops" where
  "nth_dev ops i =
     \<lparr>d_read = (\<lambda>s a v len t. on_fd i (\<lambda>s. d_read ops s a v len t) s),
      d_write = (\<lambda>s a v len. on_fd i (\<lambda>s. d_write ops s a v len) s),
      d_readv = map_option (\<lambda>f s as vs ts st. on_fd i (\<lambda>s. f s as vs ts st) s) (d_readv ops),
      d_writev = map_option (\<lambda>f s as vs st. on_fd i (\<lambda>s. f s as vs st) s) (d_writev ops),
      d_log_start = map_option (\<lambda>f s a. on_fd i (\<lambda>s. f s a) s) (d_log_start ops),
      d_log_stop = map_option (\<lambda>f s a. on_fd i (\<lambda>s. f s a) s) (d_log_stop ops),
      d_get_samples = map_option (\<lambda>f s a p n buf. on_fd i (\<lambda>s. f s a p n buf) s) (d_get_samples ops)\<rparr>"

lemma getValue_nth_dev:
  "i < length fs \<Longrightarrow> d_read ops (fs ! i, w) a v len t = Inr (r, (f', w')) \<Longrightarrow>
   getValue (nth_dev ops i) (fs, w) a v len t = Inr (r, (fs[i := f'], w'))"
  by (simp add: getValue_def nth_dev_def on_fd_def arr_get_ok)

lemma setValue_nth_dev:
  "i < length fs \<Longrightarrow> d_write ops (fs ! i, w) a v len = Inr (r, (f', w')) \<Longrightarrow>
   setValue (nth_dev ops i) (fs, w) a v len = Inr (r, (fs[i := f'], w'))"
  by (simp add: setValue_def nth_dev_def on_fd_def arr_get_ok)

text \<open>Two dummy devices behind one object.\<close>

definition du_demo_fd :: "real \<Rightarrow> dummy_fd" where
  "du_demo_fd x = \<lparr>du_value = (\<lambda>_. None)(ATTR_ENERGY := Some x), du_stamp = (\<lambda>_. None), lastAccess = 0\<rparr>"

definition du_demo_os :: os where
  "du_demo_os = \<lparr>files = Map.empty, can_write = (\<lambda>_. False), store = (\<lambda>_ _ _. None), wlog = [], fds = 0,
     clock = (\<lambda>_. \<lparr>tv_sec = 0, tv_usec = 0\<rparr>), ticks = 0, msr = (\<lambda>_ _. None)\<rparr>"

definition du_dev :: "nat \<Rightarrow> (dummy_fd list \<times> os) devops" where
  "du_dev i = nth_dev (dummy_ops (\<lambda>_ _. 0)) i"

definition du_demo_obj :: "string \<Rightarrow> nat list \<Rightarrow> (dummy_fd list \<times> os) object" where
  "du_demo_obj name ds =
     \<lparr>o_name = name, o_type = OBJ_NODE,
      attrInfo = (\<lambda>a. \<lparr>devices = (if a = ATTR_ENERGY then map du_dev ds else []), comm = None,
        operation = Some sumOp, calcTime = timeOp, valueOp = FP_ADD\<rparr>)\<rparr>"

lemma du_dev_read:
  assumes "i < length fs" and "du_value (fs ! i) a = Some x" and "clock w = clock du_demo_os"
    and "lastAccess (fs ! i) = 0"
  shows "getValue (du_dev i) (fs, w) a v len (Some t) =
    Inr ((RET_SUCCESS, Dbl x, Some 0),
         (fs[i := (fs ! i)\<lparr>du_value := (du_value (fs ! i))(a := Some x), lastAccess := 0\<rparr>],
          w\<lparr>ticks := Suc (ticks w)\<rparr>))"
proof -
  have s: "sec_at w n = 0" for n using assms(3) by (simp add: sec_at_def du_demo_os_def)
  show ?thesis
    unfolding du_dev_def
    by (rule getValue_nth_dev [OF assms(1)])
      (simp add: dummy_ops_def dummy_dev_read_eq [OF assms(2)] s assms(4) Let_def time_of_double_def trunc_def)
qed

lemma du_demo_reads:
  "reads ATTR_ENERGY ([du_demo_fd 5, du_demo_fd 7], du_demo_os) [du_dev 0, du_dev 1] [5, 7] [0, 0]
     ([du_demo_fd 5, du_demo_fd 7], du_demo_os\<lparr>ticks := 2\<rparr>)"
proof -
  have f: "(du_demo_fd x)\<lparr>du_value := (du_value (du_demo_fd x))(ATTR_ENERGY := Some x), lastAccess := 0\<rparr> = du_demo_fd x"
    for x by (simp add: du_demo_fd_def)
  have v: "du_value (du_demo_fd x) ATTR_ENERGY = Some x" "lastAccess (du_demo_fd x) = 0" for x
    by (simp_all add: du_demo_fd_def)
  have t: "ticks du_demo_os = 0" by (simp add: du_demo_os_def)
  show ?thesis
    by (rule reads_Cons, subst du_dev_read [where x = 5], simp_all add: v f t)
      (rule reads_Cons, subst du_dev_read [where x = 7], simp_all add: v f numeral_2_eq_2)
qed

theorem object_aggregates_witness:
  "attrGetValue (du_demo_obj ''n'' [0, 1]) ATTR_ENERGY ([du_demo_fd 5, du_demo_fd 7], du_demo_os) Uninit 9 =
     Inr ((RET_SUCCESS, [Dbl 12], [0]), ([du_demo_fd 5, du_demo_fd 7], du_demo_os\<lparr>ticks := 2\<rparr>))"
  using object_aggregates [OF du_demo_reads, of "du_demo_obj ''n'' [0, 1]" Uninit 9]
  by (simp add: du_demo_obj_def)


theorem object_writes_partially_witness:
  "attrSetValue (du_demo_obj ''n'' [0]) ATTR_ENERGY ([du_demo_fd 5], du_demo_os) (Dbl 3) =
     Inr ((RET_SUCCESS, [Dbl 3]), ([du_demo_fd 3], du_demo_os\<lparr>ticks := 1\<rparr>))"
proof -
  have "setValue (du_dev 0) ([du_demo_fd 5], du_demo_os) ATTR_ENERGY (Dbl 3) 8 =
      Inr ((RET_SUCCESS, Dbl 3), ([du_demo_fd 5][0 := du_demo_fd 3], du_demo_os\<lparr>ticks := 1\<rparr>))"
    unfolding du_dev_def
    by (rule setValue_nth_dev)
      (simp_all add: dummy_ops_def dummy_dev_write_def dummy_getTimeSec_eq sec_at_def du_demo_os_def du_demo_fd_def)
  then have "writes ATTR_ENERGY ([du_demo_fd 5], du_demo_os) (Dbl 3) [du_dev 0] (Dbl 3)
      ([du_demo_fd 3], du_demo_os\<lparr>ticks := 1\<rparr>)"
    by (auto intro: writes.intros)
  from object_writes_partially [OF this, of "du_demo_obj ''n'' [0]"] show ?thesis
    by (simp add: du_demo_obj_def)
qed

end
