(* ===== verification/Pwr_Dist.thy ===== *)
theory Pwr_Dist
  imports Pwr_Object
begin

text \<open>
  Objects and groups of a distributed context (\<^verbatim>\<open>src/pwr/distObject.cc\<close>, \<^verbatim>\<open>distComm.cc\<close>,
  \<^verbatim>\<open>distRequest.cc\<close>, \<^verbatim>\<open>distGroup.cc\<close>, \<^verbatim>\<open>distGrpComm.cc\<close>, and the base class of \<^verbatim>\<open>group.h\<close>), as the
  blocking calls of the API use them: the local devices are read first, then, if the attribute has
  remote members, one request is sent over the event channel and its answer is waited for.

  The channel is a socket: the events it will deliver are an input list, an empty one being a
  broken connection.  A request object is identified by a fresh number, which the answer carries; an
  event with another number belongs to an earlier request whose stack frame is gone.
\<close>

subsection \<open>Events and the channel\<close>

record resp_event =
  ev_id :: nat
  ev_value :: "cell list list"
  ev_timeStamp :: "pwr_time list list"
  ev_errObj :: "string list"
  ev_errAttr :: "attr list"
  ev_errValue :: "int list"
  ev_startTime :: pwr_time
  ev_data :: "cell list"

datatype sent =
    CommCreate "string set list"
  | CommGet nat "attr list" "value_op list"
  | CommSet nat "attr list" "cell list"
  | CommStart nat attr
  | CommStop nat attr
  | CommSamples nat attr "pwr_time option" real nat

text \<open>\<open>created\<close> holds the communicators whose \<^verbatim>\<open>m_ec\<close> is set, that is, which announced their members.\<close>

record net =
  channel :: bool
  inbox :: "resp_event list"
  outbox :: "sent list"
  created :: "string set list"
  next_id :: nat

definition send :: "sent \<Rightarrow> net \<Rightarrow> net" where
  "send e n = n\<lparr>outbox := outbox n @ [e]\<rparr>"

definition getChannel :: "string set \<Rightarrow> net \<Rightarrow> net res" where
  "getChannel c n =
     (if c \<in> set (created n) then Inr n
      else c_assert (channel n) (Inr (send (CommCreate [c]) n\<lparr>created := c # created n\<rparr>)))"

definition new_req :: "net \<Rightarrow> nat \<times> net" where
  "new_req n = (next_id n, n\<lparr>next_id := Suc (next_id n)\<rparr>)"

subsection \<open>Taking an answer apart\<close>

text \<open>\<open>look\<close> is \<^verbatim>\<open>PWR_CntxtGetObjByName\<close>: the object of a name, or a null pointer.\<close>

fun add_errors ::
  "(string \<Rightarrow> string option) \<Rightarrow> string list \<Rightarrow> attr list \<Rightarrow> int list \<Rightarrow> status \<Rightarrow> status res" where
  "add_errors look os as [] st = Inr st"
| "add_errors look (x # os) (a # as) (e # es) st =
     add_errors look os as es (status_add st (look x) a e)"
| "add_errors look os as (e # es) st = Inl MemoryFault"

text \<open>One row of values, stored from \<open>off\<close> on; the time stamps are indexed by the row of values.\<close>

fun store_row ::
  "nat \<Rightarrow> cell list \<Rightarrow> pwr_time list \<Rightarrow> cell list \<Rightarrow> pwr_time list \<Rightarrow> (cell list \<times> pwr_time list) res" where
  "store_row off [] us buf ts = Inr (buf, ts)"
| "store_row off (v # vs) (u # us) buf ts =
     rbind (arr_set buf off v) (\<lambda>buf'. rbind (arr_set ts off u) (\<lambda>ts'. store_row (Suc off) vs us buf' ts'))"
| "store_row off (v # vs) [] buf ts = Inl MemoryFault"

fun store_rows ::
  "nat list \<Rightarrow> cell list list \<Rightarrow> pwr_time list list \<Rightarrow> cell list \<Rightarrow> pwr_time list
   \<Rightarrow> (cell list \<times> pwr_time list) res" where
  "store_rows [] vss uss buf ts = Inr (buf, ts)"
| "store_rows (off # offs) (vs # vss) (us # uss) buf ts =
     rbind (store_row off vs us buf ts) (\<lambda>(buf', ts'). store_rows offs vss uss buf' ts')"
| "store_rows (off # offs) (vs # vss) [] buf ts =
     (if vs = [] then store_rows offs vss [] buf ts else Inl MemoryFault)"
| "store_rows (off # offs) [] uss buf ts = Inl MemoryFault"

text \<open>\<^verbatim>\<open>DistRequest::getValue\<close> with the pointers \<^verbatim>\<open>value[i]\<close>, \<^verbatim>\<open>timeStamp[i]\<close> at \<open>offs ! i\<close>.\<close>

definition req_getValue ::
  "(string \<Rightarrow> string option) \<Rightarrow> nat list \<Rightarrow> resp_event \<Rightarrow> cell list \<Rightarrow> pwr_time list \<Rightarrow> status
   \<Rightarrow> (cell list \<times> pwr_time list \<times> status) res" where
  "req_getValue look offs ev buf ts st =
     c_assert (length offs = length (ev_value ev))
       (rbind (store_rows offs (ev_value ev) (ev_timeStamp ev) buf ts) (\<lambda>(buf', ts').
        rbind (add_errors look (ev_errObj ev) (ev_errAttr ev) (ev_errValue ev) st) (\<lambda>st'.
        Inr (buf', ts', st'))))"

definition req_setValue :: "(string \<Rightarrow> string option) \<Rightarrow> resp_event \<Rightarrow> status \<Rightarrow> status res" where
  "req_setValue look ev st = add_errors look (ev_errObj ev) (ev_errAttr ev) (ev_errValue ev) st"

text \<open>
  \<^verbatim>\<open>DistRequest::wait\<close> with the one outstanding request \<open>k\<close>: \<open>None\<close> is the broken connection, for which
  it returns \<^verbatim>\<open>PWR_RET_IPC\<close>.
\<close>

definition RET_IPC :: int where
  "RET_IPC = - 14"

definition wait_for :: "nat \<Rightarrow> net \<Rightarrow> (resp_event option \<times> net) res" where
  "wait_for k n =
     (case inbox n of
        [] \<Rightarrow> Inr (None, n)
      | ev # evs \<Rightarrow> if ev_id ev = k then Inr (Some ev, n\<lparr>inbox := evs\<rparr>) else Inl MemoryFault)"

subsection \<open>DistObject\<close>

text \<open>
  The constructor decides the communicator of the object: first the one of attribute 0, if any attribute
  has one, then the first found; attributes with both devices and a communicator, or with different
  communicators, are refused by assertions.
\<close>

fun check_comms :: "'s object \<Rightarrow> attr list \<Rightarrow> string set option \<Rightarrow> string set option res" where
  "check_comms ob [] c = Inr c"
| "check_comms ob (a # as) c =
     (let ca = comm (attrInfo ob a)
      in c_assert (\<not> (ca \<noteq> None \<and> devices (attrInfo ob a) \<noteq> []))
         (case c of
            None \<Rightarrow> check_comms ob as ca
          | Some _ \<Rightarrow> if ca \<noteq> None then c_assert (c = ca) (check_comms ob as c)
                      else check_comms ob as c))"

definition distObject_comm :: "'s object \<Rightarrow> string set option res" where
  "distObject_comm ob =
     check_comms ob all_attrs
       (if \<exists>a\<in>set all_attrs. comm (attrInfo ob a) \<noteq> None
        then comm (attrInfo ob (all_attrs ! 0)) else None)"

definition same_comm :: "'s object \<Rightarrow> attr list \<Rightarrow> bool" where
  "same_comm ob as \<longleftrightarrow> (\<forall>a\<in>set (tl as). comm (attrInfo ob a) = comm (attrInfo ob (hd as)))"

text \<open>
  The blocking array read.  What the local part returns is ignored, its errors are in the queue.  The
  first name is used even when there is none.
\<close>

definition dist_attrGetValues ::
  "(string \<Rightarrow> string option) \<Rightarrow> 's object \<Rightarrow> nat \<Rightarrow> attr list \<Rightarrow> 's \<times> net \<Rightarrow> cell list \<Rightarrow> pwr_time list
   \<Rightarrow> status \<Rightarrow> ((int \<times> cell list \<times> pwr_time list \<times> status) \<times> 's \<times> net) res" where
  "dist_attrGetValues look ob off as sn buf ts st =
     (let (s, n) = sn in
      rbind (attrGetValues ob off as s buf ts st) (\<lambda>((_, buf1, ts1, st1), s1).
      if as = [] then Inl MemoryFault
      else c_assert (same_comm ob as)
        (case comm (attrInfo ob (hd as)) of
           None \<Rightarrow> Inr ((status_ret st1, buf1, ts1, st1), s1, n)
         | Some c \<Rightarrow>
             (let (k, n1) = new_req n in
              rbind (getChannel c n1) (\<lambda>n2.
              rbind (wait_for k (send (CommGet k as (map (\<lambda>a. valueOp (attrInfo ob a)) as)) n2)) (\<lambda>(r, n3).
              case r of
                None \<Rightarrow> Inr ((RET_IPC, buf1, ts1, st1), s1, n3)
              | Some ev \<Rightarrow>
                  rbind (req_getValue look [off] ev buf1 ts1 st1) (\<lambda>(buf2, ts2, st2).
                  Inr ((status_ret st2, buf2, ts2, st2), s1, n3))))))))"

definition dist_attrSetValues ::
  "(string \<Rightarrow> string option) \<Rightarrow> 's object \<Rightarrow> attr list \<Rightarrow> 's \<times> net \<Rightarrow> cell list
   \<Rightarrow> status \<Rightarrow> ((int \<times> cell list \<times> status) \<times> 's \<times> net) res" where
  "dist_attrSetValues look ob as sn buf st =
     (let (s, n) = sn in
      rbind (attrSetValues ob as s buf st) (\<lambda>((_, buf1, st1), s1).
      if as = [] then Inl MemoryFault
      else c_assert (same_comm ob as)
        (case comm (attrInfo ob (hd as)) of
           None \<Rightarrow> Inr ((status_ret st1, buf1, st1), s1, n)
         | Some c \<Rightarrow>
             (if length buf1 < length as then Inl MemoryFault
              else let (k, n1) = new_req n in
              rbind (getChannel c n1) (\<lambda>n2.
              rbind (wait_for k (send (CommSet k as (take (length as) buf1)) n2)) (\<lambda>(r, n3).
              case r of
                None \<Rightarrow> Inr ((RET_IPC, buf1, st1), s1, n3)
              | Some ev \<Rightarrow>
                  rbind (req_setValue look ev st1) (\<lambda>st2.
                  Inr ((status_ret st2, buf1, st2), s1, n3))))))))"

definition dist_attrGetValue ::
  "(string \<Rightarrow> string option) \<Rightarrow> 's object \<Rightarrow> attr \<Rightarrow> 's \<times> net \<Rightarrow> cell \<Rightarrow> pwr_time
   \<Rightarrow> ((int \<times> cell list \<times> pwr_time list) \<times> 's \<times> net) res" where
  "dist_attrGetValue look ob a sn v t =
     rbind (dist_attrGetValues look ob 0 [a] sn [v] [t] []) (\<lambda>((rc, buf', ts', st'), sn').
     if rc = RET_STATUS then rbind (pop_error st') (\<lambda>e. Inr ((e, buf', ts'), sn'))
     else Inr ((rc, buf', ts'), sn'))"

definition dist_attrSetValue ::
  "(string \<Rightarrow> string option) \<Rightarrow> 's object \<Rightarrow> attr \<Rightarrow> 's \<times> net \<Rightarrow> cell
   \<Rightarrow> ((int \<times> cell list) \<times> 's \<times> net) res" where
  "dist_attrSetValue look ob a sn v =
     rbind (dist_attrSetValues look ob [a] sn [v] []) (\<lambda>((rc, buf', st'), sn').
     if rc = RET_STATUS then rbind (pop_error st') (\<lambda>e. Inr ((e, buf'), sn'))
     else Inr ((rc, buf'), sn'))"

text \<open>
  Logging: the answer's errors go to a local queue whose first entry becomes the result.  What the wait
  returns is ignored, so a broken connection counts as success.
\<close>

definition dist_log ::
  "(string \<Rightarrow> string option) \<Rightarrow> ('s object \<Rightarrow> attr \<Rightarrow> 's \<Rightarrow> (int \<times> 's) res) \<Rightarrow> (nat \<Rightarrow> attr \<Rightarrow> sent)
   \<Rightarrow> 's object \<Rightarrow> attr \<Rightarrow> 's \<times> net \<Rightarrow> (int \<times> 's \<times> net) res" where
  "dist_log look f msg ob a sn =
     (let (s, n) = sn in
      rbind (f ob a s) (\<lambda>(rc, s1).
      if rc \<noteq> RET_SUCCESS then Inr (rc, s1, n)
      else case comm (attrInfo ob a) of
        None \<Rightarrow> Inr (RET_SUCCESS, s1, n)
      | Some c \<Rightarrow>
          (let (k, n1) = new_req n in
           rbind (getChannel c n1) (\<lambda>n2.
           rbind (wait_for k (send (msg k a) n2)) (\<lambda>(r, n3).
           case r of
             None \<Rightarrow> Inr (RET_SUCCESS, s1, n3)
           | Some ev \<Rightarrow>
               rbind (req_setValue look ev []) (\<lambda>st.
               if status_empty st then Inr (RET_SUCCESS, s1, n3)
               else rbind (pop_error st) (\<lambda>e. Inr (e, s1, n3))))))))"

definition dist_attrStartLog ::
  "(string \<Rightarrow> string option) \<Rightarrow> 's object \<Rightarrow> attr \<Rightarrow> 's \<times> net \<Rightarrow> (int \<times> 's \<times> net) res" where
  "dist_attrStartLog look ob a sn = dist_log look attrStartLog CommStart ob a sn"

definition dist_attrStopLog ::
  "(string \<Rightarrow> string option) \<Rightarrow> 's object \<Rightarrow> attr \<Rightarrow> 's \<times> net \<Rightarrow> (int \<times> 's \<times> net) res" where
  "dist_attrStopLog look ob a sn = dist_log look attrStopLog CommStop ob a sn"

text \<open>
  Samples: an answer overwrites the buffer from its start and the start time; the answer's errors are
  dropped, and the result is success even when the connection broke.
\<close>

definition dist_attrGetSamples ::
  "'s object \<Rightarrow> attr \<Rightarrow> 's \<times> net \<Rightarrow> pwr_time option \<Rightarrow> real \<Rightarrow> nat \<Rightarrow> cell list
   \<Rightarrow> ((int \<times> pwr_time option \<times> cell list) \<times> 's \<times> net) res" where
  "dist_attrGetSamples ob a sn start period count buf =
     (let (s, n) = sn in
      rbind (attrGetSamples ob a s start period count buf) (\<lambda>((rc, start1, buf1), s1).
      if rc \<noteq> RET_SUCCESS then Inr ((rc, start1, buf1), s1, n)
      else case comm (attrInfo ob a) of
        None \<Rightarrow> Inr ((RET_SUCCESS, start1, buf1), s1, n)
      | Some c \<Rightarrow>
          (let (k, n1) = new_req n in
           rbind (getChannel c n1) (\<lambda>n2.
           rbind (wait_for k (send (CommSamples k a start1 period count) n2)) (\<lambda>(r, n3).
           case r of
             None \<Rightarrow> Inr ((RET_SUCCESS, start1, buf1), s1, n3)
           | Some ev \<Rightarrow>
               rbind (store_row 0 (ev_data ev) (replicate (length (ev_data ev)) 0) buf1
                        (replicate (length buf1) 0)) (\<lambda>(buf2, _).
               Inr ((RET_SUCCESS, Some (ev_startTime ev), buf2), s1, n3)))))))"

subsection \<open>Grp\<close>

text \<open>
  A group holds objects by name; there is one object per name in a context.  The base class
  (\<^verbatim>\<open>src/pwr/group.h\<close>), which the children of an object are returned in, is the list of its members; its
  value calls go to the members one after the other and report failure when the queue is not empty.
\<close>

definition base_add :: "string list \<Rightarrow> string \<Rightarrow> int \<times> string list" where
  "base_add g x = (if x \<in> set g then (RET_FAILURE, g) else (RET_SUCCESS, g @ [x]))"

definition base_remove :: "string list \<Rightarrow> string \<Rightarrow> int \<times> string list" where
  "base_remove g x = (RET_SUCCESS, remove1 x g)"

fun base_get_loop ::
  "(string \<Rightarrow> string option) \<Rightarrow> (string \<Rightarrow> 's object) \<Rightarrow> nat \<Rightarrow> string list \<Rightarrow> attr list \<Rightarrow> 's \<times> net
   \<Rightarrow> cell list \<Rightarrow> pwr_time list \<Rightarrow> status
   \<Rightarrow> ((cell list \<times> pwr_time list \<times> status) \<times> 's \<times> net) res" where
  "base_get_loop look obj i [] as sn buf ts st = Inr ((buf, ts, st), sn)"
| "base_get_loop look obj i (x # xs) as sn buf ts st =
     rbind (dist_attrGetValues look (obj x) (i * length as) as sn buf ts st) (\<lambda>((_, buf', ts', st'), sn').
     base_get_loop look obj (Suc i) xs as sn' buf' ts' st')"

definition base_ret :: "status \<Rightarrow> int" where
  "base_ret st = (if \<not> status_empty st then RET_FAILURE else RET_SUCCESS)"

definition base_attrGetValues ::
  "(string \<Rightarrow> string option) \<Rightarrow> (string \<Rightarrow> 's object) \<Rightarrow> string list \<Rightarrow> attr list \<Rightarrow> 's \<times> net
   \<Rightarrow> cell list \<Rightarrow> pwr_time list \<Rightarrow> status
   \<Rightarrow> ((int \<times> cell list \<times> pwr_time list \<times> status) \<times> 's \<times> net) res" where
  "base_attrGetValues look obj g as sn buf ts st =
     rbind (base_get_loop look obj 0 g as sn buf ts st) (\<lambda>((buf', ts', st'), sn').
     Inr ((base_ret st', buf', ts', st'), sn'))"

fun base_set_loop ::
  "(string \<Rightarrow> string option) \<Rightarrow> (string \<Rightarrow> 's object) \<Rightarrow> string list \<Rightarrow> attr \<Rightarrow> 's \<times> net
   \<Rightarrow> cell \<Rightarrow> status \<Rightarrow> ((cell \<times> status) \<times> 's \<times> net) res" where
  "base_set_loop look obj [] a sn v st = Inr ((v, st), sn)"
| "base_set_loop look obj (x # xs) a sn v st =
     rbind (dist_attrSetValue look (obj x) a sn v) (\<lambda>((rc, vs), sn').
     base_set_loop look obj xs a sn' (hd (vs @ [v]))
       (if rc \<noteq> RET_SUCCESS then status_add st (Some x) a rc else st))"

definition base_attrSetValue ::
  "(string \<Rightarrow> string option) \<Rightarrow> (string \<Rightarrow> 's object) \<Rightarrow> string list \<Rightarrow> attr \<Rightarrow> 's \<times> net
   \<Rightarrow> cell \<Rightarrow> status \<Rightarrow> ((int \<times> cell \<times> status) \<times> 's \<times> net) res" where
  "base_attrSetValue look obj g a sn v st =
     rbind (base_set_loop look obj g a sn v st) (\<lambda>((v', st'), sn'). Inr ((base_ret st', v', st'), sn'))"

subsection \<open>DistGrp\<close>

text \<open>
  \<open>g_list\<close> is the list of the base class, here the local members; \<open>g_dist\<close> the remote ones, \<open>g_all\<close> all that
  were added; \<open>g_comm\<close> says whether the group's own communicator was made.
\<close>

record grp =
  g_list :: "string list"
  g_dist :: "string list"
  g_all :: "string list"
  g_comm :: bool

definition empty_grp :: grp where
  "empty_grp = \<lparr>g_list = [], g_dist = [], g_all = [], g_comm = False\<rparr>"

definition isLocal :: "'s object \<Rightarrow> bool res" where
  "isLocal ob = rbind (distObject_comm ob) (\<lambda>c. Inr (c = None))"

text \<open>What adding to the base list returns is not looked at: a local duplicate is counted all the same.\<close>

definition grp_add :: "(string \<Rightarrow> 's object) \<Rightarrow> grp \<Rightarrow> string \<Rightarrow> (int \<times> grp) res" where
  "grp_add obj g x =
     rbind (isLocal (obj x)) (\<lambda>loc.
     if loc then
       Inr (RET_SUCCESS, g\<lparr>g_list := snd (base_add (g_list g) x), g_all := g_all g @ [x]\<rparr>)
     else if x \<in> set (g_dist g) then Inr (RET_FAILURE, g)
     else Inr (RET_SUCCESS, g\<lparr>g_dist := g_dist g @ [x], g_all := g_all g @ [x]\<rparr>))"

text \<open>
  \<^verbatim>\<open>PWR_GrpRemoveObj\<close> calls \<^verbatim>\<open>remove\<close> through the base class, where it is not virtual: only the base
  list changes.
\<close>

definition grp_remove :: "grp \<Rightarrow> string \<Rightarrow> int \<times> grp" where
  "grp_remove g x = (RET_SUCCESS, g\<lparr>g_list := snd (base_remove (g_list g) x)\<rparr>)"

definition grp_size :: "grp \<Rightarrow> nat" where
  "grp_size g = length (g_all g)"

definition grp_getObj :: "grp \<Rightarrow> nat \<Rightarrow> string res" where
  "grp_getObj g i = arr_get (g_all g) i"

text \<open>The local part of a group read: the \<open>i\<close>-th object of the base list goes to row \<open>i\<close>.\<close>

fun grp_local_get ::
  "(string \<Rightarrow> string option) \<Rightarrow> (string \<Rightarrow> 's object) \<Rightarrow> nat \<Rightarrow> string list \<Rightarrow> attr list \<Rightarrow> 's \<times> net
   \<Rightarrow> cell list \<Rightarrow> pwr_time list \<Rightarrow> status
   \<Rightarrow> ((int \<times> cell list \<times> pwr_time list \<times> status) \<times> 's \<times> net) res" where
  "grp_local_get look obj i [] as sn buf ts st = Inr ((RET_SUCCESS, buf, ts, st), sn)"
| "grp_local_get look obj i (x # xs) as sn buf ts st =
     rbind (dist_attrGetValues look (obj x) (i * length as) as sn buf ts st) (\<lambda>((rc, buf', ts', st'), sn').
     if rc \<noteq> RET_SUCCESS \<and> rc \<noteq> RET_STATUS then Inr ((rc, buf', ts', st'), sn')
     else grp_local_get look obj (Suc i) xs as sn' buf' ts' st')"

text \<open>The group's communicator is made once: its members are those of the objects' communicators.\<close>

fun dist_members :: "(string \<Rightarrow> 's object) \<Rightarrow> string list \<Rightarrow> string set list res" where
  "dist_members obj [] = Inr []"
| "dist_members obj (x # xs) =
     rbind (distObject_comm (obj x)) (\<lambda>c.
     case c of None \<Rightarrow> Inl MemoryFault
     | Some m \<Rightarrow> rbind (dist_members obj xs) (\<lambda>ms. Inr (m # ms)))"

definition grp_channel :: "(string \<Rightarrow> 's object) \<Rightarrow> grp \<Rightarrow> net \<Rightarrow> (grp \<times> net) res" where
  "grp_channel obj g n =
     (if g_comm g then Inr (g, n)
      else c_assert (channel n)
        (rbind (dist_members obj (g_dist g)) (\<lambda>ms. Inr (g\<lparr>g_comm := True\<rparr>, send (CommCreate ms) n))))"

text \<open>
  The row of the \<open>i\<close>-th remote object is found by searching it in \<open>g_all\<close>; then the row number \<open>i\<close> is used, not
  the place where it was found.
\<close>

definition dist_offsets :: "grp \<Rightarrow> nat \<Rightarrow> nat list" where
  "dist_offsets g num = map (\<lambda>i. i * num) [0..<length (g_dist g)]"

definition grp_attrGetValues ::
  "(string \<Rightarrow> string option) \<Rightarrow> (string \<Rightarrow> 's object) \<Rightarrow> grp \<Rightarrow> attr list \<Rightarrow> 's \<times> net
   \<Rightarrow> cell list \<Rightarrow> pwr_time list \<Rightarrow> status
   \<Rightarrow> ((int \<times> cell list \<times> pwr_time list \<times> status) \<times> grp \<times> 's \<times> net) res" where
  "grp_attrGetValues look obj g as sn buf ts st =
     rbind (grp_local_get look obj 0 (g_list g) as sn buf ts st) (\<lambda>((rc, buf1, ts1, st1), (s1, n1)).
     if rc \<noteq> RET_SUCCESS then Inr ((rc, buf1, ts1, st1), g, s1, n1)
     else if g_dist g = [] then Inr ((status_ret st1, buf1, ts1, st1), g, s1, n1)
     else
       rbind (grp_channel obj g n1) (\<lambda>(g', n2).
       let (k, n3) = new_req n2;
           ops = map (\<lambda>a. valueOp (attrInfo (obj (hd (g_dist g))) a)) as
       in rbind (wait_for k (send (CommGet k as ops) n3)) (\<lambda>(r, n4).
          case r of
            None \<Rightarrow> Inr ((status_ret st1, buf1, ts1, st1), g', s1, n4)
          | Some ev \<Rightarrow>
              rbind (req_getValue look (dist_offsets g (length as)) ev buf1 ts1 st1) (\<lambda>(buf2, ts2, st2).
              Inr ((status_ret st2, buf2, ts2, st2), g', s1, n4)))))"

fun grp_local_set ::
  "(string \<Rightarrow> string option) \<Rightarrow> (string \<Rightarrow> 's object) \<Rightarrow> string list \<Rightarrow> attr list \<Rightarrow> 's \<times> net
   \<Rightarrow> cell list \<Rightarrow> status \<Rightarrow> ((int \<times> cell list \<times> status) \<times> 's \<times> net) res" where
  "grp_local_set look obj [] as sn buf st = Inr ((RET_SUCCESS, buf, st), sn)"
| "grp_local_set look obj (x # xs) as sn buf st =
     rbind (dist_attrSetValues look (obj x) as sn buf st) (\<lambda>((rc, buf', st'), sn').
     if rc \<noteq> RET_SUCCESS \<and> rc \<noteq> RET_STATUS then Inr ((rc, buf', st'), sn')
     else grp_local_set look obj xs as sn' buf' st')"

definition grp_attrSetValues ::
  "(string \<Rightarrow> string option) \<Rightarrow> (string \<Rightarrow> 's object) \<Rightarrow> grp \<Rightarrow> attr list \<Rightarrow> 's \<times> net
   \<Rightarrow> cell list \<Rightarrow> status \<Rightarrow> ((int \<times> cell list \<times> status) \<times> grp \<times> 's \<times> net) res" where
  "grp_attrSetValues look obj g as sn buf st =
     rbind (grp_local_set look obj (g_list g) as sn buf st) (\<lambda>((rc, buf1, st1), (s1, n1)).
     if rc \<noteq> RET_SUCCESS then Inr ((rc, buf1, st1), g, s1, n1)
     else if g_dist g = [] then Inr ((status_ret st1, buf1, st1), g, s1, n1)
     else if length buf1 < length as then Inl MemoryFault
     else
       rbind (grp_channel obj g n1) (\<lambda>(g', n2).
       let (k, n3) = new_req n2
       in rbind (wait_for k (send (CommSet k as (take (length as) buf1)) n3)) (\<lambda>(r, n4).
          case r of
            None \<Rightarrow> Inr ((status_ret st1, buf1, st1), g', s1, n4)
          | Some ev \<Rightarrow>
              rbind (req_setValue look ev st1) (\<lambda>st2.
              Inr ((status_ret st2, buf1, st2), g', s1, n4)))))"

definition grp_attrGetValue ::
  "(string \<Rightarrow> string option) \<Rightarrow> (string \<Rightarrow> 's object) \<Rightarrow> grp \<Rightarrow> attr \<Rightarrow> 's \<times> net
   \<Rightarrow> cell list \<Rightarrow> pwr_time list \<Rightarrow> status
   \<Rightarrow> ((int \<times> cell list \<times> pwr_time list \<times> status) \<times> grp \<times> 's \<times> net) res" where
  "grp_attrGetValue look obj g a sn buf ts st = grp_attrGetValues look obj g [a] sn buf ts st"

definition grp_attrSetValue ::
  "(string \<Rightarrow> string option) \<Rightarrow> (string \<Rightarrow> 's object) \<Rightarrow> grp \<Rightarrow> attr \<Rightarrow> 's \<times> net
   \<Rightarrow> cell list \<Rightarrow> status \<Rightarrow> ((int \<times> cell list \<times> status) \<times> grp \<times> 's \<times> net) res" where
  "grp_attrSetValue look obj g a sn buf st = grp_attrSetValues look obj g [a] sn buf st"

subsection \<open>The communicator of an object\<close>

lemma check_comms_iff:
  "check_comms ob as c = Inr r \<longleftrightarrow>
     (\<forall>a\<in>set as. comm (attrInfo ob a) \<noteq> None \<longrightarrow> devices (attrInfo ob a) = [] \<and> comm (attrInfo ob a) = r) \<and>
     (if c = None then r \<noteq> None \<longrightarrow> (\<exists>a\<in>set as. comm (attrInfo ob a) = r) else r = c)"
proof (induction as arbitrary: c)
  case (Cons a as)
  show ?case
    by (cases c; cases "comm (attrInfo ob a)") (auto simp: Cons.IH c_assert_def Let_def split: if_splits)
qed auto

text \<open>
  An object can be created exactly when each of its attributes is served either by local devices or by
  one and the same set of remote objects, never both; its communicator is that set, and none when every
  attribute is local.
\<close>

lemma distObject_comm_iff:
  "distObject_comm ob = Inr c \<longleftrightarrow>
     (\<forall>a. comm (attrInfo ob a) = None \<or> devices (attrInfo ob a) = [] \<and> comm (attrInfo ob a) = c) \<and>
     (c = None \<or> (\<exists>a. comm (attrInfo ob a) = c))"
proof -
  let ?m = "\<lambda>a. comm (attrInfo ob a)"
  have start: "(if \<exists>a\<in>set all_attrs. ?m a \<noteq> None then ?m (all_attrs ! 0) else None) = ?m ATTR_PSTATE"
    by (auto simp: all_attrs_def set_all_attrs)
  have "distObject_comm ob = Inr c \<longleftrightarrow>
     (\<forall>a. ?m a \<noteq> None \<longrightarrow> devices (attrInfo ob a) = [] \<and> ?m a = c) \<and>
     (if ?m ATTR_PSTATE = None then c \<noteq> None \<longrightarrow> (\<exists>a. ?m a = c) else c = ?m ATTR_PSTATE)"
    unfolding distObject_comm_def start check_comms_iff by (simp only: set_all_attrs ball_UNIV bex_UNIV)
  then show ?thesis by (smt (verit) option.distinct(1))
qed

lemma isLocal_iff: "isLocal ob = Inr True \<longleftrightarrow> (\<forall>a. comm (attrInfo ob a) = None)"
  by (auto simp: isLocal_def res_simps distObject_comm_iff)

subsection \<open>Local objects\<close>

text \<open>
  For an object without remote parts the distributed calls are those of the base class: nothing is sent,
  and the channel is not looked at.
\<close>

lemma dist_attrGetValues_local:
  assumes "\<And>a. comm (attrInfo ob a) = None" and "as \<noteq> []"
  shows "dist_attrGetValues look ob off as (s, n) buf ts st =
    rbind (attrGetValues ob off as s buf ts st) (\<lambda>(r, s'). Inr (r, (s', n)))"
  using assms
  by (auto simp: dist_attrGetValues_def same_comm_def attrGetValues_def split: rbind_split)

lemma dist_attrSetValues_local:
  assumes "\<And>a. comm (attrInfo ob a) = None" and "as \<noteq> []"
  shows "dist_attrSetValues look ob as (s, n) buf st =
    rbind (attrSetValues ob as s buf st) (\<lambda>(r, s'). Inr (r, (s', n)))"
  using assms
  by (auto simp: dist_attrSetValues_def same_comm_def attrSetValues_def split: rbind_split)

lemma pop_error_of_add: "pop_error (status_add [] x a e) = Inr e"
  by (simp add: status_add_def)

text \<open>
  C7.  For an object all of whose attributes are local, the calls of the distributed class are equivalent to
  those of the base class, the scalar and the array calls alike, and the event channel is not touched.
\<close>

theorem dist_local_equivalent:
  assumes "isLocal ob = Inr True"
  shows "dist_attrGetValue look ob a (s, n) v t = rbind (attrGetValue ob a s v t) (\<lambda>(r, s'). Inr (r, (s', n))) \<and>
    dist_attrSetValue look ob a (s, n) v = rbind (attrSetValue ob a s v) (\<lambda>(r, s'). Inr (r, (s', n))) \<and>
    dist_attrGetValues look ob off (b # bs) (s, n) buf ts st =
      rbind (attrGetValues ob off (b # bs) s buf ts st) (\<lambda>(r, s'). Inr (r, (s', n))) \<and>
    dist_attrSetValues look ob (b # bs) (s, n) buf st =
      rbind (attrSetValues ob (b # bs) s buf st) (\<lambda>(r, s'). Inr (r, (s', n)))"
proof -
  have c: "comm (attrInfo ob a) = None" for a using assms by (simp add: isLocal_iff)
  have "dist_attrGetValue look ob a (s, n) v t = rbind (attrGetValue ob a s v t) (\<lambda>(r, s'). Inr (r, (s', n)))"
    by (auto simp: dist_attrGetValue_def attrGetValue_def attrGetValues_def dist_attrGetValues_local [OF c]
        status_ret_def status_empty_def ret_defs split: rbind_split)
  moreover have "dist_attrSetValue look ob a (s, n) v = rbind (attrSetValue ob a s v) (\<lambda>(r, s'). Inr (r, (s', n)))"
    by (auto simp: dist_attrSetValue_def attrSetValue_def attrSetValues_def dist_attrSetValues_local [OF c]
        status_ret_def status_empty_def ret_defs split: rbind_split)
  ultimately show ?thesis
    by (simp add: dist_attrGetValues_local [OF c] dist_attrSetValues_local [OF c])
qed
subsection \<open>Which slots a read touches\<close>

lemma get_values_loop_frame:
  "get_values_loop ob i as s buf ts st = Inr ((buf', ts', st'), s') \<Longrightarrow>
   take i buf' = take i buf \<and> drop (i + length as) buf' = drop (i + length as) buf \<and> length buf' = length buf"
proof (induction as arbitrary: i s buf ts)
  case (Cons a as)
  from Cons.prems show ?case
  proof (cases rule: get_values_loop_ConsE)
    case (goes_on v t s1)
    with Cons.IH [OF goes_on(5)] show ?thesis
      by simp (metis lessI less_imp_le_nat min.absorb1 take_take take_update_cancel le_refl)
  qed auto
qed simp

text \<open>A local group reads row after row.\<close>

lemma grp_local_get_frame:
  assumes "\<And>x a. x \<in> set xs \<Longrightarrow> comm (attrInfo (obj x) a) = None"
  shows "grp_local_get look obj i xs as sn buf ts st = Inr ((rc, buf', ts', st'), sn') \<Longrightarrow>
    drop ((i + length xs) * length as) buf' = drop ((i + length xs) * length as) buf \<and>
    length buf' = length buf \<and> rc = RET_SUCCESS \<and> snd sn' = snd sn"
  using assms
proof (induction xs arbitrary: i sn buf ts st)
  case (Cons x xs)
  have as: "as \<noteq> []" using Cons.prems(1) by (cases sn) (auto simp: dist_attrGetValues_def res_simps)
  obtain s n where sn: "sn = (s, n)" by (cases sn)
  have c: "comm (attrInfo (obj x) a) = None" for a using Cons.prems(2) by simp
  from Cons.prems(1) obtain rc1 buf1 ts1 st1 s1 where
    r: "attrGetValues (obj x) (i * length as) as s buf ts st = Inr ((rc1, buf1, ts1, st1), s1)"
    and g: "grp_local_get look obj (Suc i) xs as (s1, n) buf1 ts1 st1 = Inr ((rc, buf', ts', st'), sn')"
    by (auto simp: sn dist_attrGetValues_local [OF c as] attrGetValues_def res_simps status_ret_def split: if_splits)
  from r have l: "get_values_loop (obj x) (i * length as) as s buf ts st = Inr ((buf1, ts1, st1), s1)"
    by (auto simp: attrGetValues_def res_simps)
  have IH: "drop ((Suc i + length xs) * length as) buf' = drop ((Suc i + length xs) * length as) buf1 \<and>
    length buf' = length buf1 \<and> rc = RET_SUCCESS \<and> snd sn' = n"
    using Cons.IH [OF g] Cons.prems(2) by simp
  have "drop (length xs * length as) (drop (i * length as + length as) buf1) =
        drop (length xs * length as) (drop (i * length as + length as) buf)"
    using get_values_loop_frame [OF l] by simp
  then have "drop ((Suc i + length xs) * length as) buf1 = drop ((Suc i + length xs) * length as) buf"
    by (simp add: algebra_simps)
  with IH get_values_loop_frame [OF l] show ?case by (simp add: sn)
qed auto

lemma grp_attrGetValues_local:
  "g_dist g = [] \<Longrightarrow> grp_attrGetValues look obj g as sn buf ts st =
     rbind (grp_local_get look obj 0 (g_list g) as sn buf ts st) (\<lambda>((rc, buf', ts', st'), sn').
     Inr ((if rc \<noteq> RET_SUCCESS then rc else status_ret st', buf', ts', st'), g, sn'))"
  by (auto simp: grp_attrGetValues_def split: rbind_split)

text \<open>
  Adding a local object a second time to a group succeeds and makes the group count it twice, but the
  object is read once: whatever a read of the group then returns, it is the read of the group before, and the
  rows from the number of distinct members on, up to the size the caller sizes the buffer by, are left as
  they were.
\<close>

theorem grp_duplicate_counts_twice:
  assumes "isLocal (obj x) = Inr True" and "x \<in> set (g_list g)" and "g_dist g = []"
    and "\<And>y a. y \<in> set (g_list g) \<Longrightarrow> comm (attrInfo (obj y) a) = None"
    and "g' = g\<lparr>g_all := g_all g @ [x]\<rparr>"
  shows "grp_add obj g x = Inr (RET_SUCCESS, g') \<and> grp_size g' = Suc (grp_size g) \<and>
    grp_attrGetValues look obj g' as sn buf ts st =
      rbind (grp_attrGetValues look obj g as sn buf ts st) (\<lambda>(r, _, sn'). Inr (r, g', sn')) \<and>
    (\<forall>rc buf' ts' st' gr sn'. grp_attrGetValues look obj g' as sn buf ts st = Inr ((rc, buf', ts', st'), gr, sn') \<longrightarrow>
      drop (length (g_list g) * length as) buf' = drop (length (g_list g) * length as) buf)"
proof -
  have add: "grp_add obj g x = Inr (RET_SUCCESS, g')"
    using assms(1,2,5) by (simp add: grp_add_def base_add_def)
  have size: "grp_size g' = Suc (grp_size g)" by (simp add: grp_size_def assms(5))
  have g: "g_dist g' = []" "g_list g' = g_list g" using assms(3,5) by simp_all
  have same: "grp_attrGetValues look obj g' as sn buf ts st =
      rbind (grp_attrGetValues look obj g as sn buf ts st) (\<lambda>(r, _, sn'). Inr (r, g', sn'))"
    using assms(3) g by (auto simp: grp_attrGetValues_local split: rbind_split)
  have "drop (length (g_list g) * length as) b = drop (length (g_list g) * length as) buf"
    if "grp_local_get look obj 0 (g_list g) as sn buf ts st = Inr ((rc, b, t, e), sn')" for rc b t e sn'
    using grp_local_get_frame [of "g_list g" obj, OF assms(4) that] by simp
  then show ?thesis
    using add size same assms(3) by (auto simp: grp_attrGetValues_local res_simps)
qed
subsection \<open>Remote members\<close>

lemma store_row_eq:
  "length us = length vs \<Longrightarrow> off + length vs \<le> length buf \<Longrightarrow> off + length vs \<le> length ts \<Longrightarrow>
   store_row off vs us buf ts =
     Inr (take off buf @ vs @ drop (off + length vs) buf, take off ts @ us @ drop (off + length vs) ts)"
proof (induction vs arbitrary: off us buf ts)
  case (Cons v vs)
  then obtain u us' where us: "us = u # us'" by (cases us) auto
  from Cons.prems have o: "off < length buf" "off < length ts" by simp_all
  have "store_row off (v # vs) us buf ts = store_row (Suc off) vs us' (buf[off := v]) (ts[off := u])"
    using o by (simp add: us arr_set_ok)
  also have "\<dots> = Inr (take (Suc off) (buf[off := v]) @ vs @ drop (Suc off + length vs) (buf[off := v]),
      take (Suc off) (ts[off := u]) @ us' @ drop (Suc off + length vs) (ts[off := u]))"
    using Cons.prems by (intro Cons.IH) (simp_all add: us)
  finally show ?case using o by (simp add: us take_Suc_conv_app_nth)
qed simp

lemma store_rows_eq:
  assumes "\<And>vs. vs \<in> set vss \<Longrightarrow> length vs = num" and "\<And>us. us \<in> set uss \<Longrightarrow> length us = num"
    and "length uss = length vss"
    and "(k + length vss) * num \<le> length buf" and "(k + length vss) * num \<le> length ts"
  shows "store_rows (map (\<lambda>i. i * num) [k..<k + length vss]) vss uss buf ts =
    Inr (take (k * num) buf @ concat vss @ drop ((k + length vss) * num) buf,
         take (k * num) ts @ concat uss @ drop ((k + length vss) * num) ts)"
  using assms
proof (induction vss arbitrary: k uss buf ts)
  case (Cons vs vss)
  then obtain us uss' where uss: "uss = us # uss'" by (cases uss) auto
  let ?b = "take (k * num) buf @ vs @ drop (Suc k * num) buf"
  let ?t = "take (k * num) ts @ us @ drop (Suc k * num) ts"
  have l: "length vs = num" "length us = num" using Cons.prems(1,2) by (simp_all add: uss)
  have kn: "k * num + num \<le> length buf" "k * num + num \<le> length ts"
    using Cons.prems(4,5) by (simp_all add: algebra_simps)
  have row: "store_row (k * num) vs us buf ts = Inr (?b, ?t)"
    using l kn by (subst store_row_eq) (simp_all add: algebra_simps)
  have up: "[k..<k + length (vs # vss)] = k # [Suc k..<Suc k + length vss]"
    by (subst upt_conv_Cons) simp_all
  have lb: "length ?b = length buf" "length ?t = length ts" using l kn by (simp_all add: algebra_simps)
  have tk: "take (Suc k * num) ?b = take (k * num) buf @ vs" "take (Suc k * num) ?t = take (k * num) ts @ us"
    using l kn by (simp_all add: algebra_simps)
  have dr: "drop ((Suc k + length vss) * num) ?b = drop ((Suc k + length vss) * num) buf"
    "drop ((Suc k + length vss) * num) ?t = drop ((Suc k + length vss) * num) ts"
    using l kn by (simp_all add: algebra_simps)
  have IH: "store_rows (map (\<lambda>i. i * num) [Suc k..<Suc k + length vss]) vss uss' ?b ?t =
    Inr (take (Suc k * num) ?b @ concat vss @ drop ((Suc k + length vss) * num) ?b,
         take (Suc k * num) ?t @ concat uss' @ drop ((Suc k + length vss) * num) ?t)"
    using Cons.prems by (intro Cons.IH) (simp_all add: uss lb)
  show ?case
    unfolding up uss list.map store_rows.simps row rbind_Inr prod.case IH tk dr by (simp add: algebra_simps)
qed simp

text \<open>
  C36.  In a group read the answer of the remote members, one row of as many values as there are attributes
  for each, is stored from the start of the caller's arrays, over what the local members just wrote there,
  wherever the remote members stand in the group: with a local member first, row 0 holds a remote member's
  values and the last rows are not written at all.
\<close>

theorem grp_remote_rows_overwrite:
  assumes "grp_local_get look obj 0 (g_list g) as sn buf ts st = Inr ((RET_SUCCESS, buf1, ts1, st1), (s1, n1))"
    and "g_comm g" and "g_dist g \<noteq> []"
    and "inbox n1 = ev # evs" and "ev_id ev = next_id n1" and "ev_errValue ev = []"
    and "length (ev_value ev) = length (g_dist g)" and "length (ev_timeStamp ev) = length (g_dist g)"
    and "\<And>vs. vs \<in> set (ev_value ev) \<Longrightarrow> length vs = length as"
    and "\<And>us. us \<in> set (ev_timeStamp ev) \<Longrightarrow> length us = length as"
    and "length (g_dist g) * length as \<le> length buf1" and "length (g_dist g) * length as \<le> length ts1"
  shows "\<exists>n2. grp_attrGetValues look obj g as sn buf ts st =
    Inr ((status_ret st1, concat (ev_value ev) @ drop (length (g_dist g) * length as) buf1,
          concat (ev_timeStamp ev) @ drop (length (g_dist g) * length as) ts1, st1), g, s1, n2)"
proof -
  have rows: "store_rows (dist_offsets g (length as)) (ev_value ev) (ev_timeStamp ev) buf1 ts1 =
      Inr (concat (ev_value ev) @ drop (length (g_dist g) * length as) buf1,
           concat (ev_timeStamp ev) @ drop (length (g_dist g) * length as) ts1)"
    using store_rows_eq [of "ev_value ev" "length as" "ev_timeStamp ev" 0 buf1 ts1] assms(7-12)
    by (simp add: dist_offsets_def)
  show ?thesis
    using assms(1-7) rows
    by (simp add: grp_attrGetValues_def grp_channel_def new_req_def wait_for_def send_def req_getValue_def Let_def
        dist_offsets_def)
qed

text \<open>
  When the connection breaks before the answer comes, reading a remote attribute of one object
  reports \<^verbatim>\<open>PWR_RET_IPC\<close>, but reading it through a group, or starting and stopping its log, reports success with
  nothing read or started.
\<close>

theorem broken_connection_unnoticed:
  assumes "comm (attrInfo ob a) = Some c" and "devices (attrInfo ob a) = []" and "channel n" and "inbox n = []"
    and "obj x = ob" and "g_list g = []" and "g_dist g = [x]" and "distObject_comm ob = Inr (Some c)"
  shows "(\<exists>n'. dist_attrGetValue look ob a (s, n) v t = Inr ((RET_IPC, [U64 0], [0]), (s, n'))) \<and>
    (\<exists>g' n'. grp_attrGetValue look obj g a (s, n) buf ts [] = Inr ((RET_SUCCESS, buf, ts, []), g', (s, n'))) \<and>
    (\<exists>n'. dist_attrStartLog look ob a (s, n) = Inr (RET_SUCCESS, (s, n'))) \<and>
    (\<exists>n'. dist_attrStopLog look ob a (s, n) = Inr (RET_SUCCESS, (s, n')))"
proof -
  have v: "isValid (attrInfo ob a)" using assms(1) by (simp add: isValid_def)
  have d: "attrGetValuesDevice (attrInfo ob a) a s b u = Inr ((RET_SUCCESS, b, u), s)" for b u
    using assms(2) by (simp add: attrGetValuesDevice_def)
  have l: "get_values_loop ob 0 [a] s [v] [t] [] = Inr (([U64 0], [0], []), s)"
    using v by (simp add: arr_set_ok d)
  have g: "attrGetValues ob 0 [a] s [v] [t] [] = Inr ((RET_SUCCESS, [U64 0], [0], []), s)"
    unfolding attrGetValues_def l by simp
  note net = new_req_def getChannel_def wait_for_def send_def Let_def
  have "\<exists>n'. dist_attrGetValue look ob a (s, n) v t = Inr ((RET_IPC, [U64 0], [0]), (s, n'))"
    using assms(1,3,4)
    by (simp add: dist_attrGetValue_def dist_attrGetValues_def g same_comm_def net RET_IPC_def RET_STATUS_def)
  moreover have "\<exists>g' n'. grp_attrGetValue look obj g a (s, n) buf ts [] = Inr ((RET_SUCCESS, buf, ts, []), g', (s, n'))"
    using assms by (simp add: grp_attrGetValue_def grp_attrGetValues_def grp_channel_def net)
  moreover have "\<exists>n'. dist_log look f msg ob a (s, n) = Inr (RET_SUCCESS, (s, n'))"
    if "f = attrStartLog \<or> f = attrStopLog" for f :: "'a object \<Rightarrow> attr \<Rightarrow> 'a \<Rightarrow> (int \<times> 'a) res" and msg
    using that assms(1-4) v by (auto simp: dist_log_def attrStartLog_def attrStopLog_def net)
  ultimately show ?thesis by (simp add: dist_attrStartLog_def dist_attrStopLog_def)
qed
subsection \<open>Concrete instances\<close>

definition demo_net :: net where
  "demo_net = \<lparr>channel = True, inbox = [], outbox = [], created = [], next_id = 3\<rparr>"

definition demo_event :: resp_event where
  "demo_event = \<lparr>ev_id = 3, ev_value = [[Dbl 99]], ev_timeStamp = [[8]], ev_errObj = [], ev_errAttr = [],
     ev_errValue = [], ev_startTime = 0, ev_data = []\<rparr>"

definition remote_obj :: "string \<Rightarrow> 's object" where
  "remote_obj name = \<lparr>o_name = name, o_type = OBJ_NODE,
     attrInfo = (\<lambda>_. \<lparr>devices = [], comm = Some {name}, operation = Some sumOp, calcTime = timeOp,
       valueOp = FP_ADD\<rparr>)\<rparr>"

definition demo_objs :: "string \<Rightarrow> (dummy_fd list \<times> os) object" where
  "demo_objs x = (if x = ''n'' then du_demo_obj x [0, 1] else remote_obj x)"

definition demo_state :: "dummy_fd list \<times> os" where
  "demo_state = ([du_demo_fd 5, du_demo_fd 7], du_demo_os)"

lemma demo_comm: "comm (attrInfo (demo_objs ''n'') a) = None"
  by (simp add: demo_objs_def du_demo_obj_def)

lemma demo_get:
  "attrGetValuesDevice (attrInfo (demo_objs ''n'') ATTR_ENERGY) ATTR_ENERGY demo_state b u =
     Inr ((RET_SUCCESS, Dbl 12, 0), ([du_demo_fd 5, du_demo_fd 7], du_demo_os\<lparr>ticks := 2\<rparr>))"
proof -
  let ?i = "attrInfo (demo_objs ''n'') ATTR_ENERGY"
  have i: "devices ?i = [du_dev 0, du_dev 1]" "operation ?i = Some sumOp" "calcTime ?i = timeOp"
    by (simp_all add: demo_objs_def du_demo_obj_def)
  have r: "reads ATTR_ENERGY demo_state (devices ?i) [5, 7] [0, 0]
      ([du_demo_fd 5, du_demo_fd 7], du_demo_os\<lparr>ticks := 2\<rparr>)"
    unfolding demo_state_def i(1) by (rule du_demo_reads)
  have "sumOp (map Dbl [5, 7]) = Inr (Dbl 12)" by (subst sumOp_Dbl) simp
  from attrGetValuesDevice_reads [OF r _ i(2,3) this] i(1) show ?thesis by simp
qed

lemma demo_valid: "isValid (attrInfo (demo_objs ''n'') ATTR_ENERGY)"
  by (simp add: demo_objs_def du_demo_obj_def isValid_def)

lemma demo_local_get:
  "grp_local_get (\<lambda>_. None) demo_objs 0 [''n''] [ATTR_ENERGY] (demo_state, n) [Uninit, Uninit] [7, 7] [] =
     Inr ((RET_SUCCESS, [Dbl 12, Uninit], [0, 7], []), (([du_demo_fd 5, du_demo_fd 7], du_demo_os\<lparr>ticks := 2\<rparr>), n))"
  by (simp add: dist_attrGetValues_local [OF demo_comm] attrGetValues_def arr_set_ok demo_valid demo_get)

theorem dist_local_equivalent_witness:
  "dist_attrGetValue (\<lambda>_. None) (demo_objs ''n'') ATTR_ENERGY (demo_state, demo_net) Uninit 9 =
     Inr ((RET_SUCCESS, [Dbl 12], [0]), (([du_demo_fd 5, du_demo_fd 7], du_demo_os\<lparr>ticks := 2\<rparr>), demo_net))"
proof -
  have "isLocal (demo_objs ''n'') = Inr True" by (simp add: isLocal_iff demo_comm)
  from dist_local_equivalent [OF this, of "\<lambda>_. None" ATTR_ENERGY demo_state demo_net Uninit 9]
  show ?thesis by (simp add: attrGetValue_unfold demo_valid demo_get)
qed

definition demo_grp :: grp where
  "demo_grp = \<lparr>g_list = [''n''], g_dist = [], g_all = [''n''], g_comm = False\<rparr>"

theorem grp_duplicate_counts_twice_witness:
  "grp_add demo_objs demo_grp ''n'' = Inr (RET_SUCCESS, demo_grp\<lparr>g_all := [''n'', ''n'']\<rparr>) \<and>
   grp_attrGetValues (\<lambda>_. None) demo_objs (demo_grp\<lparr>g_all := [''n'', ''n'']\<rparr>) [ATTR_ENERGY] (demo_state, demo_net)
     [Uninit, Uninit] [7, 7] [] =
     Inr ((RET_SUCCESS, [Dbl 12, Uninit], [0, 7], []), demo_grp\<lparr>g_all := [''n'', ''n'']\<rparr>,
          (([du_demo_fd 5, du_demo_fd 7], du_demo_os\<lparr>ticks := 2\<rparr>), demo_net))"
proof -
  have l: "isLocal (demo_objs ''n'') = Inr True" by (simp add: isLocal_iff demo_comm)
  have g: "''n'' \<in> set (g_list demo_grp)" "g_dist demo_grp = []"
    "demo_grp\<lparr>g_all := [''n'', ''n'']\<rparr> = demo_grp\<lparr>g_all := g_all demo_grp @ [''n'']\<rparr>"
    by (simp_all add: demo_grp_def)
  have c: "comm (attrInfo (demo_objs y) a) = None" if "y \<in> set (g_list demo_grp)" for y a
    using that demo_comm by (simp add: demo_grp_def)
  have r: "grp_attrGetValues (\<lambda>_. None) demo_objs demo_grp [ATTR_ENERGY] (demo_state, demo_net) [Uninit, Uninit] [7, 7] [] =
      Inr ((RET_SUCCESS, [Dbl 12, Uninit], [0, 7], []), demo_grp,
        (([du_demo_fd 5, du_demo_fd 7], du_demo_os\<lparr>ticks := 2\<rparr>), demo_net))"
    using demo_local_get [of demo_net]
    by (subst grp_attrGetValues_local [OF g(2)]) (simp add: demo_grp_def del: grp_local_get.simps)
  from grp_duplicate_counts_twice [of demo_objs "''n''" demo_grp _ "\<lambda>_. None" "[ATTR_ENERGY]"
      "(demo_state, demo_net)" "[Uninit, Uninit]" "[7, 7]" "[]", OF l g(1,2) c g(3)]
  show ?thesis unfolding r by simp
qed

theorem grp_remote_rows_overwrite_witness:
  "\<exists>n2. grp_attrGetValues (\<lambda>_. None) demo_objs
     \<lparr>g_list = [''n''], g_dist = [''r''], g_all = [''n'', ''r''], g_comm = True\<rparr> [ATTR_ENERGY]
     (demo_state, demo_net\<lparr>inbox := [demo_event]\<rparr>) [Uninit, Uninit] [7, 7] [] =
     Inr ((RET_SUCCESS, [Dbl 99, Uninit], [8, 7], []),
       \<lparr>g_list = [''n''], g_dist = [''r''], g_all = [''n'', ''r''], g_comm = True\<rparr>,
       ([du_demo_fd 5, du_demo_fd 7], du_demo_os\<lparr>ticks := 2\<rparr>), n2)"
  using grp_remote_rows_overwrite [of "\<lambda>_. None" demo_objs
      "\<lparr>g_list = [''n''], g_dist = [''r''], g_all = [''n'', ''r''], g_comm = True\<rparr>" "[ATTR_ENERGY]"
      "(demo_state, demo_net\<lparr>inbox := [demo_event]\<rparr>)" "[Uninit, Uninit]" "[7, 7]" "[]" _ _ _ _ _ demo_event "[]"]
    demo_local_get [of "demo_net\<lparr>inbox := [demo_event]\<rparr>"]
  by (simp add: demo_event_def demo_net_def del: grp_local_get.simps)

lemma remote_obj_comm: "distObject_comm (remote_obj x) = Inr (Some {x})"
  by (simp add: distObject_comm_iff remote_obj_def)

theorem broken_connection_unnoticed_witness:
  "(\<exists>n'. dist_attrGetValue (\<lambda>_. None) (remote_obj ''r'') ATTR_ENERGY (demo_state, demo_net) Uninit 9 =
      Inr ((RET_IPC, [U64 0], [0]), (demo_state, n'))) \<and>
   (\<exists>n'. dist_attrStartLog (\<lambda>_. None) (remote_obj ''r'') ATTR_ENERGY (demo_state, demo_net) =
      Inr (RET_SUCCESS, (demo_state, n')))"
  using broken_connection_unnoticed [of "remote_obj ''r''" ATTR_ENERGY "{''r''}" demo_net remote_obj "''r''"
      "\<lparr>g_list = [], g_dist = [''r''], g_all = [''r''], g_comm = False\<rparr>" "\<lambda>_. None" demo_state Uninit 9]
    remote_obj_comm [of "''r''", where 'a = "dummy_fd list \<times> os"]
  by (simp add: remote_obj_def demo_net_def)

end
