(* ===== verification/Pwr_Context.thy ===== *)
theory Pwr_Context
  imports Pwr_Dist
begin

text \<open>
  The context: finding the devices that serve an attribute of an object in the configured tree, opening
  each once, and creating objects and groups (\<^verbatim>\<open>src/pwr/distCntxt.cc\<close>, \<^verbatim>\<open>src/pwr/cntxt.cc\<close>).
\<close>

subsection \<open>The configuration\<close>

text \<open>
  The abstract class \<^verbatim>\<open>Config\<close> (\<^verbatim>\<open>src/pwr/config.h\<close>); an empty string is "none".  \<open>None\<close> is
  \<^verbatim>\<open>PWR_OBJ_INVALID\<close>.  A system device is its name, plugin and initialisation string.
\<close>

record config =
  findParent :: "string \<Rightarrow> string"
  findAttrHz :: "string \<Rightarrow> attr \<Rightarrow> string"
  findAttrOp :: "string \<Rightarrow> attr \<Rightarrow> string"
  findAttrType :: "string \<Rightarrow> attr \<Rightarrow> string"
  findAttrChildren :: "string \<Rightarrow> attr \<Rightarrow> string list"
  findChildren :: "string \<Rightarrow> string list"
  hasServer :: "string \<Rightarrow> bool"
  findObjDevs :: "string \<Rightarrow> attr \<Rightarrow> (string \<times> string) list"
  findPlugins :: "(string \<times> string) list"
  findSysDevs :: "(string \<times> string \<times> string) list"
  objType :: "string \<Rightarrow> obj_type option"

subsection \<open>Plugins and the maps of the context\<close>

text \<open>
  \<open>'o\<close> is the type of the operation-table pointers a plugin's \<^verbatim>\<open>init\<close> returns; \<open>p_open\<close> is the table's
  \<^verbatim>\<open>open\<close>, giving the table closed over the new descriptor; \<open>None\<close> is a null pointer.
\<close>

record ('o, 's) plugin =
  p_init :: "string \<Rightarrow> 's \<Rightarrow> ('o option \<times> 's) res"
  p_open :: "'o \<Rightarrow> string \<Rightarrow> 's \<Rightarrow> ('s devops option \<times> 's) res"

text \<open>
  \<open>devMap\<close>: initialised devices with their plugin and table; \<open>deviceMap\<close>: opened devices by table and open string.
\<close>

record ('o, 's) cntxt =
  pluginLibMap :: "string \<rightharpoonup> ('o, 's) plugin"
  devMap :: "string \<rightharpoonup> ('o, 's) plugin \<times> 'o"
  deviceMap :: "(('o \<times> string) \<times> 's devops) list"
  cfg :: config
  rootName :: string
  objMap :: "string \<rightharpoonup> 's object"

type_synonym ('o, 's) cx = "('o, 's) cntxt \<times> 's"

text \<open>\<open>loader lib name\<close> is \<^verbatim>\<open>getDev\<close>: loading a shared object.\<close>

fun load_plugins ::
  "(string \<Rightarrow> string \<Rightarrow> ('o, 's) plugin option) \<Rightarrow> string \<Rightarrow> (string \<times> string) list
   \<Rightarrow> (string \<rightharpoonup> ('o, 's) plugin) \<Rightarrow> (string \<rightharpoonup> ('o, 's) plugin) res" where
  "load_plugins loader ext [] m = Inr m"
| "load_plugins loader ext ((name, lib) # ps) m =
     (case loader (lib @ ext) name of
        None \<Rightarrow> Inl AssertFailed
      | Some p \<Rightarrow> load_plugins loader ext ps (m(name \<mapsto> p)))"

definition initPlugins ::
  "(string \<Rightarrow> string \<Rightarrow> ('o, 's) plugin option) \<Rightarrow> string \<Rightarrow> ('o, 's) cntxt \<Rightarrow> ('o, 's) cntxt res" where
  "initPlugins loader os cx =
     rbind (load_plugins loader (if os = ''Darwin'' then ''.dylib'' else ''.so'')
              (findPlugins (cfg cx)) (pluginLibMap cx)) (\<lambda>m. Inr (cx\<lparr>pluginLibMap := m\<rparr>))"

text \<open>The first system device of the name is initialised; \<open>False\<close> if there is none.\<close>

fun init_from ::
  "(string \<times> string \<times> string) list \<Rightarrow> string \<Rightarrow> ('o, 's) cx \<Rightarrow> (bool \<times> ('o, 's) cx) res" where
  "init_from [] dn cs = Inr (False, cs)"
| "init_from ((name, plug, ini) # devs) dn cs =
     (if dn = name then
        (case pluginLibMap (fst cs) plug of
           None \<Rightarrow> Inl NullCall
         | Some p \<Rightarrow>
             rbind (p_init p ini (snd cs)) (\<lambda>(ops, s').
             case ops of
               None \<Rightarrow> Inl AssertFailed
             | Some ops' \<Rightarrow> Inr (True, (fst cs)\<lparr>devMap := (devMap (fst cs))(name \<mapsto> (p, ops'))\<rparr>, s')))
      else init_from devs dn cs)"

definition initDevice :: "string \<Rightarrow> ('o, 's) cx \<Rightarrow> (bool \<times> ('o, 's) cx) res" where
  "initDevice dn cs = init_from (findSysDevs (cfg (fst cs))) dn cs"

text \<open>One entry of the device list of an object: initialise the device if needed, open it if needed.\<close>

definition ensureDevice :: "string \<Rightarrow> ('o, 's) cx \<Rightarrow> ('o, 's) cx res" where
  "ensureDevice dn cs =
     (if devMap (fst cs) dn = None then rbind (initDevice dn cs) (\<lambda>(b, cs'). c_assert b (Inr cs'))
      else Inr cs)"

definition openDevice ::
  "('o, 's) plugin \<Rightarrow> 'o \<Rightarrow> string \<Rightarrow> ('o, 's) cx \<Rightarrow> ('s devops \<times> ('o, 's) cx) res" where
  "openDevice p ops str cs =
     (case map_of (deviceMap (fst cs)) (ops, str) of
        Some d \<Rightarrow> Inr (d, cs)
      | None \<Rightarrow>
          rbind (p_open p ops str (snd cs)) (\<lambda>(fd, s').
          case fd of
            None \<Rightarrow> Inl AssertFailed
          | Some d \<Rightarrow> Inr (d, (fst cs)\<lparr>deviceMap := deviceMap (fst cs) @ [((ops, str), d)]\<rparr>, s')))"

definition useDevice :: "string \<times> string \<Rightarrow> ('o, 's) cx \<Rightarrow> ('s devops \<times> ('o, 's) cx) res" where
  "useDevice dv cs =
     rbind (ensureDevice (fst dv) cs) (\<lambda>cs1.
     case devMap (fst cs1) (fst dv) of
       None \<Rightarrow> Inl NullCall
     | Some (p, ops) \<Rightarrow> openDevice p ops (snd dv) cs1)"

subsection \<open>Traversal of the tree\<close>

text \<open>Sequencing over a list, collecting nothing but the state.\<close>

fun run_all :: "('a \<Rightarrow> 'st \<Rightarrow> 'st res) \<Rightarrow> 'a list \<Rightarrow> 'st \<Rightarrow> 'st res" where
  "run_all f [] st = Inr st"
| "run_all f (x # xs) st = rbind (f x st) (run_all f xs)"

text \<open>The state of a traversal: the context, the local devices and the remote objects found so far.\<close>

type_synonym ('o, 's) trav = "('o, 's) cx \<times> 's devops list \<times> string set"

definition addDevice :: "string \<times> string \<Rightarrow> ('o, 's) trav \<Rightarrow> ('o, 's) trav res" where
  "addDevice dv st =
     (let (cs, loc, rem) = st in rbind (useDevice dv cs) (\<lambda>(d, cs'). Inr (cs', loc @ [d], rem)))"

text \<open>
  The recursion over the children has no bound of its own: a configuration with a cycle runs out of
  stack.  The depth is a parameter, running out of it is \<open>Diverges\<close>.
\<close>

fun traverse :: "nat \<Rightarrow> attr \<Rightarrow> string \<Rightarrow> ('o, 's) trav \<Rightarrow> ('o, 's) trav res" where
  "traverse 0 a name st = Inl Diverges"
| "traverse (Suc k) a name st =
     (let (cs, loc, rem) = st; cf = cfg (fst cs) in
      if hasServer cf name \<and> name \<noteq> rootName (fst cs) then Inr (cs, loc, insert name rem)
      else
        rbind (run_all addDevice (findObjDevs cf name a) st) (\<lambda>st'.
        if canAggregate a then run_all (traverse k a) (findAttrChildren cf name a) st'
        else Inr st'))"

definition pickOp :: "string \<Rightarrow> string \<Rightarrow> ((cell list \<Rightarrow> cell res) option \<times> value_op) res" where
  "pickOp opn ty =
     (if opn = ''SUM'' then
        (if ty = ''Float'' then Inr (Some sumOp, FP_ADD)
         else if ty = ''Integer'' then Inr (Some sumOp, INT_ADD) else Inl AssertFailed)
      else if opn = ''AVG'' then
        (if ty = ''Float'' then Inr (Some avgOp, FP_AVG)
         else if ty = ''Integer'' then Inr (Some avgOp, INT_AVG) else Inl AssertFailed)
      else Inr (None, NO_OP))"

definition initAttr ::
  "nat \<Rightarrow> string \<Rightarrow> attr \<Rightarrow> ('o, 's) cx \<Rightarrow> ('s attr_info \<times> ('o, 's) cx) res" where
  "initAttr k name a cs =
     rbind (pickOp (findAttrOp (cfg (fst cs)) name a) (findAttrType (cfg (fst cs)) name a)) (\<lambda>(opf, vop).
     if vop = NO_OP then
       Inr (\<lparr>devices = [], comm = None, operation = opf, calcTime = timeOp, valueOp = vop\<rparr>, cs)
     else
       rbind (traverse k a name (cs, [], {})) (\<lambda>(cs', loc, rem).
       Inr (\<lparr>devices = loc, comm = (if rem = {} then None else Some rem), operation = opf,
             calcTime = timeOp, valueOp = vop\<rparr>, cs')))"

subsection \<open>Objects\<close>

text \<open>The constructors \<^verbatim>\<open>Object\<close> and \<^verbatim>\<open>DistObject\<close>: every attribute in the order of the enumeration.\<close>

fun init_attrs ::
  "nat \<Rightarrow> string \<Rightarrow> attr list \<Rightarrow> (attr \<Rightarrow> 's attr_info) \<Rightarrow> ('o, 's) cx
   \<Rightarrow> ((attr \<Rightarrow> 's attr_info) \<times> ('o, 's) cx) res" where
  "init_attrs k name [] m cs = Inr (m, cs)"
| "init_attrs k name (a # as) m cs =
     rbind (initAttr k name a cs) (\<lambda>(info, cs'). init_attrs k name as (m(a := info)) cs')"

definition no_info :: "attr \<Rightarrow> 's attr_info" where
  "no_info a = \<lparr>devices = [], comm = None, operation = None, calcTime = timeOp, valueOp = NO_OP\<rparr>"

definition createObject ::
  "nat \<Rightarrow> string \<Rightarrow> obj_type \<Rightarrow> ('o, 's) cx \<Rightarrow> ('s object \<times> ('o, 's) cx) res" where
  "createObject k name t cs =
     rbind (init_attrs k name all_attrs no_info cs) (\<lambda>(m, cs').
     let ob = \<lparr>o_name = name, o_type = t, attrInfo = m\<rparr>
     in rbind (distObject_comm ob) (\<lambda>_. Inr (ob, cs')))"

definition findObject ::
  "nat \<Rightarrow> string \<Rightarrow> ('o, 's) cx \<Rightarrow> ('s object option \<times> ('o, 's) cx) res" where
  "findObject k name cs =
     (case objMap (fst cs) name of
        Some ob \<Rightarrow> Inr (Some ob, cs)
      | None \<Rightarrow>
          (case objType (cfg (fst cs)) name of
             None \<Rightarrow> Inr (None, cs)
           | Some t \<Rightarrow>
               rbind (createObject k name t cs) (\<lambda>(ob, (cx, s)).
               Inr (Some ob, cx\<lparr>objMap := (objMap cx)(name \<mapsto> ob)\<rparr>, s))))"

text \<open>A name that must be an object: \<^verbatim>\<open>assert( tmp )\<close>.\<close>

definition mustFind :: "nat \<Rightarrow> string \<Rightarrow> ('o, 's) cx \<Rightarrow> ('s object \<times> ('o, 's) cx) res" where
  "mustFind k name cs =
     rbind (findObject k name cs) (\<lambda>(ob, cs').
     case ob of None \<Rightarrow> Inl AssertFailed | Some x \<Rightarrow> Inr (x, cs'))"

definition getParent ::
  "nat \<Rightarrow> string \<Rightarrow> ('o, 's) cx \<Rightarrow> ('s object option \<times> ('o, 's) cx) res" where
  "getParent k name cs =
     (if name = rootName (fst cs) then Inr (None, cs)
      else let p = findParent (cfg (fst cs)) name
           in if p = [] then Inr (None, cs)
              else rbind (mustFind k p cs) (\<lambda>(ob, cs'). Inr (Some ob, cs')))"

subsection \<open>Groups\<close>

text \<open>The group operations see the objects of the context; every member has one.\<close>

definition obj_of :: "('o, 's) cntxt \<Rightarrow> string \<Rightarrow> 's object" where
  "obj_of cx name =
     (case objMap cx name of Some ob \<Rightarrow> ob
      | None \<Rightarrow> \<lparr>o_name = name, o_type = OBJ_PLATFORM, attrInfo = no_info\<rparr>)"

text \<open>\<^verbatim>\<open>DistCntxt::createGrp\<close> overrides the base class: the name is not entered in the map of groups.\<close>

definition createGrp :: "string \<Rightarrow> grp" where
  "createGrp name = empty_grp"

text \<open>
  \<^verbatim>\<open>Cntxt::getChildren\<close> makes a group of the base class (\<^verbatim>\<open>new Grp\<close>), whose list holds remote members too and
  refuses duplicates.
\<close>

definition addChildBase :: "nat \<Rightarrow> string \<Rightarrow> string list \<times> ('o, 's) cx \<Rightarrow> (string list \<times> ('o, 's) cx) res" where
  "addChildBase k name st =
     (let (g, cs) = st in
      rbind (mustFind k name cs) (\<lambda>(ob, cs'). Inr (snd (base_add g name), cs')))"

definition getChildren :: "nat \<Rightarrow> string \<Rightarrow> ('o, 's) cx \<Rightarrow> (string list \<times> ('o, 's) cx) res" where
  "getChildren k name cs =
     run_all (addChildBase k) (findChildren (cfg (fst cs)) name) ([], cs)"

text \<open>An object of the type is added and not searched further.\<close>

fun findAllObjType ::
  "nat \<Rightarrow> nat \<Rightarrow> obj_type \<Rightarrow> string \<Rightarrow> grp \<times> ('o, 's) cx \<Rightarrow> (grp \<times> ('o, 's) cx) res" where
  "findAllObjType 0 k t name st = Inl Diverges"
| "findAllObjType (Suc n) k t name st =
     (let (g, cs) = st in
      rbind (mustFind k name cs) (\<lambda>(ob, cs').
      if o_type ob = t then
        rbind (grp_add (obj_of (fst cs')) g name) (\<lambda>(_, g'). Inr (g', cs'))
      else run_all (findAllObjType n k t) (findChildren (cfg (fst cs')) name) (g, cs')))"

definition getGrp ::
  "nat \<Rightarrow> nat \<Rightarrow> obj_type \<Rightarrow> ('o, 's) cx \<Rightarrow> (grp option \<times> ('o, 's) cx) res" where
  "getGrp n k t cs =
     rbind (findAllObjType n k t (rootName (fst cs)) (createGrp (''internal'' @ objTypeToString t), cs))
       (\<lambda>(g, cs'). Inr (if grp_size g = 0 then None else Some g, cs'))"

subsection \<open>Every device is opened once\<close>

text \<open>
  \<open>handle cx (dn, str)\<close> is the device a context has open for an entry of the configuration.  A context grows: what
  is initialised and opened stays so.
\<close>

definition handle :: "('o, 's) cntxt \<Rightarrow> string \<times> string \<Rightarrow> 's devops option" where
  "handle cx dv =
     (case devMap cx (fst dv) of None \<Rightarrow> None
      | Some (p, ops) \<Rightarrow> map_of (deviceMap cx) (ops, snd dv))"

definition cx_ok :: "('o, 's) cntxt \<Rightarrow> bool" where
  "cx_ok cx \<longleftrightarrow> distinct (map fst (deviceMap cx))"

definition grows :: "('o, 's) cntxt \<Rightarrow> ('o, 's) cntxt \<Rightarrow> bool" where
  "grows cx cx' \<longleftrightarrow> cfg cx' = cfg cx \<and> rootName cx' = rootName cx \<and> pluginLibMap cx' = pluginLibMap cx \<and>
     objMap cx' = objMap cx \<and> devMap cx \<subseteq>\<^sub>m devMap cx' \<and> (\<exists>new. deviceMap cx' = deviceMap cx @ new)"

lemma grows_refl [simp]: "grows cx cx"
  by (simp add: grows_def)

lemma grows_trans: "grows a b \<Longrightarrow> grows b c \<Longrightarrow> grows a c"
  by (auto simp: grows_def intro: map_le_trans)

lemma handle_grows:
  assumes "grows cx cx'" and "handle cx dv = Some d"
  shows "handle cx' dv = Some d"
proof -
  from assms(2) obtain p ops where d: "devMap cx (fst dv) = Some (p, ops)"
    and m: "map_of (deviceMap cx) (ops, snd dv) = Some d"
    by (auto simp: handle_def split: option.splits)
  from assms(1) d have "devMap cx' (fst dv) = Some (p, ops)"
    by (metis domI grows_def map_le_def)
  with assms(1) m show ?thesis by (auto simp: handle_def grows_def map_add_def)
qed

lemma init_from_grows:
  "init_from devs dn (cx, s) = Inr (b, (cx', s')) \<Longrightarrow> devMap cx dn = None \<Longrightarrow>
   grows cx cx' \<and> deviceMap cx' = deviceMap cx"
  by (induction devs dn "(cx, s)" rule: init_from.induct)
    (auto simp: res_simps grows_def map_le_def split: if_splits option.splits)

lemma ensureDevice_grows:
  "ensureDevice dn (cx, s) = Inr (cx', s') \<Longrightarrow> grows cx cx' \<and> deviceMap cx' = deviceMap cx"
  by (auto simp: ensureDevice_def initDevice_def res_simps split: if_splits dest: init_from_grows)

lemma openDevice_spec:
  assumes "openDevice p ops str (cx, s) = Inr (d, (cx', s'))"
  shows "(cx_ok cx \<longrightarrow> cx_ok cx') \<and> grows cx cx' \<and> devMap cx' = devMap cx \<and>
    map_of (deviceMap cx') (ops, str) = Some d"
proof (cases "map_of (deviceMap cx) (ops, str)")
  case None
  then have "(ops, str) \<notin> fst ` set (deviceMap cx)" by (simp add: map_of_eq_None_iff)
  with None assms show ?thesis
    by (auto simp: openDevice_def res_simps cx_ok_def grows_def map_add_def split: option.splits)
qed (use assms in \<open>simp add: openDevice_def\<close>)

lemma useDevice_spec:
  assumes u: "useDevice dv (cx, s) = Inr (d, (cx', s'))"
  shows "(cx_ok cx \<longrightarrow> cx_ok cx') \<and> grows cx cx' \<and> handle cx' dv = Some d"
proof -
  from u obtain cx1 s1 p ops where e: "ensureDevice (fst dv) (cx, s) = Inr (cx1, s1)"
    and p: "devMap cx1 (fst dv) = Some (p, ops)" and o: "openDevice p ops (snd dv) (cx1, s1) = Inr (d, (cx', s'))"
    by (auto simp: useDevice_def elim!: rbind_eq_InrE split: option.splits)
  from ensureDevice_grows [OF e] openDevice_spec [OF o] p show ?thesis
    by (auto simp: handle_def cx_ok_def intro: grows_trans)
qed

subsection \<open>The traversal refines the list of the tree's entries\<close>

text \<open>
  What an attribute of an object is served by, read off the configuration alone: the entries of the object and,
  if the attribute aggregates, those of its children in order; remote objects cut the tree.
\<close>

fun tree_devs :: "nat \<Rightarrow> config \<Rightarrow> string \<Rightarrow> attr \<Rightarrow> string \<Rightarrow> (string \<times> string) list" where
  "tree_devs 0 cf rt a name = []"
| "tree_devs (Suc k) cf rt a name =
     (if hasServer cf name \<and> name \<noteq> rt then []
      else findObjDevs cf name a @
        (if canAggregate a then concat (map (tree_devs k cf rt a) (findAttrChildren cf name a)) else []))"

fun tree_remote :: "nat \<Rightarrow> config \<Rightarrow> string \<Rightarrow> attr \<Rightarrow> string \<Rightarrow> string set" where
  "tree_remote 0 cf rt a name = {}"
| "tree_remote (Suc k) cf rt a name =
     (if hasServer cf name \<and> name \<noteq> rt then {name}
      else if canAggregate a then \<Union> (set (map (tree_remote k cf rt a) (findAttrChildren cf name a))) else {})"

text \<open>One step of the traversal adds the handles of some entries and some remote objects.\<close>

definition adds ::
  "(string \<times> string) list \<Rightarrow> string set \<Rightarrow> ('o, 's) trav \<Rightarrow> ('o, 's) trav \<Rightarrow> bool" where
  "adds dvs rs st st' \<longleftrightarrow>
     (case (st, st') of (((cx, s), loc, rem), ((cx', s'), loc', rem')) \<Rightarrow>
        cx_ok cx' \<and> grows cx cx' \<and> rem' = rem \<union> rs \<and>
        (\<exists>ds. loc' = loc @ ds \<and> map (handle cx') dvs = map Some ds))"

lemma adds_refl: "cx_ok (fst (fst st)) \<Longrightarrow> adds [] {} st st"
  by (cases st) (auto simp: adds_def)

lemma adds_trans:
  assumes "adds d1 r1 st1 st2" and "adds d2 r2 st2 st3"
  shows "adds (d1 @ d2) (r1 \<union> r2) st1 st3"
proof -
  obtain cx1 s1 l1 m1 where 1: "st1 = ((cx1, s1), l1, m1)" by (cases st1) auto
  obtain cx2 s2 l2 m2 where 2: "st2 = ((cx2, s2), l2, m2)" by (cases st2) auto
  obtain cx3 s3 l3 m3 where 3: "st3 = ((cx3, s3), l3, m3)" by (cases st3) auto
  from assms obtain ds1 ds2 where
    a: "cx_ok cx3" "grows cx1 cx2" "grows cx2 cx3" "m3 = m1 \<union> r1 \<union> r2" "l3 = l1 @ ds1 @ ds2"
    "map (handle cx2) d1 = map Some ds1" "map (handle cx3) d2 = map Some ds2"
    by (auto simp: adds_def 1 2 3)
  from a(6) handle_grows [OF a(3)] have "map (handle cx3) d1 = map Some ds1"
    by (auto simp: list_eq_iff_nth_eq)
  with a show ?thesis
    by (auto simp: adds_def 1 3 intro: grows_trans intro!: exI [of _ "ds1 @ ds2"])
qed

lemma adds_cfg: "adds d r st st' \<Longrightarrow> cfg (fst (fst st')) = cfg (fst (fst st)) \<and>
    rootName (fst (fst st')) = rootName (fst (fst st)) \<and> cx_ok (fst (fst st'))"
  by (cases st; cases st') (auto simp: adds_def grows_def)

lemma run_all_adds:
  assumes "\<And>x st st'. x \<in> set xs \<Longrightarrow> cx_ok (fst (fst st)) \<Longrightarrow> cfg (fst (fst st)) = cf \<Longrightarrow>
      rootName (fst (fst st)) = rt \<Longrightarrow> f x st = Inr st' \<Longrightarrow> adds (dv x) (rs x) st st'"
  shows "cx_ok (fst (fst st)) \<Longrightarrow> cfg (fst (fst st)) = cf \<Longrightarrow> rootName (fst (fst st)) = rt \<Longrightarrow>
    run_all f xs st = Inr st' \<Longrightarrow> adds (concat (map dv xs)) (\<Union> (set (map rs xs))) st st'"
  using assms
proof (induction xs arbitrary: st)
  case Nil
  then show ?case by (auto intro: adds_refl)
next
  case (Cons x xs)
  from Cons.prems(4) obtain st1 where 1: "f x st = Inr st1" and 2: "run_all f xs st1 = Inr st'"
    by (auto elim!: rbind_eq_InrE)
  have a: "adds (dv x) (rs x) st st1" using Cons.prems(1-3,5) 1 by simp
  have "adds (concat (map dv xs)) (\<Union> (set (map rs xs))) st1 st'"
    using adds_cfg [OF a] Cons.prems 2 by (intro Cons.IH) auto
  from adds_trans [OF a this] show ?case by simp
qed

lemma addDevice_adds:
  "cx_ok (fst (fst st)) \<Longrightarrow> addDevice dv st = Inr st' \<Longrightarrow> adds [dv] {} st st'"
  by (cases st) (auto simp: addDevice_def adds_def res_simps dest: useDevice_spec)

lemma traverse_adds:
  "cx_ok (fst (fst st)) \<Longrightarrow> cfg (fst (fst st)) = cf \<Longrightarrow> rootName (fst (fst st)) = rt \<Longrightarrow>
   traverse k a name st = Inr st' \<Longrightarrow> adds (tree_devs k cf rt a name) (tree_remote k cf rt a name) st st'"
proof (induction k arbitrary: name st st')
  case (Suc k)
  show ?case
  proof (cases "hasServer cf name \<and> name \<noteq> rt")
    case True
    with Suc.prems show ?thesis by (cases st) (auto simp: adds_def Let_def)
  next
    case False
    with Suc.prems obtain st1 where
      1: "run_all addDevice (findObjDevs cf name a) st = Inr st1"
      and 2: "(if canAggregate a then run_all (traverse k a) (findAttrChildren cf name a) st1 else Inr st1) = Inr st'"
      by (cases st) (auto simp: Let_def elim!: rbind_eq_InrE)
    have a1: "adds (concat (map (\<lambda>x. [x]) (findObjDevs cf name a))) (\<Union> (set (map (\<lambda>_. {}) (findObjDevs cf name a)))) st st1"
      using Suc.prems 1 by (intro run_all_adds [where f = addDevice]) (auto intro: addDevice_adds)
    then have a1': "adds (findObjDevs cf name a) {} st st1" by simp
    show ?thesis
    proof (cases "canAggregate a")
      case True
      with 2 adds_cfg [OF a1'] Suc.prems
      have "adds (concat (map (tree_devs k cf rt a) (findAttrChildren cf name a)))
          (\<Union> (set (map (tree_remote k cf rt a) (findAttrChildren cf name a)))) st1 st'"
        by (intro run_all_adds [where f = "traverse k a" and cf = cf and rt = rt] Suc.IH) simp_all
      from adds_trans [OF a1' this] False True show ?thesis by auto
    qed (use 2 a1' False in auto)
  qed
qed simp

lemma traverse_refines:
  assumes "traverse k a name ((cx, s), [], {}) = Inr ((cx', s'), loc, rem)" and "cx_ok cx"
  shows "map (handle cx') (tree_devs k (cfg cx) (rootName cx) a name) = map Some loc \<and>
    rem = tree_remote k (cfg cx) (rootName cx) a name \<and> cx_ok cx' \<and> grows cx cx'"
proof -
  have "adds (tree_devs k (cfg cx) (rootName cx) a name) (tree_remote k (cfg cx) (rootName cx) a name)
      ((cx, s), [], {}) ((cx', s'), loc, rem)"
    using assms by (intro traverse_adds) simp_all
  then show ?thesis by (simp add: adds_def)
qed

lemma pickOp_cases:
  assumes "pickOp opn ty = Inr (opf, vop)"
  shows "if opn = ''SUM'' then opf = Some sumOp \<and> vop \<noteq> NO_OP
    else if opn = ''AVG'' then opf = Some avgOp \<and> vop \<noteq> NO_OP else opf = None \<and> vop = NO_OP"
  using assms by (auto simp: pickOp_def split: if_splits)

lemma initAttrE:
  assumes "initAttr k name a (cx, s) = Inr (info, (cx', s'))"
  obtains
    (none) opf vop where "pickOp (findAttrOp (cfg cx) name a) (findAttrType (cfg cx) name a) = Inr (opf, vop)"
      "vop = NO_OP" "devices info = []" "comm info = None" "calcTime info = timeOp" "cx' = cx" "s' = s"
  | (op) opf vop loc rem where
      "pickOp (findAttrOp (cfg cx) name a) (findAttrType (cfg cx) name a) = Inr (opf, vop)"
      "vop \<noteq> NO_OP" "traverse k a name ((cx, s), [], {}) = Inr ((cx', s'), loc, rem)"
      "info = \<lparr>devices = loc, comm = (if rem = {} then None else Some rem), operation = opf,
             calcTime = timeOp, valueOp = vop\<rparr>"
proof (cases "pickOp (findAttrOp (cfg cx) name a) (findAttrType (cfg cx) name a)")
  case (Inr r)
  obtain opf vop where r: "r = (opf, vop)" by (cases r)
  show ?thesis
  proof (cases "vop = NO_OP")
    case True
    with assms Inr r show ?thesis by (auto simp: initAttr_def intro!: none)
  next
    case False
    with assms Inr r obtain loc rem where "traverse k a name ((cx, s), [], {}) = Inr ((cx', s'), loc, rem)"
      and "info = \<lparr>devices = loc, comm = (if rem = {} then None else Some rem), operation = opf,
             calcTime = timeOp, valueOp = vop\<rparr>"
      by (auto simp: initAttr_def elim!: rbind_eq_InrE)
    with op Inr r False show ?thesis by blast
  qed
qed (use assms in \<open>simp add: initAttr_def\<close>)

text \<open>
  C8.  The devices that serve an attribute of an object, as the context finds them by recursion with its
  caches, are exactly the entries of the configured tree in preorder (the object's own only, unless the attribute
  aggregates), each standing for the one device opened for its table and open string; the objects found remote are
  those at which the tree is cut.  Nothing that was open before is opened again or changed.
\<close>

theorem initAttr_refines:
  assumes "initAttr k name a (cx, s) = Inr (info, (cx', s'))" and "cx_ok cx"
    and "findAttrOp (cfg cx) name a = ''SUM'' \<or> findAttrOp (cfg cx) name a = ''AVG''"
  shows "map (handle cx') (tree_devs k (cfg cx) (rootName cx) a name) = map Some (devices info) \<and>
    comm info = (let r = tree_remote k (cfg cx) (rootName cx) a name in if r = {} then None else Some r) \<and>
    distinct (map fst (deviceMap cx')) \<and> (\<exists>new. deviceMap cx' = deviceMap cx @ new)"
  using assms(1)
proof (cases rule: initAttrE)
  case (none opf vop)
  with pickOp_cases [OF none(1)] assms(3) show ?thesis by (auto split: if_splits)
next
  case (op opf vop loc rem)
  from traverse_refines [OF op(3) assms(2)] op(4) show ?thesis
    by (simp add: cx_ok_def grows_def Let_def)
qed

subsection \<open>Depth\<close>

text \<open>
  When the configuration is a tree, that is, the children of an object have a smaller rank, a depth above
  the rank is enough, and the result does not depend on it.
\<close>

definition ranked :: "config \<Rightarrow> attr \<Rightarrow> (string \<Rightarrow> nat) \<Rightarrow> bool" where
  "ranked cf a r \<longleftrightarrow> (\<forall>name. \<forall>c\<in>set (findAttrChildren cf name a). r c < r name)"

definition p_returns :: "('o, 's) plugin \<Rightarrow> bool" where
  "p_returns p \<longleftrightarrow> (\<forall>str s. p_init p str s \<noteq> Inl Diverges) \<and> (\<forall>ops str s. p_open p ops str s \<noteq> Inl Diverges)"

lemma p_returnsD [simp]:
  "p_returns p \<Longrightarrow> p_init p str s \<noteq> Inl Diverges"
  "p_returns p \<Longrightarrow> p_open p ops str s \<noteq> Inl Diverges"
  by (simp_all add: p_returns_def)

definition plugins_return :: "('o, 's) cntxt \<Rightarrow> bool" where
  "plugins_return cx \<longleftrightarrow> (\<forall>n p. pluginLibMap cx n = Some p \<longrightarrow> p_returns p) \<and>
     (\<forall>n p ops. devMap cx n = Some (p, ops) \<longrightarrow> p_returns p)"

lemma plugins_return_deviceMap [simp]: "plugins_return (cx\<lparr>deviceMap := m\<rparr>) = plugins_return cx"
  by (simp add: plugins_return_def)

text \<open>What every step of a traversal keeps: the configuration, and that plugins return.\<close>

definition keeps :: "('o, 's) trav \<Rightarrow> ('o, 's) trav \<Rightarrow> bool" where
  "keeps st st' \<longleftrightarrow> cfg (fst (fst st')) = cfg (fst (fst st)) \<and>
     (plugins_return (fst (fst st)) \<longrightarrow> plugins_return (fst (fst st')))"

lemma keeps_refl [simp]: "keeps st st"
  by (simp add: keeps_def)

lemma keeps_trans: "keeps a b \<Longrightarrow> keeps b c \<Longrightarrow> keeps a c"
  by (auto simp: keeps_def)

lemma init_from_returns:
  assumes "plugins_return (fst cs)"
  shows "init_from devs dn cs \<noteq> Inl Diverges \<and>
    (\<forall>b cs'. init_from devs dn cs = Inr (b, cs') \<longrightarrow> plugins_return (fst cs'))"
  using assms
proof (induction devs dn cs rule: init_from.induct)
  case (2 name plug ini devs dn cs)
  then show ?case
    by (auto simp: res_simps plugins_return_def split: option.splits if_splits) blast+
qed auto

lemma ensureDevice_returns:
  assumes "plugins_return (fst cs)"
  shows "ensureDevice dn cs \<noteq> Inl Diverges \<and> (\<forall>cs'. ensureDevice dn cs = Inr cs' \<longrightarrow> plugins_return (fst cs'))"
  using init_from_returns [OF assms, of "findSysDevs (cfg (fst cs))" dn] assms
  by (auto simp: ensureDevice_def initDevice_def res_simps c_assert_def)

lemma openDevice_returns:
  assumes "p_returns p" and "plugins_return (fst cs)"
  shows "openDevice p ops str cs \<noteq> Inl Diverges \<and>
    (\<forall>d cs'. openDevice p ops str cs = Inr (d, cs') \<longrightarrow> plugins_return (fst cs'))"
proof (cases "map_of (deviceMap (fst cs)) (ops, str)")
  case None
  show ?thesis
  proof (cases "p_open p ops str (snd cs)")
    case (Inr r)
    then show ?thesis using None assms by (cases r) (simp add: openDevice_def split: option.split)
  qed (use None p_returnsD(2) [OF assms(1), of ops str "snd cs"] in \<open>simp add: openDevice_def\<close>)
qed (use assms in \<open>auto simp: openDevice_def\<close>)

lemma useDevice_returns:
  assumes "plugins_return (fst cs)"
  shows "useDevice dv cs \<noteq> Inl Diverges \<and>
    (\<forall>d cs'. useDevice dv cs = Inr (d, cs') \<longrightarrow> plugins_return (fst cs'))"
proof (cases "ensureDevice (fst dv) cs")
  case (Inl e)
  with ensureDevice_returns [OF assms, of "fst dv"] show ?thesis by (simp add: useDevice_def)
next
  case (Inr cs1)
  with ensureDevice_returns [OF assms, of "fst dv"] have r: "plugins_return (fst cs1)" by simp
  show ?thesis
  proof (cases "devMap (fst cs1) (fst dv)")
    case (Some q)
    obtain p ops where q: "q = (p, ops)" by (cases q)
    with r Some have "p_returns p" unfolding plugins_return_def by blast
    from openDevice_returns [OF this r, of ops "snd dv"] show ?thesis
      using Inr Some by (simp add: useDevice_def q)
  qed (use Inr in \<open>simp add: useDevice_def\<close>)
qed

lemma addDevice_returns:
  "plugins_return (fst (fst st)) \<Longrightarrow> addDevice dv st \<noteq> Inl Diverges"
  using useDevice_returns [of "fst st" dv] by (cases st) (auto simp: addDevice_def res_simps)

lemma addDevice_keeps:
  assumes "addDevice dv st = Inr st'"
  shows "keeps st st'"
proof -
  obtain cx s loc rem where st: "st = ((cx, s), loc, rem)" by (cases st) auto
  with assms obtain d cx' s' where u: "useDevice dv (cx, s) = Inr (d, (cx', s'))"
    and st': "st' = ((cx', s'), loc @ [d], rem)"
    by (auto simp: addDevice_def res_simps)
  from useDevice_spec [OF u] have "cfg cx' = cfg cx" by (simp add: grows_def)
  moreover have "plugins_return cx \<longrightarrow> plugins_return cx'" using useDevice_returns [of "(cx, s)" dv] u by auto
  ultimately show ?thesis by (simp add: keeps_def st st')
qed

lemma run_all_keeps:
  assumes "\<And>x st st'. f x st = Inr st' \<Longrightarrow> keeps st st'"
  shows "run_all f xs st = Inr st' \<Longrightarrow> keeps st st'"
proof (induction xs arbitrary: st)
  case (Cons x xs)
  from Cons.prems obtain st1 where "f x st = Inr st1" and "run_all f xs st1 = Inr st'"
    by (auto elim!: rbind_eq_InrE)
  then show ?case by (blast intro: keeps_trans assms Cons.IH)
qed simp

lemma addDevices_keep: "run_all addDevice dvs st = Inr st' \<Longrightarrow> keeps st st'"
  by (rule run_all_keeps [where f = addDevice]) (rule addDevice_keeps)

lemma traverse_Suc:
  "traverse (Suc k) a name st =
     (if hasServer (cfg (fst (fst st))) name \<and> name \<noteq> rootName (fst (fst st))
      then Inr (fst st, fst (snd st), insert name (snd (snd st)))
      else rbind (run_all addDevice (findObjDevs (cfg (fst (fst st))) name a) st) (\<lambda>st'.
        if canAggregate a then run_all (traverse k a) (findAttrChildren (cfg (fst (fst st))) name a) st'
        else Inr st'))"
  by (cases st, hypsubst) (simp add: Let_def cong: if_cong)

lemma traverse_keeps: "traverse k a name st = Inr st' \<Longrightarrow> keeps st st'"
proof (induction k arbitrary: name st st')
  case (Suc k)
  show ?case
  proof (cases "hasServer (cfg (fst (fst st))) name \<and> name \<noteq> rootName (fst (fst st))")
    case True
    with Suc.prems show ?thesis by (auto simp: traverse_Suc keeps_def simp del: traverse.simps)
  next
    case False
    with Suc.prems obtain st1 where
      1: "run_all addDevice (findObjDevs (cfg (fst (fst st))) name a) st = Inr st1"
      and 2: "(if canAggregate a then run_all (traverse k a) (findAttrChildren (cfg (fst (fst st))) name a) st1
        else Inr st1) = Inr st'"
      by (auto simp: traverse_Suc simp del: traverse.simps elim!: rbind_eq_InrE)
    have "keeps st1 st'"
      using 2 run_all_keeps [where f = "traverse k a", OF Suc.IH] by (auto split: if_splits)
    with addDevices_keep [OF 1] show ?thesis by (rule keeps_trans)
  qed
qed simp

text \<open>Two loop bodies that agree on, or return for, the states the loop can reach.\<close>

lemma run_all_agree:
  assumes "\<And>x st. x \<in> set xs \<Longrightarrow> keeps st0 st \<Longrightarrow> f x st = g x st" and "\<And>x st st'. g x st = Inr st' \<Longrightarrow> keeps st st'"
  shows "keeps st0 st \<Longrightarrow> run_all f xs st = run_all g xs st"
  using assms(1)
proof (induction xs arbitrary: st)
  case (Cons x xs)
  then show ?case
    by (cases "g x st") (simp_all add: keeps_trans [OF _ assms(2)])
qed simp

lemma run_all_returns:
  assumes "\<And>x st. x \<in> set xs \<Longrightarrow> keeps st0 st \<Longrightarrow> f x st \<noteq> Inl Diverges" and "\<And>x st st'. f x st = Inr st' \<Longrightarrow> keeps st st'"
  shows "keeps st0 st \<Longrightarrow> run_all f xs st \<noteq> Inl Diverges"
  using assms(1)
proof (induction xs arbitrary: st)
  case (Cons x xs)
  have "f x st \<noteq> Inl Diverges" using Cons.prems by simp
  with Cons show ?case
    by (cases "f x st") (simp_all add: keeps_trans [OF _ assms(2)])
qed simp

lemma traverse_depth:
  assumes "ranked cf a r"
  shows "cfg (fst (fst st)) = cf \<Longrightarrow> r name < k \<Longrightarrow> r name < k' \<Longrightarrow> traverse k a name st = traverse k' a name st"
proof (induction k arbitrary: name st k')
  case (Suc k)
  then obtain j where j: "k' = Suc j" by (cases k') auto
  have "run_all (traverse k a) (findAttrChildren cf name a) st1 = run_all (traverse j a) (findAttrChildren cf name a) st1"
    if "keeps st st1" for st1
  proof (rule run_all_agree [OF _ traverse_keeps that])
    fix c st2
    assume c: "c \<in> set (findAttrChildren cf name a)" and k2: "keeps st st2"
    from assms c have "r c < r name" by (simp add: ranked_def)
    with Suc.prems j k2 show "traverse k a c st2 = traverse j a c st2"
      by (intro Suc.IH) (simp_all add: keeps_def)
  qed
  then have "rbind (run_all addDevice (findObjDevs cf name a) st) (run_all (traverse k a) (findAttrChildren cf name a)) =
      rbind (run_all addDevice (findObjDevs cf name a) st) (run_all (traverse j a) (findAttrChildren cf name a))"
    by (cases "run_all addDevice (findObjDevs cf name a) st") (simp_all add: addDevices_keep)
  then show ?case
    unfolding j traverse_Suc Suc.prems(1) by (cases "canAggregate a") simp_all
qed simp

lemma traverse_returns:
  assumes "ranked cf a r"
  shows "cfg (fst (fst st)) = cf \<Longrightarrow> plugins_return (fst (fst st)) \<Longrightarrow> r name < k \<Longrightarrow>
    traverse k a name st \<noteq> Inl Diverges"
proof (induction k arbitrary: name st)
  case (Suc k)
  have c: "r c < k" if "c \<in> set (findAttrChildren cf name a)" for c
    using assms that Suc.prems(3) by (force simp: ranked_def)
  have "run_all addDevice (findObjDevs cf name a) st \<noteq> Inl Diverges"
    using Suc.prems
    by (intro run_all_returns [where st0 = st, OF _ addDevice_keeps]) (auto simp: keeps_def intro!: addDevice_returns)
  moreover have "run_all (traverse k a) (findAttrChildren cf name a) st1 \<noteq> Inl Diverges" if "keeps st st1" for st1
    using Suc.prems c by (intro run_all_returns [OF _ traverse_keeps that] Suc.IH) (auto simp: keeps_def)
  ultimately have "rbind (run_all addDevice (findObjDevs cf name a) st)
      (run_all (traverse k a) (findAttrChildren cf name a)) \<noteq> Inl Diverges"
    by (cases "run_all addDevice (findObjDevs cf name a) st") (simp_all add: addDevices_keep)
  with \<open>run_all addDevice (findObjDevs cf name a) st \<noteq> Inl Diverges\<close> show ?case
    unfolding traverse_Suc Suc.prems(1)
    by (cases "canAggregate a"; cases "run_all addDevice (findObjDevs cf name a) st") simp_all
qed simp

lemma traverse_cycle:
  assumes "findAttrChildren (cfg (fst (fst st))) name a = name # cs" and "findObjDevs (cfg (fst (fst st))) name a = []"
    and "canAggregate a" and "\<not> hasServer (cfg (fst (fst st))) name"
  shows "traverse k a name st = Inl Diverges"
  using assms by (induction k) (simp_all add: traverse_Suc del: traverse.simps(2))

text \<open>
  The recursion over the configured tree ends, at any depth above the rank of the object and with one
  result, whenever the children of an object have a smaller rank and the plugins' own \<^verbatim>\<open>init\<close> and \<^verbatim>\<open>open\<close>
  return; an object listed as its own child makes it run out of every depth.
\<close>

theorem traverse_terminates:
  assumes "ranked (cfg cx) a r" and "plugins_return cx" and "r name < k"
  shows "traverse k a name ((cx, s), loc, rem) \<noteq> Inl Diverges \<and>
    (\<forall>k'>r name. traverse k' a name ((cx, s), loc, rem) = traverse k a name ((cx, s), loc, rem)) \<and>
    (\<forall>cx' cs n. canAggregate a \<longrightarrow> findObjDevs (cfg cx') name a = [] \<longrightarrow> \<not> hasServer (cfg cx') name \<longrightarrow>
       findAttrChildren (cfg cx') name a = name # cs \<longrightarrow> traverse n a name ((cx', s), loc, rem) = Inl Diverges)"
proof (intro conjI allI impI)
  show "traverse k a name ((cx, s), loc, rem) \<noteq> Inl Diverges"
    by (rule traverse_returns [OF assms(1)]) (simp_all add: assms)
  show "traverse k' a name ((cx, s), loc, rem) = traverse k a name ((cx, s), loc, rem)" if "r name < k'" for k'
    by (rule traverse_depth [OF assms(1)]) (simp_all add: assms that)
  show "traverse n a name ((cx', s), loc, rem) = Inl Diverges"
    if "canAggregate a" and "findObjDevs (cfg cx') name a = []" and "\<not> hasServer (cfg cx') name"
      and "findAttrChildren (cfg cx') name a = name # cs" for cx' cs n
    by (rule traverse_cycle) (use that in simp_all)
qed

subsection \<open>Objects are well formed\<close>

definition info_ok :: "'s attr_info \<Rightarrow> bool" where
  "info_ok info \<longleftrightarrow> calcTime info = timeOp \<and>
     (isValid info \<longrightarrow> operation info = Some sumOp \<or> operation info = Some avgOp) \<and>
     (devices info = [] \<or> comm info = None)"

definition objects_ok :: "('o, 's) cntxt \<Rightarrow> bool" where
  "objects_ok cx \<longleftrightarrow> (\<forall>n ob. objMap cx n = Some ob \<longrightarrow> o_name ob = n \<and> (\<forall>a. info_ok (attrInfo ob a)))"

definition half_ok :: "'s attr_info \<Rightarrow> bool" where
  "half_ok info \<longleftrightarrow> calcTime info = timeOp \<and>
     (isValid info \<longrightarrow> operation info = Some sumOp \<or> operation info = Some avgOp)"

lemma initAttr_half_ok:
  assumes "initAttr k name a (cx, s) = Inr (info, (cx', s'))"
  shows "half_ok info \<and> (cx_ok cx \<longrightarrow> cx_ok cx' \<and> grows cx cx')"
  using assms
proof (cases rule: initAttrE)
  case (op opf vop loc rem)
  with pickOp_cases [OF op(1)] traverse_refines [OF op(3)] show ?thesis
    by (auto simp: half_ok_def split: if_splits)
qed (simp add: half_ok_def isValid_def)

lemma init_attrs_half_ok:
  assumes "\<And>a. half_ok (m a)" and "cx_ok cx"
  shows "init_attrs k name as m (cx, s) = Inr (m', (cx', s')) \<Longrightarrow>
    (\<forall>a. half_ok (m' a)) \<and> cx_ok cx' \<and> grows cx cx'"
  using assms
proof (induction as arbitrary: m cx s)
  case (Cons a as)
  from Cons.prems(1) obtain info cx1 s1 where i: "initAttr k name a (cx, s) = Inr (info, (cx1, s1))"
    and r: "init_attrs k name as (m(a := info)) (cx1, s1) = Inr (m', (cx', s'))"
    by (auto elim!: rbind_eq_InrE)
  from initAttr_half_ok [OF i] Cons.prems have "\<And>b. half_ok ((m(a := info)) b)" "cx_ok cx1" "grows cx cx1"
    by simp_all
  with Cons.IH [OF r] show ?case by (blast intro: grows_trans)
qed simp

lemma createObject_ok:
  assumes "createObject k name t (cx, s) = Inr (ob, (cx', s'))" and "cx_ok cx"
  shows "o_name ob = name \<and> o_type ob = t \<and> (\<forall>a. info_ok (attrInfo ob a)) \<and> cx_ok cx' \<and> grows cx cx'"
proof -
  from assms(1) obtain m c where i: "init_attrs k name all_attrs no_info (cx, s) = Inr (m, (cx', s'))"
    and ob: "ob = \<lparr>o_name = name, o_type = t, attrInfo = m\<rparr>" and c: "distObject_comm ob = Inr c"
    by (auto simp: createObject_def Let_def elim!: rbind_eq_InrE)
  have "\<And>a. half_ok (no_info a)" by (simp add: half_ok_def no_info_def isValid_def)
  note h = init_attrs_half_ok [OF this assms(2) i]
  have "devices (m a) = [] \<or> comm (m a) = None" for a
    using c by (cases "comm (m a)") (auto simp: ob distObject_comm_iff dest!: spec [of _ a])
  with h show ?thesis by (simp add: ob info_ok_def half_ok_def)
qed

text \<open>
  C34.  Objects found through a context are well formed, and stay so: an object carries the name it was asked by,
  every attribute that has devices or remote members has an operation to combine their values, never both
  kinds of members, and looking objects up keeps what is open and known.  So when the devices of an attribute
  answer, the read of the attribute returns: no null operation is ever called.
\<close>

theorem findObject_well_formed:
  assumes "findObject k name (cx, s) = Inr (Some ob, (cx', s'))" and "cx_ok cx" and "objects_ok cx"
  shows "o_name ob = name \<and> (\<forall>a. info_ok (attrInfo ob a)) \<and> cx_ok cx' \<and> objects_ok cx' \<and>
    objMap cx' name = Some ob \<and> objMap cx \<subseteq>\<^sub>m objMap cx' \<and>
    (\<forall>a s1 xs us s2 v t. reads a s1 (devices (attrInfo ob a)) xs us s2 \<longrightarrow> xs \<noteq> [] \<longrightarrow>
       (\<exists>x. attrGetValue ob a s1 v t = Inr ((RET_SUCCESS, [Dbl x], [us ! 0]), s2)))"
proof -
  have wf: "o_name ob = name \<and> (\<forall>a. info_ok (attrInfo ob a)) \<and> cx_ok cx' \<and> objects_ok cx' \<and>
    objMap cx' name = Some ob \<and> objMap cx \<subseteq>\<^sub>m objMap cx'"
  proof (cases "objMap cx name")
    case None
    with assms(1) obtain t cx1 where c: "createObject k name t (cx, s) = Inr (ob, (cx1, s'))"
      and cx': "cx' = cx1\<lparr>objMap := (objMap cx1)(name \<mapsto> ob)\<rparr>"
      by (auto simp: findObject_def split: option.splits elim!: rbind_eq_InrE)
    from createObject_ok [OF c assms(2)] None assms(3) show ?thesis
      by (auto simp: cx' cx_ok_def objects_ok_def grows_def map_le_def)
  next
    case (Some ob1)
    with assms show ?thesis by (auto simp: findObject_def objects_ok_def)
  qed
  have "\<exists>x. attrGetValue ob a s1 v t = Inr ((RET_SUCCESS, [Dbl x], [us ! 0]), s2)"
    if r: "reads a s1 (devices (attrInfo ob a)) xs us s2" and "xs \<noteq> []" for a s1 xs us s2 v t
  proof -
    have d: "devices (attrInfo ob a) \<noteq> []" using reads_length [OF r] that(2) by auto
    with wf have i: "calcTime (attrInfo ob a) = timeOp" "isValid (attrInfo ob a)"
      "operation (attrInfo ob a) = Some sumOp \<or> operation (attrInfo ob a) = Some avgOp"
      by (auto simp: info_ok_def isValid_def)
    from i(3) show ?thesis
      using attrGetValuesDevice_reads [where opf = sumOp, OF r d _ i(1) sumOp_Dbl]
        attrGetValuesDevice_reads [where opf = avgOp, OF r d _ i(1) avgOp_Dbl] i(2)
      by (auto simp: attrGetValue_unfold)
  qed
  with wf show ?thesis by blast
qed

subsection \<open>A small tree\<close>

text \<open>A node with two cores, each with a dummy device of its own, the second listed twice.\<close>

definition tree_config :: config where
  "tree_config = \<lparr>findParent = (\<lambda>n. if n = ''n'' then [] else ''n''), findAttrHz = (\<lambda>_ _. ''10''),
     findAttrOp = (\<lambda>_ a. if a = ATTR_ENERGY then ''SUM'' else []), findAttrType = (\<lambda>_ _. ''Float''),
     findAttrChildren = (\<lambda>n _. if n = ''n'' then [''c0'', ''c1'', ''c1''] else []),
     findChildren = (\<lambda>n. if n = ''n'' then [''c0'', ''c1''] else []), hasServer = (\<lambda>_. False),
     findObjDevs = (\<lambda>n _. if n = ''n'' then [] else [(''dev'', n)]), findPlugins = [(''Dummy'', ''libdummy'')],
     findSysDevs = [(''dev'', ''Dummy'', [])],
     objType = (\<lambda>n. if n = ''n'' then Some OBJ_NODE else Some OBJ_CORE)\<rparr>"

definition dummy_plugin :: "(unit, dummy_fd list \<times> os) plugin" where
  "dummy_plugin = \<lparr>p_init = (\<lambda>_ s. Inr (Some (), s)),
     p_open = (\<lambda>_ str s. let (fd, w) = dummy_dev_open str (snd s)
       in Inr (Some (du_dev (length (fst s))), (fst s @ [fd], w)))\<rparr>"

definition tree_cx :: "(unit, dummy_fd list \<times> os) cntxt" where
  "tree_cx = \<lparr>pluginLibMap = [''Dummy'' \<mapsto> dummy_plugin], devMap = Map.empty, deviceMap = [], cfg = tree_config,
     rootName = ''n'', objMap = Map.empty\<rparr>"

lemma tree_initAttr:
  "\<exists>cx' s'. initAttr 3 ''n'' ATTR_ENERGY (tree_cx, ([], du_demo_os)) =
     Inr (\<lparr>devices = [du_dev 0, du_dev 1, du_dev 1], comm = None, operation = Some sumOp, calcTime = timeOp,
            valueOp = FP_ADD\<rparr>, (cx', s')) \<and> length (fst s') = 2"
  by (simp add: initAttr_def pickOp_def tree_cx_def tree_config_def numeral_3_eq_3 canAggregate_def addDevice_def
      useDevice_def ensureDevice_def openDevice_def initDevice_def dummy_plugin_def dummy_dev_open_def dummy_getTimeSec_eq Let_def)

theorem initAttr_refines_witness:
  "tree_devs 3 tree_config ''n'' ATTR_ENERGY ''n'' = [(''dev'', ''c0''), (''dev'', ''c1''), (''dev'', ''c1'')] \<and>
   (\<exists>cx' :: (unit, dummy_fd list \<times> os) cntxt. map (handle cx') (tree_devs 3 tree_config ''n'' ATTR_ENERGY ''n'') =
      [Some (du_dev 0), Some (du_dev 1), Some (du_dev 1)] \<and> distinct (map fst (deviceMap cx')))"
proof -
  obtain cx' s' where i: "initAttr 3 ''n'' ATTR_ENERGY (tree_cx, ([], du_demo_os)) =
     Inr (\<lparr>devices = [du_dev 0, du_dev 1, du_dev 1], comm = None, operation = Some sumOp, calcTime = timeOp,
            valueOp = FP_ADD\<rparr>, (cx', s'))"
    using tree_initAttr by blast
  have "cx_ok tree_cx" and "findAttrOp (cfg tree_cx) ''n'' ATTR_ENERGY = ''SUM''"
    and c: "cfg tree_cx = tree_config" "rootName tree_cx = ''n''"
    by (simp_all add: cx_ok_def tree_cx_def tree_config_def)
  then have "map (handle cx') (tree_devs 3 tree_config ''n'' ATTR_ENERGY ''n'') =
      [Some (du_dev 0), Some (du_dev 1), Some (du_dev 1)]" and "distinct (map fst (deviceMap cx'))"
    using initAttr_refines [OF i] by simp_all
  moreover have "tree_devs 3 tree_config ''n'' ATTR_ENERGY ''n'' = [(''dev'', ''c0''), (''dev'', ''c1''), (''dev'', ''c1'')]"
    by (simp add: tree_config_def numeral_3_eq_3 canAggregate_def)
  ultimately show ?thesis by (intro conjI exI [of _ cx'])
qed

lemma dummy_plugin_returns: "p_returns dummy_plugin"
  unfolding p_returns_def dummy_plugin_def by (simp add: Let_def split_beta)

theorem traverse_terminates_witness:
  "traverse 2 ATTR_ENERGY ''n'' ((tree_cx, ([], du_demo_os)), [], {}) \<noteq> Inl Diverges \<and>
   traverse 7 ATTR_ENERGY ''n'' ((tree_cx, ([], du_demo_os)), [], {}) =
     traverse 2 ATTR_ENERGY ''n'' ((tree_cx, ([], du_demo_os)), [], {})"
proof -
  have "ranked (cfg tree_cx) ATTR_ENERGY (\<lambda>n. if n = ''n'' then 1 else 0)"
    by (simp add: ranked_def tree_cx_def tree_config_def)
  moreover have "plugins_return tree_cx"
    using dummy_plugin_returns by (auto simp: plugins_return_def tree_cx_def split: if_splits)
  moreover have "(if ''n'' = ''n'' then 1 else 0) < (2::nat)" by simp
  ultimately have t: "traverse 2 ATTR_ENERGY ''n'' ((tree_cx, ([], du_demo_os)), [], {}) \<noteq> Inl Diverges"
    "\<forall>k'>if ''n'' = ''n'' then 1 else 0. traverse k' ATTR_ENERGY ''n'' ((tree_cx, ([], du_demo_os)), [], {}) =
      traverse 2 ATTR_ENERGY ''n'' ((tree_cx, ([], du_demo_os)), [], {})"
    using traverse_terminates [of tree_cx ATTR_ENERGY "\<lambda>n. if n = ''n'' then 1 else 0" "''n''" 2] by blast+
  have "(if ''n'' = ''n'' then 1 else 0) < (7::nat)" by simp
  with t show ?thesis by blast
qed

lemma init_attrs_append:
  "init_attrs k name (as @ bs) m cs =
     rbind (init_attrs k name as m cs) (\<lambda>(m', cs'). init_attrs k name bs m' cs')"
  by (induction as arbitrary: m cs) (auto simp: rbind_assoc split: rbind_split)

lemma init_attrs_skip:
  "(\<And>a. a \<in> set as \<Longrightarrow> findAttrOp (cfg (fst cs)) name a = []) \<Longrightarrow>
   init_attrs k name as m cs = Inr (\<lambda>a. if a \<in> set as then no_info a else m a, cs)"
  by (induction as arbitrary: m) (auto simp: initAttr_def pickOp_def no_info_def fun_eq_iff)

lemma tree_initAttr_c0:
  "\<exists>cx' s'. initAttr 3 ''c0'' ATTR_ENERGY (tree_cx\<lparr>rootName := r\<rparr>, ([], du_demo_os)) =
     Inr (\<lparr>devices = [du_dev 0], comm = None, operation = Some sumOp, calcTime = timeOp, valueOp = FP_ADD\<rparr>, (cx', s')) \<and>
     cfg cx' = tree_config"
  by (simp add: initAttr_def pickOp_def tree_cx_def tree_config_def numeral_3_eq_3 canAggregate_def addDevice_def
      useDevice_def ensureDevice_def openDevice_def initDevice_def dummy_plugin_def dummy_dev_open_def dummy_getTimeSec_eq Let_def)

lemma tree_findObject_root:
  "\<exists>ob cx' s'. findObject 3 ''c0'' (tree_cx\<lparr>rootName := r\<rparr>, ([], du_demo_os)) = Inr (Some ob, (cx', s'))"
proof -
  let ?b = "take 12 all_attrs" and ?e = "drop 13 all_attrs"
  have all: "all_attrs = ?b @ ATTR_ENERGY # ?e" and "ATTR_ENERGY \<notin> set ?b" "ATTR_ENERGY \<notin> set ?e"
    by (simp_all add: all_attrs_def)
  obtain cx' s' where e: "initAttr 3 ''c0'' ATTR_ENERGY (tree_cx\<lparr>rootName := r\<rparr>, ([], du_demo_os)) =
     Inr (\<lparr>devices = [du_dev 0], comm = None, operation = Some sumOp, calcTime = timeOp, valueOp = FP_ADD\<rparr>, (cx', s'))"
    and c: "cfg cx' = tree_config"
    using tree_initAttr_c0 by blast
  have skip: "findAttrOp tree_config ''c0'' a = []" if "a \<noteq> ATTR_ENERGY" for a
    using that by (simp add: tree_config_def)
  have b: "init_attrs 3 ''c0'' ?b no_info (tree_cx\<lparr>rootName := r\<rparr>, ([], du_demo_os)) = Inr (no_info, (tree_cx\<lparr>rootName := r\<rparr>, ([], du_demo_os)))"
    using skip \<open>ATTR_ENERGY \<notin> set ?b\<close>
    by (subst init_attrs_skip) (auto simp: tree_cx_def fun_eq_iff intro!: skip)
  have "\<exists>m. init_attrs 3 ''c0'' all_attrs no_info (tree_cx\<lparr>rootName := r\<rparr>, ([], du_demo_os)) = Inr (m, (cx', s')) \<and> (\<forall>a. comm (m a) = None)"
    using skip \<open>ATTR_ENERGY \<notin> set ?e\<close> c
    by (subst all, unfold init_attrs_append b, simp add: e, subst init_attrs_skip)
      (auto simp: no_info_def intro!: skip)
  then obtain m where m: "init_attrs 3 ''c0'' all_attrs no_info (tree_cx\<lparr>rootName := r\<rparr>, ([], du_demo_os)) = Inr (m, (cx', s'))"
    and "\<And>a. comm (m a) = None" by blast
  then have "distObject_comm \<lparr>o_name = ''c0'', o_type = OBJ_CORE, attrInfo = m\<rparr> = Inr None"
    by (simp add: distObject_comm_iff)
  with m have "createObject 3 ''c0'' OBJ_CORE (tree_cx\<lparr>rootName := r\<rparr>, ([], du_demo_os)) =
      Inr (\<lparr>o_name = ''c0'', o_type = OBJ_CORE, attrInfo = m\<rparr>, (cx', s'))"
    by (simp add: createObject_def)
  moreover have "objMap (tree_cx\<lparr>rootName := r\<rparr>) ''c0'' = None" and "objType (cfg (tree_cx\<lparr>rootName := r\<rparr>)) ''c0'' = Some OBJ_CORE"
    by (simp_all add: tree_cx_def tree_config_def)
  ultimately show ?thesis by (simp add: findObject_def)
qed

lemma tree_findObject:
  "\<exists>ob cx' s'. findObject 3 ''c0'' (tree_cx, ([], du_demo_os)) = Inr (Some ob, (cx', s'))"
proof -
  have "tree_cx\<lparr>rootName := ''n''\<rparr> = tree_cx" by (simp add: tree_cx_def)
  then show ?thesis using tree_findObject_root [of "''n''"] by simp
qed

theorem findObject_well_formed_witness:
  "\<exists>ob cx' s'. findObject 3 ''c0'' (tree_cx, ([], du_demo_os)) = Inr (Some ob, (cx', s')) \<and>
     o_name ob = ''c0'' \<and> info_ok (attrInfo ob ATTR_ENERGY) \<and> objMap cx' ''c0'' = Some ob"
proof -
  obtain ob cx' s' where f: "findObject 3 ''c0'' (tree_cx, ([], du_demo_os)) = Inr (Some ob, (cx', s'))"
    using tree_findObject by blast
  have "cx_ok tree_cx" "objects_ok tree_cx" by (simp_all add: cx_ok_def objects_ok_def tree_cx_def)
  from findObject_well_formed [OF f this] f show ?thesis by blast
qed

end
