(* ===== verification/Pwr_Events.thy ===== *)
theory Pwr_Events
  imports Pwr_Types "HOL-Library.Word"
begin

unbundle bit_operations_syntax

text \<open>
  The messages of the distributed framework and their encoding: the byte stack \<^verbatim>\<open>SerialBuf\<close>
  (\<^verbatim>\<open>src/pwr/serialize.h\<close>), the events (\<^verbatim>\<open>src/pwr/event.h\<close>, \<^verbatim>\<open>src/pwr/events.h\<close>,
  \<^verbatim>\<open>tools/pwrdaemon/router/routerEvent.h\<close>) and their framing on a socket (\<^verbatim>\<open>src/pwr/tcpEventChannel.cc\<close>).
  Everything is taken out of the buffer in the reverse order of how it was put in.
\<close>

subsection \<open>The byte stack\<close>

text \<open>
  The bytes of the vector, the last first: \<^verbatim>\<open>push_back\<close> adds to the front of the list, \<^verbatim>\<open>back\<close> and
  \<^verbatim>\<open>pop_back\<close> take from it; taking from an empty vector is an access outside it.
\<close>

type_synonym sbuf = "8 word list"

definition ser_out :: "64 word \<Rightarrow> nat \<Rightarrow> sbuf \<Rightarrow> sbuf" where
  "ser_out w len b = rev (map (\<lambda>i. ucast (drop_bit (8 * i) w)) [0..<len]) @ b"

fun in_loop :: "nat \<Rightarrow> 64 word \<Rightarrow> sbuf \<Rightarrow> (64 word \<times> sbuf) res" where
  "in_loop 0 w b = Inr (w, b)"
| "in_loop (Suc i) w [] = Inl MemoryFault"
| "in_loop (Suc i) w (c # b) = in_loop i (w OR push_bit (8 * i) (ucast c)) b"

definition ser_in :: "nat \<Rightarrow> sbuf \<Rightarrow> (64 word \<times> sbuf) res" where
  "ser_in len b = in_loop len 0 b"

text \<open>Integers of 8 and of 4 bytes (enumerators travel as the latter), and bytes.\<close>

definition put64 :: "64 word \<Rightarrow> sbuf \<Rightarrow> sbuf" where
  "put64 w b = ser_out w 8 b"

definition get64 :: "sbuf \<Rightarrow> (64 word \<times> sbuf) res" where
  "get64 b = ser_in 8 b"

definition put32 :: "32 word \<Rightarrow> sbuf \<Rightarrow> sbuf" where
  "put32 w b = ser_out (ucast w) 4 b"

definition get32 :: "sbuf \<Rightarrow> (32 word \<times> sbuf) res" where
  "get32 b = rbind (ser_in 4 b) (\<lambda>(w, b'). Inr (ucast w, b'))"

definition put8 :: "8 word \<Rightarrow> sbuf \<Rightarrow> sbuf" where
  "put8 w b = ser_out (ucast w) 1 b"

definition get8 :: "sbuf \<Rightarrow> (8 word \<times> sbuf) res" where
  "get8 b = rbind (ser_in 1 b) (\<lambda>(w, b'). Inr (ucast w, b'))"

text \<open>
  Sequences: the elements in order, then their number; read back from the last.  The loop counter has 32
  bits, so a sequence of \<open>2 ^ 32\<close> or more elements is written for ever.
\<close>

definition put_vec :: "('a \<Rightarrow> sbuf \<Rightarrow> sbuf) \<Rightarrow> 'a list \<Rightarrow> sbuf \<Rightarrow> sbuf" where
  "put_vec put xs b = put64 (of_nat (length xs)) (fold put xs b)"

fun get_loop :: "(sbuf \<Rightarrow> ('a \<times> sbuf) res) \<Rightarrow> nat \<Rightarrow> 'a list \<Rightarrow> sbuf \<Rightarrow> ('a list \<times> sbuf) res" where
  "get_loop get 0 xs b = Inr (xs, b)"
| "get_loop get (Suc n) xs b = rbind (get b) (\<lambda>(x, b'). get_loop get n (x # xs) b')"

definition get_vec :: "(sbuf \<Rightarrow> ('a \<times> sbuf) res) \<Rightarrow> sbuf \<Rightarrow> ('a list \<times> sbuf) res" where
  "get_vec get b = rbind (get64 b) (\<lambda>(n, b'). get_loop get (unat n) [] b')"

definition put_char :: "char \<Rightarrow> sbuf \<Rightarrow> sbuf" where
  "put_char c b = of_char c # b"

fun get_char :: "sbuf \<Rightarrow> (char \<times> sbuf) res" where
  "get_char [] = Inl MemoryFault"
| "get_char (c # b) = Inr (char_of (unat c), b)"

definition put_str :: "string \<Rightarrow> sbuf \<Rightarrow> sbuf" where
  "put_str s b = put_vec put_char s b"

definition get_str :: "sbuf \<Rightarrow> (string \<times> sbuf) res" where
  "get_str b = get_vec get_char b"

subsection \<open>What reading back relies on\<close>

text \<open>A pair of operations that put a value on the stack and take it off again.\<close>

locale codec =
  fixes put :: "'a \<Rightarrow> sbuf \<Rightarrow> sbuf" and get :: "sbuf \<Rightarrow> ('a \<times> sbuf) res" and ok :: "'a \<Rightarrow> bool"
  assumes get_put: "ok x \<Longrightarrow> get (put x b) = Inr (x, b)"
begin

lemma get_loop_fold:
  "(\<forall>x\<in>set xs. ok x) \<Longrightarrow> get_loop get (length xs) ys (fold put xs b) = Inr (xs @ ys, b)"
  by (induction xs arbitrary: ys rule: rev_induct) (simp_all add: get_put)

end

lemma in_loop_rev:
  "n \<le> 8 \<Longrightarrow> take_bit (8 * n) acc = 0 \<Longrightarrow>
   in_loop n acc (rev (map (\<lambda>i. ucast (drop_bit (8 * i) (w::64 word))) [0..<n]) @ b) =
     Inr (acc OR take_bit (8 * n) w, b)"
proof (induction n arbitrary: acc)
  case (Suc n)
  have step: "push_bit (8 * n) (ucast (ucast (drop_bit (8 * n) w) :: 8 word) :: 64 word) OR take_bit (8 * n) w =
      take_bit (8 * Suc n) w"
    by (rule bit_word_eqI) (auto simp: bit_simps)
  have "take_bit (8 * n) (acc OR push_bit (8 * n) (ucast (ucast (drop_bit (8 * n) w) :: 8 word))) = 0"
  proof (rule bit_word_eqI)
    fix i
    have "\<not> bit (take_bit (8 * Suc n) acc) i" using Suc.prems(2) by simp
    then show "bit (take_bit (8 * n) (acc OR push_bit (8 * n) (ucast (ucast (drop_bit (8 * n) w) :: 8 word)))) i =
        bit (0::64 word) i"
      by (auto simp: bit_simps)
  qed
  with Suc have "in_loop n (acc OR push_bit (8 * n) (ucast (ucast (drop_bit (8 * n) w) :: 8 word)))
      (rev (map (\<lambda>i. ucast (drop_bit (8 * i) w)) [0..<n]) @ b) =
      Inr ((acc OR push_bit (8 * n) (ucast (ucast (drop_bit (8 * n) w) :: 8 word))) OR take_bit (8 * n) w, b)"
    by simp
  moreover have "(acc OR p) OR t = acc OR (p OR t)" for p t :: "64 word"
    by (rule bit_word_eqI) (auto simp: bit_simps)
  ultimately show ?case by (simp add: step)
qed simp

lemma ser_in_out: "n \<le> 8 \<Longrightarrow> ser_in n (ser_out w n b) = Inr (take_bit (8 * n) w, b)"
  by (simp add: ser_in_def ser_out_def in_loop_rev)

interpretation c64: codec put64 get64 "\<lambda>_. True"
  by unfold_locales (simp add: put64_def get64_def ser_in_out take_bit_word_eq_self)

interpretation c32: codec put32 get32 "\<lambda>_. True"
  by unfold_locales (simp add: put32_def get32_def ser_in_out, rule bit_word_eqI, auto simp: bit_simps)

interpretation c8: codec put8 get8 "\<lambda>_. True"
  by unfold_locales (simp add: put8_def get8_def ser_in_out, rule bit_word_eqI, auto simp: bit_simps)

lemma char_of_of_char_8: "char_of (unat (of_char c :: 8 word)) = c"
proof -
  have "(of_char c :: nat) < 256" using nat_of_char_less_256 by simp
  then have "unat (of_nat (of_char c) :: 8 word) = of_char c" by (simp add: unat_of_nat)
  then show ?thesis by (simp add: of_nat_of_char)
qed

interpretation cchar: codec put_char get_char "\<lambda>_. True"
  by unfold_locales (simp add: put_char_def char_of_of_char_8)

text \<open>Sequences of what can be read back can be read back.\<close>

definition small :: "('a \<Rightarrow> bool) \<Rightarrow> 'a list \<Rightarrow> bool" where
  "small ok xs \<longleftrightarrow> length xs < 2 ^ 32 \<and> (\<forall>x\<in>set xs. ok x)"

lemma codec_vec:
  assumes "codec put get ok"
  shows "codec (put_vec put) (get_vec get) (small ok)"
proof
  fix xs :: "'a list" and b
  assume s: "small ok xs"
  then have "unat (of_nat (length xs) :: 64 word) = length xs" by (simp add: small_def unat_of_nat)
  moreover have "get_loop get (length xs) [] (fold put xs b) = Inr (xs @ [], b)"
    using s by (intro codec.get_loop_fold [OF assms]) (simp add: small_def)
  ultimately show "get_vec get (put_vec put xs b) = Inr (xs, b)"
    by (simp add: get_vec_def put_vec_def c64.get_put)
qed

interpretation cstr: codec put_str get_str "small (\<lambda>_. True)"
  unfolding put_str_def [abs_def] get_str_def [abs_def]
  by (rule codec_vec) (rule cchar.codec_axioms)

subsection \<open>Events\<close>

text \<open>
  The fields of the base class, and the fields each event adds; enumerators are 32-bit codes, the
  \<^verbatim>\<open>double\<close> of a period its 64 bits.
\<close>

record ev_head =
  h_id :: "64 word"
  h_type :: "32 word"
  h_status :: "32 word"

datatype event =
    EvCommCreate "64 word" "32 word" "string list list"
  | EvCommDestroy "64 word" "32 word"
  | EvCommReq "64 word" "32 word" "64 word" "32 word list" "64 word list" "32 word list"
  | EvCommResp "64 word" "32 word" "64 word list list" "64 word list list" "64 word" "string list" "32 word list" "32 word list"
  | EvCommLogReq "64 word" "32 word" "32 word"
  | EvCommLogResp "64 word" "32 word" "string list" "32 word list" "32 word list"
  | EvGetSamplesReq "64 word" "32 word" "32 word" "64 word" "64 word" "32 word"
  | EvGetSamplesResp "64 word" "32 word" "64 word" "32 word" "64 word list" "string list" "32 word list" "32 word list"
  | EvServerConnect string
  | EvRouter "64 word" "64 word" "32 word" "8 word list"

text \<open>\<^verbatim>\<open>EventType\<close>; 0 is \<^verbatim>\<open>NotSet\<close>.\<close>

fun event_type :: "event \<Rightarrow> 32 word" where
  "event_type (EvCommCreate _ _ _) = 1"
| "event_type (EvCommDestroy _ _) = 2"
| "event_type (EvCommReq _ _ _ _ _ _) = 3"
| "event_type (EvCommResp _ _ _ _ _ _ _ _) = 4"
| "event_type (EvCommLogReq _ _ _) = 5"
| "event_type (EvCommLogResp _ _ _ _ _) = 6"
| "event_type (EvGetSamplesReq _ _ _ _ _ _) = 7"
| "event_type (EvGetSamplesResp _ _ _ _ _ _ _ _) = 8"
| "event_type (EvServerConnect _) = 9"
| "event_type (EvRouter _ _ _ _) = 10"

definition put_head :: "ev_head \<Rightarrow> sbuf \<Rightarrow> sbuf" where
  "put_head h b = put32 (h_status h) (put32 (h_type h) (put64 (h_id h) b))"

definition get_head :: "sbuf \<Rightarrow> (ev_head \<times> sbuf) res" where
  "get_head b =
     rbind (get32 b) (\<lambda>(st, b). rbind (get32 b) (\<lambda>(ty, b). rbind (get64 b) (\<lambda>(i, b).
     Inr (\<lparr>h_id = i, h_type = ty, h_status = st\<rparr>, b))))"

definition put_comm :: "64 word \<Rightarrow> 32 word \<Rightarrow> ev_head \<Rightarrow> sbuf \<Rightarrow> sbuf" where
  "put_comm c p h b = put32 p (put64 c (put_head h b))"

definition get_comm :: "sbuf \<Rightarrow> ((64 word \<times> 32 word \<times> ev_head) \<times> sbuf) res" where
  "get_comm b =
     rbind (get32 b) (\<lambda>(p, b). rbind (get64 b) (\<lambda>(c, b). rbind (get_head b) (\<lambda>(h, b). Inr ((c, p, h), b))))"

fun serialize_out :: "event \<Rightarrow> ev_head \<Rightarrow> sbuf \<Rightarrow> sbuf" where
  "serialize_out (EvCommCreate c p ms) h b = put_vec (put_vec put_str) ms (put_comm c p h b)"
| "serialize_out (EvCommDestroy c p) h b = put_comm c p h b"
| "serialize_out (EvCommReq c p g as vs ops) h b =
     put64 g (put_vec put32 ops (put_vec put32 as (put_vec put64 vs (put_comm c p h b))))"
| "serialize_out (EvCommResp c p ts vs g eo ea ev) h b =
     put_vec put_str eo (put_vec put32 ea (put_vec put32 ev
       (put64 g (put_vec (put_vec put64) vs (put_vec (put_vec put64) ts (put_comm c p h b))))))"
| "serialize_out (EvCommLogReq c p a) h b = put32 a (put_comm c p h b)"
| "serialize_out (EvCommLogResp c p eo ea ev) h b =
     put_vec put_str eo (put_vec put32 ea (put_vec put32 ev (put_comm c p h b)))"
| "serialize_out (EvGetSamplesReq c p a start period n) h b =
     put32 a (put64 start (put64 period (put32 n (put_comm c p h b))))"
| "serialize_out (EvGetSamplesResp c p start n ds eo ea ev) h b =
     put64 start (put32 n (put_vec put64 ds (put_vec put32 ev (put_vec put32 ea (put_vec put_str eo (put_comm c p h b))))))"
| "serialize_out (EvServerConnect name) h b = put_str name (put_head h b)"
| "serialize_out (EvRouter src dest ty pl) h b = put_vec put8 pl (put32 ty (put64 src (put64 dest (put_head h b))))"

text \<open>
  The constructors that read an event back, by the type the allocation functions are given
  (\<^verbatim>\<open>allocEvent.cc\<close>), which accept each a subset of the types and fail an assertion on others.
\<close>

definition in_create :: "sbuf \<Rightarrow> ((event \<times> ev_head) \<times> sbuf) res" where
  "in_create b = rbind (get_vec (get_vec get_str) b) (\<lambda>(ms, b). rbind (get_comm b) (\<lambda>((c, p, h), b).
     Inr ((EvCommCreate c p ms, h), b)))"

definition in_destroy :: "sbuf \<Rightarrow> ((event \<times> ev_head) \<times> sbuf) res" where
  "in_destroy b = rbind (get_comm b) (\<lambda>((c, p, h), b). Inr ((EvCommDestroy c p, h), b))"

definition in_req :: "sbuf \<Rightarrow> ((event \<times> ev_head) \<times> sbuf) res" where
  "in_req b = rbind (get64 b) (\<lambda>(g, b). rbind (get_vec get32 b) (\<lambda>(ops, b). rbind (get_vec get32 b) (\<lambda>(as, b).
     rbind (get_vec get64 b) (\<lambda>(vs, b). rbind (get_comm b) (\<lambda>((c, p, h), b).
     Inr ((EvCommReq c p g as vs ops, h), b))))))"

definition in_resp :: "sbuf \<Rightarrow> ((event \<times> ev_head) \<times> sbuf) res" where
  "in_resp b = rbind (get_vec get_str b) (\<lambda>(eo, b). rbind (get_vec get32 b) (\<lambda>(ea, b). rbind (get_vec get32 b) (\<lambda>(ev, b).
     rbind (get64 b) (\<lambda>(g, b). rbind (get_vec (get_vec get64) b) (\<lambda>(vs, b). rbind (get_vec (get_vec get64) b) (\<lambda>(ts, b).
     rbind (get_comm b) (\<lambda>((c, p, h), b). Inr ((EvCommResp c p ts vs g eo ea ev, h), b))))))))"

definition in_log_req :: "sbuf \<Rightarrow> ((event \<times> ev_head) \<times> sbuf) res" where
  "in_log_req b = rbind (get32 b) (\<lambda>(a, b). rbind (get_comm b) (\<lambda>((c, p, h), b). Inr ((EvCommLogReq c p a, h), b)))"

definition in_log_resp :: "sbuf \<Rightarrow> ((event \<times> ev_head) \<times> sbuf) res" where
  "in_log_resp b = rbind (get_vec get_str b) (\<lambda>(eo, b). rbind (get_vec get32 b) (\<lambda>(ea, b). rbind (get_vec get32 b) (\<lambda>(ev, b).
     rbind (get_comm b) (\<lambda>((c, p, h), b). Inr ((EvCommLogResp c p eo ea ev, h), b)))))"

definition in_samples_req :: "sbuf \<Rightarrow> ((event \<times> ev_head) \<times> sbuf) res" where
  "in_samples_req b = rbind (get32 b) (\<lambda>(a, b). rbind (get64 b) (\<lambda>(start, b). rbind (get64 b) (\<lambda>(period, b).
     rbind (get32 b) (\<lambda>(n, b). rbind (get_comm b) (\<lambda>((c, p, h), b). Inr ((EvGetSamplesReq c p a start period n, h), b))))))"

definition in_samples_resp :: "sbuf \<Rightarrow> ((event \<times> ev_head) \<times> sbuf) res" where
  "in_samples_resp b = rbind (get64 b) (\<lambda>(start, b). rbind (get32 b) (\<lambda>(n, b). rbind (get_vec get64 b) (\<lambda>(ds, b).
     rbind (get_vec get32 b) (\<lambda>(ev, b). rbind (get_vec get32 b) (\<lambda>(ea, b). rbind (get_vec get_str b) (\<lambda>(eo, b).
     rbind (get_comm b) (\<lambda>((c, p, h), b). Inr ((EvGetSamplesResp c p start n ds eo ea ev, h), b))))))))"

definition in_connect :: "sbuf \<Rightarrow> ((event \<times> ev_head) \<times> sbuf) res" where
  "in_connect b = rbind (get_str b) (\<lambda>(name, b). rbind (get_head b) (\<lambda>(h, b). Inr ((EvServerConnect name, h), b)))"

definition in_router :: "sbuf \<Rightarrow> ((event \<times> ev_head) \<times> sbuf) res" where
  "in_router b = rbind (get_vec get8 b) (\<lambda>(pl, b). rbind (get32 b) (\<lambda>(ty, b). rbind (get64 b) (\<lambda>(src, b).
     rbind (get64 b) (\<lambda>(dest, b). rbind (get_head b) (\<lambda>(h, b). Inr ((EvRouter src dest ty pl, h), b))))))"

definition serialize_in :: "32 word \<Rightarrow> sbuf \<Rightarrow> ((event \<times> ev_head) \<times> sbuf) res" where
  "serialize_in ty b =
     (if ty = 1 then in_create b else if ty = 2 then in_destroy b else if ty = 3 then in_req b
      else if ty = 4 then in_resp b else if ty = 5 then in_log_req b else if ty = 6 then in_log_resp b
      else if ty = 7 then in_samples_req b else if ty = 8 then in_samples_resp b else if ty = 9 then in_connect b
      else if ty = 10 then in_router b else Inl AssertFailed)"

text \<open>The size limits under which an event can be sent at all.\<close>

fun event_ok :: "event \<Rightarrow> bool" where
  "event_ok (EvCommCreate c p ms) = small (small (small (\<lambda>_. True))) ms"
| "event_ok (EvCommDestroy c p) = True"
| "event_ok (EvCommReq c p g as vs ops) = (small (\<lambda>_. True) as \<and> small (\<lambda>_. True) vs \<and> small (\<lambda>_. True) ops)"
| "event_ok (EvCommResp c p ts vs g eo ea ev) =
     (small (small (\<lambda>_. True)) ts \<and> small (small (\<lambda>_. True)) vs \<and> small (small (\<lambda>_. True)) eo \<and>
      small (\<lambda>_. True) ea \<and> small (\<lambda>_. True) ev)"
| "event_ok (EvCommLogReq c p a) = True"
| "event_ok (EvCommLogResp c p eo ea ev) =
     (small (small (\<lambda>_. True)) eo \<and> small (\<lambda>_. True) ea \<and> small (\<lambda>_. True) ev)"
| "event_ok (EvGetSamplesReq c p a start period n) = True"
| "event_ok (EvGetSamplesResp c p start n ds eo ea ev) =
     (small (\<lambda>_. True) ds \<and> small (small (\<lambda>_. True)) eo \<and> small (\<lambda>_. True) ea \<and> small (\<lambda>_. True) ev)"
| "event_ok (EvServerConnect name) = small (\<lambda>_. True) name"
| "event_ok (EvRouter src dest ty pl) = small (\<lambda>_. True) pl"

lemma get_put_head [simp]: "get_head (put_head h b) = Inr (h, b)"
  by (simp add: get_head_def put_head_def c32.get_put c64.get_put)

lemma get_put_comm [simp]: "get_comm (put_comm c p h b) = Inr ((c, p, h), b)"
  by (simp add: get_comm_def put_comm_def c32.get_put c64.get_put)

interpretation v64: codec "put_vec put64" "get_vec get64" "small (\<lambda>_. True)"
  by (rule codec_vec) (rule c64.codec_axioms)

interpretation v32: codec "put_vec put32" "get_vec get32" "small (\<lambda>_. True)"
  by (rule codec_vec) (rule c32.codec_axioms)

interpretation v8: codec "put_vec put8" "get_vec get8" "small (\<lambda>_. True)"
  by (rule codec_vec) (rule c8.codec_axioms)

interpretation vstr: codec "put_vec put_str" "get_vec get_str" "small (small (\<lambda>_. True))"
  by (rule codec_vec) (rule cstr.codec_axioms)

interpretation vv64: codec "put_vec (put_vec put64)" "get_vec (get_vec get64)" "small (small (\<lambda>_. True))"
  by (rule codec_vec) (rule v64.codec_axioms)

interpretation vvstr: codec "put_vec (put_vec put_str)" "get_vec (get_vec get_str)" "small (small (small (\<lambda>_. True)))"
  by (rule codec_vec) (rule vstr.codec_axioms)

lemmas codecs = c64.get_put c32.get_put c8.get_put cstr.get_put v64.get_put v32.get_put v8.get_put
  vstr.get_put vv64.get_put vvstr.get_put

lemmas in_defs = in_create_def in_destroy_def in_req_def in_resp_def in_log_req_def in_log_resp_def
  in_samples_req_def in_samples_resp_def in_connect_def in_router_def

lemma serialize_roundtrip:
  "event_ok ev \<Longrightarrow> serialize_in (event_type ev) (serialize_out ev h b) = Inr ((ev, h), b)"
  by (cases ev) (simp_all add: serialize_in_def in_defs codecs)

subsection \<open>Messages on a socket\<close>

text \<open>
  An event is sent as its type, the length of its encoding and the encoding.  The receiver reads the three
  parts; a short read fails an assertion, except that nothing at all is the end of the connection.
\<close>

definition le_bytes :: "nat \<Rightarrow> 64 word \<Rightarrow> 8 word list" where
  "le_bytes n w = map (\<lambda>i. ucast (drop_bit (8 * i) w)) [0..<n]"

definition sendEvent :: "event \<Rightarrow> ev_head \<Rightarrow> 8 word list" where
  "sendEvent ev h =
     (let buf = serialize_out ev h []
      in le_bytes 4 (ucast (h_type h)) @ le_bytes 8 (of_nat (length buf)) @ rev buf)"

definition read_int :: "nat \<Rightarrow> 8 word list \<Rightarrow> (64 word \<times> 8 word list) res" where
  "read_int n s =
     c_assert (n \<le> length s) (rbind (ser_in n (rev (take n s))) (\<lambda>(w, _). Inr (w, drop n s)))"

definition getEvent :: "8 word list \<Rightarrow> ((event \<times> ev_head) option \<times> 8 word list) res" where
  "getEvent s =
     (if s = [] then Inr (None, [])
      else rbind (read_int 4 s) (\<lambda>(ty, s1). rbind (read_int 8 s1) (\<lambda>(len, s2).
        c_assert (unat len \<le> length s2)
          (rbind (serialize_in (ucast ty) (rev (take (unat len) s2))) (\<lambda>(e, _).
           Inr (Some e, drop (unat len) s2))))))"

text \<open>A router's message carries another event, encoded, and its type.\<close>

definition router_event :: "64 word \<Rightarrow> 64 word \<Rightarrow> event \<Rightarrow> ev_head \<Rightarrow> event" where
  "router_event src dest ev h = EvRouter src dest (event_type ev) (rev (serialize_out ev h []))"

fun getPayload :: "event \<Rightarrow> (event \<times> ev_head) res" where
  "getPayload (EvRouter src dest ty pl) = rbind (serialize_in ty (rev pl)) (\<lambda>(e, _). Inr e)"
| "getPayload _ = Inl AssertFailed"

lemma length_le_bytes [simp]: "length (le_bytes n w) = n"
  by (simp add: le_bytes_def)

lemma read_int_le_bytes:
  "n \<le> 8 \<Longrightarrow> read_int n (le_bytes n w @ s) = Inr (take_bit (8 * n) w, s)"
  using ser_in_out [of n w "[]"] by (simp add: read_int_def) (simp add: ser_out_def le_bytes_def)

text \<open>
  C12.  What one end of a channel sends the other end reads back, field by field, and leaves the rest of the
  stream: every event of the protocol, with any number of objects, attributes, values and errors below
  \<open>2 ^ 32\<close> each; and an event that a router wraps to pass it on is unwrapped unchanged.
\<close>

theorem event_roundtrip:
  assumes "event_ok ev" and "h_type h = event_type ev" and "length (serialize_out ev h []) < 2 ^ 32"
  shows "getEvent (sendEvent ev h @ rest) = Inr (Some (ev, h), rest) \<and>
    getPayload (router_event src dest ev h') = Inr (ev, h') \<and>
    (length (serialize_out ev h' []) < 2 ^ 32 \<longrightarrow> event_ok (router_event src dest ev h'))"
proof -
  let ?buf = "serialize_out ev h []"
  have t: "ucast (take_bit 32 (ucast (h_type h) :: 64 word)) = event_type ev"
    unfolding assms(2) by (rule bit_word_eqI) (auto simp: bit_simps)
  have l: "unat (of_nat (length ?buf) :: 64 word) = length ?buf" using assms(3) by (simp add: unat_of_nat)
  have ne: "sendEvent ev h @ rest \<noteq> []" by (simp add: sendEvent_def Let_def le_bytes_def)
  have "getEvent (sendEvent ev h @ rest) = Inr (Some (ev, h), rest)"
    unfolding getEvent_def if_not_P [OF ne] unfolding sendEvent_def Let_def append_assoc
    using serialize_roundtrip [OF assms(1), of h "[]"]
    by (simp add: read_int_le_bytes t l take_bit_word_eq_self)
  then show ?thesis
    using serialize_roundtrip [OF assms(1), of h' "[]"] by (simp add: router_event_def small_def)
qed

theorem event_roundtrip_witness:
  "getEvent (sendEvent (EvCommReq 7 1 0 [12] [] [1]) \<lparr>h_id = 5, h_type = 3, h_status = 0\<rparr> @ [1, 2]) =
     Inr (Some (EvCommReq 7 1 0 [12] [] [1], \<lparr>h_id = 5, h_type = 3, h_status = 0\<rparr>), [1, 2])"
  using event_roundtrip [of "EvCommReq 7 1 0 [12] [] [1]" "\<lparr>h_id = 5, h_type = 3, h_status = 0\<rparr>" "[1, 2]"]
  by (simp add: small_def put_vec_def put_comm_def put_head_def put64_def put32_def ser_out_def)

end
