(* ===== verification/Pwr_Server.thy ===== *)
theory Pwr_Server
  imports Pwr_Dist
begin

text \<open>
  The server of the daemon (\<^verbatim>\<open>tools/pwrdaemon/server\<close>): it holds a context for the objects of its node and
  answers the requests a router passes on, through the non-blocking calls of the framework
  (\<^verbatim>\<open>src/pwr/distObject.cc\<close>).  An object with remote members is answered when the answer of the next
  daemon arrives (\<^verbatim>\<open>DistCntxt::makeProgress\<close>).
\<close>

subsection \<open>What routers and servers tell each other\<close>

datatype comm_op = Noop | Get | Set | Start | Stop | Clear

record req_event =
  rq_id :: nat
  rq_commID :: nat
  rq_op :: comm_op
  rq_grpIndex :: nat
  rq_attrName :: "attr list"
  rq_setValues :: "cell list"
  rq_valueOp :: "value_op list"

text \<open>\<open>PResp\<close> carries the field \<^verbatim>\<open>grpIndex\<close> beside the rest of the answer.\<close>

datatype payload =
    PCreate nat "string list list"
  | PDestroy nat
  | PReq req_event
  | PResp nat resp_event
  | PLogReq nat nat comm_op attr
  | PLogResp resp_event
  | PSamplesReq nat nat attr pwr_time real nat
  | PSamplesResp resp_event
  | PConnect string

text \<open>
  \<open>sv_waiting\<close> holds, by the number of the outstanding request, where its answer goes and the answer so far;
  \<open>sv_sent\<close> the router events sent, with their source and destination.
\<close>

record server =
  sv_comms :: "nat \<rightharpoonup> string option list"
  sv_waiting :: "nat \<rightharpoonup> (64 word \<times> 64 word) \<times> comm_op \<times> payload"
  sv_sent :: "((64 word \<times> 64 word) \<times> payload) list"

subsection \<open>The non-blocking calls\<close>

text \<open>
  They start the local part and send the request for the remote part.  The errors of the local part go to a
  queue of their own, of which the first becomes the result and the rest is lost; the queue of the caller's
  request is not touched.  The number of the request that is still outstanding is returned.
\<close>

definition nb_start :: "'s object \<Rightarrow> attr \<Rightarrow> (nat \<Rightarrow> sent) \<Rightarrow> net \<Rightarrow> (nat option \<times> net) res" where
  "nb_start ob a msg n =
     (case comm (attrInfo ob a) of
        None \<Rightarrow> Inr (None, n)
      | Some c \<Rightarrow>
          (let (k, n1) = new_req n in rbind (getChannel c n1) (\<lambda>n2. Inr (Some k, send (msg k) n2))))"

definition nb_ret :: "status \<Rightarrow> int res" where
  "nb_ret st = (if status_ret st = RET_STATUS then pop_error st else Inr RET_SUCCESS)"

definition nb_attrGetValues ::
  "'s object \<Rightarrow> attr list \<Rightarrow> 's \<times> net \<Rightarrow> cell list \<Rightarrow> pwr_time list
   \<Rightarrow> ((int \<times> cell list \<times> pwr_time list \<times> nat option) \<times> 's \<times> net) res" where
  "nb_attrGetValues ob as sn buf ts =
     rbind (attrGetValues ob 0 as (fst sn) buf ts []) (\<lambda>((_, buf1, ts1, st1), s1).
     if as = [] then Inl MemoryFault
     else c_assert (same_comm ob as)
       (rbind (nb_start ob (hd as) (\<lambda>k. CommGet k as (map (\<lambda>a. valueOp (attrInfo ob a)) as)) (snd sn)) (\<lambda>(k, n1).
        rbind (nb_ret st1) (\<lambda>rc. Inr ((rc, buf1, ts1, k), s1, n1)))))"

definition nb_attrSetValues ::
  "'s object \<Rightarrow> attr list \<Rightarrow> 's \<times> net \<Rightarrow> cell list \<Rightarrow> ((int \<times> nat option) \<times> 's \<times> net) res" where
  "nb_attrSetValues ob as sn buf =
     rbind (attrSetValues ob as (fst sn) buf []) (\<lambda>((_, buf1, st1), s1).
     if as = [] then Inl MemoryFault
     else c_assert (same_comm ob as)
       (if comm (attrInfo ob (hd as)) \<noteq> None \<and> length buf1 < length as then Inl MemoryFault
        else rbind (nb_start ob (hd as) (\<lambda>k. CommSet k as (take (length as) buf1)) (snd sn)) (\<lambda>(k, n1).
             rbind (nb_ret st1) (\<lambda>rc. Inr ((rc, k), s1, n1)))))"

definition nb_log ::
  "('s object \<Rightarrow> attr \<Rightarrow> 's \<Rightarrow> (int \<times> 's) res) \<Rightarrow> (nat \<Rightarrow> attr \<Rightarrow> sent) \<Rightarrow> 's object \<Rightarrow> attr \<Rightarrow> 's \<times> net
   \<Rightarrow> ((int \<times> nat option) \<times> 's \<times> net) res" where
  "nb_log f msg ob a sn =
     rbind (f ob a (fst sn)) (\<lambda>(rc, s1).
     if rc \<noteq> RET_SUCCESS then Inr ((rc, None), s1, snd sn)
     else rbind (nb_start ob a (\<lambda>k. msg k a) (snd sn)) (\<lambda>(k, n1). Inr ((RET_SUCCESS, k), s1, n1)))"

definition nb_attrGetSamples ::
  "'s object \<Rightarrow> attr \<Rightarrow> 's \<times> net \<Rightarrow> pwr_time option \<Rightarrow> real \<Rightarrow> nat \<Rightarrow> cell list
   \<Rightarrow> ((int \<times> pwr_time option \<times> cell list \<times> nat option) \<times> 's \<times> net) res" where
  "nb_attrGetSamples ob a sn start period count buf =
     rbind (attrGetSamples ob a (fst sn) start period count buf) (\<lambda>((rc, start1, buf1), s1).
     if rc \<noteq> RET_SUCCESS then Inr ((rc, start1, buf1, None), s1, snd sn)
     else rbind (nb_start ob a (\<lambda>k. CommSamples k a start1 period count) (snd sn)) (\<lambda>(k, n1).
          Inr ((RET_SUCCESS, start1, buf1, k), s1, n1)))"

subsection \<open>Handlers\<close>

text \<open>
  \<^verbatim>\<open>SrvrCommCreateEvent\<close>: each member list must have one name, the server's own object.  \<open>look\<close> finds an
  object by name.
\<close>

definition resize :: "nat \<Rightarrow> 'a \<Rightarrow> 'a list \<Rightarrow> 'a list" where
  "resize n x xs = take n xs @ replicate (n - length xs) x"

definition srvr_create ::
  "(string \<Rightarrow> string option) \<Rightarrow> nat \<Rightarrow> string list list \<Rightarrow> server \<Rightarrow> server res" where
  "srvr_create look c ms sv =
     (let os = resize (length ms) None (case sv_comms sv c of None \<Rightarrow> [] | Some l \<Rightarrow> l)
      in rbind (arr_get ms 0) (\<lambda>m. c_assert (length m = 1)
          (case look (hd m) of
             None \<Rightarrow> Inl AssertFailed
           | Some x \<Rightarrow> rbind (arr_set os 0 (Some x)) (\<lambda>os'. Inr (sv\<lparr>sv_comms := (sv_comms sv)(c \<mapsto> os')\<rparr>)))))"

definition srvr_destroy :: "nat \<Rightarrow> server \<Rightarrow> server" where
  "srvr_destroy c sv = sv\<lparr>sv_comms := (sv_comms sv)(c := None)\<rparr>"

text \<open>\<^verbatim>\<open>m_commMap[commID].objects[0]\<close>: an unknown communicator has an empty list.\<close>

definition srvr_obj :: "server \<Rightarrow> nat \<Rightarrow> string res" where
  "srvr_obj sv c =
     rbind (arr_get (case sv_comms sv c of None \<Rightarrow> [] | Some l \<Rightarrow> l) 0) (\<lambda>x.
     case x of None \<Rightarrow> Inl MemoryFault | Some ob \<Rightarrow> Inr ob)"

text \<open>
  \<^verbatim>\<open>requestFini\<close> and its two siblings empty the queue of the request into the answer.  Names are copied
  through a buffer of 100 characters that is not terminated when the name fills it.
\<close>

fun err_names :: "status \<Rightarrow> string list res" where
  "err_names [] = Inr []"
| "err_names (e # es) =
     (case err_obj e of
        None \<Rightarrow> Inl MemoryFault
      | Some x \<Rightarrow> if length x < 100 then rbind (err_names es) (\<lambda>xs. Inr (x # xs)) else Inl MemoryFault)"

definition push_errors :: "status \<Rightarrow> resp_event \<Rightarrow> resp_event res" where
  "push_errors st r =
     rbind (err_names st) (\<lambda>xs.
     Inr (r\<lparr>ev_errObj := ev_errObj r @ xs, ev_errAttr := ev_errAttr r @ map err_name st,
           ev_errValue := ev_errValue r @ map err_error st\<rparr>))"

fun map_resp :: "(resp_event \<Rightarrow> resp_event res) \<Rightarrow> payload \<Rightarrow> payload res" where
  "map_resp f (PResp g r) = rbind (f r) (\<lambda>r'. Inr (PResp g r'))"
| "map_resp f (PLogResp r) = rbind (f r) (\<lambda>r'. Inr (PLogResp r'))"
| "map_resp f (PSamplesResp r) = rbind (f r) (\<lambda>r'. Inr (PSamplesResp r'))"
| "map_resp f p = Inl MemoryFault"

text \<open>\<^verbatim>\<open>Server::fini\<close>: the answer goes back where the request came from.\<close>

definition srvr_fini :: "64 word \<times> 64 word \<Rightarrow> payload \<Rightarrow> status \<Rightarrow> server \<Rightarrow> server res" where
  "srvr_fini re p st sv =
     rbind (map_resp (push_errors st) p) (\<lambda>p'. Inr (sv\<lparr>sv_sent := sv_sent sv @ [((snd re, fst re), p')]\<rparr>))"

text \<open>
  What a request does after its call: if the call failed or nothing is outstanding the answer is sent at once,
  with the errors in the queue of the request, which is empty; otherwise it waits.
\<close>

definition srvr_after ::
  "64 word \<times> 64 word \<Rightarrow> comm_op \<Rightarrow> payload \<Rightarrow> int \<Rightarrow> nat option \<Rightarrow> server \<Rightarrow> server res" where
  "srvr_after re opr p rc k sv =
     (case k of
        None \<Rightarrow> srvr_fini re p [] sv
      | Some i \<Rightarrow>
          if rc \<noteq> RET_SUCCESS then srvr_fini re p [] sv
          else Inr (sv\<lparr>sv_waiting := (sv_waiting sv)(i \<mapsto> (re, opr, p))\<rparr>))"

definition new_resp :: "nat \<Rightarrow> resp_event" where
  "new_resp k = \<lparr>ev_id = k, ev_value = [], ev_timeStamp = [], ev_errObj = [], ev_errAttr = [],
                 ev_errValue = [], ev_startTime = 0, ev_data = []\<rparr>"

definition srvr_req ::
  "(string \<Rightarrow> 's object) \<Rightarrow> 64 word \<times> 64 word \<Rightarrow> req_event \<Rightarrow> server \<times> 's \<times> net
   \<Rightarrow> (server \<times> 's \<times> net) res" where
  "srvr_req obj re rq st =
     (let (sv, sn) = st; as = rq_attrName rq; r = new_resp (rq_id rq) in
      rbind (srvr_obj sv (rq_commID rq)) (\<lambda>x.
      if rq_op rq = Get then
        rbind (nb_attrGetValues (obj x) as sn (replicate (length as) (U64 0)) (replicate (length as) 0))
          (\<lambda>((rc, buf, ts, k), sn').
        rbind (srvr_after re Get (PResp (rq_grpIndex rq) (r\<lparr>ev_value := [buf], ev_timeStamp := [ts]\<rparr>)) rc k sv) (\<lambda>sv'.
        Inr (sv', sn')))
      else
        rbind (nb_attrSetValues (obj x) as sn (rq_setValues rq)) (\<lambda>((rc, k), sn').
        rbind (srvr_after re (rq_op rq) (PResp (rq_grpIndex rq) r) rc k sv) (\<lambda>sv'. Inr (sv', sn')))))"

definition srvr_log ::
  "(string \<Rightarrow> 's object) \<Rightarrow> 64 word \<times> 64 word \<Rightarrow> nat \<Rightarrow> nat \<Rightarrow> comm_op \<Rightarrow> attr \<Rightarrow> server \<times> 's \<times> net
   \<Rightarrow> (server \<times> 's \<times> net) res" where
  "srvr_log obj re k c opr a st =
     (let (sv, sn) = st in
      rbind (srvr_obj sv c) (\<lambda>x.
      rbind (if opr = Start then nb_log attrStartLog CommStart (obj x) a sn
             else nb_log attrStopLog CommStop (obj x) a sn) (\<lambda>((rc, i), sn').
      rbind (srvr_after re opr (PLogResp (new_resp k)) rc i sv) (\<lambda>sv'. Inr (sv', sn')))))"

text \<open>\<open>junk\<close> is what the start time of the answer holds before the call sets it.\<close>

definition srvr_samples ::
  "(string \<Rightarrow> 's object) \<Rightarrow> pwr_time \<Rightarrow> 64 word \<times> 64 word \<Rightarrow> nat \<Rightarrow> nat \<Rightarrow> attr \<Rightarrow> real \<Rightarrow> nat
   \<Rightarrow> server \<times> 's \<times> net \<Rightarrow> (server \<times> 's \<times> net) res" where
  "srvr_samples obj junk re k c a period count st =
     (let (sv, sn) = st in
      rbind (srvr_obj sv c) (\<lambda>x.
      rbind (nb_attrGetSamples (obj x) a sn (Some junk) period count (replicate count (U64 0)))
        (\<lambda>((rc, start, data, i), sn').
      rbind (srvr_after re Noop
              (PSamplesResp (new_resp k\<lparr>ev_startTime := (case start of Some t \<Rightarrow> t | None \<Rightarrow> junk), ev_data := data\<rparr>))
              rc i sv) (\<lambda>sv'. Inr (sv', sn')))))"

text \<open>\<^verbatim>\<open>SrvrRouterEvent\<close>: the events \<^verbatim>\<open>allocReqEvent\<close> accepts; the others fail its assertion.\<close>

fun srvr_event ::
  "(string \<Rightarrow> string option) \<Rightarrow> (string \<Rightarrow> 's object) \<Rightarrow> pwr_time \<Rightarrow> 64 word \<times> 64 word \<Rightarrow> payload
   \<Rightarrow> server \<times> 's \<times> net \<Rightarrow> (server \<times> 's \<times> net) res" where
  "srvr_event look obj junk re (PCreate c ms) (sv, sn) = rbind (srvr_create look c ms sv) (\<lambda>sv'. Inr (sv', sn))"
| "srvr_event look obj junk re (PDestroy c) (sv, sn) = Inr (srvr_destroy c sv, sn)"
| "srvr_event look obj junk re (PReq rq) st = srvr_req obj re rq st"
| "srvr_event look obj junk re (PLogReq k c opr a) st = srvr_log obj re k c opr a st"
| "srvr_event look obj junk re (PSamplesReq k c a start period count) st =
     srvr_samples obj junk re k c a period count st"
| "srvr_event look obj junk re p st = Inl AssertFailed"

text \<open>
  \<^verbatim>\<open>DistCntxt::makeProgress\<close>: an answer from the next daemon completes the request it belongs to.  At the end
  of the connection a null pointer is followed.
\<close>

definition progress_resp ::
  "(string \<Rightarrow> string option) \<Rightarrow> comm_op \<Rightarrow> resp_event \<Rightarrow> payload \<Rightarrow> (payload \<times> status) res" where
  "progress_resp look opr ev p =
     (case p of
        PResp g r \<Rightarrow>
          if opr = Get then
            rbind (arr_get (ev_value r) 0) (\<lambda>buf. rbind (arr_get (ev_timeStamp r) 0) (\<lambda>ts.
            rbind (req_getValue look [0] ev buf ts []) (\<lambda>(buf', ts', st).
            Inr (PResp g (r\<lparr>ev_value := [buf'], ev_timeStamp := [ts']\<rparr>), st))))
          else rbind (req_setValue look ev []) (\<lambda>st. Inr (p, st))
      | PLogResp r \<Rightarrow> rbind (req_setValue look ev []) (\<lambda>st. Inr (p, st))
      | PSamplesResp r \<Rightarrow>
          rbind (store_row 0 (ev_data ev) (replicate (length (ev_data ev)) 0) (ev_data r)
                   (replicate (length (ev_data r)) 0)) (\<lambda>(data, _).
          Inr (PSamplesResp (r\<lparr>ev_startTime := ev_startTime ev, ev_data := data\<rparr>), []))
      | _ \<Rightarrow> Inl MemoryFault)"

definition makeProgress ::
  "(string \<Rightarrow> string option) \<Rightarrow> server \<times> 's \<times> net \<Rightarrow> (server \<times> 's \<times> net) res" where
  "makeProgress look st =
     (let (sv, s, n) = st in
      case inbox n of
        [] \<Rightarrow> Inl MemoryFault
      | ev # evs \<Rightarrow>
          (case sv_waiting sv (ev_id ev) of
             None \<Rightarrow> Inl MemoryFault
           | Some (re, opr, p) \<Rightarrow>
               rbind (progress_resp look opr ev p) (\<lambda>(p', st').
               rbind (srvr_fini re p' st' (sv\<lparr>sv_waiting := (sv_waiting sv)(ev_id ev := None)\<rparr>)) (\<lambda>sv'.
               Inr (sv', s, n\<lparr>inbox := evs\<rparr>)))))"

lemma status_ret_cases: "status_ret st = RET_STATUS \<longleftrightarrow> st \<noteq> []"
  by (simp add: status_ret_def status_empty_def ret_defs)

lemma nb_ret_get:
  assumes "attrGetValue ob a s v t = Inr ((rc, buf, ts), s')"
  shows "\<exists>rc' st. attrGetValues ob 0 [a] s [v] [t] [] = Inr ((rc', buf, ts, st), s') \<and> nb_ret st = Inr rc"
proof -
  from assms obtain rc' st where "attrGetValues ob 0 [a] s [v] [t] [] = Inr ((rc', buf, ts, st), s')"
    and "if rc' \<noteq> RET_SUCCESS then pop_error st = Inr rc else rc = RET_SUCCESS"
    by (auto simp: attrGetValue_def res_simps split: if_splits)
  moreover from this(1) have "rc' = status_ret st" by (auto simp: attrGetValues_def res_simps)
  ultimately show ?thesis by (auto simp: nb_ret_def status_ret_cases status_ret_eq split: if_splits)
qed

lemma nb_ret_set:
  assumes "attrSetValue ob a s v = Inr ((rc, buf), s')"
  shows "\<exists>rc' st. attrSetValues ob [a] s [v] [] = Inr ((rc', buf, st), s') \<and> nb_ret st = Inr rc"
proof -
  from assms obtain rc' st where "attrSetValues ob [a] s [v] [] = Inr ((rc', buf, st), s')"
    and "if rc' \<noteq> RET_SUCCESS then pop_error st = Inr rc else rc = RET_SUCCESS"
    by (auto simp: attrSetValue_def res_simps split: if_splits)
  moreover from this(1) have "rc' = status_ret st" by (auto simp: attrSetValues_def res_simps)
  ultimately show ?thesis by (auto simp: nb_ret_def status_ret_cases status_ret_eq split: if_splits)
qed

lemma nb_start_local: "comm (attrInfo ob a) = None \<Longrightarrow> nb_start ob a msg n = Inr (None, n)"
  by (simp add: nb_start_def)

text \<open>A request without remote part is answered at once, without errors.\<close>

lemma srvr_after_local:
  "srvr_after re opr (PResp g r) rc None sv = Inr (sv\<lparr>sv_sent := sv_sent sv @ [((snd re, fst re), PResp g r)]\<rparr>)"
  "srvr_after re opr (PLogResp r) rc None sv = Inr (sv\<lparr>sv_sent := sv_sent sv @ [((snd re, fst re), PLogResp r)]\<rparr>)"
  by (simp_all add: srvr_after_def srvr_fini_def push_errors_def)

lemma srvr_obj_eq: "sv_comms sv c = Some (Some x # os) \<Longrightarrow> srvr_obj sv c = Inr x"
  by (simp add: srvr_obj_def arr_get_def)

lemma srvr_get_local:
  assumes "sv_comms sv (rq_commID rq) = Some (Some x # os)" and "comm (attrInfo (obj x) a) = None"
    and "attrGetValue (obj x) a s (U64 0) 0 = Inr ((rc, [v], [t]), s')"
    and "rq_op rq = Get" and "rq_attrName rq = [a]"
  shows "srvr_req obj re rq (sv, s, n) =
    Inr (sv\<lparr>sv_sent := sv_sent sv @ [((snd re, fst re), PResp (rq_grpIndex rq)
           (new_resp (rq_id rq)\<lparr>ev_value := [[v]], ev_timeStamp := [[t]]\<rparr>))]\<rparr>, s', n)"
proof -
  obtain rc' st where g: "attrGetValues (obj x) 0 [a] s [U64 0] [0] [] = Inr ((rc', [v], [t], st), s')"
    and r: "nb_ret st = Inr rc" using nb_ret_get [OF assms(3)] by blast
  have "nb_attrGetValues (obj x) [a] (s, n) [U64 0] [0] = Inr ((rc, [v], [t], None), s', n)"
    by (simp add: nb_attrGetValues_def g r same_comm_def nb_start_local assms(2))
  then show ?thesis
    using assms(4,5) by (simp add: srvr_req_def Let_def srvr_obj_eq [OF assms(1)] srvr_after_local)
qed

lemma srvr_set_local:
  assumes "sv_comms sv (rq_commID rq) = Some (Some x # os)" and "comm (attrInfo (obj x) a) = None"
    and "attrSetValue (obj x) a s v = Inr ((rc, w), s')"
    and "rq_op rq = Set" and "rq_attrName rq = [a]" and "rq_setValues rq = [v]"
  shows "srvr_req obj re rq (sv, s, n) =
    Inr (sv\<lparr>sv_sent := sv_sent sv @ [((snd re, fst re), PResp (rq_grpIndex rq) (new_resp (rq_id rq)))]\<rparr>, s', n)"
proof -
  obtain rc' st where g: "attrSetValues (obj x) [a] s [v] [] = Inr ((rc', w, st), s')"
    and r: "nb_ret st = Inr rc" using nb_ret_set [OF assms(3)] by blast
  have "nb_attrSetValues (obj x) [a] (s, n) [v] = Inr ((rc, None), s', n)"
    by (simp add: nb_attrSetValues_def g r same_comm_def nb_start_local assms(2))
  then show ?thesis
    using assms(4,5,6) by (simp add: srvr_req_def Let_def srvr_obj_eq [OF assms(1)] srvr_after_local)
qed
subsection \<open>Servers that fail\<close>


definition dead_obj :: "'s object" where
  "dead_obj = \<lparr>o_name = ''d'', o_type = OBJ_NODE,
     attrInfo = (\<lambda>_. \<lparr>devices = [], comm = None, operation = Some sumOp, calcTime = timeOp, valueOp = FP_ADD\<rparr>)\<rparr>"

definition demo_server :: "string \<Rightarrow> server" where
  "demo_server x = \<lparr>sv_comms = [7 \<mapsto> [Some x]], sv_waiting = Map.empty, sv_sent = []\<rparr>"

definition demo_req :: req_event where
  "demo_req = \<lparr>rq_id = 5, rq_commID = 7, rq_op = Get, rq_grpIndex = 0, rq_attrName = [ATTR_POWER],
     rq_setValues = [], rq_valueOp = [FP_ADD]\<rparr>"


end
