(* ===== verification/Pwr_Router.thy ===== *)
theory Pwr_Router
  imports Pwr_Server "HOL-Library.Multiset"
begin

text \<open>
  The router of the daemon (\<^verbatim>\<open>tools/pwrdaemon/router\<close>): it connects clients, servers and other routers,
  routes events by the name of an object, splits a request for several objects and joins the answers.
\<close>

unbundle bit_operations_syntax

subsection \<open>Addresses\<close>

text \<open>
  An \<^verbatim>\<open>AppID\<close> is a router number in the upper and a server number in the lower half; the server number
  \<open>-1\<close> is the router itself.
\<close>

definition RTR_ID :: "64 word \<Rightarrow> 32 word" where
  "RTR_ID x = ucast (drop_bit 32 x)"

definition SERVER_ID :: "64 word \<Rightarrow> 32 word" where
  "SERVER_ID x = ucast (x AND 0xffffffff)"

definition APP_ID :: "32 word \<Rightarrow> 32 word \<Rightarrow> 64 word" where
  "APP_ID rtr srv = (push_bit 32 (ucast rtr)) OR ucast srv"

lemma RTR_ID_APP_ID [simp]: "RTR_ID (APP_ID r v) = r"
  unfolding RTR_ID_def APP_ID_def by (rule bit_word_eqI) (auto simp: bit_simps dest: bit_imp_le_length)

lemma low_mask: "(0xffffffff :: 64 word) = mask 32"
  by (simp add: mask_eq_exp_minus_1)

lemma SERVER_ID_APP_ID [simp]: "SERVER_ID (APP_ID r v) = v"
  unfolding SERVER_ID_def APP_ID_def low_mask by (rule bit_word_eqI) (auto simp: bit_simps)

lemma APP_ID_eq [simp]: "APP_ID (RTR_ID a) (SERVER_ID a) = a"
  unfolding RTR_ID_def SERVER_ID_def APP_ID_def low_mask by (rule bit_word_eqI) (auto simp: bit_simps)

subsection \<open>State\<close>

datatype msg = Plain payload | Routed "64 word \<times> 64 word" payload

text \<open>
  \<^verbatim>\<open>CommReqInfo\<close>: the client's channel, for each group the number of objects and the answers so far, the
  number of groups not yet complete and the answer being put together.
\<close>

record comm_req_info =
  ri_src :: nat
  ri_op :: comm_op
  ri_grpInfo :: "nat list"
  ri_pending :: nat
  ri_valueOp :: "value_op list"
  ri_respQ :: "resp_event list list"
  ri_resp :: resp_event

text \<open>
  Channels are numbers; \<open>rt_open\<close> are those not deleted.  A request in progress is kept by its address, which
  is the event number the servers see (\<open>rt_infos\<close>).  An event waiting for a server is \<open>None\<close> when it has
  been deleted in the meantime.  \<open>rt_core\<close> is \<^verbatim>\<open>RouterCore::getChannel\<close>.
\<close>

record router =
  rt_id :: "32 word"
  rt_table :: "string \<rightharpoonup> 64 word"
  rt_local :: "32 word \<rightharpoonup> nat"
  rt_core :: "32 word \<Rightarrow> nat option res"
  rt_pending :: "32 word \<Rightarrow> msg option list"
  rt_servers :: "nat \<rightharpoonup> string"
  rt_clients :: "nat \<rightharpoonup> (nat \<times> string list list) list"
  rt_infos :: "nat \<rightharpoonup> comm_req_info"
  rt_next :: nat
  rt_open :: "nat set"
  rt_out :: "(nat \<times> msg) list"

definition chan_send :: "nat \<Rightarrow> msg \<Rightarrow> router \<Rightarrow> router res" where
  "chan_send ch m rt = (if ch \<in> rt_open rt then Inr (rt\<lparr>rt_out := rt_out rt @ [(ch, m)]\<rparr>) else Inl MemoryFault)"

subsection \<open>Joining the answers\<close>

definition fpAdd :: "cell \<Rightarrow> cell \<Rightarrow> cell res" where
  "fpAdd a b = rbind (load_double a) (\<lambda>x. rbind (load_double b) (\<lambda>y. Inr (Dbl (x + y))))"

text \<open>One answer is added to the row of its group; the time stamps are those of the last answer.\<close>

fun add_row ::
  "value_op list \<Rightarrow> cell list \<Rightarrow> pwr_time list \<Rightarrow> cell list \<Rightarrow> pwr_time list \<Rightarrow> (cell list \<times> pwr_time list) res" where
  "add_row [] acc tacc vs us = Inr ([], [])"
| "add_row (opr # ops) (a # acc) (t # tacc) (v # vs) (u # us) =
     c_assert (opr = FP_ADD) (rbind (fpAdd a v) (\<lambda>x.
       rbind (add_row ops acc tacc vs us) (\<lambda>(xs, ts). Inr (x # xs, u # ts))))"
| "add_row (opr # ops) acc tacc vs us = c_assert (opr = FP_ADD) (Inl MemoryFault)"

fun add_rows ::
  "value_op list \<Rightarrow> cell list \<Rightarrow> pwr_time list \<Rightarrow> resp_event list \<Rightarrow> (cell list \<times> pwr_time list) res" where
  "add_rows ops acc tacc [] = Inr (acc, tacc)"
| "add_rows ops acc tacc (r # rs) =
     (if ops = [] then Inr (acc, tacc)
      else rbind (arr_get (ev_value r) 0) (\<lambda>vs. rbind (arr_get (ev_timeStamp r) 0) (\<lambda>us.
        rbind (add_row ops acc tacc vs us) (\<lambda>(acc', tacc'). add_rows ops acc' tacc' rs))))"

definition join_values :: "comm_op \<Rightarrow> value_op list \<Rightarrow> nat \<Rightarrow> resp_event list \<Rightarrow> resp_event \<Rightarrow> resp_event res" where
  "join_values opr ops g q resp =
     (if opr = Get then
        rbind (add_rows ops (replicate (length ops) (U64 0)) (replicate (length ops) 0) q) (\<lambda>(vs, us).
        rbind (arr_set (ev_value resp) g vs) (\<lambda>vv. rbind (arr_set (ev_timeStamp resp) g us) (\<lambda>tt.
        Inr (resp\<lparr>ev_value := vv, ev_timeStamp := tt\<rparr>))))
      else Inr resp)"

definition join_errors :: "resp_event list \<Rightarrow> resp_event \<Rightarrow> resp_event" where
  "join_errors q resp =
     resp\<lparr>ev_errValue := ev_errValue resp @ concat (map ev_errValue q),
          ev_errAttr := ev_errAttr resp @ concat (map ev_errAttr q),
          ev_errObj := ev_errObj resp @ concat (map ev_errObj q)\<rparr>"

text \<open>
  \<^verbatim>\<open>RtrCommRespEvent::process\<close>.  The event number is the address of the request, which is gone once it has been
  answered; the group that becomes complete is joined, and with the last group the answer is sent.
\<close>

definition comm_resp :: "nat \<Rightarrow> resp_event \<Rightarrow> router \<Rightarrow> router res" where
  "comm_resp g r rt =
     (let k = ev_id r in
      case rt_infos rt k of
        None \<Rightarrow> Inl MemoryFault
      | Some i \<Rightarrow>
          rbind (arr_get (ri_respQ i) g) (\<lambda>q. rbind (arr_get (ri_grpInfo i) g) (\<lambda>m.
          (let q' = q @ [r]; i1 = i\<lparr>ri_respQ := (ri_respQ i)[g := q']\<rparr> in
           if length q' \<noteq> m then Inr (rt\<lparr>rt_infos := (rt_infos rt)(k \<mapsto> i1)\<rparr>)
           else rbind (join_values (ri_op i) (ri_valueOp i) g q' (ri_resp i)) (\<lambda>resp.
             (let resp' = join_errors q' resp in
              if ri_pending i = 1 then
                rbind (chan_send (ri_src i) (Plain (PResp 0 resp')) rt) (\<lambda>rt'.
                Inr (rt'\<lparr>rt_infos := (rt_infos rt')(k := None)\<rparr>))
              else Inr (rt\<lparr>rt_infos := (rt_infos rt)(k \<mapsto> i1\<lparr>ri_resp := resp', ri_pending := ri_pending i - 1\<rparr>)\<rparr>)))))))"

text \<open>The answers of the two calls for one object are passed on as they are, under the client's number.\<close>

definition pass_resp :: "(resp_event \<Rightarrow> payload) \<Rightarrow> resp_event \<Rightarrow> router \<Rightarrow> router res" where
  "pass_resp con r rt =
     (case rt_infos rt (ev_id r) of
        None \<Rightarrow> Inl MemoryFault
      | Some i \<Rightarrow>
          rbind (chan_send (ri_src i) (Plain (con (r\<lparr>ev_id := ev_id (ri_resp i)\<rparr>))) rt) (\<lambda>rt'.
          Inr (rt'\<lparr>rt_infos := (rt_infos rt')(ev_id r := None)\<rparr>)))"

text \<open>
  The payload of an event addressed to the router itself, as \<^verbatim>\<open>allocServerEvent\<close> accepts it; it is processed
  without a channel, so a connect event writes to a null pointer.
\<close>

fun process_payload :: "payload \<Rightarrow> router \<Rightarrow> router res" where
  "process_payload (PResp g r) rt = comm_resp g r rt"
| "process_payload (PLogResp r) rt = pass_resp PLogResp r rt"
| "process_payload (PSamplesResp r) rt = pass_resp PSamplesResp r rt"
| "process_payload (PConnect name) rt = Inl MemoryFault"
| "process_payload p rt = Inl AssertFailed"

subsection \<open>Routing\<close>

definition findRoute :: "router \<Rightarrow> string \<Rightarrow> 64 word" where
  "findRoute rt name = (case rt_table rt name of None \<Rightarrow> -1 | Some a \<Rightarrow> a)"

definition findServerChan :: "router \<Rightarrow> 32 word \<Rightarrow> nat option" where
  "findServerChan rt srv = (if srv = -1 then None else rt_local rt srv)"

definition push_pending :: "32 word \<Rightarrow> msg option \<Rightarrow> router \<Rightarrow> router" where
  "push_pending srv m rt = rt\<lparr>rt_pending := (rt_pending rt)(srv := rt_pending rt srv @ [m])\<rparr>"

text \<open>
  \<^verbatim>\<open>Router::sendEvent\<close> to an address.  An event of another router that has to wait is deleted by
  its handler (\<^verbatim>\<open>RtrRouterEvent::process\<close> returns true).
\<close>

definition dest_chan :: "32 word \<Rightarrow> 32 word \<Rightarrow> router \<Rightarrow> nat option res" where
  "dest_chan r srv rt =
     (if r = rt_id rt then Inr (findServerChan rt srv)
      else rbind (rt_core rt r) (\<lambda>c. case c of None \<Rightarrow> Inl AssertFailed | Some ch \<Rightarrow> Inr (Some ch)))"

fun send_app :: "64 word \<Rightarrow> msg \<Rightarrow> router \<Rightarrow> router res" where
  "send_app dest (Routed re p) rt =
     rbind (dest_chan (RTR_ID dest) (SERVER_ID dest) rt) (\<lambda>ec.
     if RTR_ID dest = rt_id rt \<and> SERVER_ID dest = -1 then process_payload p rt
     else case ec of
       None \<Rightarrow> Inr (push_pending (SERVER_ID dest) None rt)
     | Some ch \<Rightarrow> chan_send ch (Routed re p) rt)"
| "send_app dest (Plain p) rt =
     rbind (dest_chan (RTR_ID dest) (SERVER_ID dest) rt) (\<lambda>ec.
     let m = Routed (APP_ID (rt_id rt) (-1), dest) p in
     case ec of
       None \<Rightarrow> Inr (push_pending (SERVER_ID dest) (Some m) rt)
     | Some ch \<Rightarrow> chan_send ch m rt)"

text \<open>To an object: the test for an unknown route compares the 64-bit \<open>-1\<close> with the 32-bit one.\<close>

definition send_obj :: "string \<Rightarrow> payload \<Rightarrow> router \<Rightarrow> router res" where
  "send_obj name p rt =
     (let dest = findRoute rt name
      in if dest = 0xffffffff then Inr rt else send_app dest (Plain p) rt)"

fun send_all :: "(string \<times> payload) list \<Rightarrow> router \<Rightarrow> router res" where
  "send_all [] rt = Inr rt"
| "send_all ((name, p) # xs) rt = rbind (send_obj name p rt) (send_all xs)"

subsection \<open>Events of clients\<close>

definition client_comms :: "nat \<Rightarrow> router \<Rightarrow> (nat \<times> string list list) list res" where
  "client_comms ch rt = (case rt_clients rt ch of None \<Rightarrow> Inl AssertFailed | Some cs \<Rightarrow> Inr cs)"

definition comm_list :: "nat \<Rightarrow> nat \<Rightarrow> router \<Rightarrow> string list list res" where
  "comm_list ch c rt =
     rbind (client_comms ch rt) (\<lambda>cs. case map_of cs c of None \<Rightarrow> Inl MemoryFault | Some ms \<Rightarrow> Inr ms)"

text \<open>A communicator is announced to the server of every object, each with a list of its own.\<close>

definition client_create :: "nat \<Rightarrow> nat \<Rightarrow> string list list \<Rightarrow> router \<Rightarrow> router res" where
  "client_create ch c ms rt =
     rbind (client_comms ch rt) (\<lambda>cs. c_assert (map_of cs c = None)
       (send_all (map (\<lambda>x. (x, PCreate c [[x]])) (concat ms))
         (rt\<lparr>rt_clients := (rt_clients rt)(ch \<mapsto> (c, ms) # cs)\<rparr>)))"

definition new_info :: "nat \<Rightarrow> comm_op \<Rightarrow> value_op list \<Rightarrow> nat \<Rightarrow> string list list \<Rightarrow> comm_req_info" where
  "new_info ch opr ops k ms =
     \<lparr>ri_src = ch, ri_op = opr, ri_grpInfo = map length ms, ri_pending = length ms,
      ri_valueOp = (if opr = Get then ops else []), ri_respQ = replicate (length ms) [],
      ri_resp = (if opr = Get then new_resp k\<lparr>ev_value := replicate (length ms) [], ev_timeStamp := replicate (length ms) []\<rparr>
                 else new_resp k)\<rparr>"

definition add_info :: "comm_req_info \<Rightarrow> router \<Rightarrow> nat \<times> router" where
  "add_info i rt =
     (rt_next rt, rt\<lparr>rt_infos := (rt_infos rt)(rt_next rt \<mapsto> i), rt_next := Suc (rt_next rt)\<rparr>)"

definition client_req :: "nat \<Rightarrow> req_event \<Rightarrow> router \<Rightarrow> router res" where
  "client_req ch rq rt =
     rbind (comm_list ch (rq_commID rq) rt) (\<lambda>ms.
     (let (k, rt1) = add_info (new_info ch (rq_op rq) (rq_valueOp rq) (rq_id rq) ms) rt
      in send_all (concat (map (\<lambda>(g, m). map (\<lambda>x. (x, PReq (rq\<lparr>rq_id := k, rq_grpIndex := g\<rparr>))) m)
                     (enumerate 0 ms))) rt1))"

text \<open>
  Logging and samples work for one object only; their request has no queues.  The answer is taken to be
  of the kind that was asked for: the program casts it without a check.
\<close>

definition single_info :: "nat \<Rightarrow> comm_op \<Rightarrow> nat \<Rightarrow> comm_req_info" where
  "single_info ch opr k =
     \<lparr>ri_src = ch, ri_op = opr, ri_grpInfo = [], ri_pending = 1, ri_valueOp = [], ri_respQ = [], ri_resp = new_resp k\<rparr>"

definition client_single :: "nat \<Rightarrow> nat \<Rightarrow> comm_op \<Rightarrow> nat \<Rightarrow> (nat \<Rightarrow> payload) \<Rightarrow> router \<Rightarrow> router res" where
  "client_single ch c opr k con rt =
     rbind (comm_list ch c rt) (\<lambda>ms. c_assert (length ms = 1) (c_assert (length (hd ms) = 1)
     (let (j, rt1) = add_info (single_info ch opr k) rt
      in send_all (map (\<lambda>x. (x, con j)) (concat ms)) rt1)))"

fun client_event :: "nat \<Rightarrow> payload \<Rightarrow> router \<Rightarrow> router res" where
  "client_event ch (PCreate c ms) rt = client_create ch c ms rt"
| "client_event ch (PReq rq) rt = client_req ch rq rt"
| "client_event ch (PLogReq k c opr a) rt = client_single ch c opr k (\<lambda>j. PLogReq j c opr a) rt"
| "client_event ch (PSamplesReq k c a start period n) rt =
     client_single ch c Noop k (\<lambda>j. PSamplesReq j c a start period n) rt"
| "client_event ch p rt = Inl AssertFailed"

text \<open>
  A client that disconnects: the members of the first group of each of its communicators are told, in the
  order of the communicators' numbers.
\<close>

definition client_closed :: "nat \<Rightarrow> router \<Rightarrow> router res" where
  "client_closed ch rt =
     rbind (client_comms ch rt) (\<lambda>cs.
     if \<exists>c\<in>set cs. snd c = [] then Inl MemoryFault
     else rbind (send_all (concat (map (\<lambda>(c, ms). map (\<lambda>x. (x, PDestroy c)) (hd ms)) (sort_key fst cs))) rt) (\<lambda>rt'.
       Inr (rt'\<lparr>rt_clients := (rt_clients rt')(ch := None), rt_open := rt_open rt' - {ch}\<rparr>)))"

subsection \<open>Events of servers and routers\<close>

fun send_pending :: "nat \<Rightarrow> msg option list \<Rightarrow> router \<Rightarrow> router res" where
  "send_pending ch [] rt = Inr rt"
| "send_pending ch (m # ms) rt =
     (case m of None \<Rightarrow> Inl MemoryFault | Some x \<Rightarrow> rbind (chan_send ch x rt) (send_pending ch ms))"

definition doPending :: "32 word \<Rightarrow> router \<Rightarrow> router res" where
  "doPending srv rt =
     (if rt_pending rt srv = [] then Inr rt
      else case findServerChan rt srv of
        None \<Rightarrow> Inl AssertFailed
      | Some ch \<Rightarrow> rbind (send_pending ch (rt_pending rt srv) rt) (\<lambda>rt'.
          Inr (rt'\<lparr>rt_pending := (rt_pending rt')(srv := [])\<rparr>)))"

definition addServer :: "string \<Rightarrow> nat \<Rightarrow> router \<Rightarrow> (32 word \<times> router) res" where
  "addServer name ch rt =
     (let dest = findRoute rt name
      in c_assert (dest \<noteq> 0xffffffff)
        (case rt_servers rt ch of
           None \<Rightarrow> Inl MemoryFault
         | Some _ \<Rightarrow> Inr (SERVER_ID dest,
             rt\<lparr>rt_local := (rt_local rt)(SERVER_ID dest \<mapsto> ch), rt_servers := (rt_servers rt)(ch \<mapsto> name)\<rparr>)))"

fun server_event :: "nat \<Rightarrow> msg \<Rightarrow> router \<Rightarrow> router res" where
  "server_event ch (Routed re p) rt = send_app (snd re) (Routed re p) rt"
| "server_event ch (Plain (PConnect name)) rt = rbind (addServer name ch rt) (\<lambda>(srv, rt'). doPending srv rt')"
| "server_event ch (Plain p) rt = process_payload p rt"

fun router_event_in :: "msg \<Rightarrow> router \<Rightarrow> router res" where
  "router_event_in (Routed re p) rt = send_app (snd re) (Routed re p) rt"
| "router_event_in (Plain p) rt = Inl AssertFailed"

text \<open>A server that disconnects: the entry removed from the local map is always that of server 0.\<close>

definition delServer :: "string \<Rightarrow> router \<Rightarrow> router" where
  "delServer name rt = rt\<lparr>rt_local := (rt_local rt)(0 := None)\<rparr>"

definition server_closed :: "nat \<Rightarrow> router \<Rightarrow> router res" where
  "server_closed ch rt =
     (case rt_servers rt ch of
        None \<Rightarrow> Inr (rt\<lparr>rt_open := rt_open rt - {ch}\<rparr>)
      | Some name \<Rightarrow> Inr ((delServer name rt)\<lparr>rt_servers := (rt_servers rt)(ch := None), rt_open := rt_open rt - {ch}\<rparr>))"

text \<open>New connections.\<close>

definition addClientChan :: "nat \<Rightarrow> router \<Rightarrow> router" where
  "addClientChan ch rt = rt\<lparr>rt_clients := (rt_clients rt)(ch \<mapsto> []), rt_open := insert ch (rt_open rt)\<rparr>"

definition addServerChan :: "nat \<Rightarrow> router \<Rightarrow> router" where
  "addServerChan ch rt = rt\<lparr>rt_servers := (rt_servers rt)(ch \<mapsto> []), rt_open := insert ch (rt_open rt)\<rparr>"

text \<open>Connections of other routers: nothing is kept about them.\<close>

definition addRouterChan :: "nat \<Rightarrow> router \<Rightarrow> router" where
  "addRouterChan ch rt = rt\<lparr>rt_open := insert ch (rt_open rt)\<rparr>"

definition delRouterChan :: "nat \<Rightarrow> router \<Rightarrow> router" where
  "delRouterChan ch rt = rt\<lparr>rt_open := rt_open rt - {ch}\<rparr>"

text \<open>
  The two cores.  A link of the tree is the range of router numbers below it and its sending channel; link 0
  leads upwards.
\<close>

fun tree_pick :: "(32 word \<times> 32 word \<times> nat option) list \<Rightarrow> 32 word \<Rightarrow> nat option option" where
  "tree_pick [] r = None"
| "tree_pick ((lo, hi, ch) # ls) r = (if lo \<le> r \<and> r \<le> hi then Some ch else tree_pick ls r)"

definition treeCore_getChannel :: "(32 word \<times> 32 word \<times> nat option) list \<Rightarrow> 32 word \<Rightarrow> nat option" where
  "treeCore_getChannel ls r =
     (case ls of
        [] \<Rightarrow> None
      | up # down \<Rightarrow> (case tree_pick down r of Some ch \<Rightarrow> ch | None \<Rightarrow> snd (snd up)))"

definition torusCore_getChannel :: "nat option list list \<Rightarrow> 32 word \<Rightarrow> nat option res" where
  "torusCore_getChannel ls r = rbind (arr_get ls 0) (\<lambda>l. arr_get l 0)"

subsection \<open>The answers of a request\<close>

text \<open>The numbers of an answer from one server, and the answers of a group in the order of their arrival.\<close>

definition nums :: "resp_event \<Rightarrow> real list" where
  "nums r = map (\<lambda>c. case c of Dbl x \<Rightarrow> x | _ \<Rightarrow> 0) (hd (ev_value r))"

definition good_resp :: "nat \<Rightarrow> nat \<Rightarrow> resp_event \<Rightarrow> bool" where
  "good_resp k n r \<longleftrightarrow> ev_id r = k \<and>
     (\<exists>cs. ev_value r = [cs] \<and> list_all2 (\<lambda>c x. load_double c = Inr x) cs (nums r)) \<and> length (nums r) = n \<and>
     (\<exists>us. ev_timeStamp r = [us] \<and> length us = n)"

definition group_of :: "nat \<Rightarrow> (nat \<times> resp_event) list \<Rightarrow> resp_event list" where
  "group_of g ys = map snd (filter (\<lambda>y. fst y = g) ys)"

definition row_sum :: "nat \<Rightarrow> resp_event list \<Rightarrow> real list" where
  "row_sum n q = map (\<lambda>i. \<Sum>r\<leftarrow>q. nums r ! i) [0..<n]"

lemma group_of_simps [simp]:
  "group_of g [] = []"
  "group_of g (ys @ zs) = group_of g ys @ group_of g zs"
  "group_of g ((h, r) # ys) = (if h = g then r # group_of g ys else group_of g ys)"
  by (simp_all add: group_of_def)

lemma set_group_of: "r \<in> set (group_of g ys) \<longleftrightarrow> (g, r) \<in> set ys"
  by (auto simp: group_of_def image_iff)

lemma add_row_good:
  "length vs = n \<Longrightarrow> length us = n \<Longrightarrow> length tacc = n \<Longrightarrow> length xs = n \<Longrightarrow>
   list_all2 (\<lambda>c x. load_double c = Inr x) acc xs \<Longrightarrow> list_all2 (\<lambda>c x. load_double c = Inr x) cs vs \<Longrightarrow>
   add_row (replicate n FP_ADD) acc tacc cs us = Inr (map Dbl (map2 (+) xs vs), us)"
proof (induction n arbitrary: vs us tacc xs acc cs)
  case (Suc n)
  from Suc.prems obtain v vs' u us' t tacc' x xs' c acc' d cs'
    where e: "vs = v # vs'" "us = u # us'" "tacc = t # tacc'" "xs = x # xs'" "acc = c # acc'" "cs = d # cs'"
    by (auto simp: length_Suc_conv list_all2_Cons2)
  show ?case using Suc.prems Suc.IH [of vs' us' tacc' xs' acc' cs'] unfolding e
    by (simp add: fpAdd_def)
qed simp

lemma load_double_Dbls: "list_all2 (\<lambda>c x. load_double c = Inr x) (map Dbl xs) xs"
  by (induction xs) simp_all

lemma add_rows_good:
  assumes "\<And>r. r \<in> set q \<Longrightarrow> good_resp k n r" and "q \<noteq> []" and "length tacc = n" and "length xs = n"
    and "list_all2 (\<lambda>c x. load_double c = Inr x) acc xs"
  shows "add_rows (replicate n FP_ADD) acc tacc q =
    Inr (map Dbl (map2 (+) xs (row_sum n q)), hd (ev_timeStamp (last q)))"
  using assms
proof (induction q arbitrary: acc tacc xs)
  case (Cons r q)
  obtain us cs where r: "ev_value r = [cs]" "length (nums r) = n" "ev_timeStamp r = [us]" "length us = n"
      and cs: "list_all2 (\<lambda>c x. load_double c = Inr x) cs (nums r)"
    using Cons.prems(1) [of r] by (auto simp: good_resp_def)
  show ?case
  proof (cases "n = 0")
    case True
    have "\<exists>us. ev_timeStamp (last (r # q)) = [us] \<and> length us = n"
      using Cons.prems(1) [of "last (r # q)"] unfolding good_resp_def by (metis last_in_set list.distinct(1))
    then show ?thesis using True Cons.prems by (auto simp: row_sum_def)
  next
    case False
    let ?ys = "map2 (+) xs (nums r)"
    have step: "add_rows (replicate n FP_ADD) acc tacc (r # q) = add_rows (replicate n FP_ADD) (map Dbl ?ys) us q"
      using False r add_row_good [OF r(2,4) Cons.prems(3,4,5) cs] by (simp add: arr_get_def)
    show ?thesis
    proof (cases "q = []")
      case True
      have "row_sum n [r] = nums r" unfolding row_sum_def using r(2) by (auto intro!: nth_equalityI)
      then show ?thesis using True step r by simp
    next
      case False
      have len: "length ?ys = n" using r(2) Cons.prems(4) by simp
      have "map2 (+) ?ys (row_sum n q) = map2 (+) xs (row_sum n (r # q))"
        using r(2) Cons.prems(4) by (auto simp: row_sum_def intro!: nth_equalityI)
      then show ?thesis
        using Cons.IH [OF _ False r(4) len load_double_Dbls] Cons.prems(1) step False by simp
    qed
  qed
qed simp

lemma join_values_good:
  assumes "\<And>r. r \<in> set q \<Longrightarrow> good_resp k n r" and "q \<noteq> []"
    and "g < length (ev_value resp)" and "g < length (ev_timeStamp resp)"
  shows "join_values Get (replicate n FP_ADD) g q resp =
    Inr (resp\<lparr>ev_value := (ev_value resp)[g := map Dbl (row_sum n q)],
              ev_timeStamp := (ev_timeStamp resp)[g := hd (ev_timeStamp (last q))]\<rparr>)"
proof -
  have z: "list_all2 (\<lambda>c x. load_double c = Inr x) (replicate n (U64 0)) (replicate n (0::real))"
    by (simp add: list_all2_conv_all_nth load_double_def)
  have "map2 (+) (replicate n (0::real)) (row_sum n q) = row_sum n q"
    by (auto simp: row_sum_def intro!: nth_equalityI)
  then show ?thesis
    using add_rows_good [OF assms(1,2) _ _ z, of "replicate n 0"] assms(3,4) by (simp add: join_values_def arr_set_ok)
qed

text \<open>
  What the answer under construction holds when the answers \<open>ys\<close> have arrived and the groups \<open>gs\<close> have become
  complete, in this order.
\<close>

definition joined_resp :: "nat \<Rightarrow> nat \<Rightarrow> nat \<Rightarrow> (nat \<times> resp_event) list \<Rightarrow> nat list \<Rightarrow> resp_event \<Rightarrow> bool" where
  "joined_resp k n l ys gs resp \<longleftrightarrow>
     ev_id resp = k \<and> length (ev_value resp) = l \<and> length (ev_timeStamp resp) = l \<and>
     (\<forall>g\<in>set gs. ev_value resp ! g = map Dbl (row_sum n (group_of g ys)) \<and>
        ev_timeStamp resp ! g = hd (ev_timeStamp (last (group_of g ys)))) \<and>
     ev_errValue resp = concat (map (\<lambda>g. concat (map ev_errValue (group_of g ys))) gs) \<and>
     ev_errAttr resp = concat (map (\<lambda>g. concat (map ev_errAttr (group_of g ys))) gs) \<and>
     ev_errObj resp = concat (map (\<lambda>g. concat (map ev_errObj (group_of g ys))) gs)"

definition joined ::
  "nat \<Rightarrow> nat \<Rightarrow> nat \<Rightarrow> nat \<Rightarrow> nat list \<Rightarrow> (nat \<times> resp_event) list \<Rightarrow> nat list \<Rightarrow> comm_req_info \<Rightarrow> bool" where
  "joined src k0 k n ms ys gs i \<longleftrightarrow>
     ri_src i = src \<and> ri_op i = Get \<and> ri_grpInfo i = ms \<and> ri_valueOp i = replicate n FP_ADD \<and>
     ri_respQ i = map (\<lambda>g. group_of g ys) [0..<length ms] \<and>
     distinct gs \<and> set gs = {g. g < length ms \<and> length (group_of g ys) = ms ! g} \<and>
     ri_pending i + length gs = length ms \<and> joined_resp k0 n (length ms) ys gs (ri_resp i)"

lemma group_of_snoc:
  "group_of h (ys @ [(g, r)]) = (if h = g then group_of g ys @ [r] else group_of h ys)"
  by simp

lemma joined_resp_mono:
  assumes "joined_resp k n l ys gs resp" and "g \<notin> set gs"
  shows "joined_resp k n l (ys @ [(g, r)]) gs resp"
proof -
  have "group_of h (ys @ [(g, r)]) = group_of h ys" if "h \<in> set gs" for h
    using that assms(2) by (auto simp: group_of_snoc)
  then show ?thesis
    using assms(1) by (simp add: joined_resp_def del: group_of_simps cong: map_cong)
qed

lemma joined_resp_add:
  assumes "joined_resp k n l ys gs resp" and "q = group_of g ys" and "g < l" and "g \<notin> set gs"
    and "resp' = join_errors q (resp\<lparr>ev_value := (ev_value resp)[g := map Dbl (row_sum n q)],
              ev_timeStamp := (ev_timeStamp resp)[g := hd (ev_timeStamp (last q))]\<rparr>)"
  shows "joined_resp k n l ys (gs @ [g]) resp'"
  using assms by (auto simp: joined_resp_def join_errors_def nth_list_update)

lemma joined_group:
  "joined src k0 k n ms ys gs i \<Longrightarrow> g < length ms \<Longrightarrow>
   arr_get (ri_respQ i) g = Inr (group_of g ys) \<and> arr_get (ri_grpInfo i) g = Inr (ms ! g)"
  by (simp add: joined_def arr_get_def)

lemma joined_queues:
  "g < l \<Longrightarrow> (map (\<lambda>h. group_of h ys) [0..<l])[g := group_of g ys @ [r]] =
     map (\<lambda>h. group_of h (ys @ [(g, r)])) [0..<l]"
  by (rule nth_equalityI) (auto simp: nth_list_update)

lemma joined_ready:
  assumes "g < length ms" and "length (group_of g ys) < ms ! g"
    and "set gs = {h. h < length ms \<and> length (group_of h ys) = ms ! h}"
  shows "g \<notin> set gs \<and>
    (Suc (length (group_of g ys)) = ms ! g \<longrightarrow>
       set (gs @ [g]) = {h. h < length ms \<and> length (group_of h (ys @ [(g, r)])) = ms ! h}) \<and>
    (Suc (length (group_of g ys)) \<noteq> ms ! g \<longrightarrow>
       set gs = {h. h < length ms \<and> length (group_of h (ys @ [(g, r)])) = ms ! h})"
proof (intro conjI impI)
  show "g \<notin> set gs" using assms by simp
next
  assume "Suc (length (group_of g ys)) = ms ! g"
  then show "set (gs @ [g]) = {h. h < length ms \<and> length (group_of h (ys @ [(g, r)])) = ms ! h}"
    using assms(1) unfolding group_of_snoc set_append assms(3) by (auto split: if_splits)
next
  assume "Suc (length (group_of g ys)) \<noteq> ms ! g"
  then show "set gs = {h. h < length ms \<and> length (group_of h (ys @ [(g, r)])) = ms ! h}"
    using assms(2) unfolding group_of_snoc assms(3) by (auto split: if_splits)
qed

text \<open>One answer arrives, in its three cases: its group stays incomplete, another group does, none does.\<close>

lemma comm_resp_step:
  assumes j: "joined src k0 k n ms ys gs i" and i: "rt_infos rt k = Some i" and src: "src \<in> rt_open rt"
    and g: "g < length ms" "length (group_of g ys) < ms ! g"
    and good: "\<And>r'. r' \<in> set (group_of g ys) \<Longrightarrow> good_resp k n r'" "good_resp k n r"
  shows "(Suc (length (group_of g ys)) \<noteq> ms ! g \<longrightarrow>
      (\<exists>i'. comm_resp g r rt = Inr (rt\<lparr>rt_infos := (rt_infos rt)(k \<mapsto> i')\<rparr>) \<and> joined src k0 k n ms (ys @ [(g, r)]) gs i')) \<and>
    (Suc (length (group_of g ys)) = ms ! g \<and> ri_pending i \<noteq> 1 \<longrightarrow>
      (\<exists>i'. comm_resp g r rt = Inr (rt\<lparr>rt_infos := (rt_infos rt)(k \<mapsto> i')\<rparr>) \<and>
        joined src k0 k n ms (ys @ [(g, r)]) (gs @ [g]) i')) \<and>
    (Suc (length (group_of g ys)) = ms ! g \<and> ri_pending i = 1 \<longrightarrow>
      (\<exists>resp. comm_resp g r rt =
          Inr (rt\<lparr>rt_out := rt_out rt @ [(src, Plain (PResp 0 resp))], rt_infos := (rt_infos rt)(k := None)\<rparr>) \<and>
        joined_resp k0 n (length ms) (ys @ [(g, r)]) (gs @ [g]) resp \<and>
        set (gs @ [g]) = {0..<length ms} \<and> distinct (gs @ [g])))"
proof -
  let ?q = "group_of g ys @ [r]" and ?ys = "ys @ [(g, r)]"
  let ?i1 = "i\<lparr>ri_respQ := (ri_respQ i)[g := ?q]\<rparr>"
  have k: "ev_id r = k" using good(2) by (simp add: good_resp_def)
  have gs: "set gs = {h. h < length ms \<and> length (group_of h ys) = ms ! h}" "distinct gs"
    and pend: "ri_pending i + length gs = length ms"
    and op: "ri_op i = Get" "ri_valueOp i = replicate n FP_ADD" "ri_src i = src"
    and resp: "joined_resp k0 n (length ms) ys gs (ri_resp i)"
    using j by (auto simp: joined_def)
  note R = joined_ready [OF g gs(1), of r]
  have mono: "joined_resp k0 n (length ms) ?ys gs (ri_resp i)" using joined_resp_mono [OF resp] R by blast
  have q: "ri_respQ ?i1 = map (\<lambda>h. group_of h ?ys) [0..<length ms]"
    using j joined_queues [OF g(1)] by (simp add: joined_def)
  have len: "length (ev_value (ri_resp i)) = length ms" "length (ev_timeStamp (ri_resp i)) = length ms"
    using resp by (auto simp: joined_resp_def)
  have allgood: "\<And>r'. r' \<in> set ?q \<Longrightarrow> good_resp k n r'" using good by auto
  obtain resp' where J: "join_values Get (replicate n FP_ADD) g ?q (ri_resp i) = Inr resp'"
    and resp'': "joined_resp k0 n (length ms) ?ys (gs @ [g]) (join_errors ?q resp')"
    using join_values_good [where q = ?q and g = g and resp = "ri_resp i", OF allgood] len g(1) R
      joined_resp_add [OF joined_resp_mono [OF resp, of g r], where g = g and q = ?q] by auto
  have cr: "comm_resp g r rt =
      (if length ?q \<noteq> ms ! g then Inr (rt\<lparr>rt_infos := (rt_infos rt)(k \<mapsto> ?i1)\<rparr>)
       else if ri_pending i = 1 then
         Inr (rt\<lparr>rt_out := rt_out rt @ [(src, Plain (PResp 0 (join_errors ?q resp')))], rt_infos := (rt_infos rt)(k := None)\<rparr>)
       else Inr (rt\<lparr>rt_infos := (rt_infos rt)(k \<mapsto> ?i1\<lparr>ri_resp := join_errors ?q resp', ri_pending := ri_pending i - 1\<rparr>)\<rparr>))"
    using joined_group [OF j g(1)] i k J op src by (simp add: comm_resp_def Let_def chan_send_def)
  show ?thesis
  proof (intro conjI impI)
    assume a: "Suc (length (group_of g ys)) \<noteq> ms ! g"
    have "joined src k0 k n ms ?ys gs ?i1"
      using j q R a mono unfolding joined_def by (simp del: group_of_simps)
    then show "\<exists>i'. comm_resp g r rt = Inr (rt\<lparr>rt_infos := (rt_infos rt)(k \<mapsto> i')\<rparr>) \<and> joined src k0 k n ms ?ys gs i'"
      using cr a by auto
  next
    assume a: "Suc (length (group_of g ys)) = ms ! g \<and> ri_pending i \<noteq> 1"
    have "card (set gs) \<noteq> length ms" using R gs g(1)
      by (metis (no_types, lifting) card_subset_eq card_lessThan finite_lessThan lessThan_iff mem_Collect_eq subsetI)
    then have p: "ri_pending i \<noteq> 0" using pend gs(2) by (metis add_0 distinct_card)
    have "joined src k0 k n ms ?ys (gs @ [g]) (?i1\<lparr>ri_resp := join_errors ?q resp', ri_pending := ri_pending i - 1\<rparr>)"
      using j q R a p resp'' g(1) unfolding joined_def by (simp del: group_of_simps)
    then show "\<exists>i'. comm_resp g r rt = Inr (rt\<lparr>rt_infos := (rt_infos rt)(k \<mapsto> i')\<rparr>) \<and> joined src k0 k n ms ?ys (gs @ [g]) i'"
      using cr a by auto
  next
    assume a: "Suc (length (group_of g ys)) = ms ! g \<and> ri_pending i = 1"
    have d: "distinct (gs @ [g])" using gs(2) R by simp
    have "card (set (gs @ [g])) = length ms" using a pend distinct_card [OF d] by simp
    moreover have "set (gs @ [g]) \<subseteq> {0..<length ms}" unfolding set_append gs(1) using g(1) by auto
    ultimately have "set (gs @ [g]) = {0..<length ms}" by (metis card_atLeastLessThan card_subset_eq diff_zero finite_atLeastLessThan)
    then show "\<exists>resp. comm_resp g r rt =
          Inr (rt\<lparr>rt_out := rt_out rt @ [(src, Plain (PResp 0 resp))], rt_infos := (rt_infos rt)(k := None)\<rparr>) \<and>
        joined_resp k0 n (length ms) ?ys (gs @ [g]) resp \<and> set (gs @ [g]) = {0..<length ms} \<and> distinct (gs @ [g])"
      using cr a d resp'' by auto
  qed
qed

text \<open>
  All answers to one request, one after the other.  \<open>feed\<close> is their processing; nothing is sent before the
  last one.
\<close>

fun feed :: "(nat \<times> resp_event) list \<Rightarrow> router \<Rightarrow> router res" where
  "feed [] rt = Inr rt"
| "feed ((g, r) # ys) rt = rbind (comm_resp g r rt) (feed ys)"

lemma feed_joined:
  assumes "joined src k0 k n ms ys gs i" and "rt_infos rt k = Some i" and "src \<in> rt_open rt" and "zs \<noteq> []"
    and "\<And>g. g < length ms \<Longrightarrow> length (group_of g (ys @ zs)) = ms ! g"
    and "\<And>g r. (g, r) \<in> set (ys @ zs) \<Longrightarrow> g < length ms \<and> good_resp k n r"
  shows "(\<exists>gs' resp. feed zs rt =
        Inr (rt\<lparr>rt_out := rt_out rt @ [(src, Plain (PResp 0 resp))], rt_infos := (rt_infos rt)(k := None)\<rparr>) \<and>
      joined_resp k0 n (length ms) (ys @ zs) gs' resp \<and> distinct gs' \<and> set gs' = {0..<length ms}) \<and>
    (\<forall>j<length zs. \<exists>rt'. feed (take j zs) rt = Inr rt' \<and> rt_out rt' = rt_out rt)"
  using assms
proof (induction zs arbitrary: ys gs i rt)
  case (Cons y zs)
  obtain g r where y: "y = (g, r)" by (cases y)
  have g: "g < length ms" and r: "good_resp k n r" using Cons.prems(6) [of g r] y by auto
  have l: "length (group_of g ys) < ms ! g" using Cons.prems(5) [OF g] y by simp
  have good: "\<And>r'. r' \<in> set (group_of g ys) \<Longrightarrow> good_resp k n r'"
    using Cons.prems(6) by (metis Un_iff set_append set_group_of)
  note S = comm_resp_step [OF Cons.prems(1,2,3) g l good r]
  have app: "(ys @ [(g, r)]) @ zs = ys @ (y # zs)" by (simp add: y)
  show ?case
  proof (cases "Suc (length (group_of g ys)) = ms ! g \<and> ri_pending i = 1")
    case True
    then obtain resp where c: "comm_resp g r rt =
          Inr (rt\<lparr>rt_out := rt_out rt @ [(src, Plain (PResp 0 resp))], rt_infos := (rt_infos rt)(k := None)\<rparr>)"
      and jr: "joined_resp k0 n (length ms) (ys @ [(g, r)]) (gs @ [g]) resp"
      and all: "set (gs @ [g]) = {0..<length ms}" "distinct (gs @ [g])"
      using mp [OF conjunct2 [OF conjunct2 [OF S]] True] by blast
    have "zs = []"
    proof (rule ccontr)
      assume "zs \<noteq> []"
      then obtain h s zs' where z: "zs = (h, s) # zs'" by (metis neq_Nil_conv surj_pair)
      have h: "h < length ms" using Cons.prems(6) [of h s] z y by auto
      then have "h \<in> set (gs @ [g])" using all(1) by simp
      moreover have "set gs = {h. h < length ms \<and> length (group_of h ys) = ms ! h}"
        using Cons.prems(1) by (simp add: joined_def)
      ultimately have "length (group_of h (ys @ [(g, r)])) = ms ! h"
        using True Cons.prems(5) [OF h] y by auto
      moreover have "length (group_of h (ys @ y # zs)) = length (group_of h (ys @ [(g, r)])) + length (group_of h zs)"
        by (simp add: y)
      ultimately show False using Cons.prems(5) [OF h] z by simp
    qed
    have "feed (y # zs) rt =
        Inr (rt\<lparr>rt_out := rt_out rt @ [(src, Plain (PResp 0 resp))], rt_infos := (rt_infos rt)(k := None)\<rparr>)"
      using c \<open>zs = []\<close> by (simp add: y)
    moreover have "joined_resp k0 n (length ms) (ys @ y # zs) (gs @ [g]) resp" using jr \<open>zs = []\<close> by (simp add: y)
    moreover have "\<exists>rt'. feed (take m (y # zs)) rt = Inr rt' \<and> rt_out rt' = rt_out rt" if "m < length (y # zs)" for m
      using that \<open>zs = []\<close> by simp
    ultimately show ?thesis using all by blast
  next
    case False
    then obtain i' gs' where c: "comm_resp g r rt = Inr (rt\<lparr>rt_infos := (rt_infos rt)(k \<mapsto> i')\<rparr>)"
      and j: "joined src k0 k n ms (ys @ [(g, r)]) gs' i'"
      using conjunct1 [OF S] conjunct1 [OF conjunct2 [OF S]] by (cases "Suc (length (group_of g ys)) = ms ! g") blast+
    have "zs \<noteq> []"
    proof
      assume z: "zs = []"
      have full: "\<And>h. h < length ms \<Longrightarrow> length (group_of h (ys @ [(g, r)])) = ms ! h"
        using Cons.prems(5) y z by simp
      have gs': "set gs' = {h. h < length ms \<and> length (group_of h (ys @ [(g, r)])) = ms ! h}"
        using j by (simp add: joined_def del: group_of_simps)
      have "set gs' = {0..<length ms}" unfolding gs'
        by (rule set_eqI) (use full in \<open>simp del: group_of_simps, blast\<close>)
      moreover have "distinct gs'" using j by (simp add: joined_def)
      ultimately have "length gs' = length ms" by (metis card_atLeastLessThan diff_zero distinct_card)
      have sg: "Suc (length (group_of g ys)) = ms ! g" using full [OF g] by simp
      have gs: "set gs = {h. h < length ms \<and> length (group_of h ys) = ms ! h}" "distinct gs"
        and pend: "ri_pending i + length gs = length ms" using Cons.prems(1) by (auto simp: joined_def)
      have other: "length (group_of h ys) = ms ! h" if "h < length ms" "h \<noteq> g" for h
        using full [OF that(1)] that(2) by simp
      have "set gs = {0..<length ms} - {g}" unfolding gs(1)
      proof (rule set_eqI)
        fix h
        show "h \<in> {h. h < length ms \<and> length (group_of h ys) = ms ! h} \<longleftrightarrow> h \<in> {0..<length ms} - {g}"
          using other [of h] l by (cases "h = g") auto
      qed
      then have "length gs = length ms - 1" using gs(2) g
        by (metis atLeastLessThan_iff card_Diff_singleton card_atLeastLessThan diff_zero distinct_card le0)
      then have "ri_pending i = 1" using pend g by simp
      then show False using False sg by simp
    qed
    let ?rt' = "rt\<lparr>rt_infos := (rt_infos rt)(k \<mapsto> i')\<rparr>"
    have IH: "(\<exists>gs' resp. feed zs ?rt' =
        Inr (?rt'\<lparr>rt_out := rt_out ?rt' @ [(src, Plain (PResp 0 resp))], rt_infos := (rt_infos ?rt')(k := None)\<rparr>) \<and>
      joined_resp k0 n (length ms) ((ys @ [(g, r)]) @ zs) gs' resp \<and> distinct gs' \<and> set gs' = {0..<length ms}) \<and>
      (\<forall>j<length zs. \<exists>rt''. feed (take j zs) ?rt' = Inr rt'' \<and> rt_out rt'' = rt_out ?rt')"
    proof (rule Cons.IH [OF j])
      show "length (group_of h ((ys @ [(g, r)]) @ zs)) = ms ! h" if "h < length ms" for h
        using Cons.prems(5) [OF that] app by simp
      show "h < length ms \<and> good_resp k n s" if "(h, s) \<in> set ((ys @ [(g, r)]) @ zs)" for h s
        using Cons.prems(6) [of h s] that app by metis
    qed (use \<open>zs \<noteq> []\<close> Cons.prems(3) in simp_all)
    show ?thesis
    proof (intro conjI allI impI)
      show "\<exists>gs' resp. feed (y # zs) rt =
          Inr (rt\<lparr>rt_out := rt_out rt @ [(src, Plain (PResp 0 resp))], rt_infos := (rt_infos rt)(k := None)\<rparr>) \<and>
          joined_resp k0 n (length ms) (ys @ y # zs) gs' resp \<and> distinct gs' \<and> set gs' = {0..<length ms}"
        using IH unfolding app by (simp add: y c del: group_of_simps)
    next
      fix m assume "m < length (y # zs)"
      then show "\<exists>rt'. feed (take m (y # zs)) rt = Inr rt' \<and> rt_out rt' = rt_out rt"
        using IH by (cases m) (simp_all add: y c)
    qed
  qed
qed simp

subsection \<open>A request of a client is answered once\<close>

text \<open>What sending requests to servers leaves as it was.\<close>

lemma chan_send_keeps:
  "chan_send ch m rt = Inr rt' \<Longrightarrow> rt_infos rt' = rt_infos rt \<and> rt_open rt' = rt_open rt \<and> rt_id rt' = rt_id rt \<and>
     rt_next rt' = rt_next rt \<and> rt_table rt' = rt_table rt \<and> rt_clients rt' = rt_clients rt"
  by (auto simp: chan_send_def split: if_splits)

lemma send_obj_keeps:
  assumes "send_obj name p rt = Inr rt'"
  shows "rt_infos rt' = rt_infos rt \<and> rt_open rt' = rt_open rt \<and> rt_id rt' = rt_id rt \<and>
     rt_next rt' = rt_next rt \<and> rt_table rt' = rt_table rt \<and> rt_clients rt' = rt_clients rt"
  using assms
  by (auto simp: send_obj_def Let_def push_pending_def res_simps split: if_splits option.splits dest: chan_send_keeps)

lemma send_all_keeps:
  "send_all xs rt = Inr rt' \<Longrightarrow> rt_infos rt' = rt_infos rt \<and> rt_open rt' = rt_open rt \<and> rt_id rt' = rt_id rt \<and>
     rt_next rt' = rt_next rt \<and> rt_table rt' = rt_table rt \<and> rt_clients rt' = rt_clients rt"
proof (induction xs arbitrary: rt)
  case (Cons x xs)
  obtain name p where x: "x = (name, p)" by (cases x)
  from Cons.prems obtain rt1 where "send_obj name p rt = Inr rt1" "send_all xs rt1 = Inr rt'"
    by (auto simp: x res_simps)
  with send_obj_keeps Cons.IH show ?case by metis
qed simp

lemma joined_start:
  assumes "\<And>m. m \<in> set ms \<Longrightarrow> m \<noteq> []" and "ms \<noteq> []"
  shows "joined ch k0 k n (map length ms) [] [] (new_info ch Get (replicate n FP_ADD) k0 ms)"
proof -
  have "map (\<lambda>g. group_of g []) [0..<length ms] = replicate (length ms) []"
    by (rule nth_equalityI) simp_all
  moreover have "{g. g < length ms \<and> length (group_of g []) = map length ms ! g} = {}"
    using assms(1) by (auto simp: set_conv_nth)
  ultimately show ?thesis by (simp add: joined_def joined_resp_def new_info_def new_resp_def)
qed

text \<open>An answer comes as an event addressed to the router, from a server or from another router.\<close>

definition answer :: "32 word \<Rightarrow> 64 word \<Rightarrow> nat \<times> resp_event \<Rightarrow> msg" where
  "answer me src y = Routed (src, APP_ID me (-1)) (PResp (fst y) (snd y))"

lemma server_event_answer:
  "server_event ch (answer (rt_id rt) src y) rt = comm_resp (fst y) (snd y) rt"
  "router_event_in (answer (rt_id rt) src y) rt = comm_resp (fst y) (snd y) rt"
  by (simp_all add: answer_def dest_chan_def)

lemma request_answered:
  assumes "rt_clients rt ch = Some cs" and "map_of cs (rq_commID rq) = Some ms" and "ch \<in> rt_open rt"
    and "rq_op rq = Get" and "rq_valueOp rq = replicate n FP_ADD"
    and "ms \<noteq> []" and "\<And>m. m \<in> set ms \<Longrightarrow> m \<noteq> []"
    and "client_req ch rq rt = Inr rt1"
    and "\<And>g. g < length ms \<Longrightarrow> length (group_of g ys) = length (ms ! g)"
    and "\<And>g r. (g, r) \<in> set ys \<Longrightarrow> g < length ms \<and> good_resp (rt_next rt) n r"
  shows "(\<exists>gs resp. feed ys rt1 =
        Inr (rt1\<lparr>rt_out := rt_out rt1 @ [(ch, Plain (PResp 0 resp))], rt_infos := (rt_infos rt)(rt_next rt := None)\<rparr>) \<and>
      ev_id resp = rq_id rq \<and>
      ev_value resp = map (\<lambda>g. map Dbl (row_sum n (group_of g ys))) [0..<length ms] \<and>
      ev_timeStamp resp = map (\<lambda>g. hd (ev_timeStamp (last (group_of g ys)))) [0..<length ms] \<and>
      distinct gs \<and> set gs = {0..<length ms} \<and>
      ev_errObj resp = concat (map (\<lambda>g. concat (map ev_errObj (group_of g ys))) gs) \<and>
      ev_errAttr resp = concat (map (\<lambda>g. concat (map ev_errAttr (group_of g ys))) gs) \<and>
      ev_errValue resp = concat (map (\<lambda>g. concat (map ev_errValue (group_of g ys))) gs)) \<and>
    (\<forall>j<length ys. \<exists>rt2. feed (take j ys) rt1 = Inr rt2 \<and> rt_out rt2 = rt_out rt1)"
proof -
  let ?k = "rt_next rt" and ?i = "new_info ch Get (replicate n FP_ADD) (rq_id rq) ms"
  let ?rt0 = "rt\<lparr>rt_infos := (rt_infos rt)(?k \<mapsto> ?i), rt_next := Suc ?k\<rparr>"
  obtain xs where s: "send_all xs ?rt0 = Inr rt1"
    using assms(1,2,4,5,8) by (auto simp: client_req_def comm_list_def client_comms_def add_info_def)
  have k: "rt_infos rt1 = (rt_infos rt)(?k \<mapsto> ?i)" "rt_open rt1 = rt_open rt" using send_all_keeps [OF s] by auto
  have j: "joined ch (rq_id rq) ?k n (map length ms) [] [] ?i" by (rule joined_start) (use assms(6,7) in auto)
  have "ys \<noteq> []" using assms(6,7) assms(9) [of 0] by (cases ms) auto
  have F: "(\<exists>gs resp. feed ys rt1 =
        Inr (rt1\<lparr>rt_out := rt_out rt1 @ [(ch, Plain (PResp 0 resp))], rt_infos := (rt_infos rt1)(?k := None)\<rparr>) \<and>
      joined_resp (rq_id rq) n (length (map length ms)) ([] @ ys) gs resp \<and> distinct gs \<and>
      set gs = {0..<length (map length ms)}) \<and>
    (\<forall>j<length ys. \<exists>rt2. feed (take j ys) rt1 = Inr rt2 \<and> rt_out rt2 = rt_out rt1)"
    by (rule feed_joined [OF j]) (use k assms(3,9,10) \<open>ys \<noteq> []\<close> in simp_all)
  then obtain gs resp where f: "feed ys rt1 =
        Inr (rt1\<lparr>rt_out := rt_out rt1 @ [(ch, Plain (PResp 0 resp))], rt_infos := (rt_infos rt)(?k := None)\<rparr>)"
    and r: "joined_resp (rq_id rq) n (length ms) ys gs resp" and gs: "distinct gs" "set gs = {0..<length ms}"
    by (auto simp: k(1))
  have "ev_value resp = map (\<lambda>g. map Dbl (row_sum n (group_of g ys))) [0..<length ms]"
    "ev_timeStamp resp = map (\<lambda>g. hd (ev_timeStamp (last (group_of g ys)))) [0..<length ms]"
    using r gs(2) by (auto simp: joined_resp_def intro!: nth_equalityI)
  then show ?thesis using f r gs F unfolding joined_resp_def by blast
qed

text \<open>
  C2.  A client's read request for groups of objects is answered exactly once, when the last server has
  answered, whatever the order in which the answers of all the groups arrive, and nothing is sent to the client
  before.  The answer carries the client's own number; its row for a group is, attribute by attribute, the sum
  over the objects of the group, its time stamps are those of the group's last answer, and its errors are those of all
  answers, group by group as they became complete.
\<close>

theorem router_answers_once:
  assumes "rt_clients rt ch = Some cs" and "map_of cs (rq_commID rq) = Some ms" and "ch \<in> rt_open rt"
    and "rq_op rq = Get" and "rq_valueOp rq = replicate n FP_ADD"
    and "ms \<noteq> []" and "\<And>m. m \<in> set ms \<Longrightarrow> m \<noteq> []"
    and "client_req ch rq rt = Inr rt1"
    and "\<And>g. g < length ms \<Longrightarrow> length (group_of g ys) = length (ms ! g)"
    and "\<And>g r. (g, r) \<in> set ys \<Longrightarrow> g < length ms \<and> good_resp (rt_next rt) n r"
  shows "(\<exists>gs resp. feed ys rt1 =
        Inr (rt1\<lparr>rt_out := rt_out rt1 @ [(ch, Plain (PResp 0 resp))], rt_infos := (rt_infos rt)(rt_next rt := None)\<rparr>) \<and>
      ev_id resp = rq_id rq \<and>
      ev_value resp = map (\<lambda>g. map Dbl (row_sum n (group_of g ys))) [0..<length ms] \<and>
      ev_timeStamp resp = map (\<lambda>g. hd (ev_timeStamp (last (group_of g ys)))) [0..<length ms] \<and>
      distinct gs \<and> set gs = {0..<length ms} \<and>
      ev_errObj resp = concat (map (\<lambda>g. concat (map ev_errObj (group_of g ys))) gs) \<and>
      ev_errAttr resp = concat (map (\<lambda>g. concat (map ev_errAttr (group_of g ys))) gs) \<and>
      ev_errValue resp = concat (map (\<lambda>g. concat (map ev_errValue (group_of g ys))) gs)) \<and>
    (\<forall>j<length ys. \<exists>rt2. feed (take j ys) rt1 = Inr rt2 \<and> rt_out rt2 = rt_out rt1)"
  by (rule request_answered [OF assms])

subsection \<open>Client, router and servers together\<close>

lemma nums_single: "load_double v = Inr x \<Longrightarrow> ev_value r = [[v]] \<Longrightarrow> nums r = [x]"
  by (cases v) (auto simp: nums_def load_double_def as_double_def split: if_splits)

definition value_resp :: "nat \<Rightarrow> cell \<Rightarrow> pwr_time \<Rightarrow> resp_event" where
  "value_resp k v t = new_resp k\<lparr>ev_value := [[v]], ev_timeStamp := [[t]]\<rparr>"

lemma good_value_resp: "load_double v = Inr x \<Longrightarrow> good_resp k 1 (value_resp k v t)"
  using nums_single [of v x "value_resp k v t"] by (simp add: good_resp_def value_resp_def new_resp_def)

lemma group_of_map: "group_of 0 (map (\<lambda>x. (0, f x)) zs) = map f zs"
  by (induction zs) simp_all

text \<open>The client's blocking read, given the joined answer.\<close>

lemma client_reads_answer:
  assumes "comm (attrInfo ob a) = Some c" and "devices (attrInfo ob a) = []"
    and "channel n" and "inbox n = r # evs" and "ev_id r = next_id n"
    and "ev_value r = [[v]]" and "ev_timeStamp r = [[t]]" and "ev_errValue r = []"
  shows "\<exists>n'. dist_attrGetValue look ob a (s, n) w u = Inr ((RET_SUCCESS, [v], [t]), (s, n'))"
proof -
  have g: "attrGetValues ob 0 [a] s [w] [u] [] = Inr ((RET_SUCCESS, [U64 0], [0], []), s)"
    using assms(1,2) by (simp add: attrGetValues_def arr_set_def isValid_def attrGetValuesDevice_def)
  have q: "req_getValue look [0] r [U64 0] [0] [] = Inr ([v], [t], [])"
    using assms(6,7,8) by (simp add: req_getValue_def arr_set_def)
  show ?thesis
    using assms(1,3,4,5)
    by (simp add: dist_attrGetValue_def dist_attrGetValues_def g same_comm_def new_req_def getChannel_def wait_for_def
        send_def Let_def q RET_STATUS_def RET_SUCCESS_def)
qed


subsection \<open>Routes that do not exist\<close>

lemma minus_one_ids: "RTR_ID (-1) = -1" "SERVER_ID (-1) = -1"
  unfolding RTR_ID_def SERVER_ID_def low_mask by (rule bit_word_eqI; auto simp: bit_simps)+

lemma APP_ID_low: "APP_ID r v = 0xffffffff \<longleftrightarrow> r = 0 \<and> v = -1"
proof -
  have "APP_ID 0 (-1) = 0xffffffff"
    unfolding low_mask APP_ID_def by (rule bit_word_eqI) (auto simp: bit_simps)
  then show ?thesis by (metis RTR_ID_APP_ID SERVER_ID_APP_ID)
qed

text \<open>
  An event for an object without a route is meant to be dropped, and never is: the comparison with \<open>-1\<close> is
  made at 32 bits.  It is sent towards router number \<open>-1\<close>, or stops the router by an assertion when it has
  no link upwards, so that a client which names an unknown object stops the root router.  What is
  dropped are the events for router 0 itself.
\<close>

theorem unroutable_not_dropped:
  assumes "rt_table rt name = None" and "rt_id rt \<noteq> -1" and "rt_table rt self = Some (APP_ID 0 (-1))"
  shows "send_obj name p rt =
      rbind (rt_core rt (-1)) (\<lambda>c. case c of
         None \<Rightarrow> Inl AssertFailed
       | Some up \<Rightarrow> chan_send up (Routed (APP_ID (rt_id rt) (-1), -1) p) rt) \<and>
    (rt_core rt = Inr \<circ> treeCore_getChannel ((lo, hi, None) # down) \<and> tree_pick down (-1) = None \<and>
       rt_clients rt ch = Some cs \<and> map_of cs c = None \<longrightarrow>
       client_event ch (PCreate c [[name]]) rt = Inl AssertFailed) \<and>
    send_obj self p rt = Inr rt"
proof -
  have n: "(-1 :: 64 word) \<noteq> 0xffffffff" by simp
  have e: "send_obj name p rt =
      rbind (rt_core rt (-1)) (\<lambda>c. case c of
        None \<Rightarrow> Inl AssertFailed | Some up \<Rightarrow> chan_send up (Routed (APP_ID (rt_id rt) (-1), -1) p) rt)"
    if "rt_table rt name = None" "rt_id rt \<noteq> -1" for rt p
    using that n by (simp add: send_obj_def findRoute_def minus_one_ids dest_chan_def rbind_def split: option.split sum.split)
  have "client_event ch (PCreate c [[name]]) rt = Inl AssertFailed"
    if "rt_core rt = Inr \<circ> treeCore_getChannel ((lo, hi, None) # down)" "tree_pick down (-1) = None"
      "rt_clients rt ch = Some cs" "map_of cs c = None"
    using that assms(1,2) by (simp add: client_create_def client_comms_def e treeCore_getChannel_def)
  moreover have "send_obj self p rt = Inr rt"
    using assms(3) APP_ID_low [of 0 "-1"] by (simp add: send_obj_def findRoute_def)
  ultimately show ?thesis using e [OF assms(1,2)] by blast
qed

subsection \<open>Servers that come and go\<close>

lemma send_obj_local:
  assumes "rt_table rt x = Some (APP_ID (rt_id rt) srv)" and "srv \<noteq> -1"
  shows "send_obj x p rt =
    (let m = Routed (APP_ID (rt_id rt) (-1), APP_ID (rt_id rt) srv) p in
     case rt_local rt srv of None \<Rightarrow> Inr (push_pending srv (Some m) rt) | Some ch \<Rightarrow> chan_send ch m rt)"
  using assms by (simp add: send_obj_def findRoute_def APP_ID_low dest_chan_def findServerChan_def Let_def split: option.split)

lemma send_all_pending:
  assumes "rt_table rt x = Some (APP_ID (rt_id rt) srv)" and "srv \<noteq> -1" and "rt_local rt srv = None"
  shows "send_all (map (\<lambda>p. (x, p)) ps) rt =
    Inr (rt\<lparr>rt_pending := (rt_pending rt)(srv := rt_pending rt srv @
           map (\<lambda>p. Some (Routed (APP_ID (rt_id rt) (-1), APP_ID (rt_id rt) srv) p)) ps)\<rparr>)"
  using assms
proof (induction ps arbitrary: rt)
  case (Cons p ps)
  let ?rt = "push_pending srv (Some (Routed (APP_ID (rt_id rt) (-1), APP_ID (rt_id rt) srv) p)) rt"
  have "send_obj x p rt = Inr ?rt" using Cons.prems send_obj_local [of rt x srv p] by (simp add: Let_def)
  then show ?case using Cons.IH [of ?rt] Cons.prems by (simp add: push_pending_def fun_upd_def cong: if_cong)
qed simp

lemma send_pending_eq:
  "ch \<in> rt_open rt \<Longrightarrow> send_pending ch (map Some ms) rt = Inr (rt\<lparr>rt_out := rt_out rt @ map (Pair ch) ms\<rparr>)"
  by (induction ms arbitrary: rt) (simp_all add: chan_send_def)

lemma send_pending_dead: "ch \<in> rt_open rt \<Longrightarrow> None \<in> set ms \<Longrightarrow> send_pending ch ms rt = Inl MemoryFault"
proof (induction ms arbitrary: rt)
  case (Cons m ms)
  then show ?case by (cases m) (auto simp: chan_send_def)
qed simp


text \<open>
  An event that another router passes on to a server that has not connected is deleted while it is still
  in the queue: when the server connects, the router uses it after it was deleted.
\<close>

theorem routed_event_dangles:
  assumes "rt_table rt x = Some (APP_ID (rt_id rt) srv)" and "srv \<noteq> -1" and "rt_local rt srv = None"
    and "rt_servers rt ch = Some nm" and "ch \<in> rt_open rt"
  shows "\<exists>rt1. router_event_in (Routed (src, APP_ID (rt_id rt) srv) p) rt = Inr rt1 \<and> rt_out rt1 = rt_out rt \<and>
    server_event ch (Plain (PConnect x)) rt1 = Inl MemoryFault"
proof -
  let ?rt1 = "push_pending srv None rt"
  let ?rt2 = "?rt1\<lparr>rt_local := (rt_local rt)(srv \<mapsto> ch), rt_servers := (rt_servers rt)(ch \<mapsto> x)\<rparr>"
  have "router_event_in (Routed (src, APP_ID (rt_id rt) srv) p) rt = Inr ?rt1"
    using assms by (simp add: dest_chan_def findServerChan_def)
  moreover have "addServer x ch ?rt1 = Inr (srv, ?rt2)"
    using assms by (simp add: addServer_def findRoute_def APP_ID_low Let_def push_pending_def)
  moreover have "doPending srv ?rt2 = Inl MemoryFault"
    using send_pending_dead [of ch ?rt2 "rt_pending rt srv @ [None]"] assms(2,5)
    by (simp add: doPending_def findServerChan_def push_pending_def)
  ultimately show ?thesis by (simp add: push_pending_def)
qed

text \<open>
  When a server other than number 0 disconnects, its entry stays and that of server 0 is removed: the
  next event for the server that left uses a deleted channel, and events for server 0, which is
  still connected, are kept instead of sent.
\<close>

theorem server_closed_wrong_entry:
  assumes "rt_servers rt ch = Some nm" and "rt_local rt srv = Some ch" and "srv \<noteq> 0" and "srv \<noteq> -1"
    and "rt_table rt x = Some (APP_ID (rt_id rt) srv)" and "rt_table rt y = Some (APP_ID (rt_id rt) 0)"
  shows "\<exists>rt'. server_closed ch rt = Inr rt' \<and> send_obj x p rt' = Inl MemoryFault \<and>
    send_obj y q rt' = Inr (push_pending 0 (Some (Routed (APP_ID (rt_id rt) (-1), APP_ID (rt_id rt) 0) q)) rt')"
proof -
  let ?rt = "(delServer nm rt)\<lparr>rt_servers := (rt_servers rt)(ch := None), rt_open := rt_open rt - {ch}\<rparr>"
  have "server_closed ch rt = Inr ?rt" using assms(1) by (simp add: server_closed_def delServer_def)
  then show ?thesis
    using assms send_obj_local [of ?rt x srv p] send_obj_local [of ?rt y 0 q]
    by (simp add: delServer_def chan_send_def)
qed

subsection \<open>Reachable routers\<close>

text \<open>
  Everything that can happen to a router: an event from a client, a server or another router, a connection made or
  closed.  New connections get channels not in use.
\<close>

inductive router_step :: "router \<Rightarrow> router \<Rightarrow> bool" where
  step_client: "client_event ch p rt = Inr rt' \<Longrightarrow> router_step rt rt'"
| step_server: "server_event ch m rt = Inr rt' \<Longrightarrow> router_step rt rt'"
| step_router: "router_event_in m rt = Inr rt' \<Longrightarrow> router_step rt rt'"
| step_client_closed: "client_closed ch rt = Inr rt' \<Longrightarrow> router_step rt rt'"
| step_server_closed: "server_closed ch rt = Inr rt' \<Longrightarrow> router_step rt rt'"
| step_addClient: "ch \<notin> rt_open rt \<Longrightarrow> router_step rt (addClientChan ch rt)"
| step_addServer: "ch \<notin> rt_open rt \<Longrightarrow> router_step rt (addServerChan ch rt)"
| step_addRouter: "ch \<notin> rt_open rt \<Longrightarrow> router_step rt (addRouterChan ch rt)"
| step_delRouter: "router_step rt (delRouterChan ch rt)"

definition new_router :: "32 word \<Rightarrow> (string \<rightharpoonup> 64 word) \<Rightarrow> (32 word \<Rightarrow> nat option res) \<Rightarrow> nat set \<Rightarrow> router" where
  "new_router me tab core links =
     \<lparr>rt_id = me, rt_table = tab, rt_local = Map.empty, rt_core = core, rt_pending = (\<lambda>_. []), rt_servers = Map.empty,
      rt_clients = Map.empty, rt_infos = Map.empty, rt_next = 0, rt_open = links, rt_out = []\<rparr>"

text \<open>
  The invariant of a request in progress: its counter is the number of groups whose answers are not complete, and
  some group is not.  Of the queues: events wait only for a server without a channel.
\<close>

definition waiting_groups :: "comm_req_info \<Rightarrow> nat set" where
  "waiting_groups i =
     {g. g < length (ri_grpInfo i) \<and> (ri_grpInfo i ! g = 0 \<or> length (ri_respQ i ! g) < ri_grpInfo i ! g)}"

definition info_inv :: "comm_req_info \<Rightarrow> bool" where
  "info_inv i \<longleftrightarrow> length (ri_respQ i) = length (ri_grpInfo i) \<and>
     (ri_grpInfo i \<noteq> [] \<longrightarrow> ri_pending i = card (waiting_groups i) \<and> 0 < ri_pending i)"

definition router_inv :: "router \<Rightarrow> bool" where
  "router_inv rt \<longleftrightarrow>
     (\<forall>k i. rt_infos rt k = Some i \<longrightarrow> k < rt_next rt \<and> info_inv i) \<and>
     (\<forall>srv. rt_pending rt srv \<noteq> [] \<longrightarrow> findServerChan rt srv = None)"

lemma router_invD: "router_inv rt \<Longrightarrow> rt_infos rt k = Some i \<Longrightarrow> info_inv i"
  by (auto simp: router_inv_def)

text \<open>Frame: what the invariant looks at.\<close>

lemma router_inv_cong:
  "rt_infos rt' = rt_infos rt \<Longrightarrow> rt_next rt' = rt_next rt \<Longrightarrow> rt_pending rt' = rt_pending rt \<Longrightarrow>
   rt_local rt' = rt_local rt \<Longrightarrow> router_inv rt' = router_inv rt"
  by (simp add: router_inv_def findServerChan_def)

lemma router_inv_forget: "router_inv rt \<Longrightarrow> router_inv (rt\<lparr>rt_infos := (rt_infos rt)(k := None)\<rparr>)"
  by (auto simp: router_inv_def findServerChan_def)

lemma router_inv_update:
  "router_inv rt \<Longrightarrow> rt_infos rt k = Some i \<Longrightarrow> info_inv i' \<Longrightarrow>
   router_inv (rt\<lparr>rt_infos := (rt_infos rt)(k \<mapsto> i')\<rparr>)"
  by (auto simp: router_inv_def findServerChan_def)

lemma router_inv_add_info:
  "router_inv rt \<Longrightarrow> info_inv i \<Longrightarrow>
   router_inv (rt\<lparr>rt_infos := (rt_infos rt)(rt_next rt \<mapsto> i), rt_next := Suc (rt_next rt)\<rparr>)"
  by (auto simp: router_inv_def findServerChan_def less_Suc_eq)

lemma router_inv_chan_send: "router_inv rt \<Longrightarrow> chan_send ch m rt = Inr rt' \<Longrightarrow> router_inv rt'"
  by (auto simp: chan_send_def router_inv_def findServerChan_def split: if_splits)

lemma router_inv_push:
  "router_inv rt \<Longrightarrow> findServerChan rt srv = None \<Longrightarrow> router_inv (push_pending srv m rt)"
  by (auto simp: push_pending_def router_inv_def findServerChan_def)

text \<open>An answer keeps the counter right.\<close>

lemma waiting_groups_same:
  assumes "g < length (ri_grpInfo i)" and "length (ri_respQ i) = length (ri_grpInfo i)"
    and "Suc (length (ri_respQ i ! g)) \<noteq> ri_grpInfo i ! g"
  shows "waiting_groups (i\<lparr>ri_respQ := (ri_respQ i)[g := ri_respQ i ! g @ [r]]\<rparr>) = waiting_groups i"
  using assms by (auto simp: waiting_groups_def nth_list_update)

lemma waiting_groups_less:
  assumes "g < length (ri_grpInfo i)" and "length (ri_respQ i) = length (ri_grpInfo i)"
    and "Suc (length (ri_respQ i ! g)) = ri_grpInfo i ! g"
  shows "waiting_groups i = insert g (waiting_groups (i\<lparr>ri_respQ := (ri_respQ i)[g := ri_respQ i ! g @ [r]]\<rparr>)) \<and>
    g \<notin> waiting_groups (i\<lparr>ri_respQ := (ri_respQ i)[g := ri_respQ i ! g @ [r]]\<rparr>)"
  using assms by (auto simp: waiting_groups_def nth_list_update)

lemma waiting_groups_fields:
  "waiting_groups (i\<lparr>ri_resp := x, ri_pending := y\<rparr>) = waiting_groups i"
  by (simp add: waiting_groups_def)

lemma finite_waiting [simp]: "finite (waiting_groups i)"
  by (simp add: waiting_groups_def)

lemma info_inv_arrived:
  assumes "info_inv i" and "g < length (ri_grpInfo i)" and "Suc (length (ri_respQ i ! g)) \<noteq> ri_grpInfo i ! g"
  shows "info_inv (i\<lparr>ri_respQ := (ri_respQ i)[g := ri_respQ i ! g @ [r]]\<rparr>)"
  using assms waiting_groups_same [of g i r] by (cases "ri_grpInfo i = []") (simp_all add: info_inv_def)

lemma info_inv_completed:
  assumes "info_inv i" and "g < length (ri_grpInfo i)" and "Suc (length (ri_respQ i ! g)) = ri_grpInfo i ! g"
    and "ri_pending i \<noteq> 1"
  shows "info_inv (i\<lparr>ri_respQ := (ri_respQ i)[g := ri_respQ i ! g @ [r]], ri_resp := x, ri_pending := ri_pending i - 1\<rparr>)"
proof -
  let ?i = "i\<lparr>ri_respQ := (ri_respQ i)[g := ri_respQ i ! g @ [r]]\<rparr>"
  have ne: "ri_grpInfo i \<noteq> []" using assms(2) by auto
  have "card (waiting_groups i) = Suc (card (waiting_groups ?i))"
    using waiting_groups_less [OF assms(2) _ assms(3), of r] assms(1) by (simp add: info_inv_def)
  then show ?thesis
    using assms(1,4) ne by (simp add: info_inv_def waiting_groups_fields card_gt_0_iff)
qed

lemma comm_resp_eq:
  assumes "rt_infos rt (ev_id r) = Some i"
  shows "comm_resp g r rt =
    (if g < length (ri_respQ i) \<and> g < length (ri_grpInfo i) then
       let q = ri_respQ i ! g @ [r]; i1 = i\<lparr>ri_respQ := (ri_respQ i)[g := q]\<rparr> in
       if Suc (length (ri_respQ i ! g)) \<noteq> ri_grpInfo i ! g then Inr (rt\<lparr>rt_infos := (rt_infos rt)(ev_id r \<mapsto> i1)\<rparr>)
       else rbind (join_values (ri_op i) (ri_valueOp i) g q (ri_resp i)) (\<lambda>resp.
         if ri_pending i = 1 then
           rbind (chan_send (ri_src i) (Plain (PResp 0 (join_errors q resp))) rt) (\<lambda>rt'.
           Inr (rt'\<lparr>rt_infos := (rt_infos rt')(ev_id r := None)\<rparr>))
         else Inr (rt\<lparr>rt_infos := (rt_infos rt)(ev_id r \<mapsto>
                i1\<lparr>ri_resp := join_errors q resp, ri_pending := ri_pending i - 1\<rparr>)\<rparr>))
     else Inl MemoryFault)"
  using assms by (simp add: comm_resp_def arr_get_def Let_def)

lemma comm_resp_cases:
  assumes "rt_infos rt (ev_id r) = Some i" and "comm_resp g r rt = Inr rt'" and "q = ri_respQ i ! g @ [r]"
  obtains
    (more) "Suc (length (ri_respQ i ! g)) \<noteq> ri_grpInfo i ! g"
      "rt' = rt\<lparr>rt_infos := (rt_infos rt)(ev_id r \<mapsto> i\<lparr>ri_respQ := (ri_respQ i)[g := q]\<rparr>)\<rparr>"
  | (last) m rt1 where "chan_send (ri_src i) m rt = Inr rt1" "rt' = rt1\<lparr>rt_infos := (rt_infos rt1)(ev_id r := None)\<rparr>"
  | (group) x where "Suc (length (ri_respQ i ! g)) = ri_grpInfo i ! g" "ri_pending i \<noteq> 1"
      "rt' = rt\<lparr>rt_infos := (rt_infos rt)(ev_id r \<mapsto>
          i\<lparr>ri_respQ := (ri_respQ i)[g := q], ri_resp := x, ri_pending := ri_pending i - 1\<rparr>)\<rparr>"
  using assms(2) unfolding comm_resp_eq [OF assms(1)] Let_def assms(3) [symmetric]
  by (auto simp: res_simps split: if_splits)

lemma router_inv_comm_resp:
  assumes inv: "router_inv rt" and step: "comm_resp g r rt = Inr rt'"
  shows "router_inv rt'"
proof -
  obtain i where i: "rt_infos rt (ev_id r) = Some i"
    using step by (cases "rt_infos rt (ev_id r)") (auto simp: comm_resp_def Let_def)
  note ii = router_invD [OF inv i]
  have g: "g < length (ri_grpInfo i)" using step unfolding comm_resp_eq [OF i] by (auto split: if_splits)
  show ?thesis using i step refl
  proof (cases rule: comm_resp_cases)
    case more
    then show ?thesis using router_inv_update [OF inv i info_inv_arrived [OF ii g]] by blast
  next
    case (last m rt1)
    then show ?thesis using router_inv_forget router_inv_chan_send [OF inv] by blast
  next
    case (group x)
    then show ?thesis using router_inv_update [OF inv i info_inv_completed [OF ii g]] by blast
  qed
qed

lemma router_inv_pass: "router_inv rt \<Longrightarrow> pass_resp con r rt = Inr rt' \<Longrightarrow> router_inv rt'"
  by (auto simp: pass_resp_def res_simps split: option.splits intro!: router_inv_forget intro: router_inv_chan_send)

lemma router_inv_payload: "router_inv rt \<Longrightarrow> process_payload p rt = Inr rt' \<Longrightarrow> router_inv rt'"
  by (cases p) (auto intro: router_inv_comm_resp router_inv_pass)

lemma dest_chan_None: "dest_chan r srv rt = Inr None \<Longrightarrow> findServerChan rt srv = None"
  by (auto simp: dest_chan_def rbind_eq_Inr_iff split: if_splits option.splits)

lemma router_inv_send_app:
  assumes inv: "router_inv rt" and step: "send_app dest m rt = Inr rt'"
  shows "router_inv rt'"
proof -
  obtain ec where ec: "dest_chan (RTR_ID dest) (SERVER_ID dest) rt = Inr ec"
    using step by (cases m) (auto simp: res_simps)
  have push: "router_inv (push_pending (SERVER_ID dest) x rt)" if "ec = None" for x
    using router_inv_push [OF inv] dest_chan_None ec that by blast
  consider (payload) p where "process_payload p rt = Inr rt'"
    | (push) x where "ec = None" "rt' = push_pending (SERVER_ID dest) x rt"
    | (sent) ch x where "chan_send ch x rt = Inr rt'"
    using step by (cases m) (auto simp: ec Let_def split: if_splits option.splits)
  then show ?thesis
  proof cases
    case payload
    then show ?thesis by (rule router_inv_payload [OF inv])
  next
    case push
    then show ?thesis using \<open>\<And>x. ec = None \<Longrightarrow> router_inv (push_pending (SERVER_ID dest) x rt)\<close> by simp
  next
    case sent
    then show ?thesis by (rule router_inv_chan_send [OF inv])
  qed
qed

lemma router_inv_send_all: "router_inv rt \<Longrightarrow> send_all xs rt = Inr rt' \<Longrightarrow> router_inv rt'"
proof (induction xs arbitrary: rt)
  case (Cons x xs)
  obtain name p where x: "x = (name, p)" by (cases x)
  from Cons.prems obtain rt1 where "send_obj name p rt = Inr rt1" and s: "send_all xs rt1 = Inr rt'"
    by (auto simp: x res_simps)
  then have "router_inv rt1"
    using Cons.prems(1) router_inv_send_app [of rt _ "Plain p" rt1]
    by (auto simp: send_obj_def Let_def simp del: send_app.simps split: if_splits)
  then show ?case using Cons.IH s by blast
qed simp

lemma info_inv_new: "info_inv (new_info ch opr ops k ms)" "info_inv (single_info ch opr k)"
proof -
  have "waiting_groups (new_info ch opr ops k ms) = {0..<length ms}"
    by (auto simp: waiting_groups_def new_info_def)
  then show "info_inv (new_info ch opr ops k ms)" by (simp add: info_inv_def new_info_def)
qed (simp add: info_inv_def single_info_def)

lemma router_inv_client_event:
  assumes "router_inv rt" and "client_event ch p rt = Inr rt'"
  shows "router_inv rt'"
proof -
  have "router_inv (rt\<lparr>rt_clients := x\<rparr>)" for x
    using router_inv_cong [of "rt\<lparr>rt_clients := x\<rparr>" rt] assms(1) by simp
  moreover have "\<exists>xs rt1. send_all xs rt1 = Inr rt' \<and> ((\<exists>x. rt1 = rt\<lparr>rt_clients := x\<rparr>) \<or>
      (\<exists>i. info_inv i \<and> rt1 = rt\<lparr>rt_infos := (rt_infos rt)(rt_next rt \<mapsto> i), rt_next := Suc (rt_next rt)\<rparr>))"
    using assms(2) info_inv_new
    by (cases p; fastforce simp: client_create_def client_req_def client_single_def add_info_def res_simps)
  ultimately show ?thesis
    using router_inv_send_all router_inv_add_info [OF assms(1)] by blast
qed

lemma send_pending_out: "send_pending ch ms rt = Inr rt' \<Longrightarrow> \<exists>x. rt' = rt\<lparr>rt_out := x\<rparr>"
proof (induction ms arbitrary: rt)
  case Nil
  then have "rt' = rt\<lparr>rt_out := rt_out rt\<rparr>" by simp
  then show ?case by blast
next
  case (Cons m ms)
  then show ?case by (auto simp: res_simps chan_send_def split: option.splits if_splits dest!: Cons.IH)
qed

lemma router_inv_server_event:
  assumes inv: "router_inv rt" and step: "server_event ch m rt = Inr rt'"
  shows "router_inv rt'"
proof (cases "\<exists>name. m = Plain (PConnect name)")
  case True
  then obtain name where m: "m = Plain (PConnect name)" by blast
  define srv where "srv = SERVER_ID (findRoute rt name)"
  let ?rt1 = "rt\<lparr>rt_local := (rt_local rt)(srv \<mapsto> ch), rt_servers := (rt_servers rt)(ch \<mapsto> name)\<rparr>"
  have d: "doPending srv ?rt1 = Inr rt'"
    using step by (auto simp: m addServer_def Let_def res_simps srv_def split: option.splits)
  show ?thesis
  proof (cases "rt_pending rt srv = []")
    case True
    then have "rt' = ?rt1" using d by (simp add: doPending_def)
    then show ?thesis using inv True by (auto simp: router_inv_def findServerChan_def)
  next
    case False
    then obtain x where "rt' = ?rt1\<lparr>rt_out := x, rt_pending := (rt_pending rt)(srv := [])\<rparr>"
      using d by (auto simp: doPending_def res_simps split: option.splits dest!: send_pending_out)
    then show ?thesis using inv by (auto simp: router_inv_def findServerChan_def)
  qed
next
  case False
  show ?thesis
  proof (cases m)
    case (Plain p)
    then have "process_payload p rt = Inr rt'" using step False by (cases p) simp_all
    then show ?thesis by (rule router_inv_payload [OF inv])
  next
    case (Routed re p)
    then show ?thesis using step router_inv_send_app [OF inv] by (simp del: send_app.simps)
  qed
qed

lemma router_inv_closed:
  "router_inv rt \<Longrightarrow> server_closed ch rt = Inr rt' \<Longrightarrow> router_inv rt'"
  by (auto simp: server_closed_def delServer_def router_inv_def findServerChan_def split: option.splits)

lemma router_inv_client_closed:
  assumes "router_inv rt" and "client_closed ch rt = Inr rt'"
  shows "router_inv rt'"
proof -
  obtain xs rt1 where "send_all xs rt = Inr rt1"
    and r: "rt' = rt1\<lparr>rt_clients := (rt_clients rt1)(ch := None), rt_open := rt_open rt1 - {ch}\<rparr>"
    using assms(2) by (auto simp: client_closed_def res_simps split: if_splits)
  then have "router_inv rt1" using router_inv_send_all [OF assms(1)] by blast
  then show ?thesis using router_inv_cong [of rt' rt1] r by simp
qed

lemma router_inv_step: "router_step rt rt' \<Longrightarrow> router_inv rt \<Longrightarrow> router_inv rt'"
proof (induction rule: router_step.induct)
  case (step_client_closed ch rt rt')
  then show ?case by (rule router_inv_client_closed [rotated])
next
  case (step_router m rt rt')
  then show ?case by (cases m) (auto simp del: send_app.simps intro: router_inv_send_app)
next
  case (step_addClient ch rt)
  then show ?case using router_inv_cong [of "addClientChan ch rt" rt] by (simp add: addClientChan_def)
next
  case (step_addServer ch rt)
  then show ?case using router_inv_cong [of "addServerChan ch rt" rt] by (simp add: addServerChan_def)
next
  case (step_addRouter ch rt)
  then show ?case using router_inv_cong [of "addRouterChan ch rt" rt] by (simp add: addRouterChan_def)
next
  case (step_delRouter rt ch)
  then show ?case using router_inv_cong [of "delRouterChan ch rt" rt] by (simp add: delRouterChan_def)
qed (auto intro: router_inv_client_event router_inv_server_event router_inv_closed)

lemma router_inv_reachable:
  "router_step\<^sup>*\<^sup>* (new_router me tab core links) rt \<Longrightarrow> router_inv rt"
proof (induction rule: rtranclp_induct)
  case base
  then show ?case by (simp add: router_inv_def new_router_def)
next
  case (step rt rt')
  then show ?case using router_inv_step by blast
qed

text \<open>
  C3.  In every state a router can reach, a request of a client that is in progress waits for at least one group, its
  counter is the number of groups with answers missing, so it is answered neither early nor twice; its number is not
  reused; and events wait only for servers that have no channel.
\<close>

theorem router_invariant:
  assumes "router_step\<^sup>*\<^sup>* (new_router me tab core links) rt"
  shows "(\<forall>k i. rt_infos rt k = Some i \<and> ri_grpInfo i \<noteq> [] \<longrightarrow> k < rt_next rt \<and> 0 < ri_pending i \<and>
      ri_pending i = card {g. g < length (ri_grpInfo i) \<and>
        (ri_grpInfo i ! g = 0 \<or> length (ri_respQ i ! g) < ri_grpInfo i ! g)}) \<and>
    (\<forall>srv. rt_pending rt srv \<noteq> [] \<longrightarrow> findServerChan rt srv = None)"
  using router_inv_reachable [OF assms] unfolding router_inv_def info_inv_def waiting_groups_def by blast

subsection \<open>A router with four servers\<close>

definition demo_router :: router where
  "demo_router =
     \<lparr>rt_id = 0,
      rt_table = [''s0'' \<mapsto> APP_ID 0 0, ''s1'' \<mapsto> APP_ID 0 1, ''s2'' \<mapsto> APP_ID 0 2, ''s3'' \<mapsto> APP_ID 0 3, ''r'' \<mapsto> APP_ID 0 (-1)],
      rt_local = [0 \<mapsto> 20, 1 \<mapsto> 21, 2 \<mapsto> 22], rt_core = Inr \<circ> treeCore_getChannel [(0, 0, None)],
      rt_pending = (\<lambda>_. []), rt_servers = [20 \<mapsto> ''s0'', 21 \<mapsto> ''s1'', 22 \<mapsto> ''s2'', 23 \<mapsto> ''''],
      rt_clients = [10 \<mapsto> [(7, [[''s1'', ''s2'']])]], rt_infos = Map.empty, rt_next = 4,
      rt_open = {10, 20, 21, 22, 23}, rt_out = []\<rparr>"

lemma demo_router_simps [simp]:
  "rt_id demo_router = 0" "rt_next demo_router = 4" "rt_out demo_router = []" "rt_pending demo_router srv = []"
  "rt_table demo_router ''s0'' = Some (APP_ID 0 0)" "rt_table demo_router ''s1'' = Some (APP_ID 0 1)"
  "rt_table demo_router ''s2'' = Some (APP_ID 0 2)" "rt_table demo_router ''s3'' = Some (APP_ID 0 3)"
  "rt_table demo_router ''r'' = Some (APP_ID 0 (-1))" "rt_table demo_router ''x'' = None"
  "rt_local demo_router 1 = Some 21" "rt_local demo_router 2 = Some 22" "rt_local demo_router 3 = None"
  "rt_servers demo_router 21 = Some ''s1''" "rt_servers demo_router 23 = Some ''''"
  "rt_clients demo_router 10 = Some [(7, [[''s1'', ''s2'']])]"
  "10 \<in> rt_open demo_router" "21 \<in> rt_open demo_router" "22 \<in> rt_open demo_router" "23 \<in> rt_open demo_router"
  by (simp_all add: demo_router_def)

definition demo_read :: req_event where
  "demo_read = \<lparr>rq_id = 3, rq_commID = 7, rq_op = Get, rq_grpIndex = 0, rq_attrName = [ATTR_ENERGY],
     rq_setValues = [], rq_valueOp = [FP_ADD]\<rparr>"

lemma demo_client_req: "\<exists>rt1. client_req 10 demo_read demo_router = Inr rt1 \<and> length (rt_out rt1) = 2"
proof -
  have a: "(1 :: 32 word) \<noteq> -1" "(2 :: 32 word) \<noteq> -1" by simp_all
  show ?thesis
    by (simp add: client_req_def comm_list_def client_comms_def add_info_def demo_read_def send_obj_local a Let_def
        chan_send_def)
qed

theorem router_answers_once_witness:
  "\<exists>rt1 rt2 resp. client_req 10 demo_read demo_router = Inr rt1 \<and>
     feed [(0, value_resp 4 (Dbl 5) 9), (0, value_resp 4 (Dbl 2) 8)] rt1 = Inr rt2 \<and>
     rt_out rt2 = rt_out rt1 @ [(10, Plain (PResp 0 resp))] \<and>
     ev_id resp = 3 \<and> ev_value resp = [[Dbl 7]] \<and> ev_timeStamp resp = [[8]]"
proof -
  obtain rt1 where c: "client_req 10 demo_read demo_router = Inr rt1" using demo_client_req by blast
  let ?ys = "[(0::nat, value_resp 4 (Dbl 5) 9), (0, value_resp 4 (Dbl 2) 8)]"
  have n: "nums (value_resp 4 (Dbl x) t) = [x]" for x t
    by (rule nums_single [of "Dbl x"]) (simp_all add: value_resp_def)
  have g: "group_of 0 ?ys = [value_resp 4 (Dbl 5) 9, value_resp 4 (Dbl 2) 8]" by simp
  note R = router_answers_once [where cs = "[(7, [[''s1'', ''s2'']])]" and rq = demo_read and ms = "[[''s1'', ''s2'']]"
      and rt = demo_router and ch = 10 and n = 1 and ys = ?ys, OF _ _ _ _ _ _ _ c]
  have R: "\<exists>gs resp. feed ?ys rt1 =
        Inr (rt1\<lparr>rt_out := rt_out rt1 @ [(10, Plain (PResp 0 resp))], rt_infos := (rt_infos demo_router)(4 := None)\<rparr>) \<and>
      ev_id resp = 3 \<and> ev_value resp = [map Dbl (row_sum 1 (group_of 0 ?ys))] \<and>
      ev_timeStamp resp = [hd (ev_timeStamp (last (group_of 0 ?ys)))]"
    using conjunct1 [OF R] good_value_resp [of "Dbl 5" 5 4 9] good_value_resp [of "Dbl 2" 2 4 8]
    by (simp add: demo_read_def del: group_of_simps) (fastforce simp: less_Suc_eq)
  then obtain resp where "feed ?ys rt1 =
        Inr (rt1\<lparr>rt_out := rt_out rt1 @ [(10, Plain (PResp 0 resp))],
          rt_infos := (rt_infos demo_router)(rt_next demo_router := None)\<rparr>)"
    "ev_id resp = 3" "ev_value resp = [[Dbl 7]]" "ev_timeStamp resp = [[8]]"
    by (auto simp: demo_read_def row_sum_def n) (simp_all add: value_resp_def)
  then show ?thesis using c by fastforce
qed


theorem unroutable_not_dropped_witness:
  "send_obj ''x'' (PDestroy 7) demo_router = Inl AssertFailed \<and>
   client_event 10 (PCreate 8 [[''x'']]) demo_router = Inl AssertFailed \<and>
   send_obj ''r'' (PDestroy 7) demo_router = Inr demo_router"
  using unroutable_not_dropped [of demo_router "''x''" "''r''" "PDestroy 7" 0 0 "[]" 10 "[(7, [[''s1'', ''s2'']])]" 8]
  by (simp add: treeCore_getChannel_def) (simp add: demo_router_def treeCore_getChannel_def)


theorem routed_event_dangles_witness:
  "\<exists>rt1. router_event_in (Routed (1, APP_ID 0 3) (PDestroy 7)) demo_router = Inr rt1 \<and>
     server_event 23 (Plain (PConnect ''s3'')) rt1 = Inl MemoryFault"
proof -
  have "(3 :: 32 word) \<noteq> -1" by simp
  then show ?thesis
    using routed_event_dangles [of demo_router "''s3''" 3 23 "''''" 1 "PDestroy 7"] by fastforce
qed

theorem server_closed_wrong_entry_witness:
  "\<exists>rt'. server_closed 21 demo_router = Inr rt' \<and> send_obj ''s1'' (PDestroy 7) rt' = Inl MemoryFault \<and>
     send_obj ''s0'' (PDestroy 7) rt' =
       Inr (push_pending 0 (Some (Routed (APP_ID 0 (-1), APP_ID 0 0) (PDestroy 7))) rt')"
proof -
  have "(1 :: 32 word) \<noteq> -1" by simp
  then show ?thesis
    using server_closed_wrong_entry [of demo_router 21 "''s1''" 1 "''s1''" "''s0''" "PDestroy 7" "PDestroy 7"] by simp
qed

text \<open>A client asks for an object whose server has not come up.\<close>

definition early_request :: router where
  "early_request =
     (new_router 0 [''s1'' \<mapsto> APP_ID 0 1] (\<lambda>_. Inr None) {})
       \<lparr>rt_clients := [10 \<mapsto> [(7, [[''s1'']])]], rt_open := {10}, rt_next := 1,
        rt_infos := [0 \<mapsto> new_info 10 Get [FP_ADD] 3 [[''s1'']]],
        rt_pending := (\<lambda>_. [])(1 := [Some (Routed (APP_ID 0 (-1), APP_ID 0 1) (PCreate 7 [[''s1'']])),
                          Some (Routed (APP_ID 0 (-1), APP_ID 0 1) (PReq (demo_read\<lparr>rq_id := 0, rq_grpIndex := 0\<rparr>)))])\<rparr>"

lemma early_request_reachable:
  "router_step\<^sup>*\<^sup>* (new_router 0 [''s1'' \<mapsto> APP_ID 0 1] (\<lambda>_. Inr None) {}) early_request"
proof -
  let ?rt0 = "new_router 0 [''s1'' \<mapsto> APP_ID 0 1] (\<lambda>_. Inr None) {}"
  let ?rt1 = "addClientChan 10 ?rt0"
  let ?rt2 = "push_pending 1 (Some (Routed (APP_ID 0 (-1), APP_ID 0 1) (PCreate 7 [[''s1'']])))
      (?rt1\<lparr>rt_clients := [10 \<mapsto> [(7, [[''s1'']])]]\<rparr>)"
  have a: "(1 :: 32 word) \<noteq> -1" by simp
  have "router_step ?rt0 ?rt1" by (rule step_addClient) (simp add: new_router_def)
  moreover have "client_event 10 (PCreate 7 [[''s1'']]) ?rt1 = Inr ?rt2"
    using send_obj_local [of "?rt1\<lparr>rt_clients := [10 \<mapsto> [(7, [[''s1'']])]]\<rparr>" "''s1''" 1] a
    by (simp add: client_create_def client_comms_def addClientChan_def new_router_def Let_def)
  then have "router_step ?rt1 ?rt2" by (rule step_client)
  moreover have "client_event 10 (PReq demo_read) ?rt2 = Inr early_request"
    using send_obj_local [of "?rt2\<lparr>rt_infos := [0 \<mapsto> new_info 10 Get [FP_ADD] 3 [[''s1'']]], rt_next := Suc 0\<rparr>" "''s1''" 1] a
    by (simp add: client_req_def comm_list_def client_comms_def add_info_def addClientChan_def new_router_def Let_def
        push_pending_def early_request_def demo_read_def fun_upd_def cong: if_cong)
  then have "router_step ?rt2 early_request" by (rule step_client)
  ultimately show ?thesis by (meson rtranclp.rtrancl_refl rtranclp.rtrancl_into_rtrancl)
qed

theorem router_invariant_witness:
  "rt_pending early_request 1 \<noteq> [] \<and> findServerChan early_request 1 = None \<and>
   rt_infos early_request 0 = Some (new_info 10 Get [FP_ADD] 3 [[''s1'']]) \<and>
   0 < ri_pending (new_info 10 Get [FP_ADD] 3 [[''s1'']])"
proof -
  have "rt_infos early_request 0 = Some (new_info 10 Get [FP_ADD] 3 [[''s1'']])" "rt_pending early_request 1 \<noteq> []"
    by (simp_all add: early_request_def)
  moreover have "ri_grpInfo (new_info 10 Get [FP_ADD] 3 [[''s1'']]) \<noteq> []" by (simp add: new_info_def)
  ultimately show ?thesis using router_invariant [OF early_request_reachable] by blast
qed

end
