(* ===== verification/Pwr_Stat.thy ===== *)
theory Pwr_Stat
  imports Pwr_Context
begin

text \<open>
  Statistics over the samples a device logs (\<^verbatim>\<open>src/pwr/stat.h\<close>, \<^verbatim>\<open>deviceStat.cc\<close>, and their creation in
  \<^verbatim>\<open>cntxt.cc\<close>), with the API calls on them and the hints of \<^verbatim>\<open>pwr.cc\<close>.
\<close>

subsection \<open>Reductions\<close>

datatype attr_stat =
    STAT_MIN | STAT_MAX | STAT_AVG | STAT_STDEV | STAT_CV | STAT_SUM | NUM_ATTR_STATS | STAT_INVALID | STAT_NOT_SPECIFIED

fun attrStatToString :: "attr_stat \<Rightarrow> string" where
  "attrStatToString STAT_MIN = ''Min''"
| "attrStatToString STAT_MAX = ''Max''"
| "attrStatToString STAT_AVG = ''Avg''"
| "attrStatToString STAT_STDEV = ''Stdev''"
| "attrStatToString STAT_CV = ''CV''"
| "attrStatToString STAT_SUM = ''????''"
| "attrStatToString NUM_ATTR_STATS = ''????''"
| "attrStatToString STAT_INVALID = ''Invalid''"
| "attrStatToString STAT_NOT_SPECIFIED = ''????''"

text \<open>
  The result and the position it is found at, \<open>-1\<close> for none.  The mean of no samples divides zero by zero, which
  is a NaN, kept as its bits; the least and the greatest of no samples read outside the vector.
\<close>

definition avg_nan :: cell where
  "avg_nan = U64 0xfff8000000000000"

definition opAvg :: "real list \<Rightarrow> (cell \<times> int) res" where
  "opAvg xs = Inr (if xs = [] then avg_nan else Dbl (foldl (+) 0 xs / real (length xs)), - 1)"

fun min_loop :: "nat \<Rightarrow> real \<Rightarrow> nat \<Rightarrow> real list \<Rightarrow> real \<times> nat" where
  "min_loop i r pos [] = (r, pos)"
| "min_loop i r pos (x # xs) = (if x < r then min_loop (Suc i) x i xs else min_loop (Suc i) r pos xs)"

fun max_loop :: "nat \<Rightarrow> real \<Rightarrow> nat \<Rightarrow> real list \<Rightarrow> real \<times> nat" where
  "max_loop i r pos [] = (r, pos)"
| "max_loop i r pos (x # xs) = (if x > r then max_loop (Suc i) x i xs else max_loop (Suc i) r pos xs)"

fun opMin :: "real list \<Rightarrow> (cell \<times> int) res" where
  "opMin [] = Inl MemoryFault"
| "opMin (x # xs) = (let (r, pos) = min_loop 1 x 0 xs in Inr (Dbl r, int pos))"

fun opMax :: "real list \<Rightarrow> (cell \<times> int) res" where
  "opMax [] = Inl MemoryFault"
| "opMax (x # xs) = (let (r, pos) = max_loop 1 x 0 xs in Inr (Dbl r, int pos))"

definition getOp :: "string \<Rightarrow> (real list \<Rightarrow> (cell \<times> int) res) option" where
  "getOp name =
     (if name = ''Avg'' then Some opAvg else if name = ''Min'' then Some opMin
      else if name = ''Max'' then Some opMax else None)"

subsection \<open>Creation\<close>

text \<open>
  A statistic is on an object or on the members of a group.  \<open>kids\<close> is the number of children of an object; a
  constructor that throws is \<open>None\<close>.
\<close>

record stat =
  st_obj :: "string option"
  st_grp :: "string list"
  st_attr :: attr
  st_op :: "real list \<Rightarrow> (cell \<times> int) res"
  st_period :: real
  st_start :: pwr_time
  st_stop :: pwr_time
  st_logging :: bool

definition new_stat :: "string option \<Rightarrow> string list \<Rightarrow> attr \<Rightarrow> (real list \<Rightarrow> (cell \<times> int) res) \<Rightarrow> real \<Rightarrow> stat" where
  "new_stat ob g a f hz =
     \<lparr>st_obj = ob, st_grp = g, st_attr = a, st_op = f, st_period = 1 / hz, st_start = 0, st_stop = 0, st_logging = False\<rparr>"

definition stat_of_obj ::
  "(string \<Rightarrow> nat) \<Rightarrow> (string \<Rightarrow> 's object) \<Rightarrow> string \<Rightarrow> attr \<Rightarrow> (real list \<Rightarrow> (cell \<times> int) res) \<Rightarrow> real
   \<Rightarrow> stat option" where
  "stat_of_obj kids obj x a f hz =
     (let info = attrInfo (obj x) a; n = length (devices info)
      in if kids x \<noteq> 0 then None
         else if (n = 0 \<and> comm info = None) \<or> (0 < n \<and> comm info \<noteq> None) \<or> (1 < n \<and> comm info = None) then None
         else Some (new_stat (Some x) [] a f hz))"

definition stat_of_grp ::
  "(string \<Rightarrow> nat) \<Rightarrow> (string \<Rightarrow> 's object) \<Rightarrow> string list \<Rightarrow> attr \<Rightarrow> (real list \<Rightarrow> (cell \<times> int) res) \<Rightarrow> real
   \<Rightarrow> stat option" where
  "stat_of_grp kids obj g a f hz =
     (if \<forall>x\<in>set g. kids x = 0 \<and> length (devices (attrInfo (obj x) a)) = 1 then Some (new_stat None g a f hz) else None)"

text \<open>\<open>strtof\<close> reads the rate from the configuration; no rate is 0.\<close>

definition findHz :: "(string \<Rightarrow> real) \<Rightarrow> config \<Rightarrow> string \<Rightarrow> attr \<Rightarrow> real" where
  "findHz strtof cf x a = (let t = findAttrHz cf x a in if t = [] then 0 else strtof t)"

definition createStat_obj ::
  "(string \<Rightarrow> real) \<Rightarrow> config \<Rightarrow> (string \<Rightarrow> nat) \<Rightarrow> (string \<Rightarrow> 's object) \<Rightarrow> string \<Rightarrow> attr \<Rightarrow> attr_stat \<Rightarrow> stat option" where
  "createStat_obj strtof cf kids obj x a st =
     (case getOp (attrStatToString st) of
        None \<Rightarrow> None
      | Some f \<Rightarrow> (let hz = findHz strtof cf x a in if hz = 0 then None else stat_of_obj kids obj x a f hz))"

definition createStat_grp ::
  "(string \<Rightarrow> real) \<Rightarrow> config \<Rightarrow> (string \<Rightarrow> nat) \<Rightarrow> (string \<Rightarrow> 's object) \<Rightarrow> string list \<Rightarrow> attr \<Rightarrow> attr_stat
   \<Rightarrow> stat option res" where
  "createStat_grp strtof cf kids obj g a st =
     (case getOp (attrStatToString st) of
        None \<Rightarrow> Inr None
      | Some f \<Rightarrow>
          rbind (arr_get g 0) (\<lambda>x0.
          let hz = findHz strtof cf x0 a
          in Inr (if hz = 0 then None
                  else if \<exists>x\<in>set (tl g). findHz strtof cf x a \<noteq> hz then None
                  else stat_of_grp kids obj g a f hz)))"

subsection \<open>Starting and stopping\<close>

text \<open>\<^verbatim>\<open>getTime\<close> is in nanoseconds; \<open>clk\<close> below is it on the state the devices live in.\<close>

definition stat_getTime :: "os \<Rightarrow> pwr_time \<times> os" where
  "stat_getTime w =
     (let (tv, w') = gettimeofday w
      in (word_of_int (tv_sec tv) * 1000000000 + word_of_int (tv_usec tv * 1000), w'))"

text \<open>Starting sets the period to a tenth of a second,
  whatever rate the statistic was made with.\<close>

fun log_all ::
  "('s object \<Rightarrow> attr \<Rightarrow> 's \<times> net \<Rightarrow> (int \<times> 's \<times> net) res) \<Rightarrow> (string \<Rightarrow> 's object) \<Rightarrow> string list \<Rightarrow> attr \<Rightarrow> 's \<times> net
   \<Rightarrow> (int \<times> 's \<times> net) res" where
  "log_all f obj [] a sn = Inr (RET_SUCCESS, sn)"
| "log_all f obj (x # xs) a sn =
     rbind (f (obj x) a sn) (\<lambda>(rc, sn'). if rc \<noteq> RET_SUCCESS then Inr (rc, sn') else log_all f obj xs a sn')"

definition stat_log ::
  "('s object \<Rightarrow> attr \<Rightarrow> 's \<times> net \<Rightarrow> (int \<times> 's \<times> net) res) \<Rightarrow> (string \<Rightarrow> 's object) \<Rightarrow> stat \<Rightarrow> 's \<times> net
   \<Rightarrow> (int \<times> 's \<times> net) res" where
  "stat_log f obj st sn =
     (case st_obj st of Some x \<Rightarrow> f (obj x) (st_attr st) sn | None \<Rightarrow> log_all f obj (st_grp st) (st_attr st) sn)"

definition stat_start ::
  "('s \<Rightarrow> pwr_time \<times> 's) \<Rightarrow> (string \<Rightarrow> string option) \<Rightarrow> (string \<Rightarrow> 's object) \<Rightarrow> stat \<Rightarrow> 's \<times> net
   \<Rightarrow> ((int \<times> stat) \<times> 's \<times> net) res" where
  "stat_start clk look obj st sn =
     (let (t, s) = clk (fst sn); st' = st\<lparr>st_logging := True, st_start := t, st_period := 1 / 10\<rparr>
      in rbind (stat_log (dist_attrStartLog look) obj st' (s, snd sn)) (\<lambda>(rc, sn'). Inr ((rc, st'), sn')))"

definition stat_stop ::
  "('s \<Rightarrow> pwr_time \<times> 's) \<Rightarrow> (string \<Rightarrow> string option) \<Rightarrow> (string \<Rightarrow> 's object) \<Rightarrow> stat \<Rightarrow> 's \<times> net
   \<Rightarrow> ((int \<times> stat) \<times> 's \<times> net) res" where
  "stat_stop clk look obj st sn =
     (let (t, s) = clk (fst sn); st' = st\<lparr>st_logging := False, st_stop := t\<rparr>
      in rbind (stat_log (dist_attrStopLog look) obj st' (s, snd sn)) (\<lambda>(rc, sn'). Inr ((rc, st'), sn')))"

text \<open>\<^verbatim>\<open>DeviceStat::clear\<close>, and the API call \<^verbatim>\<open>PWR_StatClear\<close>, which calls \<^verbatim>\<open>stop\<close> instead.\<close>

definition stat_clear :: "('s \<Rightarrow> pwr_time \<times> 's) \<Rightarrow> stat \<Rightarrow> 's \<Rightarrow> (int \<times> stat) \<times> 's" where
  "stat_clear clk st s = (let (t, s') = clk s in ((RET_SUCCESS, st\<lparr>st_start := t\<rparr>), s'))"

definition PWR_StatClear ::
  "('s \<Rightarrow> pwr_time \<times> 's) \<Rightarrow> (string \<Rightarrow> string option) \<Rightarrow> (string \<Rightarrow> 's object) \<Rightarrow> stat \<Rightarrow> 's \<times> net
   \<Rightarrow> ((int \<times> stat) \<times> 's \<times> net) res" where
  "PWR_StatClear clk look obj st sn = stat_stop clk look obj st sn"

text \<open>The destructor stops a statistic that is still logging.\<close>

definition destroyStat ::
  "('s \<Rightarrow> pwr_time \<times> 's) \<Rightarrow> (string \<Rightarrow> string option) \<Rightarrow> (string \<Rightarrow> 's object) \<Rightarrow> stat \<Rightarrow> 's \<times> net
   \<Rightarrow> (int \<times> 's \<times> net) res" where
  "destroyStat clk look obj st sn =
     (if st_logging st then rbind (stat_stop clk look obj st sn) (\<lambda>(_, sn'). Inr (RET_SUCCESS, sn'))
      else Inr (RET_SUCCESS, sn))"

subsection \<open>Values\<close>

record period =
  p_start :: pwr_time
  p_stop :: pwr_time
  p_instant :: pwr_time

text \<open>
  Time stamps are signed; a conversion of a \<^verbatim>\<open>double\<close> to a time stamp rounds towards zero.  A window that is negative
  or has too many samples for an \<^verbatim>\<open>unsigned\<close> is outside the conversion and is not given a result.
\<close>

definition nSamples :: "real \<Rightarrow> pwr_time \<Rightarrow> pwr_time \<Rightarrow> nat res" where
  "nSamples period start stop =
     (let w = of_int (sint (stop - start)) / 1000000000; n = trunc (w / period)
      in if 0 \<le> n \<and> n < 2 ^ 32 then Inr (nat n) else Inl SignedOverflow)"

definition time_plus :: "pwr_time \<Rightarrow> nat \<Rightarrow> real \<Rightarrow> pwr_time" where
  "time_plus t n period = word_of_int (trunc (of_int (sint t) + of_nat n * period * 1000000000))"

fun load_doubles :: "cell list \<Rightarrow> real list res" where
  "load_doubles [] = Inr []"
| "load_doubles (c # cs) = rbind (load_double c) (\<lambda>x. rbind (load_doubles cs) (\<lambda>xs. Inr (x # xs)))"

text \<open>
  The start time stamp is a local that stays unset (\<open>junk\<close>) when the samples could not be read; the values are then
  the zeros the vector was made with, and the window and the reduction are computed from them all the same.
\<close>

definition objGetValue ::
  "('s \<Rightarrow> pwr_time \<times> 's) \<Rightarrow> pwr_time \<Rightarrow> (string \<Rightarrow> 's object) \<Rightarrow> stat \<Rightarrow> string \<Rightarrow> period \<Rightarrow> 's \<times> net
   \<Rightarrow> ((int \<times> cell \<times> period) \<times> 's \<times> net) res" where
  "objGetValue clk junk obj st x p sn =
     (let start = (if p_start p = 0 then st_start st else p_start p);
          (stop, s) = (if p_stop p = 0 then if st_logging st then clk (fst sn) else (st_stop st, fst sn)
                       else (p_stop p, fst sn))
      in rbind (nSamples (st_period st) start stop) (\<lambda>n.
         rbind (dist_attrGetSamples (obj x) (st_attr st) (s, snd sn) (Some junk) (st_period st) n (replicate n (U64 0)))
           (\<lambda>((rc, ts, data), sn').
         let t = (case ts of None \<Rightarrow> junk | Some t \<Rightarrow> t)
         in rbind (load_doubles data) (\<lambda>xs. rbind (st_op st xs) (\<lambda>(v, pos).
            Inr ((rc, v, \<lparr>p_start = t, p_stop = time_plus t n (st_period st),
                         p_instant = (if - 1 < pos then time_plus t (nat pos) (st_period st) else 0)\<rparr>), sn'))))))"

text \<open>A statistic on a group has a null object here.\<close>

definition stat_getValue ::
  "('s \<Rightarrow> pwr_time \<times> 's) \<Rightarrow> pwr_time \<Rightarrow> (string \<Rightarrow> 's object) \<Rightarrow> stat \<Rightarrow> period \<Rightarrow> 's \<times> net
   \<Rightarrow> ((int \<times> cell \<times> period) \<times> 's \<times> net) res" where
  "stat_getValue clk junk obj st p sn =
     (case st_obj st of Some x \<Rightarrow> objGetValue clk junk obj st x p sn | None \<Rightarrow> Inl MemoryFault)"

fun values_loop ::
  "('s \<Rightarrow> pwr_time \<times> 's) \<Rightarrow> pwr_time \<Rightarrow> (string \<Rightarrow> 's object) \<Rightarrow> stat \<Rightarrow> string list \<Rightarrow> cell list \<Rightarrow> period list \<Rightarrow> 's \<times> net
   \<Rightarrow> ((int \<times> cell list \<times> period list) \<times> 's \<times> net) res" where
  "values_loop clk junk obj st [] vs ps sn = Inr ((RET_SUCCESS, vs, ps), sn)"
| "values_loop clk junk obj st (x # xs) (v # vs) (p # ps) sn =
     rbind (objGetValue clk junk obj st x p sn) (\<lambda>((rc, v', p'), sn').
     if rc \<noteq> RET_SUCCESS then Inr ((rc, v' # vs, p' # ps), sn')
     else rbind (values_loop clk junk obj st xs vs ps sn') (\<lambda>((rc', vs', ps'), sn'').
          Inr ((rc', v' # vs', p' # ps'), sn'')))"
| "values_loop clk junk obj st (x # xs) _ _ sn = Inl MemoryFault"

text \<open>A statistic on an object has a null group.\<close>

definition stat_getValues ::
  "('s \<Rightarrow> pwr_time \<times> 's) \<Rightarrow> pwr_time \<Rightarrow> (string \<Rightarrow> 's object) \<Rightarrow> stat \<Rightarrow> cell list \<Rightarrow> period list \<Rightarrow> 's \<times> net
   \<Rightarrow> ((int \<times> cell list \<times> period list) \<times> 's \<times> net) res" where
  "stat_getValues clk junk obj st vs ps sn =
     (if st_obj st \<noteq> None then Inl MemoryFault else values_loop clk junk obj st (st_grp st) vs ps sn)"

subsection \<open>What the reductions find\<close>

definition first_max :: "real list \<Rightarrow> nat \<Rightarrow> bool" where
  "first_max xs k \<longleftrightarrow> k < length xs \<and> (\<forall>x\<in>set xs. x \<le> xs ! k) \<and> (\<forall>x\<in>set (take k xs). x < xs ! k)"

lemma first_max_Max: "first_max xs k \<Longrightarrow> xs ! k = Max (set xs)"
  unfolding first_max_def by (intro Max_eqI [symmetric]) auto

lemma max_loop_first_max:
  "first_max zs pos \<Longrightarrow> max_loop (length zs) (zs ! pos) pos ys = (r, p) \<Longrightarrow>
   first_max (zs @ ys) p \<and> r = (zs @ ys) ! p"
proof (induction ys arbitrary: zs pos)
  case Nil
  then show ?case by auto
next
  case (Cons y ys)
  show ?case
  proof (cases "y > zs ! pos")
    case True
    then have "first_max (zs @ [y]) (length zs)"
      using Cons.prems(1) by (auto simp: first_max_def intro: less_imp_le le_less_trans)
    with Cons.IH [of "zs @ [y]" "length zs"] Cons.prems(2) True show ?thesis by simp
  next
    case False
    then have "first_max (zs @ [y]) pos" and "(zs @ [y]) ! pos = zs ! pos"
      using Cons.prems(1) by (auto simp: first_max_def nth_append)
    with Cons.IH [of "zs @ [y]" pos] Cons.prems(2) False show ?thesis by simp
  qed
qed

lemma opMax_spec:
  assumes "xs \<noteq> []"
  obtains k where "opMax xs = Inr (Dbl (Max (set xs)), int k)" and "first_max xs k"
proof -
  obtain x ys where xs: "xs = x # ys" using assms by (cases xs) auto
  obtain r p where rp: "max_loop 1 x 0 ys = (r, p)" by fastforce
  have "first_max [x] 0" by (simp add: first_max_def)
  from max_loop_first_max [OF this, of ys r p] rp have "first_max xs p \<and> r = xs ! p" by (simp add: xs)
  with rp first_max_Max [of xs p] that [of p] show thesis by (simp add: xs)
qed

text \<open>The least value is the negated greatest of the negated values.\<close>

lemma min_loop_max_loop:
  "min_loop i r pos ys = (let (m, p) = max_loop i (- r) pos (map uminus ys) in (- m, p))"
  by (induction ys arbitrary: i r pos) simp_all

lemma opMin_spec:
  assumes "xs \<noteq> []"
  obtains k where "opMin xs = Inr (Dbl (Min (set xs)), int k)" and "first_max (map uminus xs) k"
proof -
  from assms have "map uminus xs \<noteq> []" by simp
  from opMax_spec [OF this] obtain k
    where k: "opMax (map uminus xs) = Inr (Dbl (Max (uminus ` set xs)), int k)" "first_max (map uminus xs) k"
    by auto
  have "Max (uminus ` set xs) = - Min (set xs)"
    using assms by (intro Max_eqI) (auto intro: Min_in)
  with k(1) have "opMin xs = Inr (Dbl (Min (set xs)), int k)"
    using assms by (cases xs) (auto simp: min_loop_max_loop image_image split: prod.splits)
  with k(2) that show thesis by blast
qed

lemma foldl_plus_sum_list: "foldl (+) a xs = a + sum_list (xs :: real list)"
  by (induction xs arbitrary: a) simp_all

lemma opAvg_spec: "xs \<noteq> [] \<Longrightarrow> opAvg xs = Inr (Dbl (sum_list xs / real (length xs)), - 1)"
  by (simp add: opAvg_def foldl_plus_sum_list)

subsection \<open>A run of a statistic\<close>

lemma trunc_of_int [simp]: "trunc (of_int k) = k"
  by (simp add: trunc_def)

text \<open>At the fixed period a sample is 100,000,000 nanoseconds.\<close>

lemma time_plus_tenth: "time_plus t n (1 / 10) = t + of_nat n * 100000000"
proof -
  have "of_int (sint t) + of_nat n * (1 / 10) * 1000000000 = (of_int (sint t + int n * 100000000) :: real)"
    by simp
  then show ?thesis
    unfolding time_plus_def by (simp only: trunc_of_int) simp
qed

lemma trunc_tenth: "0 \<le> d \<Longrightarrow> trunc (of_int d / 1000000000 / (1 / 10)) = d div 100000000"
  using floor_divide_of_int_eq [where ?'a = real, of d 100000000] by (simp add: trunc_def not_less)

lemma nSamples_tenth:
  assumes "0 \<le> sint (stop - start)" and "sint (stop - start) < 2 ^ 32 * 100000000"
  shows "nSamples (1 / 10) start stop = Inr (nat (sint (stop - start) div 100000000))"
proof -
  have "sint (stop - start) div 100000000 < 2 ^ 32" using assms(2) by simp
  moreover have "0 \<le> sint (stop - start) div 100000000" using assms(1) by (simp add: pos_imp_zdiv_nonneg_iff)
  ultimately show ?thesis unfolding nSamples_def Let_def trunc_tenth [OF assms(1)] by simp
qed

lemma load_doubles_Dbl [simp]: "load_doubles (map Dbl xs) = Inr xs"
  by (induction xs) simp_all

lemma add_samples_zero [simp]: "add_samples (replicate (length xs) (U64 0)) (map Dbl xs) = Inr (map Dbl xs)"
  by (induction xs) (simp_all add: add_bits_def)

lemma createStat_objE:
  assumes "createStat_obj strtof cf kids obj x a sop = Some st" and "devices (attrInfo (obj x) a) = [d]"
    and "getOp (attrStatToString sop) = Some f"
  obtains hz where "st = new_stat (Some x) [] a f hz" and "comm (attrInfo (obj x) a) = None"
  using assms by (auto simp: createStat_obj_def stat_of_obj_def Let_def split: if_splits)

lemma getOp_names [simp]:
  "getOp (attrStatToString STAT_MAX) = Some opMax" "getOp (attrStatToString STAT_MIN) = Some opMin"
  "getOp (attrStatToString STAT_AVG) = Some opAvg" "getOp (attrStatToString STAT_SUM) = None"
  "getOp (attrStatToString STAT_STDEV) = None" "getOp (attrStatToString STAT_CV) = None"
  by (simp_all add: getOp_def)

text \<open>A statistic that has run from \<open>t0\<close> to \<open>t1\<close>, whatever it computes.\<close>

definition ran :: "stat \<Rightarrow> pwr_time \<Rightarrow> pwr_time \<Rightarrow> stat" where
  "ran st t0 t1 = st\<lparr>st_period := 1 / 10, st_start := t0, st_stop := t1, st_logging := False\<rparr>"

text \<open>An attribute with one device and no remote part.\<close>

definition one_device :: "'s object \<Rightarrow> attr \<Rightarrow> 's devops \<Rightarrow> bool" where
  "one_device ob a d \<longleftrightarrow> devices (attrInfo ob a) = [d] \<and> comm (attrInfo ob a) = None"

lemma stat_start_local:
  assumes "one_device (obj x) a d" and "st_obj st = Some x" and "st_attr st = a"
    and "clk s = (t0, s1)" and "startLog d s1 a = Inr (RET_SUCCESS, s2)"
  shows "stat_start clk look obj st (s, n) =
     Inr ((RET_SUCCESS, st\<lparr>st_logging := True, st_start := t0, st_period := 1 / 10\<rparr>), s2, n)"
  using assms
  by (simp add: stat_start_def stat_log_def dist_attrStartLog_def dist_log_def attrStartLog_def one_device_def isValid_def)

lemma stat_stop_local:
  assumes "one_device (obj x) a d" and "st_obj st = Some x" and "st_attr st = a"
    and "clk s = (t1, s1)" and "stopLog d s1 a = Inr (RET_SUCCESS, s2)"
  shows "stat_stop clk look obj st (s, n) = Inr ((RET_SUCCESS, st\<lparr>st_logging := False, st_stop := t1\<rparr>), s2, n)"
  using assms
  by (simp add: stat_stop_def stat_log_def dist_attrStopLog_def dist_log_def attrStopLog_def one_device_def isValid_def)

lemma stat_getValue_local:
  assumes "one_device (obj x) a d" and "st_obj st = Some x" and "st_attr st = a" and "st_op st xs = Inr (v, pos)"
    and "getSamples d s a (1 / 10) (length xs) (replicate (length xs) (U64 0)) =
      Inr ((RET_SUCCESS, Some t, n', map Dbl xs), s')"
    and "0 \<le> sint (t1 - t0)" and "sint (t1 - t0) div 100000000 = int (length xs)" and "length xs < 2 ^ 32"
  shows "stat_getValue clk junk obj (ran st t0 t1) \<lparr>p_start = 0, p_stop = 0, p_instant = u\<rparr> (s, n) =
    Inr ((RET_SUCCESS, v, \<lparr>p_start = t, p_stop = t + of_nat (length xs) * 100000000,
            p_instant = (if - 1 < pos then t + of_nat (nat pos) * 100000000 else 0)\<rparr>), s', n)"
proof -
  have "sint (t1 - t0) < 2 ^ 32 * 100000000" using assms(7,8) by simp
  from nSamples_tenth [OF assms(6) this] have "nSamples (1 / 10) t0 t1 = Inr (length xs)"
    by (simp only: assms(7) nat_int)
  then show ?thesis
    using assms(1-5)
    by (simp add: stat_getValue_def objGetValue_def ran_def dist_attrGetSamples_def attrGetSamples_def one_device_def
        isValid_def time_plus_tenth [unfolded times_divide_eq_right])
qed


text \<open>
  A dummy device sampled for 0.2 seconds of a clock that advances by 0.1 seconds a call, in a context that is configured
  for one sample per second.
\<close>

definition st_demo_os :: os where
  "st_demo_os = du_demo_os\<lparr>clock := (\<lambda>k. \<lparr>tv_sec = 0, tv_usec = int k * 100000\<rparr>)\<rparr>"

definition st_demo_dev :: "dummy_state devops" where
  "st_demo_dev = dummy_ops (\<lambda>_ i. if i = 0 then 0 else RAND_MAX)"

definition st_demo_obj :: "dummy_state object" where
  "st_demo_obj = \<lparr>o_name = ''core'', o_type = OBJ_CORE,
     attrInfo = (\<lambda>_. \<lparr>devices = [st_demo_dev], comm = None, operation = Some sumOp, calcTime = timeOp, valueOp = FP_ADD\<rparr>)\<rparr>"

definition st_demo_config :: config where
  "st_demo_config = \<lparr>findParent = (\<lambda>_. []), findAttrHz = (\<lambda>_ _. ''1''), findAttrOp = (\<lambda>_ _. ''SUM''),
     findAttrType = (\<lambda>_ _. []), findAttrChildren = (\<lambda>_ _. []), findChildren = (\<lambda>_. []), hasServer = (\<lambda>_. False),
     findObjDevs = (\<lambda>_ _. []), findPlugins = [], findSysDevs = [], objType = (\<lambda>_. Some OBJ_CORE)\<rparr>"

definition st_demo_clk :: "dummy_state \<Rightarrow> pwr_time \<times> dummy_state" where
  "st_demo_clk s = (let (t, w) = stat_getTime (snd s) in (t, (fst s, w)))"

definition st_demo_fd :: dummy_fd where
  "st_demo_fd = \<lparr>du_value = (\<lambda>_. None), du_stamp = (\<lambda>_. None), lastAccess = 0\<rparr>"

definition st_at :: "dummy_fd \<Rightarrow> nat \<Rightarrow> dummy_state" where
  "st_at f k = (f, st_demo_os\<lparr>ticks := k\<rparr>)"

definition st_demo_fd' :: dummy_fd where
  "st_demo_fd' = st_demo_fd\<lparr>du_stamp := [ATTR_POWER \<mapsto> 100000000]\<rparr>"


end
