(* ===== verification/Pwr_Hint.thy ===== *)
theory Pwr_Hint
  imports Pwr_Context Toilet_Dev "HOL-Library.Signed_Division"
begin

text \<open>
  The hints of \<^verbatim>\<open>src/pwr/pwr.cc\<close> on the regions of an application (\<^verbatim>\<open>PWR_AppHintCreate\<close>, \<^verbatim>\<open>PWR_AppHintStart\<close>,
  \<^verbatim>\<open>PWR_AppHintStop\<close>, \<^verbatim>\<open>PWR_AppHintDestroy\<close>), with the calls on objects they make, and what they do to the
  frequency files of cores that the toilet plugin serves.
\<close>

subsection \<open>State\<close>

datatype region_hint =
    REGION_DEFAULT | REGION_SERIAL | REGION_PARALLEL | REGION_COMPUTE | REGION_COMMUNICATE | REGION_IO
  | REGION_MEM_BOUND | NUM_REGION_HINTS | REGION_INVALID | REGION_NOT_SPECIFIED

text \<open>
  The globals \<open>region_id_counter\<close> and \<open>region_id_map\<close>, whose keys are 32 bits wide.  A null object pointer is
  \<open>None\<close>.  An object keeps the group of its children once it is made (\<open>ap_kids\<close>).
\<close>

record hints =
  region_id_counter :: "64 word"
  region_id_map :: "32 word \<rightharpoonup> string option \<times> region_hint"

record ('o, 's) api =
  ap_cx :: "('o, 's) cntxt"
  ap_kids :: "string \<rightharpoonup> string list"
  ap_st :: 's
  ap_net :: net
  ap_hints :: hints

definition PWR_ObjGetChildren :: "nat \<Rightarrow> string \<Rightarrow> ('o, 's) api \<Rightarrow> (string list \<times> ('o, 's) api) res" where
  "PWR_ObjGetChildren k x ap =
     (case ap_kids ap x of
        Some g \<Rightarrow> Inr (g, ap)
      | None \<Rightarrow> rbind (getChildren k x (ap_cx ap, ap_st ap)) (\<lambda>(g, (cx, s)).
          Inr (g, ap\<lparr>ap_cx := cx, ap_kids := (ap_kids ap)(x \<mapsto> g), ap_st := s\<rparr>)))"

text \<open>The value is passed by address: what a device leaves there is what the next call writes.\<close>

definition PWR_ObjAttrSetValue ::
  "(string \<Rightarrow> string option) \<Rightarrow> string \<Rightarrow> attr \<Rightarrow> cell \<times> ('o, 's) api \<Rightarrow> (int \<times> cell \<times> ('o, 's) api) res" where
  "PWR_ObjAttrSetValue look x a va =
     (let (v, ap) = va in
      rbind (dist_attrSetValue look (obj_of (ap_cx ap) x) a (ap_st ap, ap_net ap) v) (\<lambda>((rc, vs), (s, n)).
      Inr (rc, hd vs, ap\<lparr>ap_st := s, ap_net := n\<rparr>)))"

text \<open>A call whose result is ignored.\<close>

definition set_quietly ::
  "(string \<Rightarrow> string option) \<Rightarrow> attr \<Rightarrow> string \<Rightarrow> cell \<times> ('o, 's) api \<Rightarrow> (cell \<times> ('o, 's) api) res" where
  "set_quietly look a x va = rbind (PWR_ObjAttrSetValue look x a va) (\<lambda>(_, va'). Inr va')"

text \<open>\<^verbatim>\<open>PWR_ObjGetName\<close>: the bytes written, padded with null bytes, and whether the name had to be cut.\<close>

definition PWR_ObjGetName :: "string \<Rightarrow> nat \<Rightarrow> int \<times> string" where
  "PWR_ObjGetName name len =
     (let buf = take len (name @ replicate len (CHR 0x00))
      in (if unat (of_nat len - 1 :: 64 word) < length name then RET_WARN_TRUNC else RET_SUCCESS, buf))"

definition PWR_TimeConvert :: "pwr_time \<Rightarrow> int \<times> pwr_time" where
  "PWR_TimeConvert t = (RET_SUCCESS, word_of_int (sint t sdiv 1000000000))"

subsection \<open>Hints\<close>

definition PWR_AppHint :: "string \<Rightarrow> region_hint \<Rightarrow> int" where
  "PWR_AppHint x h = RET_FAILURE"

text \<open>\<^verbatim>\<open>insert\<close> does not replace an entry.\<close>

definition PWR_AppHintCreate ::
  "string \<Rightarrow> region_hint \<Rightarrow> ('o, 's) api \<Rightarrow> (int \<times> 64 word) \<times> ('o, 's) api" where
  "PWR_AppHintCreate x h ap =
     (let hs = ap_hints ap; i = region_id_counter hs; m = region_id_map hs;
          m' = (if m (ucast i) = None then m(ucast i \<mapsto> (Some x, h)) else m)
      in ((RET_SUCCESS, i), ap\<lparr>ap_hints := \<lparr>region_id_counter = i + 1, region_id_map = m'\<rparr>\<rparr>))"

text \<open>\<^verbatim>\<open>region_id_map[id]\<close> makes an entry with a null object when there is none.\<close>

definition hint_entry :: "64 word \<Rightarrow> ('o, 's) api \<Rightarrow> (string option \<times> region_hint) \<times> ('o, 's) api" where
  "hint_entry i ap =
     (let hs = ap_hints ap
      in case region_id_map hs (ucast i) of
           Some e \<Rightarrow> (e, ap)
         | None \<Rightarrow>
             ((None, REGION_DEFAULT),
              ap\<lparr>ap_hints := hs\<lparr>region_id_map := (region_id_map hs)(ucast i \<mapsto> (None, REGION_DEFAULT))\<rparr>\<rparr>))"

text \<open>One value for all children, in one variable.\<close>

definition set_children ::
  "nat \<Rightarrow> (string \<Rightarrow> string option) \<Rightarrow> attr \<Rightarrow> cell \<Rightarrow> string option \<Rightarrow> ('o, 's) api \<Rightarrow> ('o, 's) api res" where
  "set_children k look a v x ap =
     (case x of
        None \<Rightarrow> Inl MemoryFault
      | Some x \<Rightarrow>
          rbind (PWR_ObjGetChildren k x ap) (\<lambda>(g, ap').
          rbind (run_all (set_quietly look a) g (v, ap')) (\<lambda>(_, ap''). Inr ap'')))"

definition PWR_AppHintStart ::
  "nat \<Rightarrow> (string \<Rightarrow> string option) \<Rightarrow> 64 word \<Rightarrow> ('o, 's) api \<Rightarrow> (int \<times> ('o, 's) api) res" where
  "PWR_AppHintStart k look i ap =
     (let ((x, h), ap1) = hint_entry i ap
      in case h of
           REGION_SERIAL \<Rightarrow> Inr (RET_SUCCESS, ap1)
         | REGION_PARALLEL \<Rightarrow> Inr (RET_SUCCESS, ap1)
         | REGION_COMPUTE \<Rightarrow>
             rbind (set_children k look ATTR_FREQ_LIMIT_MAX (U64 3200000) x ap1) (\<lambda>ap2. Inr (RET_SUCCESS, ap2))
         | REGION_COMMUNICATE \<Rightarrow> Inr (RET_SUCCESS, ap1)
         | REGION_IO \<Rightarrow> Inr (RET_SUCCESS, ap1)
         | REGION_MEM_BOUND \<Rightarrow>
             rbind (set_children k look ATTR_FREQ_LIMIT_MAX (U64 2600000) x ap1) (\<lambda>ap2. Inr (RET_SUCCESS, ap2))
         | _ \<Rightarrow> Inl AssertFailed)"

text \<open>Stopping sets the governor of every child twice, from a variable of its own.\<close>

definition stop_core ::
  "(string \<Rightarrow> string option) \<Rightarrow> string \<Rightarrow> ('o, 's) api \<Rightarrow> ('o, 's) api res" where
  "stop_core look x ap =
     rbind (set_quietly look ATTR_GOV x (I32 (gov_code GOV_SCHEDUTIL), ap)) (\<lambda>va.
     rbind (set_quietly look ATTR_GOV x va) (\<lambda>(_, ap'). Inr ap'))"

definition PWR_AppHintStop ::
  "nat \<Rightarrow> (string \<Rightarrow> string option) \<Rightarrow> 64 word \<Rightarrow> ('o, 's) api \<Rightarrow> (int \<times> ('o, 's) api) res" where
  "PWR_AppHintStop k look i ap =
     (let ((x, _), ap1) = hint_entry i ap
      in case x of
           None \<Rightarrow> Inl MemoryFault
         | Some x \<Rightarrow>
             rbind (PWR_ObjGetChildren k x ap1) (\<lambda>(g, ap2).
             rbind (run_all (stop_core look) g ap2) (\<lambda>ap3. Inr (RET_SUCCESS, ap3))))"

definition destroy_core ::
  "(string \<Rightarrow> string option) \<Rightarrow> string \<Rightarrow> ('o, 's) api \<Rightarrow> ('o, 's) api res" where
  "destroy_core look x ap =
     rbind (set_quietly look ATTR_GOV x (I32 (gov_code GOV_SCHEDUTIL), ap)) (\<lambda>(_, ap'). Inr ap')"

definition PWR_AppHintDestroy ::
  "nat \<Rightarrow> (string \<Rightarrow> string option) \<Rightarrow> 64 word \<Rightarrow> ('o, 's) api \<Rightarrow> (int \<times> ('o, 's) api) res" where
  "PWR_AppHintDestroy k look i ap =
     (let ((x, _), ap1) = hint_entry i ap
      in case x of
           None \<Rightarrow> Inl MemoryFault
         | Some x \<Rightarrow>
             rbind (PWR_ObjGetChildren k x ap1) (\<lambda>(g, ap2).
             rbind (run_all (destroy_core look) g ap2) (\<lambda>ap3.
             Inr (RET_SUCCESS, ap3\<lparr>ap_hints := (ap_hints ap3)
                    \<lparr>region_id_map := (region_id_map (ap_hints ap3))(ucast i := None)\<rparr>\<rparr>))))"

subsection \<open>Names\<close>

text \<open>A name is reported as cut exactly when its terminator did not fit, except in a buffer of no bytes.\<close>

lemma PWR_ObjGetName_complete:
  assumes "0 < len" and "len < 2 ^ 64"
  shows "fst (PWR_ObjGetName name len) = RET_SUCCESS \<longleftrightarrow> strncpy len name = Some name"
proof -
  have "of_nat len - 1 = (of_nat (len - 1) :: 64 word)" using assms(1) by (simp add: of_nat_diff)
  moreover have "unat (of_nat (len - 1) :: 64 word) = len - 1"
    using assms(2) by (subst unat_of_nat) simp
  ultimately have "unat (of_nat len - 1 :: 64 word) = len - 1" by simp
  then show ?thesis using assms(1) by (auto simp: PWR_ObjGetName_def strncpy_def Let_def ret_defs)
qed

lemma PWR_ObjGetName_empty_buffer: "length name < 2 ^ 64 \<Longrightarrow> PWR_ObjGetName name 0 = (RET_SUCCESS, [])"
  by (simp add: PWR_ObjGetName_def unsigned_minus_1_eq_mask mask_eq_exp_minus_1 not_less)

subsection \<open>Cores of the toilet plugin\<close>

text \<open>\<open>x\<close> is a local object whose limit and governor go to descriptor \<open>i\<close> of the plugin, which is that of a core.\<close>

definition toilet_core :: "string \<Rightarrow> int \<Rightarrow> toilet_fd list \<Rightarrow> (toilet_fd list \<times> os) object \<Rightarrow> nat \<Rightarrow> bool" where
  "toilet_core junk reg fs ob i \<longleftrightarrow> i < length fs \<and> t_type (fs ! i) \<noteq> 1 \<and>
     (\<forall>a\<in>{ATTR_FREQ_LIMIT_MAX, ATTR_GOV}.
        devices (attrInfo ob a) = [nth_dev (toilet_ops junk reg) i] \<and> comm (attrInfo ob a) = None)"

definition core_files :: "toilet_fd \<Rightarrow> os \<Rightarrow> bool" where
  "core_files fd w \<longleftrightarrow> keeps_text w \<and>
     (\<forall>f\<in>{''scaling_max_freq'', ''scaling_min_freq'', ''scaling_governor''}. writable w (cpufreq_path (t_num fd) f))"

lemma core_files_after: "core_files fd w \<Longrightarrow> core_files fd (after_puts junk w ps)"
  by (auto simp: core_files_def intro: writable_after)

lemma toilet_limit_eq:
  assumes "t_type fd \<noteq> 1" and "core_files fd w" and "unat x < 10 ^ 19"
  shows "toilet_write junk reg (fd, w) ATTR_FREQ_LIMIT_MAX (U64 x) 8 = Inr ((RET_SUCCESS, U64 x),
    (fd, after_puts junk w [(cpufreq_path (t_num fd) ''scaling_max_freq'', show_nat (unat x))]))"
proof -
  let ?p = "cpufreq_path (t_num fd) ''scaling_max_freq''"
  have "toilet_write_path fd ATTR_FREQ_LIMIT_MAX = Some ?p" using assms(1) by (simp add: toilet_write_path_def)
  moreover have "toilet_text fd ATTR_FREQ_LIMIT_MAX (U64 x) = Inr (show_nat (unat x), [])"
    using sprintf_lu_20_ok [OF assms(3)] by (simp add: toilet_text_def)
  moreover have "put_file junk w ?p (show_nat (unat x)) = (True, after_puts junk w [(?p, show_nat (unat x))])"
    using assms sprintf_lu_20_ok [OF assms(3)] by (intro put_file_writable) (auto simp: core_files_def)
  ultimately show ?thesis using toilet_write_other [where a = ATTR_FREQ_LIMIT_MAX and rs = "[]"] by simp
qed

definition gov_writes :: "toilet_fd \<Rightarrow> gov \<Rightarrow> (string \<times> string) list" where
  "gov_writes fd g =
     (if g = GOV_USERSPACE then [] else default_limits fd) @ [(cpufreq_path (t_num fd) ''scaling_governor'', gov_str g)]"

lemma toilet_gov_eq:
  assumes "t_type fd \<noteq> 1" and "core_files fd w"
  shows "toilet_write junk reg (fd, w) ATTR_GOV (I32 (gov_code g)) 8 =
    Inr ((RET_SUCCESS, I32 (gov_code g)), (fd, after_puts junk w (gov_writes fd g)))"
proof -
  let ?gp = "cpufreq_path (t_num fd) ''scaling_governor''"
  let ?rs = "if g = GOV_USERSPACE then [] else default_limits fd"
  have r1: "put_files junk w ?rs = (True, after_puts junk w ?rs)"
    using assms(2) by (intro put_files_ok) (auto simp: core_files_def default_limits_def)
  have r2: "put_file junk (after_puts junk w ?rs) ?gp (gov_str g) = (True, after_puts junk w (?rs @ [(?gp, gov_str g)]))"
    using put_file_writable [of "after_puts junk w ?rs" ?gp "gov_str g" junk] assms(2)
    by (simp add: writable_after after_puts_append core_files_def)
  have "toilet_write_path fd ATTR_GOV = Some ?gp" using assms(1) by (simp add: toilet_write_path_def)
  moreover have "toilet_text fd ATTR_GOV (I32 (gov_code g)) = Inr (gov_str g, ?rs)"
    by (simp add: toilet_text_def gov_text_code)
  ultimately show ?thesis using toilet_write_other [OF _ _ _ r1 r2] by (simp add: gov_writes_def)
qed

text \<open>A write to a local object with one device is the write of the device.\<close>

lemma set_quietly_device:
  assumes "devices (attrInfo (obj_of (ap_cx ap) x) a) = [d]" and "comm (attrInfo (obj_of (ap_cx ap) x) a) = None"
    and "setValue d (ap_st ap) a v 8 = Inr ((RET_SUCCESS, v'), s')"
  shows "set_quietly look a x (v, ap) = Inr (v', ap\<lparr>ap_st := s'\<rparr>)"
proof -
  have "arr_get [v] 0 = Inr v" by (simp add: arr_get_ok)
  with assms have "attrSetValues (obj_of (ap_cx ap) x) [a] (ap_st ap) [v] [] = Inr ((RET_SUCCESS, [v'], []), s')"
    by (simp add: attrSetValues_def isValid_def status_ret_def status_empty_def)
  moreover have "RET_SUCCESS \<noteq> RET_STATUS" by (simp add: ret_defs)
  ultimately show ?thesis
    using assms(2)
    by (simp add: set_quietly_def PWR_ObjAttrSetValue_def dist_attrSetValue_def dist_attrSetValues_def same_comm_def
        status_ret_def status_empty_def)
qed

lemma set_quietly_toilet:
  assumes "toilet_core junk reg (fst (ap_st ap)) (obj_of (ap_cx ap) x) i" and "a \<in> {ATTR_FREQ_LIMIT_MAX, ATTR_GOV}"
    and "toilet_write junk reg (fst (ap_st ap) ! i, snd (ap_st ap)) a v 8 =
      Inr ((RET_SUCCESS, v), (fst (ap_st ap) ! i, w'))"
  shows "set_quietly look a x (v, ap) = Inr (v, ap\<lparr>ap_st := (fst (ap_st ap), w')\<rparr>)"
proof (rule set_quietly_device)
  show "devices (attrInfo (obj_of (ap_cx ap) x) a) = [nth_dev (toilet_ops junk reg) i]"
    and "comm (attrInfo (obj_of (ap_cx ap) x) a) = None"
    using assms(1,2) by (auto simp: toilet_core_def)
  obtain fs w where s: "ap_st ap = (fs, w)" by (cases "ap_st ap")
  then have "i < length fs" using assms(1) by (simp add: toilet_core_def)
  from setValue_nth_dev [OF this, of "toilet_ops junk reg" w a v 8] assms(3)
  show "setValue (nth_dev (toilet_ops junk reg) i) (ap_st ap) a v 8 = Inr ((RET_SUCCESS, v), (fst (ap_st ap), w'))"
    by (simp add: s toilet_ops_def)
qed
subsection \<open>A region from start to stop\<close>

definition all_cores ::
  "string \<Rightarrow> int \<Rightarrow> toilet_fd list \<Rightarrow> os \<Rightarrow> (string \<Rightarrow> nat) \<Rightarrow> ('o, toilet_fd list \<times> os) api \<Rightarrow> string list \<Rightarrow> bool" where
  "all_cores junk reg fs w ix ap g \<longleftrightarrow> ap_st ap = (fs, w) \<and>
     (\<forall>c\<in>set g. toilet_core junk reg fs (obj_of (ap_cx ap) c) (ix c) \<and> core_files (fs ! ix c) w)"

lemma all_cores_Cons:
  "all_cores junk reg fs w ix ap (c # g) \<Longrightarrow>
   all_cores junk reg fs (after_puts junk w ps) ix (ap\<lparr>ap_st := (fs, after_puts junk w ps)\<rparr>) g"
  by (auto simp: all_cores_def core_files_after)

definition limit_writes :: "64 word \<Rightarrow> toilet_fd \<Rightarrow> (string \<times> string) list" where
  "limit_writes x fd = [(cpufreq_path (t_num fd) ''scaling_max_freq'', show_nat (unat x))]"

definition stop_writes :: "toilet_fd \<Rightarrow> (string \<times> string) list" where
  "stop_writes fd = gov_writes fd GOV_SCHEDUTIL @ gov_writes fd GOV_SCHEDUTIL"

lemma run_limits:
  "all_cores junk reg fs w ix ap g \<Longrightarrow> unat x < 10 ^ 19 \<Longrightarrow>
   run_all (set_quietly look ATTR_FREQ_LIMIT_MAX) g (U64 x, ap) =
     Inr (U64 x, ap\<lparr>ap_st := (fs, after_puts junk w (concat (map (\<lambda>c. limit_writes x (fs ! ix c)) g)))\<rparr>)"
proof (induction g arbitrary: ap w)
  case Nil
  then show ?case by (cases ap) (simp add: all_cores_def after_puts_def)
next
  case (Cons c g)
  then have s: "ap_st ap = (fs, w)" and c: "toilet_core junk reg fs (obj_of (ap_cx ap) c) (ix c)"
    and f: "core_files (fs ! ix c) w" and "t_type (fs ! ix c) \<noteq> 1"
    by (auto simp: all_cores_def toilet_core_def)
  from toilet_limit_eq [OF this(4) f Cons.prems(2), where junk = junk and reg = reg]
  have "set_quietly look ATTR_FREQ_LIMIT_MAX c (U64 x, ap) =
      Inr (U64 x, ap\<lparr>ap_st := (fs, after_puts junk w (limit_writes x (fs ! ix c)))\<rparr>)"
    using set_quietly_toilet [of junk reg ap c "ix c" ATTR_FREQ_LIMIT_MAX "U64 x"] c by (simp add: s limit_writes_def)
  then show ?case
    using Cons.IH [OF all_cores_Cons [OF Cons.prems(1)] Cons.prems(2)] by (simp add: after_puts_append)
qed

lemma run_stops:
  "all_cores junk reg fs w ix ap g \<Longrightarrow>
   run_all (stop_core look) g ap =
     Inr (ap\<lparr>ap_st := (fs, after_puts junk w (concat (map (\<lambda>c. stop_writes (fs ! ix c)) g)))\<rparr>)"
proof (induction g arbitrary: ap w)
  case Nil
  then show ?case by (cases ap) (simp add: all_cores_def after_puts_def)
next
  case (Cons c g)
  then have s: "ap_st ap = (fs, w)" and c: "toilet_core junk reg fs (obj_of (ap_cx ap) c) (ix c)"
    and f: "core_files (fs ! ix c) w" and t: "t_type (fs ! ix c) \<noteq> 1"
    by (auto simp: all_cores_def toilet_core_def)
  let ?v = "I32 (gov_code GOV_SCHEDUTIL)" and ?ws = "gov_writes (fs ! ix c) GOV_SCHEDUTIL"
  have one: "set_quietly look ATTR_GOV c (?v, ap\<lparr>ap_st := (fs, after_puts junk w ps)\<rparr>) =
      Inr (?v, ap\<lparr>ap_st := (fs, after_puts junk w (ps @ ?ws))\<rparr>)" for ps
    using set_quietly_toilet [of junk reg "ap\<lparr>ap_st := (fs, after_puts junk w ps)\<rparr>" c "ix c" ATTR_GOV ?v] c
      toilet_gov_eq [OF t core_files_after [OF f], where junk = junk and reg = reg and g = GOV_SCHEDUTIL]
    by (simp add: after_puts_append del: gov_code.simps)
  have "ap\<lparr>ap_st := (fs, after_puts junk w [])\<rparr> = ap" using s by (cases ap) (simp add: after_puts_def)
  with one [of "[]"] one [of ?ws]
  have "stop_core look c ap = Inr (ap\<lparr>ap_st := (fs, after_puts junk w (stop_writes (fs ! ix c)))\<rparr>)"
    by (simp add: stop_core_def stop_writes_def del: gov_code.simps)
  then show ?case using Cons.IH [OF all_cores_Cons [OF Cons.prems(1)]] by (simp add: after_puts_append)
qed

lemma PWR_ObjGetChildren_cached:
  "PWR_ObjGetChildren k x ap = Inr (g, ap') \<Longrightarrow>
   ap_hints ap' = ap_hints ap \<and> PWR_ObjGetChildren k x (ap'\<lparr>ap_st := s\<rparr>) = Inr (g, ap'\<lparr>ap_st := s\<rparr>)"
  by (cases "ap_kids ap x") (auto simp: PWR_ObjGetChildren_def rbind_eq_Inr_iff)

lemma hint_entry_created:
  "PWR_AppHintCreate x h ap = ((rc, i), ap0) \<Longrightarrow>
   region_id_map (ap_hints ap) (ucast (region_id_counter (ap_hints ap))) = None \<Longrightarrow> ap_hints ap1 = ap_hints ap0 \<Longrightarrow>
   hint_entry i ap1 = ((Some x, h), ap1)"
  by (auto simp: PWR_AppHintCreate_def hint_entry_def Let_def)

lemma plain_writes:
  "unat x < 10 ^ 19 \<Longrightarrow> \<forall>(p, s)\<in>set (concat (map (\<lambda>c. limit_writes x (f c)) g)). plain_text s"
  "\<forall>(p, s)\<in>set (concat (map (\<lambda>c. stop_writes (f c)) g)). plain_text s"
  using sprintf_lu_20_ok [of x]
  by (auto simp: limit_writes_def stop_writes_def gov_writes_def default_limits_def simp del: gov_str.simps)

text \<open>
  C18. The life of a region on a socket whose cores the toilet plugin serves.  Starting a memory-bound region writes
  2600000 to the upper frequency limit of every child, a compute region 3200000, and nothing else; stopping it writes
  to every child, twice, the limits 3200000 and 1600000 and the governor schedutil, whatever they were before the
  region.  Both report success.
\<close>

theorem hint_region_writes:
  assumes "PWR_AppHintCreate sock h ap = ((rc, i), ap0)"
    and "region_id_map (ap_hints ap) (ucast (region_id_counter (ap_hints ap))) = None"
    and "(h, x) \<in> {(REGION_COMPUTE, 3200000), (REGION_MEM_BOUND, 2600000)}"
    and "PWR_ObjGetChildren k sock ap0 = Inr (g, ap1)" and "all_cores junk reg fs w ix ap1 g"
  shows "\<exists>ap2 ap3 w2 w3.
    PWR_AppHintStart k look i ap0 = Inr (RET_SUCCESS, ap2) \<and> ap_st ap2 = (fs, w2) \<and>
    PWR_AppHintStop k look i ap2 = Inr (RET_SUCCESS, ap3) \<and> ap_st ap3 = (fs, w3) \<and>
    new_writes w w2 = map (\<lambda>c. (cpufreq_path (t_num (fs ! ix c)) ''scaling_max_freq'', show_nat (unat (x :: 64 word)))) g \<and>
    new_writes w2 w3 = concat (map (\<lambda>c. let p = cpufreq_path (t_num (fs ! ix c)) in
      concat (replicate 2 [(p ''scaling_max_freq'', ''3200000''), (p ''scaling_min_freq'', ''1600000''),
        (p ''scaling_governor'', ''schedutil'')])) g)"
proof -
  let ?w2 = "after_puts junk w (concat (map (\<lambda>c. limit_writes x (fs ! ix c)) g))"
  let ?w3 = "after_puts junk ?w2 (concat (map (\<lambda>c. stop_writes (fs ! ix c)) g))"
  let ?ap2 = "ap1\<lparr>ap_st := (fs, ?w2)\<rparr>"
  have ux: "unat x < 10 ^ 19" using assms(3) by auto
  note kids = PWR_ObjGetChildren_cached [OF assms(4)]
  note entry = hint_entry_created [OF assms(1,2)]
  have "set_children k look ATTR_FREQ_LIMIT_MAX (U64 x) (Some sock) ap0 = Inr ?ap2"
    using run_limits [OF assms(5) ux, of look] by (simp add: set_children_def assms(4))
  then have "PWR_AppHintStart k look i ap0 = Inr (RET_SUCCESS, ?ap2)"
    using entry [of ap0] assms(3) by (auto simp: PWR_AppHintStart_def)
  moreover have "all_cores junk reg fs ?w2 ix ?ap2 g"
    using assms(5) by (simp add: all_cores_def core_files_after)
  from run_stops [OF this, of look] have "PWR_AppHintStop k look i ?ap2 = Inr (RET_SUCCESS, ap1\<lparr>ap_st := (fs, ?w3)\<rparr>)"
    using entry [of ?ap2] kids by (simp add: PWR_AppHintStop_def)
  moreover have "new_writes w ?w2 = concat (map (\<lambda>c. limit_writes x (fs ! ix c)) g)"
    by (rule new_writes_after) (rule plain_writes(1) [OF ux])
  moreover have "new_writes ?w2 ?w3 = concat (map (\<lambda>c. stop_writes (fs ! ix c)) g)"
    by (rule new_writes_after) (rule plain_writes(2))
  moreover have "concat (map (\<lambda>c. limit_writes x (fs ! ix c)) g) =
      map (\<lambda>c. (cpufreq_path (t_num (fs ! ix c)) ''scaling_max_freq'', show_nat (unat x))) g"
    by (induction g) (simp_all add: limit_writes_def)
  ultimately show ?thesis
    by (simp add: stop_writes_def gov_writes_def default_limits_def numeral_2_eq_2 Let_def)
qed

text \<open>A node with two cores on a system whose files keep what is written.\<close>

definition hint_os :: os where
  "hint_os = du_demo_os\<lparr>files := (\<lambda>_. Some (Regular ''0'')), can_write := (\<lambda>_. True),
     store := (\<lambda>_ d _. Some (cstr d @ [newline]))\<rparr>"

definition hint_obj :: "string \<Rightarrow> nat \<Rightarrow> (toilet_fd list \<times> os) object" where
  "hint_obj name i = \<lparr>o_name = name, o_type = OBJ_CORE,
     attrInfo = (\<lambda>_. \<lparr>devices = [nth_dev (toilet_ops [] 7) i], comm = None, operation = Some sumOp, calcTime = timeOp,
        valueOp = FP_ADD\<rparr>)\<rparr>"

definition hint_api :: "(unit, toilet_fd list \<times> os) api" where
  "hint_api = \<lparr>ap_cx = \<lparr>pluginLibMap = Map.empty, devMap = Map.empty, deviceMap = [], cfg = tree_config, rootName = ''n'',
        objMap = [''c0'' \<mapsto> hint_obj ''c0'' 0, ''c1'' \<mapsto> hint_obj ''c1'' 1]\<rparr>,
     ap_kids = Map.empty, ap_st = ([\<lparr>t_num = 0, t_type = 0\<rparr>, \<lparr>t_num = 5, t_type = 0\<rparr>], hint_os), ap_net = demo_net,
     ap_hints = \<lparr>region_id_counter = 0, region_id_map = Map.empty\<rparr>\<rparr>"

lemma hint_cores: "core_files fd hint_os"
  by (simp add: core_files_def keeps_text_def writable_def hint_os_def du_demo_os_def)

theorem hint_region_writes_witness:
  "\<exists>rc i ap0 ap2 ap3 w2 w3.
    PWR_AppHintCreate ''n'' REGION_MEM_BOUND hint_api = ((rc, i), ap0) \<and>
    PWR_AppHintStart 1 (\<lambda>_. None) i ap0 = Inr (RET_SUCCESS, ap2) \<and> snd (ap_st ap2) = w2 \<and>
    PWR_AppHintStop 1 (\<lambda>_. None) i ap2 = Inr (RET_SUCCESS, ap3) \<and> snd (ap_st ap3) = w3 \<and>
    map snd (new_writes hint_os w2) = [show_nat 2600000, show_nat 2600000] \<and> length (new_writes w2 w3) = 12"
proof -
  obtain rc i ap0 where c: "PWR_AppHintCreate ''n'' REGION_MEM_BOUND hint_api = ((rc, i), ap0)"
    by (metis prod.exhaust)
  then have ap0: "ap_cx ap0 = ap_cx hint_api" "ap_kids ap0 = Map.empty" "ap_st ap0 = ap_st hint_api"
    by (auto simp: PWR_AppHintCreate_def Let_def hint_api_def)
  have "getChildren 1 ''n'' (ap_cx ap0, ap_st ap0) = Inr ([''c0'', ''c1''], (ap_cx ap0, ap_st ap0))"
    by (simp add: ap0 getChildren_def hint_api_def tree_config_def addChildBase_def mustFind_def findObject_def base_add_def)
  then have k: "PWR_ObjGetChildren 1 ''n'' ap0 = Inr ([''c0'', ''c1''], ap0\<lparr>ap_kids := [''n'' \<mapsto> [''c0'', ''c1'']]\<rparr>)"
    using ap0 by (simp add: PWR_ObjGetChildren_def)
  let ?fs = "[\<lparr>t_num = 0, t_type = 0\<rparr>, \<lparr>t_num = 5, t_type = 0\<rparr>]"
  have all: "all_cores [] 7 ?fs hint_os (\<lambda>c. if c = ''c0'' then 0 else 1)
      (ap0\<lparr>ap_kids := [''n'' \<mapsto> [''c0'', ''c1'']]\<rparr>) [''c0'', ''c1'']"
    by (simp add: all_cores_def ap0 hint_cores) (simp add: hint_api_def toilet_core_def obj_of_def hint_obj_def)
  have "region_id_map (ap_hints hint_api) (ucast (region_id_counter (ap_hints hint_api))) = None"
    by (simp add: hint_api_def)
  from hint_region_writes [OF c this _ k all, of 2600000 "\<lambda>_. None"]
  obtain ap2 ap3 w2 w3 where r: "PWR_AppHintStart 1 (\<lambda>_. None) i ap0 = Inr (RET_SUCCESS, ap2)" "snd (ap_st ap2) = w2"
      "PWR_AppHintStop 1 (\<lambda>_. None) i ap2 = Inr (RET_SUCCESS, ap3)" "snd (ap_st ap3) = w3"
    and "map snd (new_writes hint_os w2) = [show_nat 2600000, show_nat 2600000]" and "length (new_writes w2 w3) = 12"
    by (auto simp: Let_def length_concat sum_list_replicate)
  with c show ?thesis by (intro exI conjI)
qed

end
