(* ===== verification/Pwr_Config.thy ===== *)
theory Pwr_Config
  imports Pwr_Context
begin

text \<open>
  What the context relies on in a configuration (\<^verbatim>\<open>src/pwr/config.h\<close>): the full name of a child extends that of its
  parent by a dot and a name of its own, and only finitely many objects have children.  The readers of XML documents and of machine
  topologies both keep to it; then no configuration they read has a cycle, and the walks of the context return.
\<close>

text \<open>A lookup that stops the program gives no value; the record \<open>config\<close> has a default in its place.\<close>

definition or_else :: "'a \<Rightarrow> 'a res \<Rightarrow> 'a" where
  "or_else d r = (case r of Inl _ \<Rightarrow> d | Inr x \<Rightarrow> x)"

lemma or_else_simps [simp]: "or_else d (Inl e) = d" "or_else d (Inr x) = x"
  by (simp_all add: or_else_def)

definition dot :: string where
  "dot = ''.''"

locale dotted_config =
  fixes cf :: config and names :: "string list"
  assumes child_name: "c \<in> set (findAttrChildren cf n a) \<Longrightarrow> n \<in> set names \<and> (\<exists>x. c = n @ dot @ x)"
begin

definition longest :: nat where
  "longest = Max (insert 0 (length ` set names))"

definition name_rank :: "string \<Rightarrow> nat" where
  "name_rank n = Suc longest - length n"

lemma length_le_longest: "n \<in> set names \<Longrightarrow> length n \<le> longest"
  by (simp add: longest_def)

lemma ranked_names: "ranked cf a name_rank"
  unfolding ranked_def
proof (intro allI ballI)
  fix n c
  assume "c \<in> set (findAttrChildren cf n a)"
  then obtain x where "n \<in> set names" and c: "c = n @ dot @ x" using child_name by blast
  with length_le_longest [of n] show "name_rank c < name_rank n"
    by (simp add: name_rank_def dot_def)
qed

lemma rank_bound: "name_rank n \<le> Suc longest"
  by (simp add: name_rank_def)

text \<open>One level more than the longest name is deep enough for every walk.\<close>

lemma traverse_returns_named:
  assumes "cfg cx = cf" and "plugins_return cx" and "Suc longest < k"
  shows "traverse k a name ((cx, s), loc, rem) \<noteq> Inl Diverges"
    and "Suc longest < k' \<Longrightarrow> traverse k' a name ((cx, s), loc, rem) = traverse k a name ((cx, s), loc, rem)"
proof -
  have r: "ranked (cfg cx) a name_rank" using ranked_names assms(1) by simp
  have k: "name_rank name < m" if "Suc longest < m" for m using rank_bound [of name] that by simp
  show "traverse k a name ((cx, s), loc, rem) \<noteq> Inl Diverges"
    by (rule traverse_returns [OF r]) (simp_all add: assms k)
  show "traverse k' a name ((cx, s), loc, rem) = traverse k a name ((cx, s), loc, rem)" if "Suc longest < k'"
    by (rule traverse_depth [OF r]) (simp_all add: assms k that)
qed

end

end
