(* ===== verification/Xml_Config.thy ===== *)
theory Xml_Config
  imports Pwr_Config
begin

text \<open>
  \<^verbatim>\<open>src/pwr/xmlConfig.cc\<close>: a configuration read from an XML document.  The document is the tree the parser builds: elements with
  a name, attributes and children, and other nodes (text, comments), of which only the value is kept.
\<close>

subsection \<open>Nodes\<close>

datatype xnode = XElem string "(string \<times> string) list" "xnode list" | XOther string

fun xName :: "xnode \<Rightarrow> string" where
  "xName (XElem n _ _) = n"
| "xName (XOther v) = v"

fun xKids :: "xnode \<Rightarrow> xnode list" where
  "xKids (XElem _ _ cs) = cs"
| "xKids (XOther _) = []"

text \<open>
  Every node is cast to an element: a node that is none has no list of attributes to search.  \<open>xNeed\<close> is a use of the
  value as a string, which a missing attribute, a null pointer, does not survive.
\<close>

fun xAttribute :: "xnode \<Rightarrow> string \<Rightarrow> string option res" where
  "xAttribute (XElem _ as _) n = Inr (map_of as n)"
| "xAttribute (XOther _) n = Inl MemoryFault"

definition xNeed :: "xnode \<Rightarrow> string \<Rightarrow> string res" where
  "xNeed e n = rbind (xAttribute e n) (\<lambda>v. case v of None \<Rightarrow> Inl MemoryFault | Some s \<Rightarrow> Inr s)"

definition need_obj :: "xnode option \<Rightarrow> xnode res" where
  "need_obj e = (case e of None \<Rightarrow> Inl AssertFailed | Some x \<Rightarrow> Inr x)"

text \<open>A node and its following siblings are the list that starts with it; the null pointer is the empty list.\<close>

fun xml_findNode :: "xnode list \<Rightarrow> string \<Rightarrow> xnode option" where
  "xml_findNode [] name = None"
| "xml_findNode (e # es) name = (if xName e = name then Some e else xml_findNode es name)"

definition xml_findNodes1stChild :: "xnode list \<Rightarrow> string \<Rightarrow> xnode list" where
  "xml_findNodes1stChild es name = (case xml_findNode es name of None \<Rightarrow> [] | Some e \<Rightarrow> xKids e)"

fun xml_with_attr :: "xnode list \<Rightarrow> string \<Rightarrow> string \<Rightarrow> xnode option res" where
  "xml_with_attr [] attrName attrValue = Inr None"
| "xml_with_attr (e # es) attrName attrValue =
     rbind (xNeed e attrName) (\<lambda>v. if v = attrValue then Inr (Some e) else xml_with_attr es attrName attrValue)"

definition xml_findNodeWithAttr :: "xnode \<Rightarrow> string \<Rightarrow> string \<Rightarrow> string \<Rightarrow> xnode option res" where
  "xml_findNodeWithAttr elm nodeName attrName attrValue =
     xml_with_attr (xml_findNodes1stChild (xKids elm) nodeName) attrName attrValue"

definition xml_findDev :: "xnode \<Rightarrow> string \<Rightarrow> xnode option res" where
  "xml_findDev elm name = xml_findNodeWithAttr elm ''devices'' ''name'' name"

definition xml_findAttr :: "xnode \<Rightarrow> string \<Rightarrow> xnode option res" where
  "xml_findAttr elm a = xml_findNodeWithAttr elm ''attributes'' ''name'' a"

text \<open>The constructor keeps the children of the element \<open>System\<close>; \<open>es\<close> is the root element and what follows it.\<close>

definition xml_new :: "xnode list \<Rightarrow> xnode list res" where
  "xml_new es = rbind (need_obj (xml_findNode es ''System'')) (\<lambda>e. Inr (xKids e))"

definition xml_findObject :: "xnode list \<Rightarrow> string \<Rightarrow> xnode option res" where
  "xml_findObject sys name = xml_with_attr (xml_findNodes1stChild sys ''Objects'') ''name'' name"

subsection \<open>Types and names\<close>

fun xml_objTypeToString :: "obj_type \<Rightarrow> string" where
  "xml_objTypeToString OBJ_PLATFORM = ''Platform''"
| "xml_objTypeToString OBJ_CABINET = ''Cabinet''"
| "xml_objTypeToString OBJ_CHASSIS = ''Chassis''"
| "xml_objTypeToString OBJ_BOARD = ''Board''"
| "xml_objTypeToString OBJ_NODE = ''Node''"
| "xml_objTypeToString OBJ_SOCKET = ''Socket''"
| "xml_objTypeToString OBJ_POWER_PLANE = ''Power Plane''"
| "xml_objTypeToString OBJ_CORE = ''Core''"
| "xml_objTypeToString OBJ_NIC = ''Nic''"
| "xml_objTypeToString OBJ_MEM = ''Memory''"
| "xml_objTypeToString _ = ''????''"

definition xml_objTypeStrToInt :: "string \<Rightarrow> obj_type option" where
  "xml_objTypeStrToInt name =
     (if name = ''Platform'' then Some OBJ_PLATFORM
      else if name = ''Cabinet'' then Some OBJ_CABINET
      else if name = ''Chassis'' then Some OBJ_CHASSIS
      else if name = ''Board'' then Some OBJ_BOARD
      else if name = ''Node'' then Some OBJ_NODE
      else if name = ''Socket'' then Some OBJ_SOCKET
      else if name = ''Core'' then Some OBJ_CORE
      else if name = ''Power Plane'' then Some OBJ_CORE
      else if name = ''Memory'' then Some OBJ_CORE
      else if name = ''Nic'' then Some OBJ_CORE
      else None)"

fun xml_attrNameToString :: "attr \<Rightarrow> string" where
  "xml_attrNameToString ATTR_PSTATE = ''PSTATE''"
| "xml_attrNameToString ATTR_CSTATE = ''CSTATE''"
| "xml_attrNameToString ATTR_CSTATE_LIMIT = ''CSTATE_LIMIT''"
| "xml_attrNameToString ATTR_SSTATE = ''SSTATE''"
| "xml_attrNameToString ATTR_CURRENT = ''CURRENT''"
| "xml_attrNameToString ATTR_VOLTAGE = ''VOLTAGE''"
| "xml_attrNameToString ATTR_POWER = ''POWER''"
| "xml_attrNameToString ATTR_POWER_LIMIT_MAX = ''MAX_POWER''"
| "xml_attrNameToString ATTR_POWER_LIMIT_MIN = ''MIN_POWER''"
| "xml_attrNameToString ATTR_FREQ = ''FREQ''"
| "xml_attrNameToString ATTR_FREQ_LIMIT_MIN = ''FREQ_MIN''"
| "xml_attrNameToString ATTR_FREQ_LIMIT_MAX = ''FREQ_MAX''"
| "xml_attrNameToString ATTR_ENERGY = ''ENERGY''"
| "xml_attrNameToString ATTR_TEMP = ''TEMP''"
| "xml_attrNameToString ATTR_OS_ID = ''OS_ID''"
| "xml_attrNameToString ATTR_GOV = ''GOV''"
| "xml_attrNameToString ATTR_THROTTLED_TIME = ''THROTTLED_TIME''"
| "xml_attrNameToString ATTR_THROTTLED_COUNT = ''THROTTLED_COUNT''"

text \<open>Up to the last dot; nothing when there is none.\<close>

definition xml_findParent :: "string \<Rightarrow> string" where
  "xml_findParent name = rev (drop 1 (dropWhile (\<lambda>c. c \<noteq> CHR ''.'') (rev name)))"

lemma length_findParent: "xml_findParent name \<noteq> [] \<Longrightarrow> length (xml_findParent name) < length name"
proof -
  let ?d = "dropWhile (\<lambda>c. c \<noteq> CHR ''.'') (rev name)"
  assume "xml_findParent name \<noteq> []"
  then have "drop 1 ?d \<noteq> []" by (simp add: xml_findParent_def)
  then have "length (drop 1 ?d) < length ?d" by (cases ?d) simp_all
  also have "length ?d \<le> length name" using length_dropWhile_le [of _ "rev name"] by simp
  finally show ?thesis by (simp add: xml_findParent_def)
qed

subsection \<open>Lookups\<close>

function xml_findObjLocation :: "xnode list \<Rightarrow> string \<Rightarrow> string res" where
  "xml_findObjLocation sys name =
     rbind (xml_findObject sys name) (\<lambda>ob.
     rbind (need_obj ob) (\<lambda>e.
     rbind (xAttribute e ''location'') (\<lambda>l.
     case l of
       Some s \<Rightarrow> Inr s
     | None \<Rightarrow>
         (let p = xml_findParent name in if p = [] then Inr [] else xml_findObjLocation sys p))))"
  by auto
termination by (relation "measure (length \<circ> snd)") (auto intro: length_findParent)

declare xml_findObjLocation.simps [simp del]

definition xml_hasServer :: "xnode list \<Rightarrow> string \<Rightarrow> bool res" where
  "xml_hasServer sys name = rbind (xml_findObjLocation sys name) (\<lambda>l. Inr (l \<noteq> []))"

definition xml_hasObject :: "xnode list \<Rightarrow> string \<Rightarrow> bool res" where
  "xml_hasObject sys name = rbind (xml_findObject sys name) (\<lambda>ob. Inr (ob \<noteq> None))"

definition xml_getType :: "xnode \<Rightarrow> obj_type option res" where
  "xml_getType e = rbind (xNeed e ''type'') (\<lambda>t. Inr (xml_objTypeStrToInt t))"

definition xml_objType :: "xnode list \<Rightarrow> string \<Rightarrow> obj_type option res" where
  "xml_objType sys name =
     rbind (xml_findObject sys name) (\<lambda>ob. case ob of None \<Rightarrow> Inr None | Some e \<Rightarrow> xml_getType e)"

text \<open>A loop over siblings that must all have one name.\<close>

fun xml_each :: "string \<Rightarrow> (xnode \<Rightarrow> 'a list res) \<Rightarrow> xnode list \<Rightarrow> 'a list res" where
  "xml_each n f [] = Inr []"
| "xml_each n f (e # es) =
     c_assert (xName e = n) (rbind (f e) (\<lambda>xs. rbind (xml_each n f es) (\<lambda>ys. Inr (xs @ ys))))"

definition xml_findPlugins :: "xnode list \<Rightarrow> (string \<times> string) list res" where
  "xml_findPlugins sys =
     xml_each ''plugin'' (\<lambda>e. rbind (xNeed e ''name'') (\<lambda>n. rbind (xNeed e ''lib'') (\<lambda>l. Inr [(n, l)])))
       (xml_findNodes1stChild sys ''Plugins'')"

definition xml_findSysDevs :: "xnode list \<Rightarrow> (string \<times> string \<times> string) list res" where
  "xml_findSysDevs sys =
     xml_each ''device'' (\<lambda>e. rbind (xNeed e ''name'') (\<lambda>n. rbind (xNeed e ''plugin'') (\<lambda>p.
       rbind (xNeed e ''initString'') (\<lambda>i. Inr [(n, p, i)]))))
       (xml_findNodes1stChild sys ''Devices'')"

text \<open>A source of an attribute that is a device names one of the object's devices.\<close>

definition src_device :: "xnode \<Rightarrow> xnode \<Rightarrow> (string \<times> string) list res" where
  "src_device obj e =
     rbind (xNeed e ''type'') (\<lambda>t.
     if t \<noteq> ''device'' then Inr []
     else rbind (xNeed e ''name'') (\<lambda>n.
          rbind (xml_findDev obj n) (\<lambda>d.
          rbind (need_obj d) (\<lambda>dev.
          rbind (xNeed dev ''device'') (\<lambda>x. rbind (xNeed dev ''openString'') (\<lambda>s. Inr [(x, s)]))))))"

definition xml_findObjDevs :: "xnode list \<Rightarrow> string \<Rightarrow> attr \<Rightarrow> (string \<times> string) list res" where
  "xml_findObjDevs sys name a =
     rbind (xml_findObject sys name) (\<lambda>ob.
     rbind (need_obj ob) (\<lambda>obj.
     rbind (xml_findAttr obj (xml_attrNameToString a)) (\<lambda>n.
     case n of None \<Rightarrow> Inr [] | Some e \<Rightarrow> xml_each ''src'' (src_device obj) (xKids e))))"

definition src_child :: "xnode \<Rightarrow> string list res" where
  "src_child e =
     rbind (xNeed e ''type'') (\<lambda>t. if t \<noteq> ''child'' then Inr [] else rbind (xNeed e ''name'') (\<lambda>n. Inr [n]))"

text \<open>
  For every child source the children of the object are looked through, and must be there; whether one of them has the name
  has no effect.
\<close>

fun need_names :: "xnode list \<Rightarrow> unit res" where
  "need_names [] = Inr ()"
| "need_names (e # es) = rbind (xNeed e ''name'') (\<lambda>_. need_names es)"

fun check_children :: "xnode \<Rightarrow> string list \<Rightarrow> unit res" where
  "check_children obj [] = Inr ()"
| "check_children obj (n # ns) =
     (let cs = xml_findNodes1stChild (xKids obj) ''children''
      in c_assert (cs \<noteq> []) (rbind (need_names cs) (\<lambda>_. check_children obj ns)))"

definition xml_findAttrChildren :: "xnode list \<Rightarrow> string \<Rightarrow> attr \<Rightarrow> string list res" where
  "xml_findAttrChildren sys name a =
     rbind (xml_findObject sys name) (\<lambda>ob.
     rbind (need_obj ob) (\<lambda>obj.
     rbind (xml_findAttr obj (xml_attrNameToString a)) (\<lambda>n.
     case n of
       None \<Rightarrow> Inr []
     | Some e \<Rightarrow>
         rbind (xml_each ''src'' src_child (xKids e)) (\<lambda>ns.
         rbind (check_children obj ns) (\<lambda>_.
         if ns = [] then Inr []
         else rbind (xNeed obj ''name'') (\<lambda>on. Inr (map (\<lambda>n. on @ dot @ n) ns)))))))"

definition xml_attr_field :: "string \<Rightarrow> xnode list \<Rightarrow> string \<Rightarrow> attr \<Rightarrow> string res" where
  "xml_attr_field fld sys name a =
     rbind (xml_findObject sys name) (\<lambda>ob.
     rbind (need_obj ob) (\<lambda>obj.
     rbind (xml_findAttr obj (xml_attrNameToString a)) (\<lambda>n.
     case n of
       None \<Rightarrow> Inr []
     | Some e \<Rightarrow> rbind (xAttribute e fld) (\<lambda>v. Inr (case v of None \<Rightarrow> [] | Some s \<Rightarrow> s)))))"

definition xml_findAttrOp :: "xnode list \<Rightarrow> string \<Rightarrow> attr \<Rightarrow> string res" where
  "xml_findAttrOp = xml_attr_field ''op''"

definition xml_findAttrHz :: "xnode list \<Rightarrow> string \<Rightarrow> attr \<Rightarrow> string res" where
  "xml_findAttrHz = xml_attr_field ''hz''"

definition xml_findAttrType :: "string \<Rightarrow> attr \<Rightarrow> string" where
  "xml_findAttrType name a = ''Float''"

definition xml_findChildren :: "xnode list \<Rightarrow> string \<Rightarrow> string list res" where
  "xml_findChildren sys name =
     rbind (xml_findObject sys name) (\<lambda>ob.
     rbind (need_obj ob) (\<lambda>obj.
     xml_each ''child'' (\<lambda>e. rbind (xNeed obj ''name'') (\<lambda>on. rbind (xNeed e ''name'') (\<lambda>n. Inr [on @ dot @ n])))
       (xml_findNodes1stChild (xKids obj) ''children'')))"

definition xml_findObjType :: "xnode list \<Rightarrow> obj_type \<Rightarrow> string list res" where
  "xml_findObjType sys t =
     xml_each ''obj'' (\<lambda>e. rbind (xNeed e ''type'') (\<lambda>u.
       if u = xml_objTypeToString t then rbind (xNeed e ''name'') (\<lambda>n. Inr [n]) else Inr []))
       (xml_findNodes1stChild sys ''Objects'')"

subsection \<open>Printing\<close>

definition xml_line :: "xnode \<Rightarrow> string res" where
  "xml_line e =
     (if xName e = ''obj'' then
        rbind (xNeed e ''type'') (\<lambda>t. rbind (xNeed e ''name'') (\<lambda>n.
        Inr (''obj type='' @ t @ '' name '' @ n @ [CHR 0x0A])))
      else if xName e = ''child'' then rbind (xNeed e ''name'') (\<lambda>n. Inr (''child name='' @ n @ [CHR 0x0A]))
      else if xName e = ''attr'' then
        rbind (xNeed e ''name'') (\<lambda>n. rbind (xNeed e ''op'') (\<lambda>p.
        Inr (''attr name='' @ n @ '' op='' @ p @ [CHR 0x0A])))
      else Inr [])"

fun xml_printTree :: "xnode \<Rightarrow> string res" and xml_printTrees :: "xnode list \<Rightarrow> string res" where
  "xml_printTree (XElem n as cs) =
     rbind (xml_line (XElem n as cs)) (\<lambda>s. rbind (xml_printTrees cs) (\<lambda>t. Inr (s @ t)))"
| "xml_printTree (XOther v) = xml_line (XOther v)"
| "xml_printTrees [] = Inr []"
| "xml_printTrees (e # es) = rbind (xml_printTree e) (\<lambda>s. rbind (xml_printTrees es) (\<lambda>t. Inr (s @ t)))"

subsection \<open>The configuration\<close>

definition xml_config :: "xnode list \<Rightarrow> config" where
  "xml_config sys = \<lparr>findParent = xml_findParent,
     findAttrHz = (\<lambda>n a. or_else [] (xml_findAttrHz sys n a)),
     findAttrOp = (\<lambda>n a. or_else [] (xml_findAttrOp sys n a)), findAttrType = xml_findAttrType,
     findAttrChildren = (\<lambda>n a. or_else [] (xml_findAttrChildren sys n a)),
     findChildren = (\<lambda>n. or_else [] (xml_findChildren sys n)),
     hasServer = (\<lambda>n. or_else False (xml_hasServer sys n)),
     findObjDevs = (\<lambda>n a. or_else [] (xml_findObjDevs sys n a)),
     findPlugins = or_else [] (xml_findPlugins sys), findSysDevs = or_else [] (xml_findSysDevs sys),
     objType = (\<lambda>n. or_else None (xml_objType sys n))\<rparr>"

subsection \<open>Where the names come from\<close>

lemma xNeed_eq_Inr_iff: "xNeed e n = Inr v \<longleftrightarrow> xAttribute e n = Inr (Some v)"
  by (cases e) (auto simp: xNeed_def split: option.splits)

lemma need_obj_eq_Inr_iff [simp]: "need_obj o' = Inr e \<longleftrightarrow> o' = Some e"
  by (auto simp: need_obj_def split: option.splits)

declare c_assert_eq_Inr_iff [simp]

lemma xml_with_attr_Some:
  "xml_with_attr es n v = Inr (Some e) \<Longrightarrow> e \<in> set es \<and> xNeed e n = Inr v"
  by (induction es) (auto simp: rbind_eq_Inr_iff split: if_splits)

definition object_names :: "xnode list \<Rightarrow> string list" where
  "object_names sys =
     concat (map (\<lambda>e. case xNeed e ''name'' of Inl _ \<Rightarrow> [] | Inr n \<Rightarrow> [n]) (xml_findNodes1stChild sys ''Objects''))"

lemma xml_findObject_Some:
  "xml_findObject sys n = Inr (Some e) \<Longrightarrow>
   n \<in> set (object_names sys) \<and> xNeed e ''name'' = Inr n \<and> e \<in> set (xml_findNodes1stChild sys ''Objects'')"
  unfolding xml_findObject_def by (auto dest!: xml_with_attr_Some simp: object_names_def intro!: bexI [of _ e])

lemma xml_findAttrChildren_dotted:
  assumes "xml_findAttrChildren sys n a = Inr cs" and "c \<in> set cs"
  shows "n \<in> set (object_names sys) \<and> (\<exists>x. c = n @ dot @ x)"
proof -
  from assms(1) obtain e where "xml_findObject sys n = Inr (Some e)"
    by (auto simp: xml_findAttrChildren_def rbind_eq_Inr_iff)
  with xml_findObject_Some [OF this] assms show ?thesis
    by (auto simp: xml_findAttrChildren_def rbind_eq_Inr_iff split: option.splits if_splits)
qed

interpretation xml_dotted: dotted_config "xml_config sys" "object_names sys" for sys
proof
  fix c n a
  assume "c \<in> set (findAttrChildren (xml_config sys) n a)"
  then show "n \<in> set (object_names sys) \<and> (\<exists>x. c = n @ dot @ x)"
    using xml_findAttrChildren_dotted by (cases "xml_findAttrChildren sys n a") (auto simp: xml_config_def)
qed

subsection \<open>Documents on which no lookup stops\<close>

fun xHas :: "xnode \<Rightarrow> string \<Rightarrow> bool" where
  "xHas (XElem _ as _) n \<longleftrightarrow> map_of as n \<noteq> None"
| "xHas (XOther _) n \<longleftrightarrow> False"

fun xVal :: "xnode \<Rightarrow> string \<Rightarrow> string" where
  "xVal (XElem _ as _) n = (case map_of as n of Some v \<Rightarrow> v | None \<Rightarrow> [])"
| "xVal (XOther _) n = []"

lemma xNeed_has: "xHas e n \<Longrightarrow> xNeed e n = Inr (xVal e n)"
  by (cases e) (auto simp: xNeed_def)

lemma xNeed_Inr_val: "xNeed e n = Inr v \<Longrightarrow> xHas e n \<and> xVal e n = v"
  by (cases e) (auto simp: xNeed_def split: option.splits)

abbreviation xml_objects :: "xnode list \<Rightarrow> xnode list" where
  "xml_objects sys \<equiv> xml_findNodes1stChild sys ''Objects''"

abbreviation xml_section :: "xnode \<Rightarrow> string \<Rightarrow> xnode list" where
  "xml_section obj n \<equiv> xml_findNodes1stChild (xKids obj) n"

definition src_ok :: "xnode \<Rightarrow> xnode \<Rightarrow> bool" where
  "src_ok obj e \<longleftrightarrow> xName e = ''src'' \<and> xHas e ''type'' \<and>
     (xVal e ''type'' = ''device'' \<longrightarrow>
        xHas e ''name'' \<and> (\<exists>d\<in>set (xml_section obj ''devices''). xVal d ''name'' = xVal e ''name'')) \<and>
     (xVal e ''type'' = ''child'' \<longrightarrow>
        xHas e ''name'' \<and> (\<exists>c\<in>set (xml_section obj ''children''). xVal c ''name'' = xVal e ''name''))"

definition obj_ok :: "xnode list \<Rightarrow> xnode \<Rightarrow> bool" where
  "obj_ok sys obj \<longleftrightarrow> xHas obj ''name'' \<and> xHas obj ''type'' \<and>
     (\<forall>d\<in>set (xml_section obj ''devices''). xHas d ''name'' \<and> xHas d ''device'' \<and> xHas d ''openString'') \<and>
     (\<forall>c\<in>set (xml_section obj ''children''). xName c = ''child'' \<and> xHas c ''name'' \<and> CHR ''.'' \<notin> set (xVal c ''name'') \<and>
        xVal obj ''name'' @ dot @ xVal c ''name'' \<in> set (object_names sys)) \<and>
     (\<forall>a\<in>set (xml_section obj ''attributes''). xHas a ''name'' \<and> (\<forall>e\<in>set (xKids a). src_ok obj e)) \<and>
     (let p = xml_findParent (xVal obj ''name'') in p = [] \<or> p \<in> set (object_names sys))"

definition xml_ok :: "xnode list \<Rightarrow> bool" where
  "xml_ok sys \<longleftrightarrow> (\<forall>obj\<in>set (xml_objects sys). obj_ok sys obj)"

lemma xml_with_attr_returns:
  "\<forall>e\<in>set es. xHas e n \<Longrightarrow>
   \<exists>r. xml_with_attr es n v = Inr r \<and> (r = None \<longleftrightarrow> (\<forall>e\<in>set es. xVal e n \<noteq> v))"
  by (induction es) (auto simp: xNeed_has)

lemma xml_each_returns:
  "\<forall>e\<in>set es. xName e = n \<and> (\<exists>xs. f e = Inr xs \<and> set xs \<subseteq> A) \<Longrightarrow> \<exists>ys. xml_each n f es = Inr ys \<and> set ys \<subseteq> A"
  by (induction es) (auto simp: c_assert_def)

lemma need_names_returns: "\<forall>e\<in>set es. xHas e ''name'' \<Longrightarrow> need_names es = Inr ()"
  by (induction es) (auto simp: xNeed_has)

lemma xml_findObject_returns:
  assumes "xml_ok sys"
  obtains r where "xml_findObject sys n = Inr r" and "r = None \<longleftrightarrow> n \<notin> set (object_names sys)"
proof -
  have h: "\<forall>e\<in>set (xml_objects sys). xHas e ''name''" using assms by (auto simp: xml_ok_def obj_ok_def)
  from xml_with_attr_returns [OF this, of n] obtain r where r: "xml_findObject sys n = Inr r"
    "r = None \<longleftrightarrow> (\<forall>e\<in>set (xml_objects sys). xVal e ''name'' \<noteq> n)" unfolding xml_findObject_def by blast
  moreover have "set (object_names sys) = (\<lambda>e. xVal e ''name'') ` set (xml_objects sys)"
    using h by (force simp: object_names_def xNeed_has)
  ultimately show thesis using that by auto
qed

lemma xml_object:
  assumes "xml_ok sys" and "n \<in> set (object_names sys)"
  obtains obj where "xml_findObject sys n = Inr (Some obj)" and "obj_ok sys obj" and "xNeed obj ''name'' = Inr n"
proof -
  from xml_findObject_returns [OF assms(1), of n] assms(2) obtain obj where o: "xml_findObject sys n = Inr (Some obj)"
    by (metis not_Some_eq)
  from xml_findObject_Some [OF o] assms(1) that [OF o] show thesis by (auto simp: xml_ok_def)
qed

lemma xml_findAttr_returns:
  assumes "obj_ok sys obj"
  obtains r where "xml_findAttr obj n = Inr r" and "\<And>e. r = Some e \<Longrightarrow> xHas e ''name'' \<and> (\<forall>s\<in>set (xKids e). src_ok obj s)"
proof -
  have h: "\<forall>e\<in>set (xml_section obj ''attributes''). xHas e ''name''" using assms by (auto simp: obj_ok_def)
  from xml_with_attr_returns [OF this] obtain r where r: "xml_findAttr obj n = Inr r"
    unfolding xml_findAttr_def xml_findNodeWithAttr_def by blast
  have "xHas e ''name'' \<and> (\<forall>s\<in>set (xKids e). src_ok obj s)" if "r = Some e" for e
  proof -
    from r that have "e \<in> set (xml_section obj ''attributes'')"
      unfolding xml_findAttr_def xml_findNodeWithAttr_def by (auto dest: xml_with_attr_Some)
    with assms show ?thesis by (auto simp: obj_ok_def)
  qed
  with r that show thesis by blast
qed

lemma src_device_returns:
  assumes "obj_ok sys obj" and "src_ok obj e"
  shows "\<exists>xs. src_device obj e = Inr xs"
proof (cases "xVal e ''type'' = ''device''")
  case True
  let ?n = "xVal e ''name''"
  have n: "xHas e ''name''" and d: "\<exists>d\<in>set (xml_section obj ''devices''). xVal d ''name'' = ?n"
    using assms(2) True by (auto simp: src_ok_def)
  have "\<forall>d\<in>set (xml_section obj ''devices''). xHas d ''name''" using assms(1) by (auto simp: obj_ok_def)
  from xml_with_attr_returns [OF this, of ?n] d obtain d'
    where f: "xml_findDev obj ?n = Inr (Some d')" unfolding xml_findDev_def xml_findNodeWithAttr_def by auto
  then have "d' \<in> set (xml_section obj ''devices'')"
    unfolding xml_findDev_def xml_findNodeWithAttr_def by (auto dest: xml_with_attr_Some)
  then have "xHas d' ''device''" "xHas d' ''openString''" using assms(1) by (auto simp: obj_ok_def)
  then show ?thesis using assms(2) True n f by (simp add: src_device_def src_ok_def xNeed_has need_obj_def)
next
  case False
  then show ?thesis using assms(2) by (simp add: src_device_def src_ok_def xNeed_has)
qed

lemma src_child_returns:
  assumes "src_ok obj e"
  shows "\<exists>xs. src_child e = Inr xs \<and> set xs \<subseteq> (\<lambda>c. xVal c ''name'') ` set (xml_section obj ''children'')"
proof (cases "xVal e ''type'' = ''child''")
  case True
  then obtain c where "c \<in> set (xml_section obj ''children'')" and "xVal c ''name'' = xVal e ''name''" and "xHas e ''name''"
    using assms by (auto simp: src_ok_def)
  then have "xVal e ''name'' \<in> (\<lambda>c. xVal c ''name'') ` set (xml_section obj ''children'')" by (metis imageI)
  then show ?thesis using assms True \<open>xHas e ''name''\<close> by (simp add: src_child_def src_ok_def xNeed_has)
next
  case False
  then show ?thesis using assms by (simp add: src_child_def src_ok_def xNeed_has)
qed

lemma check_children_returns:
  "obj_ok sys obj \<Longrightarrow> ns = [] \<or> xml_section obj ''children'' \<noteq> [] \<Longrightarrow> check_children obj ns = Inr ()"
proof (induction ns)
  case (Cons n ns)
  then have "\<forall>c\<in>set (xml_section obj ''children''). xHas c ''name''" by (auto simp: obj_ok_def)
  with Cons show ?case by (simp add: need_names_returns c_assert_def)
qed simp

lemma findParent_child: "CHR ''.'' \<notin> set x \<Longrightarrow> xml_findParent (n @ dot @ x) = n"
proof -
  assume x: "CHR ''.'' \<notin> set x"
  have "dropWhile (\<lambda>c. c \<noteq> CHR ''.'') (rev x @ CHR ''.'' # rev n) = CHR ''.'' # rev n"
    using x by (subst dropWhile_append2) auto
  then show ?thesis by (simp add: xml_findParent_def dot_def)
qed

lemma xml_hasServer_returns:
  assumes "xml_ok sys"
  shows "n \<in> set (object_names sys) \<Longrightarrow> \<exists>l. xml_findObjLocation sys n = Inr l"
proof (induction n rule: measure_induct_rule [of length])
  case (less n)
  from xml_object [OF assms less.prems] obtain obj
    where o: "xml_findObject sys n = Inr (Some obj)" and ok: "obj_ok sys obj" and n: "xNeed obj ''name'' = Inr n" .
  from xNeed_Inr_val [OF n] have v: "xVal obj ''name'' = n" "xHas obj ''name''" by auto
  then obtain l where l: "xAttribute obj ''location'' = Inr l" by (cases obj) auto
  show ?case
  proof (cases "l = None \<and> xml_findParent n \<noteq> []")
    case True
    then have "xml_findParent n \<in> set (object_names sys)" using ok v by (simp add: obj_ok_def Let_def)
    with less.IH [OF length_findParent] True have "\<exists>l. xml_findObjLocation sys (xml_findParent n) = Inr l" by blast
    then show ?thesis using True by (subst xml_findObjLocation.simps) (simp add: o l need_obj_def Let_def)
  next
    case False
    then show ?thesis
      by (subst xml_findObjLocation.simps) (auto simp: o l need_obj_def Let_def split: option.splits)
  qed
qed

lemma xml_children_return:
  assumes "obj_ok sys obj" and "xVal obj ''name'' = n" and "xml_findObject sys n = Inr (Some obj)"
  shows "xml_findChildren sys n = Inr (map (\<lambda>c. n @ dot @ xVal c ''name'') (xml_section obj ''children''))"
proof -
  have h: "xHas obj ''name''" using assms(1) by (simp add: obj_ok_def)
  have "\<forall>c\<in>set cs. xName c = ''child'' \<and> xHas c ''name'' \<Longrightarrow>
      xml_each ''child'' (\<lambda>e. rbind (xNeed obj ''name'') (\<lambda>on. rbind (xNeed e ''name'') (\<lambda>n. Inr [on @ dot @ n]))) cs =
      Inr (map (\<lambda>c. n @ dot @ xVal c ''name'') cs)" for cs
    using h assms(2) by (induction cs) (simp_all add: xNeed_has c_assert_def)
  then show ?thesis
    using assms(1) unfolding xml_findChildren_def assms(3) by (simp add: need_obj_def obj_ok_def)
qed

lemma xml_attr_children_return:
  assumes "obj_ok sys obj" and "xVal obj ''name'' = n" and "xml_findObject sys n = Inr (Some obj)"
  shows "\<exists>cs. xml_findAttrChildren sys n a = Inr cs \<and>
    set cs \<subseteq> (\<lambda>c. n @ dot @ xVal c ''name'') ` set (xml_section obj ''children'')"
proof -
  obtain r where r: "xml_findAttr obj (xml_attrNameToString a) = Inr r"
    and s: "\<And>e. r = Some e \<Longrightarrow> xHas e ''name'' \<and> (\<forall>s\<in>set (xKids e). src_ok obj s)"
    using xml_findAttr_returns [OF assms(1)] by blast
  show ?thesis
  proof (cases r)
    case None
    then show ?thesis by (simp add: xml_findAttrChildren_def assms(3) need_obj_def r)
  next
    case (Some e)
    let ?A = "(\<lambda>c. xVal c ''name'') ` set (xml_section obj ''children'')"
    have "\<exists>ns. xml_each ''src'' src_child (xKids e) = Inr ns \<and> set ns \<subseteq> ?A"
      using s [OF Some] src_child_returns by (intro xml_each_returns) (auto simp: src_ok_def)
    then obtain ns where ns: "xml_each ''src'' src_child (xKids e) = Inr ns" "set ns \<subseteq> ?A" by blast
    then have "ns = [] \<or> xml_section obj ''children'' \<noteq> []" by auto
    from check_children_returns [OF assms(1) this] have ck: "check_children obj ns = Inr ()" .
    have "xNeed obj ''name'' = Inr n" using assms(1,2) by (simp add: obj_ok_def xNeed_has)
    with Some r ns ck have "xml_findAttrChildren sys n a = Inr (map (\<lambda>x. n @ dot @ x) ns)"
      by (simp add: xml_findAttrChildren_def assms(3) need_obj_def)
    with ns(2) show ?thesis by auto
  qed
qed

lemma xml_obj_devs_return:
  assumes "obj_ok sys obj" and "xml_findObject sys n = Inr (Some obj)"
  shows "\<exists>ds. xml_findObjDevs sys n a = Inr ds" and "\<exists>v. xml_attr_field fld sys n a = Inr v"
proof -
  obtain r where r: "xml_findAttr obj (xml_attrNameToString a) = Inr r"
    and s: "\<And>e. r = Some e \<Longrightarrow> xHas e ''name'' \<and> (\<forall>s\<in>set (xKids e). src_ok obj s)"
    using xml_findAttr_returns [OF assms(1)] by blast
  have "\<exists>ds. xml_each ''src'' (src_device obj) (xKids e) = Inr ds" if "r = Some e" for e
    using xml_each_returns [of "xKids e" "''src''" "src_device obj" UNIV] s [OF that] src_device_returns [OF assms(1)]
    by (auto simp: src_ok_def)
  then show "\<exists>ds. xml_findObjDevs sys n a = Inr ds"
    by (cases r) (auto simp: xml_findObjDevs_def assms(2) need_obj_def r)
  show "\<exists>v. xml_attr_field fld sys n a = Inr v"
  proof (cases r)
    case None
    then show ?thesis by (simp add: xml_attr_field_def assms(2) need_obj_def r)
  next
    case (Some e)
    then have "\<exists>v. xAttribute e fld = Inr v" using s [OF Some] by (cases e) auto
    with Some show ?thesis by (auto simp: xml_attr_field_def assms(2) need_obj_def r)
  qed
qed

text \<open>
  On a well-formed document every lookup for every object returns, attributes come only from children of
  the object, the children of an object are objects, and their parent is that object.
\<close>

theorem xml_lookups_return:
  assumes "xml_ok sys" and "n \<in> set (object_names sys)"
  shows "\<exists>t ds cs as srv opn hz.
    xml_objType sys n = Inr t \<and> xml_findObjDevs sys n a = Inr ds \<and> xml_findChildren sys n = Inr cs \<and>
    xml_findAttrChildren sys n a = Inr as \<and> xml_hasServer sys n = Inr srv \<and> xml_findAttrOp sys n a = Inr opn \<and>
    xml_findAttrHz sys n a = Inr hz \<and> set as \<subseteq> set cs \<and> set cs \<subseteq> set (object_names sys) \<and>
    (\<forall>c\<in>set cs. xml_findParent c = n)"
proof -
  obtain obj where o: "xml_findObject sys n = Inr (Some obj)" and ok: "obj_ok sys obj" and n: "xNeed obj ''name'' = Inr n"
    using xml_object [OF assms] by blast
  from xNeed_Inr_val [OF n] have v: "xVal obj ''name'' = n" by simp
  let ?cs = "map (\<lambda>c. n @ dot @ xVal c ''name'') (xml_section obj ''children'')"
  have "\<exists>t. xml_objType sys n = Inr t" using ok by (simp add: xml_objType_def o xml_getType_def xNeed_has obj_ok_def)
  moreover have "\<exists>srv. xml_hasServer sys n = Inr srv"
    using xml_hasServer_returns [OF assms] by (auto simp: xml_hasServer_def)
  moreover have "set ?cs \<subseteq> set (object_names sys)" and "\<forall>c\<in>set ?cs. xml_findParent c = n"
    using ok v findParent_child by (auto simp: obj_ok_def)
  moreover obtain ds opn hz where "xml_findObjDevs sys n a = Inr ds" and "xml_findAttrOp sys n a = Inr opn"
    and "xml_findAttrHz sys n a = Inr hz"
    using xml_obj_devs_return [OF ok o, where a = a] unfolding xml_findAttrOp_def xml_findAttrHz_def by blast
  moreover obtain as where "xml_findAttrChildren sys n a = Inr as" and "set as \<subseteq> set ?cs"
    using xml_attr_children_return [OF ok v o, where a = a] by auto
  ultimately show ?thesis using xml_children_return [OF ok v o] by blast
qed


text \<open>A node with two cores.\<close>

definition xml_core :: "string \<Rightarrow> xnode" where
  "xml_core n = XElem ''obj'' [(''type'', ''Core''), (''name'', n)]
     [XElem ''devices'' [] [XElem ''dev'' [(''name'', ''d''), (''device'', ''cpu''), (''openString'', ''0'')] []],
      XElem ''attributes'' [] [XElem ''attr'' [(''name'', ''ENERGY''), (''op'', ''SUM'')]
        [XElem ''src'' [(''type'', ''device''), (''name'', ''d'')] []]]]"

definition xml_demo :: "xnode list" where
  "xml_demo = [XElem ''Plugins'' [] [XElem ''plugin'' [(''name'', ''CPU''), (''lib'', ''libcpu'')] []],
     XElem ''Devices'' [] [XElem ''device'' [(''name'', ''cpu''), (''plugin'', ''CPU''), (''initString'', '''')] []],
     XElem ''Objects'' []
       [XElem ''obj'' [(''type'', ''Node''), (''name'', ''n'')]
          [XElem ''children'' [] [XElem ''child'' [(''name'', ''c0'')] [], XElem ''child'' [(''name'', ''c1'')] []],
           XElem ''attributes'' [] [XElem ''attr'' [(''name'', ''ENERGY''), (''op'', ''SUM'')]
             [XElem ''src'' [(''type'', ''child''), (''name'', ''c0'')] [],
              XElem ''src'' [(''type'', ''child''), (''name'', ''c1'')] []]]],
        xml_core ''n.c0'', xml_core ''n.c1'']]"

lemma xml_demo_names: "object_names xml_demo = [''n'', ''n.c0'', ''n.c1'']"
  by (simp add: object_names_def xml_demo_def xml_core_def xml_findNodes1stChild_def xNeed_def)

lemma xml_demo_ok: "xml_ok xml_demo"
  unfolding xml_ok_def obj_ok_def xml_demo_names
  by (simp add: xml_demo_def xml_core_def xml_findNodes1stChild_def src_ok_def dot_def xml_findParent_def ex_disj_distrib conj_disj_distribR)

theorem xml_lookups_return_witness:
  "\<exists>cs as. xml_findChildren xml_demo ''n'' = Inr cs \<and> set cs \<subseteq> {''n'', ''n.c0'', ''n.c1''} \<and>
     xml_findAttrChildren xml_demo ''n'' ATTR_ENERGY = Inr as \<and> set as \<subseteq> set cs"
  using xml_lookups_return [OF xml_demo_ok, of "''n''" ATTR_ENERGY] by (auto simp: xml_demo_names)


text \<open>Three types of objects are printed under names that are read back as cores.\<close>

lemma xml_type_roundtrip:
  "xml_objTypeStrToInt (xml_objTypeToString t) = Some t \<longleftrightarrow>
     t \<in> {OBJ_PLATFORM, OBJ_CABINET, OBJ_CHASSIS, OBJ_BOARD, OBJ_NODE, OBJ_SOCKET, OBJ_CORE}"
  "t \<in> {OBJ_POWER_PLANE, OBJ_MEM, OBJ_NIC} \<Longrightarrow> xml_objTypeStrToInt (xml_objTypeToString t) = Some OBJ_CORE"
  by (cases t; simp add: xml_objTypeStrToInt_def)+

end
