(* ===== verification/Hwloc_Config.thy ===== *)
theory Hwloc_Config
  imports Pwr_Config "HOL-Library.AList"
begin

text \<open>
  \<^verbatim>\<open>src/pwr/hwlocConfig.cc\<close>: a configuration made from the topology of the machine and the descriptions of the plugins listed in
  a file.  The topology is the tree of the hwloc library, of which the code looks at the kind, the logical index and the
  children.  A node of the code has a pointer to its parent, which is only used for the node's full name; here the tree is
  a value, and the walks over it carry the parent's name.
\<close>

subsection \<open>Trees\<close>

datatype hkind = HWLOC_OBJ_MACHINE | HWLOC_OBJ_NODE | HWLOC_OBJ_SOCKET | HWLOC_OBJ_CORE | HWLOC_OBJ_OTHER

datatype hobj = HObj hkind int "hobj list"

record hattr =
  ha_op :: string
  ha_hz :: string
  ha_type :: string
  ha_device :: string
  ha_openString :: string

datatype tnode = TNode
  (tn_type: obj_type) (tn_name: string) (tn_index: int) (tn_attrs: "attr \<Rightarrow> hattr option") (tn_kids: "tnode list")
  (tn_count: "obj_type \<Rightarrow> nat")

text \<open>A plugin is its description with the table the constructor of \<^verbatim>\<open>PluginMeta\<close> fills from it.\<close>

type_synonym hplugin = "plugin_meta \<times> (obj_type \<times> attr list) list"

fun convertType :: "hkind \<Rightarrow> obj_type option" where
  "convertType HWLOC_OBJ_NODE = Some OBJ_MEM"
| "convertType HWLOC_OBJ_MACHINE = Some OBJ_NODE"
| "convertType HWLOC_OBJ_SOCKET = Some OBJ_SOCKET"
| "convertType HWLOC_OBJ_CORE = Some OBJ_CORE"
| "convertType HWLOC_OBJ_OTHER = None"

definition tolower :: "char \<Rightarrow> char" where
  "tolower c = (if 65 \<le> char_code c \<and> char_code c \<le> 90 then char_of (char_code c + 32) else c)"

definition leaf :: "obj_type \<Rightarrow> string \<Rightarrow> int \<Rightarrow> tnode" where
  "leaf t n i = TNode t n i (\<lambda>_. None) [] (\<lambda>_. 0)"

text \<open>
  The new child and the parent with the number of its children of the type counted up; an index of \<open>-1\<close> leaves the number out of the
  name and takes the index of the parent.
\<close>

definition addChild :: "tnode \<Rightarrow> obj_type \<Rightarrow> int \<Rightarrow> tnode \<times> tnode" where
  "addChild p t i =
     (case p of TNode pt pn pidx pa ks cnt \<Rightarrow>
       if - 1 < i then
         (leaf t (map tolower (objTypeToString t @ show_nat (cnt t))) i, TNode pt pn pidx pa ks (cnt(t := Suc (cnt t))))
       else (leaf t (map tolower (objTypeToString t)) pidx, p))"

fun attach :: "tnode \<Rightarrow> tnode \<Rightarrow> tnode" where
  "attach (TNode t n i as ks cnt) k = TNode t n i as (ks @ [k]) cnt"

fun initHierarchy :: "hobj \<Rightarrow> tnode \<Rightarrow> tnode" and initHierarchies :: "hobj list \<Rightarrow> tnode \<Rightarrow> tnode" where
  "initHierarchy (HObj k i cs) p =
     (case convertType k of
        None \<Rightarrow> initHierarchies cs p
      | Some t \<Rightarrow> (let (me, p') = addChild p t i in attach p' (initHierarchies cs me)))"
| "initHierarchies [] p = p"
| "initHierarchies (c # cs) p = initHierarchies cs (initHierarchy c p)"

text \<open>The children of a memory node go to its parent, behind the parent's own.\<close>

fun reorderObjects :: "tnode \<Rightarrow> tnode \<times> tnode list" and reorderAll :: "tnode list \<Rightarrow> tnode list \<times> tnode list" where
  "reorderObjects (TNode t n i as ks cnt) =
     (if t = OBJ_MEM then (TNode t n i as [] cnt, ks)
      else let (ks', ret) = reorderAll ks in (TNode t n i as (ks' @ ret) cnt, []))"
| "reorderAll [] = ([], [])"
| "reorderAll (k # ks) =
     (let (k', tmp) = reorderObjects k; (ks', ret) = reorderAll ks in (k' # ks', tmp @ ret))"

text \<open>The new children are leaves of other types, which the recursion leaves alone.\<close>

definition tx2_types :: "obj_type list" where
  "tx2_types = [OBJ_TX2_CORE, OBJ_TX2_SRAM, OBJ_TX2_MEM, OBJ_TX2_SOC]"

fun configureTX2 :: "tnode \<Rightarrow> tnode" where
  "configureTX2 (TNode t n i as ks cnt) =
     TNode t n i as
       (map configureTX2 ks @ (if t = OBJ_SOCKET then map (\<lambda>u. fst (addChild (TNode t n i as ks cnt) u (- 1))) tx2_types else []))
       cnt"

subsection \<open>What the plugins support\<close>

definition findAttr :: "hplugin \<Rightarrow> obj_type \<Rightarrow> attr \<Rightarrow> bool" where
  "findAttr m t a = isObjectSupported (snd m) t a"

fun supported_attrs :: "hplugin list \<Rightarrow> obj_type \<Rightarrow> attr list \<Rightarrow> bool \<Rightarrow> bool res" where
  "supported_attrs ms t [] r = Inr r"
| "supported_attrs ms t (a # as) r =
     (let num = length (filter (\<lambda>m. findAttr m t a) ms)
      in c_assert (num < 2) (supported_attrs ms t as (r \<or> 0 < num)))"

definition isSupported :: "hplugin list \<Rightarrow> tnode \<Rightarrow> bool res" where
  "isSupported ms nd = rbind (supported_attrs ms (tn_type nd) all_attrs False) (\<lambda>r. Inr (r \<or> tn_kids nd \<noteq> []))"

fun pruneObjects :: "hplugin list \<Rightarrow> tnode \<Rightarrow> (bool \<times> tnode) res" and pruneAll :: "hplugin list \<Rightarrow> tnode list \<Rightarrow> tnode list res" where
  "pruneObjects ms (TNode t n i as ks cnt) =
     rbind (pruneAll ms ks) (\<lambda>ks'.
     let nd = TNode t n i as ks' cnt in rbind (isSupported ms nd) (\<lambda>b. Inr (b, nd)))"
| "pruneAll ms [] = Inr []"
| "pruneAll ms (k # ks) =
     rbind (pruneObjects ms k) (\<lambda>(b, k'). rbind (pruneAll ms ks) (\<lambda>ks'. Inr (if b then k' # ks' else ks')))"

text \<open>
  The names a description gives are of less than 100 characters; longer ones are not given a result.  \<open>m_devices\<close> is ordered by name.
\<close>

definition c_name :: "string option \<Rightarrow> string res" where
  "c_name s = (case s of None \<Rightarrow> Inl MemoryFault | Some n \<Rightarrow> Inr n)"

type_synonym hdevs = "(string \<times> hplugin) list"

definition plain_attr :: hattr where
  "plain_attr = \<lparr>ha_op = ''SUM'', ha_hz = ''1'', ha_type = ''Float'', ha_device = [], ha_openString = []\<rparr>"

definition device_attr :: "string \<Rightarrow> string \<Rightarrow> hattr" where
  "device_attr d s = plain_attr\<lparr>ha_device := d, ha_openString := s\<rparr>"

fun attr_plugins ::
  "obj_type \<Rightarrow> int \<Rightarrow> tnode list \<Rightarrow> attr \<Rightarrow> hplugin list \<Rightarrow> hattr option \<times> hdevs \<Rightarrow> (hattr option \<times> hdevs) res" where
  "attr_plugins t i ks a [] st = Inr st"
| "attr_plugins t i ks a (m # ms) (v, ds) =
     (if findAttr m t a then
        rbind (c_name (getDevName (fst m) t 100)) (\<lambda>d.
        attr_plugins t i ks a ms (Some (device_attr d (getDevOpenStr (fst m) t i 100)), AList.update d m ds))
      else if canAggregate a \<and> ks \<noteq> [] \<and> tn_attrs (hd ks) a \<noteq> None then attr_plugins t i ks a ms (Some plain_attr, ds)
      else attr_plugins t i ks a ms (v, ds))"

fun node_attrs ::
  "obj_type \<Rightarrow> int \<Rightarrow> tnode list \<Rightarrow> hplugin list \<Rightarrow> attr list \<Rightarrow> (attr \<Rightarrow> hattr option) \<times> hdevs
   \<Rightarrow> ((attr \<Rightarrow> hattr option) \<times> hdevs) res" where
  "node_attrs t i ks ms [] st = Inr st"
| "node_attrs t i ks ms (a # as) (m, ds) =
     rbind (attr_plugins t i ks a ms (m a, ds)) (\<lambda>(v, ds'). node_attrs t i ks ms as (m(a := v), ds'))"

fun initAttributes :: "hplugin list \<Rightarrow> tnode \<Rightarrow> hdevs \<Rightarrow> (tnode \<times> hdevs) res"
  and initAttributesAll :: "hplugin list \<Rightarrow> tnode list \<Rightarrow> hdevs \<Rightarrow> (tnode list \<times> hdevs) res" where
  "initAttributes ms (TNode t n i as ks cnt) ds =
     rbind (initAttributesAll ms ks ds) (\<lambda>(ks', ds').
     rbind (node_attrs t i ks' ms all_attrs (as, ds')) (\<lambda>(as', ds'').
     Inr (TNode t n i as' ks' cnt, ds'')))"
| "initAttributesAll ms [] ds = Inr ([], ds)"
| "initAttributesAll ms (k # ks) ds =
     rbind (initAttributes ms k ds) (\<lambda>(k', ds').
     rbind (initAttributesAll ms ks ds') (\<lambda>(ks', ds''). Inr (k' # ks', ds'')))"

subsection \<open>Construction\<close>

record hconf =
  h_root :: tnode
  h_libs :: "(string \<times> string) list"
  h_meta :: "hplugin list"
  h_devices :: hdevs

definition lib_ext :: "string \<Rightarrow> string" where
  "lib_ext sysname = (if sysname = ''Darwin'' then ''.dylib'' else ''.so'')"

text \<open>\<open>loader\<close> is loading a shared object and asking it for its description; \<open>libs\<close> are the lines of the file.\<close>

fun load_metas ::
  "(string \<Rightarrow> plugin_meta option) \<Rightarrow> string \<Rightarrow> string list \<Rightarrow> ((string \<times> string) list \<times> hplugin list) res" where
  "load_metas loader ext [] = Inr ([], [])"
| "load_metas loader ext (lib # libs) =
     (case loader (lib @ ext) of
        None \<Rightarrow> Inl AssertFailed
      | Some m \<Rightarrow>
          rbind (pluginMeta_new m) (\<lambda>om.
          rbind (c_name (getPluginName m 100)) (\<lambda>n.
          rbind (load_metas loader ext libs) (\<lambda>(ps, ms). Inr ((n, lib) # ps, (m, om) # ms)))))"

definition hwloc_tree :: "hobj \<Rightarrow> tnode" where
  "hwloc_tree topo = fst (reorderObjects (initHierarchy topo (leaf OBJ_PLATFORM ''plat'' 0)))"

definition hwloc_new :: "(string \<Rightarrow> plugin_meta option) \<Rightarrow> string \<Rightarrow> string list \<Rightarrow> hobj \<Rightarrow> hconf res" where
  "hwloc_new loader sysname libs topo =
     rbind (load_metas loader (lib_ext sysname) libs) (\<lambda>(ps, ms).
     let t1 = hwloc_tree topo;
         t2 = (if ''tx2mon'' \<in> set (map fst ps) then configureTX2 t1 else t1)
     in rbind (pruneObjects ms t2) (\<lambda>(_, t3).
        rbind (initAttributes ms t3 []) (\<lambda>(t4, ds).
        Inr \<lparr>h_root = t4, h_libs = ps, h_meta = ms, h_devices = ds\<rparr>)))"

subsection \<open>Lookups\<close>

text \<open>\<open>pre\<close> is the full name of the parent with the dot.  The result is the node and the full name of its parent.\<close>

fun findObj :: "string \<Rightarrow> tnode \<Rightarrow> string \<Rightarrow> (tnode \<times> string) option"
  and findObjs :: "string \<Rightarrow> tnode list \<Rightarrow> string \<Rightarrow> (tnode \<times> string) option" where
  "findObj pre (TNode t n i as ks cnt) name =
     (if pre @ n = name then Some (TNode t n i as ks cnt, pre) else findObjs (pre @ n @ dot) ks name)"
| "findObjs pre [] name = None"
| "findObjs pre (k # ks) name = (case findObj pre k name of Some r \<Rightarrow> Some r | None \<Rightarrow> findObjs pre ks name)"

definition h_find :: "hconf \<Rightarrow> string \<Rightarrow> (tnode \<times> string) option" where
  "h_find h name = findObj [] (h_root h) name"

definition h_find_node :: "hconf \<Rightarrow> string \<Rightarrow> tnode res" where
  "h_find_node h name = (case h_find h name of None \<Rightarrow> Inl MemoryFault | Some (nd, _) \<Rightarrow> Inr nd)"

definition hwloc_hasServer :: "string \<Rightarrow> bool" where
  "hwloc_hasServer name = False"

definition hwloc_hasObject :: "string \<Rightarrow> bool res" where
  "hwloc_hasObject name = Inl AssertFailed"

definition hwloc_objType :: "hconf \<Rightarrow> string \<Rightarrow> obj_type option" where
  "hwloc_objType h name = map_option (\<lambda>(nd, _). tn_type nd) (h_find h name)"

fun sys_devs :: "hdevs \<Rightarrow> (string \<times> string \<times> string) list res" where
  "sys_devs [] = Inr []"
| "sys_devs ((d, m) # ds) =
     rbind (c_name (getPluginName (fst m) 100)) (\<lambda>p.
     rbind (c_name (getDevInitStr (fst m) d 100)) (\<lambda>i.
     rbind (sys_devs ds) (\<lambda>rest. Inr ((d, p, i) # rest))))"

definition name_le :: "string \<Rightarrow> string \<Rightarrow> bool" where
  "name_le s t \<longleftrightarrow> s = t \<or> (s, t) \<in> lexord {(c, d). char_code c < char_code d}"

fun insert_dev :: "string \<times> hplugin \<Rightarrow> hdevs \<Rightarrow> hdevs" where
  "insert_dev x [] = [x]"
| "insert_dev x (y # ys) = (if name_le (fst x) (fst y) then x # y # ys else y # insert_dev x ys)"

definition hwloc_findSysDevs :: "hconf \<Rightarrow> (string \<times> string \<times> string) list res" where
  "hwloc_findSysDevs h = sys_devs (foldr insert_dev (h_devices h) [])"

definition hwloc_findObjDevs :: "hconf \<Rightarrow> string \<Rightarrow> attr \<Rightarrow> (string \<times> string) list res" where
  "hwloc_findObjDevs h name a =
     rbind (h_find_node h name) (\<lambda>nd.
     Inr (case tn_attrs nd a of
            None \<Rightarrow> []
          | Some v \<Rightarrow> if ha_device v = [] then [] else [(ha_device v, ha_openString v)]))"

definition hwloc_findAttrChildren :: "hconf \<Rightarrow> string \<Rightarrow> attr \<Rightarrow> string list res" where
  "hwloc_findAttrChildren h name a =
     (case h_find h name of
        None \<Rightarrow> Inl MemoryFault
      | Some (nd, pre) \<Rightarrow> Inr (map (\<lambda>k. (pre @ tn_name nd) @ dot @ tn_name k) (tn_kids nd)))"

definition hwloc_attr_field :: "(hattr \<Rightarrow> string) \<Rightarrow> hconf \<Rightarrow> string \<Rightarrow> attr \<Rightarrow> string res" where
  "hwloc_attr_field f h name a =
     rbind (h_find_node h name) (\<lambda>nd. Inr (case tn_attrs nd a of None \<Rightarrow> [] | Some v \<Rightarrow> f v))"

definition hwloc_findAttrType :: "hconf \<Rightarrow> string \<Rightarrow> attr \<Rightarrow> string res" where
  "hwloc_findAttrType = hwloc_attr_field ha_type"

definition hwloc_findAttrOp :: "hconf \<Rightarrow> string \<Rightarrow> attr \<Rightarrow> string res" where
  "hwloc_findAttrOp = hwloc_attr_field ha_op"

definition hwloc_findAttrHz :: "hconf \<Rightarrow> string \<Rightarrow> attr \<Rightarrow> string res" where
  "hwloc_findAttrHz = hwloc_attr_field ha_hz"

definition hwloc_findChildren :: "hconf \<Rightarrow> string \<Rightarrow> string list" where
  "hwloc_findChildren h name =
     (case h_find h name of
        None \<Rightarrow> []
      | Some (nd, pre) \<Rightarrow> map (\<lambda>k. (pre @ tn_name nd) @ dot @ tn_name k) (tn_kids nd))"

text \<open>The full name of the parent is the prefix without its dot.\<close>

definition hwloc_findParent :: "hconf \<Rightarrow> string \<Rightarrow> string" where
  "hwloc_findParent h name = (case h_find h name of None \<Rightarrow> [] | Some (_, pre) \<Rightarrow> butlast pre)"

definition hwloc_config :: "hconf \<Rightarrow> config" where
  "hwloc_config h = \<lparr>findParent = hwloc_findParent h,
     findAttrHz = (\<lambda>n a. or_else [] (hwloc_findAttrHz h n a)), findAttrOp = (\<lambda>n a. or_else [] (hwloc_findAttrOp h n a)),
     findAttrType = (\<lambda>n a. or_else [] (hwloc_findAttrType h n a)),
     findAttrChildren = (\<lambda>n a. or_else [] (hwloc_findAttrChildren h n a)), findChildren = hwloc_findChildren h,
     hasServer = hwloc_hasServer, findObjDevs = (\<lambda>n a. or_else [] (hwloc_findObjDevs h n a)),
     findPlugins = h_libs h, findSysDevs = or_else [] (hwloc_findSysDevs h), objType = hwloc_objType h\<rparr>"

subsection \<open>Names of the objects\<close>

fun node_names :: "string \<Rightarrow> tnode \<Rightarrow> string list" where
  "node_names pre (TNode t n i as ks cnt) = (pre @ n) # concat (map (node_names (pre @ n @ dot)) ks)"

lemma findObj_name:
  "findObj pre nd name = Some (r, q) \<Longrightarrow> q @ tn_name r = name \<and> name \<in> set (node_names pre nd)"
  "findObjs pre ks name = Some (r, q) \<Longrightarrow> q @ tn_name r = name \<and> (\<exists>k\<in>set ks. name \<in> set (node_names pre k))"
  by (induction pre nd name and pre ks name rule: findObj_findObjs.induct) (auto split: if_splits option.splits)

lemma hwloc_findAttrChildren_dotted:
  assumes "hwloc_findAttrChildren h n a = Inr cs" and "c \<in> set cs"
  shows "n \<in> set (node_names [] (h_root h)) \<and> (\<exists>x. c = n @ dot @ x)"
  using assms findObj_name(1) [of "[]" "h_root h" n]
  by (fastforce simp: hwloc_findAttrChildren_def h_find_def split: option.splits)

interpretation hwloc_dotted: dotted_config "hwloc_config h" "node_names [] (h_root h)" for h
proof
  fix c n a
  assume "c \<in> set (findAttrChildren (hwloc_config h) n a)"
  then show "n \<in> set (node_names [] (h_root h)) \<and> (\<exists>x. c = n @ dot @ x)"
    using hwloc_findAttrChildren_dotted by (cases "hwloc_findAttrChildren h n a") (auto simp: hwloc_config_def)
qed

subsection \<open>Nodes before and after\<close>

fun nodes :: "tnode \<Rightarrow> tnode list" where
  "nodes (TNode t n i as ks cnt) = TNode t n i as ks cnt # concat (map nodes ks)"

lemma findObj_nodes:
  "findObj pre nd name = Some (r, q) \<Longrightarrow> r \<in> set (nodes nd)"
  "findObjs pre ks name = Some (r, q) \<Longrightarrow> \<exists>k\<in>set ks. r \<in> set (nodes k)"
  by (induction pre nd name and pre ks name rule: findObj_findObjs.induct) (auto split: if_splits option.splits)

text \<open>Until the attributes are filled in no node has one.\<close>

definition fresh :: "tnode \<Rightarrow> bool" where
  "fresh nd \<longleftrightarrow> (\<forall>r\<in>set (nodes nd). tn_attrs r = (\<lambda>_. None))"

lemma fresh_TNode: "fresh (TNode t n i as ks cnt) \<longleftrightarrow> as = (\<lambda>_. None) \<and> (\<forall>k\<in>set ks. fresh k)"
  by (auto simp: fresh_def)

lemma fresh_leaf [simp]: "fresh (leaf t n i)"
  by (simp add: leaf_def fresh_TNode)

lemma fresh_addChild: "addChild p t i = (me, p') \<Longrightarrow> fresh me \<and> (fresh p' \<longleftrightarrow> fresh p)"
  by (cases p) (auto simp: addChild_def fresh_TNode split: if_splits)

lemma fresh_attach: "fresh (attach p k) \<longleftrightarrow> fresh p \<and> fresh k"
  by (cases p) (auto simp: fresh_TNode)

lemma fresh_initHierarchy:
  "fresh p \<Longrightarrow> fresh (initHierarchy ob p)"
  "fresh p \<Longrightarrow> fresh (initHierarchies obs p)"
proof (induction ob p and obs p rule: initHierarchy_initHierarchies.induct)
  case (1 k i cs p)
  show ?case
  proof (cases "convertType k")
    case None
    with 1 show ?thesis by simp
  next
    case (Some t)
    obtain me p' where a: "addChild p t i = (me, p')" by (cases "addChild p t i")
    with 1(3) have "fresh me" "fresh p'" using fresh_addChild by blast+
    with 1(2) [OF Some a [symmetric] refl] Some a show ?thesis by (simp add: fresh_attach)
  qed
qed simp_all

lemma fresh_reorder:
  "fresh nd \<Longrightarrow> fresh (fst (reorderObjects nd)) \<and> (\<forall>k\<in>set (snd (reorderObjects nd)). fresh k)"
  "\<forall>k\<in>set ks. fresh k \<Longrightarrow> (\<forall>k\<in>set (fst (reorderAll ks)). fresh k) \<and> (\<forall>k\<in>set (snd (reorderAll ks)). fresh k)"
  by (induction nd and ks rule: reorderObjects_reorderAll.induct) (auto simp: fresh_TNode split: prod.splits)

lemma fresh_tx2: "fresh nd \<Longrightarrow> fresh (configureTX2 nd)"
proof (induction nd rule: configureTX2.induct)
  case (1 t n i as ks cnt)
  have "fresh (fst (addChild (TNode t n i as ks cnt) u (- 1)))" for u
    using fresh_addChild by (metis prod.collapse)
  with 1 show ?case by (auto simp: fresh_TNode)
qed

lemma fresh_prune:
  "pruneObjects ms nd = Inr (b, nd') \<Longrightarrow> fresh nd \<Longrightarrow> fresh nd'"
  "pruneAll ms ks = Inr ks' \<Longrightarrow> \<forall>k\<in>set ks. fresh k \<Longrightarrow> \<forall>k\<in>set ks'. fresh k"
proof (induction ms nd and ms ks arbitrary: b nd' and ks' rule: pruneObjects_pruneAll.induct)
  case (1 ms t n i as ks cnt)
  then show ?case
    by (auto simp: rbind_eq_Inr_iff Let_def isSupported_def fresh_TNode)
next
  case (3 ms k ks)
  then show ?case by (fastforce simp: rbind_eq_Inr_iff split: if_splits)
qed simp

text \<open>The plugin that decides on an attribute: the last that supports it, but with a child that has the attribute only the last of all is asked.\<close>

definition attr_from_child :: "tnode list \<Rightarrow> attr \<Rightarrow> bool" where
  "attr_from_child ks a \<longleftrightarrow> canAggregate a \<and> ks \<noteq> [] \<and> tn_attrs (hd ks) a \<noteq> None"

definition plugin_attr :: "obj_type \<Rightarrow> int \<Rightarrow> hplugin \<Rightarrow> hattr" where
  "plugin_attr t i m = device_attr (the (getDevName (fst m) t 100)) (getDevOpenStr (fst m) t i 100)"

definition attr_step :: "obj_type \<Rightarrow> int \<Rightarrow> tnode list \<Rightarrow> attr \<Rightarrow> hattr option \<Rightarrow> hplugin \<Rightarrow> hattr option" where
  "attr_step t i ks a v m =
     (if findAttr m t a then Some (plugin_attr t i m) else if attr_from_child ks a then Some plain_attr else v)"

lemma attr_plugins_foldl:
  "attr_plugins t i ks a ms (v, ds) = Inr (v', ds') \<Longrightarrow> v' = foldl (attr_step t i ks a) v ms"
  by (induction ms arbitrary: v ds)
    (auto simp: attr_step_def attr_from_child_def plugin_attr_def c_name_def rbind_eq_Inr_iff split: if_splits option.splits)

lemma node_attrs_foldl:
  "node_attrs t i ks ms as (m, ds) = Inr (m', ds') \<Longrightarrow> distinct as
   \<Longrightarrow> m' a = (if a \<in> set as then foldl (attr_step t i ks a) (m a) ms else m a)"
  by (induction as arbitrary: m ds) (auto simp: rbind_eq_Inr_iff dest!: attr_plugins_foldl)

definition attrs_filled :: "hplugin list \<Rightarrow> tnode \<Rightarrow> bool" where
  "attrs_filled ms r \<longleftrightarrow> (\<forall>a. tn_attrs r a = foldl (attr_step (tn_type r) (tn_index r) (tn_kids r) a) None ms)"

lemma initAttributes_filled:
  "initAttributes ms nd ds = Inr (nd', ds') \<Longrightarrow> fresh nd \<Longrightarrow> \<forall>r\<in>set (nodes nd'). attrs_filled ms r"
  "initAttributesAll ms ks ds = Inr (ks', ds') \<Longrightarrow> \<forall>k\<in>set ks. fresh k \<Longrightarrow> \<forall>k\<in>set ks'. \<forall>r\<in>set (nodes k). attrs_filled ms r"
proof (induction ms nd ds and ms ks ds arbitrary: nd' ds' and ks' ds' rule: initAttributes_initAttributesAll.induct)
  case (1 ms t n i as ks cnt ds)
  then obtain ks' d1 as' d2 where k: "initAttributesAll ms ks ds = Inr (ks', d1)"
    and n: "node_attrs t i ks' ms all_attrs (as, d1) = Inr (as', d2)" and r: "nd' = TNode t n i as' ks' cnt"
    by (auto simp: rbind_eq_Inr_iff)
  have "attrs_filled ms nd'"
    using node_attrs_foldl [OF n] 1(3) by (simp add: attrs_filled_def r fresh_TNode set_all_attrs distinct_all_attrs)
  with 1(1) [OF k] 1(3) show ?case by (auto simp: r fresh_TNode)
next
  case (3 ms k ks ds)
  then show ?case by (fastforce simp: rbind_eq_Inr_iff)
qed simp

lemma foldl_attr_step:
  "attr_from_child ks a \<Longrightarrow> ms \<noteq> [] \<Longrightarrow>
   foldl (attr_step t i ks a) v ms = Some (if findAttr (last ms) t a then plugin_attr t i (last ms) else plain_attr)"
  "\<not> attr_from_child ks a \<Longrightarrow>
   foldl (attr_step t i ks a) v ms =
     (case rev (filter (\<lambda>m. findAttr m t a) ms) of [] \<Rightarrow> v | m # _ \<Rightarrow> Some (plugin_attr t i m))"
  by (induction ms rule: rev_induct) (auto simp: attr_step_def)

lemma hwloc_new_steps:
  assumes "hwloc_new loader sysname libs topo = Inr h"
  shows "\<exists>t2 b t3 ds. (t2 = configureTX2 (hwloc_tree topo) \<or> t2 = hwloc_tree topo)
     \<and> pruneObjects (h_meta h) t2 = Inr (b, t3) \<and> initAttributes (h_meta h) t3 [] = Inr (h_root h, ds)"
proof -
  from assms obtain ps ms where l: "load_metas loader (lib_ext sysname) libs = Inr (ps, ms)"
    by (auto simp: hwloc_new_def rbind_eq_Inr_iff)
  define t2 where "t2 = (if ''tx2mon'' \<in> set (map fst ps) then configureTX2 (hwloc_tree topo) else hwloc_tree topo)"
  from assms have "rbind (pruneObjects ms t2) (\<lambda>(_, t3). rbind (initAttributes ms t3 []) (\<lambda>(t4, ds).
      Inr \<lparr>h_root = t4, h_libs = ps, h_meta = ms, h_devices = ds\<rparr>)) = Inr h"
    by (simp add: hwloc_new_def l t2_def Let_def cong: if_cong)
  then obtain b t3 t4 ds where "pruneObjects ms t2 = Inr (b, t3)" and "initAttributes ms t3 [] = Inr (t4, ds)"
    and "h = \<lparr>h_root = t4, h_libs = ps, h_meta = ms, h_devices = ds\<rparr>"
    by (auto simp: rbind_eq_Inr_iff)
  then show ?thesis by (intro exI [of _ t2] exI [of _ b] exI [of _ t3] exI [of _ ds]) (simp add: t2_def)
qed

lemma hwloc_new_filled:
  assumes "hwloc_new loader sysname libs topo = Inr h" and "h_find h name = Some (nd, pre)"
  shows "attrs_filled (h_meta h) nd"
proof -
  from hwloc_new_steps [OF assms(1)] obtain t2 b t3 ds where
    t2: "t2 = configureTX2 (hwloc_tree topo) \<or> t2 = hwloc_tree topo"
    and p: "pruneObjects (h_meta h) t2 = Inr (b, t3)" and i: "initAttributes (h_meta h) t3 [] = Inr (h_root h, ds)" by blast
  have "fresh (hwloc_tree topo)"
    unfolding hwloc_tree_def by (intro fresh_reorder(1) [THEN conjunct1] fresh_initHierarchy(1) fresh_leaf)
  with t2 have "fresh t2" using fresh_tx2 by blast
  from initAttributes_filled(1) [OF i fresh_prune(1) [OF p this]]
  show ?thesis using findObj_nodes(1) [OF assms(2) [unfolded h_find_def]] by blast
qed

text \<open>
  C14. Where an object of a machine read through hwloc gets an attribute from.  When its first child has the attribute and it can be
  added up, only the plugin listed last counts: if that one supports the attribute its device is used, otherwise the attribute
  has no device, whatever the plugins before it support.  In every other case the plugin that supports it
  gives the device.  The device and the string to open it are those the plugin's description names, and a device without
  a name is left out.
\<close>

theorem hwloc_attr_source:
  assumes "hwloc_new loader sysname libs topo = Inr h" and "h_find h name = Some (nd, pre)"
  shows "hwloc_findObjDevs h name a = Inr
    (case rev (filter (\<lambda>m. findAttr m (tn_type nd) a)
                 (if attr_from_child (tn_kids nd) a then drop (length (h_meta h) - 1) (h_meta h) else h_meta h)) of
       [] \<Rightarrow> []
     | m # _ \<Rightarrow>
         (let d = the (getDevName (fst m) (tn_type nd) 100)
          in if d = [] then [] else [(d, getDevOpenStr (fst m) (tn_type nd) (tn_index nd) 100)]))"
proof -
  have f: "tn_attrs nd a = foldl (attr_step (tn_type nd) (tn_index nd) (tn_kids nd) a) None (h_meta h)"
    using hwloc_new_filled [OF assms] by (simp add: attrs_filled_def)
  have d: "drop (length ms - Suc 0) ms = [last ms]" if "ms \<noteq> []" for ms :: "hplugin list"
    using that by (cases ms rule: rev_cases) simp_all
  have dev: "hwloc_findObjDevs h name a = Inr (case tn_attrs nd a of None \<Rightarrow> []
      | Some v \<Rightarrow> if ha_device v = [] then [] else [(ha_device v, ha_openString v)])"
    by (simp add: hwloc_findObjDevs_def h_find_node_def assms(2))
  show ?thesis
  proof (cases "attr_from_child (tn_kids nd) a \<and> h_meta h \<noteq> []")
    case True
    then show ?thesis
      by (simp add: dev f d foldl_attr_step(1) plugin_attr_def device_attr_def plain_attr_def Let_def)
  next
    case False
    then show ?thesis
      by (cases "h_meta h = []")
        (simp_all add: dev f foldl_attr_step(2) plugin_attr_def device_attr_def plain_attr_def Let_def split: list.split)
  qed
qed

text \<open>A socket with a core: one plugin measures the energy of sockets, the other that of cores.\<close>

definition socket_plugin :: plugin_meta where
  "socket_plugin = \<lparr>numObjs = 1, readObjs = (\<lambda>n. fill [OBJ_SOCKET]), numAttrs = (\<lambda>_. 1), readAttrs = (\<lambda>_ _. fill [ATTR_ENERGY]),
     getDevName = (\<lambda>_ _. Some ''rapl''), getDevOpenStr = (\<lambda>_ i _. show_nat (nat i)), getDevInitStr = (\<lambda>_ _. Some ''''),
     getPluginName = (\<lambda>_. Some ''RAPL'')\<rparr>"

definition core_plugin :: plugin_meta where
  "core_plugin = socket_plugin\<lparr>readObjs := (\<lambda>n. fill [OBJ_CORE]), getDevName := (\<lambda>_ _. Some ''cpu''),
     getPluginName := (\<lambda>_. Some ''CPU'')\<rparr>"

definition two_plugins :: "string \<Rightarrow> plugin_meta option" where
  "two_plugins f = (if f = ''rapl.so'' then Some socket_plugin else if f = ''cpu.so'' then Some core_plugin else None)"

definition one_socket :: hobj where
  "one_socket = HObj HWLOC_OBJ_MACHINE 0 [HObj HWLOC_OBJ_SOCKET 0 [HObj HWLOC_OBJ_CORE 0 []]]"

definition socket_energy :: "string list \<Rightarrow> (string \<times> string) list res" where
  "socket_energy libs =
     rbind (hwloc_new two_plugins ''Linux'' libs one_socket) (\<lambda>h. hwloc_findObjDevs h ''plat.node0.socket0'' ATTR_ENERGY)"


theorem hwloc_attr_source_witness:
  "\<exists>h nd. hwloc_new two_plugins ''Linux'' [''rapl'', ''cpu''] one_socket = Inr h
     \<and> h_find h ''plat.node0.socket0'' = Some (nd, ''plat.node0.'') \<and> map (\<lambda>m. findAttr m (tn_type nd) ATTR_ENERGY) (h_meta h) = [True, False]
     \<and> hwloc_findObjDevs h ''plat.node0.socket0'' ATTR_ENERGY = Inr []"
proof -
  have "rbind (hwloc_new two_plugins ''Linux'' [''rapl'', ''cpu''] one_socket) (\<lambda>h.
      case h_find h ''plat.node0.socket0'' of None \<Rightarrow> Inl MemoryFault
      | Some (nd, pre) \<Rightarrow>
          Inr (pre, attr_from_child (tn_kids nd) ATTR_ENERGY, map (\<lambda>m. findAttr m (tn_type nd) ATTR_ENERGY) (h_meta h)))
    = Inr (''plat.node0.'', True, [True, False])"
    by code_simp
  then obtain h nd where h: "hwloc_new two_plugins ''Linux'' [''rapl'', ''cpu''] one_socket = Inr h"
    and n: "h_find h ''plat.node0.socket0'' = Some (nd, ''plat.node0.'')" and c: "attr_from_child (tn_kids nd) ATTR_ENERGY"
    and m: "map (\<lambda>m. findAttr m (tn_type nd) ATTR_ENERGY) (h_meta h) = [True, False]"
    by (auto simp: rbind_eq_Inr_iff split: option.splits)
  from m obtain m1 m2 where "h_meta h = [m1, m2]" and "\<not> findAttr m2 (tn_type nd) ATTR_ENERGY"
    by (auto simp: map_eq_Cons_conv)
  with c have "hwloc_findObjDevs h ''plat.node0.socket0'' ATTR_ENERGY = Inr []"
    by (simp add: hwloc_attr_source [OF h n])
  with h n m show ?thesis by (intro exI conjI)
qed
subsection \<open>Names and lookups\<close>

fun nodes_at :: "string \<Rightarrow> tnode \<Rightarrow> (tnode \<times> string) list" where
  "nodes_at pre (TNode t n i as ks cnt) = (TNode t n i as ks cnt, pre) # concat (map (nodes_at (pre @ n @ dot)) ks)"

fun named :: "tnode \<Rightarrow> bool" where
  "named (TNode t n i as ks cnt) \<longleftrightarrow> CHR ''.'' \<notin> set n \<and> distinct (map tn_name ks) \<and> (\<forall>k\<in>set ks. named k)"

definition under :: "string \<Rightarrow> string \<Rightarrow> bool" where
  "under n name \<longleftrightarrow> name = n \<or> (\<exists>x. name = n @ dot @ x)"

lemma under_unique: "under (pre @ m) name \<Longrightarrow> under (pre @ n) name \<Longrightarrow> CHR ''.'' \<notin> set m \<Longrightarrow> CHR ''.'' \<notin> set n \<Longrightarrow> m = n"
proof -
  have t: "takeWhile (\<lambda>c. c \<noteq> CHR ''.'') y = m" if "under m y" "CHR ''.'' \<notin> set m" for m y
    using that by (auto simp: under_def dot_def takeWhile_tail takeWhile_eq_all_conv)
  have u: "under (pre @ m) name \<Longrightarrow> \<exists>y. name = pre @ y \<and> under m y" for m
    by (auto simp: under_def)
  show "under (pre @ m) name \<Longrightarrow> under (pre @ n) name \<Longrightarrow> CHR ''.'' \<notin> set m \<Longrightarrow> CHR ''.'' \<notin> set n \<Longrightarrow> m = n"
    using u [of m] u [of n] t by (metis same_append_eq)
qed

lemma nodes_at_under: "(r, q) \<in> set (nodes_at pre nd) \<Longrightarrow> under (pre @ tn_name nd) (q @ tn_name r)"
proof (induction pre nd rule: nodes_at.induct)
  case (1 pre t n i as ks cnt)
  then show ?case by (fastforce simp: under_def)
qed

lemma findObj_under:
  "findObj pre nd name = Some r \<Longrightarrow> under (pre @ tn_name nd) name"
  "findObjs pre ks name = Some r \<Longrightarrow> \<exists>k\<in>set ks. under (pre @ tn_name k) name"
  by (induction pre nd name and pre ks name rule: findObj_findObjs.induct)
    (fastforce simp: under_def split: if_splits option.splits)+

lemma named_no_dot: "named k \<Longrightarrow> CHR ''.'' \<notin> set (tn_name k)"
  by (cases k) simp

lemma findObjs_skip:
  assumes "under (pre @ tn_name k) name" and "named k" and "\<forall>x\<in>set xs. named x \<and> tn_name x \<noteq> tn_name k"
  shows "findObjs pre (xs @ ys) name = findObjs pre ys name"
  using assms(3)
proof (induction xs)
  case (Cons x xs)
  have "findObj pre x name = None"
  proof (rule ccontr)
    assume "findObj pre x name \<noteq> None"
    then have "under (pre @ tn_name x) name" using findObj_under(1) by blast
    from under_unique [OF this assms(1)] show False using assms(2) Cons.prems named_no_dot by auto
  qed
  with Cons show ?case by simp
qed simp

lemma findObj_at: "named nd \<Longrightarrow> (r, q) \<in> set (nodes_at pre nd) \<Longrightarrow> findObj pre nd (q @ tn_name r) = Some (r, q)"
proof (induction pre nd rule: nodes_at.induct)
  case (1 pre t n i as ks cnt)
  show ?case
  proof (cases "(r, q) = (TNode t n i as ks cnt, pre)")
    case False
    with 1(3) obtain k where k: "k \<in> set ks" and r: "(r, q) \<in> set (nodes_at (pre @ n @ dot) k)" by auto
    from nodes_at_under [OF r] have u: "under ((pre @ n @ dot) @ tn_name k) (q @ tn_name r)" .
    from split_list [OF k] obtain xs ys where ks: "ks = xs @ k # ys" by blast
    from 1(2) have "tn_name k \<notin> tn_name ` set xs" and "\<forall>x\<in>set xs. named x" and nk: "named k" by (simp_all add: ks)
    then have xs: "\<forall>x\<in>set xs. named x \<and> tn_name x \<noteq> tn_name k" by (metis imageI)
    from findObjs_skip [OF u nk xs] 1(1) [OF k nk r]
    have "findObjs (pre @ n @ dot) ks (q @ tn_name r) = Some (r, q)" by (simp add: ks)
    moreover have "pre @ n \<noteq> q @ tn_name r" using u by (auto simp: under_def dot_def)
    ultimately show ?thesis by simp
  qed simp
qed

subsection \<open>The names a topology gets\<close>

definition child_name :: "obj_type \<Rightarrow> nat \<Rightarrow> string" where
  "child_name t j = map tolower (objTypeToString t @ show_nat j)"

definition kind_types :: "obj_type set" where
  "kind_types = {OBJ_NODE, OBJ_SOCKET, OBJ_CORE}"

lemma tolower_digit: "is_digit c \<Longrightarrow> tolower c = c"
  by (auto simp: tolower_def is_digit_def)

lemma map_tolower_show_nat [simp]: "map tolower (show_nat j) = show_nat j"
  using show_nat_digits [of j] by (simp add: map_idI tolower_digit)

lemma kind_names:
  "child_name OBJ_NODE j = ''node'' @ show_nat j" "child_name OBJ_SOCKET j = ''socket'' @ show_nat j"
  "child_name OBJ_CORE j = ''core'' @ show_nat j"
  unfolding child_name_def map_append map_tolower_show_nat append_same_eq by code_simp+

declare show_nat_inject [simp]

lemma child_name_inject: "t \<in> kind_types \<Longrightarrow> u \<in> kind_types \<Longrightarrow> child_name t i = child_name u j \<longleftrightarrow> t = u \<and> i = j"
  by (auto simp: kind_types_def kind_names)

lemma child_name_no_dot: "t \<in> kind_types \<Longrightarrow> CHR ''.'' \<notin> set (child_name t i)"
proof -
  have "\<not> is_digit (CHR ''.'')" by code_simp
  then have "CHR ''.'' \<notin> set (show_nat i)" using show_nat_digits by blast
  then show "t \<in> kind_types \<Longrightarrow> CHR ''.'' \<notin> set (child_name t i)" by (auto simp: kind_types_def kind_names)
qed

fun numbered :: "tnode \<Rightarrow> bool" where
  "numbered (TNode t n i as ks cnt) \<longleftrightarrow>
     t \<noteq> OBJ_MEM \<and> CHR ''.'' \<notin> set n \<and> distinct (map tn_name ks) \<and>
     (\<forall>k\<in>set ks. numbered k \<and> (\<exists>u\<in>kind_types. \<exists>j<cnt u. tn_name k = child_name u j))"

fun plain_topo :: "hobj \<Rightarrow> bool" where
  "plain_topo (HObj k i cs) \<longleftrightarrow> k \<noteq> HWLOC_OBJ_NODE \<and> 0 \<le> i \<and> (\<forall>c\<in>set cs. plain_topo c)"

lemma tn_name_attach [simp]: "tn_name (attach p k) = tn_name p"
  by (cases p) simp

lemma addChild_numbered:
  "addChild p t i = (me, p') \<Longrightarrow> 0 \<le> i \<Longrightarrow> me = leaf t (child_name t (tn_count p t)) i
    \<and> p' = (case p of TNode pt pn pidx pa ks cnt \<Rightarrow> TNode pt pn pidx pa ks (cnt(t := Suc (cnt t))))"
  by (cases p) (auto simp: addChild_def child_name_def)

lemma tn_name_initHierarchy:
  "plain_topo ob \<Longrightarrow> tn_name (initHierarchy ob p) = tn_name p"
  "\<forall>ob\<in>set obs. plain_topo ob \<Longrightarrow> tn_name (initHierarchies obs p) = tn_name p"
proof (induction ob p and obs p rule: initHierarchy_initHierarchies.induct)
  case (1 k i cs p)
  then show ?case
    by (cases p) (auto simp: addChild_def split: option.splits)
qed simp_all

lemma numbered_attach:
  assumes "numbered p" and "numbered k" and "t \<in> kind_types" and "tn_name k = child_name t (tn_count p t)"
  shows "numbered (attach (case p of TNode pt pn pidx pa ks cnt \<Rightarrow> TNode pt pn pidx pa ks (cnt(t := Suc (cnt t)))) k)"
proof (cases p)
  case (TNode pt pn pidx pa ks cnt)
  have "tn_name k \<notin> tn_name ` set ks"
  proof
    assume "tn_name k \<in> tn_name ` set ks"
    then obtain u j where "u \<in> kind_types" "j < cnt u" "child_name t (cnt t) = child_name u j"
      using assms(1,4) TNode by auto
    then show False using child_name_inject [OF assms(3)] by auto
  qed
  moreover have "\<exists>u\<in>kind_types. \<exists>j<(cnt(t := Suc (cnt t))) u. tn_name x = child_name u j" if "x \<in> set (ks @ [k])" for x
  proof (cases "x = k")
    case True
    with assms(3,4) TNode show ?thesis by (intro bexI [of _ t] exI [of _ "cnt t"]) simp_all
  next
    case False
    with that assms(1) TNode obtain u j where "u \<in> kind_types" "j < cnt u" "tn_name x = child_name u j" by auto
    then show ?thesis by (intro bexI [of _ u] exI [of _ j]) auto
  qed
  ultimately show ?thesis using assms(1,2) TNode by simp
qed

lemma convertType_kind: "convertType k = Some t \<Longrightarrow> k \<noteq> HWLOC_OBJ_NODE \<Longrightarrow> t \<in> kind_types"
  by (cases k) (auto simp: kind_types_def)

lemma numbered_initHierarchy:
  "plain_topo ob \<Longrightarrow> numbered p \<Longrightarrow> numbered (initHierarchy ob p)"
  "\<forall>ob\<in>set obs. plain_topo ob \<Longrightarrow> numbered p \<Longrightarrow> numbered (initHierarchies obs p)"
proof (induction ob p and obs p rule: initHierarchy_initHierarchies.induct)
  case (1 k i cs p)
  show ?case
  proof (cases "convertType k")
    case None
    with 1 show ?thesis by simp
  next
    case (Some t)
    obtain me p' where a: "addChild p t i = (me, p')" by (cases "addChild p t i")
    from 1(3) Some have t: "t \<in> kind_types" and cs: "\<forall>c\<in>set cs. plain_topo c" and i: "0 \<le> i"
      using convertType_kind by auto
    note me = addChild_numbered [OF a i]
    have "numbered me"
      using me child_name_no_dot [OF t] t by (auto simp: leaf_def kind_types_def)
    from 1(2) [OF Some a [symmetric] refl cs this] tn_name_initHierarchy(2) [OF cs]
    have "numbered (initHierarchies cs me)" "tn_name (initHierarchies cs me) = child_name t (tn_count p t)"
      using me by (simp_all add: leaf_def)
    from numbered_attach [OF 1(4) this(1) t this(2)] show ?thesis using me by (simp add: Some a)
  qed
qed simp_all

lemma numbered_reorder:
  "numbered nd \<Longrightarrow> reorderObjects nd = (nd, [])"
  "\<forall>k\<in>set ks. numbered k \<Longrightarrow> reorderAll ks = (ks, [])"
  by (induction nd and ks rule: reorderObjects_reorderAll.induct) auto

lemma numbered_named: "numbered nd \<Longrightarrow> named nd"
  by (induction nd) auto

lemma tn_name_tx2 [simp]: "tn_name (configureTX2 nd) = tn_name nd"
  by (cases nd) simp

lemma tn_name_tx2_comp [simp]: "tn_name \<circ> configureTX2 = tn_name"
  by (simp add: fun_eq_iff)

definition tx2_names :: "string list" where
  "tx2_names = [''tx2_core'', ''tx2_sram'', ''tx2_mem'', ''tx2_soc'']"

lemma addChild_tx2:
  "map (\<lambda>u. fst (addChild (TNode t n i as ks cnt) u (- 1))) tx2_types
     = map2 (\<lambda>u m. leaf u m i) tx2_types tx2_names"
proof -
  have "map (\<lambda>u. map tolower (objTypeToString u)) tx2_types = tx2_names" by code_simp
  then show ?thesis by (simp add: addChild_def tx2_types_def tx2_names_def)
qed

lemma named_tx2: "numbered nd \<Longrightarrow> named (configureTX2 nd)"
proof (induction nd rule: configureTX2.induct)
  case (1 t n i as ks cnt)
  obtain new where new: "map2 (\<lambda>u m. leaf u m i) tx2_types tx2_names = new" by blast
  then have m: "map tn_name new = tx2_names" and nn: "\<forall>k\<in>set new. named k" and d: "distinct tx2_names"
    by (auto simp: tx2_names_def tx2_types_def leaf_def)
  have "tn_name k \<notin> set tx2_names" if "k \<in> set ks" for k
  proof -
    from 1(2) that obtain u j where "u \<in> kind_types" and k: "tn_name k = child_name u j" by auto
    then show ?thesis by (auto simp: kind_types_def k kind_names tx2_names_def)
  qed
  moreover have "tn_name ` set new = set tx2_names" by (simp only: m flip: set_map)
  ultimately have i: "tn_name ` set ks \<inter> tn_name ` set new = {}" by auto
  have d': "distinct (map tn_name new)" by (simp only: m d)
  show ?case
  proof (cases "t = OBJ_SOCKET")
    case True
    then show ?thesis using 1 nn i d' unfolding configureTX2.simps addChild_tx2 new named.simps
      by (simp add: image_image Ball_def) blast
  qed (use 1 in simp)
qed

lemma named_prune:
  "pruneObjects ms nd = Inr (b, nd') \<Longrightarrow> tn_name nd' = tn_name nd \<and> (named nd \<longrightarrow> named nd')"
  "pruneAll ms ks = Inr ks' \<Longrightarrow> set (map tn_name ks') \<subseteq> set (map tn_name ks)
     \<and> (distinct (map tn_name ks) \<longrightarrow> distinct (map tn_name ks')) \<and> ((\<forall>k\<in>set ks. named k) \<longrightarrow> (\<forall>k\<in>set ks'. named k))"
proof (induction ms nd and ms ks arbitrary: b nd' and ks' rule: pruneObjects_pruneAll.induct)
  case (1 ms t n i as ks cnt)
  then obtain ks' where k: "pruneAll ms ks = Inr ks'" and nd': "nd' = TNode t n i as ks' cnt"
    by (auto simp: rbind_eq_Inr_iff Let_def)
  from 1(1) [OF k] show ?case by (simp add: nd')
next
  case (3 ms k ks)
  then obtain b k' ks1 where k: "pruneObjects ms k = Inr (b, k')" and ks: "pruneAll ms ks = Inr ks1"
    and r: "ks' = (if b then k' # ks1 else ks1)"
    by (auto simp: rbind_eq_Inr_iff)
  from 3(1) [OF k] 3(2) [OF ks] show ?case by (auto simp: r)
qed simp

lemma named_initAttributes:
  "initAttributes ms nd ds = Inr (nd', ds') \<Longrightarrow> tn_name nd' = tn_name nd \<and> (named nd \<longrightarrow> named nd')"
  "initAttributesAll ms ks ds = Inr (ks', ds') \<Longrightarrow> map tn_name ks' = map tn_name ks
     \<and> ((\<forall>k\<in>set ks. named k) \<longrightarrow> (\<forall>k\<in>set ks'. named k))"
proof (induction ms nd ds and ms ks ds arbitrary: nd' ds' and ks' ds' rule: initAttributes_initAttributesAll.induct)
  case (1 ms t n i as ks cnt ds)
  then obtain ks' d1 as' where k: "initAttributesAll ms ks ds = Inr (ks', d1)" and nd': "nd' = TNode t n i as' ks' cnt"
    by (auto simp: rbind_eq_Inr_iff)
  from 1(1) [OF k] show ?case by (simp add: nd')
next
  case (3 ms k ks ds)
  then show ?case by (fastforce simp: rbind_eq_Inr_iff)
qed simp

text \<open>
  C13. On a machine whose topology has no memory nodes every object of the configuration has a name of its own: the lookup of its full name
  gives that object back, under every choice of plugins and with the extra objects of a ThunderX2.
\<close>

theorem hwloc_lookup_roundtrip:
  assumes "plain_topo topo" and "hwloc_new loader sysname libs topo = Inr h" and "(nd, pre) \<in> set (nodes_at [] (h_root h))"
  shows "h_find h (pre @ tn_name nd) = Some (nd, pre)"
proof -
  have "numbered (leaf OBJ_PLATFORM ''plat'' 0)" by (simp add: leaf_def)
  from numbered_initHierarchy(1) [OF assms(1) this] have n: "numbered (hwloc_tree topo)"
    by (simp add: hwloc_tree_def numbered_reorder)
  from hwloc_new_steps [OF assms(2)] obtain t2 ms b t3 ds where
    t2: "t2 = configureTX2 (hwloc_tree topo) \<or> t2 = hwloc_tree topo"
    and p: "pruneObjects ms t2 = Inr (b, t3)" and i: "initAttributes ms t3 [] = Inr (h_root h, ds)" by blast
  from t2 n have "named t2" using named_tx2 numbered_named by blast
  with named_prune(1) [OF p] named_initAttributes(1) [OF i] have "named (h_root h)" by blast
  from findObj_at [OF this assms(3)] show ?thesis by (simp add: h_find_def)
qed

lemma in_set_mapE: "y \<in> set (map f xs) \<Longrightarrow> (\<And>x. x \<in> set xs \<Longrightarrow> f x = y \<Longrightarrow> P) \<Longrightarrow> P"
  by auto

theorem hwloc_lookup_roundtrip_witness:
  "\<exists>h nd. hwloc_new two_plugins ''Linux'' [''rapl'', ''cpu''] one_socket = Inr h
     \<and> (nd, ''plat.node0.socket0.'') \<in> set (nodes_at [] (h_root h)) \<and> tn_name nd = ''core0''
     \<and> h_find h (''plat.node0.socket0.'' @ tn_name nd) = Some (nd, ''plat.node0.socket0.'')"
proof -
  have "rbind (hwloc_new two_plugins ''Linux'' [''rapl'', ''cpu''] one_socket) (\<lambda>h.
      Inr (map (\<lambda>(nd, q). (q, tn_name nd)) (nodes_at [] (h_root h))))
    = Inr [('''', ''plat''), (''plat.'', ''node0''), (''plat.node0.'', ''socket0''), (''plat.node0.socket0.'', ''core0'')]"
    by code_simp
  then obtain h where h: "hwloc_new two_plugins ''Linux'' [''rapl'', ''cpu''] one_socket = Inr h"
    and l: "map (\<lambda>(nd, q). (q, tn_name nd)) (nodes_at [] (h_root h))
      = [('''', ''plat''), (''plat.'', ''node0''), (''plat.node0.'', ''socket0''), (''plat.node0.socket0.'', ''core0'')]"
    by (auto simp: rbind_eq_Inr_iff)
  have "(''plat.node0.socket0.'', ''core0'') \<in> set (map (\<lambda>(nd, q). (q, tn_name nd)) (nodes_at [] (h_root h)))"
    unfolding l by simp
  then obtain z where "z \<in> set (nodes_at [] (h_root h))" and "(case z of (nd, q) \<Rightarrow> (q, tn_name nd)) = (''plat.node0.socket0.'', ''core0'')"
    by (rule in_set_mapE)
  moreover obtain nd q where "z = (nd, q)" by (rule prod.exhaust)
  ultimately have nd: "(nd, ''plat.node0.socket0.'') \<in> set (nodes_at [] (h_root h))" and c: "tn_name nd = ''core0''"
    by simp_all
  have "plain_topo one_socket" by code_simp
  from hwloc_lookup_roundtrip [OF this h nd] h nd c show ?thesis by (intro exI conjI)
qed

subsection \<open>Machines with several memory nodes\<close>

definition numa_node :: "nat \<Rightarrow> hobj" where
  "numa_node i = HObj HWLOC_OBJ_NODE (int i) [HObj HWLOC_OBJ_SOCKET (int i) []]"

definition numa_topo :: "nat \<Rightarrow> hobj" where
  "numa_topo n = HObj HWLOC_OBJ_MACHINE 0 (map numa_node [0..<n])"

definition first_socket :: "nat \<Rightarrow> tnode" where
  "first_socket i = leaf OBJ_SOCKET ''socket0'' (int i)"

definition numa_mem :: "nat \<Rightarrow> tnode list \<Rightarrow> tnode" where
  "numa_mem i ks = TNode OBJ_MEM (child_name OBJ_MEM i) (int i) (\<lambda>_. None) ks ((\<lambda>_. 0)(OBJ_SOCKET := 1))"

lemma child_name_socket0: "child_name OBJ_SOCKET 0 = ''socket0''"
  by code_simp

lemma init_numa_node:
  "initHierarchy (numa_node i) (TNode OBJ_NODE n x as ks (cnt(OBJ_MEM := i)))
   = TNode OBJ_NODE n x as (ks @ [numa_mem i [first_socket i]]) (cnt(OBJ_MEM := Suc i))"
  using child_name_socket0
  by (simp add: numa_node_def addChild_def leaf_def first_socket_def child_name_def numa_mem_def)

lemma init_numa_nodes:
  "initHierarchies (map numa_node [m..<m + n]) (TNode OBJ_NODE nm x as ks (cnt(OBJ_MEM := m)))
   = TNode OBJ_NODE nm x as (ks @ map (\<lambda>i. numa_mem i [first_socket i]) [m..<m + n]) (cnt(OBJ_MEM := m + n))"
proof (induction n arbitrary: m ks)
  case (Suc n)
  have e: "[m..<m + Suc n] = m # [Suc m..<Suc m + n]" by (simp add: upt_rec)
  show ?case
    unfolding e list.map initHierarchies.simps init_numa_node Suc by (simp add: fun_upd_def)
qed simp

lemma reorder_mems:
  "reorderAll (map (\<lambda>i. numa_mem i [first_socket i]) xs) = (map (\<lambda>i. numa_mem i []) xs, map first_socket xs)"
  by (induction xs) (simp_all add: numa_mem_def)

lemma numa_tree:
  "hwloc_tree (numa_topo n) = TNode OBJ_PLATFORM ''plat'' 0 (\<lambda>_. None)
     [TNode OBJ_NODE ''node0'' 0 (\<lambda>_. None) (map (\<lambda>i. numa_mem i []) [0..<n] @ map first_socket [0..<n]) ((\<lambda>_. 0)(OBJ_MEM := n))]
     ((\<lambda>_. 0)(OBJ_NODE := 1))"
proof -
  have "map tolower (objTypeToString OBJ_NODE @ show_nat 0) = ''node0''" by code_simp
  then have "initHierarchy (numa_topo n) (leaf OBJ_PLATFORM ''plat'' 0) = TNode OBJ_PLATFORM ''plat'' 0 (\<lambda>_. None)
     [initHierarchies (map numa_node [0..<0 + n]) (TNode OBJ_NODE ''node0'' 0 (\<lambda>_. None) [] ((\<lambda>_. 0)(OBJ_MEM := 0)))]
     ((\<lambda>_. 0)(OBJ_NODE := 1))"
    by (simp add: numa_topo_def addChild_def leaf_def fun_upd_idem)
  then show ?thesis
    unfolding hwloc_tree_def init_numa_nodes by (simp add: reorder_mems)
qed

lemma no_socket_in_mems:
  "findObjs pre (map (\<lambda>i. numa_mem i []) xs @ ks) name = Some (nd, q) \<Longrightarrow> tn_type nd = OBJ_SOCKET \<Longrightarrow> findObjs pre ks name = Some (nd, q)"
  by (induction xs) (auto simp: numa_mem_def split: if_splits)

lemma findObjs_first_socket:
  "findObjs pre (map first_socket (i # xs)) name = Some (nd, q) \<Longrightarrow> nd = first_socket i"
  by (induction xs) (auto simp: first_socket_def leaf_def split: if_splits)

text \<open>
  On a machine with several memory nodes, each with a socket of its own, the code numbers the sockets within their memory nodes and
  then moves them all below the machine: there the node has as many sockets as memory nodes, with their indices, but every one of
  them is called \<open>socket0\<close>, and whatever name is looked up, the only socket found is the first.
\<close>

theorem hwloc_numa_sockets_collide:
  "\<exists>node. tn_kids (hwloc_tree (numa_topo n)) = [node] \<and> tn_name node = ''node0''
     \<and> map (\<lambda>k. (tn_name k, tn_index k)) (filter (\<lambda>k. tn_type k = OBJ_SOCKET) (tn_kids node)) = map (\<lambda>i. (''socket0'', int i)) [0..<n]
     \<and> \<not> (\<exists>name nd q. findObj [] (hwloc_tree (numa_topo n)) name = Some (nd, q) \<and> tn_type nd = OBJ_SOCKET \<and> tn_index nd \<noteq> 0)"
proof -
  have "tn_index nd = 0"
    if f: "findObj [] (hwloc_tree (numa_topo n)) name = Some (nd, q)" and t: "tn_type nd = OBJ_SOCKET" for name nd q
  proof -
    from f t have "findObjs (''plat'' @ dot @ ''node0'' @ dot) (map (\<lambda>i. numa_mem i []) [0..<n] @ map first_socket [0..<n]) name = Some (nd, q)"
      by (auto simp: numa_tree split: if_splits option.splits)
    from no_socket_in_mems [OF this t] have s: "findObjs (''plat'' @ dot @ ''node0'' @ dot) (map first_socket [0..<n]) name = Some (nd, q)" .
    then have "0 < n" by (cases n) simp_all
    then obtain xs where x: "[0..<n] = 0 # xs" using upt_conv_Cons by blast
    from findObjs_first_socket [OF s [unfolded x]] show ?thesis by (simp add: first_socket_def leaf_def)
  qed
  then have first: "\<not> (\<exists>name nd q. findObj [] (hwloc_tree (numa_topo n)) name = Some (nd, q) \<and> tn_type nd = OBJ_SOCKET \<and> tn_index nd \<noteq> 0)"
    by blast
  have f: "filter (\<lambda>k. tn_type k = OBJ_SOCKET) (map (\<lambda>i. numa_mem i []) xs @ map first_socket xs) = map first_socket xs" for xs
    by (simp add: filter_False filter_True numa_mem_def first_socket_def leaf_def)
  have l: "map (\<lambda>k. (tn_name k, tn_index k)) (map first_socket xs) = map (\<lambda>i. (''socket0'', int i)) xs" for xs
    by (simp add: first_socket_def leaf_def)
  obtain node where "node = TNode OBJ_NODE ''node0'' 0 (\<lambda>_. None) (map (\<lambda>i. numa_mem i []) [0..<n] @ map first_socket [0..<n])
    ((\<lambda>_. 0)(OBJ_MEM := n))" by blast
  then have "tn_kids (hwloc_tree (numa_topo n)) = [node]" and "tn_name node = ''node0''"
    and k: "tn_kids node = map (\<lambda>i. numa_mem i []) [0..<n] @ map first_socket [0..<n]"
    by (simp_all add: numa_tree)
  moreover have "map (\<lambda>k. (tn_name k, tn_index k)) (filter (\<lambda>k. tn_type k = OBJ_SOCKET) (tn_kids node)) = map (\<lambda>i. (''socket0'', int i)) [0..<n]"
    unfolding k f l ..
  ultimately show ?thesis using first by (intro exI [of _ node] conjI)
qed

end
