(* ===== verification/Wu_Dev.thy ===== *)
theory Wu_Dev
  imports Plugin_Iface
begin

text \<open>
  \<^verbatim>\<open>src/plugins/pwr_wudev.c\<close>: a Watts Up power meter on a serial line.  The state is the serial port (what is still to come from
  the meter, what was sent to it) and the operating system.
\<close>

subsection \<open>The serial port\<close>

text \<open>
  One event per call of \<^verbatim>\<open>read\<close>: a byte, nothing within the time limit of the port, or an error.  After the last event nothing more
  comes.  \<open>wu_accepts\<close> says whether the port takes the whole of a string that is written.
\<close>

datatype wu_event = WuByte char | WuNothing | WuError

record wu_port =
  wu_in :: "wu_event list"
  wu_out :: "string list"
  wu_accepts :: "string list \<Rightarrow> string \<Rightarrow> bool"

type_synonym wu_state = "wu_port \<times> os"

definition PORT_SIZE :: nat where
  "PORT_SIZE = 256"

text \<open>\<^verbatim>\<open>wudev_parse\<close>: the port name is copied into a fixed buffer.\<close>

definition wudev_parse :: "string \<Rightarrow> (string \<times> int) option res" where
  "wudev_parse initstr =
     (case strtok '':'' initstr of
        None \<Rightarrow> Inr None
      | Some (token, r) \<Rightarrow>
          if length token < PORT_SIZE then
            (case strtok '':'' r of None \<Rightarrow> Inr None | Some (token2, _) \<Rightarrow> Inr (Some (token, atoi token2)))
          else Inl MemoryFault)"

definition wu_bauds :: "int list" where
  "wu_bauds = [4800, 9600, 19200, 38400, 57600, 115200]"

text \<open>
  \<open>opener\<close> is opening a terminal and reading its settings, \<open>setter\<close> is giving it the speed and the raw mode.  The failing
  branches leave the terminal open.
\<close>

definition wudev_open :: "(string \<Rightarrow> wu_port option) \<Rightarrow> (wu_port \<Rightarrow> int \<Rightarrow> wu_port option) \<Rightarrow> string \<Rightarrow> int \<Rightarrow> wu_port option" where
  "wudev_open opener setter port baud =
     (case opener port of
        None \<Rightarrow> None
      | Some p \<Rightarrow> if baud \<in> set wu_bauds then setter p baud else None)"

definition wudev_write :: "wu_port \<Rightarrow> string \<Rightarrow> int \<times> wu_port" where
  "wudev_write p str =
     (if str = [] then (0, p)
      else if wu_accepts p (wu_out p) str then (0, p\<lparr>wu_out := wu_out p @ [str]\<rparr>)
      else (-1, p))"

text \<open>
  \<^verbatim>\<open>wudev_read\<close>: the loop stores every byte but line ends and stops after the terminator.  \<open>c\<close> is the byte last read; the
  test at the end of a turn in which nothing came compares it too, and before the first byte it has no value.
  \<open>buf\<close> is what is stored so far, the second argument the size of the caller's array.
\<close>

definition wu_keep :: "string \<Rightarrow> char \<Rightarrow> string" where
  "wu_keep buf c = (if c = CHR 0x0D \<or> c = CHR 0x0A then buf else buf @ [c])"

fun wu_loop :: "char \<Rightarrow> nat \<Rightarrow> char option \<Rightarrow> string \<Rightarrow> wu_event list \<Rightarrow> ((int \<times> string) \<times> wu_event list) res" where
  "wu_loop term cap c buf [] = Inl Diverges"
| "wu_loop term cap c buf (WuError # evs) = Inr ((-1, buf), evs)"
| "wu_loop term cap c buf (WuNothing # evs) =
     (case c of
        None \<Rightarrow> Inl UninitRead
      | Some d \<Rightarrow> if d = term then Inr ((0, buf), evs) else wu_loop term cap c buf evs)"
| "wu_loop term cap c buf (WuByte d # evs) =
     (if length (wu_keep buf d) \<le> cap then
        if d = term then Inr ((0, wu_keep buf d), evs) else wu_loop term cap (Some d) (wu_keep buf d) evs
      else Inl MemoryFault)"

text \<open>The terminating null is stored behind the last byte.\<close>

definition wudev_read :: "wu_port \<Rightarrow> nat \<Rightarrow> char \<Rightarrow> ((int \<times> string) \<times> wu_port) res" where
  "wudev_read p cap term =
     rbind (wu_loop term cap None [] (wu_in p)) (\<lambda>((rc, buf), evs).
     if rc = 0 \<and> cap \<le> length buf then Inl MemoryFault else Inr ((rc, buf), p\<lparr>wu_in := evs\<rparr>))"

text \<open>\<^verbatim>\<open>wudev_extract\<close>: the field at a position, counted from one, as an integer; too few fields give \<open>0\<close>.\<close>

fun nth_token :: "nat \<Rightarrow> string \<Rightarrow> string option" where
  "nth_token 0 s = None"
| "nth_token (Suc n) s =
     (case strtok '','' s of
        None \<Rightarrow> None
      | Some (token, r) \<Rightarrow> if n = 0 then Some token else nth_token n r)"

definition wudev_extract :: "string \<Rightarrow> nat \<Rightarrow> int" where
  "wudev_extract buf pos = (case nth_token pos buf of None \<Rightarrow> 0 | Some token \<Rightarrow> atol token)"

subsection \<open>The plugin\<close>

definition pwr_wudev_init ::
  "(string \<Rightarrow> wu_port option) \<Rightarrow> (wu_port \<Rightarrow> int \<Rightarrow> wu_port option) \<Rightarrow> string option \<Rightarrow> wu_port option res" where
  "pwr_wudev_init opener setter initstr =
     (case initstr of
        None \<Rightarrow> Inr None
      | Some s \<Rightarrow> rbind (wudev_parse s) (\<lambda>r.
          Inr (case r of None \<Rightarrow> None | Some (port, baud) \<Rightarrow> wudev_open opener setter port baud)))"

definition pwr_wudev_final :: "wu_state \<Rightarrow> int \<times> os" where
  "pwr_wudev_final s = free_fd s"

text \<open>A descriptor is the port of its device.\<close>

definition pwr_wudev_open :: "wu_port \<Rightarrow> string \<Rightarrow> wu_port" where
  "pwr_wudev_open dev openstr = dev"

definition pwr_wudev_close :: "wu_state \<Rightarrow> int \<times> os" where
  "pwr_wudev_close s = free_fd s"

definition WU_COMMAND :: string where
  "WU_COMMAND = ''#L,W,3,E,0,1;''"

definition wu_value :: "string \<Rightarrow> attr \<Rightarrow> real option" where
  "wu_value buf a =
     (case a of
        ATTR_VOLTAGE \<Rightarrow> Some (of_int (wudev_extract buf 5) / 10)
      | ATTR_CURRENT \<Rightarrow> Some (of_int (wudev_extract buf 6) / 1000)
      | ATTR_POWER \<Rightarrow> Some (of_int (wudev_extract buf 4) / 10)
      | ATTR_ENERGY \<Rightarrow> Some (of_int (wudev_extract buf 7) / 10 * 3600)
      | _ \<Rightarrow> None)"

definition pwr_wudev_read :: "wu_state reader" where
  "pwr_wudev_read s a v len t =
     (let (p, w) = s; (rc, p1) = wudev_write p WU_COMMAND
      in if rc = -1 then Inr ((-1, v, t), (p1, w))
         else rbind (wudev_read p1 256 (CHR '';'')) (\<lambda>((rc2, buf), p2).
              if rc2 \<noteq> 0 then Inr ((-1, v, t), (p2, w))
              else if buf = [] then Inr ((0, v, t), (p2, w))
              else let (tv, w2) = gettimeofday w
                   in rbind (store_ts (time_ns tv) t) (\<lambda>t'.
                      Inr ((0, (case wu_value buf a of None \<Rightarrow> v | Some x \<Rightarrow> Dbl x), t'), (p2, w2)))))"

definition pwr_wudev_write :: "wu_state writer" where
  "pwr_wudev_write s a v len = Inr ((0, v), s)"

definition pwr_wudev_readv :: "wu_state vreader" where
  "pwr_wudev_readv = readv_of pwr_wudev_read"

definition pwr_wudev_writev :: "wu_state vwriter" where
  "pwr_wudev_writev = writev_of pwr_wudev_write"

definition pwr_wudev_time :: "wu_state \<Rightarrow> ts_ptr \<Rightarrow> ((int \<times> ts_ptr) \<times> wu_state) res" where
  "pwr_wudev_time = time_of_read pwr_wudev_read ATTR_POWER"

definition pwr_wudev_clear :: "wu_state \<Rightarrow> int \<times> wu_state" where
  "pwr_wudev_clear s = (0, s)"

definition wu_ops :: "wu_state devops" where
  "wu_ops = \<lparr>d_read = pwr_wudev_read, d_write = pwr_wudev_write,
     d_readv = Some pwr_wudev_readv, d_writev = Some pwr_wudev_writev,
     d_log_start = None, d_log_stop = None, d_get_samples = None\<rparr>"

text \<open>A failed read leaves the value and the time stamp alone, and the meter has no files.\<close>

lemma pwr_wudev_read_world:
  "pwr_wudev_read s a v len t = Inr ((rc, v', t'), s') \<Longrightarrow> snd s' = snd s \<or> snd s' = snd (gettimeofday (snd s))"
  by (auto simp: pwr_wudev_read_def res_simps Let_def split: prod.splits if_splits)

interpretation wu: careful_reader pwr_wudev_read snd
proof
  fix s :: wu_state and a v len t rc v' t' s'
  assume r: "pwr_wudev_read s a v len t = Inr ((rc, v', t'), s')"
  show "rc = 0 \<or> rc = - 1" and "t' = None \<longleftrightarrow> t = None" and "rc \<noteq> 0 \<Longrightarrow> v' = v \<and> t' = t"
    using r by (auto simp: pwr_wudev_read_def res_simps Let_def split: prod.splits if_splits)
  show "files (snd s') = files (snd s) \<and> wlog (snd s') = wlog (snd s)"
    using pwr_wudev_read_world [OF r] by (auto simp: gettimeofday_def)
qed

interpretation wuw: attr_writer pwr_wudev_write
  by unfold_locales (simp add: pwr_wudev_write_def)

subsection \<open>What a read returns\<close>

lemma strtok_field:
  assumes "f \<noteq> []" and "CHR '','' \<notin> set f"
  shows "strtok '','' (f @ CHR '','' # rest) = Some (f, rest)"
proof -
  from assms obtain c cs where "f = c # cs" and "c \<noteq> CHR '',''" by (cases f) auto
  then have "dropWhile (\<lambda>c. c \<in> set '','') (f @ CHR '','' # rest) = f @ CHR '','' # rest" by simp
  moreover have "\<forall>x\<in>set f. x \<noteq> CHR '',''" using assms(2) by auto
  then have "takeWhile (\<lambda>c. c \<notin> set '','') (f @ CHR '','' # rest) = f"
    and "dropWhile (\<lambda>c. c \<notin> set '','') (f @ CHR '','' # rest) = CHR '','' # rest"
    by (simp_all add: takeWhile_append2 dropWhile_append2)
  ultimately show ?thesis using assms(1) by (simp add: strtok_def)
qed

fun fields :: "string list \<Rightarrow> string \<Rightarrow> string" where
  "fields [] rest = rest"
| "fields (f # fs) rest = f @ CHR '','' # fields fs rest"

lemma nth_token_fields:
  "n < length fs \<Longrightarrow> \<forall>f\<in>set fs. f \<noteq> [] \<and> CHR '','' \<notin> set f \<Longrightarrow> nth_token (Suc n) (fields fs rest) = Some (fs ! n)"
proof (induction fs arbitrary: n)
  case (Cons f fs)
  then show ?case by (cases n) (simp_all add: strtok_field)
qed simp

text \<open>Bytes with gaps: after its first byte a line may come with any number of empty turns.\<close>

fun heard :: "wu_event list \<Rightarrow> string option" where
  "heard [] = Some []"
| "heard (WuByte c # evs) = map_option ((#) c) (heard evs)"
| "heard (WuNothing # evs) = heard evs"
| "heard (WuError # evs) = None"

lemma length_wu_keep: "length buf \<le> length (foldl wu_keep buf cs)"
proof (induction cs arbitrary: buf)
  case (Cons c cs)
  show ?case using Cons [of "wu_keep buf c"] by (auto simp: wu_keep_def split: if_splits)
qed simp

lemma wu_loop_heard:
  assumes "term \<noteq> CHR 0x0D" and "term \<noteq> CHR 0x0A"
  shows "heard evs = Some cs \<Longrightarrow> term \<notin> set cs \<Longrightarrow> d \<noteq> term \<Longrightarrow> length (foldl wu_keep buf cs) < cap
    \<Longrightarrow> wu_loop term cap (Some d) buf (evs @ WuByte term # rest) = Inr ((0, foldl wu_keep buf cs @ [term]), rest)"
proof (induction evs arbitrary: cs d buf rule: heard.induct)
  case 1
  with assms show ?case by (simp add: wu_keep_def)
next
  case (2 c evs)
  then obtain cs' where cs: "cs = c # cs'" and h: "heard evs = Some cs'" by auto
  have "length (wu_keep buf c) \<le> cap" using length_wu_keep [of "wu_keep buf c" cs'] 2(5) by (simp add: cs)
  moreover have "c \<noteq> term" "term \<notin> set cs'" using 2(3) by (auto simp: cs)
  ultimately show ?case using 2(5) 2(1) [OF h, of c "wu_keep buf c"] by (simp add: cs)
qed simp_all

lemma foldl_wu_keep: "foldl wu_keep buf cs = buf @ filter (\<lambda>c. c \<noteq> CHR 0x0D \<and> c \<noteq> CHR 0x0A) cs"
  by (induction cs arbitrary: buf) (simp_all add: wu_keep_def)

text \<open>A whole line, gaps and line ends left out, is what the read stores, with the terminator.\<close>

lemma wudev_read_line:
  assumes "wu_in p = WuByte c # evs @ WuByte (CHR '';'') # rest" and "heard (WuByte c # evs) = Some cs"
    and "CHR '';'' \<notin> set cs" and t: "filter (\<lambda>c. c \<noteq> CHR 0x0D \<and> c \<noteq> CHR 0x0A) cs = line" and "length line < 255"
  shows "wudev_read p 256 (CHR '';'') = Inr ((0, line @ '';''), p\<lparr>wu_in := rest\<rparr>)"
proof -
  from assms(2) obtain cs' where cs: "cs = c # cs'" and h: "heard evs = Some cs'" by auto
  have f: "foldl wu_keep (wu_keep [] c) cs' = line"
    using foldl_wu_keep [of "[]" cs] t by (simp add: cs)
  have "length (wu_keep [] c) \<le> 256" by (simp add: wu_keep_def)
  moreover have "wu_loop (CHR '';'') 256 (Some c) (wu_keep [] c) (evs @ WuByte (CHR '';'') # rest)
    = Inr ((0, line @ '';''), rest)"
    using wu_loop_heard [OF _ _ h, of "CHR '';''" c "wu_keep [] c" 256 rest] assms(3,5) by (auto simp: f cs)
  moreover have "c \<noteq> CHR '';''" using assms(3) by (auto simp: cs)
  ultimately show ?thesis
    using assms(1,5) by (simp add: wudev_read_def)
qed

lemma atol_show_int: "- (2 ^ 63) \<le> i \<Longrightarrow> i < 2 ^ 63 \<Longrightarrow> atol (show_int i) = i"
  using scan_int_show_int [of "[]" i] by (simp add: atol_def c_long_def)

lemma show_int_no_comma: "CHR '','' \<notin> set (show_int i)"
  using show_int_chars [of "CHR '',''" i] by (auto simp: is_digit_def char_code_def)

text \<open>The reply of the meter: three words, the power, the voltage, the current and the energy, and more.\<close>

definition wu_reply :: "string list \<Rightarrow> int \<Rightarrow> int \<Rightarrow> int \<Rightarrow> int \<Rightarrow> string \<Rightarrow> string" where
  "wu_reply header watts volts amps wh tail = fields (header @ map show_int [watts, volts, amps, wh]) tail"

lemma wudev_extract_reply:
  assumes "length header = 3" and "\<forall>f\<in>set header. f \<noteq> [] \<and> CHR '','' \<notin> set f"
    and "\<forall>i\<in>{watts, volts, amps, wh}. - (2 ^ 63) \<le> i \<and> i < 2 ^ 63"
  shows "wudev_extract (wu_reply header watts volts amps wh tail) 4 = watts"
    and "wudev_extract (wu_reply header watts volts amps wh tail) 5 = volts"
    and "wudev_extract (wu_reply header watts volts amps wh tail) 6 = amps"
    and "wudev_extract (wu_reply header watts volts amps wh tail) 7 = wh"
proof -
  let ?fs = "header @ map show_int [watts, volts, amps, wh]"
  have "\<forall>f\<in>set ?fs. f \<noteq> [] \<and> CHR '','' \<notin> set f"
    using assms(2) show_int_no_comma by auto
  then have f: "nth_token (Suc n) (fields ?fs tail) = Some (?fs ! n)" if "n < 7" for n
    using nth_token_fields [of n ?fs tail] that assms(1) by simp
  show "wudev_extract (wu_reply header watts volts amps wh tail) 4 = watts"
    "wudev_extract (wu_reply header watts volts amps wh tail) 5 = volts"
    "wudev_extract (wu_reply header watts volts amps wh tail) 6 = amps"
    "wudev_extract (wu_reply header watts volts amps wh tail) 7 = wh"
    using f [of 3] f [of 4] f [of 5] f [of 6] assms(1,3)
    by (simp_all add: wudev_extract_def wu_reply_def nth_append atol_show_int eval_nat_numeral del: nth_token.simps)
qed

text \<open>
  C39.  Reading the power meter: when it accepts the command and answers with a line of at most 254 characters that ends with a
  semicolon, in however many pieces and with whatever line ends in it, the four attributes it has are the numbers in the fourth to the
  seventh field in units of a volt, an ampere, a watt and a joule, another attribute leaves the value alone, and what follows the line
  stays for the next read.
\<close>

theorem pwr_wudev_read_reply:
  assumes "wu_accepts p (wu_out p) WU_COMMAND" and "wu_in p = WuByte c # evs @ WuByte (CHR '';'') # rest"
    and "heard (WuByte c # evs) = Some cs" and "CHR '';'' \<notin> set cs"
    and line: "filter (\<lambda>c. c \<noteq> CHR 0x0D \<and> c \<noteq> CHR 0x0A) cs = wu_reply header watts volts amps wh tail"
    and "length (wu_reply header watts volts amps wh tail) < 255"
    and "length header = 3" and "\<forall>f\<in>set header. f \<noteq> [] \<and> CHR '','' \<notin> set f"
    and "\<forall>i\<in>{watts, volts, amps, wh}. - (2 ^ 63) \<le> i \<and> i < 2 ^ 63"
  shows "pwr_wudev_read (p, w) a v len (Some t) = Inr
    ((0, (case a of ATTR_VOLTAGE \<Rightarrow> Dbl (volts / 10) | ATTR_CURRENT \<Rightarrow> Dbl (amps / 1000) | ATTR_POWER \<Rightarrow> Dbl (watts / 10)
               | ATTR_ENERGY \<Rightarrow> Dbl (wh * 360) | _ \<Rightarrow> v), Some (time_ns (clock w (ticks w)))),
     (p\<lparr>wu_in := rest, wu_out := wu_out p @ [WU_COMMAND]\<rparr>, w\<lparr>ticks := Suc (ticks w)\<rparr>))"
proof -
  let ?p = "p\<lparr>wu_out := wu_out p @ [WU_COMMAND]\<rparr>" and ?l = "wu_reply header watts volts amps wh tail"
  have "wudev_write p WU_COMMAND = (0, ?p)"
    using assms(1) by (simp add: wudev_write_def WU_COMMAND_def)
  moreover have "wudev_read ?p 256 (CHR '';'') = Inr ((0, ?l @ '';''), ?p\<lparr>wu_in := rest\<rparr>)"
    using wudev_read_line [OF _ assms(3,4) line assms(6), of ?p rest] assms(2) by simp
  moreover have "?l @ '';'' = wu_reply header watts volts amps wh (tail @ '';'')"
    by (induction header) (simp_all add: wu_reply_def)
  moreover have "wu_value (wu_reply header watts volts amps wh (tail @ '';'')) a =
    (case a of ATTR_VOLTAGE \<Rightarrow> Some (volts / 10) | ATTR_CURRENT \<Rightarrow> Some (amps / 1000) | ATTR_POWER \<Rightarrow> Some (watts / 10)
       | ATTR_ENERGY \<Rightarrow> Some (wh * 360) | _ \<Rightarrow> None)"
    using wudev_extract_reply [OF assms(7-9)] by (simp add: wu_value_def split: attr.split)
  moreover have "?l @ '';'' \<noteq> []" by simp
  ultimately show ?thesis
    by (simp add: pwr_wudev_read_def Let_def gettimeofday_def del: append_is_Nil_conv split: attr.split)
qed

text \<open>A meter that says nothing within the time limit makes the loop compare a byte that was never read.\<close>

lemma pwr_wudev_read_silent:
  "wu_accepts p (wu_out p) WU_COMMAND \<Longrightarrow> wu_in p = WuNothing # evs \<Longrightarrow> pwr_wudev_read (p, w) a v len t = Inl UninitRead"
  by (simp add: pwr_wudev_read_def wudev_write_def wudev_read_def WU_COMMAND_def)

text \<open>A line that does not end within the buffer is stored past its end.\<close>

lemma wu_loop_overrun:
  "term \<notin> set cs \<Longrightarrow> length buf \<le> cap \<Longrightarrow> cap < length (foldl wu_keep buf cs)
   \<Longrightarrow> wu_loop term cap d buf (map WuByte cs @ evs) = Inl MemoryFault"
proof (induction cs arbitrary: buf d)
  case (Cons c cs)
  then show ?case by (cases "length (wu_keep buf c) \<le> cap") auto
qed simp

definition wu_demo_port :: wu_port where
  "wu_demo_port = \<lparr>wu_in = WuByte (CHR 0x0A) # map WuByte ''#d,-'' @ WuNothing # map WuByte '',18,1234,1199,1030,56,7;'' @ [WuNothing],
     wu_out = [], wu_accepts = (\<lambda>_ _. True)\<rparr>"

definition wu_demo_os :: os where
  "wu_demo_os = \<lparr>files = Map.empty, can_write = (\<lambda>_. True), store = (\<lambda>_ d _. Some d), wlog = [], fds = 0,
     clock = (\<lambda>n. \<lparr>tv_sec = int n, tv_usec = 0\<rparr>), ticks = 0, msr = (\<lambda>_ _. None)\<rparr>"

theorem pwr_wudev_read_reply_witness:
  "pwr_wudev_read (wu_demo_port, wu_demo_os) ATTR_POWER Uninit 8 (Some 0) = Inr
     ((0, Dbl (1234 / 10), Some (time_ns (clock wu_demo_os (ticks wu_demo_os)))),
      (wu_demo_port\<lparr>wu_in := [WuNothing], wu_out := [WU_COMMAND]\<rparr>, wu_demo_os\<lparr>ticks := Suc (ticks wu_demo_os)\<rparr>))"
proof -
  let ?evs = "map WuByte ''#d,-'' @ WuNothing # map WuByte '',18,1234,1199,1030,56,7''"
  have n: "show_int 1234 = ''1234''" "show_int 1199 = ''1199''" "show_int 1030 = ''1030''" "show_int 56 = ''56''"
    by code_simp+
  then have r: "wu_reply [''#d'', ''-'', ''18''] 1234 1199 1030 56 ''7'' = ''#d,-,18,1234,1199,1030,56,7''"
    by (simp add: wu_reply_def)
  have p: "wu_in wu_demo_port = WuByte (CHR 0x0A) # ?evs @ WuByte (CHR '';'') # [WuNothing]"
    and out: "wu_out wu_demo_port = []" and acc: "wu_accepts wu_demo_port x y" for x y
    by (simp_all add: wu_demo_port_def)
  show ?thesis
    using pwr_wudev_read_reply [OF acc p, of _ "[''#d'', ''-'', ''18'']" 1234 1199 1030 56 "''7''" wu_demo_os ATTR_POWER Uninit 8 0]
    by (simp add: r out)
qed

end
