(* ===== verification/Ipmi_Dev.thy ===== *)
theory Ipmi_Dev
  imports Plugin_Iface C_Scanf
begin

text \<open>
  \<^verbatim>\<open>src/plugins/pwr_ipmi.c\<close>: the power of a node, which another program leaves in a file.  Whether the plugin has any object at
  all is decided by that file when the plugin is loaded.  The state is the descriptor, two numbers nothing reads, and
  the operating system.
\<close>

definition NODE_POWER :: string where
  "NODE_POWER = ''/tmp/NodePower''"

definition getNodePower :: "os \<Rightarrow> real option \<times> os" where
  "getNodePower w =
     (case open_rd w NODE_POWER of
        None \<Rightarrow> (None, w)
      | Some (Dir, w1) \<Rightarrow> (None, sys_close w1)
      | Some (Regular c, w1) \<Rightarrow> (map_option fst (scan_lf c), sys_close w1))"

record ipmi_fd =
  ipmi_objType :: "int option"
  ipmi_id :: "int option"

type_synonym ipmi_state = "ipmi_fd \<times> os"

text \<open>What \<^verbatim>\<open>sscanf\<close> does not store stays as \<^verbatim>\<open>malloc\<close> left it.\<close>

definition pwr_ipmi_dev_open :: "string \<Rightarrow> ipmi_fd" where
  "pwr_ipmi_dev_open openstr = (let (t, i) = sscanf_d_d openstr in \<lparr>ipmi_objType = t, ipmi_id = i\<rparr>)"

definition pwr_ipmi_dev_close :: "ipmi_state \<Rightarrow> int \<times> os" where
  "pwr_ipmi_dev_close s = free_fd s"

text \<open>The time is stored also when the read fails, and only if the caller wants it.\<close>

definition pwr_ipmi_dev_read :: "ipmi_state reader" where
  "pwr_ipmi_dev_read s a v len t =
     (let (fd, w) = s;
          ((ret, v1), w1) =
            (if a = ATTR_POWER then
               (case getNodePower w of
                  (Some x, w1) \<Rightarrow> ((RET_SUCCESS, Dbl x), w1)
                | (None, w1) \<Rightarrow> ((RET_FAILURE, v), w1))
             else ((RET_FAILURE, v), w))
      in case t of
           None \<Rightarrow> Inr ((ret, v1, None), (fd, w1))
         | Some _ \<Rightarrow> (let (now, w2) = getTime w1 in Inr ((ret, v1, Some (time_of_double now)), (fd, w2))))"

definition pwr_ipmi_dev_write :: "ipmi_state writer" where
  "pwr_ipmi_dev_write s a v len = Inr ((RET_FAILURE, v), s)"

definition ipmi_ops :: "ipmi_state devops" where
  "ipmi_ops = \<lparr>d_read = pwr_ipmi_dev_read, d_write = pwr_ipmi_dev_write, d_readv = None, d_writev = None,
     d_log_start = None, d_log_stop = None, d_get_samples = None\<rparr>"

definition pwr_ipmi_dev_init :: "string \<Rightarrow> ipmi_state devops" where
  "pwr_ipmi_dev_init initstr = ipmi_ops"

definition pwr_ipmi_dev_final :: "ipmi_state devops \<times> os \<Rightarrow> int \<times> os" where
  "pwr_ipmi_dev_final s = free_fd s"

lemma getNodePower_frame: "getNodePower w = (x, w') \<Longrightarrow> w' = w"
  by (auto simp: getNodePower_def open_rd_def sys_close_def split: option.splits fnode.splits)

text \<open>A read in one line: the status and the value come from the file, the time from the clock.\<close>

lemma pwr_ipmi_dev_read_eq:
  "pwr_ipmi_dev_read (fd, w) a v len t =
     (let x = (if a = ATTR_POWER then fst (getNodePower w) else None);
          rv = (case x of None \<Rightarrow> (RET_FAILURE, v) | Some y \<Rightarrow> (RET_SUCCESS, Dbl y))
      in Inr ((fst rv, snd rv, map_option (\<lambda>_. time_of_double (fst (getTime w))) t),
              (fd, if t = None then w else snd (getTime w))))"
  using getNodePower_frame [of w]
  by (cases "getNodePower w"; cases "fst (getNodePower w)"; cases t)
    (simp_all add: pwr_ipmi_dev_read_def Let_def split_beta)

interpretation ipmi: attr_reader pwr_ipmi_dev_read snd
proof
  fix s :: ipmi_state and a v len t rc v' t' s'
  assume "pwr_ipmi_dev_read s a v len t = Inr ((rc, v', t'), s')"
  then have r: "pwr_ipmi_dev_read (fst s, snd s) a v len t = Inr ((rc, v', t'), s')" by simp
  show "rc = 0 \<or> rc = - 1" and "t' = None \<longleftrightarrow> t = None"
    using r unfolding pwr_ipmi_dev_read_eq
    by (auto simp: Let_def RET_FAILURE_def RET_SUCCESS_def split: option.splits if_splits)
  show "files (snd s') = files (snd s) \<and> wlog (snd s') = wlog (snd s)"
    using r unfolding pwr_ipmi_dev_read_eq
    by (auto simp: Let_def getTime_def gettimeofday_def split: option.splits if_splits)
qed

interpretation ipmiw: attr_writer pwr_ipmi_dev_write
  by unfold_locales (simp add: pwr_ipmi_dev_write_def RET_FAILURE_def)

subsection \<open>The description\<close>

text \<open>\<^verbatim>\<open>_metaInfo\<close>: the attributes of each type of object and the number of objects.\<close>

record meta_info =
  num_objects :: nat
  metaObj :: "obj_type \<Rightarrow> attr list"

definition ipmi_addAttr :: "attr list \<Rightarrow> attr \<Rightarrow> attr list" where
  "ipmi_addAttr info a = info @ [a]"

definition ipmi_initMeta :: "os \<Rightarrow> meta_info \<times> os" where
  "ipmi_initMeta w =
     (let none = \<lparr>num_objects = 0, metaObj = (\<lambda>_. [])\<rparr>
      in case getNodePower w of
           (None, w1) \<Rightarrow> (none, w1)
         | (Some _, w1) \<Rightarrow>
             (none\<lparr>metaObj := (metaObj none)(OBJ_NODE := ipmi_addAttr (metaObj none OBJ_NODE) ATTR_POWER),
                   num_objects := Suc (num_objects none)\<rparr>, w1))"

definition pwr_ipmi_readObjs :: "meta_info \<Rightarrow> nat \<Rightarrow> obj_type list \<Rightarrow> obj_type list res" where
  "pwr_ipmi_readObjs mi n buf = c_assert (n = num_objects mi) (fill (filter (\<lambda>t. metaObj mi t \<noteq> []) all_obj_types) buf)"

definition pwr_ipmi_numObjs :: "meta_info \<Rightarrow> nat" where
  "pwr_ipmi_numObjs mi = num_objects mi"

definition pwr_ipmi_readAttrs :: "meta_info \<Rightarrow> obj_type \<Rightarrow> nat \<Rightarrow> attr list \<Rightarrow> attr list res" where
  "pwr_ipmi_readAttrs mi t n buf = c_assert (n = length (metaObj mi t)) (fill (metaObj mi t) buf)"

definition pwr_ipmi_numAttrs :: "meta_info \<Rightarrow> obj_type \<Rightarrow> nat" where
  "pwr_ipmi_numAttrs mi t = length (metaObj mi t)"

definition ipmi_meta_of :: "meta_info \<Rightarrow> plugin_meta" where
  "ipmi_meta_of mi = \<lparr>numObjs = pwr_ipmi_numObjs mi, readObjs = pwr_ipmi_readObjs mi,
     numAttrs = pwr_ipmi_numAttrs mi, readAttrs = pwr_ipmi_readAttrs mi,
     getDevName = (\<lambda>_ len. strncpy len ''pwr_ipmi_dev0''),
     getDevOpenStr = open_str_type_index,
     getDevInitStr = (\<lambda>_ len. strncpy len []),
     getPluginName = (\<lambda>len. strncpy len ''IPMI'')\<rparr>"

text \<open>\<^verbatim>\<open>getMeta\<close>, run when the framework loads the plugin.\<close>

definition ipmi_meta :: "os \<Rightarrow> plugin_meta" where
  "ipmi_meta w = ipmi_meta_of (fst (ipmi_initMeta w))"

definition ipmi_objs :: "os \<Rightarrow> obj_type list" where
  "ipmi_objs w = (if fst (getNodePower w) = None then [] else [OBJ_NODE])"

lemma ipmi_initMeta_eq:
  "fst (ipmi_initMeta w) = (if fst (getNodePower w) = None then \<lparr>num_objects = 0, metaObj = (\<lambda>_. [])\<rparr>
     else \<lparr>num_objects = 1, metaObj = (\<lambda>_. [])(OBJ_NODE := [ATTR_POWER])\<rparr>)"
  by (auto simp: ipmi_initMeta_def ipmi_addAttr_def Let_def split: prod.splits option.splits)

lemma filter_node: "filter (\<lambda>t. ((\<lambda>_. [])(OBJ_NODE := [ATTR_POWER])) t \<noteq> []) all_obj_types = [OBJ_NODE]"
  by code_simp

lemma getNodePower_iff:
  "fst (getNodePower w) \<noteq> None \<longleftrightarrow> (\<exists>c. files w NODE_POWER = Some (Regular c) \<and> has_number (drop_sign (skip_space c)))"
proof -
  have "map_option fst (scan_lf c) \<noteq> None \<longleftrightarrow> has_number (drop_sign (skip_space c))" for c
    by (simp add: scan_lf_def Let_def)
  then show ?thesis by (auto simp: getNodePower_def open_rd_def split: option.split fnode.split)
qed

interpretation ipmi_tab: meta_table "ipmi_meta w" "ipmi_objs w" "\<lambda>_. [ATTR_POWER]" for w
  using filter_node
  by unfold_locales
    (auto simp: ipmi_meta_def ipmi_meta_of_def ipmi_objs_def ipmi_initMeta_eq pwr_ipmi_numObjs_def pwr_ipmi_readObjs_def
      pwr_ipmi_numAttrs_def pwr_ipmi_readAttrs_def c_assert_def fill_exact fun_upd_same simp del: fun_upd_apply split: if_splits)

text \<open>
  The plugin describes exactly what it can deliver: an attribute of the node is in the description made from the files when the plugin
  is loaded if and only if a read with the same files succeeds, which is the case for the power alone and when the file begins
  with a number.
\<close>

theorem ipmi_described_iff_readable:
  "\<exists>om. pluginMeta_new (ipmi_meta w) = Inr om \<and>
     (\<forall>a. isObjectSupported om OBJ_NODE a \<longleftrightarrow>
        (\<exists>v' t' s'. pwr_ipmi_dev_read (fd, w) a v len t = Inr ((RET_SUCCESS, v', t'), s'))) \<and>
     (\<forall>a. isObjectSupported om OBJ_NODE a \<longleftrightarrow>
        a = ATTR_POWER \<and> (\<exists>c. files w NODE_POWER = Some (Regular c) \<and> has_number (drop_sign (skip_space c))))"
proof (intro exI conjI allI)
  let ?om = "map (\<lambda>t. (t, [ATTR_POWER])) (ipmi_objs w)"
  show m: "pluginMeta_new (ipmi_meta w) = Inr ?om" by (rule ipmi_tab.pluginMeta_new_eq)
  have s: "isObjectSupported ?om OBJ_NODE a \<longleftrightarrow> fst (getNodePower w) \<noteq> None \<and> a = ATTR_POWER" for a
    by (auto simp: isObjectSupported_def ipmi_objs_def)
  have r: "(\<exists>v' t' s'. pwr_ipmi_dev_read (fd, w) a v len t = Inr ((RET_SUCCESS, v', t'), s'))
    \<longleftrightarrow> fst (getNodePower w) \<noteq> None \<and> a = ATTR_POWER" for a
    unfolding pwr_ipmi_dev_read_eq by (auto simp: Let_def RET_FAILURE_def RET_SUCCESS_def split: option.splits)
  show "isObjectSupported ?om OBJ_NODE a \<longleftrightarrow>
      (\<exists>v' t' s'. pwr_ipmi_dev_read (fd, w) a v len t = Inr ((RET_SUCCESS, v', t'), s'))" for a
    unfolding s r ..
  show "isObjectSupported ?om OBJ_NODE a \<longleftrightarrow>
      a = ATTR_POWER \<and> (\<exists>c. files w NODE_POWER = Some (Regular c) \<and> has_number (drop_sign (skip_space c)))" for a
    unfolding s getNodePower_iff by (rule conj_commute)
qed

end
