(* ===== verification/Cac_Dev.thy ===== *)
theory Cac_Dev
  imports Plugin_Iface
begin

text \<open>
  \<^verbatim>\<open>src/plugins/pwr_cacdev.c\<close>: sleep states and frequencies of cores from files below \<^verbatim>\<open>/sys/devices/system/cpu\<close>.  The state is
  the descriptor and the operating system.  The tables \<^verbatim>\<open>cac_node_t\<close>, \<^verbatim>\<open>cac_pkg_t\<close> and \<^verbatim>\<open>cac_core_t\<close> are
  allocated but never read or written, and left out.
\<close>

subsection \<open>Files\<close>

text \<open>
  \<^verbatim>\<open>fopen(path, O_RDONLY)\<close>: the second argument is a string, and the flag is the constant \<open>0\<close>, so it is the null pointer.
\<close>

definition O_RDONLY :: nat where
  "O_RDONLY = 0"

definition mode_ptr :: "nat \<Rightarrow> string option" where
  "mode_ptr p = (if p = 0 then None else Some ''r'')"

definition c_fopen :: "os \<Rightarrow> string \<Rightarrow> string option \<Rightarrow> (fnode \<times> os) option res" where
  "c_fopen w path mode = (case mode of None \<Rightarrow> Inl MemoryFault | Some _ \<Rightarrow> Inr (open_rd w path))"

definition core_path :: "int \<Rightarrow> string \<Rightarrow> string" where
  "core_path cpu name = snprintf 255 (''/sys/devices/system/cpu/cpu'' @ show_int cpu @ ''/'' @ name)"

text \<open>A file that was opened stays open.\<close>

definition core_read :: "os \<Rightarrow> int \<Rightarrow> string \<Rightarrow> cell \<Rightarrow> ((int \<times> cell) \<times> os) res" where
  "core_read w cpu name v =
     rbind (c_fopen w (core_path cpu name) (mode_ptr O_RDONLY)) (\<lambda>f.
     Inr (case f of
            None \<Rightarrow> ((RET_FAILURE, v), w)
          | Some (Dir, w1) \<Rightarrow> ((RET_FAILURE, v), w1)
          | Some (Regular c, w1) \<Rightarrow>
              (case fscanf_lld c of
                 Scanned i \<Rightarrow> ((RET_SUCCESS, U64 (word_of_int i)), w1)
               | _ \<Rightarrow> ((RET_FAILURE, v), w1))))"

subsection \<open>The plugin\<close>

record cac_fd =
  cac_num :: int
  cac_type :: nat

type_synonym cac_state = "cac_fd \<times> os"

definition opt_num :: "int option \<Rightarrow> int" where
  "opt_num n = (case n of None \<Rightarrow> 0 | Some i \<Rightarrow> i)"

definition cac_open :: "string \<Rightarrow> cac_fd option" where
  "cac_open openstr =
     (if contains_str ''pkg'' openstr then Some \<lparr>cac_num = opt_num (sscanf_lit_d ''pkg'' openstr), cac_type = 1\<rparr>
      else if contains_str ''core'' openstr then Some \<lparr>cac_num = opt_num (sscanf_lit_d ''core'' openstr), cac_type = 0\<rparr>
      else None)"

definition cac_close :: "cac_state \<Rightarrow> int \<times> os" where
  "cac_close s = free_fd s"

text \<open>The file of an attribute, and whether its content is taken for a \<^verbatim>\<open>double\<close> and divided by a thousand.\<close>

definition cac_file :: "attr \<Rightarrow> (string \<times> bool) option" where
  "cac_file a =
     (case a of
        ATTR_SSTATE \<Rightarrow> Some (''online'', True)
      | ATTR_FREQ \<Rightarrow> Some (''cpufreq/cpuinfo_cur_freq'', True)
      | ATTR_FREQ_LIMIT_MIN \<Rightarrow> Some (''cpufreq/scaling_min_freq'', True)
      | ATTR_FREQ_LIMIT_MAX \<Rightarrow> Some (''cpufreq/scaling_max_freq'', True)
      | ATTR_THROTTLED_COUNT \<Rightarrow> Some (''thermal_throttle/core_throttle_count'', False)
      | _ \<Rightarrow> None)"

definition cac_stamp :: "cac_state \<Rightarrow> cell \<Rightarrow> ts_ptr \<Rightarrow> ((int \<times> cell \<times> ts_ptr) \<times> cac_state) res" where
  "cac_stamp s v t =
     (let (tv, w') = gettimeofday (snd s)
      in rbind (store_ts (time_ns tv) t) (\<lambda>t'. Inr ((0, v, t'), (fst s, w'))))"

definition cac_read :: "cac_state reader" where
  "cac_read s a v len t =
     (if len \<noteq> 8 then Inr ((RET_FAILURE, v, t), s)
      else if cac_type (fst s) = 0 then
        (case cac_file a of
           None \<Rightarrow> Inr ((RET_FAILURE, v, t), s)
         | Some (name, scaled) \<Rightarrow>
             rbind (core_read (snd s) (cac_num (fst s)) name v) (\<lambda>((rc, v1), w1).
             if rc < 0 then Inr ((RET_FAILURE, v1, t), (fst s, w1))
             else rbind (if scaled then rbind (load_double v1) (\<lambda>x. Inr (Dbl (x / 1000))) else Inr v1) (\<lambda>v2.
                  cac_stamp (fst s, w1) v2 t)))
      else cac_stamp s v t)"

definition cac_write :: "cac_state writer" where
  "cac_write s a v len = Inr ((0, v), s)"

definition cac_ops :: "cac_state devops" where
  "cac_ops = \<lparr>d_read = cac_read, d_write = cac_write, d_readv = None, d_writev = None,
     d_log_start = None, d_log_stop = None, d_get_samples = None\<rparr>"

definition cac_init :: "string \<Rightarrow> cac_state devops" where
  "cac_init initstr = cac_ops"

definition cac_final :: "cac_state devops \<times> os \<Rightarrow> int \<times> os" where
  "cac_final s = free_fd s"

definition pwr_cacdev_numObjs :: nat where
  "pwr_cacdev_numObjs = 1"

definition pwr_cacdev_readObjs :: "nat \<Rightarrow> obj_type list \<Rightarrow> obj_type list res" where
  "pwr_cacdev_readObjs i = fill [OBJ_CORE]"

definition pwr_cacdev_numAttrs :: "obj_type \<Rightarrow> nat" where
  "pwr_cacdev_numAttrs t = 2"

definition pwr_cacdev_readAttrs :: "obj_type \<Rightarrow> nat \<Rightarrow> attr list \<Rightarrow> attr list res" where
  "pwr_cacdev_readAttrs t i = fill [ATTR_SSTATE, ATTR_FREQ]"

definition cac_meta :: plugin_meta where
  "cac_meta = \<lparr>numObjs = pwr_cacdev_numObjs, readObjs = pwr_cacdev_readObjs,
     numAttrs = pwr_cacdev_numAttrs, readAttrs = pwr_cacdev_readAttrs,
     getDevName = (\<lambda>_ len. strncpy len ''cpu_dev0''),
     getDevOpenStr = open_str_index,
     getDevInitStr = (\<lambda>_ len. strncpy len []),
     getPluginName = (\<lambda>len. strncpy len ''CPU'')\<rparr>"

interpretation cac_tab: meta_table cac_meta "[OBJ_CORE]" "\<lambda>_. [ATTR_SSTATE, ATTR_FREQ]"
  by unfold_locales
    (simp_all add: cac_meta_def pwr_cacdev_numObjs_def pwr_cacdev_readObjs_def
      pwr_cacdev_numAttrs_def pwr_cacdev_readAttrs_def fill_exact)

lemma core_read_faults: "core_read w cpu name v = Inl MemoryFault"
  by (simp add: core_read_def c_fopen_def mode_ptr_def O_RDONLY_def)

interpretation cac: careful_reader cac_read snd
  by unfold_locales
    (auto simp: cac_read_def cac_stamp_def core_read_faults res_simps RET_FAILURE_def gettimeofday_def Let_def
      split: if_splits option.splits prod.splits)

interpretation cacw: attr_writer cac_write
  by unfold_locales (simp add: cac_write_def)

subsection \<open>What can be read\<close>

text \<open>Neither name of an object occurs in a printed number.\<close>

lemma cac_open_number: "cac_open (take k (show_int i)) = None"
proof -
  have "CHR ''p'' \<notin> set (show_int i)" and "CHR ''c'' \<notin> set (show_int i)"
    using show_int_chars [of "CHR ''p''" i] show_int_chars [of "CHR ''c''" i] by (auto simp: is_digit_def char_code_def)
  then have "CHR ''p'' \<notin> set (take k (show_int i))" and "CHR ''c'' \<notin> set (take k (show_int i))"
    using in_set_takeD by fastforce+
  then show ?thesis by (simp add: cac_open_def contains_str_def strstr_no_head)
qed

text \<open>
  The core plugin cannot measure.  No string its own description gives for opening a core is one that it opens; and
  a core opened under another string is never read: each attribute the description lists stops the program with a memory
  fault, whatever the files hold, because the mode of \<^verbatim>\<open>fopen\<close> is a null pointer.
\<close>

theorem cac_core_unreadable:
  assumes "pluginMeta_new cac_meta = Inr om" and "isObjectSupported om OBJ_CORE a" and "cac_type fd = 0"
  shows "cac_open (getDevOpenStr cac_meta OBJ_CORE i len) = None \<and> cac_read (fd, w) a v 8 ts = Inl MemoryFault"
proof -
  from assms(1,2) have "a = ATTR_SSTATE \<or> a = ATTR_FREQ"
    by (auto simp: cac_tab.supported_iff)
  moreover have "getDevOpenStr cac_meta OBJ_CORE i len = take (len - 1) (show_int i)"
    by (simp add: cac_meta_def open_str_index_def snprintf_def)
  ultimately show ?thesis
    using assms(3) cac_open_number by (auto simp: cac_read_def cac_file_def core_read_faults)
qed

theorem cac_core_unreadable_witness:
  "cac_open (getDevOpenStr cac_meta OBJ_CORE 0 100) = None
   \<and> cac_open ''core0'' = Some \<lparr>cac_num = 0, cac_type = 0\<rparr>
   \<and> cac_read (\<lparr>cac_num = 0, cac_type = 0\<rparr>,
       \<lparr>files = Map.empty, can_write = (\<lambda>_. True), store = (\<lambda>_ d _. Some d), wlog = [], fds = 0,
        clock = (\<lambda>n. \<lparr>tv_sec = int n, tv_usec = 0\<rparr>), ticks = 0, msr = (\<lambda>_ _. None)\<rparr>) ATTR_FREQ Uninit 8 (Some 0)
     = Inl MemoryFault"
proof -
  have s: "isObjectSupported [(OBJ_CORE, [ATTR_SSTATE, ATTR_FREQ])] OBJ_CORE ATTR_FREQ"
    by (simp add: isObjectSupported_def)
  have m: "pluginMeta_new cac_meta = Inr [(OBJ_CORE, [ATTR_SSTATE, ATTR_FREQ])]"
    by (simp add: cac_tab.pluginMeta_new_eq)
  have "cac_open ''core0'' = Some \<lparr>cac_num = 0, cac_type = 0\<rparr>" by code_simp
  with cac_core_unreadable [OF m s, where fd = "\<lparr>cac_num = 0, cac_type = 0\<rparr>"] show ?thesis by simp
qed

end
