(* ===== verification/Powermetrics_Dev.thy ===== *)
theory Powermetrics_Dev
  imports Plugin_Iface C_Scanf
begin

text \<open>
  \<^verbatim>\<open>src/plugins/pwr_powermetrics.c\<close>: frequencies, powers and C-state residencies picked out of the text another program writes into
  a pipe.  The state is the descriptor, the texts the next calls of \<^verbatim>\<open>read\<close> on the pipe return, each of at most 4096
  characters, and the operating system.  After the last text a read stores nothing.  The two arrays of characters on the stack are searched
  before they are filled, so what they hold at first, \<open>out\<close> and \<open>tmpl\<close>, is a parameter.
\<close>

subsection \<open>Text in buffers\<close>

definition OUTPUT_SIZE :: nat where
  "OUTPUT_SIZE = 4096"

definition pipe_read :: "string list \<Rightarrow> string \<Rightarrow> string \<times> string list" where
  "pipe_read link buf =
     (case link of [] \<Rightarrow> (buf, []) | c # cs \<Rightarrow> (c @ drop (length c) buf, cs))"

text \<open>An array as a string: everything before the first null, which must be there.\<close>

definition buf_str :: "string \<Rightarrow> string res" where
  "buf_str buf = (if CHR 0x00 \<in> set buf then Inr (takeWhile (\<lambda>c. c \<noteq> CHR 0x00) buf) else Inl MemoryFault)"

definition search :: "string \<Rightarrow> string \<Rightarrow> string option res" where
  "search needle buf = rbind (buf_str buf) (\<lambda>s. Inr (strstr needle s))"

text \<open>
  The loops that wait for a text compare only the microseconds of two times of the day.  \<open>k\<close> bounds the turns: a loop that takes more is taken not
  to return.
\<close>

fun wait_loop ::
  "nat \<Rightarrow> string \<Rightarrow> timeval \<Rightarrow> timeval \<Rightarrow> string option \<Rightarrow> string \<Rightarrow> string list \<Rightarrow> os
   \<Rightarrow> (string option \<times> string \<times> string list \<times> os) res" where
  "wait_loop 0 needle ts ts2 found buf link w = Inl Diverges"
| "wait_loop (Suc k) needle ts ts2 found buf link w =
     (if tv_usec ts2 < tv_usec ts + 2000 \<and> found = None then
        (let (buf', link') = pipe_read link buf
         in rbind (search needle buf') (\<lambda>found'.
            let (ts2', w') = gettimeofday w in wait_loop k needle ts ts2' found' buf' link' w'))
      else Inr (found, buf, link, w))"

text \<open>Two times are taken before the loop.\<close>

definition wait_text ::
  "nat \<Rightarrow> string \<Rightarrow> string option \<Rightarrow> string \<Rightarrow> string list \<Rightarrow> os \<Rightarrow> (string option \<times> string \<times> string list \<times> os) res" where
  "wait_text k needle found buf link w =
     (let (ts, w1) = gettimeofday w; (ts2, w2) = gettimeofday w1
      in wait_loop k needle ts ts2 found buf link w2)"

subsection \<open>Reading a core\<close>

text \<open>Memory from \<^verbatim>\<open>malloc\<close>: a value that was never stored is \<open>None\<close>.\<close>

definition MAX_C_STATES :: nat where
  "MAX_C_STATES = 4"

definition PM_CORES :: nat where
  "PM_CORES = 12"

record pm_core =
  pc_freq :: "real option"
  pc_states :: "real option list"

record pm_node =
  pn_cpus :: nat
  pn_pkg_pwr :: "real option"
  pn_avg_freq :: "real option"
  pn_cores :: "pm_core list"

definition new_core :: pm_core where
  "new_core = \<lparr>pc_freq = None, pc_states = replicate MAX_C_STATES None\<rparr>"

definition new_node :: pm_node where
  "new_node = \<lparr>pn_cpus = 0, pn_pkg_pwr = None, pn_avg_freq = None, pn_cores = replicate PM_CORES new_core\<rparr>"

definition residency_fmt :: "conv list" where
  "residency_fmt = [Lit ''C-state residency: '', Lf, Pct, Lit '' (C3: '', Lf, Pct, Lit '' C6: '', Lf, Pct, Lit '' C7: '', Lf, Pct, Lit '' )'']"

definition cpu_freq_text :: string where
  "cpu_freq_text = ''CPU Average frequency as fraction of nominal''"

definition sys_freq_text :: string where
  "sys_freq_text = ''System Average frequency as fraction of nominal''"

definition freq_fmt :: "string \<Rightarrow> conv list" where
  "freq_fmt t = [Lit (t @ '': ''), Lf, Pct, Lit '' ('', Lf, Lit '' Mhz)'']"

definition store_first :: "real list \<Rightarrow> real option list \<Rightarrow> real option list" where
  "store_first xs old = map Some xs @ drop (length xs) old"

definition store_at :: "real list \<Rightarrow> nat \<Rightarrow> real option \<Rightarrow> real option" where
  "store_at xs i old = (if i < length xs then Some (xs ! i) else old)"

definition core_template :: "int \<Rightarrow> string" where
  "core_template num = ''Core '' @ show_int num @ '' C-state residency: ''"

definition read_core_data ::
  "nat \<Rightarrow> string \<Rightarrow> string list \<Rightarrow> os \<Rightarrow> pm_core \<Rightarrow> int \<Rightarrow> ((int \<times> pm_core) \<times> string list \<times> os) res" where
  "read_core_data k out link w core num =
     (let (buf, link1) = pipe_read link out
      in rbind (search (core_template num) buf) (\<lambda>found.
         rbind (wait_text k (core_template num) found buf link1 w) (\<lambda>(found', buf', link2, w2).
         case found' of
           None \<Rightarrow> Inr ((RET_FAILURE, core), link2, w2)
         | Some s \<Rightarrow>
             let core1 = core\<lparr>pc_states := store_first (sscanf_lf residency_fmt (drop 7 s)) (pc_states core)\<rparr>
             in (case strstr cpu_freq_text s of
                   None \<Rightarrow> Inl AssertFailed
                 | Some s2 \<Rightarrow>
                     Inr ((RET_SUCCESS, core1\<lparr>pc_freq := store_at (sscanf_lf (freq_fmt cpu_freq_text) s2) 1 (pc_freq core1)\<rparr>),
                          link2, w2)))))"

subsection \<open>Reading the node\<close>

definition pkg_text :: string where
  "pkg_text = ''Intel energy model derived package power''"

definition wait_and_read ::
  "nat \<Rightarrow> string list \<Rightarrow> string \<Rightarrow> string \<Rightarrow> os \<Rightarrow> ((int \<times> string) \<times> string list \<times> os) res" where
  "wait_and_read k link buf str w =
     (let (buf1, link1) = pipe_read link buf
      in rbind (search str buf1) (\<lambda>found.
         rbind (wait_text k pkg_text found buf1 link1 w) (\<lambda>(found', buf2, link2, w2).
         Inr ((if found' = None then RET_FAILURE else RET_SUCCESS, buf2), link2, w2))))"

text \<open>
  The template is printed again inside the loop, with the same number and without its last two characters.  The scan starts at the word
  \<^verbatim>\<open>Core\<close>, not behind it.  Every template begins with that word; \<open>tmpl\<close> is what follows.
\<close>

function cores_loop :: "string \<Rightarrow> string \<Rightarrow> nat \<Rightarrow> pm_core list \<Rightarrow> (nat \<times> pm_core list) res" where
  "cores_loop rest tmpl n cores =
     (case strstr (''Core '' @ tmpl) rest of
        None \<Rightarrow> Inr (n, cores)
      | Some s \<Rightarrow>
          (case strstr cpu_freq_text s of
             None \<Rightarrow> Inl AssertFailed
           | Some s2 \<Rightarrow>
               if n < length cores then
                 cores_loop s2 (show_nat n @ '' C-state residency'') (Suc n)
                   (cores[n := (cores ! n)\<lparr>pc_states := store_first (sscanf_lf residency_fmt s) (pc_states (cores ! n)),
                       pc_freq := store_at (sscanf_lf (freq_fmt cpu_freq_text) s2) 1 (pc_freq (cores ! n))\<rparr>])
               else Inl MemoryFault))"
  by pat_completeness auto

termination
proof (relation "measure (\<lambda>(rest, _). length rest)")
  fix rest tmpl s s2 :: string and n :: nat and cores :: "pm_core list"
  assume s: "strstr (''Core '' @ tmpl) rest = Some s" and s2: "strstr cpu_freq_text s = Some s2"
  have "s2 \<noteq> s"
    using strstr_prefix [OF s] strstr_prefix [OF s2] by (auto simp: prefix_def cpu_freq_text_def)
  with strstr_suffix [OF s2] have "length s2 < length s" by auto
  with strstr_length [OF s]
  show "((s2, show_nat n @ '' C-state residency'', Suc n,
      cores[n := (cores ! n)\<lparr>pc_states := store_first (sscanf_lf residency_fmt s) (pc_states (cores ! n)),
       pc_freq := store_at (sscanf_lf (freq_fmt cpu_freq_text) s2) 1 (pc_freq (cores ! n))\<rparr>]), rest, tmpl, n, cores)
    \<in> measure (\<lambda>(rest, _). length rest)" by simp
qed simp

declare cores_loop.simps [simp del]

definition read_node_data ::
  "nat \<Rightarrow> string \<Rightarrow> string \<Rightarrow> string list \<Rightarrow> os \<Rightarrow> pm_node \<Rightarrow> ((int \<times> pm_node) \<times> string list \<times> os) res" where
  "read_node_data k out tmpl link w node =
     (let (buf, link1) = pipe_read link out
      in rbind (buf_str tmpl) (\<lambda>str.
         rbind (search str buf) (\<lambda>_.
         rbind (wait_and_read k link1 buf str w) (\<lambda>((rc, buf2), link2, w2).
         if rc = RET_FAILURE then Inr ((RET_FAILURE, node), link2, w2)
         else rbind (buf_str buf2) (\<lambda>text.
              case strstr pkg_text text of
                None \<Rightarrow> Inl MemoryFault
              | Some s \<Rightarrow>
                  let pkg = store_at (sscanf_lf [Lit (pkg_text @ '' (CPUs+GT+SA): ''), Lf] s) 0 (pn_pkg_pwr node)
                  in (case strstr sys_freq_text text of
                        None \<Rightarrow> Inl AssertFailed
                      | Some s2 \<Rightarrow>
                          let avg = store_at (sscanf_lf (freq_fmt sys_freq_text) s2) 1 (pn_avg_freq node)
                          in rbind (cores_loop s2 ''0 C-state residency: '' 0 (pn_cores node)) (\<lambda>(n, cores).
                             Inr ((RET_SUCCESS, \<lparr>pn_cpus = n + 1, pn_pkg_pwr = pkg, pn_avg_freq = avg, pn_cores = cores\<rparr>),
                                  link2, w2))))))))"

subsection \<open>The plugin\<close>

datatype pm_obj = PmNode pm_node | PmCore pm_core

text \<open>The number of the object is unset when the string does not give it.\<close>

record pm_fd =
  pm_num :: "int option"
  pm_obj :: pm_obj

type_synonym pm_state = "pm_fd \<times> string list \<times> os"

definition powermetrics_open :: "string \<Rightarrow> pm_fd option" where
  "powermetrics_open openstr =
     (if contains_str ''node'' openstr then Some \<lparr>pm_num = sscanf_lit_d ''node'' openstr, pm_obj = PmNode new_node\<rparr>
      else if contains_str ''core'' openstr then Some \<lparr>pm_num = sscanf_lit_d ''core'' openstr, pm_obj = PmCore new_core\<rparr>
      else None)"

definition powermetrics_close :: "pm_state \<Rightarrow> int \<times> string list \<times> os" where
  "powermetrics_close s = (0, snd s)"

definition load_opt :: "real option \<Rightarrow> real res" where
  "load_opt x = (case x of None \<Rightarrow> Inl UninitRead | Some y \<Rightarrow> Inr y)"

fun sum_states :: "pm_core list \<Rightarrow> nat \<Rightarrow> real \<Rightarrow> real res" where
  "sum_states cores 0 acc = Inr acc"
| "sum_states [] (Suc n) acc = Inl MemoryFault"
| "sum_states (c # cs) (Suc n) acc = rbind (load_opt (pc_states c ! 0)) (\<lambda>x. sum_states cs n (acc + x))"

definition node_value :: "pm_node \<Rightarrow> attr \<Rightarrow> cell \<Rightarrow> cell res" where
  "node_value node a v =
     (case a of
        ATTR_FREQ \<Rightarrow> rbind (load_opt (pn_avg_freq node)) (\<lambda>x. Inr (Dbl x))
      | ATTR_POWER \<Rightarrow> rbind (load_opt (pn_pkg_pwr node)) (\<lambda>x. Inr (Dbl x))
      | ATTR_CSTATE \<Rightarrow> rbind (sum_states (pn_cores node) (pn_cpus node) 0) (\<lambda>x. Inr (Dbl x))
      | _ \<Rightarrow> Inr v)"

definition core_value :: "pm_core \<Rightarrow> attr \<Rightarrow> cell \<Rightarrow> cell res" where
  "core_value core a v =
     (case a of
        ATTR_FREQ \<Rightarrow> rbind (load_opt (pc_freq core)) (\<lambda>x. Inr (Dbl x))
      | ATTR_CSTATE \<Rightarrow> rbind (load_opt (pc_states core ! 0)) (\<lambda>x. Inr (Dbl x))
      | _ \<Rightarrow> Inr v)"

text \<open>No path stores the time.\<close>

definition powermetrics_read :: "nat \<Rightarrow> string \<Rightarrow> string \<Rightarrow> pm_state reader" where
  "powermetrics_read k out tmpl s a v len t =
     (case s of (fd, link, w) \<Rightarrow>
      (case pm_obj fd of
         PmNode node \<Rightarrow>
           rbind (read_node_data k out tmpl link w node) (\<lambda>((rc, node1), link1, w1).
           c_assert (rc = RET_SUCCESS)
             (rbind (node_value node1 a v) (\<lambda>v1. Inr ((RET_SUCCESS, v1, t), (fd\<lparr>pm_obj := PmNode node1\<rparr>, link1, w1)))))
       | PmCore core \<Rightarrow>
           (case pm_num fd of
              None \<Rightarrow> Inl UninitRead
            | Some num \<Rightarrow>
                rbind (read_core_data k out link w core num) (\<lambda>((rc, core1), link1, w1).
                c_assert (rc = RET_SUCCESS)
                  (rbind (core_value core1 a v) (\<lambda>v1. Inr ((RET_SUCCESS, v1, t), (fd\<lparr>pm_obj := PmCore core1\<rparr>, link1, w1))))))))"

definition powermetrics_write :: "pm_state writer" where
  "powermetrics_write s a v len = Inr ((RET_FAILURE, v), s)"

text \<open>The array read gives the number of attributes for the length of each value, which no read looks at.\<close>

fun pm_readv_loop ::
  "pm_state reader \<Rightarrow> nat \<Rightarrow> pm_state \<Rightarrow> attr list \<Rightarrow> cell list \<Rightarrow> pwr_time list \<Rightarrow> int list
   \<Rightarrow> ((cell list \<times> pwr_time list \<times> int list) \<times> pm_state) res" where
  "pm_readv_loop rd n s [] vs ts st = Inr ((vs, ts, st), s)"
| "pm_readv_loop rd n s (a # as) (v # vs) (t # ts) (_ # st) =
     rbind (rd s a v n (Some t)) (\<lambda>((rc, v', t'), s').
     rbind (pm_readv_loop rd n s' as vs ts st) (\<lambda>((vs', ts', st'), s'').
     Inr ((v' # vs', (case t' of Some u \<Rightarrow> u | None \<Rightarrow> t) # ts', rc # st'), s'')))"
| "pm_readv_loop rd n s (a # as) vs ts st = Inl MemoryFault"

definition powermetrics_readv :: "nat \<Rightarrow> string \<Rightarrow> string \<Rightarrow> pm_state vreader" where
  "powermetrics_readv k out tmpl s as vs ts st =
     rbind (pm_readv_loop (powermetrics_read k out tmpl) (length as) s as vs ts st) (\<lambda>((vs', ts', st'), s').
     Inr ((RET_SUCCESS, vs', ts', st'), s'))"

definition powermetrics_writev :: "pm_state vwriter" where
  "powermetrics_writev s as vs st =
     (if length as \<le> length st then Inr ((RET_FAILURE, vs, replicate (length as) RET_FAILURE @ drop (length as) st), s)
      else Inl MemoryFault)"

text \<open>\<^verbatim>\<open>time\<close> stores seconds, not nanoseconds.\<close>

definition powermetrics_time :: "pm_state \<Rightarrow> ts_ptr \<Rightarrow> ((int \<times> ts_ptr) \<times> pm_state) res" where
  "powermetrics_time s t =
     (case s of (fd, link, w) \<Rightarrow>
      (let (tv, w') = gettimeofday w
       in Inr ((0, map_option (\<lambda>_. word_of_int (tv_sec tv)) t), (fd, link, w'))))"

definition powermetrics_clear :: "pm_state \<Rightarrow> int \<times> pm_state" where
  "powermetrics_clear s = (0, s)"

definition powermetrics_ops :: "nat \<Rightarrow> string \<Rightarrow> string \<Rightarrow> pm_state devops" where
  "powermetrics_ops k out tmpl = \<lparr>d_read = powermetrics_read k out tmpl, d_write = powermetrics_write,
     d_readv = Some (powermetrics_readv k out tmpl), d_writev = Some powermetrics_writev,
     d_log_start = None, d_log_stop = None, d_get_samples = None\<rparr>"

subsection \<open>The description\<close>

definition powermetrics_readObjs :: "nat \<Rightarrow> obj_type list \<Rightarrow> obj_type list res" where
  "powermetrics_readObjs i = fill [OBJ_NODE, OBJ_CORE]"

definition powermetrics_numObjs :: nat where
  "powermetrics_numObjs = 2"

definition powermetrics_readAttrs :: "obj_type \<Rightarrow> nat \<Rightarrow> attr list \<Rightarrow> attr list res" where
  "powermetrics_readAttrs t i = fill [ATTR_CSTATE, ATTR_POWER, ATTR_FREQ]"

definition powermetrics_numAttrs :: "obj_type \<Rightarrow> nat" where
  "powermetrics_numAttrs t = 3"

definition powermetrics_meta :: plugin_meta where
  "powermetrics_meta = \<lparr>numObjs = powermetrics_numObjs, readObjs = powermetrics_readObjs,
     numAttrs = powermetrics_numAttrs, readAttrs = powermetrics_readAttrs,
     getDevName = (\<lambda>_ len. strncpy len ''powermetrics''),
     getDevOpenStr = open_str_type_index,
     getDevInitStr = (\<lambda>_ len. strncpy len ''powermetrics''),
     getPluginName = (\<lambda>len. strncpy len ''PowerMetrics'')\<rparr>"

interpretation powermetrics_tab:
  meta_table powermetrics_meta "[OBJ_NODE, OBJ_CORE]" "\<lambda>_. [ATTR_CSTATE, ATTR_POWER, ATTR_FREQ]"
  by unfold_locales
    (simp_all add: powermetrics_meta_def powermetrics_numObjs_def powermetrics_readObjs_def
      powermetrics_numAttrs_def powermetrics_readAttrs_def fill_exact)

interpretation powermetricsw: attr_writer powermetrics_write
  by unfold_locales (simp add: powermetrics_write_def RET_FAILURE_def)

subsection \<open>C-states are never stored\<close>

lemma sscanf_residency_mismatch:
  assumes "match_lit ''C-state residency: '' s = None"
  shows "sscanf_lf residency_fmt s = []"
  unfolding residency_fmt_def sscanf_lf.simps(2) assms by simp

lemma match_lit_head: "\<not> is_space f \<Longrightarrow> c \<noteq> f \<Longrightarrow> match_lit (f # l) (c # s) = None"
  by simp

lemma sscanf_residency_Core: "strstr (''Core '' @ tmpl) rest = Some s \<Longrightarrow> sscanf_lf residency_fmt s = []"
proof (rule sscanf_residency_mismatch)
  assume "strstr (''Core '' @ tmpl) rest = Some s"
  from strstr_prefix [OF this] obtain r where "s = CHR ''C'' # CHR ''o'' # r" by (auto simp: prefix_def)
  moreover have "\<not> is_space (CHR ''C'')" and "\<not> is_space (CHR ''-'')" by code_simp+
  ultimately show "match_lit ''C-state residency: '' s = None" by (simp del: match_lit.simps(2) add: match_lit.simps(2) [of "CHR ''C''"] match_lit_head)
qed

text \<open>The number of a core with two digits or more leaves a digit or the space behind it where the format has its first letter.\<close>

lemma two_digits: "10 \<le> n \<Longrightarrow> \<exists>c d ds. show_nat n = c # d # ds"
proof -
  assume "10 \<le> n"
  then have e: "show_nat n = show_nat (n div 10) @ [digit_char (n mod 10)]" by (subst show_nat.simps) simp
  obtain c cs where "show_nat (n div 10) = c # cs" by (cases "show_nat (n div 10)") auto
  with e show ?thesis by (cases cs) auto
qed

lemma sscanf_residency_two_digits:
  assumes "10 \<le> num" and "strstr (core_template num) text = Some s"
  shows "sscanf_lf residency_fmt (drop 7 s) = []"
proof (rule sscanf_residency_mismatch)
  from assms(1) have "10 \<le> nat num" by simp
  then obtain c d ds where n: "show_nat (nat num) = c # d # ds" using two_digits by blast
  have C: "\<not> is_digit (CHR ''C'')" and sp: "\<not> is_space (CHR ''C'')" by code_simp+
  from strstr_prefix [OF assms(2)] obtain r where "s = ''Core '' @ (c # d # ds) @ '' C-state residency: '' @ r"
    using assms(1) n by (auto simp: core_template_def show_int_def prefix_def)
  then have s: "drop 7 s = ds @ '' C-state residency: '' @ r" by simp
  have "\<forall>x\<in>set ds. is_digit x" using show_nat_digits [of "nat num"] by (simp add: n)
  then obtain x xs where "drop 7 s = x # xs" and "x \<noteq> CHR ''C''" using C by (cases ds) (auto simp: s)
  with match_lit_head [OF sp] show "match_lit ''C-state residency: '' (drop 7 s) = None" by metis
qed

lemma wait_loop_strstr:
  "wait_loop k needle ts ts2 found buf link w = Inr (Some s, buf', link', w') \<Longrightarrow>
   found = Some s \<or> (\<exists>text. strstr needle text = Some s)"
proof (induction k arbitrary: ts2 found buf link w)
  case (Suc k)
  show ?case
  proof (cases "tv_usec ts2 < tv_usec ts + 2000 \<and> found = None")
    case True
    with Suc.prems obtain found' buf1 link1 ts3 w1 where "search needle buf1 = Inr found'"
      and "wait_loop k needle ts ts3 found' buf1 link1 w1 = Inr (Some s, buf', link', w')"
      by (auto simp: res_simps Let_def split_beta)
    with Suc.IH show ?thesis by (fastforce simp: search_def res_simps)
  qed (use Suc.prems in auto)
qed simp

text \<open>Descriptors whose C-states no read stores: every node, and the cores from the tenth on.\<close>

definition unset_core :: "pm_core \<Rightarrow> bool" where
  "unset_core c \<longleftrightarrow> pc_states c = replicate MAX_C_STATES None"

definition pm_blind :: "pm_fd \<Rightarrow> bool" where
  "pm_blind fd \<longleftrightarrow>
     (case pm_obj fd of
        PmNode node \<Rightarrow> pn_cores node \<noteq> [] \<and> (\<forall>c\<in>set (pn_cores node). unset_core c)
      | PmCore c \<Rightarrow> unset_core c \<and> (\<exists>n\<ge>10. pm_num fd = Some n))"

lemma store_first_Nil [simp]: "store_first [] old = old"
  by (simp add: store_first_def)

lemma cores_loop_unset:
  "cores_loop rest tmpl n cores = Inr (n', cores') \<Longrightarrow> \<forall>c\<in>set cores. unset_core c \<Longrightarrow>
   length cores' = length cores \<and> (\<forall>c\<in>set cores'. unset_core c)"
proof (induction rest tmpl n cores rule: cores_loop.induct)
  case (1 rest tmpl n cores)
  show ?case
  proof (cases "strstr (''Core '' @ tmpl) rest")
    case None
    with 1(2,3) show ?thesis by (simp add: cores_loop.simps [of rest])
  next
    case (Some s)
    note s = Some
    show ?thesis
    proof (cases "strstr cpu_freq_text s")
      case None
      with s 1(2) show ?thesis by (simp add: cores_loop.simps [of rest])
    next
      case (Some s2)
      from s Some 1(2) have n: "n < length cores" by (auto simp: cores_loop.simps [of rest] split: if_splits)
      let ?c = "(cores ! n)\<lparr>pc_states := store_first (sscanf_lf residency_fmt s) (pc_states (cores ! n)),
         pc_freq := store_at (sscanf_lf (freq_fmt cpu_freq_text) s2) 1 (pc_freq (cores ! n))\<rparr>"
      have "unset_core ?c" using 1(3) n by (simp add: unset_core_def sscanf_residency_Core [OF s])
      then have "\<forall>c\<in>set (cores[n := ?c]). unset_core c"
        using 1(3) set_update_subset_insert [of cores n ?c] by blast
      moreover have "cores_loop s2 (show_nat n @ '' C-state residency'') (Suc n) (cores[n := ?c]) = Inr (n', cores')"
        using 1(2) s Some n by (simp add: cores_loop.simps [of rest])
      ultimately show ?thesis using 1(1) [OF s Some n] by simp
    qed
  qed
qed

lemma read_core_data_unset:
  assumes "read_core_data k out link w core num = Inr ((rc, core'), link', w')" and "10 \<le> num" and "unset_core core"
  shows "unset_core core'"
proof -
  obtain buf link1 where p: "pipe_read link out = (buf, link1)" by (rule prod.exhaust)
  with assms(1) obtain found where f: "search (core_template num) buf = Inr found"
    and r: "rbind (wait_text k (core_template num) found buf link1 w) (\<lambda>(found', buf', link2, w2).
         case found' of
           None \<Rightarrow> Inr ((RET_FAILURE, core), link2, w2)
         | Some s \<Rightarrow>
             let core1 = core\<lparr>pc_states := store_first (sscanf_lf residency_fmt (drop 7 s)) (pc_states core)\<rparr>
             in (case strstr cpu_freq_text s of
                   None \<Rightarrow> Inl AssertFailed
                 | Some s2 \<Rightarrow>
                     Inr ((RET_SUCCESS, core1\<lparr>pc_freq := store_at (sscanf_lf (freq_fmt cpu_freq_text) s2) 1 (pc_freq core1)\<rparr>),
                          link2, w2))) = Inr ((rc, core'), link', w')"
    by (auto simp: read_core_data_def res_simps)
  from r obtain found' buf' link2 w2 where wt: "wait_text k (core_template num) found buf link1 w = Inr (found', buf', link2, w2)"
    and c: "(case found' of
           None \<Rightarrow> Inr ((RET_FAILURE, core), link2, w2)
         | Some s \<Rightarrow>
             let core1 = core\<lparr>pc_states := store_first (sscanf_lf residency_fmt (drop 7 s)) (pc_states core)\<rparr>
             in (case strstr cpu_freq_text s of
                   None \<Rightarrow> Inl AssertFailed
                 | Some s2 \<Rightarrow>
                     Inr ((RET_SUCCESS, core1\<lparr>pc_freq := store_at (sscanf_lf (freq_fmt cpu_freq_text) s2) 1 (pc_freq core1)\<rparr>),
                          link2, w2))) = Inr ((rc, core'), link', w')"
    by (auto simp: rbind_eq_Inr_iff)
  show ?thesis
  proof (cases found')
    case (Some s)
    with wt f have "\<exists>text. strstr (core_template num) text = Some s"
      by (auto simp: wait_text_def split_beta search_def res_simps dest: wait_loop_strstr)
    with sscanf_residency_two_digits [OF assms(2)] have "sscanf_lf residency_fmt (drop 7 s) = []" by blast
    with c Some assms(3) show ?thesis by (auto simp: unset_core_def Let_def split: option.splits)
  qed (use c assms(3) in simp)
qed

lemma option_res_eq_Inr_iff:
  "(case x of None \<Rightarrow> Inl e | Some y \<Rightarrow> f y) = Inr r \<longleftrightarrow> (\<exists>y. x = Some y \<and> f y = Inr r)"
  by (cases x) simp_all

lemma read_node_data_unset:
  assumes "read_node_data k out tmpl link w node = Inr ((RET_SUCCESS, node'), link', w')"
    and "pn_cores node \<noteq> []" and "\<forall>c\<in>set (pn_cores node). unset_core c"
  shows "0 < pn_cpus node' \<and> pn_cores node' \<noteq> [] \<and> (\<forall>c\<in>set (pn_cores node'). unset_core c)"
proof -
  from assms(1) obtain s2 n cores where "cores_loop s2 ''0 C-state residency: '' 0 (pn_cores node) = Inr (n, cores)"
    and "pn_cpus node' = n + 1" and "pn_cores node' = cores"
    by (cases "pipe_read link out")
      (auto simp: read_node_data_def rbind_eq_Inr_iff option_res_eq_Inr_iff Let_def RET_FAILURE_def RET_SUCCESS_def
        simp del: sscanf_lf.simps split: if_splits)
  with cores_loop_unset assms(2,3) show ?thesis by fastforce
qed

lemma sum_states_unset: "cs \<noteq> [] \<Longrightarrow> \<forall>c\<in>set cs. unset_core c \<Longrightarrow> 0 < n \<Longrightarrow> sum_states cs n acc = Inl UninitRead"
  by (cases cs; cases n) (simp_all add: unset_core_def MAX_C_STATES_def load_opt_def)

text \<open>
  No read stores a C-state of a node, or of a core whose number has two digits: whatever the other program writes, and
  however often such a descriptor is read, its C-states stay as \<^verbatim>\<open>malloc\<close> left them, and a read of the C-state never
  succeeds.
\<close>

theorem powermetrics_cstate_never_read:
  assumes "pm_blind fd" and "powermetrics_read k out tmpl (fd, link, w) a v len t = Inr (r, (fd', link', w'))"
  shows "a \<noteq> ATTR_CSTATE \<and> pm_blind fd'"
proof (cases "pm_obj fd")
  case (PmNode node)
  with assms(2) obtain node1 v1 where n: "read_node_data k out tmpl link w node = Inr ((RET_SUCCESS, node1), link', w')"
    and v: "node_value node1 a v = Inr v1" and f: "fd' = fd\<lparr>pm_obj := PmNode node1\<rparr>"
    by (auto simp: powermetrics_read_def rbind_eq_Inr_iff c_assert_def split: if_splits)
  from assms(1) PmNode have "pn_cores node \<noteq> []" and "\<forall>c\<in>set (pn_cores node). unset_core c" by (auto simp: pm_blind_def)
  from read_node_data_unset [OF n this] v show ?thesis
    by (auto simp: f pm_blind_def node_value_def sum_states_unset)
next
  case (PmCore core)
  with assms obtain num where num: "pm_num fd = Some num" "10 \<le> num" and u: "unset_core core" by (auto simp: pm_blind_def)
  with PmCore assms(2) obtain core1 v1 where n: "read_core_data k out link w core num = Inr ((RET_SUCCESS, core1), link', w')"
    and v: "core_value core1 a v = Inr v1" and f: "fd' = fd\<lparr>pm_obj := PmCore core1\<rparr>"
    by (auto simp: powermetrics_read_def rbind_eq_Inr_iff c_assert_def split: if_splits)
  from read_core_data_unset [OF n num(2) u] v num show ?thesis
    by (auto simp: f pm_blind_def core_value_def unset_core_def MAX_C_STATES_def load_opt_def)
qed

definition pm_demo_os :: os where
  "pm_demo_os = \<lparr>files = Map.empty, can_write = (\<lambda>_. True), store = (\<lambda>_ d _. Some d), wlog = [], fds = 0,
     clock = (\<lambda>n. \<lparr>tv_sec = 0, tv_usec = 999000\<rparr>), ticks = 0, msr = (\<lambda>_ _. None)\<rparr>"

definition pm_demo_fd :: pm_fd where
  "pm_demo_fd = \<lparr>pm_num = Some 10, pm_obj = PmCore new_core\<rparr>"

definition pm_demo_link :: "string list" where
  "pm_demo_link =
     [''Core 10 C-state residency: 90% (C3: 1% C6: 2% C7: 3% ) CPU Average frequency as fraction of nominal'' @ [CHR 0x00]]"

lemma pm_demo_read:
  "case powermetrics_read 1 [] [] (pm_demo_fd, pm_demo_link, pm_demo_os) ATTR_POWER Uninit 8 None of
     Inr ((rc, _), (_, link', _)) \<Rightarrow> rc = 0 \<and> link' = [] | _ \<Rightarrow> False"
  by code_simp

theorem powermetrics_cstate_never_read_witness:
  "\<exists>t fd' w'. powermetrics_read 1 [] [] (pm_demo_fd, pm_demo_link, pm_demo_os) ATTR_POWER Uninit 8 None = Inr ((0, t), (fd', [], w'))
     \<and> ATTR_POWER \<noteq> ATTR_CSTATE \<and> pm_blind fd'"
proof -
  have b: "pm_blind pm_demo_fd" by (simp add: pm_blind_def pm_demo_fd_def new_core_def unset_core_def)
  from pm_demo_read obtain t fd' w' where
    "powermetrics_read 1 [] [] (pm_demo_fd, pm_demo_link, pm_demo_os) ATTR_POWER Uninit 8 None = Inr ((0, t), (fd', [], w'))"
    by (auto split: sum.splits prod.splits)
  with powermetrics_cstate_never_read [OF b this] show ?thesis by blast
qed

subsection \<open>Waiting\<close>

lemma clock_advance: "clock (snd (gettimeofday w)) = clock w"
  by (simp add: gettimeofday_def)

lemma wait_loop_stuck:
  assumes "998000 \<le> tv_usec ts" and "\<forall>n. tv_usec (c n) < 1000000" and "search needle buf = Inr None"
  shows "tv_usec ts2 < 1000000 \<Longrightarrow> clock w = c \<Longrightarrow> wait_loop k needle ts ts2 None buf [] w = Inl Diverges"
proof (induction k arbitrary: ts2 w)
  case (Suc k)
  from Suc.prems assms(2) have "tv_usec (clock w (ticks w)) < 1000000" by simp
  from Suc.IH [OF this, of "w\<lparr>ticks := Suc (ticks w)\<rparr>"] Suc.prems assms(1,3) show ?case
    by (simp add: pipe_read_def gettimeofday_def)
qed simp

text \<open>
  The time limit of two milliseconds is no limit in the last two milliseconds of a second.  When the other program has ended without the
  text, and the time a read of a core takes first is at least 998 milliseconds into a second, the read never returns,
  because only the microseconds of the two times are compared.
\<close>

theorem powermetrics_waits_forever:
  assumes "pm_obj fd = PmCore core" and "pm_num fd = Some num"
    and "search (core_template num) out = Inr None"
    and "\<forall>n. tv_usec (clock w n) < 1000000" and "998000 \<le> tv_usec (clock w (ticks w))"
  shows "powermetrics_read k out tmpl (fd, [], w) a v len t = Inl Diverges"
proof -
  have "wait_loop k (core_template num) (clock w (ticks w)) (clock w (Suc (ticks w))) None out [] (w\<lparr>ticks := Suc (Suc (ticks w))\<rparr>)
    = Inl Diverges"
    by (rule wait_loop_stuck [OF assms(5,4,3)]) (simp_all add: assms(4))
  then show ?thesis
    using assms(1-3) by (simp add: powermetrics_read_def read_core_data_def wait_text_def pipe_read_def gettimeofday_def)
qed

theorem powermetrics_waits_forever_witness:
  "\<forall>k. powermetrics_read k [CHR 0x00] [] (pm_demo_fd, [], pm_demo_os) ATTR_FREQ Uninit 8 None = Inl Diverges"
proof -
  have "search (core_template 10) [CHR 0x00] = Inr None" by code_simp
  then show ?thesis
    using powermetrics_waits_forever [of pm_demo_fd new_core 10 "[CHR 0x00]" pm_demo_os]
    by (simp add: pm_demo_fd_def pm_demo_os_def)
qed

subsection \<open>Opening\<close>

text \<open>What the description gives for opening an object names neither kind of object, and is rejected.\<close>

lemma powermetrics_open_own_string: "powermetrics_open (getDevOpenStr powermetrics_meta t i len) = None"
proof -
  have "c \<notin> set (take (len - 1) (show_int (obj_code t) @ CHR '' '' # show_int i))" if "\<not> is_digit c" "c \<noteq> CHR ''-''" "c \<noteq> CHR '' ''" for c
    using that by (auto dest!: in_set_takeD show_int_chars)
  moreover have "\<not> is_digit (CHR ''n'')" and "\<not> is_digit (CHR ''c'')" by code_simp+
  ultimately show ?thesis
    by (simp add: powermetrics_open_def contains_str_def powermetrics_meta_def open_str_type_index_def snprintf_def strstr_no_head
        del: take_append)
qed

end
