(* ===== verification/Pi_Dev.thy ===== *)
theory Pi_Dev
  imports Plugin_Iface
begin

text \<open>
  \<^verbatim>\<open>src/plugins/pwr_pidev.c\<close>: the PowerInsight board, read through a library.  The library is a parameter: its own state \<open>'p\<close> and
  the three functions the plugin calls.  The state of a descriptor is the port, the library and the operating system.
\<close>

record reading =
  rd_volt :: real
  rd_amp :: real
  rd_watt :: real

record 'p pi_lib =
  pidev_open :: "'p \<Rightarrow> int \<times> 'p"
  pidev_close :: "'p \<Rightarrow> int \<times> 'p"
  pidev_read :: "32 word \<Rightarrow> 'p \<Rightarrow> (int \<times> reading) \<times> 'p"

type_synonym 'p pi_state = "32 word \<times> 'p \<times> os"

definition pwr_pidev_init :: "'p pi_lib \<Rightarrow> 'p \<Rightarrow> bool \<times> 'p" where
  "pwr_pidev_init lib p = (let (rc, p') = pidev_open lib p in (0 \<le> rc, p'))"

definition pwr_pidev_final :: "'p pi_lib \<Rightarrow> 'p \<Rightarrow> int \<times> 'p" where
  "pwr_pidev_final lib p = (let (rc, p') = pidev_close lib p in (if rc < 0 then -1 else 0, p'))"

definition pwr_pidev_open :: "string option \<Rightarrow> 32 word option" where
  "pwr_pidev_open openstr =
     (case openstr of
        None \<Rightarrow> None
      | Some s \<Rightarrow> (case strtok '':'' s of None \<Rightarrow> None | Some (token, _) \<Rightarrow> Some (word_of_int (atoi token))))"

definition pwr_pidev_close :: "'p pi_state \<Rightarrow> int \<times> 'p \<times> os" where
  "pwr_pidev_close s = (0, snd s)"

text \<open>The board is read before the length is looked at.\<close>

definition pi_value :: "reading \<Rightarrow> attr \<Rightarrow> real option" where
  "pi_value raw a =
     (case a of ATTR_VOLTAGE \<Rightarrow> Some (rd_volt raw) | ATTR_CURRENT \<Rightarrow> Some (rd_amp raw) | ATTR_POWER \<Rightarrow> Some (rd_watt raw)
      | _ \<Rightarrow> None)"

definition opt_cell :: "cell \<Rightarrow> real option \<Rightarrow> cell" where
  "opt_cell v x = (case x of None \<Rightarrow> v | Some y \<Rightarrow> Dbl y)"

definition pwr_pidev_read :: "'p pi_lib \<Rightarrow> 'p pi_state reader" where
  "pwr_pidev_read lib s a v len t =
     (case s of (port, p, w) \<Rightarrow>
      (let ((rc, raw), p1) = pidev_read lib port p
       in if rc < 0 \<or> len \<noteq> SIZEOF_DOUBLE then Inr ((-1, v, t), (port, p1, w))
          else let (tv, w1) = gettimeofday w
               in rbind (store_ts (time_ns tv) t) (\<lambda>t'. Inr ((0, opt_cell v (pi_value raw a), t'), (port, p1, w1)))))"

definition pwr_pidev_write :: "'p pi_state writer" where
  "pwr_pidev_write s a v len = Inr ((0, v), s)"

definition pwr_pidev_readv :: "'p pi_lib \<Rightarrow> 'p pi_state vreader" where
  "pwr_pidev_readv lib = readv_of (pwr_pidev_read lib)"

definition pwr_pidev_writev :: "'p pi_state vwriter" where
  "pwr_pidev_writev = writev_of pwr_pidev_write"

definition pwr_pidev_time :: "'p pi_lib \<Rightarrow> 'p pi_state \<Rightarrow> ts_ptr \<Rightarrow> ((int \<times> ts_ptr) \<times> 'p pi_state) res" where
  "pwr_pidev_time lib = time_of_read (pwr_pidev_read lib) ATTR_POWER"

definition pwr_pidev_clear :: "'p pi_state \<Rightarrow> int \<times> 'p pi_state" where
  "pwr_pidev_clear s = (0, s)"

definition pi_ops :: "'p pi_lib \<Rightarrow> 'p pi_state devops" where
  "pi_ops lib = \<lparr>d_read = pwr_pidev_read lib, d_write = pwr_pidev_write,
     d_readv = Some (pwr_pidev_readv lib), d_writev = Some pwr_pidev_writev,
     d_log_start = None, d_log_stop = None, d_get_samples = None\<rparr>"

interpretation pi_dev: careful_reader "pwr_pidev_read lib" "\<lambda>s. snd (snd s)" for lib
  by unfold_locales
    (auto simp: pwr_pidev_read_def res_simps gettimeofday_def Let_def split: if_splits prod.splits)

interpretation pi_devw: attr_writer pwr_pidev_write
  by unfold_locales (simp add: pwr_pidev_write_def)

text \<open>An array read asks the board once for each attribute, in order, and stores what each reading says.\<close>

fun pi_readings :: "'p pi_lib \<Rightarrow> 32 word \<Rightarrow> nat \<Rightarrow> 'p \<Rightarrow> (int \<times> reading) list \<times> 'p" where
  "pi_readings lib port 0 p = ([], p)"
| "pi_readings lib port (Suc n) p =
     (let (r, p1) = pidev_read lib port p; (rs, p2) = pi_readings lib port n p1 in (r # rs, p2))"

lemma pi_readv_loop:
  "\<lbrakk>length vs = length as; length ts = length as; length st = length as; pi_readings lib port (length as) p = (rs, p')\<rbrakk>
   \<Longrightarrow> \<exists>w' ts'. readv_loop (pwr_pidev_read lib) (port, p, w) as vs ts st = Inr
        ((map2 (\<lambda>(a, rc, raw) v. if rc < 0 then v else opt_cell v (pi_value raw a)) (zip as rs) vs, ts',
          map (\<lambda>(rc, _). if rc < 0 then -1 else 0) rs), (port, p', w'))"
proof (induction as arbitrary: vs ts st p w rs)
  case (Cons a as)
  then obtain v vs0 t ts0 x st0 where l: "vs = v # vs0" "ts = t # ts0" "st = x # st0"
    "length vs0 = length as" "length ts0 = length as" "length st0 = length as"
    by (cases vs; cases ts; cases st) auto
  obtain rc raw p1 rs0 where r: "pidev_read lib port p = ((rc, raw), p1)" and rs: "rs = (rc, raw) # rs0"
    and n: "pi_readings lib port (length as) p1 = (rs0, p')"
    using Cons.prems(4) by (auto split: prod.splits)
  show ?case
    using Cons.IH [OF l(4-6) n, of "if rc < 0 then w else w\<lparr>ticks := Suc (ticks w)\<rparr>"]
    by (auto simp: l r rs pwr_pidev_read_def gettimeofday_def)
qed simp

end
