(* ===== verification/Pg_Dev.thy ===== *)
theory Pg_Dev
  imports Plugin_Iface
begin

text \<open>
  \<^verbatim>\<open>src/plugins/pwr_pgdev.c\<close>: processors of a desktop machine, read through the library of the PowerGadget.  The library is a parameter: its own
  state \<open>'p\<close>, and for each function the plugin calls the status and what it stores, \<open>None\<close> where nothing is stored.
\<close>

record 'p pg_lib =
  pg_num_nodes :: "'p \<Rightarrow> int option"
  pg_num_msrs :: "'p \<Rightarrow> int option"
  pg_start :: "'p \<Rightarrow> 'p"
  pg_stop :: "'p \<Rightarrow> 'p"
  ReadSample :: "'p \<Rightarrow> 'p"
  GetMsrFunc :: "'p \<Rightarrow> nat \<Rightarrow> int \<times> int option"
  GetPowerData :: "'p \<Rightarrow> nat \<Rightarrow> int \<times> (real \<times> real) option"
  GetIAFrequency :: "'p \<Rightarrow> int \<Rightarrow> int \<times> int option"
  GetGTFrequency :: "'p \<Rightarrow> int \<times> int option"
  GetTemperature :: "'p \<Rightarrow> int \<Rightarrow> int \<times> int option"
  GetSysTime :: "'p \<Rightarrow> 64 word"
  MSR_FUNC_POWER :: int

record pg_dev =
  pg_nodes :: int
  pg_msrs :: int

record pg_fd =
  pg_of :: pg_dev
  pg_node :: int
  pg_gpu :: int

type_synonym 'p pg_state = "pg_fd \<times> 'p \<times> os"

text \<open>\<^verbatim>\<open>pgdev_parse\<close>: two numbers separated by a colon.\<close>

definition pgdev_parse :: "string \<Rightarrow> (int \<times> int) option" where
  "pgdev_parse openstr =
     (case strtok '':'' openstr of
        None \<Rightarrow> None
      | Some (token, r) \<Rightarrow> (case strtok '':'' r of None \<Rightarrow> None | Some (token2, _) \<Rightarrow> Some (atoi token, atoi token2)))"

definition num_or_0 :: "int option \<Rightarrow> int" where
  "num_or_0 n = (case n of None \<Rightarrow> 0 | Some i \<Rightarrow> i)"

definition pwr_pgdev_init :: "'p pg_lib \<Rightarrow> 'p \<Rightarrow> pg_dev \<times> 'p" where
  "pwr_pgdev_init lib p =
     (let p1 = pg_start lib p in (\<lparr>pg_nodes = num_or_0 (pg_num_nodes lib p1), pg_msrs = num_or_0 (pg_num_msrs lib p1)\<rparr>, p1))"

definition pwr_pgdev_final :: "'p pg_lib \<Rightarrow> 'p \<Rightarrow> int \<times> 'p" where
  "pwr_pgdev_final lib p = (0, pg_stop lib p)"

definition pwr_pgdev_open :: "pg_dev \<Rightarrow> string option \<Rightarrow> pg_fd option" where
  "pwr_pgdev_open dev openstr =
     (case openstr of
        None \<Rightarrow> None
      | Some s \<Rightarrow> map_option (\<lambda>(n, g). \<lparr>pg_of = dev, pg_node = n, pg_gpu = g\<rparr>) (pgdev_parse s))"

definition pwr_pgdev_close :: "'p pg_state \<Rightarrow> int \<times> 'p \<times> os" where
  "pwr_pgdev_close s = (0, snd s)"

text \<open>
  The loops over the registers.  \<open>func\<close> and \<open>data\<close> keep what was stored last.  For the energy a register whose function cannot be
  told is passed over; for the power the old function is compared again.  \<open>n\<close> counts the registers left.
\<close>

definition keep_last :: "'a option \<Rightarrow> 'a option \<Rightarrow> 'a option" where
  "keep_last new old = (case new of None \<Rightarrow> old | Some _ \<Rightarrow> new)"

definition use_data :: "('a \<Rightarrow> real) \<Rightarrow> 'a option \<Rightarrow> cell res" where
  "use_data f d = (case d of None \<Rightarrow> Inl UninitRead | Some x \<Rightarrow> Inr (Dbl (f x)))"

fun pg_energy :: "'p pg_lib \<Rightarrow> 'p \<Rightarrow> nat \<Rightarrow> nat \<Rightarrow> int option \<Rightarrow> cell \<Rightarrow> cell res" where
  "pg_energy lib p i 0 func v = Inr v"
| "pg_energy lib p i (Suc n) func v =
     (let (rc, f) = GetMsrFunc lib p i; func1 = keep_last f func
      in if rc < 0 then pg_energy lib p (Suc i) n func1 v
         else (case func1 of
                 None \<Rightarrow> Inl UninitRead
               | Some g \<Rightarrow>
                   if g = MSR_FUNC_POWER lib then use_data snd (snd (GetPowerData lib p i))
                   else pg_energy lib p (Suc i) n func1 v))"

fun pg_power :: "'p pg_lib \<Rightarrow> 'p \<Rightarrow> nat \<Rightarrow> nat \<Rightarrow> int option \<Rightarrow> cell \<Rightarrow> cell res" where
  "pg_power lib p i 0 func v = Inr v"
| "pg_power lib p i (Suc n) func v =
     (let (rc, f) = GetMsrFunc lib p i; func1 = keep_last f func
      in (case func1 of
            None \<Rightarrow> Inl UninitRead
          | Some g \<Rightarrow>
              if g = MSR_FUNC_POWER lib then use_data fst (snd (GetPowerData lib p i))
              else pg_power lib p (Suc i) n func1 v))"

definition pg_freq :: "'p pg_lib \<Rightarrow> 'p \<Rightarrow> pg_fd \<Rightarrow> int" where
  "pg_freq lib p fd =
     (if pg_gpu fd = 0 then num_or_0 (snd (GetIAFrequency lib p (pg_node fd))) else num_or_0 (snd (GetGTFrequency lib p)))"

definition systime_ns :: "64 word \<Rightarrow> pwr_time" where
  "systime_ns t = drop_bit 32 t * 1000000000 + take_bit 32 t"

definition pwr_pgdev_read :: "'p pg_lib \<Rightarrow> 'p pg_state reader" where
  "pwr_pgdev_read lib s a v len t =
     (case s of (fd, p, w) \<Rightarrow>
      (let systime = GetSysTime lib p;
           msrs = nat (pg_msrs (pg_of fd));
           p1 = (if a = ATTR_ENERGY \<or> a = ATTR_POWER then ReadSample lib p else p)
       in rbind (case a of
                   ATTR_ENERGY \<Rightarrow> pg_energy lib p1 0 msrs None v
                 | ATTR_POWER \<Rightarrow> pg_power lib p1 0 msrs None v
                 | ATTR_FREQ \<Rightarrow> Inr (Dbl (of_int (pg_freq lib p1 fd) * 10000000))
                 | ATTR_TEMP \<Rightarrow> Inr (Dbl (of_int (num_or_0 (snd (GetTemperature lib p1 (pg_node fd))))))
                 | _ \<Rightarrow> Inr v) (\<lambda>v1.
          rbind (store_ts (systime_ns systime) t) (\<lambda>t'. Inr ((0, v1, t'), (fd, p1, w))))))"

definition pwr_pgdev_write :: "'p pg_state writer" where
  "pwr_pgdev_write s a v len = Inr ((0, v), s)"

definition pwr_pgdev_readv :: "'p pg_lib \<Rightarrow> 'p pg_state vreader" where
  "pwr_pgdev_readv lib = readv_of (pwr_pgdev_read lib)"

definition pwr_pgdev_writev :: "'p pg_state vwriter" where
  "pwr_pgdev_writev = writev_of pwr_pgdev_write"

definition pwr_pgdev_time :: "'p pg_lib \<Rightarrow> 'p pg_state \<Rightarrow> ts_ptr \<Rightarrow> ((int \<times> ts_ptr) \<times> 'p pg_state) res" where
  "pwr_pgdev_time lib = time_of_read (pwr_pgdev_read lib) ATTR_POWER"

definition pwr_pgdev_clear :: "'p pg_state \<Rightarrow> int \<times> 'p pg_state" where
  "pwr_pgdev_clear s = (0, s)"

definition pg_ops :: "'p pg_lib \<Rightarrow> 'p pg_state devops" where
  "pg_ops lib = \<lparr>d_read = pwr_pgdev_read lib, d_write = pwr_pgdev_write,
     d_readv = Some (pwr_pgdev_readv lib), d_writev = Some pwr_pgdev_writev,
     d_log_start = None, d_log_stop = None, d_get_samples = None\<rparr>"

text \<open>A read never fails: what the library reports only reaches the standard error output.\<close>

interpretation pg_dev: careful_reader "pwr_pgdev_read lib" "\<lambda>s. snd (snd s)" for lib
  by unfold_locales (auto simp: pwr_pgdev_read_def res_simps Let_def split: prod.splits)

interpretation pg_devw: attr_writer pwr_pgdev_write
  by unfold_locales (simp add: pwr_pgdev_write_def)

text \<open>The energy is that of the first register known to be a power register.\<close>

lemma pg_energy_first:
  assumes "k < n" and "GetMsrFunc lib p (i + k) = (0, Some (MSR_FUNC_POWER lib))"
    and "\<forall>j<k. fst (GetMsrFunc lib p (i + j)) < 0 \<or> (\<exists>f. snd (GetMsrFunc lib p (i + j)) = Some f \<and> f \<noteq> MSR_FUNC_POWER lib)"
  shows "pg_energy lib p i n func v = use_data snd (snd (GetPowerData lib p (i + k)))"
  using assms
proof (induction k arbitrary: i n func)
  case 0
  then show ?case by (cases n) (simp_all add: keep_last_def)
next
  case (Suc k)
  then obtain m where n: "n = Suc m" by (cases n) auto
  from Suc.prems(3) have "fst (GetMsrFunc lib p i) < 0 \<or> (\<exists>f. snd (GetMsrFunc lib p i) = Some f \<and> f \<noteq> MSR_FUNC_POWER lib)" by force
  moreover have "\<forall>j<k. fst (GetMsrFunc lib p (Suc i + j)) < 0
      \<or> (\<exists>f. snd (GetMsrFunc lib p (Suc i + j)) = Some f \<and> f \<noteq> MSR_FUNC_POWER lib)"
    using Suc.prems(3) by (metis Suc_less_eq add_Suc_shift)
  ultimately show ?case
    using Suc.IH [of m "Suc i"] Suc.prems(1,2) by (auto simp: n Let_def keep_last_def split: prod.splits)
qed

end
