(* ===== verification/Piapi_Dev.thy ===== *)
theory Piapi_Dev
  imports Plugin_Iface
begin

text \<open>
  \<^verbatim>\<open>src/plugins/pwr_piapidev.c\<close>: the PowerInsight board reached over the network.  A request returns at once and its samples come later, in
  a callback that another thread of the library runs.  The two variables the callback shares with the readers, the last
  sample and the flag that a request is under way, are the state \<open>piapi_glob\<close>, together with the
  samples the library has still to deliver.  They are delivered while a reader waits for the flag; a reader that waits when
  no more come does not return.
\<close>

record ratings =
  volts :: real
  amps :: real
  watts :: real

record sample =
  sa_number :: nat
  sa_total :: nat
  sa_raw :: ratings
  sa_min :: ratings
  sa_max :: ratings
  sa_energy :: real
  sa_sec :: "64 word"
  sa_usec :: "64 word"

record piapi_glob =
  piapidev_counter :: sample
  piapidev_reading :: bool
  deliveries :: "sample list"

text \<open>The library: the status of a request for a port, the samples it brings, and the library's new state.\<close>

record 'p piapi_lib =
  piapi_init :: "'p \<Rightarrow> 32 word \<Rightarrow> 32 word \<Rightarrow> int \<times> 'p"
  piapi_destroy :: "'p \<Rightarrow> int \<times> 'p"
  piapi_counter :: "'p \<Rightarrow> 32 word \<Rightarrow> (int \<times> sample list) \<times> 'p"

type_synonym 'p piapi_state = "32 word \<times> piapi_glob \<times> 'p"

definition piapidev_callback :: "piapi_glob \<Rightarrow> sample \<Rightarrow> piapi_glob" where
  "piapidev_callback g x =
     g\<lparr>piapidev_counter := x,
       piapidev_reading := (if sa_total x \<noteq> 0 \<and> sa_number x = sa_total x then False else piapidev_reading g)\<rparr>"

text \<open>\<^verbatim>\<open>while (piapidev_reading) sched_yield()\<close>.\<close>

fun piapi_wait :: "sample list \<Rightarrow> piapi_glob \<Rightarrow> piapi_glob res" where
  "piapi_wait [] g = (if piapidev_reading g then Inl Diverges else Inr (g\<lparr>deliveries := []\<rparr>))"
| "piapi_wait (x # xs) g =
     (if piapidev_reading g then piapi_wait xs (piapidev_callback g x) else Inr (g\<lparr>deliveries := x # xs\<rparr>))"

text \<open>
  \<^verbatim>\<open>piapidev_parse\<close>: four numbers of an address, each shifted into place, and a port.
\<close>

fun addr_tokens :: "nat \<Rightarrow> string \<Rightarrow> 32 word \<Rightarrow> (32 word \<times> string) option" where
  "addr_tokens 0 s acc =
     (case strtok '':'' s of
        None \<Rightarrow> None
      | Some (token, r) \<Rightarrow> Some (or acc (word_of_int (atoi token)), r))"
| "addr_tokens (Suc n) s acc =
     (case strtok ''.'' s of
        None \<Rightarrow> None
      | Some (token, r) \<Rightarrow> addr_tokens n r (or acc (push_bit (8 * Suc n) (word_of_int (atoi token)))))"

definition piapidev_parse :: "string \<Rightarrow> (32 word \<times> 32 word) option" where
  "piapidev_parse initstr =
     (case addr_tokens 3 initstr 0 of
        None \<Rightarrow> None
      | Some (saddr, r) \<Rightarrow> (case strtok '':'' r of None \<Rightarrow> None | Some (token, _) \<Rightarrow> Some (saddr, word_of_int (atoi token))))"

definition pwr_piapidev_init :: "'p piapi_lib \<Rightarrow> 'p \<Rightarrow> string option \<Rightarrow> bool \<times> 'p" where
  "pwr_piapidev_init lib p initstr =
     (case initstr of
        None \<Rightarrow> (False, p)
      | Some s \<Rightarrow>
          (case piapidev_parse s of
             None \<Rightarrow> (False, p)
           | Some (saddr, sport) \<Rightarrow> (let (rc, p') = piapi_init lib p saddr sport in (0 \<le> rc, p'))))"

definition pwr_piapidev_final :: "'p piapi_lib \<Rightarrow> 'p \<Rightarrow> int \<times> 'p" where
  "pwr_piapidev_final lib p = (let (rc, p') = piapi_destroy lib p in (if rc < 0 then -1 else 0, p'))"

definition pwr_piapidev_open :: "string option \<Rightarrow> 32 word option" where
  "pwr_piapidev_open openstr =
     (case openstr of
        None \<Rightarrow> None
      | Some s \<Rightarrow> (case strtok '':'' s of None \<Rightarrow> None | Some (token, _) \<Rightarrow> Some (word_of_int (atoi token))))"

definition pwr_piapidev_close :: "'p piapi_state \<Rightarrow> int \<times> piapi_glob \<times> 'p" where
  "pwr_piapidev_close s = (0, snd s)"

text \<open>A request: wait for the one before, set the flag, ask, and wait.  A request that fails leaves the flag set.\<close>

definition piapi_request :: "'p piapi_lib \<Rightarrow> 'p piapi_state \<Rightarrow> (int \<times> 'p piapi_state) res" where
  "piapi_request lib s =
     (case s of (port, g, p) \<Rightarrow>
      rbind (piapi_wait (deliveries g) g) (\<lambda>g1.
      let ((rc, xs), p1) = piapi_counter lib p port;
          g2 = g1\<lparr>piapidev_reading := True, deliveries := deliveries g1 @ xs\<rparr>
      in if rc < 0 then Inr (-1, (port, g2, p1))
         else rbind (piapi_wait (deliveries g2) g2) (\<lambda>g3. Inr (0, (port, g3, p1)))))"

definition piapi_value :: "sample \<Rightarrow> attr \<Rightarrow> cell \<Rightarrow> cell" where
  "piapi_value x a v =
     (case a of
        ATTR_VOLTAGE \<Rightarrow> Dbl (volts (sa_raw x))
      | ATTR_CURRENT \<Rightarrow> Dbl (amps (sa_raw x))
      | ATTR_POWER \<Rightarrow> Dbl (watts (sa_raw x))
      | ATTR_POWER_LIMIT_MIN \<Rightarrow> Dbl (watts (sa_min x))
      | ATTR_POWER_LIMIT_MAX \<Rightarrow> Dbl (watts (sa_max x))
      | ATTR_ENERGY \<Rightarrow> Dbl (sa_energy x)
      | _ \<Rightarrow> v)"

definition piapi_time :: "sample \<Rightarrow> pwr_time" where
  "piapi_time x = sa_sec x * 1000000000 + sa_usec x * 1000"

definition pwr_piapidev_read :: "'p piapi_lib \<Rightarrow> 'p piapi_state reader" where
  "pwr_piapidev_read lib s a v len t =
     rbind (piapi_request lib s) (\<lambda>(rc, s1).
     if rc < 0 \<or> len \<noteq> SIZEOF_DOUBLE then Inr ((-1, v, t), s1)
     else let x = piapidev_counter (fst (snd s1))
          in rbind (store_ts (piapi_time x) t) (\<lambda>t'. Inr ((0, piapi_value x a v, t'), s1)))"

definition pwr_piapidev_write :: "'p piapi_state writer" where
  "pwr_piapidev_write s a v len = Inr ((0, v), s)"

text \<open>The array read makes one request for all, and then one more for each attribute over the values just stored.\<close>

fun piapi_readv_loop ::
  "'p piapi_lib \<Rightarrow> 'p piapi_state \<Rightarrow> attr list \<Rightarrow> cell list \<Rightarrow> pwr_time list \<Rightarrow> int list
   \<Rightarrow> ((cell list \<times> pwr_time list \<times> int list) \<times> 'p piapi_state) res" where
  "piapi_readv_loop lib s [] vs ts st = Inr ((vs, ts, st), s)"
| "piapi_readv_loop lib s (a # as) (v # vs) (t # ts) (_ # st) =
     (let x = piapidev_counter (fst (snd s))
      in rbind (pwr_piapidev_read lib s a (piapi_value x a v) SIZEOF_DOUBLE (Some (piapi_time x))) (\<lambda>((rc, v', t'), s').
         rbind (piapi_readv_loop lib s' as vs ts st) (\<lambda>((vs', ts', st'), s'').
         Inr ((v' # vs', (case t' of Some u \<Rightarrow> u | None \<Rightarrow> t) # ts', rc # st'), s''))))"
| "piapi_readv_loop lib s (a # as) vs ts st = Inl MemoryFault"

definition pwr_piapidev_readv :: "'p piapi_lib \<Rightarrow> 'p piapi_state vreader" where
  "pwr_piapidev_readv lib s as vs ts st =
     rbind (piapi_request lib s) (\<lambda>(rc, s1).
     if rc < 0 then Inr ((-1, vs, ts, st), s1)
     else rbind (piapi_readv_loop lib s1 as vs ts st) (\<lambda>((vs', ts', st'), s'). Inr ((0, vs', ts', st'), s')))"

definition pwr_piapidev_writev :: "'p piapi_state vwriter" where
  "pwr_piapidev_writev = writev_of pwr_piapidev_write"

definition pwr_piapidev_time :: "'p piapi_lib \<Rightarrow> 'p piapi_state \<Rightarrow> ts_ptr \<Rightarrow> ((int \<times> ts_ptr) \<times> 'p piapi_state) res" where
  "pwr_piapidev_time lib = time_of_read (pwr_piapidev_read lib) ATTR_POWER"

definition pwr_piapidev_clear :: "'p piapi_state \<Rightarrow> int \<times> 'p piapi_state" where
  "pwr_piapidev_clear s = (0, s)"

definition piapi_ops :: "'p piapi_lib \<Rightarrow> 'p piapi_state devops" where
  "piapi_ops lib = \<lparr>d_read = pwr_piapidev_read lib, d_write = pwr_piapidev_write,
     d_readv = Some (pwr_piapidev_readv lib), d_writev = Some pwr_piapidev_writev,
     d_log_start = None, d_log_stop = None, d_get_samples = None\<rparr>"

interpretation piapi_devw: attr_writer pwr_piapidev_write
  by unfold_locales (simp add: pwr_piapidev_write_def)

subsection \<open>The flag\<close>

text \<open>A sample ends a request when it is the last of its series.\<close>

definition last_sample :: "sample \<Rightarrow> bool" where
  "last_sample x \<longleftrightarrow> sa_total x \<noteq> 0 \<and> sa_number x = sa_total x"

lemma piapi_wait_idle: "\<not> piapidev_reading g \<Longrightarrow> piapi_wait xs g = Inr (g\<lparr>deliveries := xs\<rparr>)"
  by (cases xs) simp_all

lemma piapi_wait_stuck:
  "piapidev_reading g \<Longrightarrow> \<forall>x\<in>set xs. \<not> last_sample x \<Longrightarrow> piapi_wait xs g = Inl Diverges"
  by (induction xs arbitrary: g) (auto simp: piapidev_callback_def last_sample_def)

lemma piapi_wait_last:
  "piapidev_reading g \<Longrightarrow> \<forall>x\<in>set xs. \<not> last_sample x \<Longrightarrow> last_sample y \<Longrightarrow>
   piapi_wait (xs @ y # ys) g = Inr (g\<lparr>piapidev_counter := y, piapidev_reading := False, deliveries := ys\<rparr>)"
proof (induction xs arbitrary: g)
  case (Cons x xs)
  then show ?case by (simp add: piapidev_callback_def last_sample_def)
qed (simp add: piapidev_callback_def last_sample_def piapi_wait_idle)

text \<open>A request that the library accepts and answers gives the last sample of the answer, and leaves the flag clear.\<close>

lemma pwr_piapidev_read_answered:
  assumes "\<not> piapidev_reading g" and "deliveries g = []" and "piapi_counter lib p port = ((rc, xs @ [y]), p')" and "0 \<le> rc"
    and "\<forall>x\<in>set xs. \<not> last_sample x" and "last_sample y"
  shows "pwr_piapidev_read lib (port, g, p) a v SIZEOF_DOUBLE (Some t) =
    Inr ((0, piapi_value y a v, Some (piapi_time y)), (port, g\<lparr>piapidev_counter := y\<rparr>, p'))"
  using assms piapi_wait_last [of "g\<lparr>piapidev_reading := True, deliveries := xs @ [y]\<rparr>" xs y "[]"]
  by (simp add: pwr_piapidev_read_def piapi_request_def piapi_wait_idle)

text \<open>A flag that is set while no request is under way, and no last sample is on its way, blocks every reader.\<close>

lemma piapi_request_stuck:
  "piapidev_reading g \<Longrightarrow> \<forall>x\<in>set (deliveries g). \<not> last_sample x \<Longrightarrow> piapi_request lib (port, g, p) = Inl Diverges"
  by (simp add: piapi_request_def piapi_wait_stuck)

text \<open>
  One failed request blocks the plugin for good.  When the library refuses a request and delivers nothing for it, the read
  reports the error, but the flag stays set: from then on every read of every descriptor, of one attribute, of several or
  of the time, never returns.
\<close>

theorem piapi_failed_request_blocks:
  assumes "\<not> piapidev_reading g" and "deliveries g = []" and "piapi_counter lib p port = ((rc, []), p')" and "rc < 0"
  shows "\<exists>g'. pwr_piapidev_read lib (port, g, p) a v len t = Inr ((-1, v, t), (port, g', p'))
     \<and> pwr_piapidev_read lib (port2, g', p2) a2 v2 len2 t2 = Inl Diverges
     \<and> pwr_piapidev_readv lib (port2, g', p2) as vs ts st = Inl Diverges
     \<and> pwr_piapidev_time lib (port2, g', p2) t2 = Inl Diverges"
proof -
  let ?g = "g\<lparr>piapidev_reading := True, deliveries := []\<rparr>"
  have r: "piapi_request lib (port, g, p) = Inr (-1, (port, ?g, p'))"
    using assms by (simp add: piapi_request_def piapi_wait_idle)
  have s: "piapi_request lib (port2, ?g, p2) = Inl Diverges" by (simp add: piapi_request_stuck)
  show ?thesis
    by (intro exI [of _ ?g]) (simp add: pwr_piapidev_read_def pwr_piapidev_readv_def pwr_piapidev_time_def time_of_read_def r s)
qed

definition piapi_demo_lib :: "nat piapi_lib" where
  "piapi_demo_lib = \<lparr>piapi_init = (\<lambda>p _ _. (0, p)), piapi_destroy = (\<lambda>p. (0, p)),
     piapi_counter = (\<lambda>p port. if port = 1 then ((0, [\<lparr>sa_number = 1, sa_total = 1, sa_raw = \<lparr>volts = 12, amps = 1, watts = 12\<rparr>,
        sa_min = \<lparr>volts = 12, amps = 1, watts = 12\<rparr>, sa_max = \<lparr>volts = 12, amps = 1, watts = 12\<rparr>, sa_energy = 60,
        sa_sec = 7, sa_usec = 1\<rparr>]), Suc p) else ((-1, []), p))\<rparr>"

definition piapi_demo_glob :: piapi_glob where
  "piapi_demo_glob = \<lparr>piapidev_counter = \<lparr>sa_number = 0, sa_total = 0, sa_raw = \<lparr>volts = 0, amps = 0, watts = 0\<rparr>,
     sa_min = \<lparr>volts = 0, amps = 0, watts = 0\<rparr>, sa_max = \<lparr>volts = 0, amps = 0, watts = 0\<rparr>, sa_energy = 0, sa_sec = 0, sa_usec = 0\<rparr>,
     piapidev_reading = False, deliveries = []\<rparr>"

theorem piapi_failed_request_blocks_witness:
  "\<exists>g'. pwr_piapidev_read piapi_demo_lib (9, piapi_demo_glob, 0) ATTR_POWER Uninit 8 (Some 0) = Inr ((-1, Uninit, Some 0), (9, g', 0))
     \<and> pwr_piapidev_read piapi_demo_lib (1, g', 0) ATTR_POWER Uninit 8 (Some 0) = Inl Diverges"
proof -
  have "\<not> piapidev_reading piapi_demo_glob" and "deliveries piapi_demo_glob = []"
    and "piapi_counter piapi_demo_lib 0 9 = ((-1, []), 0)"
    by (simp_all add: piapi_demo_glob_def piapi_demo_lib_def)
  from piapi_failed_request_blocks [OF this] show ?thesis by fastforce
qed

end
