(* ===== verification/Mic_Dev.thy ===== *)
theory Mic_Dev
  imports Plugin_Iface
begin

text \<open>
  \<^verbatim>\<open>src/plugins/pwr_micdev.c\<close>: the power of Xeon Phi cards, read through a library of the vendor.  The library is a parameter: what it says of each
  card when the plugin is loaded, and the readings of a card, in millionths of a watt.  \<open>None\<close> is a call that fails, or stores nothing.
\<close>

datatype mic_layer =
    INTEL_LAYER_INVALID | INTEL_LAYER_WIN0 | INTEL_LAYER_WIN1 | INTEL_LAYER_PCIE | INTEL_LAYER_INST | INTEL_LAYER_MXIN
  | INTEL_LAYER_2X3 | INTEL_LAYER_2X4 | INTEL_LAYER_CORP | INTEL_LAYER_CORA | INTEL_LAYER_CORV
  | INTEL_LAYER_UNCP | INTEL_LAYER_UNCA | INTEL_LAYER_UNCV | INTEL_LAYER_MEMP | INTEL_LAYER_MEMA | INTEL_LAYER_MEMV

record mic_limits =
  limitphysical :: "32 word"
  limitlow :: "32 word"
  limithigh :: "32 word"
  window0 :: "32 word"
  window1 :: "32 word"

record mic_lib =
  mic_get_ndevices :: "nat option"
  mic_open_device :: "nat \<Rightarrow> nat option"
  mic_get_device_id :: "nat \<Rightarrow> 16 word option"
  mic_get_cores :: "nat \<Rightarrow> (int \<times> 32 word) option"
  mic_get_limits :: "nat \<Rightarrow> mic_limits option"
  mic_reading :: "nat \<Rightarrow> mic_layer \<Rightarrow> 32 word option"

record mic_dev =
  md_mdh :: nat
  md_mic :: nat
  md_id :: string
  md_cores :: int
  md_freq :: "32 word"
  md_limits :: mic_limits

text \<open>What \<^verbatim>\<open>malloc\<close> left in a descriptor is \<open>None\<close>.\<close>

record mic_fd =
  mf_dev :: mic_dev
  mf_layers :: "mic_layer list option"

type_synonym mic_state = "mic_fd \<times> os"

definition micdev_parse_open :: "string \<Rightarrow> mic_layer" where
  "micdev_parse_open name =
     (if name = ''win0'' then INTEL_LAYER_WIN0
      else if name = ''win1'' then INTEL_LAYER_WIN1
      else if name = ''pci'' \<or> name = ''pcie'' then INTEL_LAYER_PCIE
      else if name = ''instant'' then INTEL_LAYER_INST
      else if name = ''max instant'' then INTEL_LAYER_MXIN
      else if name = ''2x3'' then INTEL_LAYER_2X3
      else if name = ''2x4'' then INTEL_LAYER_2X4
      else if name = ''core power'' then INTEL_LAYER_CORP
      else if name = ''core amp'' then INTEL_LAYER_CORA
      else if name = ''core volt'' then INTEL_LAYER_CORV
      else if name = ''uncore power'' then INTEL_LAYER_UNCP
      else if name = ''uncore amp'' then INTEL_LAYER_UNCA
      else if name = ''uncore volt'' then INTEL_LAYER_UNCV
      else if name = ''memory power'' then INTEL_LAYER_MEMP
      else if name = ''memory amp'' then INTEL_LAYER_MEMA
      else if name = ''memory volt'' then INTEL_LAYER_MEMV
      else INTEL_LAYER_INVALID)"

text \<open>The reading is a local variable that stays unset when the library stores nothing, or the layer is none of the sixteen.\<close>

definition micdev_gather :: "mic_lib \<Rightarrow> nat \<Rightarrow> mic_layer \<Rightarrow> real res" where
  "micdev_gather lib mdh l =
     (case (if l = INTEL_LAYER_INVALID then None else mic_reading lib mdh l) of
        None \<Rightarrow> Inl UninitRead
      | Some pwr \<Rightarrow> Inr (of_nat (unat pwr) / 1000000))"

definition need_call :: "'a option \<Rightarrow> 'a res" where
  "need_call x = (case x of None \<Rightarrow> Inl AssertFailed | Some y \<Rightarrow> Inr y)"

definition card_name :: "16 word \<Rightarrow> string" where
  "card_name i = (if i = 0x2250 then ''KNC'' else if i = 0x225c then ''KNL'' else ''Error'')"

definition mic_card :: "mic_lib \<Rightarrow> nat \<Rightarrow> mic_dev res" where
  "mic_card lib i =
     rbind (need_call (mic_open_device lib i)) (\<lambda>mdh.
     rbind (need_call (mic_get_device_id lib mdh)) (\<lambda>ident.
     rbind (need_call (mic_get_cores lib mdh)) (\<lambda>(cores, freq).
     rbind (need_call (mic_get_limits lib mdh)) (\<lambda>lim.
     Inr \<lparr>md_mdh = mdh, md_mic = i, md_id = card_name ident, md_cores = cores, md_freq = freq, md_limits = lim\<rparr>))))"

fun mic_cards :: "mic_lib \<Rightarrow> nat list \<Rightarrow> mic_dev list res" where
  "mic_cards lib [] = Inr []"
| "mic_cards lib (i # is) = rbind (mic_card lib i) (\<lambda>d. rbind (mic_cards lib is) (\<lambda>ds. Inr (d # ds)))"

definition pwr_micdev_init :: "mic_lib \<Rightarrow> mic_dev list res" where
  "pwr_micdev_init lib =
     rbind (need_call (mic_get_ndevices lib)) (\<lambda>n.
     rbind (mic_cards lib [0..<n]) (\<lambda>mics. c_assert (0 < length mics) (Inr mics)))"

definition pwr_micdev_final :: "mic_state \<Rightarrow> int \<times> os" where
  "pwr_micdev_final s = free_fd s"

text \<open>Only a socket gets layers.  The index is checked against the number of cards from above.\<close>

definition socket_layers :: "mic_layer list" where
  "socket_layers = map micdev_parse_open [''pci'', ''2x3'', ''2x4'']"

definition pwr_micdev_open :: "mic_dev list \<Rightarrow> string \<Rightarrow> mic_fd res" where
  "pwr_micdev_open mics openstr =
     (case sscanf_d_d openstr of
        (Some type, Some global_index) \<Rightarrow>
          c_assert (global_index < int (length mics))
            (if global_index < 0 then Inl MemoryFault
             else Inr \<lparr>mf_dev = mics ! nat global_index,
                       mf_layers = (if type = obj_code OBJ_SOCKET then Some socket_layers else None)\<rparr>)
      | _ \<Rightarrow> Inl UninitRead)"

definition pwr_micdev_close :: "mic_state \<Rightarrow> int \<times> os" where
  "pwr_micdev_close s = free_fd s"

fun gather_layers :: "mic_lib \<Rightarrow> nat \<Rightarrow> mic_layer list \<Rightarrow> real \<Rightarrow> real res" where
  "gather_layers lib mdh [] acc = Inr acc"
| "gather_layers lib mdh (l # ls) acc = rbind (micdev_gather lib mdh l) (\<lambda>x. gather_layers lib mdh ls (acc + x))"

text \<open>The time is a local variable that nothing sets after its start value of zero.\<close>

definition pwr_micdev_read :: "mic_lib \<Rightarrow> mic_state reader" where
  "pwr_micdev_read lib s a v len t =
     (let (fd, w) = s
      in if len \<noteq> SIZEOF_DOUBLE then Inr ((-1, v, t), s)
         else (case mf_layers fd of
                 None \<Rightarrow> Inl UninitRead
               | Some ls \<Rightarrow>
                   rbind (gather_layers lib (md_mdh (mf_dev fd)) ls 0) (\<lambda>pwr.
                   rbind (store_ts (time_of_double 0) t) (\<lambda>t'.
                   Inr ((0, if a = ATTR_POWER then Dbl pwr else v, t'), s)))))"

definition pwr_micdev_write :: "mic_state writer" where
  "pwr_micdev_write s a v len = Inr ((0, v), s)"

definition pwr_micdev_readv :: "mic_lib \<Rightarrow> mic_state vreader" where
  "pwr_micdev_readv lib = readv_of (pwr_micdev_read lib)"

definition pwr_micdev_writev :: "mic_state vwriter" where
  "pwr_micdev_writev = writev_of pwr_micdev_write"

definition pwr_micdev_time :: "mic_lib \<Rightarrow> mic_state \<Rightarrow> ts_ptr \<Rightarrow> ((int \<times> ts_ptr) \<times> mic_state) res" where
  "pwr_micdev_time lib = time_of_read (pwr_micdev_read lib) ATTR_POWER"

definition pwr_micdev_clear :: "mic_state \<Rightarrow> int \<times> mic_state" where
  "pwr_micdev_clear s = (0, s)"

definition mic_ops :: "mic_lib \<Rightarrow> mic_state devops" where
  "mic_ops lib = \<lparr>d_read = pwr_micdev_read lib, d_write = pwr_micdev_write,
     d_readv = Some (pwr_micdev_readv lib), d_writev = Some pwr_micdev_writev,
     d_log_start = None, d_log_stop = None, d_get_samples = None\<rparr>"

interpretation mic: careful_reader "pwr_micdev_read lib" snd for lib
  by unfold_locales (auto simp: pwr_micdev_read_def res_simps split: if_splits option.splits)

interpretation micw: attr_writer pwr_micdev_write
  by unfold_locales (simp add: pwr_micdev_write_def)

subsection \<open>The description\<close>

definition micdev_numObjs :: nat where
  "micdev_numObjs = 2"

definition micdev_readObjs :: "nat \<Rightarrow> obj_type list \<Rightarrow> obj_type list res" where
  "micdev_readObjs i = fill [OBJ_SOCKET]"

definition micdev_numAttrs :: "obj_type \<Rightarrow> nat" where
  "micdev_numAttrs t = 1"

definition micdev_readAttrs :: "obj_type \<Rightarrow> nat \<Rightarrow> attr list \<Rightarrow> attr list res" where
  "micdev_readAttrs t i = fill [ATTR_POWER]"

definition mic_meta :: plugin_meta where
  "mic_meta = \<lparr>numObjs = micdev_numObjs, readObjs = micdev_readObjs,
     numAttrs = micdev_numAttrs, readAttrs = micdev_readAttrs,
     getDevName = (\<lambda>_ len. strncpy len ''MIC''),
     getDevOpenStr = open_str_type_index,
     getDevInitStr = (\<lambda>_ len. Some (snprintf len [])),
     getPluginName = (\<lambda>len. Some (snprintf len ''micmgmt''))\<rparr>"

text \<open>The plugin announces two objects and names one, so the framework takes the first enumerator for the other.\<close>

lemma mic_meta_new: "pluginMeta_new mic_meta = Inr [(OBJ_SOCKET, [ATTR_POWER]), (OBJ_PLATFORM, [ATTR_POWER])]"
  by (simp add: pluginMeta_new_def mic_meta_def micdev_numObjs_def micdev_readObjs_def micdev_numAttrs_def micdev_readAttrs_def
      fill_def arr_set_def eval_nat_numeral)

lemma mic_meta_supports:
  "pluginMeta_new mic_meta = Inr om \<Longrightarrow> isObjectSupported om t a \<longleftrightarrow> t \<in> {OBJ_SOCKET, OBJ_PLATFORM} \<and> a = ATTR_POWER"
  by (auto simp: mic_meta_new isObjectSupported_def)

lemma gather_layers_sum:
  "\<forall>l\<in>set ls. l \<noteq> INTEL_LAYER_INVALID \<and> mic_reading lib mdh l = Some (f l) \<Longrightarrow>
   gather_layers lib mdh ls x = Inr (x + (\<Sum>l\<leftarrow>ls. of_nat (unat (f l)) / 1000000))"
  by (induction ls arbitrary: x) (simp_all add: micdev_gather_def)

lemma socket_layers_eq: "socket_layers = [INTEL_LAYER_PCIE, INTEL_LAYER_2X3, INTEL_LAYER_2X4]"
  by (simp add: socket_layers_def micdev_parse_open_def)

text \<open>
  What the framework makes of the description.  It takes two kinds of object from it, and a descriptor opened with the
  plugin's own string behaves differently for them: of a socket the power is read, the three feeds of the card
  added up, with time zero; a platform, which the plugin never meant to announce, is opened too, and reading it uses the number
  of layers before it was ever set.
\<close>

theorem mic_described_objects:
  assumes "pluginMeta_new mic_meta = Inr om" and "isObjectSupported om t a"
    and "i < length mics" and "int32 (int i)"
    and "\<forall>l\<in>set socket_layers. mic_reading lib (md_mdh (mics ! i)) l = Some (f l)"
  shows "\<exists>fd. pwr_micdev_open mics (getDevOpenStr mic_meta t (int i) 100) = Inr fd
     \<and> pwr_micdev_read lib (fd, w) a v 8 (Some ts) =
         (if t = OBJ_SOCKET then
            Inr ((0, Dbl ((\<Sum>l\<leftarrow>socket_layers. of_nat (unat (f l)) / 1000000)), Some 0), (fd, w))
          else Inl UninitRead)"
proof -
  have t: "t = OBJ_SOCKET \<or> t = OBJ_PLATFORM" and a: "a = ATTR_POWER" using mic_meta_supports [OF assms(1)] assms(2) by auto
  let ?fd = "\<lparr>mf_dev = mics ! i, mf_layers = (if t = OBJ_SOCKET then Some socket_layers else None)\<rparr>"
  have "pwr_micdev_open mics (getDevOpenStr mic_meta t (int i) 100) = Inr ?fd"
    using assms(3) t by (auto simp: pwr_micdev_open_def mic_meta_def sscanf_open_str [OF assms(4)] c_assert_def)
  moreover have "\<forall>l\<in>set socket_layers. l \<noteq> INTEL_LAYER_INVALID" by (simp add: socket_layers_eq)
  with assms(5) have "gather_layers lib (md_mdh (mics ! i)) socket_layers 0
      = Inr (\<Sum>l\<leftarrow>socket_layers. of_nat (unat (f l)) / 1000000)"
    using gather_layers_sum [of socket_layers lib _ f 0] by simp
  then have "pwr_micdev_read lib (?fd, w) a v 8 (Some ts) =
      (if t = OBJ_SOCKET then
         Inr ((0, Dbl ((\<Sum>l\<leftarrow>socket_layers. of_nat (unat (f l)) / 1000000)), Some 0), (?fd, w))
       else Inl UninitRead)"
    by (simp add: pwr_micdev_read_def SIZEOF_DOUBLE_def a time_of_double_def trunc_def)
  ultimately show ?thesis by blast
qed

definition mic_demo_dev :: mic_dev where
  "mic_demo_dev = \<lparr>md_mdh = 0, md_mic = 0, md_id = ''KNC'', md_cores = 60, md_freq = 1000,
     md_limits = \<lparr>limitphysical = 0, limitlow = 0, limithigh = 0, window0 = 0, window1 = 0\<rparr>\<rparr>"

definition mic_demo_lib :: mic_lib where
  "mic_demo_lib = \<lparr>mic_get_ndevices = Some 1, mic_open_device = Some, mic_get_device_id = (\<lambda>_. Some 0x2250),
     mic_get_cores = (\<lambda>_. Some (60, 1000)), mic_get_limits = (\<lambda>_. Some (md_limits mic_demo_dev)),
     mic_reading = (\<lambda>_ _. Some 2000000)\<rparr>"

theorem mic_described_objects_witness:
  "\<exists>fd. pwr_micdev_open [mic_demo_dev] (getDevOpenStr mic_meta OBJ_PLATFORM 0 100) = Inr fd
     \<and> pwr_micdev_read mic_demo_lib (fd, \<lparr>files = Map.empty, can_write = (\<lambda>_. True), store = (\<lambda>_ d _. Some d), wlog = [], fds = 0,
          clock = (\<lambda>n. \<lparr>tv_sec = int n, tv_usec = 0\<rparr>), ticks = 0, msr = (\<lambda>_ _. None)\<rparr>) ATTR_POWER Uninit 8 (Some 0)
       = Inl UninitRead"
proof -
  have s: "isObjectSupported [(OBJ_SOCKET, [ATTR_POWER]), (OBJ_PLATFORM, [ATTR_POWER])] OBJ_PLATFORM ATTR_POWER"
    by (simp add: isObjectSupported_def)
  have "\<forall>l\<in>set socket_layers. mic_reading mic_demo_lib (md_mdh ([mic_demo_dev] ! 0)) l = Some 2000000"
    by (simp add: mic_demo_lib_def)
  moreover have "int32 (int 0)" by (simp add: int32_def)
  ultimately show ?thesis
    using mic_described_objects [OF mic_meta_new s, where mics = "[mic_demo_dev]" and i = 0] by simp
qed

end
