(* ===== verification/Tcp_Channel.thy ===== *)
theory Tcp_Channel
  imports C_Lib
begin

text \<open>
  Channels between processes (\<^verbatim>\<open>src/pwr/tcpEventChannel.cc\<close>): reading their configuration, connecting when a
  channel is first used, and waiting for the channels that have something to read.
\<close>

subsection \<open>Positions in a \<^verbatim>\<open>std::string\<close>\<close>

text \<open>
  A position is \<open>None\<close> for \<^verbatim>\<open>npos\<close>, and \<open>npos + 1\<close> is \<open>0\<close>.  \<open>sub_to\<close> is \<^verbatim>\<open>substr(0, pos)\<close>,
  \<open>sub_from\<close> is \<^verbatim>\<open>substr(pos + 1)\<close> and \<open>sub_count\<close> is \<^verbatim>\<open>substr(0, pos + 1)\<close>; none of them can start beyond the
  end of the string the position was found in.
\<close>

fun find_first_of :: "char \<Rightarrow> string \<Rightarrow> nat option" where
  "find_first_of c [] = None"
| "find_first_of c (x # xs) = (if x = c then Some 0 else map_option Suc (find_first_of c xs))"

definition find_last_of :: "char \<Rightarrow> string \<Rightarrow> nat option" where
  "find_last_of c s = map_option (\<lambda>i. length s - Suc i) (find_first_of c (rev s))"

definition after :: "nat option \<Rightarrow> nat" where
  "after p = (case p of None \<Rightarrow> 0 | Some i \<Rightarrow> Suc i)"

definition sub_to :: "nat option \<Rightarrow> string \<Rightarrow> string" where
  "sub_to p s = (case p of None \<Rightarrow> s | Some i \<Rightarrow> take i s)"

definition sub_from :: "nat option \<Rightarrow> string \<Rightarrow> string" where
  "sub_from p s = drop (after p) s"

definition sub_count :: "nat option \<Rightarrow> string \<Rightarrow> string" where
  "sub_count p s = take (after p) s"

text \<open>Reading a field up to a separator.\<close>

lemma find_first_of_none [simp]: "c \<notin> set s \<Longrightarrow> find_first_of c s = None"
  by (induction s) auto

lemma find_first_of_append [simp]: "c \<notin> set s \<Longrightarrow> find_first_of c (s @ c # t) = Some (length s)"
  by (induction s) auto

lemma find_first_of_less: "find_first_of c s = Some i \<Longrightarrow> i < length s"
  by (induction s arbitrary: i) (auto split: if_splits)

lemma find_last_of_append [simp]: "c \<notin> set t \<Longrightarrow> find_last_of c (s @ c # t) = Some (length s)"
  using find_first_of_append [of c "rev t" "rev s"] by (simp add: find_last_of_def)

lemma sub_simps [simp]:
  "sub_to None s = s" "sub_to (Some (length s)) (s @ t) = s" "sub_from (Some (length s)) (s @ c # t) = t"
  "sub_from None s = s" "after None = 0" "after (Some i) = Suc i" "sub_count (Some i) s = take (Suc i) s" "sub_count None s = []"
  by (simp_all add: sub_to_def sub_from_def sub_count_def after_def)

lemma sub_field [simp]:
  assumes "c \<notin> set s"
  shows "sub_to (find_first_of c (s @ c # t)) (s @ c # t) = s" "sub_from (find_first_of c (s @ c # t)) (s @ c # t) = t"
    "sub_to (find_first_of c s) s = s" "sub_count (find_first_of c (s @ c # t)) u = take (Suc (length s)) u"
  using assms by (simp_all add: sub_count_def)

subsection \<open>The ends of a channel\<close>

text \<open>
  The configuration of a channel is a list of \<^verbatim>\<open>key=value\<close> pairs between blanks; a blank at the end makes
  \<^verbatim>\<open>substr\<close> throw.
\<close>

fun find_first_not_of :: "char \<Rightarrow> string \<Rightarrow> nat option" where
  "find_first_not_of c [] = None"
| "find_first_not_of c (x # xs) = (if x \<noteq> c then Some 0 else map_option Suc (find_first_not_of c xs))"

lemma find_first_not_of_less: "find_first_not_of c s = Some i \<Longrightarrow> i < length s"
  by (induction s arbitrary: i) (auto split: if_splits)

definition value_part :: "string \<Rightarrow> nat \<Rightarrow> string" where
  "value_part s b = (let t = drop b s in sub_from (find_first_of CHR ''='' t) t)"

function split_config :: "string \<Rightarrow> (string \<rightharpoonup> string) \<Rightarrow> (string \<rightharpoonup> string) res" where
  "split_config s foo =
     (if s = [] then Inr foo
      else case find_first_not_of CHR '' '' s of
        None \<Rightarrow> Inl Uncaught
      | Some b \<Rightarrow>
          (let t = drop b s; key = sub_to (find_first_of CHR ''='' t) t; u = value_part s b;
               q = find_first_of CHR '' '' u; foo' = foo(key \<mapsto> sub_to q u)
           in case q of None \<Rightarrow> Inr foo' | Some p \<Rightarrow> split_config (drop (Suc p) u) foo'))"
  by pat_completeness auto
termination
proof (relation "measure (length \<circ> fst)", goal_cases)
  case (2 s foo b t key u q foo' p)
  then have "p < length u" using find_first_of_less by metis
  moreover have "length u \<le> length s" using 2 by (simp add: value_part_def Let_def sub_from_def)
  ultimately show ?case by simp
qed simp

declare split_config.simps [simp del]

text \<open>
  \<^verbatim>\<open>TcpEventChannel\<close>: without the key \<^verbatim>\<open>server\<close> it listens at once, otherwise it connects when it is first used.  A
  port is the low half of the number read.
\<close>

datatype endpoint = Listen "16 word" | Connect string string

definition in_port :: "string \<Rightarrow> 16 word" where
  "in_port s = word_of_int (atoi s)"

definition value_of :: "(string \<rightharpoonup> string) \<Rightarrow> string \<Rightarrow> string" where
  "value_of foo k = (case foo k of None \<Rightarrow> [] | Some v \<Rightarrow> v)"

definition tcp_channel :: "string \<Rightarrow> endpoint res" where
  "tcp_channel config =
     rbind (split_config config Map.empty) (\<lambda>foo.
     case foo ''server'' of
       None \<Rightarrow> Inr (Listen (in_port (value_of foo ''listenPort'')))
     | Some h \<Rightarrow> Inr (Connect h (value_of foo ''serverPort'')))"

text \<open>The two forms the daemon writes.\<close>

definition connect_config :: "string \<Rightarrow> string \<Rightarrow> string" where
  "connect_config host p = ''server='' @ host @ '' serverPort='' @ p"

definition listen_config :: "string \<Rightarrow> string" where
  "listen_config p = ''listenPort='' @ p"

definition plain_field :: "string \<Rightarrow> bool" where
  "plain_field s \<longleftrightarrow> set s \<inter> {CHR '' '', CHR '':''} = {}"

lemma plain_fieldD [simp]: "plain_field s \<Longrightarrow> CHR '' '' \<notin> set s" "plain_field s \<Longrightarrow> CHR '':'' \<notin> set s"
  by (auto simp: plain_field_def)

lemma plain_field_show_nat [simp]: "plain_field (show_nat n)"
proof -
  have "\<not> is_digit CHR '' ''" "\<not> is_digit CHR '':''" by (simp_all add: is_digit_def char_code_def)
  then show ?thesis using show_nat_digits [of n] unfolding plain_field_def by blast
qed

lemma find_first_not_of_hd: "s \<noteq> [] \<Longrightarrow> hd s \<noteq> c \<Longrightarrow> find_first_not_of c s = Some 0"
  by (cases s) simp_all

lemma split_pair:
  assumes "CHR ''='' \<notin> set k" and "k \<noteq> []" and "hd k \<noteq> CHR '' ''" and "CHR '' '' \<notin> set v"
  shows "split_config (k @ CHR ''='' # v) foo = Inr (foo(k \<mapsto> v))"
    and "split_config (k @ CHR ''='' # v @ CHR '' '' # rest) foo = split_config rest (foo(k \<mapsto> v))"
proof -
  have b: "find_first_not_of CHR '' '' (k @ x) = Some 0" for x
    using assms(2,3) by (simp add: find_first_not_of_hd)
  have v: "value_part (k @ CHR ''='' # x) 0 = x" for x using assms(1) by (simp add: value_part_def)
  show "split_config (k @ CHR ''='' # v) foo = Inr (foo(k \<mapsto> v))"
    by (subst split_config.simps) (use assms in \<open>simp add: b v Let_def\<close>)
  show "split_config (k @ CHR ''='' # v @ CHR '' '' # rest) foo = split_config rest (foo(k \<mapsto> v))"
    by (subst split_config.simps) (use assms in \<open>simp add: b v Let_def\<close>)
qed

lemma split_empty [simp]: "split_config [] foo = Inr foo"
  by (simp add: split_config.simps)

lemma tcp_channel_listen: "CHR '' '' \<notin> set p \<Longrightarrow> tcp_channel (listen_config p) = Inr (Listen (in_port p))"
  using split_pair(1) [of "''listenPort''" p Map.empty] by (simp add: tcp_channel_def listen_config_def value_of_def)

text \<open>The port may be empty; then \<^verbatim>\<open>atoi\<close> makes it 0 when the channel is used.\<close>

lemma tcp_channel_connect:
  assumes "CHR '' '' \<notin> set h" and "CHR '' '' \<notin> set p"
  shows "tcp_channel (connect_config h p) = Inr (Connect h p)"
  using split_pair(2) [of "''server''" h "''serverPort='' @ p" Map.empty]
    split_pair(1) [of "''serverPort''" p "[''server'' \<mapsto> h]"] assms
  by (simp add: tcp_channel_def connect_config_def value_of_def)


subsection \<open>Connecting and waiting\<close>

text \<open>
  The network as a process sees it: which hosts have a name, whether a connection attempt succeeds, whether a pause is
  slept to its end, and the sockets opened so far.
\<close>

record netc =
  nc_host :: "string \<Rightarrow> bool"
  nc_accept :: "string \<Rightarrow> 16 word \<Rightarrow> nat \<Rightarrow> bool"
  nc_slept :: "nat \<Rightarrow> bool"
  nc_tries :: nat
  nc_open :: "nat list"
  nc_next :: nat

text \<open>\<^verbatim>\<open>initClient\<close> does not close the socket of an attempt that fails.\<close>

definition initClient :: "string \<Rightarrow> string \<Rightarrow> netc \<Rightarrow> (nat option \<times> netc) res" where
  "initClient host p n =
     c_assert (nc_host n host)
       (let fd = nc_next n
        in Inr (if nc_accept n host (in_port p) (nc_tries n) then Some fd else None,
             n\<lparr>nc_tries := Suc (nc_tries n), nc_open := nc_open n @ [fd], nc_next := Suc fd\<rparr>))"

primrec connect_loop :: "string \<Rightarrow> string \<Rightarrow> nat \<Rightarrow> netc \<Rightarrow> (nat option \<times> netc) res" where
  "connect_loop host p 0 n = initClient host p n"
| "connect_loop host p (Suc left) n =
     rbind (initClient host p n) (\<lambda>(fd, n').
     if fd = None \<and> nc_slept n' (nc_tries n') then connect_loop host p left n' else Inr (fd, n'))"

definition xx :: "string \<Rightarrow> string \<Rightarrow> netc \<Rightarrow> (nat option \<times> netc) res" where
  "xx host p n = connect_loop host p 60 n"

text \<open>
  What \<^verbatim>\<open>sendEvent\<close> and \<^verbatim>\<open>getEvent\<close> do before they use the descriptor, and what comes of using the descriptor \<open>-1\<close>:
  the transfer fails and so does the assertion about its length.
\<close>

definition ensure_fd :: "endpoint \<Rightarrow> int \<Rightarrow> netc \<Rightarrow> (int \<times> netc) res" where
  "ensure_fd e fd n =
     (if fd \<noteq> -1 then Inr (fd, n)
      else case e of
        Listen p \<Rightarrow> Inr (fd, n)
      | Connect host p \<Rightarrow>
          rbind (xx host p n) (\<lambda>(got, n').
          c_assert (got \<noteq> None) (Inr (case got of None \<Rightarrow> -1 | Some f \<Rightarrow> int f, n'))))"

lemma connect_loop_refused:
  assumes "nc_host n host" and "\<And>k. \<not> nc_accept n host (in_port p) k" and "\<And>k. nc_slept n k"
  shows "connect_loop host p left n =
    Inr (None, n\<lparr>nc_tries := nc_tries n + Suc left, nc_open := nc_open n @ [nc_next n..<nc_next n + Suc left],
              nc_next := nc_next n + Suc left\<rparr>)"
  using assms
proof (induction left arbitrary: n)
  case 0
  then show ?case by (simp add: initClient_def Let_def)
next
  case (Suc left)
  let ?n = "n\<lparr>nc_tries := Suc (nc_tries n), nc_open := nc_open n @ [nc_next n], nc_next := Suc (nc_next n)\<rparr>"
  have "connect_loop host p (Suc left) n = connect_loop host p left ?n"
    using Suc.prems by (simp add: initClient_def Let_def)
  also have "\<dots> = Inr (None, ?n\<lparr>nc_tries := nc_tries ?n + Suc left,
      nc_open := nc_open ?n @ [nc_next ?n..<nc_next ?n + Suc left], nc_next := nc_next ?n + Suc left\<rparr>)"
    using Suc.prems by (intro Suc.IH) simp_all
  finally show ?case by (simp add: upt_conv_Cons)
qed

text \<open>
  A peer that refuses is tried 61 times, each time with a socket of its own that stays open, and then the process stops.
\<close>

lemma refused_peer:
  assumes "nc_host n host" and "\<And>k. \<not> nc_accept n host (in_port p) k" and "\<And>k. nc_slept n k"
  shows "(\<exists>n'. xx host p n = Inr (None, n') \<and> nc_tries n' = nc_tries n + 61 \<and>
      length (nc_open n') = length (nc_open n) + 61) \<and>
    ensure_fd (Connect host p) (-1) n = Inl AssertFailed"
  by (simp add: ensure_fd_def xx_def connect_loop_refused [OF assms])

text \<open>
  \<^verbatim>\<open>TcpChannelSelect::wait\<close>: of the connected channels that have something to read, the one with the lowest
  descriptor is taken.  Channels not connected yet are not waited for, and without a connected channel the call
  never returns.
\<close>

definition tcp_wait :: "(nat \<times> int) list \<Rightarrow> (int \<Rightarrow> bool) \<Rightarrow> nat res" where
  "tcp_wait chans ready =
     (let live = filter (\<lambda>(ch, fd). -1 < fd) chans
      in case filter ready (sort (map snd live)) of
        [] \<Rightarrow> Inl Diverges
      | fd # _ \<Rightarrow> (case map_of (rev (map (\<lambda>(ch, fd). (fd, ch)) live)) fd of None \<Rightarrow> Inl MemoryFault | Some ch \<Rightarrow> Inr ch))"

text \<open>A channel is served only when none with a lower descriptor has something to read, however long it waits.\<close>

lemma tcp_wait_lowest:
  assumes "distinct (map snd chans)" and "(ch, fd) \<in> set chans" and "tcp_wait chans ready = Inr ch"
    and "distinct (map fst chans)" and "(ch', fd') \<in> set chans" and "-1 < fd'" and "fd' < fd"
  shows "ready fd \<and> \<not> ready fd'"
proof -
  let ?live = "filter (\<lambda>(ch, fd). -1 < fd) chans"
  obtain f fs where f: "filter ready (sort (map snd ?live)) = f # fs"
    and m: "map_of (rev (map (\<lambda>(ch, fd). (fd, ch)) ?live)) f = Some ch"
    using assms(3) by (auto simp: tcp_wait_def Let_def split: list.splits option.splits)
  have "(ch, f) \<in> set chans" using map_of_SomeD [OF m] by auto
  then have [simp]: "f = fd" using assms(2,4) by (auto dest: eq_key_imp_eq_value)
  have "\<forall>x\<in>set (filter ready (sort (map snd ?live))). fd \<le> x"
    using sorted_wrt_filter [OF sorted_sort, of ready "map snd ?live"] f by auto
  moreover have "fd' \<in> set (map snd ?live)" using assms(5,6) by force
  ultimately have "\<not> ready fd'" using assms(7) by (auto simp del: set_map)
  moreover have "ready fd" using f by (metis \<open>f = fd\<close> filter_eq_ConsD)
  ultimately show ?thesis by simp
qed

end
