(* ===== verification/Daemon_Config.thy ===== *)
theory Daemon_Config
  imports Pwr_Router Tcp_Channel
begin

text \<open>
  How a router of the daemon is put together: its options, the route table, the two cores, and the loop that
  takes one event after the other from the channels and gives it to the router (\<^verbatim>\<open>tools/pwrdaemon/router\<close>).
\<close>

subsection \<open>The options of a router\<close>

record link =
  lk_listen :: string
  lk_host :: string
  lk_port :: string
  lk_start :: string
  lk_stop :: string

definition no_link :: link where
  "no_link = \<lparr>lk_listen = [], lk_host = [], lk_port = [], lk_start = [], lk_stop = []\<rparr>"

record dim =
  dm_posPort :: string
  dm_negSrvr :: string
  dm_negPort :: string

definition no_dim :: dim where
  "no_dim = \<lparr>dm_posPort = [], dm_negSrvr = [], dm_negPort = []\<rparr>"

datatype core_args = TreeArgs "link list" | TorusArgs "dim list"

record rtr_args =
  ra_rtrId :: "32 word"
  ra_table :: string
  ra_serverPort :: string
  ra_clientPort :: string
  ra_core :: "core_args option"

definition c_unsigned :: "string \<Rightarrow> 32 word" where
  "c_unsigned s = word_of_int (atoi s)"

text \<open>
  \<^verbatim>\<open>link:listenPort:host:port:start:stop\<close>.  The vector is cut or extended so that the link is its last one.  The last
  field is taken with the length of the field before it plus one.
\<close>

definition initTreeInfo :: "link list \<Rightarrow> string \<Rightarrow> link list res" where
  "initTreeInfo links info =
     (let p0 = find_first_of CHR '':'' info; k = c_unsigned (sub_to p0 info);
          ls = resize (unat (k + 1)) no_link links;
          info1 = sub_from p0 info; p1 = find_first_of CHR '':'' info1;
          info2 = sub_from p1 info1; p2 = find_first_of CHR '':'' info2;
          info3 = sub_from p2 info2; p3 = find_first_of CHR '':'' info3;
          info4 = sub_from p3 info3; p4 = find_first_of CHR '':'' info4;
          info5 = sub_from p4 info4
      in rbind (arr_get ls (unat k)) (\<lambda>l.
         let l1 = l\<lparr>lk_listen := sub_to p1 info1, lk_host := sub_to p2 info2\<rparr>
         in arr_set ls (unat k)
              (if 0 < k then l1\<lparr>lk_port := sub_to p3 info3, lk_start := sub_to p4 info4, lk_stop := sub_count p4 info5\<rparr>
               else l1\<lparr>lk_port := sub_count p2 info3\<rparr>)))"

definition initTorusInfo :: "dim list \<Rightarrow> string \<Rightarrow> dim list" where
  "initTorusInfo dims info =
     (let p0 = find_first_of CHR '':'' info; k = unat (c_unsigned (sub_to p0 info));
          ds = resize (unat (c_unsigned (sub_to p0 info) + 1)) no_dim dims;
          info1 = sub_from p0 info; p1 = find_first_of CHR '':'' info1;
          info2 = sub_from p1 info1; p2 = find_first_of CHR '':'' info2;
          info3 = sub_from p2 info2
      in if k < length ds
         then ds[k := \<lparr>dm_posPort = sub_to p1 info1, dm_negSrvr = sub_to p2 info2, dm_negPort = sub_count p2 info3\<rparr>]
         else ds)"

datatype rtr_opt = CLNT_PORT | SRVR_PORT | RTR_TYPE | RTR_INFO | RTR_ID | RTR_TABLE | Unknown_Opt

definition set_type :: "string \<Rightarrow> rtr_args \<Rightarrow> rtr_args res" where
  "set_type s a =
     c_assert (ra_core a = None)
       (if s = ''torus'' then Inr (a\<lparr>ra_core := Some (TorusArgs [])\<rparr>)
        else if s = ''tree'' then Inr (a\<lparr>ra_core := Some (TreeArgs [])\<rparr>)
        else Inl AssertFailed)"

definition set_info :: "string \<Rightarrow> rtr_args \<Rightarrow> rtr_args res" where
  "set_info s a =
     (case ra_core a of
        None \<Rightarrow> Inl AssertFailed
      | Some (TorusArgs ds) \<Rightarrow> Inr (a\<lparr>ra_core := Some (TorusArgs (initTorusInfo ds s))\<rparr>)
      | Some (TreeArgs ls) \<Rightarrow> rbind (initTreeInfo ls s) (\<lambda>ls'. Inr (a\<lparr>ra_core := Some (TreeArgs ls')\<rparr>)))"

fun set_option :: "rtr_opt \<times> string \<Rightarrow> rtr_args \<Rightarrow> rtr_args res" where
  "set_option (CLNT_PORT, s) a = Inr (a\<lparr>ra_clientPort := s\<rparr>)"
| "set_option (SRVR_PORT, s) a = Inr (a\<lparr>ra_serverPort := s\<rparr>)"
| "set_option (RTR_ID, s) a = Inr (a\<lparr>ra_rtrId := c_unsigned s\<rparr>)"
| "set_option (RTR_TABLE, s) a = Inr (a\<lparr>ra_table := s\<rparr>)"
| "set_option (RTR_TYPE, s) a = set_type s a"
| "set_option (RTR_INFO, s) a = set_info s a"
| "set_option (Unknown_Opt, s) a = Inl ExitFatal"

fun set_options :: "(rtr_opt \<times> string) list \<Rightarrow> rtr_args \<Rightarrow> rtr_args res" where
  "set_options [] a = Inr a"
| "set_options (x # xs) a = rbind (set_option x a) (set_options xs)"

definition rtr_initArgs :: "(rtr_opt \<times> string) list \<Rightarrow> rtr_args res" where
  "rtr_initArgs opts =
     rbind (set_options opts \<lparr>ra_rtrId = -1, ra_table = [], ra_serverPort = [], ra_clientPort = [], ra_core = None\<rparr>) (\<lambda>a.
     if ra_rtrId a = -1 \<or> ra_table a = [] then Inl ExitFatal else Inr a)"

text \<open>What an option is read as.\<close>

definition tree_info :: "nat \<Rightarrow> string \<Rightarrow> string \<Rightarrow> string \<Rightarrow> string \<Rightarrow> string \<Rightarrow> string" where
  "tree_info k listen host p start stop =
     show_nat k @ '':'' @ listen @ '':'' @ host @ '':'' @ p @ (if 0 < k then '':'' @ start @ '':'' @ stop else '''')"

lemma c_unsigned_show_nat: "n < 2 ^ 31 \<Longrightarrow> c_unsigned (show_nat n) = of_nat n"
  using atoi_show_int [of "int n"] by (simp add: c_unsigned_def show_int_def int32_def)

lemma unat_c_unsigned: "n < 2 ^ 31 \<Longrightarrow> unat (c_unsigned (show_nat n)) = n \<and>
    unat (c_unsigned (show_nat n) + 1) = Suc n"
proof -
  assume n: "n < 2 ^ 31"
  have w: "unat (of_nat m :: 32 word) = m" if "m < 2 ^ 32" for m using that by (simp add: unat_of_nat take_bit_eq_mod)
  have "unat (of_nat n :: 32 word) = n" "unat (of_nat (Suc n) :: 32 word) = Suc n" using n by (auto intro!: w simp del: of_nat_Suc)
  then show ?thesis unfolding c_unsigned_show_nat [OF n] by (simp add: add.commute)
qed

lemma resize_nth: "length (resize (Suc k) x xs) = Suc k" "resize (Suc k) x xs ! k = (if k < length xs then xs ! k else x)"
  by (auto simp: resize_def nth_append)

lemma initTreeInfo_fields:
  assumes "k < 2 ^ 31" and "plain_field listen" and "plain_field host" and "plain_field p" and "plain_field start"
    and "plain_field stop"
  shows "initTreeInfo ls (tree_info k listen host p start stop) =
    Inr ((resize (Suc k) no_link ls)[k := (resize (Suc k) no_link ls ! k)
      \<lparr>lk_listen := listen, lk_host := host,
       lk_port := (if 0 < k then p else take (Suc (length host)) p),
       lk_start := (if 0 < k then start else lk_start (resize (Suc k) no_link ls ! k)),
       lk_stop := (if 0 < k then take (Suc (length start)) stop else lk_stop (resize (Suc k) no_link ls ! k))\<rparr>])"
proof -
  note u = unat_c_unsigned [OF assms(1)]
  have z: "(0 < c_unsigned (show_nat k)) = (0 < k)" using u by (auto simp: word_less_nat_alt)
  show ?thesis
    using assms u unfolding initTreeInfo_def tree_info_def Let_def
    by (auto simp: z arr_get_def arr_set_def resize_nth)
qed

subsection \<open>The route table\<close>

text \<open>Lines are read until the end of the file is met while reading one: what follows the last newline is not used.\<close>

fun complete_lines :: "string \<Rightarrow> string \<Rightarrow> string list" where
  "complete_lines acc [] = []"
| "complete_lines acc (c # cs) =
     (if c = CHR 0x0A then rev acc # complete_lines [] cs else complete_lines (c # acc) cs)"

text \<open>\<^verbatim>\<open>object:router:server\<close>.  The length given for the router's number is a position, less one.\<close>

definition route_entry :: "string \<Rightarrow> string \<times> 64 word" where
  "route_entry line =
     (let p1 = find_first_of CHR '':'' line; p2 = find_last_of CHR '':'' line;
          rtr = (case p2 of Some (Suc i) \<Rightarrow> take i (sub_from p1 line) | _ \<Rightarrow> sub_from p1 line);
          srvr = sub_from p2 line
      in (sub_to p1 line, APP_ID (c_unsigned rtr) (c_unsigned srvr)))"

definition initRouteTable :: "string option \<Rightarrow> (string \<rightharpoonup> 64 word) res" where
  "initRouteTable f =
     (case f of
        None \<Rightarrow> Inl AssertFailed
      | Some t \<Rightarrow> Inr (map_of (rev (map route_entry (complete_lines [] t)))))"

definition route_line :: "string \<times> nat \<times> nat \<Rightarrow> string" where
  "route_line = (\<lambda>(name, r, s). name @ '':'' @ show_nat r @ '':'' @ show_nat s)"

definition lines_of :: "string list \<Rightarrow> string" where
  "lines_of ls = concat (map (\<lambda>l. l @ [CHR 0x0A]) ls)"

lemma complete_lines_line:
  "CHR 0x0A \<notin> set l \<Longrightarrow> complete_lines acc (l @ CHR 0x0A # rest) = (rev acc @ l) # complete_lines [] rest"
  by (induction l arbitrary: acc) auto

lemma complete_lines_partial: "CHR 0x0A \<notin> set l \<Longrightarrow> complete_lines acc l = []"
  by (induction l arbitrary: acc) auto

lemma complete_lines_lines_of:
  "\<forall>l\<in>set ls. CHR 0x0A \<notin> set l \<Longrightarrow> CHR 0x0A \<notin> set l' \<Longrightarrow> complete_lines [] (lines_of ls @ l') = ls"
  by (induction ls) (simp_all add: lines_of_def complete_lines_partial complete_lines_line)

lemma no_digit_colon [simp]: "\<not> is_digit CHR '':''" "\<not> is_digit CHR 0x0A" "\<not> is_digit CHR '' ''"
  by (simp_all add: is_digit_def char_code_def)

lemma show_nat_plain [simp]: "CHR '':'' \<notin> set (show_nat n)" "CHR 0x0A \<notin> set (show_nat n)"
  using show_nat_digits [of n] no_digit_colon by blast+

lemma c_unsigned_show_nat_rest:
  assumes "n < 2 ^ 31"
  shows "c_unsigned (show_nat n @ CHR '':'' # rest) = of_nat n"
  using scan_int_show_int [of "CHR '':'' # rest" "int n"] assms c_unsigned_show_nat [OF assms]
    scan_int_show_int [of "[]" "int n"]
  by (simp add: c_unsigned_def atoi_def show_int_def)

lemma route_entry_line:
  assumes "CHR '':'' \<notin> set name" and "r < 2 ^ 31" and "s < 2 ^ 31"
  shows "route_entry (route_line (name, r, s)) = (name, APP_ID (of_nat r) (of_nat s))"
proof -
  have l: "find_last_of CHR '':'' (name @ CHR '':'' # show_nat r @ CHR '':'' # show_nat s) =
      Some (Suc (length name + length (show_nat r)))"
    using find_last_of_append [of "CHR '':''" "show_nat s" "name @ CHR '':'' # show_nat r"] by simp
  have t: "take (length name + length (show_nat r)) (show_nat r @ CHR '':'' # show_nat s) =
      show_nat r @ take (length name) (CHR '':'' # show_nat s)" by simp
  have "c_unsigned (show_nat r @ take (length name) (CHR '':'' # show_nat s)) = of_nat r"
    using c_unsigned_show_nat [OF assms(2)] c_unsigned_show_nat_rest [OF assms(2)] by (cases name) simp_all
  moreover have "sub_from (find_last_of CHR '':'' (name @ CHR '':'' # show_nat r @ CHR '':'' # show_nat s))
      (name @ CHR '':'' # show_nat r @ CHR '':'' # show_nat s) = show_nat s"
    by (simp add: l sub_from_def)
  ultimately show ?thesis
    using assms c_unsigned_show_nat [OF assms(3)] by (simp add: route_entry_def route_line_def Let_def l t)
qed

text \<open>
  C22.  A route table written one line per object is read back; an object named again has the place of its last line, and
  a last line without a newline is lost.
\<close>

theorem route_table_roundtrip:
  assumes "\<forall>(name, r, s)\<in>set es. CHR '':'' \<notin> set name \<and> CHR 0x0A \<notin> set name \<and> r < 2 ^ 31 \<and> s < 2 ^ 31"
    and "CHR 0x0A \<notin> set partial"
  shows "initRouteTable (Some (lines_of (map route_line es) @ partial)) =
    Inr (map_of (rev (map (\<lambda>(name, r, s). (name, APP_ID (of_nat r) (of_nat s))) es)))"
proof -
  have n: "\<forall>l\<in>set (map route_line es). CHR 0x0A \<notin> set l" using assms(1) by (auto simp: route_line_def)
  have "map (route_entry \<circ> route_line) es = map (\<lambda>(name, r, s). (name, APP_ID (of_nat r) (of_nat s))) es"
    using assms(1) by (auto simp: route_entry_line)
  then show ?thesis
    by (simp only: initRouteTable_def option.case complete_lines_lines_of [OF n assms(2)] map_map)
qed

theorem route_table_roundtrip_witness:
  "initRouteTable (Some (lines_of (map route_line [(''plat.node0'', 0, 0), (''plat.node1'', 0, 1), (''plat'', 0, 2)]) @ ''plat:1:1'')) =
    Inr (map_of [(''plat'', APP_ID 0 2), (''plat.node1'', APP_ID 0 1), (''plat.node0'', APP_ID 0 0)])"
  using route_table_roundtrip [of "[(''plat.node0'', 0, 0), (''plat.node1'', 0, 1), (''plat'', 0, 2)]" "''plat:1:1''"]
  by simp

subsection \<open>The channels of a router\<close>

text \<open>
  What the selector has for each channel: a listening one whose connections become channels of clients, servers or
  other routers, one of these, or a link to another router.
\<close>

datatype side = ClientSide | ServerSide | RouterSide

datatype sel_data = AcceptData side | EventData side | RouterData

record cset =
  cs_sel :: "nat \<rightharpoonup> sel_data"
  cs_ends :: "nat \<rightharpoonup> endpoint"
  cs_next :: nat

definition open_channel :: "string \<Rightarrow> sel_data \<Rightarrow> cset \<Rightarrow> (nat \<times> cset) res" where
  "open_channel config d cs =
     rbind (tcp_channel config) (\<lambda>e.
     c_assert (cs_sel cs (cs_next cs) = None)
       (Inr (cs_next cs, \<lparr>cs_sel = (cs_sel cs)(cs_next cs \<mapsto> d), cs_ends = (cs_ends cs)(cs_next cs \<mapsto> e),
                          cs_next = Suc (cs_next cs)\<rparr>)))"

definition listen_on :: "string \<Rightarrow> side \<Rightarrow> cset \<Rightarrow> cset res" where
  "listen_on p s cs =
     (if p = [] then Inr cs else rbind (open_channel (listen_config p) (AcceptData s) cs) (\<lambda>(_, cs'). Inr cs'))"

fun treeCore :: "nat \<Rightarrow> link list \<Rightarrow> cset \<Rightarrow> ((32 word \<times> 32 word \<times> nat option) list \<times> cset) res" where
  "treeCore i [] cs = Inr ([], cs)"
| "treeCore i (l # ls) cs =
     (if lk_listen l = [] then
        rbind (treeCore (Suc i) ls cs) (\<lambda>(ts, cs'). Inr ((0, 0, None) # ts, cs'))
      else
        rbind (open_channel (connect_config (lk_host l) (lk_port l)) RouterData cs) (\<lambda>(ch, cs1).
        rbind (open_channel (listen_config (lk_listen l)) (AcceptData RouterSide) cs1) (\<lambda>(_, cs2).
        rbind (treeCore (Suc i) ls cs2) (\<lambda>(ts, cs3).
        Inr ((if 0 < i then (c_unsigned (lk_start l), c_unsigned (lk_stop l), Some ch) else (0, 0, Some ch)) # ts, cs3)))))"

fun torusCore :: "dim list \<Rightarrow> cset \<Rightarrow> (nat option list list \<times> cset) res" where
  "torusCore [] cs = Inr ([], cs)"
| "torusCore (d # ds) cs =
     rbind (open_channel (connect_config (dm_negSrvr d) (dm_negPort d)) RouterData cs) (\<lambda>(ch, cs1).
     rbind (open_channel (listen_config (dm_posPort d)) (AcceptData RouterSide) cs1) (\<lambda>(_, cs2).
     rbind (torusCore ds cs2) (\<lambda>(ls, cs3). Inr ([Some ch] # ls, cs3))))"

definition routerCore :: "core_args option \<Rightarrow> cset \<Rightarrow> ((32 word \<Rightarrow> nat option res) \<times> cset) res" where
  "routerCore c cs =
     (case c of
        None \<Rightarrow> Inl MemoryFault
      | Some (TreeArgs ls) \<Rightarrow> rbind (treeCore 0 ls cs) (\<lambda>(ts, cs'). Inr (Inr \<circ> treeCore_getChannel ts, cs'))
      | Some (TorusArgs ds) \<Rightarrow> rbind (torusCore ds cs) (\<lambda>(ls, cs'). Inr (torusCore_getChannel ls, cs')))"

text \<open>The router with the selector's map; every channel that exists is registered there.\<close>

record router_loop =
  lp_rt :: router
  lp_sel :: "nat \<rightharpoonup> sel_data"
  lp_ends :: "nat \<rightharpoonup> endpoint"

definition Router :: "(string \<Rightarrow> string option) \<Rightarrow> (rtr_opt \<times> string) list \<Rightarrow> router_loop res" where
  "Router fs opts =
     rbind (rtr_initArgs opts) (\<lambda>a.
     rbind (listen_on (ra_clientPort a) ClientSide \<lparr>cs_sel = Map.empty, cs_ends = Map.empty, cs_next = 0\<rparr>) (\<lambda>cs1.
     rbind (listen_on (ra_serverPort a) ServerSide cs1) (\<lambda>cs2.
     rbind (routerCore (ra_core a) cs2) (\<lambda>(core, cs3).
     rbind (initRouteTable (fs (ra_table a))) (\<lambda>tab.
     Inr \<lparr>lp_rt = new_router (ra_rtrId a) tab core (set [0..<cs_next cs3]), lp_sel = cs_sel cs3, lp_ends = cs_ends cs3\<rparr>)))))"

text \<open>What the options of a tree are read as, and where a number of a router leads.\<close>

definition tree_opts :: "link list \<Rightarrow> (rtr_opt \<times> string) list" where
  "tree_opts ls = map (\<lambda>(k, l). (RTR_INFO, tree_info k (lk_listen l) (lk_host l) (lk_port l) (lk_start l) (lk_stop l))) (enumerate 0 ls)"

definition plain_link :: "link \<Rightarrow> bool" where
  "plain_link l \<longleftrightarrow> plain_field (lk_listen l) \<and> plain_field (lk_host l) \<and> plain_field (lk_port l) \<and>
     plain_field (lk_start l) \<and> plain_field (lk_stop l) \<and> lk_listen l \<noteq> []"

definition link_read :: "nat \<Rightarrow> link \<Rightarrow> link" where
  "link_read k l =
     (if 0 < k then l\<lparr>lk_stop := take (Suc (length (lk_start l))) (lk_stop l)\<rparr>
      else l\<lparr>lk_port := take (Suc (length (lk_host l))) (lk_port l), lk_start := [], lk_stop := []\<rparr>)"

definition links_read :: "link list \<Rightarrow> link list" where
  "links_read ls = map (\<lambda>(k, l). link_read k l) (enumerate 0 ls)"

definition link_below :: "32 word \<Rightarrow> link \<Rightarrow> bool" where
  "link_below r l \<longleftrightarrow> c_unsigned (lk_start l) \<le> r \<and> r \<le> c_unsigned (lk_stop l)"

definition tree_dest :: "link list \<Rightarrow> 32 word \<Rightarrow> link" where
  "tree_dest ls r = (case List.find (link_below r) (tl ls) of None \<Rightarrow> hd ls | Some l \<Rightarrow> l)"

lemma links_read_snoc: "links_read (ls @ [l]) = links_read ls @ [link_read (length ls) l]"
  by (simp add: links_read_def enumerate_append_eq)

lemma length_links_read [simp]: "length (links_read ls) = length ls"
  by (simp add: links_read_def)

lemma resize_Suc: "resize (Suc (length xs)) x xs = xs @ [x]"
  by (simp add: resize_def)

lemma set_options_append: "set_options (xs @ ys) a = rbind (set_options xs a) (set_options ys)"
proof (induction xs arbitrary: a)
  case (Cons x xs)
  then have "set_options (xs @ ys) = (\<lambda>a. rbind (set_options xs a) (set_options ys))" by blast
  then show ?case by (simp add: rbind_assoc)
qed simp

lemma no_link_update:
  "no_link\<lparr>lk_listen := lk_listen l, lk_host := lk_host l,
     lk_port := (if 0 < k then lk_port l else take (Suc (length (lk_host l))) (lk_port l)),
     lk_start := (if 0 < k then lk_start l else lk_start no_link),
     lk_stop := (if 0 < k then take (Suc (length (lk_start l))) (lk_stop l) else lk_stop no_link)\<rparr> = link_read k l"
  by (cases l) (simp add: link_read_def no_link_def)

lemma set_options_tree:
  assumes "\<forall>l\<in>set ls. plain_link l" and "length ls < 2 ^ 31" and "ra_core a = Some (TreeArgs [])"
  shows "set_options (tree_opts ls) a = Inr (a\<lparr>ra_core := Some (TreeArgs (links_read ls))\<rparr>)"
  using assms(1,2)
proof (induction ls rule: rev_induct)
  case Nil
  then show ?case using assms(3) by (simp add: tree_opts_def links_read_def)
next
  case (snoc l ls)
  let ?i = "tree_info (length ls) (lk_listen l) (lk_host l) (lk_port l) (lk_start l) (lk_stop l)"
  have o: "tree_opts (ls @ [l]) = tree_opts ls @ [(RTR_INFO, ?i)]"
    by (simp add: tree_opts_def enumerate_append_eq)
  have r: "resize (Suc (length ls)) no_link (links_read ls) = links_read ls @ [no_link]"
    using resize_Suc [of "links_read ls" no_link] by simp
  have n: "(links_read ls @ [no_link]) ! length ls = no_link" by (simp add: nth_append)
  have u: "(links_read ls @ [no_link])[length ls := x] = links_read ls @ [x]" for x by (simp add: list_update_append)
  have "length ls < 2 ^ 31" "plain_field (lk_listen l)" "plain_field (lk_host l)" "plain_field (lk_port l)"
    "plain_field (lk_start l)" "plain_field (lk_stop l)" using snoc.prems by (simp_all add: plain_link_def)
  then have "initTreeInfo (links_read ls) ?i = Inr (links_read (ls @ [l]))"
    by (simp only: initTreeInfo_fields r n u no_link_update links_read_snoc)
  then show ?case using snoc by (simp add: o set_options_append set_info_def)
qed

text \<open>
  The last field of a link below is cut to one digit more than its first number has.
\<close>

lemma take_show_nat:
  "0 < k \<Longrightarrow> k \<le> length (show_nat n) \<Longrightarrow> take k (show_nat n) = show_nat (n div 10 ^ (length (show_nat n) - k))"
proof (induction n arbitrary: k rule: show_nat.induct)
  case (1 n)
  show ?case
  proof (cases "n < 10 \<or> k = length (show_nat n)")
    case True
    moreover have "length (show_nat n) = 1" if "n < 10" using that by (subst show_nat.simps) simp
    ultimately have "k = length (show_nat n)" using "1.prems" by auto
    then show ?thesis by simp
  next
    case False
    then have s: "show_nat n = show_nat (n div 10) @ [digit_char (n mod 10)]" by (subst show_nat.simps) simp
    have k: "k \<le> length (show_nat (n div 10))" using "1.prems" False s by simp
    then have "take k (show_nat n) = show_nat (n div 10 div 10 ^ (length (show_nat (n div 10)) - k))"
      using "1.IH" False "1.prems" by (simp add: s)
    moreover have "length (show_nat n) - k = Suc (length (show_nat (n div 10)) - k)" using s k by simp
    ultimately show ?thesis by (simp add: div_mult2_eq)
  qed
qed

lemma tree_stop_read:
  assumes "0 < k" and "hi < 2 ^ 31"
  shows "c_unsigned (lk_stop (link_read k (l\<lparr>lk_start := show_nat lo, lk_stop := show_nat hi\<rparr>))) =
    of_nat (hi div 10 ^ (length (show_nat hi) - Suc (length (show_nat lo))))"
proof -
  have stop: "lk_stop (link_read k (l\<lparr>lk_start := show_nat lo, lk_stop := show_nat hi\<rparr>)) = take (Suc (length (show_nat lo))) (show_nat hi)"
    using assms(1) by (simp add: link_read_def)
  show ?thesis
  proof (cases "Suc (length (show_nat lo)) \<le> length (show_nat hi)")
    case True
    let ?m = "hi div 10 ^ (length (show_nat hi) - Suc (length (show_nat lo)))"
    have "?m < 2 ^ 31" using assms(2) div_le_dividend le_less_trans by blast
    then show ?thesis
      unfolding stop take_show_nat [OF zero_less_Suc True] by (rule c_unsigned_show_nat)
  next
    case False
    then show ?thesis using assms c_unsigned_show_nat [of hi] by (simp add: stop)
  qed
qed

lemma link_read_simps [simp]:
  "lk_listen (link_read k l) = lk_listen l" "lk_host (link_read k l) = lk_host l"
  by (simp_all add: link_read_def)

lemma link_read_port [simp]: "plain_link l \<Longrightarrow> CHR '' '' \<notin> set (lk_port (link_read k l))"
proof -
  assume "plain_link l"
  then have "CHR '' '' \<notin> set (lk_port l)" by (simp add: plain_link_def)
  then show ?thesis by (auto simp: link_read_def dest: in_set_takeD)
qed

definition fresh_chans :: "cset \<Rightarrow> bool" where
  "fresh_chans cs \<longleftrightarrow> (\<forall>k\<ge>cs_next cs. cs_sel cs k = None)"

lemma open_channel_ok:
  assumes "tcp_channel config = Inr e" and "fresh_chans cs"
  shows "open_channel config d cs = Inr (cs_next cs, \<lparr>cs_sel = (cs_sel cs)(cs_next cs \<mapsto> d),
      cs_ends = (cs_ends cs)(cs_next cs \<mapsto> e), cs_next = Suc (cs_next cs)\<rparr>)"
    and "fresh_chans \<lparr>cs_sel = (cs_sel cs)(cs_next cs \<mapsto> d), cs_ends = (cs_ends cs)(cs_next cs \<mapsto> e), cs_next = Suc (cs_next cs)\<rparr>"
  using assms by (auto simp: open_channel_def fresh_chans_def)

text \<open>Channels that exist stay as they are.\<close>

definition extends :: "cset \<Rightarrow> cset \<Rightarrow> bool" where
  "extends cs cs' \<longleftrightarrow> cs_next cs \<le> cs_next cs' \<and>
     (\<forall>k<cs_next cs. cs_ends cs' k = cs_ends cs k \<and> cs_sel cs' k = cs_sel cs k)"

lemma extends_trans: "extends a b \<Longrightarrow> extends b c \<Longrightarrow> extends a c"
  by (auto simp: extends_def)

lemma extends_open: "cs_next cs' = Suc (cs_next cs) \<Longrightarrow> cs_sel cs' = (cs_sel cs)(cs_next cs \<mapsto> d) \<Longrightarrow>
  cs_ends cs' = (cs_ends cs)(cs_next cs \<mapsto> e) \<Longrightarrow> extends cs cs'"
  by (auto simp: extends_def)

text \<open>A link as it is read, and the channel made for it.\<close>

definition links_to :: "cset \<Rightarrow> link \<Rightarrow> nat \<Rightarrow> bool" where
  "links_to cs l ch \<longleftrightarrow> ch < cs_next cs \<and> cs_ends cs ch = Some (Connect (lk_host l) (lk_port l)) \<and> cs_sel cs ch = Some RouterData"

lemma links_to_extends: "links_to cs l ch \<Longrightarrow> extends cs cs' \<Longrightarrow> links_to cs' l ch"
  by (auto simp: links_to_def extends_def)

definition usable_link :: "link \<Rightarrow> bool" where
  "usable_link l \<longleftrightarrow> lk_listen l \<noteq> [] \<and> CHR '' '' \<notin> set (lk_listen l) \<union> set (lk_host l) \<union> set (lk_port l)"

lemma usable_links_read: "\<forall>l\<in>set ls. plain_link l \<Longrightarrow> \<forall>l\<in>set (links_read ls). usable_link l"
  by (auto simp: links_read_def usable_link_def plain_link_def in_set_enumerate_eq)

lemma treeCore_link:
  assumes "usable_link l" and "fresh_chans cs"
  obtains cs2 where "fresh_chans cs2" and "extends cs cs2" and "links_to cs2 l (cs_next cs)"
    and "\<And>ls i. treeCore i (l # ls) cs = rbind (treeCore (Suc i) ls cs2) (\<lambda>(ts, cs3).
      Inr ((if 0 < i then (c_unsigned (lk_start l), c_unsigned (lk_stop l), Some (cs_next cs)) else (0, 0, Some (cs_next cs))) # ts, cs3))"
proof -
  let ?e = "Connect (lk_host l) (lk_port l)"
  let ?cs1 = "\<lparr>cs_sel = (cs_sel cs)(cs_next cs \<mapsto> RouterData), cs_ends = (cs_ends cs)(cs_next cs \<mapsto> ?e), cs_next = Suc (cs_next cs)\<rparr>"
  let ?cs2 = "\<lparr>cs_sel = (cs_sel ?cs1)(cs_next ?cs1 \<mapsto> AcceptData RouterSide),
    cs_ends = (cs_ends ?cs1)(cs_next ?cs1 \<mapsto> Listen (in_port (lk_listen l))), cs_next = Suc (cs_next ?cs1)\<rparr>"
  have t: "tcp_channel (connect_config (lk_host l) (lk_port l)) = Inr ?e"
    "tcp_channel (listen_config (lk_listen l)) = Inr (Listen (in_port (lk_listen l)))"
    using assms(1) by (simp_all add: usable_link_def tcp_channel_connect tcp_channel_listen)
  note o1 = open_channel_ok [OF t(1) assms(2), of RouterData]
  note o2 = open_channel_ok [OF t(2) o1(2), of "AcceptData RouterSide"]
  have "extends cs ?cs2" by (auto simp: extends_def)
  moreover have "links_to ?cs2 l (cs_next cs)" by (simp add: links_to_def)
  moreover have "lk_listen l \<noteq> []" using assms(1) by (simp add: usable_link_def)
  ultimately show ?thesis using that [of ?cs2] o1 o2 by simp
qed

lemma treeCore_down:
  assumes "\<forall>l\<in>set ls. usable_link l" and "fresh_chans cs" and "0 < i"
  shows "\<exists>ts cs'. treeCore i ls cs = Inr (ts, cs') \<and> fresh_chans cs' \<and> extends cs cs' \<and>
    list_all2 (\<lambda>l t. \<exists>ch. t = (c_unsigned (lk_start l), c_unsigned (lk_stop l), Some ch) \<and> links_to cs' l ch) ls ts"
  using assms
proof (induction ls arbitrary: i cs)
  case Nil
  then show ?case by (simp add: extends_def)
next
  case (Cons l ls)
  have u: "usable_link l" and us: "\<forall>l\<in>set ls. usable_link l" using Cons.prems(1) by simp_all
  obtain cs2 where c: "fresh_chans cs2" "extends cs cs2" "links_to cs2 l (cs_next cs)"
    "\<And>ls i. treeCore i (l # ls) cs = rbind (treeCore (Suc i) ls cs2) (\<lambda>(ts, cs3).
      Inr ((if 0 < i then (c_unsigned (lk_start l), c_unsigned (lk_stop l), Some (cs_next cs)) else (0, 0, Some (cs_next cs))) # ts, cs3))"
    using treeCore_link [OF u Cons.prems(2)] by blast
  obtain ts cs' where d: "treeCore (Suc i) ls cs2 = Inr (ts, cs')" "fresh_chans cs'" "extends cs2 cs'"
    "list_all2 (\<lambda>l t. \<exists>ch. t = (c_unsigned (lk_start l), c_unsigned (lk_stop l), Some ch) \<and> links_to cs' l ch) ls ts"
    using Cons.IH [OF us c(1), of "Suc i"] by auto
  show ?case
    using c d Cons.prems(3) extends_trans [OF c(2) d(3)] links_to_extends [OF c(3) d(3)] by auto
qed

lemma tree_pick_find:
  assumes "list_all2 (\<lambda>l t. \<exists>ch. t = (c_unsigned (lk_start l), c_unsigned (lk_stop l), Some ch) \<and> P l ch) ls ts"
  shows "(List.find (link_below r) ls = None \<and> tree_pick ts r = None) \<or>
    (\<exists>l ch. List.find (link_below r) ls = Some l \<and> tree_pick ts r = Some (Some ch) \<and> P l ch)"
  using assms by (induction rule: list_all2_induct) (auto simp: link_below_def)

lemma treeCore_routes:
  assumes "\<forall>l\<in>set ls. usable_link l" and "fresh_chans cs" and "ls \<noteq> []"
  shows "\<exists>ts cs'. treeCore 0 ls cs = Inr (ts, cs') \<and>
    (\<forall>r. \<exists>ch. treeCore_getChannel ts r = Some ch \<and> links_to cs' (tree_dest ls r) ch)"
proof -
  obtain l down where ls: "ls = l # down" using assms(3) by (cases ls) auto
  have u: "usable_link l" and us: "\<forall>l\<in>set down. usable_link l" using assms(1) ls by simp_all
  obtain cs2 where c: "fresh_chans cs2" "extends cs cs2" "links_to cs2 l (cs_next cs)"
    "\<And>ls i. treeCore i (l # ls) cs = rbind (treeCore (Suc i) ls cs2) (\<lambda>(ts, cs3).
      Inr ((if 0 < i then (c_unsigned (lk_start l), c_unsigned (lk_stop l), Some (cs_next cs)) else (0, 0, Some (cs_next cs))) # ts, cs3))"
    using treeCore_link [OF u assms(2)] by blast
  obtain ts cs' where d: "treeCore 1 down cs2 = Inr (ts, cs')" "extends cs2 cs'"
    "list_all2 (\<lambda>l t. \<exists>ch. t = (c_unsigned (lk_start l), c_unsigned (lk_stop l), Some ch) \<and> links_to cs' l ch) down ts"
    using treeCore_down [OF us c(1), of 1] by auto
  have "\<exists>ch. treeCore_getChannel ((0, 0, Some (cs_next cs)) # ts) r = Some ch \<and> links_to cs' (tree_dest ls r) ch" for r
    using tree_pick_find [OF d(3), of r] links_to_extends [OF c(3) d(2)]
    unfolding treeCore_getChannel_def tree_dest_def ls by (elim disjE exE conjE) simp_all
  then show ?thesis using c(4) [of 0 down] d(1) by (simp add: ls)
qed

text \<open>Channels are numbered from 0, and none of a client or server is open before the loop runs.\<close>

definition set_up :: "cset \<Rightarrow> bool" where
  "set_up cs \<longleftrightarrow> dom (cs_sel cs) = {..<cs_next cs} \<and> (\<forall>k s. cs_sel cs k \<noteq> Some (EventData s))"

lemma set_up_open: "open_channel config d cs = Inr (ch, cs') \<Longrightarrow> set_up cs \<Longrightarrow> \<forall>s. d \<noteq> EventData s \<Longrightarrow> set_up cs'"
proof -
  assume "open_channel config d cs = Inr (ch, cs')" and s: "set_up cs" and d: "\<forall>s. d \<noteq> EventData s"
  then obtain e where "cs' = \<lparr>cs_sel = (cs_sel cs)(cs_next cs \<mapsto> d), cs_ends = (cs_ends cs)(cs_next cs \<mapsto> e), cs_next = Suc (cs_next cs)\<rparr>"
    by (auto simp: open_channel_def res_simps)
  then show ?thesis using s d by (simp add: set_up_def lessThan_Suc)
qed

lemma set_up_listen: "listen_on p s cs = Inr cs' \<Longrightarrow> set_up cs \<Longrightarrow> set_up cs'"
  by (auto simp: listen_on_def res_simps split: if_splits dest: set_up_open)

lemma set_up_tree: "treeCore i ls cs = Inr (ts, cs') \<Longrightarrow> set_up cs \<Longrightarrow> set_up cs'"
  by (induction i ls cs arbitrary: ts rule: treeCore.induct)
     (auto simp: res_simps split: if_splits dest!: set_up_open)

lemma set_up_torus: "torusCore ds cs = Inr (ls, cs') \<Longrightarrow> set_up cs \<Longrightarrow> set_up cs'"
  by (induction ds cs arbitrary: ls rule: torusCore.induct) (auto simp: res_simps dest!: set_up_open)

lemma set_up_core: "routerCore c cs = Inr (core, cs') \<Longrightarrow> set_up cs \<Longrightarrow> set_up cs'"
  by (auto simp: routerCore_def res_simps split: option.splits core_args.splits dest: set_up_tree set_up_torus)

lemma set_up_empty: "set_up \<lparr>cs_sel = Map.empty, cs_ends = Map.empty, cs_next = 0\<rparr>"
  by (simp add: set_up_def)

lemma set_up_dom: "set_up cs \<Longrightarrow> set [0..<cs_next cs] = dom (cs_sel cs)"
  by (auto simp: set_up_def)



definition demo_links :: "link list" where
  "demo_links =
     [\<lparr>lk_listen = ''15010'', lk_host = ''rack'', lk_port = ''15000'', lk_start = [], lk_stop = []\<rparr>,
      \<lparr>lk_listen = ''15011'', lk_host = ''board'', lk_port = ''15020'', lk_start = ''1'', lk_stop = ''100''\<rparr>]"

lemma demo_links_plain: "\<forall>l\<in>set demo_links. plain_link l"
  by code_simp

lemma demo_links_read:
  "links_read demo_links =
     [\<lparr>lk_listen = ''15010'', lk_host = ''rack'', lk_port = ''15000'', lk_start = [], lk_stop = []\<rparr>,
      \<lparr>lk_listen = ''15011'', lk_host = ''board'', lk_port = ''15020'', lk_start = ''1'', lk_stop = ''10''\<rparr>]"
  by code_simp

lemma demo_tree_dest:
  "lk_host (tree_dest (links_read demo_links) 10) = ''board'' \<and> lk_host (tree_dest (links_read demo_links) 50) = ''rack'' \<and>
   lk_port (tree_dest (links_read demo_links) 10) = ''15020'' \<and> lk_port (tree_dest (links_read demo_links) 50) = ''15000''"
  unfolding demo_links_read by code_simp


subsection \<open>The loop of a router\<close>

definition chan_add :: "side \<Rightarrow> nat \<Rightarrow> router \<Rightarrow> router" where
  "chan_add s = (case s of ClientSide \<Rightarrow> addClientChan | ServerSide \<Rightarrow> addServerChan | RouterSide \<Rightarrow> addRouterChan)"

definition chan_del :: "side \<Rightarrow> nat \<Rightarrow> router \<Rightarrow> router res" where
  "chan_del s ch rt =
     (case s of ClientSide \<Rightarrow> client_closed ch rt | ServerSide \<Rightarrow> server_closed ch rt | RouterSide \<Rightarrow> Inr (delRouterChan ch rt))"

text \<open>An event is decoded by the function its channel was made with, which knows the events of its side only.\<close>

fun side_event :: "side \<Rightarrow> nat \<Rightarrow> msg \<Rightarrow> router \<Rightarrow> router res" where
  "side_event ClientSide ch (Plain p) rt = client_event ch p rt"
| "side_event ClientSide ch (Routed re p) rt = Inl AssertFailed"
| "side_event ServerSide ch m rt = server_event ch m rt"
| "side_event RouterSide ch m rt = router_event_in m rt"

text \<open>
  \<^verbatim>\<open>process\<close> of the selector's data for the channel \<open>ch\<close>: \<open>acc\<close> is what \<^verbatim>\<open>accept\<close> would give, a channel or an
  error, and \<open>ev\<close> what \<^verbatim>\<open>getEvent\<close> would, an event or the end of the connection.  A link to another router
  that ends is closed by a function which consists of a failing assertion.
\<close>

definition process_data :: "nat \<Rightarrow> sel_data \<Rightarrow> nat option \<Rightarrow> msg option \<Rightarrow> router_loop \<Rightarrow> (bool \<times> router_loop) res" where
  "process_data ch d acc ev lp =
     (case d of
        AcceptData s \<Rightarrow>
          (case acc of
             None \<Rightarrow> Inl AssertFailed
           | Some k \<Rightarrow> c_assert (lp_sel lp k = None)
               (Inr (False, lp\<lparr>lp_sel := (lp_sel lp)(k \<mapsto> EventData s), lp_rt := chan_add s k (lp_rt lp)\<rparr>)))
      | EventData s \<Rightarrow>
          (case ev of
             None \<Rightarrow> c_assert (lp_sel lp ch \<noteq> None)
               (rbind (chan_del s ch (lp_rt lp)) (\<lambda>rt'. Inr (True, lp\<lparr>lp_sel := (lp_sel lp)(ch := None), lp_rt := rt'\<rparr>)))
           | Some m \<Rightarrow> rbind (side_event s ch m (lp_rt lp)) (\<lambda>rt'. Inr (False, lp\<lparr>lp_rt := rt'\<rparr>)))
      | RouterData \<Rightarrow>
          (case ev of
             None \<Rightarrow> Inl AssertFailed
           | Some m \<Rightarrow> rbind (side_event RouterSide ch m (lp_rt lp)) (\<lambda>rt'. Inr (False, lp\<lparr>lp_rt := rt'\<rparr>))))"

text \<open>\<^verbatim>\<open>Router::work\<close> on the channels \<^verbatim>\<open>wait\<close> returns one after the other.\<close>

fun work :: "(nat \<times> nat option \<times> msg option) list \<Rightarrow> router_loop \<Rightarrow> router_loop res" where
  "work [] lp = Inr lp"
| "work ((ch, acc, ev) # xs) lp =
     (case lp_sel lp ch of
        None \<Rightarrow> work xs lp
      | Some d \<Rightarrow> rbind (process_data ch d acc ev lp) (\<lambda>(_, lp'). work xs lp'))"

text \<open>
  What the loop keeps: the channels that exist are those the selector knows, clients and servers are exactly the
  channels registered for them.
\<close>

definition loop_inv :: "router_loop \<Rightarrow> bool" where
  "loop_inv lp \<longleftrightarrow> rt_open (lp_rt lp) = dom (lp_sel lp) \<and>
     dom (rt_clients (lp_rt lp)) = {ch. lp_sel lp ch = Some (EventData ClientSide)} \<and>
     dom (rt_servers (lp_rt lp)) = {ch. lp_sel lp ch = Some (EventData ServerSide)}"

text \<open>Handling an event changes neither the channels nor what the router was started with.\<close>

definition same_chans :: "router \<Rightarrow> router \<Rightarrow> bool" where
  "same_chans rt rt' \<longleftrightarrow> rt_open rt' = rt_open rt \<and> dom (rt_clients rt') = dom (rt_clients rt) \<and>
     dom (rt_servers rt') = dom (rt_servers rt) \<and> rt_id rt' = rt_id rt \<and> rt_table rt' = rt_table rt \<and> rt_core rt' = rt_core rt"

lemma same_chans_refl [simp]: "same_chans rt rt"
  by (simp add: same_chans_def)

lemma same_chans_trans: "same_chans a b \<Longrightarrow> same_chans b c \<Longrightarrow> same_chans a c"
  by (simp add: same_chans_def)

lemma same_chans_updates [simp]:
  "same_chans rt (rt'\<lparr>rt_infos := i\<rparr>) = same_chans rt rt'" "same_chans rt (rt'\<lparr>rt_pending := q\<rparr>) = same_chans rt rt'"
  "same_chans rt (rt'\<lparr>rt_out := x\<rparr>) = same_chans rt rt'" "same_chans rt (rt'\<lparr>rt_next := n\<rparr>) = same_chans rt rt'"
  "same_chans rt (rt'\<lparr>rt_local := l\<rparr>) = same_chans rt rt'"
  by (simp_all add: same_chans_def)

lemma same_chans_send [intro]: "chan_send ch m rt = Inr rt' \<Longrightarrow> same_chans rt rt'"
  by (auto simp: chan_send_def split: if_splits)

lemma same_chans_payload: "process_payload p rt = Inr rt' \<Longrightarrow> same_chans rt rt'"
proof (cases p)
  case (PResp g r)
  assume step: "process_payload p rt = Inr rt'"
  then have c: "comm_resp g r rt = Inr rt'" using PResp by simp
  obtain i where i: "rt_infos rt (ev_id r) = Some i"
    using c by (cases "rt_infos rt (ev_id r)") (auto simp: comm_resp_def Let_def)
  show ?thesis using i c refl by (cases rule: comm_resp_cases) auto
qed (auto simp: pass_resp_def res_simps split: option.splits)

lemma same_chans_push [simp]: "same_chans rt (push_pending srv m rt)"
  by (simp add: push_pending_def)

lemma same_chans_send_app: "send_app dest m rt = Inr rt' \<Longrightarrow> same_chans rt rt'"
  by (induction dest m rt rule: send_app.induct)
     (auto simp: res_simps Let_def split: option.splits if_splits intro: same_chans_payload)

lemma same_chans_send_all: "send_all xs rt = Inr rt' \<Longrightarrow> same_chans rt rt'"
proof (induction xs rt rule: send_all.induct)
  case (2 name p xs rt)
  then obtain rt1 where "send_obj name p rt = Inr rt1" "send_all xs rt1 = Inr rt'" by (auto simp: res_simps)
  moreover from this have "same_chans rt rt1"
    by (auto simp: send_obj_def Let_def simp del: send_app.simps split: if_splits intro: same_chans_send_app)
  ultimately show ?case using "2.IH" same_chans_trans by blast
qed simp

lemma same_chans_clients: "rt_clients rt ch \<noteq> None \<Longrightarrow> same_chans (rt\<lparr>rt_clients := (rt_clients rt)(ch \<mapsto> cs)\<rparr>) rt' = same_chans rt rt'"
  by (auto simp: same_chans_def insert_absorb domIff)

lemma same_chans_add_info: "add_info i rt = (j, rt1) \<Longrightarrow> same_chans rt rt1"
  by (auto simp: add_info_def)

lemma same_chans_add_send:
  assumes "(let (j, rt1) = add_info i rt in send_all (f j) rt1) = Inr rt'"
  shows "same_chans rt rt'"
proof -
  obtain j rt1 where "add_info i rt = (j, rt1)" by fastforce
  then show ?thesis using assms same_chans_add_info same_chans_send_all same_chans_trans by (metis case_prod_conv)
qed

lemma same_chans_client_event: "client_event ch p rt = Inr rt' \<Longrightarrow> same_chans rt rt'"
proof (induction ch p rt rule: client_event.induct)
  case (1 ch c ms rt)
  then show ?case
    by (auto simp: client_create_def client_comms_def res_simps same_chans_clients split: option.splits
        dest!: same_chans_send_all)
next
  case (2 ch rq rt)
  then show ?case
    by (auto simp: client_req_def res_simps simp del: Let_def split_paired_All intro: same_chans_add_send)
qed (auto simp: client_single_def res_simps simp del: Let_def intro: same_chans_add_send)

lemma same_chans_send_pending: "send_pending ch ms rt = Inr rt' \<Longrightarrow> same_chans rt rt'"
proof (induction ms arbitrary: rt)
  case (Cons m ms)
  then obtain x rt1 where "chan_send ch x rt = Inr rt1" "send_pending ch ms rt1 = Inr rt'"
    by (auto simp: res_simps split: option.splits)
  then show ?case using Cons.IH same_chans_trans by blast
qed simp

lemma same_chans_doPending: "doPending srv rt = Inr rt' \<Longrightarrow> same_chans rt rt'"
  by (auto simp: doPending_def res_simps split: if_splits option.splits dest!: same_chans_send_pending)

lemma same_chans_addServer: "addServer name ch rt = Inr (srv, rt') \<Longrightarrow> same_chans rt rt'"
  by (auto simp: addServer_def Let_def res_simps same_chans_def dom_def split: option.splits if_splits)

lemma same_chans_server_event: "server_event ch m rt = Inr rt' \<Longrightarrow> same_chans rt rt'"
proof (induction ch m rt rule: server_event.induct)
  case (2 ch name rt)
  then obtain srv rt1 where "addServer name ch rt = Inr (srv, rt1)" "doPending srv rt1 = Inr rt'"
    by (auto simp: res_simps)
  then show ?case using same_chans_addServer same_chans_doPending same_chans_trans by blast
qed (auto simp del: send_app.simps process_payload.simps simp: same_chans_send_app same_chans_payload dest: sym)

lemma same_chans_router_event: "router_event_in m rt = Inr rt' \<Longrightarrow> same_chans rt rt'"
  by (cases m) (auto simp del: send_app.simps intro: same_chans_send_app)

lemma same_chans_side: "side_event s ch m rt = Inr rt' \<Longrightarrow> same_chans rt rt'"
  by (induction s ch m rt rule: side_event.induct)
     (simp_all add: same_chans_client_event same_chans_server_event same_chans_router_event)

lemma side_event_step: "side_event s ch m rt = Inr rt' \<Longrightarrow> router_step rt rt'"
  by (induction s ch m rt rule: side_event.induct) (auto intro: router_step.intros)

lemma loop_inv_side:
  assumes "loop_inv lp" and "side_event s ch m (lp_rt lp) = Inr rt'"
  shows "loop_inv (lp\<lparr>lp_rt := rt'\<rparr>)"
  using assms(1) same_chans_side [OF assms(2)] by (simp add: loop_inv_def same_chans_def)

lemma client_closed_shape:
  assumes "client_closed ch rt = Inr rt'"
  shows "rt_open rt' = rt_open rt - {ch} \<and> dom (rt_clients rt') = dom (rt_clients rt) - {ch} \<and>
    dom (rt_servers rt') = dom (rt_servers rt) \<and> rt_id rt' = rt_id rt \<and> rt_table rt' = rt_table rt \<and> rt_core rt' = rt_core rt"
proof -
  obtain xs rt1 where "send_all xs rt = Inr rt1"
    and r: "rt' = rt1\<lparr>rt_clients := (rt_clients rt1)(ch := None), rt_open := rt_open rt1 - {ch}\<rparr>"
    using assms by (auto simp: client_closed_def res_simps split: if_splits)
  then show ?thesis using same_chans_send_all [of xs rt rt1] by (simp add: same_chans_def)
qed

definition keeps_setup :: "router \<Rightarrow> router \<Rightarrow> bool" where
  "keeps_setup rt rt' \<longleftrightarrow> rt_id rt' = rt_id rt \<and> rt_table rt' = rt_table rt \<and> rt_core rt' = rt_core rt"

lemma chan_del_ok:
  assumes "loop_inv lp" and "lp_sel lp ch = Some (EventData s)" and "chan_del s ch (lp_rt lp) = Inr rt'"
  shows "loop_inv (lp\<lparr>lp_sel := (lp_sel lp)(ch := None), lp_rt := rt'\<rparr>) \<and> router_step (lp_rt lp) rt' \<and> keeps_setup (lp_rt lp) rt'"
proof (cases s)
  case ClientSide
  then have c: "client_closed ch (lp_rt lp) = Inr rt'" using assms(3) by (simp add: chan_del_def)
  then show ?thesis
    using assms(1,2) ClientSide client_closed_shape [OF c] step_client_closed [OF c]
    by (auto simp: loop_inv_def keeps_setup_def)
next
  case ServerSide
  then have c: "server_closed ch (lp_rt lp) = Inr rt'" using assms(3) by (simp add: chan_del_def)
  have "ch \<in> dom (rt_servers (lp_rt lp))" using assms(1,2) ServerSide unfolding loop_inv_def by simp
  then obtain nm where "rt_servers (lp_rt lp) ch = Some nm" by blast
  then have "rt' = (delServer nm (lp_rt lp))\<lparr>rt_servers := (rt_servers (lp_rt lp))(ch := None), rt_open := rt_open (lp_rt lp) - {ch}\<rparr>"
    using c by (simp add: server_closed_def)
  then show ?thesis
    using assms(1,2) ServerSide step_server_closed [OF c] by (auto simp: loop_inv_def keeps_setup_def delServer_def)
next
  case RouterSide
  then have "rt' = delRouterChan ch (lp_rt lp)" using assms(3) by (simp add: chan_del_def)
  moreover from this have "router_step (lp_rt lp) rt'" by (simp add: step_delRouter)
  ultimately show ?thesis
    using assms(1,2) RouterSide by (auto simp: loop_inv_def keeps_setup_def delRouterChan_def)
qed

lemma chan_add_ok:
  assumes "loop_inv lp" and "lp_sel lp k = None"
  shows "loop_inv (lp\<lparr>lp_sel := (lp_sel lp)(k \<mapsto> EventData s), lp_rt := chan_add s k (lp_rt lp)\<rparr>) \<and>
    router_step (lp_rt lp) (chan_add s k (lp_rt lp)) \<and> keeps_setup (lp_rt lp) (chan_add s k (lp_rt lp))"
proof -
  have "k \<notin> rt_open (lp_rt lp)" using assms by (auto simp: loop_inv_def)
  then have "router_step (lp_rt lp) (chan_add s k (lp_rt lp))"
    by (cases s) (auto simp: chan_add_def intro: router_step.intros)
  then show ?thesis
    using assms by (cases s) (auto simp: chan_add_def loop_inv_def keeps_setup_def addClientChan_def addServerChan_def addRouterChan_def)
qed

lemma process_data_ok:
  assumes inv: "loop_inv lp" and d: "lp_sel lp ch = Some d" and step: "process_data ch d acc ev lp = Inr (b, lp')"
  shows "loop_inv lp' \<and> router_step (lp_rt lp) (lp_rt lp') \<and> keeps_setup (lp_rt lp) (lp_rt lp')"
proof -
  have side: "loop_inv (lp\<lparr>lp_rt := rt'\<rparr>) \<and> router_step (lp_rt lp) rt' \<and> keeps_setup (lp_rt lp) rt'"
    if "side_event s ch m (lp_rt lp) = Inr rt'" for s m rt'
    using loop_inv_side [OF inv that] side_event_step [OF that] same_chans_side [OF that]
    by (simp add: keeps_setup_def same_chans_def)
  show ?thesis
  proof (cases d)
    case (AcceptData s)
    then show ?thesis using step chan_add_ok [OF inv]
      by (auto simp: process_data_def res_simps split: option.splits)
  next
    case (EventData s)
    then show ?thesis using step d chan_del_ok [OF inv] side [of s]
      by (auto simp: process_data_def res_simps simp del: side_event.simps split: option.splits)
  next
    case RouterData
    then show ?thesis using step side [of RouterSide]
      by (auto simp: process_data_def res_simps simp del: side_event.simps split: option.splits)
  qed
qed

lemma work_ok:
  assumes "loop_inv lp" and "work xs lp = Inr lp'"
  shows "loop_inv lp' \<and> router_step\<^sup>*\<^sup>* (lp_rt lp) (lp_rt lp') \<and> keeps_setup (lp_rt lp) (lp_rt lp')"
  using assms
proof (induction xs lp rule: work.induct)
  case (1 lp)
  then show ?case by (simp add: keeps_setup_def)
next
  case (2 ch acc ev xs lp)
  show ?case
  proof (cases "lp_sel lp ch")
    case None
    then show ?thesis using 2 by simp
  next
    case (Some d)
    then obtain b lp1 where s: "process_data ch d acc ev lp = Inr (b, lp1)" "work xs lp1 = Inr lp'"
      using "2.prems"(2) by (auto simp: res_simps)
    note ok = process_data_ok [OF "2.prems"(1) Some s(1)]
    moreover have "loop_inv lp' \<and> router_step\<^sup>*\<^sup>* (lp_rt lp1) (lp_rt lp') \<and> keeps_setup (lp_rt lp1) (lp_rt lp')"
      using "2.IH"(2) [OF Some] ok s(2) by blast
    ultimately show ?thesis by (auto simp: keeps_setup_def intro: converse_rtranclp_into_rtranclp)
  qed
qed

lemma Router_starts:
  assumes "Router fs opts = Inr lp"
  shows "loop_inv lp \<and> (\<exists>me tab core. lp_rt lp = new_router me tab core (dom (lp_sel lp)))"
proof -
  let ?cs0 = "\<lparr>cs_sel = Map.empty, cs_ends = Map.empty, cs_next = 0\<rparr>"
  obtain a where a: "rtr_initArgs opts = Inr a" using assms unfolding Router_def by (elim rbind_eq_InrE)
  obtain cs1 where c1: "listen_on (ra_clientPort a) ClientSide ?cs0 = Inr cs1"
    using assms unfolding Router_def a rbind_Inr by (elim rbind_eq_InrE)
  obtain cs2 where c2: "listen_on (ra_serverPort a) ServerSide cs1 = Inr cs2"
    using assms unfolding Router_def a c1 rbind_Inr by (elim rbind_eq_InrE)
  obtain core cs3 where c3: "routerCore (ra_core a) cs2 = Inr (core, cs3)"
    using assms unfolding Router_def a c1 c2 rbind_Inr by (elim rbind_eq_InrE) auto
  obtain tab where "initRouteTable (fs (ra_table a)) = Inr tab"
    using assms unfolding Router_def a c1 c2 c3 rbind_Inr prod.case by (elim rbind_eq_InrE)
  then have lp: "lp = \<lparr>lp_rt = new_router (ra_rtrId a) tab core (set [0..<cs_next cs3]), lp_sel = cs_sel cs3, lp_ends = cs_ends cs3\<rparr>"
    using assms unfolding Router_def a c1 c2 c3 rbind_Inr prod.case by simp
  have "set_up cs3" using set_up_core [OF c3 set_up_listen [OF c2 set_up_listen [OF c1 set_up_empty]]] .
  then show ?thesis using lp by (auto simp: loop_inv_def new_router_def set_up_dom set_up_def)
qed

text \<open>
  C4.  Whatever the channels deliver, the loop of a router that was started does only what the transitions of the
  router allow: every state it reaches is one the router can reach, and there it can send to exactly the channels it
  waits for, keeps a client for each channel of a client and a server for each channel of a server, and none else,
  and its number, its table and its links are those it was started with.
\<close>

theorem router_work_refines:
  assumes "Router fs opts = Inr lp0" and "work xs lp0 = Inr lp"
  shows "\<exists>me tab core. lp_rt lp0 = new_router me tab core (dom (lp_sel lp0)) \<and> router_step\<^sup>*\<^sup>* (lp_rt lp0) (lp_rt lp) \<and>
    rt_id (lp_rt lp) = me \<and> rt_table (lp_rt lp) = tab \<and> rt_core (lp_rt lp) = core \<and>
    rt_open (lp_rt lp) = dom (lp_sel lp) \<and>
    dom (rt_clients (lp_rt lp)) = {ch. lp_sel lp ch = Some (EventData ClientSide)} \<and>
    dom (rt_servers (lp_rt lp)) = {ch. lp_sel lp ch = Some (EventData ServerSide)}"
proof -
  obtain me tab core where r: "loop_inv lp0" "lp_rt lp0 = new_router me tab core (dom (lp_sel lp0))"
    using Router_starts [OF assms(1)] by blast
  then show ?thesis using work_ok [OF r(1) assms(2)] by (auto simp: loop_inv_def keeps_setup_def new_router_def)
qed

text \<open>A router with one link upwards: a client connects and names an object of server 2.\<close>

definition demo_router_opts :: "(rtr_opt \<times> string) list" where
  "demo_router_opts =
     [(CLNT_PORT, ''15001''), (RTR_ID, ''0''), (RTR_TABLE, ''routes''), (RTR_TYPE, ''tree''), (RTR_INFO, ''0:15010:rack:15000'')]"

definition demo_inputs :: "(nat \<times> nat option \<times> msg option) list" where
  "demo_inputs = [(0, Some 7, None), (7, None, Some (Plain (PCreate 3 [[''s2'']]))), (9, None, None)]"

definition demo_loop :: "router_loop res" where
  "demo_loop = Router (\<lambda>_. Some (''s2:0:2'' @ [CHR 0x0A])) demo_router_opts"

text \<open>The request waits for server 2; the link upwards ends and takes the router with it.\<close>

lemma demo_router_args:
  "rtr_initArgs demo_router_opts = Inr \<lparr>ra_rtrId = 0, ra_table = ''routes'', ra_serverPort = [], ra_clientPort = ''15001'',
     ra_core = Some (TreeArgs [\<lparr>lk_listen = ''15010'', lk_host = ''rack'', lk_port = ''15000'', lk_start = [], lk_stop = []\<rparr>])\<rparr>"
  by code_simp

lemma demo_route_table: "initRouteTable (Some (''s2:0:2'' @ [CHR 0x0A])) = Inr [''s2'' \<mapsto> APP_ID 0 2]"
proof -
  have "complete_lines [] (''s2:0:2'' @ [CHR 0x0A]) = [''s2:0:2'']" "route_entry ''s2:0:2'' = (''s2'', APP_ID 0 2)"
    by code_simp+
  then show ?thesis by (simp only: initRouteTable_def option.case) simp
qed

lemma demo_channels:
  "tcp_channel (listen_config ''15001'') = Inr (Listen (in_port ''15001''))"
  "tcp_channel (listen_config ''15010'') = Inr (Listen (in_port ''15010''))"
  "tcp_channel (connect_config ''rack'' ''15000'') = Inr (Connect ''rack'' ''15000'')"
  by (rule tcp_channel_listen tcp_channel_connect; simp)+

lemma demo_loop_eq:
  "demo_loop = Inr
     \<lparr>lp_rt = new_router 0 [''s2'' \<mapsto> APP_ID 0 2] (Inr \<circ> treeCore_getChannel [(0, 0, Some 1)]) {0..<3},
      lp_sel = [0 \<mapsto> AcceptData ClientSide, 1 \<mapsto> RouterData, 2 \<mapsto> AcceptData RouterSide],
      lp_ends = [0 \<mapsto> Listen (in_port ''15001''), 1 \<mapsto> Connect ''rack'' ''15000'', 2 \<mapsto> Listen (in_port ''15010'')]\<rparr>"
  by (simp add: demo_loop_def Router_def demo_router_args demo_route_table [simplified] listen_on_def routerCore_def
      open_channel_def demo_channels numeral_2_eq_2 numeral_3_eq_3)

definition demo_lp :: router_loop where
  "demo_lp = \<lparr>lp_rt = new_router 0 [''s2'' \<mapsto> APP_ID 0 2] (Inr \<circ> treeCore_getChannel [(0, 0, Some 1)]) {0..<3},
      lp_sel = [0 \<mapsto> AcceptData ClientSide, 1 \<mapsto> RouterData, 2 \<mapsto> AcceptData RouterSide],
      lp_ends = [0 \<mapsto> Listen (in_port ''15001''), 1 \<mapsto> Connect ''rack'' ''15000'', 2 \<mapsto> Listen (in_port ''15010'')]\<rparr>"

lemma demo_connects:
  "process_data 0 (AcceptData ClientSide) (Some 7) None demo_lp =
    Inr (False, demo_lp\<lparr>lp_sel := (lp_sel demo_lp)(7 \<mapsto> EventData ClientSide), lp_rt := addClientChan 7 (lp_rt demo_lp)\<rparr>)"
  by (simp add: process_data_def chan_add_def demo_lp_def)

lemma demo_creates:
  "client_create 7 3 [[''s2'']] (addClientChan 7 (lp_rt demo_lp)) =
    Inr (push_pending 2 (Some (Routed (APP_ID 0 (-1), APP_ID 0 2) (PCreate 3 [[''s2'']])))
      ((addClientChan 7 (lp_rt demo_lp))\<lparr>rt_clients := [7 \<mapsto> [(3, [[''s2'']])]]\<rparr>))"
  by (simp add: client_create_def client_comms_def addClientChan_def demo_lp_def new_router_def send_obj_def findRoute_def
     dest_chan_def findServerChan_def APP_ID_low push_pending_def Let_def)

definition demo_lp_end :: router_loop where
  "demo_lp_end = demo_lp\<lparr>lp_sel := (lp_sel demo_lp)(7 \<mapsto> EventData ClientSide),
     lp_rt := push_pending 2 (Some (Routed (APP_ID 0 (-1), APP_ID 0 2) (PCreate 3 [[''s2'']])))
       ((addClientChan 7 (lp_rt demo_lp))\<lparr>rt_clients := [7 \<mapsto> [(3, [[''s2'']])]]\<rparr>)\<rparr>"

lemma demo_work:
  "work (demo_inputs @ xs) demo_lp = work xs demo_lp_end"
  "work [(1, None, None)] demo_lp_end = Inl AssertFailed"
  "length (rt_pending (lp_rt demo_lp_end) 2) = 1" "rt_clients (lp_rt demo_lp_end) 7 = Some [(3, [[''s2'']])]"
proof -
  have "lp_sel demo_lp 0 = Some (AcceptData ClientSide)" by (simp add: demo_lp_def)
  moreover have "lp_sel demo_lp 9 = None" by (simp add: demo_lp_def)
  ultimately show "work (demo_inputs @ xs) demo_lp = work xs demo_lp_end"
    by (simp add: demo_inputs_def demo_connects) (simp add: process_data_def demo_creates demo_lp_end_def)
qed (simp_all add: demo_lp_end_def demo_lp_def process_data_def push_pending_def addClientChan_def new_router_def)

text \<open>The event for the object waits for server 2; then the link upwards ends, and the router stops.\<close>

theorem router_work_refines_witness:
  "\<exists>lp0 lp me tab core. demo_loop = Inr lp0 \<and> work demo_inputs lp0 = Inr lp \<and>
    router_step\<^sup>*\<^sup>* (new_router me tab core (dom (lp_sel lp0))) (lp_rt lp) \<and> rt_open (lp_rt lp) = dom (lp_sel lp) \<and>
    length (rt_pending (lp_rt lp) 2) = 1 \<and> rt_clients (lp_rt lp) 7 = Some [(3, [[''s2'']])] \<and>
    work (demo_inputs @ [(1, None, None)]) lp0 = Inl AssertFailed"
proof -
  have lp0: "demo_loop = Inr demo_lp" by (simp add: demo_loop_eq demo_lp_def)
  have w: "work demo_inputs demo_lp = Inr demo_lp_end" using demo_work(1) [of "[]"] by simp
  show ?thesis
    using router_work_refines [OF lp0 [unfolded demo_loop_def] w] lp0 w demo_work by metis
qed

end
