(* ===== verification/Pwr_Api.thy ===== *)
theory Pwr_Api imports Pwr_Hint Tcp_Channel "HOL-Library.List_Lexorder" "HOL-Library.Char_ord" "HOL-Library.Multiset" begin

text \<open>
  The entry points of the library (\<^verbatim>\<open>src/pwr/pwr.cc\<close>) on contexts, objects and groups, making a context from the
  environment and taking it down (\<^verbatim>\<open>DistCntxt\<close> in \<^verbatim>\<open>src/pwr/distCntxt.cc\<close>), and what a caller can rely on.
\<close>

subsection \<open>Making a context\<close>

definition getenv2 :: "(string \<Rightarrow> string option) \<Rightarrow> string \<Rightarrow> string \<Rightarrow> string option" where
  "getenv2 env pre suf = (case env (pre @ suf) of Some v \<Rightarrow> Some v | None \<Rightarrow> env suf)"

text \<open>Without a server there is no channel; with one a port must be there: a string is made from a null pointer otherwise.\<close>

definition initEventChannel :: "(string \<Rightarrow> string option) \<Rightarrow> string \<Rightarrow> endpoint option res" where
  "initEventChannel env name =
     (case getenv2 env name ''POWERAPI_SERVER'' of
        None \<Rightarrow> Inr None
      | Some server \<Rightarrow> c_assert (server \<noteq> [])
          (case getenv2 env name ''POWERAPI_SERVER_PORT'' of
             None \<Rightarrow> Inl MemoryFault
           | Some p \<Rightarrow> c_assert (p \<noteq> [])
               (rbind (tcp_channel (connect_config server p)) (\<lambda>e. Inr (Some e)))))"

text \<open>
  The reader of a configuration is chosen by what follows the last dot, of which only as many characters are looked at as the
  name of the reader has.  \<open>py\<close> and \<open>hw\<close> say whether the library was built with these readers.
\<close>

datatype reader_kind = Xml_Reader | Python_Reader | Hwloc_Reader

definition config_reader :: "bool \<Rightarrow> bool \<Rightarrow> string \<Rightarrow> reader_kind res" where
  "config_reader py hw file =
     (case find_last_of CHR ''.'' file of
        None \<Rightarrow> Inl AssertFailed
      | Some pos \<Rightarrow>
          if take 4 (drop pos file) = ''.xml'' then Inr Xml_Reader
          else if py \<and> take 3 (drop pos file) = ''.py'' then Inr Python_Reader
          else if hw \<and> take 6 (drop pos file) = ''.hwloc'' then Inr Hwloc_Reader
          else Inl ExitFatal)"

text \<open>
  What the constructor uses of its surroundings: the environment, the readers, the loader of plugins and the name of the
  operating system.
\<close>

record ('o, 's) platform =
  pf_env :: "string \<Rightarrow> string option"
  pf_python :: bool
  pf_hwloc :: bool
  pf_read :: "reader_kind \<Rightarrow> string \<Rightarrow> config res"
  pf_loader :: "string \<Rightarrow> string \<Rightarrow> ('o, 's) plugin option"
  pf_sysname :: string

definition no_events :: "bool \<Rightarrow> net" where
  "no_events c = \<lparr>channel = c, inbox = [], outbox = [], created = [], next_id = 0\<rparr>"

definition empty_cx :: "config \<Rightarrow> string \<Rightarrow> ('o, 's) cntxt" where
  "empty_cx cf r =
     \<lparr>pluginLibMap = Map.empty, devMap = Map.empty, deviceMap = [], cfg = cf, rootName = r, objMap = Map.empty\<rparr>"

text \<open>
  The constructor; \<open>None\<close> is the exception it throws when no configuration is named.  The root object is made before
  \<open>m_rootObj\<close> is set and while \<open>m_rootName\<close> already is.
\<close>

definition DistCntxt_new ::
  "nat \<Rightarrow> ('o, 's) platform \<Rightarrow> string \<Rightarrow> 's \<Rightarrow> ((('o, 's) cx \<times> endpoint option) option) res" where
  "DistCntxt_new k pf name s =
     rbind (initEventChannel (pf_env pf) name) (\<lambda>ec.
     case getenv2 (pf_env pf) name ''POWERAPI_CONFIG'' of
       None \<Rightarrow> Inr None
     | Some file \<Rightarrow>
         rbind (config_reader (pf_python pf) (pf_hwloc pf) file) (\<lambda>rd.
         rbind (pf_read pf rd file) (\<lambda>cf.
         rbind (initPlugins (pf_loader pf) (pf_sysname pf) (empty_cx cf [])) (\<lambda>cx.
         case getenv2 (pf_env pf) name ''POWERAPI_ROOT'' of
           None \<Rightarrow> Inl ExitFatal
         | Some r \<Rightarrow>
             rbind (findObject k r (cx\<lparr>rootName := r\<rparr>, s)) (\<lambda>(ob, cs).
             if ob = None then Inl ExitFatal else Inr (Some (cs, ec)))))))"

subsection \<open>The state of the library\<close>

text \<open>
  Groups are known by their address.  A group made by the context holds local and remote members (\<^verbatim>\<open>DistGrp\<close>), the children
  of an object are a group of the base class; \<open>None\<close> is one that was deleted, or never made.
\<close>

datatype group = BaseGrp "string list" | DistGroup grp

record ('o, 's) lib =
  lb_cx :: "('o, 's) cntxt"
  lb_st :: 's
  lb_net :: net
  lb_groupMap :: "string \<rightharpoonup> nat"
  lb_grps :: "nat \<rightharpoonup> group"
  lb_kids :: "string \<rightharpoonup> nat"
  lb_next :: nat

definition new_lib :: "('o, 's) cx \<Rightarrow> bool \<Rightarrow> ('o, 's) lib" where
  "new_lib cs chan =
     \<lparr>lb_cx = fst cs, lb_st = snd cs, lb_net = no_events chan, lb_groupMap = Map.empty, lb_grps = Map.empty,
      lb_kids = Map.empty, lb_next = 0\<rparr>"

definition PWR_CntxtInit ::
  "nat \<Rightarrow> ('o, 's) platform \<Rightarrow> int \<Rightarrow> string \<Rightarrow> 's \<Rightarrow> (int \<times> ('o, 's) lib option) res" where
  "PWR_CntxtInit k pf role name s =
     (if role \<noteq> -1 \<and> role \<noteq> -2 then
        rbind (DistCntxt_new k pf name s) (\<lambda>r.
        case r of
          None \<Rightarrow> Inr (RET_FAILURE, None)
        | Some (cs, ec) \<Rightarrow> Inr (RET_SUCCESS, Some (new_lib cs (ec \<noteq> None))))
      else Inr (RET_FAILURE, None))"

subsection \<open>Objects\<close>

definition on_cx :: "(('o, 's) cx \<Rightarrow> ('a \<times> ('o, 's) cx) res) \<Rightarrow> ('o, 's) lib \<Rightarrow> ('a \<times> ('o, 's) lib) res" where
  "on_cx f lb = rbind (f (lb_cx lb, lb_st lb)) (\<lambda>(x, (cx, s)). Inr (x, lb\<lparr>lb_cx := cx, lb_st := s\<rparr>))"

definition PWR_CntxtGetEntryPoint :: "('o, 's) lib \<Rightarrow> int \<times> string" where
  "PWR_CntxtGetEntryPoint lb = (RET_SUCCESS, rootName (lb_cx lb))"

definition PWR_CntxtGetObjByName :: "nat \<Rightarrow> string \<Rightarrow> ('o, 's) lib \<Rightarrow> ((int \<times> string option) \<times> ('o, 's) lib) res" where
  "PWR_CntxtGetObjByName k name lb =
     rbind (on_cx (findObject k name) lb) (\<lambda>(ob, lb').
     Inr ((if ob = None then RET_FAILURE else RET_SUCCESS, map_option o_name ob), lb'))"

definition PWR_ObjGetType :: "string \<Rightarrow> ('o, 's) lib \<Rightarrow> int \<times> obj_type" where
  "PWR_ObjGetType x lb = (RET_SUCCESS, o_type (obj_of (lb_cx lb) x))"

text \<open>Without a parent the out parameter is left as it was.\<close>

definition PWR_ObjGetParent ::
  "nat \<Rightarrow> string \<Rightarrow> string option \<Rightarrow> ('o, 's) lib \<Rightarrow> ((int \<times> string option) \<times> ('o, 's) lib) res" where
  "PWR_ObjGetParent k x out lb =
     rbind (on_cx (getParent k x) lb) (\<lambda>(ob, lb').
     Inr (case ob of Some p \<Rightarrow> (RET_SUCCESS, Some (o_name p)) | None \<Rightarrow> (RET_WARN_NO_PARENT, out), lb'))"

definition PWR_ObjAttrIsValid :: "string \<Rightarrow> attr \<Rightarrow> ('o, 's) lib \<Rightarrow> int" where
  "PWR_ObjAttrIsValid x a lb = (if isValid (attrInfo (obj_of (lb_cx lb) x) a) then RET_SUCCESS else RET_FAILURE)"

text \<open>\<open>look\<close> is the look-up by name that the handling of a remote error uses.\<close>

definition PWR_ObjAttrGetValues ::
  "(string \<Rightarrow> string option) \<Rightarrow> string \<Rightarrow> attr list \<Rightarrow> cell list \<Rightarrow> pwr_time list \<Rightarrow> status \<Rightarrow> ('o, 's) lib
   \<Rightarrow> ((int \<times> cell list \<times> pwr_time list \<times> status) \<times> ('o, 's) lib) res" where
  "PWR_ObjAttrGetValues look x as buf ts st lb =
     rbind (dist_attrGetValues look (obj_of (lb_cx lb) x) 0 as (lb_st lb, lb_net lb) buf ts st)
       (\<lambda>(r, (s, n)). Inr (r, lb\<lparr>lb_st := s, lb_net := n\<rparr>))"

definition PWR_ObjAttrSetValues ::
  "(string \<Rightarrow> string option) \<Rightarrow> string \<Rightarrow> attr list \<Rightarrow> cell list \<Rightarrow> status \<Rightarrow> ('o, 's) lib \<Rightarrow> ((int \<times> cell list \<times> status) \<times> ('o, 's) lib) res" where
  "PWR_ObjAttrSetValues look x as buf st lb =
     rbind (dist_attrSetValues look (obj_of (lb_cx lb) x) as (lb_st lb, lb_net lb) buf st)
       (\<lambda>(r, (s, n)). Inr (r, lb\<lparr>lb_st := s, lb_net := n\<rparr>))"

definition PWR_ObjAttrGetValue ::
  "(string \<Rightarrow> string option) \<Rightarrow> string \<Rightarrow> attr \<Rightarrow> cell \<Rightarrow> pwr_time \<Rightarrow> ('o, 's) lib
   \<Rightarrow> ((int \<times> cell list \<times> pwr_time list) \<times> ('o, 's) lib) res" where
  "PWR_ObjAttrGetValue look x a v t lb =
     rbind (dist_attrGetValue look (obj_of (lb_cx lb) x) a (lb_st lb, lb_net lb) v t)
       (\<lambda>(r, (s, n)). Inr (r, lb\<lparr>lb_st := s, lb_net := n\<rparr>))"

definition PWR_ObjAttrStartLog ::
  "(string \<Rightarrow> string option) \<Rightarrow> string \<Rightarrow> attr \<Rightarrow> ('o, 's) lib \<Rightarrow> (int \<times> ('o, 's) lib) res" where
  "PWR_ObjAttrStartLog look x a lb =
     rbind (dist_attrStartLog look (obj_of (lb_cx lb) x) a (lb_st lb, lb_net lb)) (\<lambda>(rc, (s, n)). Inr (rc, lb\<lparr>lb_st := s, lb_net := n\<rparr>))"

definition PWR_ObjAttrStopLog ::
  "(string \<Rightarrow> string option) \<Rightarrow> string \<Rightarrow> attr \<Rightarrow> ('o, 's) lib \<Rightarrow> (int \<times> ('o, 's) lib) res" where
  "PWR_ObjAttrStopLog look x a lb =
     rbind (dist_attrStopLog look (obj_of (lb_cx lb) x) a (lb_st lb, lb_net lb)) (\<lambda>(rc, (s, n)). Inr (rc, lb\<lparr>lb_st := s, lb_net := n\<rparr>))"

definition PWR_ObjAttrGetSamples ::
  "string \<Rightarrow> attr \<Rightarrow> pwr_time option \<Rightarrow> real \<Rightarrow> nat \<Rightarrow> cell list \<Rightarrow> ('o, 's) lib
   \<Rightarrow> ((int \<times> pwr_time option \<times> cell list) \<times> ('o, 's) lib) res" where
  "PWR_ObjAttrGetSamples x a start period cnt buf lb =
     rbind (dist_attrGetSamples (obj_of (lb_cx lb) x) a (lb_st lb, lb_net lb) start period cnt buf)
       (\<lambda>(r, (s, n)). Inr (r, lb\<lparr>lb_st := s, lb_net := n\<rparr>))"

definition PWR_ObjGetTypeString :: "obj_type \<Rightarrow> string" where "PWR_ObjGetTypeString t = objTypeToString t"
definition PWR_AttrGetTypeString :: "attr \<Rightarrow> string" where "PWR_AttrGetTypeString a = attrNameToString a"

text \<open>The calls on the meta data of attributes are not implemented.\<close>

definition PWR_ObjAttrGetMeta :: "string \<Rightarrow> attr \<Rightarrow> int" where "PWR_ObjAttrGetMeta x a = RET_NOT_IMPLEMENTED"
definition PWR_ObjAttrSetMeta :: "string \<Rightarrow> attr \<Rightarrow> int" where "PWR_ObjAttrSetMeta x a = RET_NOT_IMPLEMENTED"
definition PWR_MetaValueAtIndex :: "string \<Rightarrow> attr \<Rightarrow> nat \<Rightarrow> int" where "PWR_MetaValueAtIndex x a i = RET_NOT_IMPLEMENTED"

subsection \<open>Groups\<close>

definition grp_at :: "nat \<Rightarrow> ('o, 's) lib \<Rightarrow> group res" where
  "grp_at g lb = (case lb_grps lb g of None \<Rightarrow> Inl MemoryFault | Some x \<Rightarrow> Inr x)"

definition put_grp :: "nat \<Rightarrow> group \<Rightarrow> ('o, 's) lib \<Rightarrow> ('o, 's) lib" where
  "put_grp g x lb = lb\<lparr>lb_grps := (lb_grps lb)(g \<mapsto> x)\<rparr>"

definition new_grp :: "group \<Rightarrow> ('o, 's) lib \<Rightarrow> nat \<times> ('o, 's) lib" where
  "new_grp x lb = (lb_next lb, (put_grp (lb_next lb) x lb)\<lparr>lb_next := Suc (lb_next lb)\<rparr>)"

definition PWR_GrpCreate :: "('o, 's) lib \<Rightarrow> (int \<times> nat) \<times> ('o, 's) lib" where
  "PWR_GrpCreate lb = (let (g, lb') = new_grp (DistGroup (createGrp [])) lb in ((RET_SUCCESS, g), lb'))"

text \<open>\<^verbatim>\<open>DistCntxt::destroyGrp\<close> deletes whatever group it is given.\<close>

definition destroyGrp :: "nat \<Rightarrow> ('o, 's) lib \<Rightarrow> int \<times> ('o, 's) lib" where
  "destroyGrp g lb = (RET_SUCCESS, lb\<lparr>lb_grps := (lb_grps lb)(g := None)\<rparr>)"

definition PWR_GrpDestroy :: "nat \<Rightarrow> ('o, 's) lib \<Rightarrow> (int \<times> ('o, 's) lib) res" where
  "PWR_GrpDestroy g lb = rbind (grp_at g lb) (\<lambda>_. Inr (destroyGrp g lb))"

text \<open>
  \<^verbatim>\<open>getGrp\<close> looks for a group of its own making in the map of names, and when there is one it returns a null pointer; the
  depth of the search is a parameter.
\<close>

definition getGrp_new :: "nat \<Rightarrow> nat \<Rightarrow> obj_type \<Rightarrow> ('o, 's) lib \<Rightarrow> (nat option \<times> ('o, 's) lib) res" where
  "getGrp_new n k t lb =
     (if lb_groupMap lb (''internal'' @ objTypeToString t) \<noteq> None then Inr (None, lb)
      else rbind (on_cx (getGrp n k t) lb) (\<lambda>(g, lb').
        case g of
          None \<Rightarrow> Inr (None, lb')
        | Some x \<Rightarrow> (let (i, lb'') = new_grp (DistGroup x) lb' in Inr (Some i, lb''))))"

definition PWR_CntxtGetGrpByType ::
  "nat \<Rightarrow> nat \<Rightarrow> obj_type \<Rightarrow> ('o, 's) lib \<Rightarrow> ((int \<times> nat option) \<times> ('o, 's) lib) res" where
  "PWR_CntxtGetGrpByType n k t lb =
     rbind (getGrp_new n k t lb) (\<lambda>(g, lb'). Inr ((if g = None then RET_FAILURE else RET_SUCCESS, g), lb'))"

definition PWR_CntxtGetGrpByName :: "string \<Rightarrow> ('o, 's) lib \<Rightarrow> int \<times> nat option" where
  "PWR_CntxtGetGrpByName name lb = (RET_SUCCESS, lb_groupMap lb name)"

text \<open>\<^verbatim>\<open>Object::children\<close>: the group is made once and its address kept in the object.\<close>

definition lib_children :: "nat \<Rightarrow> string \<Rightarrow> ('o, 's) lib \<Rightarrow> ((int \<times> nat) \<times> ('o, 's) lib) res" where
  "lib_children k x lb =
     (case lb_kids lb x of
        Some g \<Rightarrow> Inr ((RET_SUCCESS, g), lb)
      | None \<Rightarrow>
          rbind (on_cx (getChildren k x) lb) (\<lambda>(xs, lb').
          let (g, lb'') = new_grp (BaseGrp xs) lb'
          in Inr ((RET_SUCCESS, g), lb''\<lparr>lb_kids := (lb_kids lb'')(x \<mapsto> g)\<rparr>)))"

definition group_add :: "(string \<Rightarrow> 's object) \<Rightarrow> group \<Rightarrow> string \<Rightarrow> (int \<times> group) res" where
  "group_add obj g x =
     (case g of
        BaseGrp xs \<Rightarrow> Inr (map_prod id BaseGrp (base_add xs x))
      | DistGroup d \<Rightarrow> rbind (grp_add obj d x) (\<lambda>(rc, d'). Inr (rc, DistGroup d')))"

definition group_remove :: "group \<Rightarrow> string \<Rightarrow> int \<times> group" where
  "group_remove g x =
     (case g of
        BaseGrp xs \<Rightarrow> map_prod id BaseGrp (base_remove xs x)
      | DistGroup d \<Rightarrow> map_prod id DistGroup (grp_remove d x))"

definition group_size :: "group \<Rightarrow> nat" where
  "group_size g = (case g of BaseGrp xs \<Rightarrow> length xs | DistGroup d \<Rightarrow> grp_size d)"

definition group_getObj :: "group \<Rightarrow> nat \<Rightarrow> string res" where
  "group_getObj g i = (case g of BaseGrp xs \<Rightarrow> arr_get xs i | DistGroup d \<Rightarrow> grp_getObj d i)"

definition PWR_GrpAddObj :: "nat \<Rightarrow> string \<Rightarrow> ('o, 's) lib \<Rightarrow> (int \<times> ('o, 's) lib) res" where
  "PWR_GrpAddObj g x lb =
     rbind (grp_at g lb) (\<lambda>gr. rbind (group_add (obj_of (lb_cx lb)) gr x) (\<lambda>(rc, gr'). Inr (rc, put_grp g gr' lb)))"

definition PWR_GrpRemoveObj :: "nat \<Rightarrow> string \<Rightarrow> ('o, 's) lib \<Rightarrow> (int \<times> ('o, 's) lib) res" where
  "PWR_GrpRemoveObj g x lb =
     rbind (grp_at g lb) (\<lambda>gr. let (rc, gr') = group_remove gr x in Inr (rc, put_grp g gr' lb))"

definition PWR_GrpGetNumObjs :: "nat \<Rightarrow> ('o, 's) lib \<Rightarrow> int res" where
  "PWR_GrpGetNumObjs g lb = rbind (grp_at g lb) (\<lambda>gr. Inr (int (group_size gr)))"

text \<open>The index is not checked.\<close>

definition PWR_GrpGetObjByIndx :: "nat \<Rightarrow> int \<Rightarrow> ('o, 's) lib \<Rightarrow> (int \<times> string) res" where
  "PWR_GrpGetObjByIndx g i lb =
     rbind (grp_at g lb) (\<lambda>gr. rbind (group_getObj gr (unat (word_of_int i :: 32 word))) (\<lambda>x. Inr (RET_SUCCESS, x)))"

text \<open>The value calls of a group, for either class; those of the base class go on after an error.\<close>

fun base_sets_loop ::
  "(string \<Rightarrow> string option) \<Rightarrow> (string \<Rightarrow> 's object) \<Rightarrow> string list \<Rightarrow> attr list \<Rightarrow> 's \<times> net
   \<Rightarrow> cell list \<Rightarrow> status \<Rightarrow> ((cell list \<times> status) \<times> 's \<times> net) res" where
  "base_sets_loop look obj [] as sn buf st = Inr ((buf, st), sn)"
| "base_sets_loop look obj (x # xs) as sn buf st =
     rbind (dist_attrSetValues look (obj x) as sn buf st) (\<lambda>((_, buf', st'), sn').
     base_sets_loop look obj xs as sn' buf' st')"

definition base_attrSetValues ::
  "(string \<Rightarrow> string option) \<Rightarrow> (string \<Rightarrow> 's object) \<Rightarrow> string list \<Rightarrow> attr list \<Rightarrow> 's \<times> net
   \<Rightarrow> cell list \<Rightarrow> status \<Rightarrow> ((int \<times> cell list \<times> status) \<times> 's \<times> net) res" where
  "base_attrSetValues look obj xs as sn buf st =
     rbind (base_sets_loop look obj xs as sn buf st) (\<lambda>((buf', st'), sn'). Inr ((base_ret st', buf', st'), sn'))"

definition PWR_GrpAttrGetValues ::
  "(string \<Rightarrow> string option) \<Rightarrow> nat \<Rightarrow> attr list \<Rightarrow> cell list \<Rightarrow> pwr_time list \<Rightarrow> status \<Rightarrow> ('o, 's) lib
   \<Rightarrow> ((int \<times> cell list \<times> pwr_time list \<times> status) \<times> ('o, 's) lib) res" where
  "PWR_GrpAttrGetValues look g as buf ts st lb =
     rbind (grp_at g lb) (\<lambda>gr.
     case gr of
       BaseGrp xs \<Rightarrow>
         rbind (base_attrGetValues look (obj_of (lb_cx lb)) xs as (lb_st lb, lb_net lb) buf ts st) (\<lambda>(r, (s, n)).
         Inr (r, lb\<lparr>lb_st := s, lb_net := n\<rparr>))
     | DistGroup d \<Rightarrow>
         rbind (grp_attrGetValues look (obj_of (lb_cx lb)) d as (lb_st lb, lb_net lb) buf ts st) (\<lambda>(r, d', (s, n)).
         Inr (r, (put_grp g (DistGroup d') lb)\<lparr>lb_st := s, lb_net := n\<rparr>)))"

definition PWR_GrpAttrGetValue ::
  "(string \<Rightarrow> string option) \<Rightarrow> nat \<Rightarrow> attr \<Rightarrow> cell list \<Rightarrow> pwr_time list \<Rightarrow> status \<Rightarrow> ('o, 's) lib
   \<Rightarrow> ((int \<times> cell list \<times> pwr_time list \<times> status) \<times> ('o, 's) lib) res" where
  "PWR_GrpAttrGetValue look g a buf ts st lb = PWR_GrpAttrGetValues look g [a] buf ts st lb"

definition PWR_GrpAttrSetValues ::
  "(string \<Rightarrow> string option) \<Rightarrow> nat \<Rightarrow> attr list \<Rightarrow> cell list \<Rightarrow> status \<Rightarrow> ('o, 's) lib
   \<Rightarrow> ((int \<times> cell list \<times> status) \<times> ('o, 's) lib) res" where
  "PWR_GrpAttrSetValues look g as buf st lb =
     rbind (grp_at g lb) (\<lambda>gr.
     case gr of
       BaseGrp xs \<Rightarrow>
         rbind (base_attrSetValues look (obj_of (lb_cx lb)) xs as (lb_st lb, lb_net lb) buf st) (\<lambda>(r, (s, n)).
         Inr (r, lb\<lparr>lb_st := s, lb_net := n\<rparr>))
     | DistGroup d \<Rightarrow>
         rbind (grp_attrSetValues look (obj_of (lb_cx lb)) d as (lb_st lb, lb_net lb) buf st) (\<lambda>(r, d', (s, n)).
         Inr (r, (put_grp g (DistGroup d') lb)\<lparr>lb_st := s, lb_net := n\<rparr>)))"

definition PWR_GrpAttrSetValue ::
  "(string \<Rightarrow> string option) \<Rightarrow> nat \<Rightarrow> attr \<Rightarrow> cell \<Rightarrow> status \<Rightarrow> ('o, 's) lib
   \<Rightarrow> ((int \<times> cell list \<times> status) \<times> ('o, 's) lib) res" where
  "PWR_GrpAttrSetValue look g a v st lb =
     rbind (grp_at g lb) (\<lambda>gr.
     case gr of
       BaseGrp xs \<Rightarrow>
         rbind (base_attrSetValue look (obj_of (lb_cx lb)) xs a (lb_st lb, lb_net lb) v st) (\<lambda>((rc, v', st'), (s, n)).
         Inr ((rc, [v'], st'), lb\<lparr>lb_st := s, lb_net := n\<rparr>))
     | DistGroup d \<Rightarrow> PWR_GrpAttrSetValues look g [a] [v] st lb)"

subsection \<open>Taking a context down\<close>

text \<open>
  The destructor closes the devices in the order of their tables' addresses (\<open>ptr\<close>) and of their open strings, then finishes
  the plugins in the order of the names of their devices.  \<open>cl\<close> is a table's \<^verbatim>\<open>close\<close> on the descriptor, \<open>fin\<close> a
  plugin's \<^verbatim>\<open>final\<close> on the table.
\<close>

definition close_order :: "('o \<Rightarrow> nat) \<Rightarrow> (('o \<times> string) \<times> 'd) list \<Rightarrow> (('o \<times> string) \<times> 'd) list" where
  "close_order ptr ds = sort_key (\<lambda>x. ptr (fst (fst x))) (sort_key (\<lambda>x. snd (fst x)) ds)"

definition final_order :: "('o, 's) cntxt \<Rightarrow> string list" where
  "final_order cx = filter (\<lambda>n. devMap cx n \<noteq> None) (sort (remdups (map fst (findSysDevs (cfg cx)))))"

definition final_dev ::
  "(('o, 's) plugin \<Rightarrow> 'o \<Rightarrow> 's \<Rightarrow> 's res) \<Rightarrow> ('o, 's) cntxt \<Rightarrow> string \<Rightarrow> 's \<Rightarrow> 's res" where
  "final_dev fin cx n s = (case devMap cx n of None \<Rightarrow> Inr s | Some (p, ops) \<Rightarrow> fin p ops s)"

definition PWR_CntxtDestroy ::
  "('o \<Rightarrow> nat) \<Rightarrow> ('s devops \<Rightarrow> 's \<Rightarrow> 's res) \<Rightarrow> (('o, 's) plugin \<Rightarrow> 'o \<Rightarrow> 's \<Rightarrow> 's res) \<Rightarrow> ('o, 's) lib
   \<Rightarrow> (int \<times> 's) res" where
  "PWR_CntxtDestroy ptr cl fin lb =
     rbind (run_all (\<lambda>x. cl (snd x)) (close_order ptr (deviceMap (lb_cx lb))) (lb_st lb)) (\<lambda>s.
     rbind (run_all (final_dev fin (lb_cx lb)) (final_order (lb_cx lb)) s) (\<lambda>s'. Inr (RET_SUCCESS, s')))"

text \<open>The calls that are not implemented.\<close>

definition PWR_GrpDuplicate :: "nat \<Rightarrow> int" where "PWR_GrpDuplicate g = RET_NOT_IMPLEMENTED"
definition PWR_GrpUnion :: "nat \<Rightarrow> nat \<Rightarrow> int" where "PWR_GrpUnion g h = RET_NOT_IMPLEMENTED"
definition PWR_GrpIntersection :: "nat \<Rightarrow> nat \<Rightarrow> int" where "PWR_GrpIntersection g h = RET_NOT_IMPLEMENTED"
definition PWR_GrpDifference :: "nat \<Rightarrow> nat \<Rightarrow> int" where "PWR_GrpDifference g h = RET_NOT_IMPLEMENTED"

subsection \<open>What looking things up keeps\<close>

lemma kept_run_all:
  assumes "\<And>x st st'. x \<in> set xs \<Longrightarrow> Q st \<Longrightarrow> f x st = Inr st' \<Longrightarrow> Q st'"
  shows "run_all f xs st = Inr st' \<Longrightarrow> Q st \<Longrightarrow> Q st'"
  using assms
proof (induction xs arbitrary: st)
  case (Cons x xs)
  from Cons.prems(1) obtain st1 where s: "f x st = Inr st1" "run_all f xs st1 = Inr st'"
    by (auto elim!: rbind_eq_InrE)
  have "Q st1" using Cons.prems(2,3) s(1) by auto
  with Cons.IH [OF s(2)] Cons.prems(3) show ?case by auto
qed simp

text \<open>A property of the context that finding an object keeps is kept by every look-up.\<close>

locale kept_by_lookup =
  fixes P :: "('o, 's) cntxt \<Rightarrow> bool"
  assumes kept_findObject: "findObject k name cs = Inr (ob, cs') \<Longrightarrow> P (fst cs) \<Longrightarrow> P (fst cs')"
begin

lemma kept_mustFind: "mustFind k name cs = Inr (ob, cs') \<Longrightarrow> P (fst cs) \<Longrightarrow> P (fst cs')"
  by (auto simp: mustFind_def elim!: rbind_eq_InrE split: option.splits dest!: kept_findObject)

lemma kept_getParent: "getParent k name cs = Inr (ob, cs') \<Longrightarrow> P (fst cs) \<Longrightarrow> P (fst cs')"
  by (auto simp: getParent_def Let_def elim!: rbind_eq_InrE split: if_splits dest!: kept_mustFind)

lemma kept_getChildren: "getChildren k name cs = Inr (xs, cs') \<Longrightarrow> P (fst cs) \<Longrightarrow> P (fst cs')"
  unfolding getChildren_def
  by (drule kept_run_all [where Q = "\<lambda>st. P (fst (snd st))", rotated])
     (auto simp: addChildBase_def Let_def elim!: rbind_eq_InrE dest!: kept_mustFind)

lemma kept_findAll: "findAllObjType n k t name st = Inr st' \<Longrightarrow> P (fst (snd st)) \<Longrightarrow> P (fst (snd st'))"
proof (induction n arbitrary: name st st')
  case (Suc n)
  obtain g cs where st: "st = (g, cs)" by (cases st)
  with Suc.prems(1) obtain ob cs1 where m: "mustFind k name cs = Inr (ob, cs1)"
    and r: "(if o_type ob = t then rbind (grp_add (obj_of (fst cs1)) g name) (\<lambda>(_, g'). Inr (g', cs1))
      else run_all (findAllObjType n k t) (findChildren (cfg (fst cs1)) name) (g, cs1)) = Inr st'"
    by (auto elim!: rbind_eq_InrE)
  have "P (fst cs1)" using kept_mustFind [OF m] Suc.prems(2) st by simp
  then show ?case
    using r Suc.IH kept_run_all [where Q = "\<lambda>st. P (fst (snd st))" and f = "findAllObjType n k t"]
    by (auto split: if_splits elim!: rbind_eq_InrE)
qed simp

lemma kept_getGrp: "getGrp n k t cs = Inr (g, cs') \<Longrightarrow> P (fst cs) \<Longrightarrow> P (fst cs')"
  by (auto simp: getGrp_def elim!: rbind_eq_InrE dest!: kept_findAll)

end

text \<open>
  A property of the context that using a device keeps, and that does not look at the objects, is kept by finding an
  object.
\<close>

locale kept_by_devices =
  fixes P :: "('o, 's) cntxt \<Rightarrow> bool"
  assumes kept_use: "P (fst cs) \<Longrightarrow> useDevice dv cs = Inr (d, cs') \<Longrightarrow> P (fst cs')"
    and kept_objMap: "P (cx\<lparr>objMap := m\<rparr>) = P cx"
begin

lemma kept_addDevice: "P (fst (fst st)) \<Longrightarrow> addDevice dv st = Inr st' \<Longrightarrow> P (fst (fst st'))"
  by (cases st) (auto simp: addDevice_def Let_def elim!: rbind_eq_InrE dest: kept_use)

lemma kept_traverse: "traverse k a name st = Inr st' \<Longrightarrow> P (fst (fst st)) \<Longrightarrow> P (fst (fst st'))"
proof (induction k arbitrary: name st st')
  case (Suc k)
  show ?case
  proof (cases "hasServer (cfg (fst (fst st))) name \<and> name \<noteq> rootName (fst (fst st))")
    case True
    with Suc.prems show ?thesis by (auto simp: traverse_Suc simp del: traverse.simps)
  next
    case False
    with Suc.prems(1) obtain st1 where
      1: "run_all addDevice (findObjDevs (cfg (fst (fst st))) name a) st = Inr st1"
      and 2: "(if canAggregate a then run_all (traverse k a) (findAttrChildren (cfg (fst (fst st))) name a) st1 else Inr st1) = Inr st'"
      unfolding traverse_Suc by (auto elim!: rbind_eq_InrE)
    have "P (fst (fst st1))"
      by (rule kept_run_all [where Q = "\<lambda>st. P (fst (fst st))", OF _ 1 Suc.prems(2)]) (rule kept_addDevice)
    then show ?thesis
      using 2 kept_run_all [where Q = "\<lambda>st. P (fst (fst st))" and f = "traverse k a"] Suc.IH
      by (auto split: if_splits)
  qed
qed simp

lemma kept_initAttr: "initAttr k name a cs = Inr (info, cs') \<Longrightarrow> P (fst cs) \<Longrightarrow> P (fst cs')"
  by (auto simp: initAttr_def elim!: rbind_eq_InrE split: if_splits dest!: kept_traverse)

lemma kept_init_attrs: "init_attrs k name as m cs = Inr (m', cs') \<Longrightarrow> P (fst cs) \<Longrightarrow> P (fst cs')"
  by (induction as arbitrary: m cs) (auto elim!: rbind_eq_InrE dest!: kept_initAttr)

lemma kept_createObject: "createObject k name t cs = Inr (ob, cs') \<Longrightarrow> P (fst cs) \<Longrightarrow> P (fst cs')"
  by (auto simp: createObject_def Let_def elim!: rbind_eq_InrE dest!: kept_init_attrs)

lemma kept_find: "findObject k name cs = Inr (ob, cs') \<Longrightarrow> P (fst cs) \<Longrightarrow> P (fst cs')"
  by (auto simp: findObject_def kept_objMap elim!: rbind_eq_InrE split: option.splits dest!: kept_createObject)

end

sublocale kept_by_devices \<subseteq> kept_by_lookup P
  by unfold_locales (rule kept_find)

text \<open>
  The shape of a context: the configuration and the name of the root stay, no device is open twice, every device
  initialised is one of the configuration, and every open one belongs to a device that is initialised.
\<close>

definition cx_shape :: "config \<Rightarrow> string \<Rightarrow> ('o, 's) cntxt \<Rightarrow> bool" where
  "cx_shape cf r cx \<longleftrightarrow> cfg cx = cf \<and> rootName cx = r \<and> cx_ok cx \<and> dom (devMap cx) \<subseteq> fst ` set (findSysDevs cf) \<and>
     (\<forall>x\<in>set (deviceMap cx). \<exists>n p. devMap cx n = Some (p, fst (fst x)))"

lemma init_from_dom:
  "init_from devs dn cs = Inr (b, cs') \<Longrightarrow> dom (devMap (fst cs')) \<subseteq> dom (devMap (fst cs)) \<union> fst ` set devs"
  by (induction devs dn cs rule: init_from.induct) (auto simp: res_simps split: if_splits option.splits)

lemma ensureDevice_dom:
  "ensureDevice dn cs = Inr cs' \<Longrightarrow> dom (devMap (fst cs')) \<subseteq> dom (devMap (fst cs)) \<union> fst ` set (findSysDevs (cfg (fst cs)))"
  by (auto simp: ensureDevice_def initDevice_def res_simps split: if_splits dest!: init_from_dom)

interpretation shape: kept_by_devices "cx_shape cf r" for cf r
proof unfold_locales
  fix cs dv d and cs' :: "('o, 's) cx"
  assume c: "cx_shape cf r (fst cs)" and u: "useDevice dv cs = Inr (d, cs')"
  obtain cx s where cs: "cs = (cx, s)" by (cases cs)
  obtain cx' s' where cs': "cs' = (cx', s')" by (cases cs')
  obtain cx1 s1 p ops where e: "ensureDevice (fst dv) (cx, s) = Inr (cx1, s1)"
    and p: "devMap cx1 (fst dv) = Some (p, ops)" and o: "openDevice p ops (snd dv) (cx1, s1) = Inr (d, (cx', s'))"
    using u unfolding cs cs' by (auto simp: useDevice_def elim!: rbind_eq_InrE split: option.splits)
  have g1: "grows cx cx1" "deviceMap cx1 = deviceMap cx" using ensureDevice_grows [OF e] by simp_all
  have o1: "cx_ok cx1 \<longrightarrow> cx_ok cx'" "grows cx1 cx'" "devMap cx' = devMap cx1" using openDevice_spec [OF o] by simp_all
  have d: "dom (devMap cx1) \<subseteq> fst ` set (findSysDevs cf)"
    using ensureDevice_dom [OF e] c by (auto simp: cx_shape_def cs)
  have x: "set (deviceMap cx') \<subseteq> insert ((ops, snd dv), d) (set (deviceMap cx1))"
    using o by (auto simp: openDevice_def elim!: rbind_eq_InrE split: option.splits)
  have m: "\<exists>n p. devMap cx1 n = Some (p, fst (fst y))" if "y \<in> set (deviceMap cx)" for y
  proof -
    obtain n q where "devMap cx n = Some (q, fst (fst y))" using c \<open>y \<in> _\<close> unfolding cx_shape_def cs by auto
    then have "devMap cx1 n = Some (q, fst (fst y))" using g1(1) by (metis domI grows_def map_le_def)
    then show ?thesis by blast
  qed
  have all: "\<exists>n p. devMap cx' n = Some (p, fst (fst y))" if "y \<in> set (deviceMap cx')" for y
  proof (cases "y = ((ops, snd dv), d)")
    case True
    then show ?thesis using p o1(3) by auto
  next
    case False
    then have "y \<in> set (deviceMap cx)" using that x g1(2) by auto
    then show ?thesis using m o1(3) by simp
  qed
  have "cx_ok cx1" using c g1(2) by (simp add: cx_shape_def cx_ok_def cs)
  then show "cx_shape cf r (fst cs')"
    using c g1 o1 d all by (simp add: cx_shape_def cs cs' grows_def)
qed (simp add: cx_shape_def cx_ok_def)

text \<open>And the objects are those of the configuration, under their names and with their types.\<close>

definition typed_objects :: "config \<Rightarrow> string \<Rightarrow> ('o, 's) cntxt \<Rightarrow> bool" where
  "typed_objects cf r cx \<longleftrightarrow> cx_shape cf r cx \<and>
     (\<forall>n ob. objMap cx n = Some ob \<longrightarrow> o_name ob = n \<and> objType cf n = Some (o_type ob))"

lemma findObject_typed:
  assumes f: "findObject k name (cx, s) = Inr (q, (cx', s'))" and ok: "typed_objects cf r cx"
  shows "typed_objects cf r cx' \<and> (\<forall>ob. q = Some ob \<longrightarrow> objType cf name = Some (o_type ob))"
proof -
  have sh: "cx_shape cf r cx'" using shape.kept_findObject [OF f] ok by (simp add: typed_objects_def)
  consider (known) ob where "objMap cx name = Some ob" | (none) "objMap cx name = None" "objType cf name = None"
    | (new) t where "objMap cx name = None" "objType cf name = Some t" by fastforce
  then show ?thesis
  proof cases
    case new
    then obtain ob cx1 where c: "createObject k name t (cx, s) = Inr (ob, (cx1, s'))" and q: "q = Some ob"
      and cx': "cx' = cx1\<lparr>objMap := (objMap cx1)(name \<mapsto> ob)\<rparr>"
      using f ok by (auto simp: findObject_def typed_objects_def cx_shape_def elim!: rbind_eq_InrE)
    have "o_name ob = name \<and> o_type ob = t \<and> objMap cx1 = objMap cx"
      using createObject_ok [OF c] ok by (simp add: typed_objects_def cx_shape_def grows_def)
    then show ?thesis using ok new(2) sh by (simp add: typed_objects_def cx' q)
  next
    case none
    then show ?thesis using f ok by (simp add: findObject_def typed_objects_def cx_shape_def)
  next
    case known
    then show ?thesis using f ok by (auto simp: findObject_def typed_objects_def)
  qed
qed

interpretation typed: kept_by_lookup "typed_objects cf r" for cf r
proof unfold_locales
  fix k name cs ob and cs' :: "('o, 's) cx"
  assume "findObject k name cs = Inr (ob, cs')" "typed_objects cf r (fst cs)"
  then show "typed_objects cf r (fst cs')"
    using findObject_typed [of k name "fst cs" "snd cs" ob "fst cs'" "snd cs'" cf r] by simp
qed

lemma mustFind_typed:
  "mustFind k name (cx, s) = Inr (ob, (cx', s')) \<Longrightarrow> typed_objects cf r cx \<Longrightarrow>
   typed_objects cf r cx' \<and> objType cf name = Some (o_type ob)"
  using findObject_typed [of k name cx s _ cx' s' cf r]
  by (auto simp: mustFind_def elim!: rbind_eq_InrE split: option.splits)

subsection \<open>What every call keeps\<close>

text \<open>The calls that change the state of the library.\<close>

inductive lib_step :: "('o, 's) lib \<Rightarrow> ('o, 's) lib \<Rightarrow> bool" where
  lib_obj: "PWR_CntxtGetObjByName k x lb = Inr (r, lb') \<Longrightarrow> lib_step lb lb'"
| lib_parent: "PWR_ObjGetParent k x out lb = Inr (r, lb') \<Longrightarrow> lib_step lb lb'"
| lib_kids: "lib_children k x lb = Inr (r, lb') \<Longrightarrow> lib_step lb lb'"
| lib_type: "PWR_CntxtGetGrpByType n k t lb = Inr (r, lb') \<Longrightarrow> lib_step lb lb'"
| lib_create: "PWR_GrpCreate lb = (r, lb') \<Longrightarrow> lib_step lb lb'"
| lib_destroy: "PWR_GrpDestroy g lb = Inr (rc, lb') \<Longrightarrow> lib_step lb lb'"
| lib_add: "PWR_GrpAddObj g x lb = Inr (rc, lb') \<Longrightarrow> lib_step lb lb'"
| lib_remove: "PWR_GrpRemoveObj g x lb = Inr (rc, lb') \<Longrightarrow> lib_step lb lb'"
| lib_get: "PWR_ObjAttrGetValues look x as buf ts st lb = Inr (v, lb') \<Longrightarrow> lib_step lb lb'"
| lib_set: "PWR_ObjAttrSetValues look x as buf st lb = Inr (w, lb') \<Longrightarrow> lib_step lb lb'"
| lib_get1: "PWR_ObjAttrGetValue look x a c t lb = Inr (v1, lb') \<Longrightarrow> lib_step lb lb'"
| lib_start: "PWR_ObjAttrStartLog look x a lb = Inr (rc, lb') \<Longrightarrow> lib_step lb lb'"
| lib_stop: "PWR_ObjAttrStopLog look x a lb = Inr (rc, lb') \<Longrightarrow> lib_step lb lb'"
| lib_samples: "PWR_ObjAttrGetSamples x a start period cnt buf lb = Inr (v2, lb') \<Longrightarrow> lib_step lb lb'"
| lib_grp_get: "PWR_GrpAttrGetValues look g as buf ts st lb = Inr (v, lb') \<Longrightarrow> lib_step lb lb'"
| lib_grp_set: "PWR_GrpAttrSetValues look g as buf st lb = Inr (w, lb') \<Longrightarrow> lib_step lb lb'"
| lib_grp_set1: "PWR_GrpAttrSetValue look g a c st lb = Inr (w, lb') \<Longrightarrow> lib_step lb lb'"

definition lib_ok :: "config \<Rightarrow> string \<Rightarrow> ('o, 's) lib \<Rightarrow> bool" where
  "lib_ok cf r lb \<longleftrightarrow> typed_objects cf r (lb_cx lb) \<and> lb_groupMap lb = Map.empty \<and> (\<forall>g x. lb_grps lb g = Some x \<longrightarrow> g < lb_next lb) \<and>
     (\<forall>x g. lb_kids lb x = Some g \<longrightarrow> g < lb_next lb)"

text \<open>A call that only changes the context through a look-up, and one that only replaces a group.\<close>

lemma lib_ok_cx:
  assumes "on_cx f lb = Inr (x, lb')" and "lib_ok cf r lb"
    and "\<And>y cs cs'. f cs = Inr (y, cs') \<Longrightarrow> typed_objects cf r (fst cs) \<Longrightarrow> typed_objects cf r (fst cs')"
  shows "lib_ok cf r lb' \<and> lb_next lb' = lb_next lb \<and> lb_grps lb' = lb_grps lb \<and> lb_kids lb' = lb_kids lb \<and>
    lb_groupMap lb' = lb_groupMap lb"
  using assms(1,2) by (auto simp: on_cx_def lib_ok_def elim!: rbind_eq_InrE dest!: assms(3))

lemma lookup_ok_find:
  "on_cx (findObject k x) lb = Inr (ob, lb') \<Longrightarrow> lib_ok cf r lb \<Longrightarrow> lib_ok cf r lb' \<and> lb_next lb' = lb_next lb \<and> lb_grps lb' = lb_grps lb \<and> lb_kids lb' = lb_kids lb \<and>
    lb_groupMap lb' = lb_groupMap lb"
  by (erule (1) lib_ok_cx) (erule (1) typed.kept_findObject)

lemma lookup_ok_parent:
  "on_cx (getParent k x) lb = Inr (ob, lb') \<Longrightarrow> lib_ok cf r lb \<Longrightarrow> lib_ok cf r lb' \<and> lb_next lb' = lb_next lb \<and> lb_grps lb' = lb_grps lb \<and> lb_kids lb' = lb_kids lb \<and>
    lb_groupMap lb' = lb_groupMap lb"
  by (erule (1) lib_ok_cx) (erule (1) typed.kept_getParent)

lemma lookup_ok_children:
  "on_cx (getChildren k x) lb = Inr (xs, lb') \<Longrightarrow> lib_ok cf r lb \<Longrightarrow> lib_ok cf r lb' \<and> lb_next lb' = lb_next lb \<and> lb_grps lb' = lb_grps lb \<and> lb_kids lb' = lb_kids lb \<and>
    lb_groupMap lb' = lb_groupMap lb"
  by (erule (1) lib_ok_cx) (erule (1) typed.kept_getChildren)

lemma lookup_ok_grp:
  "on_cx (getGrp n k t) lb = Inr (gr, lb') \<Longrightarrow> lib_ok cf r lb \<Longrightarrow> lib_ok cf r lb' \<and> lb_next lb' = lb_next lb \<and> lb_grps lb' = lb_grps lb \<and> lb_kids lb' = lb_kids lb \<and>
    lb_groupMap lb' = lb_groupMap lb"
  by (erule (1) lib_ok_cx) (erule (1) typed.kept_getGrp)

lemma lib_ok_put: "lib_ok cf r lb \<Longrightarrow> lb_grps lb g \<noteq> None \<Longrightarrow> lib_ok cf r (put_grp g x lb)"
  by (auto simp: lib_ok_def put_grp_def)

lemma lib_ok_io [simp]: "lib_ok cf r (lb\<lparr>lb_st := s, lb_net := n\<rparr>) = lib_ok cf r lb"
  by (simp add: lib_ok_def)

lemma lib_ok_new: "new_grp x lb = (g, lb') \<Longrightarrow> lib_ok cf r lb \<Longrightarrow> lib_ok cf r lb' \<and> g = lb_next lb \<and> lb_next lb' = Suc g"
  by (auto simp: lib_ok_def new_grp_def put_grp_def less_Suc_eq split: if_splits)

lemma grp_at_Inr: "grp_at g lb = Inr x \<longleftrightarrow> lb_grps lb g = Some x"
  by (simp add: grp_at_def split: option.split)

lemma lib_ok_kid: "lib_ok cf r lb \<Longrightarrow> g < lb_next lb \<Longrightarrow> lib_ok cf r (lb\<lparr>lb_kids := (lb_kids lb)(x \<mapsto> g)\<rparr>)"
  by (auto simp: lib_ok_def)

lemma lib_ok_children:
  assumes "lib_children k x lb = Inr (q, lb')" and ok: "lib_ok cf r lb"
  shows "lib_ok cf r lb'"
proof (cases "lb_kids lb x")
  case None
  then obtain xs lb1 g lb2 where c: "on_cx (getChildren k x) lb = Inr (xs, lb1)" and n: "new_grp (BaseGrp xs) lb1 = (g, lb2)"
    and l: "lb' = lb2\<lparr>lb_kids := (lb_kids lb2)(x \<mapsto> g)\<rparr>"
    using assms(1) by (auto simp: lib_children_def Let_def elim!: rbind_eq_InrE split: prod.splits)
  then show ?thesis using lookup_ok_children [OF c ok] lib_ok_new [OF n, of cf r] lib_ok_kid [of cf r lb2 g x] by simp
qed (use assms in \<open>simp add: lib_children_def\<close>)

lemma lib_ok_byType:
  assumes "PWR_CntxtGetGrpByType n k t lb = Inr (q, lb')" and ok: "lib_ok cf r lb"
  shows "lib_ok cf r lb'"
proof -
  obtain g where "getGrp_new n k t lb = Inr (g, lb')" using assms(1) by (auto simp: PWR_CntxtGetGrpByType_def elim!: rbind_eq_InrE)
  then obtain x lb1 where c: "on_cx (getGrp n k t) lb = Inr (x, lb1)"
    and l: "(case x of None \<Rightarrow> lb' = lb1 | Some d \<Rightarrow> (g, lb') = map_prod Some id (new_grp (DistGroup d) lb1))"
    using ok by (auto simp: getGrp_new_def lib_ok_def Let_def elim!: rbind_eq_InrE split: option.splits prod.splits)
  have "lib_ok cf r lb1" using lookup_ok_grp [OF c ok] by simp
  then show ?thesis using l by (cases x) (auto simp: map_prod_def split: prod.splits dest: lib_ok_new)
qed

lemma lib_ok_at_put: "grp_at g lb = Inr x \<Longrightarrow> lib_ok cf r lb \<Longrightarrow> lib_ok cf r (put_grp g y lb)"
  by (simp add: grp_at_Inr lib_ok_put)

lemma lib_ok_values:
  "PWR_GrpAttrGetValues look g as buf ts st lb = Inr (v, lb') \<Longrightarrow> lib_ok cf r lb \<Longrightarrow> lib_ok cf r lb'"
  "PWR_GrpAttrSetValues look g as buf st lb = Inr (w, lb') \<Longrightarrow> lib_ok cf r lb \<Longrightarrow> lib_ok cf r lb'"
  "PWR_GrpAttrSetValue look g a c st lb = Inr (w, lb') \<Longrightarrow> lib_ok cf r lb \<Longrightarrow> lib_ok cf r lb'"
proof -
  show get: "PWR_GrpAttrGetValues look g as buf ts st lb = Inr (v, lb') \<Longrightarrow> lib_ok cf r lb \<Longrightarrow> lib_ok cf r lb'"
    by (auto simp: PWR_GrpAttrGetValues_def lib_ok_at_put elim!: rbind_eq_InrE split: group.splits)
  show set: "PWR_GrpAttrSetValues look g as buf st lb = Inr (w, lb') \<Longrightarrow> lib_ok cf r lb \<Longrightarrow> lib_ok cf r lb'" for as buf
    by (auto simp: PWR_GrpAttrSetValues_def lib_ok_at_put elim!: rbind_eq_InrE split: group.splits)
  assume "PWR_GrpAttrSetValue look g a c st lb = Inr (w, lb')" and ok: "lib_ok cf r lb"
  then show "lib_ok cf r lb'"
    unfolding PWR_GrpAttrSetValue_def by (auto elim!: rbind_eq_InrE split: group.splits intro: set)
qed

lemma lib_ok_step: "lib_step lb lb' \<Longrightarrow> lib_ok cf r lb \<Longrightarrow> lib_ok cf r lb'"
proof (induction rule: lib_step.induct)
  case (lib_obj k x lb q lb')
  then show ?case by (auto simp: PWR_CntxtGetObjByName_def elim!: rbind_eq_InrE dest!: lookup_ok_find)
next
  case (lib_parent k x out lb q lb')
  then show ?case by (auto simp: PWR_ObjGetParent_def elim!: rbind_eq_InrE dest!: lookup_ok_parent)
next
  case (lib_create lb q lb')
  then show ?case by (auto simp: PWR_GrpCreate_def Let_def split: prod.splits dest: lib_ok_new)
next
  case (lib_destroy g lb rc lb')
  then show ?case by (auto simp: PWR_GrpDestroy_def destroyGrp_def lib_ok_def elim!: rbind_eq_InrE split: if_splits)
next
  case (lib_add g x lb rc lb')
  then show ?case by (auto simp: PWR_GrpAddObj_def elim!: rbind_eq_InrE intro: lib_ok_at_put)
next
  case (lib_remove g x lb rc lb')
  then show ?case by (auto simp: PWR_GrpRemoveObj_def elim!: rbind_eq_InrE split: prod.splits intro: lib_ok_at_put)
next
  case (lib_get look x as buf ts st lb v lb')
  then show ?case by (auto simp: PWR_ObjAttrGetValues_def elim!: rbind_eq_InrE)
next
  case (lib_set look x as buf st lb w lb')
  then show ?case by (auto simp: PWR_ObjAttrSetValues_def elim!: rbind_eq_InrE)
next
  case (lib_get1 look x a c t lb v1 lb')
  then show ?case by (auto simp: PWR_ObjAttrGetValue_def elim!: rbind_eq_InrE)
next
  case (lib_start look x a lb rc lb')
  then show ?case by (auto simp: PWR_ObjAttrStartLog_def elim!: rbind_eq_InrE)
next
  case (lib_stop look x a lb rc lb')
  then show ?case by (auto simp: PWR_ObjAttrStopLog_def elim!: rbind_eq_InrE)
next
  case (lib_samples x a start period cnt buf lb v2 lb')
  then show ?case by (auto simp: PWR_ObjAttrGetSamples_def elim!: rbind_eq_InrE)
qed (blast intro: lib_ok_children lib_ok_byType lib_ok_values)+

lemma lib_ok_reachable: "lib_step\<^sup>*\<^sup>* lb lb' \<Longrightarrow> lib_ok cf r lb \<Longrightarrow> lib_ok cf r lb'"
  by (induction rule: rtranclp_induct) (auto intro: lib_ok_step)

lemma empty_cx_typed: "typed_objects cf rt (((empty_cx cf [])\<lparr>pluginLibMap := m\<rparr>)\<lparr>rootName := rt\<rparr>)"
  by (simp add: typed_objects_def cx_shape_def empty_cx_def cx_ok_def)

text \<open>A context that was made well has that shape.\<close>

lemma load_plugins_only: "initPlugins loader osn cx = Inr cx' \<Longrightarrow> cx' = cx\<lparr>pluginLibMap := pluginLibMap cx'\<rparr>"
  by (auto simp: initPlugins_def elim!: rbind_eq_InrE)

lemma PWR_CntxtInit_ok:
  assumes "PWR_CntxtInit k pf role name s = Inr (rc, Some lb)"
  shows "\<exists>cf rt. getenv2 (pf_env pf) name ''POWERAPI_ROOT'' = Some rt \<and> lib_ok cf rt lb \<and> rc = RET_SUCCESS \<and>
    role \<noteq> -1 \<and> role \<noteq> -2 \<and> (\<exists>ob. objMap (lb_cx lb) rt = Some ob) \<and>
    (\<exists>file rd. getenv2 (pf_env pf) name ''POWERAPI_CONFIG'' = Some file \<and>
       config_reader (pf_python pf) (pf_hwloc pf) file = Inr rd \<and> pf_read pf rd file = Inr cf)"
proof -
  obtain cs ec where d: "DistCntxt_new k pf name s = Inr (Some (cs, ec))" and lb: "lb = new_lib cs (ec \<noteq> None)"
    and rc: "rc = RET_SUCCESS" "role \<noteq> -1" "role \<noteq> -2"
    using assms by (auto simp: PWR_CntxtInit_def elim!: rbind_eq_InrE split: if_splits option.splits)
  obtain fl rd cf cx rt ob where
    f: "getenv2 (pf_env pf) name ''POWERAPI_CONFIG'' = Some fl" "config_reader (pf_python pf) (pf_hwloc pf) fl = Inr rd"
      "pf_read pf rd fl = Inr cf" and p: "initPlugins (pf_loader pf) (pf_sysname pf) (empty_cx cf []) = Inr cx"
    and r: "getenv2 (pf_env pf) name ''POWERAPI_ROOT'' = Some rt"
    and o: "findObject k rt (cx\<lparr>rootName := rt\<rparr>, s) = Inr (Some ob, cs)"
    using d by (auto simp: DistCntxt_new_def elim!: rbind_eq_InrE split: option.splits if_splits)
  have "typed_objects cf rt (cx\<lparr>rootName := rt\<rparr>)" by (subst load_plugins_only [OF p]) (rule empty_cx_typed)
  then have "typed_objects cf rt (fst cs)" using typed.kept_findObject [OF o] by simp
  moreover have "\<exists>ob. objMap (fst cs) rt = Some ob"
    using o by (auto simp: findObject_def elim!: rbind_eq_InrE split: option.splits)
  ultimately show ?thesis using f r rc by (auto simp: lb new_lib_def lib_ok_def)
qed

lemma close_order_mset: "mset (close_order ptr ds) = mset ds"
  by (simp add: close_order_def)

lemma set_close_order [simp]: "set (close_order ptr ds) = set ds"
  by (simp add: close_order_def)

lemma distinct_close_order: "distinct (map fst ds) \<Longrightarrow> distinct (map fst (close_order ptr ds))"
  using close_order_mset [of ptr ds] by (metis image_mset_union mset_map mset_eq_imp_distinct_iff)

lemma set_final_order: "dom (devMap cx) \<subseteq> fst ` set (findSysDevs (cfg cx)) \<Longrightarrow> set (final_order cx) = dom (devMap cx)"
  by (auto simp: final_order_def)

lemma distinct_final_order: "distinct (final_order cx)"
  by (simp add: final_order_def)

text \<open>
  C9.  From its making to its end a context does this: it is made only for a role that is given, with the
  configuration and the root that the environment names, the name of the context before the plain variable; whatever calls
  follow, the root stays its entry point and no group is ever found by a name, which is reported as success with a null
  group; and when it is taken down every device it opened is closed exactly once, before every plugin device it initialised,
  and no other, is finished exactly once, so that no device is closed after its plugin is finished.
\<close>

theorem context_life:
  assumes "PWR_CntxtInit k pf role name s = Inr (rc, Some lb0)" and "lib_step\<^sup>*\<^sup>* lb0 lb"
  shows "\<exists>r. getenv2 (pf_env pf) name ''POWERAPI_ROOT'' = Some r \<and> role \<noteq> -1 \<and> role \<noteq> -2 \<and> rc = RET_SUCCESS \<and>
    PWR_CntxtGetEntryPoint lb = (RET_SUCCESS, r) \<and>
    (\<forall>x. PWR_CntxtGetGrpByName x lb = (RET_SUCCESS, None)) \<and>
    (\<forall>ptr cl fin. \<exists>cs fs.
       PWR_CntxtDestroy ptr cl fin lb =
         rbind (run_all (\<lambda>x. cl (snd x)) cs (lb_st lb)) (\<lambda>s1.
         rbind (run_all (final_dev fin (lb_cx lb)) fs s1) (\<lambda>s2. Inr (RET_SUCCESS, s2))) \<and>
       mset cs = mset (deviceMap (lb_cx lb)) \<and> distinct (map fst cs) \<and> distinct fs \<and> set fs = dom (devMap (lb_cx lb)) \<and>
       (\<forall>((ops, str), d)\<in>set cs. \<exists>n\<in>set fs. \<exists>p. devMap (lb_cx lb) n = Some (p, ops)))"
proof -
  obtain cf r where i: "getenv2 (pf_env pf) name ''POWERAPI_ROOT'' = Some r" "lib_ok cf r lb0" "rc = RET_SUCCESS"
    "role \<noteq> -1" "role \<noteq> -2" using PWR_CntxtInit_ok [OF assms(1)] by blast
  have ok: "lib_ok cf r lb" using lib_ok_reachable [OF assms(2) i(2)] .
  then have sh: "cx_shape cf r (lb_cx lb)" by (simp add: lib_ok_def typed_objects_def)
  have fs: "set (final_order (lb_cx lb)) = dom (devMap (lb_cx lb))"
    using sh by (intro set_final_order) (simp add: cx_shape_def)
  have cs: "\<forall>((ops, str), d)\<in>set (close_order ptr (deviceMap (lb_cx lb))). \<exists>n\<in>set (final_order (lb_cx lb)). \<exists>p. devMap (lb_cx lb) n = Some (p, ops)" for ptr
    using sh unfolding fs by (fastforce simp: cx_shape_def)
  have "distinct (map fst (close_order ptr (deviceMap (lb_cx lb))))" for ptr
    using sh by (intro distinct_close_order) (simp add: cx_shape_def cx_ok_def)
  then have "\<exists>cs fs. PWR_CntxtDestroy ptr cl fin lb =
         rbind (run_all (\<lambda>x. cl (snd x)) cs (lb_st lb)) (\<lambda>s1.
         rbind (run_all (final_dev fin (lb_cx lb)) fs s1) (\<lambda>s2. Inr (RET_SUCCESS, s2))) \<and>
       mset cs = mset (deviceMap (lb_cx lb)) \<and> distinct (map fst cs) \<and> distinct fs \<and> set fs = dom (devMap (lb_cx lb)) \<and>
       (\<forall>((ops, str), d)\<in>set cs. \<exists>n\<in>set fs. \<exists>p. devMap (lb_cx lb) n = Some (p, ops))" for ptr cl fin
    using cs [of ptr] fs close_order_mset [of ptr] distinct_final_order
    by (intro exI [of _ "close_order ptr (deviceMap (lb_cx lb))"] exI [of _ "final_order (lb_cx lb)"] conjI)
       (simp_all only: PWR_CntxtDestroy_def)
  then show ?thesis
    using i ok by (auto simp: PWR_CntxtGetEntryPoint_def PWR_CntxtGetGrpByName_def lib_ok_def typed_objects_def cx_shape_def)
qed

text \<open>
  The group of the children of an object belongs to the object, but a caller can destroy it like any other, with
  success; the object goes on giving out its address, with success, and every use of it reads memory that was freed.
\<close>

theorem children_destroyed_dangles:
  assumes "lib_children k x lb = Inr ((rc, g), lb1)" and "PWR_GrpDestroy g lb1 = Inr (rc', lb2)"
  shows "rc' = RET_SUCCESS \<and> lib_children k x lb2 = Inr ((RET_SUCCESS, g), lb2) \<and>
    PWR_GrpGetNumObjs g lb2 = Inl MemoryFault \<and> PWR_GrpDestroy g lb2 = Inl MemoryFault \<and>
    PWR_GrpAddObj g y lb2 = Inl MemoryFault \<and> PWR_GrpAttrGetValue look g a buf ts st lb2 = Inl MemoryFault"
proof -
  have "lb_kids lb1 x = Some g"
    using assms(1) by (auto simp: lib_children_def Let_def elim!: rbind_eq_InrE split: option.splits prod.splits)
  then have "lb_kids lb2 x = Some g" and "lb_grps lb2 g = None" and "rc' = RET_SUCCESS"
    using assms(2) by (auto simp: PWR_GrpDestroy_def destroyGrp_def elim!: rbind_eq_InrE)
  then show ?thesis
    by (simp add: lib_children_def PWR_GrpGetNumObjs_def PWR_GrpDestroy_def PWR_GrpAddObj_def PWR_GrpAttrGetValue_def
        PWR_GrpAttrGetValues_def grp_at_def)
qed

subsection \<open>The group of a type\<close>

text \<open>
  The objects of a type that no other object of the type is above, in the order of the configuration.
\<close>

fun top_of :: "nat \<Rightarrow> config \<Rightarrow> obj_type \<Rightarrow> string \<Rightarrow> string list" where
  "top_of 0 cf t x = []"
| "top_of (Suc n) cf t x =
     (if objType cf x = Some t then [x] else concat (map (top_of n cf t) (findChildren cf x)))"

definition dist_in_all :: "grp \<Rightarrow> bool" where
  "dist_in_all g \<longleftrightarrow> (\<forall>y\<in>set (g_dist g). y \<in> set (g_all g))"

lemma grp_add_new:
  assumes "grp_add obj g x = Inr (rc, g')" and "dist_in_all g" and "x \<notin> set (g_all g)"
  shows "g_all g' = g_all g @ [x] \<and> dist_in_all g'"
  using assms by (auto simp: grp_add_def dist_in_all_def elim!: rbind_eq_InrE split: if_splits)

lemma findAll_spec:
  "findAllObjType n k t name (g, (cx, s)) = Inr (g', (cx', s')) \<Longrightarrow> typed_objects cf r cx \<Longrightarrow> dist_in_all g \<Longrightarrow>
   distinct (g_all g @ top_of n cf t name) \<Longrightarrow>
   g_all g' = g_all g @ top_of n cf t name \<and> dist_in_all g' \<and> typed_objects cf r cx'"
proof (induction n arbitrary: name g cx s g' cx' s')
  case (Suc n)
  obtain ob cx1 s1 where m: "mustFind k name (cx, s) = Inr (ob, (cx1, s1))"
    and q: "(if o_type ob = t then rbind (grp_add (obj_of cx1) g name) (\<lambda>(_, g'). Inr (g', (cx1, s1)))
      else run_all (findAllObjType n k t) (findChildren (cfg cx1) name) (g, (cx1, s1))) = Inr (g', (cx', s'))"
    using Suc.prems(1) by (auto elim!: rbind_eq_InrE cong: if_cong)
  have o: "typed_objects cf r cx1" "objType cf name = Some (o_type ob)"
    using mustFind_typed [OF m Suc.prems(2)] by simp_all
  have l: "run_all (findAllObjType n k t) xs (h, (cx1, s1)) = Inr (g', (cx', s')) \<Longrightarrow> typed_objects cf r cx1 \<Longrightarrow> dist_in_all h \<Longrightarrow>
    distinct (g_all h @ concat (map (top_of n cf t) xs)) \<Longrightarrow>
    g_all g' = g_all h @ concat (map (top_of n cf t) xs) \<and> dist_in_all g' \<and> typed_objects cf r cx'" for xs h cx1 s1
  proof (induction xs arbitrary: h cx1 s1)
    case (Cons x xs)
    obtain h1 cx2 s2 where a: "findAllObjType n k t x (h, (cx1, s1)) = Inr (h1, (cx2, s2))"
      and b: "run_all (findAllObjType n k t) xs (h1, (cx2, s2)) = Inr (g', (cx', s'))"
      using Cons.prems(1) by (auto elim!: rbind_eq_InrE)
    have "g_all h1 = g_all h @ top_of n cf t x" "dist_in_all h1" "typed_objects cf r cx2"
      using Suc.IH [OF a Cons.prems(2,3)] Cons.prems(4) by auto
    with Cons.IH [OF b] Cons.prems(4) show ?case by auto
  qed simp
  show ?case
  proof (cases "o_type ob = t")
    case True
    then obtain rc where "grp_add (obj_of cx1) g name = Inr (rc, g')" "cx' = cx1"
      using q by (auto elim!: rbind_eq_InrE)
    then show ?thesis using grp_add_new [of "obj_of cx1" g name rc g'] Suc.prems(3,4) o True by simp
  next
    case False
    have "cfg cx1 = cf" using o(1) by (simp add: typed_objects_def cx_shape_def)
    then show ?thesis using q l [of "findChildren cf name" g cx1 s1] Suc.prems(3,4) o False by simp
  qed
qed simp

text \<open>
  C10.  In a configuration that is a tree, the group of a type has exactly the objects of the type that have no other
  object of the type above them below the root, in the order of the configuration, local and remote ones alike: its size is
  their number and its \<open>i\<close>-th object the \<open>i\<close>-th of them.  When there are none the call fails and there is no group; the
  group is a new one at every call, and what groups there were is unchanged.
\<close>

theorem group_by_type:
  assumes "PWR_CntxtGetGrpByType n k t lb = Inr ((rc, gr), lb')" and "lib_ok cf r lb"
    and "distinct (top_of n cf t r)"
  shows "(\<forall>g. lb_grps lb g \<noteq> None \<longrightarrow> lb_grps lb' g = lb_grps lb g) \<and>
    (if top_of n cf t r = [] then rc = RET_FAILURE \<and> gr = None
     else rc = RET_SUCCESS \<and> (\<exists>g. gr = Some g \<and> lb_grps lb g = None \<and>
       PWR_GrpGetNumObjs g lb' = Inr (int (length (top_of n cf t r))) \<and>
       (\<forall>i. int i < 2 ^ 31 \<longrightarrow> PWR_GrpGetObjByIndx g (int i) lb' =
          (if i < length (top_of n cf t r) then Inr (RET_SUCCESS, top_of n cf t r ! i) else Inl MemoryFault))))"
proof -
  obtain cx s where c: "lb_cx lb = cx" "lb_st lb = s" by blast
  have "lb_groupMap lb (''internal'' @ objTypeToString t) = None" using assms(2) by (simp add: lib_ok_def)
  then obtain g0 cx1 s1 where f: "findAllObjType n k t (rootName cx) (empty_grp, (cx, s)) = Inr (g0, (cx1, s1))"
    and l: "(rc, gr) = (if grp_size g0 = 0 then (RET_FAILURE, None) else (RET_SUCCESS, Some (lb_next lb)))"
      "lb' = (if grp_size g0 = 0 then lb\<lparr>lb_cx := cx1, lb_st := s1\<rparr>
              else snd (new_grp (DistGroup g0) (lb\<lparr>lb_cx := cx1, lb_st := s1\<rparr>)))"
    using assms(1) c
    by (auto simp: PWR_CntxtGetGrpByType_def getGrp_new_def getGrp_def createGrp_def on_cx_def new_grp_def Let_def
        elim!: rbind_eq_InrE split: if_splits)
  have "rootName cx = r" using assms(2) c by (simp add: lib_ok_def typed_objects_def cx_shape_def)
  then have a: "g_all g0 = top_of n cf t r"
    using findAll_spec [OF f, of cf r] assms(2,3) c by (simp add: empty_grp_def dist_in_all_def lib_ok_def)
  have u: "unat (word_of_int (int i) :: 32 word) = i" if "int i < 2 ^ 31" for i
    using that by (simp add: unat_of_nat take_bit_eq_mod)
  have "lb_grps lb (lb_next lb) = None"
    using assms(2) by (cases "lb_grps lb (lb_next lb)") (auto simp: lib_ok_def)
  then show ?thesis
    using l u unfolding grp_size_def a
    by (auto simp: new_grp_def put_grp_def PWR_GrpGetNumObjs_def PWR_GrpGetObjByIndx_def grp_at_def group_size_def
        group_getObj_def grp_size_def grp_getObj_def arr_get_def a)
qed

subsection \<open>Witnesses\<close>

text \<open>The surroundings in which the small tree is the configuration, with a core as the root.\<close>

definition tree_env :: "string \<Rightarrow> string option" where
  "tree_env = [''POWERAPI_CONFIG'' \<mapsto> ''a.b/tree.xml'', ''ctxPOWERAPI_ROOT'' \<mapsto> ''c0'', ''POWERAPI_ROOT'' \<mapsto> ''n'']"

definition tree_platform :: "(unit, dummy_fd list \<times> os) platform" where
  "tree_platform = \<lparr>pf_env = tree_env, pf_python = True, pf_hwloc = True, pf_read = (\<lambda>rd fl. Inr tree_config),
     pf_loader = (\<lambda>lib tab. Some dummy_plugin), pf_sysname = ''Linux''\<rparr>"

lemma tree_init:
  "\<exists>lb. PWR_CntxtInit 3 tree_platform 0 ''ctx'' ([], du_demo_os) = Inr (RET_SUCCESS, Some lb)"
proof -
  obtain ob cx s where f: "findObject 3 ''c0'' (tree_cx\<lparr>rootName := ''c0''\<rparr>, ([], du_demo_os)) = Inr (Some ob, (cx, s))"
    using tree_findObject_root by blast
  have l: "initPlugins (pf_loader tree_platform) (pf_sysname tree_platform) (empty_cx tree_config []) =
      Inr (tree_cx\<lparr>rootName := []\<rparr>)"
    by (simp add: initPlugins_def tree_platform_def empty_cx_def tree_cx_def tree_config_def)
  have r: "config_reader True True ''a.b/tree.xml'' = Inr Xml_Reader" by (simp add: config_reader_def find_last_of_def)
  have "DistCntxt_new 3 tree_platform ''ctx'' ([], du_demo_os) = Inr (Some ((cx, s), None))"
    unfolding DistCntxt_new_def
    using l r f by (simp add: initEventChannel_def getenv2_def tree_platform_def tree_env_def)
  then show ?thesis by (simp add: PWR_CntxtInit_def)
qed

theorem context_life_witness:
  "\<exists>lb0 lb. PWR_CntxtInit 3 tree_platform 0 ''ctx'' ([], du_demo_os) = Inr (RET_SUCCESS, Some lb0) \<and> lib_step lb0 lb \<and>
     PWR_CntxtGetEntryPoint lb = (RET_SUCCESS, ''c0'') \<and> PWR_CntxtGetGrpByName ''any'' lb = (RET_SUCCESS, None)"
proof -
  obtain lb0 where i: "PWR_CntxtInit 3 tree_platform 0 ''ctx'' ([], du_demo_os) = Inr (RET_SUCCESS, Some lb0)"
    using tree_init by blast
  obtain g lb where c: "PWR_GrpCreate lb0 = (g, lb)" by (cases "PWR_GrpCreate lb0")
  have st: "lib_step lb0 lb" using c by (rule lib_create)
  have r: "getenv2 (pf_env tree_platform) ''ctx'' ''POWERAPI_ROOT'' = Some ''c0''"
    by (simp add: getenv2_def tree_platform_def tree_env_def)
  show ?thesis using context_life [OF i r_into_rtranclp [of lib_step, OF st]] i st r by auto
qed

text \<open>The same tree with no attributes at all, so that no device is opened.\<close>

definition bare_lib :: "(unit, unit) lib" where
  "bare_lib = new_lib ((empty_cx (tree_config\<lparr>findAttrOp := \<lambda>_ _. []\<rparr>) ''n''), ()) False"

text \<open>Creating an object of a configuration that gives no attribute an operation.\<close>

lemma plain_create:
  fixes cs :: "('o, 's) cx"
  assumes "\<And>n a. findAttrOp (cfg (fst cs)) n a = []"
  shows "createObject k name t cs = Inr (\<lparr>o_name = name, o_type = t, attrInfo = no_info\<rparr>, cs)"
proof -
  have "init_attrs k name all_attrs no_info cs = Inr (no_info, cs)"
    by (subst init_attrs_skip) (auto simp: assms)
  moreover have "distObject_comm (\<lparr>o_name = name, o_type = t, attrInfo = no_info\<rparr> :: 's object) = Inr None"
    by (simp add: distObject_comm_iff no_info_def)
  ultimately show ?thesis by (simp add: createObject_def)
qed

lemma bare_local: "isLocal \<lparr>o_name = name, o_type = t, attrInfo = no_info\<rparr> = Inr True"
  by (simp add: isLocal_iff no_info_def)

lemma bare_ok: "lib_ok (tree_config\<lparr>findAttrOp := \<lambda>_ _. []\<rparr>) ''n'' bare_lib"
  by (simp add: lib_ok_def bare_lib_def new_lib_def typed_objects_def cx_shape_def empty_cx_def cx_ok_def)

theorem children_destroyed_dangles_witness:
  "\<exists>lb1 lb2. lib_children 1 ''n'' bare_lib = Inr ((RET_SUCCESS, 0), lb1) \<and> PWR_GrpGetNumObjs 0 lb1 = Inr 2 \<and>
     PWR_GrpDestroy 0 lb1 = Inr (RET_SUCCESS, lb2) \<and> lib_children 1 ''n'' lb2 = Inr ((RET_SUCCESS, 0), lb2) \<and>
     PWR_GrpGetNumObjs 0 lb2 = Inl MemoryFault"
proof -
  let ?cf = "tree_config\<lparr>findAttrOp := \<lambda>_ _. []\<rparr>"
  have c: "cfg (lb_cx bare_lib) = ?cf" "objMap (lb_cx bare_lib) = Map.empty" "lb_next bare_lib = 0" "lb_kids bare_lib = Map.empty"
    by (simp_all add: bare_lib_def new_lib_def empty_cx_def)
  have "findChildren ?cf ''n'' = [''c0'', ''c1'']" "objType ?cf ''c0'' = Some OBJ_CORE" "objType ?cf ''c1'' = Some OBJ_CORE"
    by (simp_all add: tree_config_def)
  then have "\<exists>cs. getChildren 1 ''n'' (lb_cx bare_lib, lb_st bare_lib) = Inr ([''c0'', ''c1''], cs)"
    by (simp add: getChildren_def c addChildBase_def mustFind_def findObject_def plain_create base_add_def)
  then obtain cx s where g: "getChildren 1 ''n'' (lb_cx bare_lib, lb_st bare_lib) = Inr ([''c0'', ''c1''], (cx, s))"
    by auto
  have "\<exists>lb1. lib_children 1 ''n'' bare_lib = Inr ((RET_SUCCESS, 0), lb1) \<and> PWR_GrpGetNumObjs 0 lb1 = Inr 2 \<and>
     (\<exists>lb2. PWR_GrpDestroy 0 lb1 = Inr (RET_SUCCESS, lb2))"
    using c(3,4) g [simplified] by (simp add: lib_children_def on_cx_def new_grp_def put_grp_def PWR_GrpGetNumObjs_def PWR_GrpDestroy_def grp_at_def
        group_size_def destroyGrp_def Let_def)
  then obtain lb1 lb2 where c: "lib_children 1 ''n'' bare_lib = Inr ((RET_SUCCESS, 0), lb1)" "PWR_GrpGetNumObjs 0 lb1 = Inr 2"
    and d: "PWR_GrpDestroy 0 lb1 = Inr (RET_SUCCESS, lb2)" by blast
  show ?thesis using children_destroyed_dangles [OF c(1) d] c d by blast
qed

theorem group_by_type_witness:
  "\<exists>lb. PWR_CntxtGetGrpByType 2 1 OBJ_CORE bare_lib = Inr ((RET_SUCCESS, Some 0), lb) \<and> PWR_GrpGetNumObjs 0 lb = Inr 2 \<and>
     PWR_GrpGetObjByIndx 0 1 lb = Inr (RET_SUCCESS, ''c1'') \<and> PWR_GrpGetObjByIndx 0 2 lb = Inl MemoryFault"
proof -
  have t: "top_of 2 (tree_config\<lparr>findAttrOp := \<lambda>_ _. []\<rparr>) OBJ_CORE ''n'' = [''c0'', ''c1'']"
    by (simp add: numeral_2_eq_2) (simp add: tree_config_def)
  let ?cf = "tree_config\<lparr>findAttrOp := \<lambda>_ _. []\<rparr>"
  have b: "cfg (lb_cx bare_lib) = ?cf" "objMap (lb_cx bare_lib) = Map.empty" "lb_next bare_lib = 0" "lb_groupMap bare_lib = Map.empty"
    "rootName (lb_cx bare_lib) = ''n''"
    by (simp_all add: bare_lib_def new_lib_def empty_cx_def)
  have "findChildren ?cf ''n'' = [''c0'', ''c1'']" "objType ?cf ''c0'' = Some OBJ_CORE" "objType ?cf ''c1'' = Some OBJ_CORE"
    "objType ?cf ''n'' = Some OBJ_NODE"
    by (simp_all add: tree_config_def)
  then have "\<exists>d cs. getGrp 2 1 OBJ_CORE (lb_cx bare_lib, lb_st bare_lib) = Inr (Some d, cs)"
    by (simp add: getGrp_def createGrp_def b numeral_2_eq_2 mustFind_def findObject_def plain_create grp_add_def bare_local
        grp_size_def obj_of_def empty_grp_def)
  then obtain d cx s where g: "getGrp 2 1 OBJ_CORE (lb_cx bare_lib, lb_st bare_lib) = Inr (Some d, (cx, s))"
    by auto
  then have "\<exists>gr lb. PWR_CntxtGetGrpByType 2 1 OBJ_CORE bare_lib = Inr (gr, lb) \<and> snd gr = Some 0"
    by (simp add: PWR_CntxtGetGrpByType_def getGrp_new_def on_cx_def b new_grp_def put_grp_def Let_def)
  then obtain rc lb where c: "PWR_CntxtGetGrpByType 2 1 OBJ_CORE bare_lib = Inr ((rc, Some 0), lb)" by (metis prod.collapse)
  have "distinct (top_of 2 (tree_config\<lparr>findAttrOp := \<lambda>_ _. []\<rparr>) OBJ_CORE ''n'')" by (simp add: t)
  from group_by_type [OF c bare_ok this, unfolded t]
  have r: "rc = RET_SUCCESS" "PWR_GrpGetNumObjs 0 lb = Inr 2"
    "\<forall>i. int i < 2 ^ 31 \<longrightarrow> PWR_GrpGetObjByIndx 0 (int i) lb =
       (if i < 2 then Inr (RET_SUCCESS, [''c0'', ''c1''] ! i) else Inl MemoryFault)" by simp_all
  show ?thesis using c r(1,2) r(3) [rule_format, of 1] r(3) [rule_format, of 2] by simp
qed

end
