(* ===== verification/Daemon_Launch.thy ===== *)
theory Daemon_Launch imports Daemon_Config Pwr_Api begin

text \<open>
  Starting the daemon (\<^verbatim>\<open>tools/pwrdaemon/pwrdaemon.cc\<close>): sharing the command line out between the router, the servers and
  the logger, and starting each of them in a thread of its own, one after the other.  Then a server's own start and its loop
  (\<^verbatim>\<open>tools/pwrdaemon/server/server.cc\<close>).
\<close>

subsection \<open>Sharing out the command line\<close>

definition arg_prefix :: "string \<Rightarrow> string" where
  "arg_prefix name = ''--'' @ name @ ''.''"

text \<open>
  \<^verbatim>\<open>findArgs\<close>: an argument of the form \<^verbatim>\<open>--name.option\<close> becomes the option \<^verbatim>\<open>--option\<close> of \<open>name\<close>, and the
  characters of \<^verbatim>\<open>--name.\<close> are overwritten in place.  The options are pointers into these arguments.
\<close>

definition find_opt :: "string \<Rightarrow> string \<Rightarrow> string" where
  "find_opt name a = ''--'' @ drop (length (arg_prefix name)) a"

definition hide_arg :: "string \<Rightarrow> string \<Rightarrow> string" where
  "hide_arg name a =
     (if prefix (arg_prefix name) a
      then replicate (length (arg_prefix name)) CHR ''-'' @ drop (length (arg_prefix name)) a else a)"

definition findArgs :: "string \<Rightarrow> string list \<Rightarrow> string list \<times> string list" where
  "findArgs name argv = (map (find_opt name) (filter (prefix (arg_prefix name)) argv), map (hide_arg name) argv)"

datatype component = Rtr "string list" | Srvr "string list" | Lgr "string list"

text \<open>
  The loop that looks for servers: they are called \<^verbatim>\<open>srvr\<close>, \<^verbatim>\<open>srvr0\<close>, \<^verbatim>\<open>srvr1\<close> and so on, and the first that
  has no option ends it.  Every turn but the last hides an argument, so the loop ends.
\<close>

definition server_name :: "nat \<Rightarrow> string" where
  "server_name k = ''srvr'' @ (case k of 0 \<Rightarrow> [] | Suc i \<Rightarrow> show_nat i)"

definition shown :: "string list \<Rightarrow> nat" where
  "shown argv = length (filter (prefix ''--s'') argv)"

lemma hide_not_shown: "prefix (arg_prefix name) a \<Longrightarrow> name \<noteq> [] \<Longrightarrow> \<not> prefix ''--s'' (hide_arg name a)"
proof -
  assume p: "prefix (arg_prefix name) a" and "name \<noteq> []"
  then obtain k where "length (arg_prefix name) = Suc (Suc (Suc k))" by (cases name) (simp_all add: arg_prefix_def)
  then show ?thesis using p by (simp add: hide_arg_def)
qed

lemma hide_shown_le: "shown (snd (findArgs name argv)) \<le> shown argv" if "name \<noteq> []"
proof -
  have "prefix ''--s'' (hide_arg name a) \<Longrightarrow> prefix ''--s'' a" for a
    using that hide_not_shown [of name a] by (cases "prefix (arg_prefix name) a") (auto simp: hide_arg_def)
  then show ?thesis by (induction argv) (auto simp: shown_def findArgs_def)
qed

lemma server_name_nonempty [simp]: "server_name k \<noteq> []" by (simp add: server_name_def)

lemma findArgs_shown:
  assumes "fst (findArgs (server_name k) argv) \<noteq> []"
  shows "shown (snd (findArgs (server_name k) argv)) < shown argv"
  using assms
proof (induction argv)
  case (Cons a argv)
  have s: "prefix (arg_prefix (server_name k)) a \<Longrightarrow> prefix ''--s'' a"
    by (auto simp: arg_prefix_def server_name_def prefix_def)
  show ?case
  proof (cases "prefix (arg_prefix (server_name k)) a")
    case True
    then show ?thesis using hide_shown_le [of "server_name k" argv] s hide_not_shown [OF True]
      by (simp add: shown_def findArgs_def)
  next
    case False
    then show ?thesis using Cons by (auto simp: shown_def findArgs_def hide_arg_def)
  qed
qed (simp add: findArgs_def)

function find_servers :: "nat \<Rightarrow> string list \<Rightarrow> string list list \<times> string list" where
  "find_servers k argv =
     (if fst (findArgs (server_name k) argv) = [] then ([], snd (findArgs (server_name k) argv))
      else map_prod (Cons (fst (findArgs (server_name k) argv))) id (find_servers (Suc k) (snd (findArgs (server_name k) argv))))"
  by pat_completeness auto
termination
  by (relation "measure (\<lambda>(k, argv). shown argv)") (simp_all add: findArgs_shown)

declare find_servers.simps [simp del]

text \<open>The components \<^verbatim>\<open>main\<close> starts, in its order.\<close>

definition components :: "string list \<Rightarrow> component list" where
  "components argv =
     (let (ro, a1) = findArgs ''rtr'' argv; (ss, a2) = find_servers 0 a1; (lo, a3) = findArgs ''lgr'' a2
      in (if ro = [] then [] else [Rtr ro]) @ map Srvr ss @ (if lo = [] then [] else [Lgr lo]))"

text \<open>
  A name has no dot and does not begin with a dash, so that no argument belongs to two components and a hidden argument
  belongs to none: what a component gets does not depend on who was served before.
\<close>

definition comp_name :: "string \<Rightarrow> bool" where
  "comp_name n \<longleftrightarrow> n \<noteq> [] \<and> hd n \<noteq> CHR ''-'' \<and> CHR ''.'' \<notin> set n"

definition opts_of :: "string \<Rightarrow> string list \<Rightarrow> string list" where
  "opts_of name argv = map (find_opt name) (filter (prefix (arg_prefix name)) argv)"

lemma show_nat_no_dot [simp]: "CHR ''.'' \<notin> set (show_nat n)"
  using show_nat_digits [of n] by (auto simp: is_digit_def char_code_def)

lemma comp_names [simp]: "comp_name ''rtr''" "comp_name ''lgr''" "comp_name (server_name k)"
  by (auto simp: comp_name_def server_name_def split: nat.split)

lemma other_names: "server_name k \<noteq> ''lgr''" "''rtr'' \<noteq> server_name k" "''rtr'' \<noteq> ''lgr''"
  by (simp_all add: server_name_def)

lemma dot_split:
  assumes "CHR ''.'' \<notin> set n" and "CHR ''.'' \<notin> set m" and "n @ CHR ''.'' # x = m @ CHR ''.'' # y"
  shows "n = m"
proof -
  have "takeWhile (\<lambda>c. c \<noteq> CHR ''.'') (n @ CHR ''.'' # x) = n" "takeWhile (\<lambda>c. c \<noteq> CHR ''.'') (m @ CHR ''.'' # y) = m"
    using assms(1,2) by (auto simp: takeWhile_append)
  then show ?thesis using assms(3) by simp
qed

lemma prefix_unique:
  "comp_name n \<Longrightarrow> comp_name m \<Longrightarrow> prefix (arg_prefix n) a \<Longrightarrow> prefix (arg_prefix m) a \<Longrightarrow> n = m"
  by (auto simp: prefix_def arg_prefix_def comp_name_def intro: dot_split)

lemma hidden_not_found:
  assumes "comp_name n" and "comp_name m"
  shows "prefix (arg_prefix m) (hide_arg n a) \<longleftrightarrow> prefix (arg_prefix m) a \<and> \<not> prefix (arg_prefix n) a"
proof (cases "prefix (arg_prefix n) a")
  case True
  obtain c cs where m: "m = c # cs" "c \<noteq> CHR ''-''" using assms(2) by (cases m) (auto simp: comp_name_def)
  obtain k where "length (arg_prefix n) = Suc (Suc (Suc k))" using assms(1) by (cases n) (auto simp: arg_prefix_def comp_name_def)
  then have "\<not> prefix (arg_prefix m) (hide_arg n a)" using True m by (simp add: hide_arg_def arg_prefix_def)
  then show ?thesis using True by simp
qed (simp add: hide_arg_def)

lemma opts_of_hidden:
  "comp_name n \<Longrightarrow> comp_name m \<Longrightarrow> n \<noteq> m \<Longrightarrow> opts_of m (map (hide_arg n) argv) = opts_of m argv"
proof (induction argv)
  case (Cons a argv)
  have "prefix (arg_prefix m) (hide_arg n a) \<longleftrightarrow> prefix (arg_prefix m) a"
    using hidden_not_found [OF Cons.prems(1,2)] prefix_unique [OF Cons.prems(1,2)] Cons.prems(3) by blast
  moreover have "prefix (arg_prefix m) a \<Longrightarrow> hide_arg n a = a"
    using prefix_unique [OF Cons.prems(1,2)] Cons.prems(3) by (auto simp: hide_arg_def)
  ultimately show ?case using Cons by (simp add: opts_of_def)
qed (simp add: opts_of_def)

lemma findArgs_eq: "findArgs n argv = (opts_of n argv, map (hide_arg n) argv)"
  by (simp add: findArgs_def opts_of_def)

text \<open>What the look for servers finds, and that it hides nothing of the others.\<close>

lemma server_name_inj: "server_name j = server_name k \<Longrightarrow> j = k"
proof (cases j; cases k)
  fix a b assume "server_name j = server_name k" "j = Suc a" "k = Suc b"
  then have "read_digits 0 (show_nat a) = read_digits 0 (show_nat b)" by (simp add: server_name_def)
  then show ?thesis using \<open>j = Suc a\<close> \<open>k = Suc b\<close> by simp
qed (auto simp: server_name_def eq_commute [of "[]"])

lemma find_servers_spec:
  assumes "find_servers k argv = (ss, argv')"
  shows "ss = map (\<lambda>j. opts_of (server_name j) argv) [k..<k + length ss] \<and>
    (\<forall>j\<in>{k..<k + length ss}. opts_of (server_name j) argv \<noteq> []) \<and> opts_of (server_name (k + length ss)) argv = [] \<and>
    opts_of ''lgr'' argv' = opts_of ''lgr'' argv"
  using assms
proof (induction k argv arbitrary: ss argv' rule: find_servers.induct)
  case (1 k argv)
  let ?a = "map (hide_arg (server_name k)) argv"
  have l: "opts_of ''lgr'' ?a = opts_of ''lgr'' argv" by (rule opts_of_hidden [OF comp_names(3) comp_names(2) other_names(1)])
  have o: "opts_of (server_name j) ?a = opts_of (server_name j) argv" if "k < j" for j
    using that server_name_inj [of k j] by (intro opts_of_hidden) auto
  show ?case
  proof (cases "opts_of (server_name k) argv = []")
    case True
    then have "ss = []" "argv' = ?a" using "1.prems" by (simp_all add: find_servers.simps [of k argv] findArgs_eq)
    then show ?thesis using True l by simp
  next
    case False
    then obtain ss' where s: "ss = opts_of (server_name k) argv # ss'" and f: "find_servers (Suc k) ?a = (ss', argv')"
      using "1.prems" by (cases "find_servers (Suc k) ?a") (auto simp: find_servers.simps [of k argv] findArgs_eq)
    have i: "ss' = map (\<lambda>j. opts_of (server_name j) ?a) [Suc k..<Suc k + length ss']"
      "\<forall>j\<in>{Suc k..<Suc k + length ss'}. opts_of (server_name j) ?a \<noteq> []" "opts_of (server_name (Suc k + length ss')) ?a = []"
      "opts_of ''lgr'' argv' = opts_of ''lgr'' ?a"
      using "1.IH" [of ss' argv'] False f by (simp_all add: findArgs_eq)
    have "ss' = map (\<lambda>j. opts_of (server_name j) argv) [Suc k..<Suc k + length ss']"
      by (subst i(1)) (intro map_cong refl, simp add: o del: upt_Suc)
    moreover have "\<forall>j\<in>{k..<k + length ss}. opts_of (server_name j) argv \<noteq> []"
    proof
      fix j assume "j \<in> {k..<k + length ss}"
      then show "opts_of (server_name j) argv \<noteq> []"
        using i(2) [rule_format, of j] o [of j] False by (cases "j = k") (simp_all add: s)
    qed
    moreover have "opts_of (server_name (Suc k + length ss')) argv = []" using i(3) o [of "Suc k + length ss'"] by simp
    moreover have "[k..<k + length ss] = k # [Suc k..<Suc k + length ss']" by (simp add: s upt_conv_Cons del: upt_Suc)
    ultimately show ?thesis using i(4) l s by (metis add_Suc_right add_Suc list.simps(9) length_Cons)
  qed
qed

text \<open>
  C24.  The daemon starts a router when it is given options of one, then the servers in the order of their numbers up to
  the first that has no options, then a logger: each gets exactly the arguments that carry its name, in their order and
  without the name, whatever the others were given.  Options of a server behind a gap in the numbers are ignored.
\<close>

theorem daemon_components:
  "\<exists>n. (\<forall>j<n. opts_of (server_name j) argv \<noteq> []) \<and> opts_of (server_name n) argv = [] \<and>
     components argv =
       (if opts_of ''rtr'' argv = [] then [] else [Rtr (opts_of ''rtr'' argv)]) @
       map (\<lambda>j. Srvr (opts_of (server_name j) argv)) [0..<n] @
       (if opts_of ''lgr'' argv = [] then [] else [Lgr (opts_of ''lgr'' argv)])"
proof -
  let ?a = "map (hide_arg ''rtr'') argv"
  obtain ss a2 where f: "find_servers 0 ?a = (ss, a2)" by (cases "find_servers 0 ?a")
  have h: "opts_of (server_name j) ?a = opts_of (server_name j) argv" for j
    by (rule opts_of_hidden [OF comp_names(1) comp_names(3) other_names(2)])
  have l: "opts_of ''lgr'' ?a = opts_of ''lgr'' argv" by (rule opts_of_hidden [OF comp_names(1) comp_names(2) other_names(3)])
  note s = find_servers_spec [OF f]
  then have "map Srvr ss = map (\<lambda>j. Srvr (opts_of (server_name j) argv)) [0..<length ss]"
    by (metis (no_types, lifting) add_0 h map_eq_conv map_map o_apply)
  moreover have "\<forall>j<length ss. opts_of (server_name j) argv \<noteq> []" "opts_of (server_name (length ss)) argv = []"
    using s by (simp_all add: h)
  ultimately show ?thesis
    using s by (intro exI [of _ "length ss"]) (simp add: components_def findArgs_eq f l)
qed

theorem daemon_components_witness:
  "components [''d'', ''--srvr.x=2'', ''--srvr1.y=3'', ''--lgr.z=4''] = [Srvr [''--x=2''], Lgr [''--z=4'']]"
proof -
  let ?a = "[''d'', ''--srvr.x=2'', ''--srvr1.y=3'', ''--lgr.z=4'']"
  have o: "opts_of (server_name 0) ?a = [''--x=2'']" "opts_of (server_name 1) ?a = []" "opts_of ''rtr'' ?a = []" "opts_of ''lgr'' ?a = [''--z=4'']"
    by code_simp+
  obtain n where n: "\<forall>j<n. opts_of (server_name j) ?a \<noteq> []" "opts_of (server_name n) ?a = []"
    and c: "components ?a = (if opts_of ''rtr'' ?a = [] then [] else [Rtr (opts_of ''rtr'' ?a)]) @
       map (\<lambda>j. Srvr (opts_of (server_name j) ?a)) [0..<n] @
       (if opts_of ''lgr'' ?a = [] then [] else [Lgr (opts_of ''lgr'' ?a)])"
    using daemon_components [of ?a] by blast
  have "n = 1"
  proof (rule linorder_cases [of n 1])
    assume "n < 1"
    then show ?thesis using n(2) o(1) by simp
  next
    assume "1 < n"
    then show ?thesis using n(1) o(2) by blast
  qed
  then show ?thesis unfolding c using o by simp
qed

text \<open>The count goes on from the unnumbered server: without one, numbered servers are not started.\<close>

lemma only_numbered_servers:
  "components [''pwrdaemon'', ''--srvr0.rtrPort=1'', ''--lgr.object=plat''] = [Lgr [''--object=plat'']]"
  by (simp add: components_def findArgs_def find_servers.simps [of 0] server_name_def arg_prefix_def find_opt_def hide_arg_def
      replicate_def numeral_eq_Suc)

subsection \<open>Starting the threads\<close>

text \<open>
  \<^verbatim>\<open>main\<close> takes the lock before it creates a thread, and the thread releases it when its constructor has returned; a
  constructor that fails ends the process.  After the last one \<^verbatim>\<open>main\<close> takes the lock once more, tells the parent that the
  daemon is ready, and joins the servers, the last first, and the router.  It does not join the logger.
\<close>

datatype phase = Building | Running | Ended
datatype main_at = Starting | Joining "nat list" | Exited

record launch =
  ln_todo :: "component list"
  ln_held :: bool
  ln_thr :: "(component \<times> phase) list"
  ln_main :: main_at

definition is_srvr :: "component \<Rightarrow> bool" where "is_srvr c = (case c of Srvr _ \<Rightarrow> True | _ \<Rightarrow> False)"
definition is_rtr :: "component \<Rightarrow> bool" where "is_rtr c = (case c of Rtr _ \<Rightarrow> True | _ \<Rightarrow> False)"

definition to_join :: "(component \<times> phase) list \<Rightarrow> nat list" where
  "to_join ts = rev (filter (\<lambda>i. is_srvr (fst (ts ! i))) [0..<length ts]) @ filter (\<lambda>i. is_rtr (fst (ts ! i))) [0..<length ts]"

inductive launch_step :: "launch \<Rightarrow> launch \<Rightarrow> bool" where
  ls_create: "ln_main s = Starting \<Longrightarrow> ln_todo s = c # cs \<Longrightarrow> \<not> ln_held s \<Longrightarrow>
     launch_step s (s\<lparr>ln_todo := cs, ln_held := True, ln_thr := ln_thr s @ [(c, Building)]\<rparr>)"
| ls_built: "i < length (ln_thr s) \<Longrightarrow> ln_thr s ! i = (c, Building) \<Longrightarrow>
     launch_step s (s\<lparr>ln_held := False, ln_thr := (ln_thr s)[i := (c, Running)]\<rparr>)"
| ls_ended: "i < length (ln_thr s) \<Longrightarrow> ln_thr s ! i = (c, Running) \<Longrightarrow>
     launch_step s (s\<lparr>ln_thr := (ln_thr s)[i := (c, Ended)]\<rparr>)"
| ls_ready: "ln_main s = Starting \<Longrightarrow> ln_todo s = [] \<Longrightarrow> \<not> ln_held s \<Longrightarrow>
     launch_step s (s\<lparr>ln_held := True, ln_main := Joining (to_join (ln_thr s))\<rparr>)"
| ls_join: "ln_main s = Joining (i # is) \<Longrightarrow> i < length (ln_thr s) \<Longrightarrow> snd (ln_thr s ! i) = Ended \<Longrightarrow>
     launch_step s (s\<lparr>ln_main := Joining is\<rparr>)"
| ls_exit: "ln_main s = Joining [] \<Longrightarrow> launch_step s (s\<lparr>ln_main := Exited\<rparr>)"

definition launch_init :: "component list \<Rightarrow> launch" where
  "launch_init cs = \<lparr>ln_todo = cs, ln_held = False, ln_thr = [], ln_main = Starting\<rparr>"

text \<open>What every step keeps; \<open>cs\<close> are the components to start.\<close>

definition launch_ok :: "component list \<Rightarrow> launch \<Rightarrow> bool" where
  "launch_ok cs s \<longleftrightarrow>
     map fst (ln_thr s) @ ln_todo s = cs \<and>
     (\<forall>i<length (ln_thr s) - 1. snd (ln_thr s ! i) \<noteq> Building) \<and>
     (ln_thr s \<noteq> [] \<longrightarrow> snd (last (ln_thr s)) = Building \<longrightarrow> ln_held s) \<and>
     (ln_main s = Starting \<longrightarrow> ln_held s \<longrightarrow> ln_thr s \<noteq> [] \<and> snd (last (ln_thr s)) = Building) \<and>
     (ln_main s \<noteq> Starting \<longrightarrow> ln_todo s = [] \<and> (\<forall>x\<in>set (ln_thr s). snd x \<noteq> Building)) \<and>
     (\<forall>i<length (ln_thr s). ln_main s \<noteq> Starting \<longrightarrow> is_srvr (fst (ln_thr s ! i)) \<or> is_rtr (fst (ln_thr s ! i)) \<longrightarrow>
        snd (ln_thr s ! i) = Ended \<or> (\<exists>is. ln_main s = Joining is \<and> i \<in> set is))"

lemma launch_init_ok: "launch_ok cs (launch_init cs)"
  by (simp add: launch_ok_def launch_init_def)

lemma building_last:
  assumes "launch_ok cs s" and "i < length (ln_thr s)" and "snd (ln_thr s ! i) = Building"
  shows "i = length (ln_thr s) - 1 \<and> snd (last (ln_thr s)) = Building \<and> ln_main s = Starting \<and> ln_held s"
proof -
  have "\<not> i < length (ln_thr s) - 1" using assms unfolding launch_ok_def by blast
  then have i: "i = length (ln_thr s) - 1" using assms(2) by simp
  moreover have "ln_thr s \<noteq> []" using assms(2) by auto
  ultimately have l: "last (ln_thr s) = ln_thr s ! i" by (simp add: last_conv_nth)
  have "ln_main s = Starting" using assms nth_mem unfolding launch_ok_def by metis
  then show ?thesis using assms i l unfolding launch_ok_def by (metis \<open>ln_thr s \<noteq> []\<close>)
qed

lemma launch_ok_step: "launch_step s s' \<Longrightarrow> launch_ok cs s \<Longrightarrow> launch_ok cs s'"
proof (induction rule: launch_step.induct)
  case (ls_create s c cs')
  have "snd (ln_thr s ! i) \<noteq> Building" if "i < length (ln_thr s)" for i
    using building_last [OF ls_create.prems that] ls_create.hyps(3) by blast
  then show ?case using ls_create unfolding launch_ok_def by (auto simp: nth_append)
next
  case (ls_built i s c)
  then have b: "i = length (ln_thr s) - 1" "ln_main s = Starting" using building_last [of cs s i] by simp_all
  have m: "map fst ((ln_thr s)[i := (c, Running)]) = map fst (ln_thr s)"
    using ls_built.hyps by (metis fst_conv list_update_id map_update)
  have "last ((ln_thr s)[i := (c, Running)]) = (c, Running)"
    using ls_built.hyps(1) b(1) by (subst last_list_update) auto
  then show ?case using ls_built b m unfolding launch_ok_def by auto
next
  case (ls_ended i s c)
  have m: "map fst ((ln_thr s)[i := (c, Ended)]) = map fst (ln_thr s)"
    using ls_ended.hyps by (metis fst_conv list_update_id map_update)
  have n: "snd ((ln_thr s)[i := (c, Ended)] ! j) = Building \<longleftrightarrow> snd (ln_thr s ! j) = Building" if "j < length (ln_thr s)" for j
    using ls_ended.hyps that by (cases "j = i") auto
  have f: "fst ((ln_thr s)[i := (c, Ended)] ! j) = fst (ln_thr s ! j)"
    "snd (ln_thr s ! j) = Ended \<Longrightarrow> snd ((ln_thr s)[i := (c, Ended)] ! j) = Ended" if "j < length (ln_thr s)" for j
    using ls_ended.hyps that by (cases "j = i"; simp)+
  have ne: "ln_thr s \<noteq> []" using ls_ended.hyps by auto
  then have "length (ln_thr s) - 1 < length (ln_thr s)" by simp
  from n [OF this] have l: "snd (last ((ln_thr s)[i := (c, Ended)])) = Building \<longleftrightarrow> snd (last (ln_thr s)) = Building"
    using ne by (simp add: last_conv_nth)
  have s: "(\<forall>x\<in>set ((ln_thr s)[i := (c, Ended)]). snd x \<noteq> Building) \<longleftrightarrow> (\<forall>x\<in>set (ln_thr s). snd x \<noteq> Building)"
    using n by (metis in_set_conv_nth length_list_update)
  show ?case using ls_ended.prems unfolding launch_ok_def by (simp add: m n l s f ne) (use f in blast)
next
  case (ls_ready s)
  have n: "\<forall>x\<in>set (ln_thr s). snd x \<noteq> Building"
    using building_last [OF ls_ready.prems] ls_ready.hyps(3) by (metis in_set_conv_nth)
  show ?case using ls_ready n unfolding launch_ok_def by (auto simp: to_join_def)
next
  case (ls_join s i "is")
  then show ?case unfolding launch_ok_def by auto
next
  case (ls_exit s)
  then show ?case unfolding launch_ok_def by auto
qed



text \<open>A daemon that is given only a logger ends at once, and the logger with it.\<close>

lemma lone_logger_ends:
  "launch_step\<^sup>*\<^sup>* (launch_init [Lgr a]) \<lparr>ln_todo = [], ln_held = True, ln_thr = [(Lgr a, Running)], ln_main = Exited\<rparr>"
proof -
  let ?s1 = "\<lparr>ln_todo = [], ln_held = True, ln_thr = [(Lgr a, Building)], ln_main = Starting\<rparr>"
  let ?s2 = "\<lparr>ln_todo = [], ln_held = False, ln_thr = [(Lgr a, Running)], ln_main = Starting\<rparr>"
  let ?s3 = "\<lparr>ln_todo = [], ln_held = True, ln_thr = [(Lgr a, Running)], ln_main = Joining []\<rparr>"
  have "launch_step (launch_init [Lgr a]) ?s1"
    using ls_create [of "launch_init [Lgr a]" "Lgr a" "[]"] by (simp add: launch_init_def)
  moreover have "launch_step ?s1 ?s2" using ls_built [of 0 ?s1 "Lgr a"] by simp
  moreover have "launch_step ?s2 ?s3" using ls_ready [of ?s2] by (simp add: to_join_def is_srvr_def is_rtr_def)
  moreover have "launch_step ?s3 (?s3\<lparr>ln_main := Exited\<rparr>)" by (rule ls_exit) simp
  ultimately show ?thesis by (auto intro: converse_rtranclp_into_rtranclp)
qed

subsection \<open>Starting a server\<close>

record srv_args =
  sa_port :: string
  sa_host :: string
  sa_config :: string
  sa_root :: string
  sa_server :: string
  sa_serverPort :: string
  sa_name :: string

datatype srv_opt =
    SV_NAME | SV_RTR_PORT | SV_RTR_HOST | SV_CONFIG | SV_ROOT | SV_SERVER | SV_SERVER_PORT | SV_Unknown

text \<open>An option that is not known only prints how the program is used.\<close>

fun srv_option :: "srv_opt \<times> string \<Rightarrow> srv_args \<Rightarrow> srv_args" where
  "srv_option (SV_NAME, s) a = a\<lparr>sa_name := s\<rparr>"
| "srv_option (SV_RTR_PORT, s) a = a\<lparr>sa_port := s\<rparr>"
| "srv_option (SV_RTR_HOST, s) a = a\<lparr>sa_host := s\<rparr>"
| "srv_option (SV_CONFIG, s) a = a\<lparr>sa_config := s\<rparr>"
| "srv_option (SV_ROOT, s) a = a\<lparr>sa_root := s\<rparr>"
| "srv_option (SV_SERVER, s) a = a\<lparr>sa_server := s\<rparr>"
| "srv_option (SV_SERVER_PORT, s) a = a\<lparr>sa_serverPort := s\<rparr>"
| "srv_option (SV_Unknown, s) a = a"

definition srv_initArgs :: "(srv_opt \<times> string) list \<Rightarrow> srv_args res" where
  "srv_initArgs opts =
     (let a = fold srv_option opts
        \<lparr>sa_port = [], sa_host = [], sa_config = [], sa_root = [], sa_server = [], sa_serverPort = [], sa_name = []\<rparr>
      in if sa_port a = [] \<or> sa_host a = [] then Inl ExitFatal else Inr a)"

text \<open>
  \<^verbatim>\<open>setenv\<close> without overwriting; a name with an equals sign is refused, which nobody looks at.  The environment is
  that of the process, which all servers share.
\<close>

definition setenv0 :: "string \<Rightarrow> string \<Rightarrow> (string \<Rightarrow> string option) \<Rightarrow> string \<Rightarrow> string option" where
  "setenv0 name v env = (if CHR ''='' \<in> set name \<or> env name \<noteq> None then env else env(name \<mapsto> v))"

definition context_env :: "string \<Rightarrow> string \<Rightarrow> string \<Rightarrow> string \<Rightarrow> string \<Rightarrow> (string \<Rightarrow> string option) \<Rightarrow> string \<Rightarrow> string option" where
  "context_env name conf rt server srvPort env =
     (let e1 = setenv0 (name @ ''POWERAPI_CONFIG'') conf env;
          e2 = setenv0 (name @ ''POWERAPI_ROOT'') rt e1;
          e3 = (if server = [] then e2 else setenv0 (name @ ''POWERAPI_SERVER'') server e2)
      in if srvPort = [] then e3 else setenv0 (name @ ''POWERAPI_SERVER_PORT'') srvPort e3)"

text \<open>
  A server: its context, the end of its channel to the router, the first event it sends there, and the environment and
  network it leaves.  The handle of a context that was not made was never set.
\<close>

record ('o, 's) srv_proc =
  sp_lib :: "('o, 's) lib"
  sp_router :: endpoint
  sp_fd :: int
  sp_first :: payload

definition ROLE_ADMIN :: int where "ROLE_ADMIN = 5"

definition Server_new ::
  "nat \<Rightarrow> ('o, 's) platform \<Rightarrow> (srv_opt \<times> string) list \<Rightarrow> 's \<Rightarrow> netc
   \<Rightarrow> (('o, 's) srv_proc \<times> (string \<Rightarrow> string option) \<times> netc) res" where
  "Server_new k pf opts s n =
     rbind (srv_initArgs opts) (\<lambda>a.
     let env = context_env (sa_name a) (sa_config a) (sa_root a) (sa_server a) (sa_serverPort a) (pf_env pf)
     in rbind (PWR_CntxtInit k (pf\<lparr>pf_env := env\<rparr>) ROLE_ADMIN (sa_name a) s) (\<lambda>(rc, ctx).
        case ctx of
          None \<Rightarrow> Inl UninitRead
        | Some lb \<Rightarrow>
            rbind (tcp_channel (connect_config (sa_host a) (sa_port a))) (\<lambda>e.
            rbind (ensure_fd e (-1) n) (\<lambda>(fd, n').
            Inr (\<lparr>sp_lib = lb, sp_router = e, sp_fd = fd, sp_first = PConnect (sa_root a)\<rparr>, env, n')))))"

lemma setenv0_other [simp]: "x \<noteq> name \<Longrightarrow> setenv0 name v env x = env x"
  by (simp add: setenv0_def)

lemma setenv0_kept: "env x = Some w \<Longrightarrow> setenv0 name v env x = Some w"
  by (auto simp: setenv0_def)

lemma setenv0_set: "CHR ''='' \<notin> set name \<Longrightarrow> setenv0 name v env name = Some (case env name of None \<Rightarrow> v | Some w \<Rightarrow> w)"
  by (auto simp: setenv0_def split: option.split)

lemma var_names_neq:
  "n @ ''POWERAPI_ROOT'' \<noteq> m @ ''POWERAPI_CONFIG''" "n @ ''POWERAPI_ROOT'' \<noteq> m @ ''POWERAPI_SERVER''"
  "n @ ''POWERAPI_ROOT'' \<noteq> m @ ''POWERAPI_SERVER_PORT''"
proof -
  have "last (n @ ''POWERAPI_ROOT'') = CHR ''T''" "last (m @ ''POWERAPI_CONFIG'') = CHR ''G''"
    "last (m @ ''POWERAPI_SERVER'') = CHR ''R''" by simp_all
  then show "n @ ''POWERAPI_ROOT'' \<noteq> m @ ''POWERAPI_CONFIG''" "n @ ''POWERAPI_ROOT'' \<noteq> m @ ''POWERAPI_SERVER''" by force+
  have "rev (n @ ''POWERAPI_ROOT'') ! 2 = CHR ''O''" "rev (m @ ''POWERAPI_SERVER_PORT'') ! 2 = CHR ''O''" by simp_all
  have "rev (n @ ''POWERAPI_ROOT'') ! 1 = CHR ''O''" "rev (m @ ''POWERAPI_SERVER_PORT'') ! 1 = CHR ''R''" by simp_all
  then show "n @ ''POWERAPI_ROOT'' \<noteq> m @ ''POWERAPI_SERVER_PORT''" by force
qed

lemma context_env_root:
  "CHR ''='' \<notin> set n \<Longrightarrow> context_env n conf rt server srvPort env (n @ ''POWERAPI_ROOT'') =
     Some (case env (n @ ''POWERAPI_ROOT'') of None \<Rightarrow> rt | Some w \<Rightarrow> w)"
  using var_names_neq by (simp add: context_env_def Let_def setenv0_set)

lemma context_env_other_root:
  "n \<noteq> m \<Longrightarrow> context_env n conf rt server srvPort env (m @ ''POWERAPI_ROOT'') = env (m @ ''POWERAPI_ROOT'')"
  using var_names_neq by (simp add: context_env_def Let_def)

lemma context_env_kept: "env x = Some w \<Longrightarrow> context_env n conf rt server srvPort env x = Some w"
  by (simp add: context_env_def Let_def setenv0_kept)

lemma Server_new_root:
  assumes "Server_new k pf opts s n = Inr (sp, env, n')" and "srv_initArgs opts = Inr a" and "CHR ''='' \<notin> set (sa_name a)"
  shows "sp_first sp = PConnect (sa_root a) \<and>
    PWR_CntxtGetEntryPoint (sp_lib sp) =
      (RET_SUCCESS, case pf_env pf (sa_name a @ ''POWERAPI_ROOT'') of None \<Rightarrow> sa_root a | Some w \<Rightarrow> w) \<and>
    env = context_env (sa_name a) (sa_config a) (sa_root a) (sa_server a) (sa_serverPort a) (pf_env pf)"
proof -
  let ?env = "context_env (sa_name a) (sa_config a) (sa_root a) (sa_server a) (sa_serverPort a) (pf_env pf)"
  obtain rc lb where c: "PWR_CntxtInit k (pf\<lparr>pf_env := ?env\<rparr>) ROLE_ADMIN (sa_name a) s = Inr (rc, Some lb)"
    and sp: "sp_lib sp = lb" "sp_first sp = PConnect (sa_root a)" "env = ?env"
    using assms(1,2) by (auto simp: Server_new_def Let_def elim!: rbind_eq_InrE split: option.splits)
  obtain cf r where r: "getenv2 ?env (sa_name a) ''POWERAPI_ROOT'' = Some r" and ok: "lib_ok cf r lb"
    using PWR_CntxtInit_ok [OF c] by auto
  have "r = (case pf_env pf (sa_name a @ ''POWERAPI_ROOT'') of None \<Rightarrow> sa_root a | Some w \<Rightarrow> w)"
    using r by (simp add: getenv2_def context_env_root [OF assms(3)])
  then show ?thesis
    using ok sp by (simp add: PWR_CntxtGetEntryPoint_def lib_ok_def typed_objects_def cx_shape_def)
qed

text \<open>
  C26.  Two servers of one daemon, started one after the other where neither has a root in the environment.  The first
  announces to the router the root of its options and its context has that root.  The second announces the root of its own
  options too; its context has it only when the two have different names: with the same name, and no name is a name, the
  variables of the first are not overwritten, and the second server's context has the root of the first.
\<close>

theorem second_server_root:
  assumes "Server_new k pf o1 s1 n1 = Inr (sp1, env1, n1')" and "Server_new k (pf\<lparr>pf_env := env1\<rparr>) o2 s2 n2 = Inr (sp2, env2, n2')"
    and "srv_initArgs o1 = Inr a1" and "srv_initArgs o2 = Inr a2"
    and "CHR ''='' \<notin> set (sa_name a1)" and "CHR ''='' \<notin> set (sa_name a2)"
    and "pf_env pf (sa_name a1 @ ''POWERAPI_ROOT'') = None" and "pf_env pf (sa_name a2 @ ''POWERAPI_ROOT'') = None"
  shows "sp_first sp1 = PConnect (sa_root a1) \<and> PWR_CntxtGetEntryPoint (sp_lib sp1) = (RET_SUCCESS, sa_root a1) \<and>
    sp_first sp2 = PConnect (sa_root a2) \<and>
    PWR_CntxtGetEntryPoint (sp_lib sp2) = (RET_SUCCESS, if sa_name a1 = sa_name a2 then sa_root a1 else sa_root a2)"
proof -
  note r1 = Server_new_root [OF assms(1,3,5)] and r2 = Server_new_root [OF assms(2,4,6)]
  have "env1 (sa_name a2 @ ''POWERAPI_ROOT'') = (if sa_name a1 = sa_name a2 then Some (sa_root a1) else None)"
    using r1 assms(5,7,8) by (cases "sa_name a2 = sa_name a1") (simp_all add: context_env_root context_env_other_root)
  then show ?thesis using r1 r2 assms(7) by simp
qed

text \<open>The two servers of the witness read the small tree, with two of its cores as their roots, and have no name.\<close>

definition srv_pf :: "(unit, unit) platform" where
  "srv_pf = \<lparr>pf_env = Map.empty, pf_python = False, pf_hwloc = False,
     pf_read = (\<lambda>rd fl. Inr (tree_config\<lparr>findAttrOp := \<lambda>_ _. [], findPlugins := []\<rparr>)), pf_loader = (\<lambda>lib tab. None), pf_sysname = ''Linux''\<rparr>"

definition srv_net :: netc where
  "srv_net = \<lparr>nc_host = (\<lambda>_. True), nc_accept = (\<lambda>_ _ _. True), nc_slept = (\<lambda>_. True), nc_tries = 0, nc_open = [], nc_next = 3\<rparr>"

definition srv_opts :: "string \<Rightarrow> (srv_opt \<times> string) list" where
  "srv_opts r = [(SV_RTR_HOST, ''h''), (SV_RTR_PORT, ''1''), (SV_CONFIG, ''t.xml''), (SV_ROOT, r)]"

lemma srv_opts_args: "srv_initArgs (srv_opts r) = Inr \<lparr>sa_port = ''1'', sa_host = ''h'', sa_config = ''t.xml'', sa_root = r,
    sa_server = [], sa_serverPort = [], sa_name = []\<rparr>"
  by (simp add: srv_initArgs_def srv_opts_def)

lemma srv_pf_new:
  assumes "e ''POWERAPI_CONFIG'' = Some ''t.xml''" and "e ''POWERAPI_ROOT'' = Some r" and "e ''POWERAPI_SERVER'' = None" and "r \<noteq> []"
  shows "\<exists>lb. PWR_CntxtInit 1 (srv_pf\<lparr>pf_env := e\<rparr>) ROLE_ADMIN [] () = Inr (RET_SUCCESS, Some lb)"
proof -
  have "\<exists>t. objType (tree_config\<lparr>findAttrOp := \<lambda>_ _. [], findPlugins := []\<rparr>) r = Some t" by (simp add: tree_config_def)
  then obtain t where t: "objType (tree_config\<lparr>findAttrOp := \<lambda>_ _. [], findPlugins := []\<rparr>) r = Some t" by blast
  show ?thesis
    using assms t
    by (simp add: PWR_CntxtInit_def DistCntxt_new_def ROLE_ADMIN_def initEventChannel_def getenv2_def srv_pf_def config_reader_def
        find_last_of_def initPlugins_def empty_cx_def findObject_def plain_create)
qed

lemma srv_pf_server:
  assumes "e ''POWERAPI_CONFIG'' = Some ''t.xml'' \<or> e ''POWERAPI_CONFIG'' = None" and "e ''POWERAPI_ROOT'' \<noteq> Some []"
    and "e ''POWERAPI_SERVER'' = None" and "r \<noteq> []"
  shows "\<exists>sp env n'. Server_new 1 (srv_pf\<lparr>pf_env := e\<rparr>) (srv_opts r) () srv_net = Inr (sp, env, n') \<and>
    env ''POWERAPI_CONFIG'' = Some ''t.xml'' \<and> env ''POWERAPI_ROOT'' \<noteq> Some [] \<and> env ''POWERAPI_SERVER'' = None"
proof -
  let ?e = "context_env [] ''t.xml'' r [] [] e"
  have e: "?e ''POWERAPI_CONFIG'' = Some ''t.xml''" "\<exists>r'. ?e ''POWERAPI_ROOT'' = Some r' \<and> r' \<noteq> []" "?e ''POWERAPI_SERVER'' = None"
    using assms by (auto simp: context_env_def setenv0_def Let_def)
  then obtain r' where r: "?e ''POWERAPI_ROOT'' = Some r'" "r' \<noteq> []" by blast
  obtain lb where "PWR_CntxtInit 1 (srv_pf\<lparr>pf_env := ?e\<rparr>) ROLE_ADMIN [] () = Inr (RET_SUCCESS, Some lb)"
    using srv_pf_new [OF e(1) r(1) e(3) r(2)] by blast
  moreover have "tcp_channel (connect_config ''h'' ''1'') = Inr (Connect ''h'' ''1'')" by (rule tcp_channel_connect) simp_all
  moreover have "\<exists>n'. ensure_fd (Connect ''h'' ''1'') (-1) srv_net = Inr (3, n')"
    by (simp add: ensure_fd_def xx_def numeral_eq_Suc initClient_def srv_net_def Let_def)
  ultimately show ?thesis
    using e r by (fastforce simp: Server_new_def srv_opts_args Let_def srv_pf_def)
qed

theorem second_server_root_witness:
  "\<exists>sp1 env1 n1 sp2 env2 n2. Server_new 1 srv_pf (srv_opts ''c0'') () srv_net = Inr (sp1, env1, n1) \<and>
     Server_new 1 (srv_pf\<lparr>pf_env := env1\<rparr>) (srv_opts ''c1'') () srv_net = Inr (sp2, env2, n2) \<and>
     sp_first sp2 = PConnect ''c1'' \<and> PWR_CntxtGetEntryPoint (sp_lib sp2) = (RET_SUCCESS, ''c0'')"
proof -
  have p: "srv_pf\<lparr>pf_env := Map.empty\<rparr> = srv_pf" by (simp add: srv_pf_def)
  obtain sp1 env1 n1 where 1: "Server_new 1 srv_pf (srv_opts ''c0'') () srv_net = Inr (sp1, env1, n1)"
    and e: "env1 ''POWERAPI_CONFIG'' = Some ''t.xml''" "env1 ''POWERAPI_ROOT'' \<noteq> Some []" "env1 ''POWERAPI_SERVER'' = None"
    using srv_pf_server [of Map.empty "''c0''"] p by auto
  obtain sp2 env2 n2 where 2: "Server_new 1 (srv_pf\<lparr>pf_env := env1\<rparr>) (srv_opts ''c1'') () srv_net = Inr (sp2, env2, n2)"
    using srv_pf_server [of env1 "''c1''"] e by auto
  have "pf_env srv_pf ''POWERAPI_ROOT'' = None" by (simp add: srv_pf_def)
  then show ?thesis
    using second_server_root [OF 1 2 srv_opts_args srv_opts_args] 1 2 by auto
qed

subsection \<open>The loop of a server\<close>

text \<open>
  What \<^verbatim>\<open>wait\<close> makes the server do: take an event from the router, see that the router is gone, which ends the loop, or
  let its context take an answer.
\<close>

datatype srv_input = Routed_Event "64 word \<times> 64 word" payload | Router_Gone | Context_Ready

fun srv_work ::
  "(string \<Rightarrow> string option) \<Rightarrow> (string \<Rightarrow> 's object) \<Rightarrow> pwr_time \<Rightarrow> srv_input list \<Rightarrow> server \<times> 's \<times> net
   \<Rightarrow> (bool \<times> server \<times> 's \<times> net) res" where
  "srv_work look obj junk [] st = Inr (False, st)"
| "srv_work look obj junk (Router_Gone # xs) st = Inr (True, st)"
| "srv_work look obj junk (Routed_Event re p # xs) st = rbind (srvr_event look obj junk re p st) (srv_work look obj junk xs)"
| "srv_work look obj junk (Context_Ready # xs) st = rbind (makeProgress look st) (srv_work look obj junk xs)"

text \<open>Where the answers to the requests taken have to go.\<close>

fun is_request :: "payload \<Rightarrow> bool" where
  "is_request (PReq rq) = True"
| "is_request (PLogReq k c opr a) = True"
| "is_request (PSamplesReq k c a start period cnt) = True"
| "is_request p = False"

fun asked :: "srv_input list \<Rightarrow> (64 word \<times> 64 word) list" where
  "asked [] = []"
| "asked (Routed_Event re p # xs) = (if is_request p then [(snd re, fst re)] else []) @ asked xs"
| "asked (Router_Gone # xs) = []"
| "asked (Context_Ready # xs) = asked xs"

definition answered :: "server \<Rightarrow> (64 word \<times> 64 word) multiset" where
  "answered sv = mset (map fst (sv_sent sv))"

definition unanswered :: "server \<Rightarrow> (64 word \<times> 64 word) multiset" where
  "unanswered sv =
     image_mset (\<lambda>k. case sv_waiting sv k of None \<Rightarrow> (0, 0) | Some (re, _) \<Rightarrow> (snd re, fst re)) (mset_set (dom (sv_waiting sv)))"

definition waits_below :: "server \<Rightarrow> net \<Rightarrow> bool" where
  "waits_below sv n \<longleftrightarrow> (\<forall>k x. sv_waiting sv k = Some x \<longrightarrow> k < next_id n)"

lemma waits_finite: "waits_below sv n \<Longrightarrow> finite (dom (sv_waiting sv))"
  by (rule finite_subset [of _ "{..<next_id n}"]) (auto simp: waits_below_def)

lemma unanswered_add:
  assumes "sv_waiting sv k = None" and "finite (dom (sv_waiting sv))"
  shows "unanswered (sv\<lparr>sv_waiting := (sv_waiting sv)(k \<mapsto> (re, x))\<rparr>) = add_mset (snd re, fst re) (unanswered sv)"
proof -
  have "k \<notin> dom (sv_waiting sv)" using assms(1) by auto
  then show ?thesis
    using assms(2) by (simp add: unanswered_def) (rule image_mset_cong, auto)
qed

lemma unanswered_del:
  assumes "sv_waiting sv k = Some (re, x)" and "finite (dom (sv_waiting sv))"
  shows "unanswered sv = add_mset (snd re, fst re) (unanswered (sv\<lparr>sv_waiting := (sv_waiting sv)(k := None)\<rparr>))"
proof -
  let ?sv = "sv\<lparr>sv_waiting := (sv_waiting sv)(k := None)\<rparr>"
  have "sv = ?sv\<lparr>sv_waiting := (sv_waiting ?sv)(k \<mapsto> (re, x))\<rparr>" using assms(1) by (simp add: fun_upd_idem)
  moreover have "sv_waiting ?sv k = None" "finite (dom (sv_waiting ?sv))" using assms(2) by simp_all
  ultimately show ?thesis using unanswered_add by metis
qed

lemma srvr_fini_sent:
  "srvr_fini re p st sv = Inr sv' \<Longrightarrow>
   \<exists>p'. sv' = sv\<lparr>sv_sent := sv_sent sv @ [((snd re, fst re), p')]\<rparr>"
  by (auto simp: srvr_fini_def elim!: rbind_eq_InrE)

text \<open>A call that starts a request uses the next number, and only then.\<close>

definition fresh_req :: "nat option \<Rightarrow> net \<Rightarrow> net \<Rightarrow> bool" where
  "fresh_req k n n' \<longleftrightarrow> (case k of None \<Rightarrow> n' = n | Some i \<Rightarrow> i = next_id n \<and> next_id n' = Suc i)"

lemma nb_start_fresh: "nb_start ob a msg n = Inr (k, n') \<Longrightarrow> fresh_req k n n'"
  by (auto simp: nb_start_def new_req_def fresh_req_def getChannel_def send_def res_simps split: option.splits if_splits)

lemma srvr_after_counts:
  assumes "srvr_after re opr p rc k sv = Inr sv'" and "fresh_req k n n'" and "waits_below sv n"
  shows "waits_below sv' n' \<and> answered sv' + unanswered sv' = add_mset (snd re, fst re) (answered sv + unanswered sv)"
proof (cases "k = None \<or> rc \<noteq> RET_SUCCESS")
  case True
  then have "srvr_fini re p [] sv = Inr sv'" using assms(1) by (auto simp: srvr_after_def split: option.splits)
  moreover have "next_id n \<le> next_id n'" using assms(2) by (auto simp: fresh_req_def split: option.splits)
  ultimately show ?thesis
    using assms(3) srvr_fini_sent [of re p "[]" sv sv']
    by (fastforce simp: answered_def unanswered_def waits_below_def)
next
  case False
  then obtain i where k: "k = Some i" and s: "sv' = sv\<lparr>sv_waiting := (sv_waiting sv)(i \<mapsto> (re, opr, p))\<rparr>"
    using assms(1) by (auto simp: srvr_after_def split: option.splits)
  have i: "i = next_id n" "next_id n' = Suc i" using assms(2) k by (simp_all add: fresh_req_def)
  then have "sv_waiting sv i = None" using assms(3) by (metis less_irrefl not_None_eq waits_below_def)
  then show ?thesis
    using unanswered_add [of sv i re "(opr, p)"] waits_finite [OF assms(3)] assms(3) i
    by (auto simp: s answered_def waits_below_def less_Suc_eq)
qed

lemma request_counts:
  assumes "srvr_event look obj junk re p (sv, s, n) = Inr (sv', s', n')" and "is_request p" and "waits_below sv n"
  shows "waits_below sv' n' \<and> answered sv' + unanswered sv' = add_mset (snd re, fst re) (answered sv + unanswered sv)"
proof -
  obtain opr q rc k where a: "srvr_after re opr q rc k sv = Inr sv'" and f: "fresh_req k n n'"
    using assms(1,2)
    by (cases p) (auto simp: srvr_req_def srvr_log_def srvr_samples_def nb_attrGetValues_def nb_attrSetValues_def nb_log_def
        nb_attrGetSamples_def Let_def fresh_req_def [of None] elim!: rbind_eq_InrE split: if_splits dest!: nb_start_fresh
        simp: res_simps)
  show ?thesis by (rule srvr_after_counts [OF a f assms(3)])
qed

lemma quiet_counts:
  assumes "srvr_event look obj junk re p (sv, s, n) = Inr (sv', s', n')" and "\<not> is_request p"
  shows "n' = n \<and> sv_sent sv' = sv_sent sv \<and> sv_waiting sv' = sv_waiting sv"
  using assms by (cases p) (auto simp: srvr_create_def srvr_destroy_def Let_def elim!: rbind_eq_InrE split: option.splits simp: res_simps)

lemma progress_counts:
  assumes "makeProgress look (sv, s, n) = Inr (sv', s', n')" and "waits_below sv n"
  shows "waits_below sv' n' \<and> answered sv' + unanswered sv' = answered sv + unanswered sv"
proof -
  obtain ev evs re opr p p' st where i: "inbox n = ev # evs" and w: "sv_waiting sv (ev_id ev) = Some (re, (opr, p))"
    and f: "srvr_fini re p' st (sv\<lparr>sv_waiting := (sv_waiting sv)(ev_id ev := None)\<rparr>) = Inr sv'" and n: "n' = n\<lparr>inbox := evs\<rparr>"
    using assms(1) by (auto simp: makeProgress_def Let_def elim!: rbind_eq_InrE split: list.splits option.splits prod.splits)
  let ?sv = "sv\<lparr>sv_waiting := (sv_waiting sv)(ev_id ev := None)\<rparr>"
  obtain q where sv': "sv' = ?sv\<lparr>sv_sent := sv_sent ?sv @ [((snd re, fst re), q)]\<rparr>" using srvr_fini_sent [OF f] by blast
  have "unanswered sv = add_mset (snd re, fst re) (unanswered ?sv)"
    by (rule unanswered_del [OF w waits_finite [OF assms(2)]])
  moreover have "unanswered sv' = unanswered ?sv" by (simp add: sv' unanswered_def)
  moreover have "waits_below sv' n'" using assms(2) by (auto simp: sv' n waits_below_def split: if_splits)
  ultimately show ?thesis by (simp add: answered_def sv')
qed

text \<open>
  C5.  Whatever the router sends a server and however the answers of the next daemon come in between, every request the server
  takes is answered exactly once and to the router it came from, or is still waiting for the next daemon: the
  addresses of the answers sent and of the requests waiting are together those of the requests taken.
\<close>

theorem server_answers_each:
  assumes "srv_work look obj junk xs (sv, s, n) = Inr (fin, (sv', s', n'))" and "waits_below sv n"
  shows "answered sv' + unanswered sv' = answered sv + unanswered sv + mset (asked xs)"
  using assms
proof (induction xs arbitrary: sv s n)
  case (Cons x xs)
  show ?case
  proof (cases x)
    case (Routed_Event re p)
    then obtain sv1 s1 n1 where e: "srvr_event look obj junk re p (sv, s, n) = Inr (sv1, s1, n1)"
      and w: "srv_work look obj junk xs (sv1, s1, n1) = Inr (fin, (sv', s', n'))"
      using Cons.prems(1) by (auto elim!: rbind_eq_InrE)
    show ?thesis
    proof (cases "is_request p")
      case True
      note c = request_counts [OF e True Cons.prems(2)]
      from Cons.IH [OF w] c show ?thesis using Routed_Event True by simp
    next
      case False
      note q = quiet_counts [OF e False]
      then have "waits_below sv1 n1" using Cons.prems(2) by (simp add: waits_below_def)
      from Cons.IH [OF w this] q show ?thesis using Routed_Event False by (simp add: answered_def unanswered_def)
    qed
  next
    case Router_Gone
    then show ?thesis using Cons.prems by simp
  next
    case Context_Ready
    then obtain sv1 s1 n1 where e: "makeProgress look (sv, s, n) = Inr (sv1, s1, n1)"
      and w: "srv_work look obj junk xs (sv1, s1, n1) = Inr (fin, (sv', s', n'))"
      using Cons.prems(1) by (auto elim!: rbind_eq_InrE)
    from Cons.IH [OF w] progress_counts [OF e Cons.prems(2)] show ?thesis using Context_Ready by simp
  qed
qed simp

theorem server_answers_each_witness:
  "\<exists>sv' n'. srv_work Some remote_obj 0 [Routed_Event (1, 2) (PReq demo_req), Context_Ready, Routed_Event (3, 4) (PReq demo_req)]
       (demo_server ''d'', (), demo_net\<lparr>inbox := [demo_event\<lparr>ev_id := next_id demo_net\<rparr>]\<rparr>) = Inr (False, (sv', (), n')) \<and>
     length (sv_sent sv') = 1 \<and> answered sv' + unanswered sv' = {#(2, 1), (4, 3)#}"
proof -
  let ?n = "demo_net\<lparr>inbox := [demo_event\<lparr>ev_id := next_id demo_net\<rparr>]\<rparr>"
  have "\<exists>sv' n'. srv_work Some remote_obj 0 [Routed_Event (1, 2) (PReq demo_req), Context_Ready, Routed_Event (3, 4) (PReq demo_req)]
       (demo_server ''d'', (), ?n) = Inr (False, (sv', (), n')) \<and> length (sv_sent sv') = 1"
    by (simp add: srvr_req_def demo_req_def demo_server_def srvr_obj_def arr_get_def demo_net_def demo_event_def remote_obj_def
        nb_attrGetValues_def attrGetValues_def isValid_def attrGetValuesDevice_def arr_set_def same_comm_def nb_start_def new_req_def
        getChannel_def send_def nb_ret_def status_ret_def status_empty_def srvr_after_def ret_defs makeProgress_def progress_resp_def
        req_getValue_def srvr_fini_def push_errors_def new_resp_def Let_def)
  then obtain sv' n' where w: "srv_work Some remote_obj 0 [Routed_Event (1, 2) (PReq demo_req), Context_Ready, Routed_Event (3, 4) (PReq demo_req)]
       (demo_server ''d'', (), ?n) = Inr (False, (sv', (), n'))" "length (sv_sent sv') = 1" by blast
  have "waits_below (demo_server ''d'') ?n" by (simp add: waits_below_def demo_server_def)
  from server_answers_each [OF w(1) this] w show ?thesis
    by (auto simp: answered_def unanswered_def demo_server_def)
qed

end
