(* ===== verification/Daemon_Runtime.thy ===== *)
theory Daemon_Runtime imports Tcp_Channel begin

text \<open>
  The run-time of a parallel job (\<^verbatim>\<open>tools/pwrdaemon/powerrt.cc\<close>), which starts a daemon on every node: who starts it,
  the list of nodes it is given, the processes started, and their end.
\<close>

subsection \<open>The list of nodes\<close>

text \<open>
  The number of a node is read from the first digit of its name on.  A name without a digit is read past its end.
\<close>

definition digit_pos :: "string \<Rightarrow> nat res" where
  "digit_pos name = (let p = length (takeWhile (\<lambda>c. \<not> is_digit c) name) in if p < length name then Inr p else Inl MemoryFault)"

text \<open>
  The scan over the ranks that stops at the first one of this node: the number of that rank, and the length \<open>nl\<close> that
  tells whether numbers are padded.  \<open>me\<close> is this node's number, \<open>len\<close> the length of its name.
\<close>

fun find_launcher :: "int \<Rightarrow> nat \<Rightarrow> nat \<Rightarrow> (int \<times> nat) list \<Rightarrow> nat \<Rightarrow> int \<times> nat" where
  "find_launcher me len i [] nl = (-1, nl)"
| "find_launcher me len i ((j, l) # xs) nl =
     (if j = me then (int i, nl) else find_launcher me len (Suc i) xs (if nl = len \<and> l \<noteq> nl then l else nl))"

definition pad :: "nat \<Rightarrow> string \<Rightarrow> string" where
  "pad w s = replicate (w - length s) CHR ''0'' @ s"

text \<open>The loop that writes each node once, counts the nodes, and finds the place of this one.\<close>

record nid_list =
  nl_text :: string
  nl_seen :: "int list"
  nl_num :: nat
  nl_mine :: nat

fun nid_loop :: "(int \<Rightarrow> string) \<Rightarrow> int \<Rightarrow> nat \<Rightarrow> int list \<Rightarrow> nid_list \<Rightarrow> nid_list" where
  "nid_loop fmt me i [] st = st"
| "nid_loop fmt me i (x # xs) st =
     nid_loop fmt me (Suc i) xs
       (if x \<in> set (nl_seen st) then st
        else st\<lparr>nl_text := nl_text st @ (if 0 < i then '','' else []) @ fmt x, nl_seen := x # nl_seen st,
                nl_num := Suc (nl_num st), nl_mine := (if x = me then nl_num st else nl_mine st)\<rparr>)"

text \<open>
  \<^verbatim>\<open>createNidList\<close> on the rank \<open>r\<close> of a node called \<open>name\<close>; \<open>rbuf\<close> and \<open>rbuf2\<close> are the numbers and the lengths of the
  names that all ranks gather.  \<open>None\<close> is the empty list of a rank that does not launch, \<open>junk\<close> what the out parameter for the
  node's place held.
\<close>

definition createNidList :: "string \<Rightarrow> nat \<Rightarrow> int list \<Rightarrow> nat list \<Rightarrow> nat \<Rightarrow> (string \<times> nat \<times> nat) option res" where
  "createNidList name r rbuf rbuf2 junk =
     rbind (digit_pos name) (\<lambda>pos.
     let me = atoi (drop pos name); len = length name; (launcher, nl) = find_launcher me len 0 (zip rbuf rbuf2) len
     in if int r \<noteq> launcher then Inr None
        else (let fmt = (\<lambda>x. if nl = len then pad (len - pos) (show_int x) else show_int x);
                  st = nid_loop fmt me 0 rbuf \<lparr>nl_text = take pos name @ ''['', nl_seen = [], nl_num = 0, nl_mine = junk\<rparr>
              in Inr (Some (nl_text st @ '']'', nl_num st, nl_mine st))))"

text \<open>What a rank sends to the others, and the nodes in the order of their first ranks.\<close>

definition has_digit :: "string \<Rightarrow> bool" where
  "has_digit name \<longleftrightarrow> (\<exists>c\<in>set name. is_digit c)"

definition nid_pos :: "string \<Rightarrow> nat" where
  "nid_pos name = length (takeWhile (\<lambda>c. \<not> is_digit c) name)"

definition nid :: "string \<Rightarrow> int" where
  "nid name = atoi (drop (nid_pos name) name)"

fun firsts :: "'a list \<Rightarrow> 'a list \<Rightarrow> 'a list" where
  "firsts seen [] = []"
| "firsts seen (x # xs) = (if x \<in> set seen then firsts seen xs else x # firsts (x # seen) xs)"

lemma set_firsts: "set (firsts seen xs) = set xs - set seen"
  by (induction seen xs rule: firsts.induct) auto

lemma distinct_firsts: "distinct (firsts seen xs)"
  by (induction seen xs rule: firsts.induct) (auto simp: set_firsts)

lemma digit_pos_ok: "has_digit name \<Longrightarrow> digit_pos name = Inr (nid_pos name)"
proof -
  assume "has_digit name"
  then obtain c where "c \<in> set name" "is_digit c" by (auto simp: has_digit_def)
  then have "takeWhile (\<lambda>c. \<not> is_digit c) name \<noteq> name" using set_takeWhileD by fastforce
  then have "nid_pos name < length name"
    unfolding nid_pos_def by (metis length_takeWhile_le le_neq_implies_less takeWhile_eq_take take_all_iff)
  then show ?thesis by (simp add: digit_pos_def nid_pos_def Let_def)
qed

lemma find_launcher_first:
  "q < length xs \<Longrightarrow> fst (xs ! q) = me \<Longrightarrow> \<forall>p<q. fst (xs ! p) \<noteq> me \<Longrightarrow>
   fst (find_launcher me len i xs nl) = int (i + q) \<and>
   (snd (find_launcher me len i xs nl) = len \<longleftrightarrow> nl = len \<and> (\<forall>p<q. snd (xs ! p) = len))"
proof (induction xs arbitrary: q i nl)
  case (Cons x xs)
  obtain j l where x: "x = (j, l)" by (cases x)
  show ?case
  proof (cases q)
    case 0
    then show ?thesis using Cons.prems by (simp add: x)
  next
    case (Suc q')
    have "fst (xs ! p) \<noteq> me" if "p < q'" for p using Cons.prems(3) [rule_format, of "Suc p"] that Suc by simp
    moreover have "j \<noteq> me" using Cons.prems(3) [rule_format, of 0] Suc by (simp add: x)
    ultimately show ?thesis
      using Cons.IH [of q' "Suc i" "if nl = len \<and> l \<noteq> nl then l else nl"] Cons.prems(1,2) Suc
      by (auto simp: x less_Suc_eq_0_disj)
  qed
qed simp

text \<open>The nodes in the order of their first ranks, separated by commas.\<close>

lemma nid_loop_spec:
  "0 < i \<Longrightarrow>
   (let st' = nid_loop fmt me i xs st; fs = firsts (nl_seen st) xs
    in nl_text st' = nl_text st @ concat (map (\<lambda>x. '','' @ fmt x) fs) \<and> nl_num st' = nl_num st + length fs \<and>
       (if me \<in> set fs then nl_num st \<le> nl_mine st' \<and> nl_mine st' < nl_num st + length fs \<and> fs ! (nl_mine st' - nl_num st) = me
        else nl_mine st' = nl_mine st))"
proof (induction xs arbitrary: i st)
  case (Cons x xs)
  show ?case
  proof (cases "x \<in> set (nl_seen st)")
    case True
    then show ?thesis using Cons.IH [of "Suc i" st] by simp
  next
    case False
    let ?st = "st\<lparr>nl_text := nl_text st @ '','' @ fmt x, nl_seen := x # nl_seen st, nl_num := Suc (nl_num st),
        nl_mine := (if x = me then nl_num st else nl_mine st)\<rparr>"
    let ?fs = "firsts (x # nl_seen st) xs"
    define st1 where "st1 = ?st"
    have f: "nl_text st1 = nl_text st @ '','' @ fmt x" "nl_seen st1 = x # nl_seen st" "nl_num st1 = Suc (nl_num st)"
      "nl_mine st1 = (if x = me then nl_num st else nl_mine st)" by (simp_all add: st1_def)
    define R where "R = nid_loop fmt me (Suc i) xs st1"
    have e: "nid_loop fmt me i (x # xs) st = R" "firsts (nl_seen st) (x # xs) = x # ?fs"
      using False Cons.prems by (simp_all add: R_def st1_def)
    have ih: "nl_text R = (nl_text st @ '','' @ fmt x) @ concat (map (\<lambda>x. '','' @ fmt x) ?fs)"
      "nl_num R = Suc (nl_num st) + length ?fs"
      "if me \<in> set ?fs then Suc (nl_num st) \<le> nl_mine R \<and> nl_mine R < Suc (nl_num st) + length ?fs \<and> ?fs ! (nl_mine R - Suc (nl_num st)) = me
        else nl_mine R = (if x = me then nl_num st else nl_mine st)"
      using Cons.IH [of "Suc i" st1] unfolding Let_def R_def [symmetric] f by blast+
    have n: "x \<notin> set ?fs" by (simp add: set_firsts)
    show ?thesis
    proof (cases "x = me")
      case True
      then show ?thesis using ih n unfolding e Let_def by simp
    next
      case False
      then show ?thesis using ih unfolding e Let_def by (auto simp: nth_Cons' split: if_splits)
    qed
  qed
qed (simp add: Let_def)

text \<open>
  C23.  On every node exactly one rank launches, the first one there.  All launchers agree on the number of nodes, and the place a
  launcher finds for its node is that of the node in the order of the nodes' first ranks, so that no two nodes have the same
  place; its list names all nodes in this order.  The numbers in the list are padded to the width of the launcher's own number
  when no rank before it has a name of another length: the launcher of the very first rank always pads.
\<close>

theorem createNidList_launchers:
  assumes "\<forall>n\<in>set names. has_digit n" and "r < length names"
  shows "let name = names ! r; ids = map nid names; fs = firsts [] ids;
      fmt = (\<lambda>x. if \<forall>q<r. length (names ! q) = length name then pad (length name - nid_pos name) (show_int x) else show_int x)
    in if \<exists>q<r. ids ! q = ids ! r then createNidList name r ids (map length names) junk = Inr None
       else \<exists>mine. createNidList name r ids (map length names) junk =
              Inr (Some (take (nid_pos name) name @ ''['' @ fmt (hd fs) @ concat (map (\<lambda>x. '','' @ fmt x) (tl fs)) @ '']'', card (set ids), mine)) \<and>
            mine < card (set ids) \<and> fs ! mine = ids ! r"
proof -
  let ?name = "names ! r" and ?ids = "map nid names" and ?len = "length (names ! r)"
  let ?xs = "zip ?ids (map length names)"
  have p: "digit_pos ?name = Inr (nid_pos ?name)" using assms by (simp add: digit_pos_ok)
  have m: "atoi (drop (nid_pos ?name) ?name) = ?ids ! r" using assms(2) by (simp add: nid_def)
  obtain q where q: "q \<le> r" "?ids ! q = ?ids ! r" "\<forall>p<q. ?ids ! p \<noteq> ?ids ! r"
    using exists_least_iff [of "\<lambda>q. ?ids ! q = ?ids ! r"] by (metis leI nat_le_linear)
  have l: "fst (find_launcher (?ids ! r) ?len 0 ?xs ?len) = int q \<and>
      (snd (find_launcher (?ids ! r) ?len 0 ?xs ?len) = ?len \<longleftrightarrow> (\<forall>p<q. length (names ! p) = ?len))"
    using find_launcher_first [of q ?xs "?ids ! r" ?len 0 ?len] q assms(2) by auto
  show ?thesis
  proof (cases "\<exists>q<r. ?ids ! q = ?ids ! r")
    case True
    then have "q \<noteq> r" using q(3) by auto
    then show ?thesis using True p m l by (simp add: createNidList_def Let_def split_beta)
  next
    case False
    then have qr: "q = r" using q(1,2) le_neq_implies_less by blast
    obtain i0 ys where c: "?ids = i0 # ys" using assms(2) by (cases ?ids) auto
    let ?st0 = "\<lparr>nl_text = take (nid_pos ?name) ?name @ ''['', nl_seen = [], nl_num = 0, nl_mine = junk\<rparr>"
    define same where "same \<longleftrightarrow> (\<forall>q<r. length (names ! q) = ?len)"
    define fmt where "fmt = (\<lambda>x. if same then pad (?len - nid_pos ?name) (show_int x) else show_int x)"
    define st1 where "st1 = \<lparr>nl_text = (take (nid_pos ?name) ?name @ ''['') @ fmt i0, nl_seen = [i0], nl_num = 1,
        nl_mine = (if i0 = ?ids ! r then 0 else junk)\<rparr>"
    have f: "nl_text st1 = (take (nid_pos ?name) ?name @ ''['') @ fmt i0" "nl_seen st1 = [i0]" "nl_num st1 = 1"
      "nl_mine st1 = (if i0 = ?ids ! r then 0 else junk)" by (simp_all add: st1_def)
    let ?fs = "firsts [i0] ys"
    have fs: "firsts [] ?ids = i0 # ?fs" by (simp add: c)
    define st where "st = nid_loop fmt (?ids ! r) 1 ys st1"
    have n: "nid_loop fmt (?ids ! r) 0 ?ids ?st0 = st" by (simp add: c st_def st1_def)
    have s: "nl_text st = ((take (nid_pos ?name) ?name @ ''['') @ fmt i0) @ concat (map (\<lambda>x. '','' @ fmt x) ?fs)"
      "nl_num st = 1 + length ?fs"
      "if ?ids ! r \<in> set ?fs then 1 \<le> nl_mine st \<and> nl_mine st < 1 + length ?fs \<and> ?fs ! (nl_mine st - 1) = ?ids ! r
        else nl_mine st = (if i0 = ?ids ! r then 0 else junk)"
      using nid_loop_spec [of 1 fmt "?ids ! r" ys st1, OF zero_less_one] unfolding Let_def st_def [symmetric] f by blast+
    have k: "card (set ?ids) = 1 + length ?fs"
      using distinct_card [OF distinct_firsts [of "[]" ?ids]] unfolding fs by (simp add: set_firsts c insert_absorb) 
    have "?ids ! r \<in> set (i0 # ?fs)" using nth_mem [of r ?ids] assms(2) unfolding fs [symmetric] set_firsts by simp
    then have mine: "nl_mine st < card (set ?ids) \<and> (i0 # ?fs) ! nl_mine st = ?ids ! r"
      using s(3) set_firsts [of "[i0]" ys] k by (auto simp: nth_Cons' split: if_splits)
    have "createNidList ?name r ?ids (map length names) junk =
        Inr (Some (take (nid_pos ?name) ?name @ ''['' @ fmt i0 @ concat (map (\<lambda>x. '','' @ fmt x) ?fs) @ '']'', card (set ?ids), nl_mine st))"
      using l m n s(1,2) k unfolding qr by (simp add: createNidList_def p Let_def split_beta fmt_def same_def [symmetric])
    then show ?thesis using False mine unfolding Let_def fs same_def [symmetric] by (simp add: fmt_def)
  qed
qed

theorem createNidList_launchers_witness:
  "createNidList ''node9'' 2 [10, 10, 9] [6, 6, 5] 0 = Inr (Some (''node[10,9]'', 2, 1)) \<and>
   createNidList ''node10'' 1 [10, 10, 9] [6, 6, 5] 0 = Inr None"
proof -
  let ?names = "[''node10'', ''node10'', ''node9'']"
  have nid: "nid ''node10'' = 10" "nid ''node9'' = 9" "nid_pos ''node10'' = 4" "nid_pos ''node9'' = 4"
    by (simp_all add: nid_def nid_pos_def is_digit_def char_code_def) (code_simp, code_simp)
  have s: "show_int 9 = ''9''" "show_int 10 = ''10''" by code_simp+
  have h: "\<forall>n\<in>set ?names. has_digit n" by (simp add: has_digit_def is_digit_def char_code_def)
  have w: "\<not> (\<forall>q<2. length (?names ! q) = length (?names ! 2))" by (simp add: exI [of _ 0])
  have "map nid ?names ! q \<noteq> map nid ?names ! 2" if "q < 2" for q
  proof -
    have "q = 0 \<or> q = 1" using that by auto
    then show ?thesis by (auto simp: nid)
  qed
  then have d: "\<not> (\<exists>q<2. map nid ?names ! q = map nid ?names ! 2)" by blast
  have f: "firsts [] (map nid ?names) = [10, 9]" "card (set (map nid ?names)) = 2" by (simp_all add: nid)
  have len: "map length ?names = [6, 6, 5]" by simp
  obtain mine where l: "createNidList ''node9'' 2 [10, 10, 9] [6, 6, 5] 0 = Inr (Some (''node[10,9]'', 2, mine))"
    and m: "mine < 2" "[10, 9] ! mine = (9 :: int)"
    using createNidList_launchers [OF h, of 2 0] unfolding Let_def if_not_P [OF w] if_not_P [OF d] f len by (auto simp: nid s)
  have "mine = 1" using m by (cases mine) auto
  then show ?thesis using l createNidList_launchers [OF h, of 1 0] unfolding Let_def len by (auto simp: nid)
qed

text \<open>
  Two launchers of a job can disagree: on the first node of a job on \<^verbatim>\<open>node10\<close> and \<^verbatim>\<open>node9\<close> the list names a node that
  does not exist.
\<close>

lemma launchers_disagree:
  "createNidList ''node10'' 0 [10, 9] [6, 5] 0 = Inr (Some (''node[10,09]'', 2, 0)) \<and>
   createNidList ''node9'' 1 [10, 9] [6, 5] 0 = Inr (Some (''node[10,9]'', 2, 1))"
  by code_simp

subsection \<open>Starting the processes\<close>

text \<open>
  The script's name without its directory and without what follows its last dot is the module to import; the directory
  becomes the search path.
\<close>

definition split_script :: "string \<Rightarrow> string option \<times> string" where
  "split_script file =
     (case find_last_of CHR ''/'' file of
        None \<Rightarrow> (None, sub_to (find_last_of CHR ''.'' file) file)
      | Some p \<Rightarrow>
          (let base = drop (Suc p) file in (Some (take p file), sub_to (find_last_of CHR ''.'' base) base)))"

text \<open>
  The script and what it is given are parameters: importing may fail, the module may lack \<^verbatim>\<open>GetApps\<close>, the call may fail; it
  returns for each process its arguments and its environment.
\<close>

record apps_call =
  ac_nid :: nat
  ac_config :: string
  ac_nidList :: string
  ac_routeFile :: string
  ac_object :: string
  ac_attr :: string
  ac_logFile :: string
  ac_daemon :: string
  ac_client :: string

record py_module =
  py_GetApps :: "(apps_call \<Rightarrow> (string list \<times> string list) list option) option"

record rt_data =
  rt_client :: int
  rt_daemon :: int
  rt_routeFile :: string

text \<open>
  Each process is forked and waited for: \<open>forks i\<close> is the number of the child, or \<open>-1\<close>, which the code takes for a
  child too; \<open>wakes i\<close> says that a signal comes after the parent has begun to pause.
\<close>

fun launch_apps :: "(nat \<Rightarrow> int) \<Rightarrow> (nat \<Rightarrow> bool) \<Rightarrow> nat \<Rightarrow> 'a list \<Rightarrow> rt_data \<Rightarrow> rt_data res" where
  "launch_apps forks wakes i [] d = Inr d"
| "launch_apps forks wakes i (x # xs) d =
     c_assert (i < 2)
       (if wakes i
        then launch_apps forks wakes (Suc i) xs (if i = 0 then d\<lparr>rt_daemon := forks i\<rparr> else d\<lparr>rt_client := forks i\<rparr>)
        else Inl Diverges)"

definition env_or :: "(string \<Rightarrow> string option) \<Rightarrow> string \<Rightarrow> string \<Rightarrow> string" where
  "env_or env x d = (case env x of None \<Rightarrow> d | Some v \<Rightarrow> v)"

definition runtimeInit ::
  "(string \<Rightarrow> string option) \<Rightarrow> (string \<Rightarrow> py_module option) \<Rightarrow> int \<Rightarrow> (nat \<Rightarrow> int) \<Rightarrow> (nat \<Rightarrow> bool) \<Rightarrow> string \<Rightarrow> nat \<Rightarrow> rt_data res" where
  "runtimeInit env py pid forks wakes nidList myNid =
     (case env ''POWERRT_SCRIPT'' of
        None \<Rightarrow> Inl ExitFatal
      | Some file \<Rightarrow>
          (case py (snd (split_script file)) of
             None \<Rightarrow> Inl ExitFatal
           | Some m \<Rightarrow>
               (case py_GetApps m of
                  None \<Rightarrow> Inl AssertFailed
                | Some f \<Rightarrow>
                    (let route = ''routeTable.'' @ show_int pid @ ''.'' @ show_nat myNid
                     in case env ''POWERAPI_CONFIG'' of
                          None \<Rightarrow> Inl ExitFatal
                        | Some conf \<Rightarrow>
                            (case env ''POWERRT_DAEMON'' of
                               None \<Rightarrow> Inl ExitFatal
                             | Some dm \<Rightarrow>
                                 (case f \<lparr>ac_nid = myNid, ac_config = conf, ac_nidList = nidList, ac_routeFile = route,
                                          ac_object = env_or env ''POWERRT_OBJECT'' ''plat'', ac_attr = env_or env ''POWERRT_ATTR'' [],
                                          ac_logFile = env_or env ''POWERRT_LOGFILE'' [], ac_daemon = dm,
                                          ac_client = env_or env ''POWERRT_CLIENT'' []\<rparr> of
                                    None \<Rightarrow> Inl AssertFailed
                                  | Some apps \<Rightarrow> launch_apps forks wakes 0 apps \<lparr>rt_client = -1, rt_daemon = -1, rt_routeFile = route\<rparr>))))))"

text \<open>\<^verbatim>\<open>MPI_Init\<close>: a rank with no list of nodes starts nothing.  \<open>junk\<close> is the unset place of the node.\<close>

definition rt_Init ::
  "(string \<Rightarrow> string option) \<Rightarrow> (string \<Rightarrow> py_module option) \<Rightarrow> int \<Rightarrow> (nat \<Rightarrow> int) \<Rightarrow> (nat \<Rightarrow> bool) \<Rightarrow> string \<Rightarrow> nat \<Rightarrow> int list \<Rightarrow> nat list
   \<Rightarrow> nat \<Rightarrow> rt_data option res" where
  "rt_Init env py pid forks wakes name r rbuf rbuf2 junk =
     rbind (createNidList name r rbuf rbuf2 junk) (\<lambda>l.
     case l of
       None \<Rightarrow> Inr None
     | Some (nidList, _, myNid) \<Rightarrow> rbind (runtimeInit env py pid forks wakes nidList myNid) (\<lambda>d. Inr (Some d)))"

text \<open>\<^verbatim>\<open>MPI_Finalize\<close>, as the calls it makes.\<close>

datatype fin_call = Unlink string | Kill int | Wait_For int | Barrier

definition end_process :: "int \<Rightarrow> fin_call list" where
  "end_process p = (if -1 < p then [Kill p, Wait_For p] else [])"

definition rt_Finalize :: "rt_data option \<Rightarrow> fin_call list" where
  "rt_Finalize data =
     (case data of
        None \<Rightarrow> [Barrier]
      | Some d \<Rightarrow> [Unlink (rt_routeFile d)] @ end_process (rt_client d) @ [Barrier] @ end_process (rt_daemon d))"

lemma launch_apps_spec:
  "launch_apps forks wakes 0 apps d = Inr d' \<longleftrightarrow>
   length apps \<le> 2 \<and> (\<forall>i<length apps. wakes i) \<and>
   d' = d\<lparr>rt_daemon := (if apps = [] then rt_daemon d else forks 0),
          rt_client := (if length apps < 2 then rt_client d else forks 1)\<rparr>"
  by (cases apps; cases "tl apps"; cases "tl (tl apps)") (auto simp: res_simps less_Suc_eq_0_disj)


text \<open>A child that cannot be forked is waited for all the same, and nothing wakes the parent.\<close>

lemma failed_fork_hangs: "\<not> wakes 0 \<Longrightarrow> launch_apps forks wakes 0 (x # xs) d = Inl Diverges"
  by simp

definition demo_job_env :: "string \<Rightarrow> string option" where
  "demo_job_env = [''POWERRT_SCRIPT'' \<mapsto> ''/opt/launch.py'', ''POWERAPI_CONFIG'' \<mapsto> ''m.hwloc'', ''POWERRT_DAEMON'' \<mapsto> ''pwrdaemon'']"

definition demo_script :: "string \<Rightarrow> py_module option" where
  "demo_script m = (if m = ''launch'' then Some \<lparr>py_GetApps = Some (\<lambda>c. Some [([ac_daemon c], []), ([''client''], [])])\<rparr> else None)"


end
