(* ===== verification/Daemon_Logger.thy ===== *)
theory Daemon_Logger imports Daemon_Launch Pwr_Stat begin

text \<open>
  The logger of the daemon (\<^verbatim>\<open>tools/pwrdaemon/logger\<close>): a client of the library that reads or writes attributes of an
  object or of the objects of a type, once a second, and prints them.
\<close>

subsection \<open>Names of attributes\<close>

definition getAttr :: "string \<Rightarrow> attr res" where
  "getAttr name = (if name = ''energy'' then Inr ATTR_ENERGY else if name = ''power'' then Inr ATTR_POWER else Inl AssertFailed)"

definition getAttrStat :: "string \<Rightarrow> attr_stat res" where
  "getAttrStat name =
     (if name = ''min'' then Inr STAT_MIN else if name = ''max'' then Inr STAT_MAX else if name = ''avg'' then Inr STAT_AVG
      else if name = ''stdev'' then Inr STAT_STDEV else if name = ''cv'' then Inr STAT_CV else if name = ''sum'' then Inr STAT_SUM
      else Inl AssertFailed)"

text \<open>
  The list of attributes between commas.  The position of the next comma, counted from the beginning of the string, is
  passed to \<^verbatim>\<open>substr\<close> for the length.
\<close>

definition comma_from :: "string \<Rightarrow> nat \<Rightarrow> nat option" where
  "comma_from s pos = map_option (\<lambda>i. pos + i) (find_first_of CHR '','' (drop pos s))"

function parse_attrs :: "string \<Rightarrow> nat \<Rightarrow> attr list res" where
  "parse_attrs s pos =
     (if pos < length s then
        (case comma_from s pos of
           None \<Rightarrow> rbind (getAttr (drop pos s)) (\<lambda>a. Inr [a])
         | Some q \<Rightarrow> rbind (getAttr (take q (drop pos s))) (\<lambda>a. rbind (parse_attrs s (Suc q)) (\<lambda>as. Inr (a # as))))
      else Inr [])"
  by pat_completeness auto
termination
proof (relation "measure (\<lambda>(s, pos). length s - pos)", goal_cases)
  case (2 s pos q a)
  then obtain i where "q = pos + i" "i < length (drop pos s)"
    by (auto simp: comma_from_def dest: find_first_of_less)
  then show ?case using 2 by simp
qed simp

declare parse_attrs.simps [simp del]

definition comma_joined :: "string list \<Rightarrow> string" where
  "comma_joined ns = concat (map (\<lambda>n. n @ '','') (butlast ns)) @ last ns"

definition attr_text :: "string \<Rightarrow> bool" where
  "attr_text n \<longleftrightarrow> n = ''energy'' \<or> n = ''power''"

lemma attr_text_simps: "attr_text n \<Longrightarrow> CHR '','' \<notin> set n \<and> n \<noteq> [] \<and> (\<exists>a. getAttr n = Inr a)"
  by (auto simp: attr_text_def getAttr_def)

lemma getAttr_text: "getAttr n = Inr a \<Longrightarrow> attr_text n"
  by (auto simp: attr_text_def getAttr_def split: if_splits)

text \<open>
  A list of one or two attributes of the logger is read as it is written; with three or more the logger stops, because the
  second name is cut out too long.
\<close>

theorem logger_attributes:
  assumes "ns \<noteq> []" and "\<forall>n\<in>set ns. attr_text n"
  shows "parse_attrs (comma_joined ns) 0 =
    (if length ns \<le> 2 then Inr (map (\<lambda>n. if n = ''energy'' then ATTR_ENERGY else ATTR_POWER) ns) else Inl AssertFailed)"
proof -
  have c: "CHR '','' \<notin> set n" "n \<noteq> []" if "n \<in> set ns" for n using attr_text_simps that assms(2) by blast+
  have g: "getAttr n = Inr (if n = ''energy'' then ATTR_ENERGY else ATTR_POWER)" if "n \<in> set ns" for n
    using that assms(2) by (auto simp: attr_text_def getAttr_def)
  obtain a rest where ns: "ns = a # rest" using assms(1) by (cases ns) auto
  show ?thesis
  proof (cases rest)
    case Nil
    then have "comma_from a 0 = None" using c [of a] by (simp add: comma_from_def ns)
    then show ?thesis using c [of a] g [of a] Nil by (simp add: ns comma_joined_def parse_attrs.simps [of a])
  next
    case (Cons b more)
    define t where "t = comma_joined (b # more)"
    have j: "comma_joined ns = a @ CHR '','' # t" by (simp add: ns Cons comma_joined_def t_def)
    have q: "comma_from (a @ CHR '','' # t) 0 = Some (length a)" using c [of a] by (simp add: comma_from_def ns)
    have p: "parse_attrs (a @ CHR '','' # t) 0 =
        rbind (parse_attrs (a @ CHR '','' # t) (Suc (length a))) (\<lambda>as. Inr ((if a = ''energy'' then ATTR_ENERGY else ATTR_POWER) # as))"
      using g [of a] q by (subst parse_attrs.simps) (simp add: ns)
    show ?thesis
    proof (cases more)
      case Nil
      then have "t = b" by (simp add: t_def comma_joined_def)
      moreover have "comma_from (a @ CHR '','' # b) (Suc (length a)) = None" using c [of b] by (simp add: comma_from_def ns Cons)
      ultimately have "parse_attrs (a @ CHR '','' # t) (Suc (length a)) = Inr [if b = ''energy'' then ATTR_ENERGY else ATTR_POWER]"
        using c [of b] g [of b] by (subst parse_attrs.simps) (simp add: ns Cons)
      then show ?thesis unfolding j p by (simp add: ns Cons Nil)
    next
      case (Cons d more')
      define u where "u = comma_joined more"
      have t: "t = b @ CHR '','' # u" by (simp add: t_def u_def Cons comma_joined_def)
      let ?s = "a @ CHR '','' # b @ CHR '','' # u"
      have "comma_from ?s (Suc (length a)) = Some (Suc (length a + length b))"
        using c [of b] by (simp add: comma_from_def ns \<open>rest = b # more\<close>)
      moreover have "getAttr (take (Suc (length a + length b)) (b @ CHR '','' # u)) = Inl AssertFailed"
      proof (rule ccontr)
        assume "getAttr (take (Suc (length a + length b)) (b @ CHR '','' # u)) \<noteq> Inl AssertFailed"
        then have "attr_text (take (Suc (length a + length b)) (b @ CHR '','' # u))"
          by (auto simp: attr_text_def getAttr_def split: if_splits)
        then have "CHR '','' \<notin> set (take (Suc (length a + length b)) (b @ CHR '','' # u))" using attr_text_simps by blast
        then show False by (simp add: take_Cons' split: if_splits)
      qed
      ultimately have "parse_attrs ?s (Suc (length a)) = Inl AssertFailed"
        by (subst parse_attrs.simps) simp
      then show ?thesis using p unfolding j t by (simp add: ns \<open>rest = b # more\<close> Cons)
    qed
  qed
qed

theorem logger_attributes_witness:
  "parse_attrs ''energy,power'' 0 = Inr [ATTR_ENERGY, ATTR_POWER] \<and> parse_attrs ''energy,power,energy'' 0 = Inl AssertFailed"
  using logger_attributes [of "[''energy'', ''power'']"] logger_attributes [of "[''energy'', ''power'', ''energy'']"]
  by (simp add: attr_text_def comma_joined_def)


subsection \<open>Making the logger\<close>

record log_args =
  la_object :: string
  la_attr :: string
  la_logfile :: string
  la_name :: string
  la_count :: string
  la_delay :: string
  la_config :: string
  la_root :: string
  la_server :: string
  la_serverPort :: string

datatype log_opt =
    LG_OBJECT | LG_ATTR | LG_LOGFILE | LG_NAME | LG_COUNT | LG_DELAY | LG_CONFIG | LG_ROOT | LG_SERVER | LG_SERVER_PORT | LG_Unknown

fun log_option :: "log_opt \<times> string \<Rightarrow> log_args \<Rightarrow> log_args" where
  "log_option (LG_OBJECT, s) a = a\<lparr>la_object := s\<rparr>"
| "log_option (LG_ATTR, s) a = a\<lparr>la_attr := s\<rparr>"
| "log_option (LG_LOGFILE, s) a = a\<lparr>la_logfile := s\<rparr>"
| "log_option (LG_NAME, s) a = a\<lparr>la_name := s\<rparr>"
| "log_option (LG_COUNT, s) a = a\<lparr>la_count := s\<rparr>"
| "log_option (LG_DELAY, s) a = a\<lparr>la_delay := s\<rparr>"
| "log_option (LG_CONFIG, s) a = a\<lparr>la_config := s\<rparr>"
| "log_option (LG_ROOT, s) a = a\<lparr>la_root := s\<rparr>"
| "log_option (LG_SERVER, s) a = a\<lparr>la_server := s\<rparr>"
| "log_option (LG_SERVER_PORT, s) a = a\<lparr>la_serverPort := s\<rparr>"
| "log_option (LG_Unknown, s) a = a"

definition log_initArgs :: "(log_opt \<times> string) list \<Rightarrow> log_args" where
  "log_initArgs opts = fold log_option opts
     \<lparr>la_object = [], la_attr = [], la_logfile = [], la_name = [], la_count = [], la_delay = [], la_config = [], la_root = [],
      la_server = [], la_serverPort = []\<rparr>"

text \<open>What the logger can be asked to do; groups are given by their address.\<close>

datatype log_work =
    Stat_Work stat attr attr_stat
  | SetMult_Work nat "attr list" "cell list"
  | Mult_Work nat "attr list"
  | PowerGrp_Work nat string
  | Power_Work string
  | Energy_Work string
  | Rate_Work string

definition need_object :: "nat \<Rightarrow> string \<Rightarrow> ('o, 's) lib \<Rightarrow> (string \<times> ('o, 's) lib) res" where
  "need_object k name lb =
     rbind (PWR_CntxtGetObjByName k name lb) (\<lambda>((rc, ob), lb').
     case ob of None \<Rightarrow> Inl AssertFailed | Some x \<Rightarrow> Inr (x, lb'))"

text \<open>The objects of a type: a name that is no type has none, which fails the assertion as well.  \<open>n\<close> is the depth of the walk.\<close>

definition need_type :: "nat \<Rightarrow> nat \<Rightarrow> string \<Rightarrow> ('o, 's) lib \<Rightarrow> (nat \<times> ('o, 's) lib) res" where
  "need_type n k type lb =
     (case objStringToType type of
        None \<Rightarrow> Inl AssertFailed
      | Some t \<Rightarrow>
          rbind (PWR_CntxtGetGrpByType n k t lb) (\<lambda>((rc, g), lb').
          case g of None \<Rightarrow> Inl AssertFailed | Some i \<Rightarrow> Inr (i, lb')))"

definition need_group :: "nat \<Rightarrow> nat \<Rightarrow> string \<Rightarrow> ('o, 's) lib \<Rightarrow> (nat \<times> ('o, 's) lib) res" where
  "need_group n k name lb =
     (if prefix ''TYPE:'' name then need_type n k (drop 5 name) lb
      else rbind (need_object k name lb) (\<lambda>(x, lb1).
           let ((rc, g), lb2) = PWR_GrpCreate lb1
           in rbind (PWR_GrpAddObj g x lb2) (\<lambda>(rc', lb3). c_assert (rc' = RET_SUCCESS) (Inr (g, lb3)))))"

text \<open>\<open>mk\<close> is \<^verbatim>\<open>PWR_ObjCreateStat\<close> on the context that was made.\<close>

definition stat_work ::
  "nat \<Rightarrow> (('o, 's) lib \<Rightarrow> string \<Rightarrow> attr \<Rightarrow> attr_stat \<Rightarrow> stat option) \<Rightarrow> string \<Rightarrow> string \<Rightarrow> ('o, 's) lib \<Rightarrow> (log_work \<times> ('o, 's) lib) res" where
  "stat_work k mk name attrs lb =
     rbind (PWR_CntxtGetObjByName k name lb) (\<lambda>((rc, ob), lb').
     c_assert (rc = RET_SUCCESS)
       (case ob of
          None \<Rightarrow> Inl MemoryFault
        | Some x \<Rightarrow>
            (let pos = find_first_of CHR '','' attrs
             in rbind (getAttr (sub_to pos attrs)) (\<lambda>a. rbind (getAttrStat (sub_from pos attrs)) (\<lambda>op.
                case mk lb' x a op of None \<Rightarrow> Inl AssertFailed | Some st \<Rightarrow> Inr (Stat_Work st a op, lb'))))))"

definition select_work ::
  "nat \<Rightarrow> nat \<Rightarrow> (('o, 's) lib \<Rightarrow> string \<Rightarrow> attr \<Rightarrow> attr_stat \<Rightarrow> stat option) \<Rightarrow> string \<Rightarrow> string \<Rightarrow> ('o, 's) lib
   \<Rightarrow> (log_work \<times> ('o, 's) lib) res" where
  "select_work n k mk obj att lb =
     (if prefix ''STAT:'' att then stat_work k mk obj (drop 5 att) lb
      else if prefix ''SETMULT:'' att then
        rbind (need_group n k obj lb) (\<lambda>(g, lb'). rbind (parse_attrs (drop 8 att) 0) (\<lambda>as.
        Inr (SetMult_Work g as (map (\<lambda>i. Dbl (1000 + real i)) [0..<length as]), lb')))
      else if prefix ''MULT:'' att then
        rbind (need_group n k obj lb) (\<lambda>(g, lb'). rbind (parse_attrs (drop 5 att) 0) (\<lambda>as. Inr (Mult_Work g as, lb')))
      else if att = ''power'' then
        (if prefix ''TYPE:'' obj then rbind (need_type n k (drop 5 obj) lb) (\<lambda>(g, lb'). Inr (PowerGrp_Work g (drop 5 obj), lb'))
         else rbind (need_object k obj lb) (\<lambda>(x, lb'). Inr (Power_Work x, lb')))
      else if att = ''energy'' then rbind (need_object k obj lb) (\<lambda>(x, lb'). Inr (Energy_Work x, lb'))
      else if att = ''rate'' then rbind (need_object k obj lb) (\<lambda>(x, lb'). Inr (Rate_Work x, lb'))
      else Inl AssertFailed)"

text \<open>The constructor; \<open>fopen\<close> says whether the file of the log can be opened.\<close>

definition Logger_new ::
  "nat \<Rightarrow> nat \<Rightarrow> ('o, 's) platform \<Rightarrow> (string \<Rightarrow> bool) \<Rightarrow> (('o, 's) lib \<Rightarrow> string \<Rightarrow> attr \<Rightarrow> attr_stat \<Rightarrow> stat option)
   \<Rightarrow> (log_opt \<times> string) list \<Rightarrow> 's \<Rightarrow> (log_work \<times> int \<times> ('o, 's) lib) res" where
  "Logger_new n k pf fopen mk opts s =
     (let a = log_initArgs opts;
          env = context_env (la_name a) (la_config a) (la_root a) (la_server a) (la_serverPort a) (pf_env pf)
      in rbind (PWR_CntxtInit k (pf\<lparr>pf_env := env\<rparr>) ROLE_ADMIN (la_name a) s) (\<lambda>(rc, ctx).
         case ctx of
           None \<Rightarrow> Inl UninitRead
         | Some lb \<Rightarrow>
             if la_logfile a \<noteq> [] \<and> \<not> fopen (la_logfile a) then Inl ExitFatal
             else rbind (select_work n k mk (la_object a) (la_attr a) lb) (\<lambda>(w, lb').
                  Inr (w, if la_delay a = [] then 0 else atoi (la_delay a), lb'))))"

subsection \<open>The loops\<close>

text \<open>
  The loops go on until a call fails: \<open>turns\<close> runs a number of their turns and says whether the loop has returned, with
  what was printed on the way.
\<close>

fun turns :: "('st \<Rightarrow> (bool \<times> 'e list \<times> 'st) res) \<Rightarrow> nat \<Rightarrow> 'st \<Rightarrow> (bool \<times> 'e list \<times> 'st) res" where
  "turns f 0 st = Inr (False, [], st)"
| "turns f (Suc n) st =
     rbind (f st) (\<lambda>(stop, es, st').
     if stop then Inr (True, es, st') else rbind (turns f n st') (\<lambda>(b, es', st''). Inr (b, es @ es', st'')))"

datatype log_entry =
    Log_Error int
  | Log_Power cell pwr_time
  | Log_Joules real pwr_time
  | Log_Row string attr cell pwr_time
  | Log_Stat cell period
  | Log_Rate nat

type_synonym 'st attr_read = "'st \<Rightarrow> ((int \<times> cell list \<times> pwr_time list) \<times> 'st) res"

definition power_turn :: "'st attr_read \<Rightarrow> 'st \<Rightarrow> (bool \<times> log_entry list \<times> 'st) res" where
  "power_turn rd s =
     rbind (rd s) (\<lambda>((rc, vs, ts), s').
     if rc \<noteq> RET_SUCCESS then Inr (True, [Log_Error rc], s')
     else rbind (arr_get vs 0) (\<lambda>v. rbind (arr_get ts 0) (\<lambda>t. Inr (False, [Log_Power v t], s'))))"

fun energy_turn :: "'st attr_read \<Rightarrow> 'st \<times> real \<Rightarrow> (bool \<times> log_entry list \<times> 'st \<times> real) res" where
  "energy_turn rd (s, start) =
     rbind (rd s) (\<lambda>((rc, vs, ts), s').
     if rc \<noteq> RET_SUCCESS then Inr (True, [Log_Error rc], s', start)
     else rbind (rbind (arr_get vs 0) load_double) (\<lambda>v. rbind (arr_get ts 0) (\<lambda>t.
          if start = 0 then Inr (False, [], s', v) else Inr (False, [Log_Joules (v - start) t], s', v))))"

definition rate_turn :: "'st attr_read \<Rightarrow> 'st \<Rightarrow> (bool \<times> log_entry list \<times> 'st) res" where
  "rate_turn rd s =
     rbind (rd s) (\<lambda>((rc, vs, ts), s'). if rc \<noteq> RET_SUCCESS then Inr (True, [Log_Error rc], s') else Inr (False, [], s'))"

definition rate_work :: "'st attr_read \<Rightarrow> 'st \<Rightarrow> (bool \<times> log_entry list \<times> 'st) res" where
  "rate_work rd s =
     rbind (turns (rate_turn rd) 1000 s) (\<lambda>(stop, es, s').
     if stop then Inr (True, es, s') else Inr (True, es @ [Log_Rate 1000], s'))"

text \<open>
  The name of an object for a line of the log: the copy of a name that does not fit the 100 characters has no end, and printing it reads on.
\<close>

definition obj_name :: "string \<Rightarrow> string res" where
  "obj_name x =
     (let (rc, buf) = PWR_ObjGetName x 100 in if rc = RET_SUCCESS then Inr (takeWhile (\<lambda>c. c \<noteq> CHR 0x00) buf) else Inl MemoryFault)"

text \<open>A read of one attribute through the library; the value starts as 0, the time is not set.\<close>

definition read_attr :: "(string \<Rightarrow> string option) \<Rightarrow> string \<Rightarrow> attr \<Rightarrow> ('o, 's) lib attr_read" where
  "read_attr look x a lb = PWR_ObjAttrGetValue look x a (Dbl 0) 0 lb"

text \<open>\<^verbatim>\<open>Mult::work\<close>: the rows of a group; names are copied into 100 characters.\<close>

fun log_rows :: "group \<Rightarrow> attr list \<Rightarrow> cell list \<Rightarrow> pwr_time list \<Rightarrow> nat \<Rightarrow> nat \<Rightarrow> log_entry list res" where
  "log_rows g as vs ts j 0 = Inr []"
| "log_rows g as vs ts j (Suc m) =
     rbind (group_getObj g j) (\<lambda>x.
     c_assert (length x < 100)
       (rbind (log_rows g as vs ts (Suc j) m) (\<lambda>es.
        Inr (map (\<lambda>i. Log_Row x (as ! i) (vs ! (j * length as + i)) (ts ! (j * length as + i))) [0..<length as] @ es))))"

definition mult_turn :: "(string \<Rightarrow> string option) \<Rightarrow> nat \<Rightarrow> attr list \<Rightarrow> nat \<Rightarrow> ('o, 's) lib \<Rightarrow> (bool \<times> log_entry list \<times> ('o, 's) lib) res" where
  "mult_turn look g as m lb =
     (let n = length as * m
      in rbind (PWR_GrpAttrGetValues look g as (replicate n (Dbl 0)) (replicate n 0) [] lb) (\<lambda>((rc, vs, ts, st), lb').
         if rc \<noteq> RET_SUCCESS then Inr (True, [Log_Error rc], lb')
         else rbind (grp_at g lb') (\<lambda>gr. rbind (log_rows gr as vs ts 0 m) (\<lambda>es. Inr (False, es, lb')))))"

text \<open>The number of objects is taken before the loop.\<close>

definition mult_loop ::
  "(string \<Rightarrow> string option) \<Rightarrow> nat \<Rightarrow> nat \<Rightarrow> attr list \<Rightarrow> ('o, 's) lib \<Rightarrow> (bool \<times> log_entry list \<times> ('o, 's) lib) res" where
  "mult_loop look n g as lb = rbind (PWR_GrpGetNumObjs g lb) (\<lambda>m. turns (mult_turn look g as (nat m)) n lb)"

text \<open>\<^verbatim>\<open>PowerGrp::work\<close>, which asks for one attribute.  It does not look at what the call for the name returns: a longer name is copied without its end and
  printing it reads on.\<close>

fun power_rows :: "group \<Rightarrow> cell list \<Rightarrow> pwr_time list \<Rightarrow> nat \<Rightarrow> nat \<Rightarrow> log_entry list res" where
  "power_rows g vs ts i 0 = Inr []"
| "power_rows g vs ts i (Suc m) =
     rbind (group_getObj g i) (\<lambda>x.
     rbind (obj_name x) (\<lambda>x'.
     rbind (power_rows g vs ts (Suc i) m) (\<lambda>es. Inr (Log_Row x' ATTR_POWER (vs ! i) (ts ! i) # es))))"

definition powerGrp_turn :: "(string \<Rightarrow> string option) \<Rightarrow> nat \<Rightarrow> nat \<Rightarrow> ('o, 's) lib \<Rightarrow> (bool \<times> log_entry list \<times> ('o, 's) lib) res" where
  "powerGrp_turn look g m lb =
     rbind (PWR_GrpAttrGetValue look g ATTR_POWER (replicate m (Dbl 0)) (replicate m 0) [] lb) (\<lambda>((rc, vs, ts, st), lb').
     if rc \<noteq> RET_SUCCESS then Inr (True, [Log_Error rc], lb')
     else rbind (grp_at g lb') (\<lambda>gr. rbind (power_rows gr vs ts 0 m) (\<lambda>es. Inr (False, es, lb'))))"

definition powerGrp_loop ::
  "(string \<Rightarrow> string option) \<Rightarrow> nat \<Rightarrow> nat \<Rightarrow> ('o, 's) lib \<Rightarrow> (bool \<times> log_entry list \<times> ('o, 's) lib) res" where
  "powerGrp_loop look n g lb = rbind (PWR_GrpGetNumObjs g lb) (\<lambda>m. turns (powerGrp_turn look g (nat m)) n lb)"

definition set_mult ::
  "(string \<Rightarrow> string option) \<Rightarrow> nat \<Rightarrow> attr list \<Rightarrow> cell list \<Rightarrow> ('o, 's) lib \<Rightarrow> (bool \<times> log_entry list \<times> ('o, 's) lib) res" where
  "set_mult look g as vs lb =
     rbind (PWR_GrpAttrSetValues look g as vs [] lb) (\<lambda>((rc, _, _), lb').
     Inr (True, if rc \<noteq> RET_SUCCESS then [Log_Error rc] else [], lb'))"

text \<open>
  \<^verbatim>\<open>Stat::work\<close>: the statistic is started and asked for the second before now; \<open>clk\<close> is the clock of
  the process in nanoseconds and \<open>junk\<close> what an unset time stamp holds.
\<close>

definition with_lib :: "(('r \<times> 's \<times> net) res) \<Rightarrow> ('o, 's) lib \<Rightarrow> ('r \<times> ('o, 's) lib) res" where
  "with_lib m lb = rbind m (\<lambda>(r, (s, nt)). Inr (r, lb\<lparr>lb_st := s, lb_net := nt\<rparr>))"

definition stat_turn :: "('s \<Rightarrow> pwr_time \<times> 's) \<Rightarrow> pwr_time \<Rightarrow> stat \<Rightarrow> ('o, 's) lib \<Rightarrow> (bool \<times> log_entry list \<times> ('o, 's) lib) res" where
  "stat_turn clk junk st lb =
     (let (now, s) = clk (lb_st lb)
      in rbind (with_lib (stat_getValue clk junk (obj_of (lb_cx lb)) st \<lparr>p_start = now - 1000000000, p_stop = now, p_instant = junk\<rparr>
                            (s, lb_net lb)) lb) (\<lambda>((rc, v, p), lb').
         if rc \<noteq> RET_SUCCESS then Inr (True, [Log_Error rc], lb') else Inr (False, [Log_Stat v p], lb')))"

definition stat_loop ::
  "(string \<Rightarrow> string option) \<Rightarrow> ('s \<Rightarrow> pwr_time \<times> 's) \<Rightarrow> pwr_time \<Rightarrow> nat \<Rightarrow> stat \<Rightarrow> ('o, 's) lib
   \<Rightarrow> (bool \<times> log_entry list \<times> ('o, 's) lib) res" where
  "stat_loop look clk junk n st lb =
     rbind (with_lib (stat_start clk look (obj_of (lb_cx lb)) st (lb_st lb, lb_net lb)) lb) (\<lambda>((rc, st'), lb').
     if rc \<noteq> RET_SUCCESS then Inr (True, [Log_Error rc], lb') else turns (stat_turn clk junk st') n lb')"

text \<open>\<^verbatim>\<open>Logger::work\<close> for a number of turns.\<close>

definition Logger_work ::
  "(string \<Rightarrow> string option) \<Rightarrow> ('s \<Rightarrow> pwr_time \<times> 's) \<Rightarrow> pwr_time \<Rightarrow> nat \<Rightarrow> log_work \<Rightarrow> ('o, 's) lib
   \<Rightarrow> (bool \<times> log_entry list \<times> ('o, 's) lib) res" where
  "Logger_work look clk junk n w lb =
     (case w of
        Stat_Work st a op \<Rightarrow> stat_loop look clk junk n st lb
      | SetMult_Work g as vs \<Rightarrow> set_mult look g as vs lb
      | Mult_Work g as \<Rightarrow> mult_loop look n g as lb
      | PowerGrp_Work g ty \<Rightarrow> powerGrp_loop look n g lb
      | Power_Work x \<Rightarrow> rbind (obj_name x) (\<lambda>_. turns (power_turn (read_attr look x ATTR_POWER)) n lb)
      | Energy_Work x \<Rightarrow> rbind (obj_name x) (\<lambda>_.
          rbind (turns (energy_turn (read_attr look x ATTR_ENERGY)) n (lb, 0)) (\<lambda>(b, es, (lb', _)). Inr (b, es, lb')))
      | Rate_Work x \<Rightarrow> rbind (obj_name x) (\<lambda>_. rate_work (read_attr look x ATTR_ENERGY) lb))"

subsection \<open>What the energy log adds up to\<close>

text \<open>The values a number of reads give.\<close>

fun readings :: "'st attr_read \<Rightarrow> nat \<Rightarrow> 'st \<Rightarrow> real list res" where
  "readings rd 0 s = Inr []"
| "readings rd (Suc n) s =
     rbind (rd s) (\<lambda>((rc, vs, ts), s').
     c_assert (rc = RET_SUCCESS) (rbind (rbind (arr_get vs 0) load_double) (\<lambda>v. rbind (readings rd n s') (\<lambda>xs. Inr (v # xs)))))"

fun joules :: "log_entry list \<Rightarrow> real list" where
  "joules [] = []"
| "joules (Log_Joules d t # es) = d # joules es"
| "joules (_ # es) = joules es"

lemma joules_append [simp]: "joules (es @ fs) = joules es @ joules fs"
  by (induction es rule: joules.induct) auto

fun deltas :: "real \<Rightarrow> real list \<Rightarrow> real list" where
  "deltas v [] = []"
| "deltas v (w # ws) = (w - v) # deltas w ws"

lemma sum_deltas: "sum_list (deltas v ws) = last (v # ws) - v"
  by (induction v ws rule: deltas.induct) auto

lemma length_deltas [simp]: "length (deltas v ws) = length ws"
  by (induction v ws rule: deltas.induct) auto

lemma energy_turns:
  assumes "turns (energy_turn rd) n (s, v) = Inr (b, es, st)" and "readings rd n s = Inr vs" and "v \<noteq> 0" and "0 \<notin> set vs"
  shows "\<not> b \<and> joules es = deltas v vs"
  using assms
proof (induction n arbitrary: s v vs es)
  case (Suc n)
  obtain rc xs ts s' w ws where r: "rd s = Inr ((rc, xs, ts), s')" "rc = RET_SUCCESS" "rbind (arr_get xs 0) load_double = Inr w"
    and ws: "readings rd n s' = Inr ws" "vs = w # ws"
    using Suc.prems(2) by (auto simp: c_assert_eq_Inr_iff elim!: rbind_eq_InrE)
  obtain t es' where t: "arr_get ts 0 = Inr t" and n: "turns (energy_turn rd) n (s', w) = Inr (b, es', st)"
    and es: "es = Log_Joules (w - v) t # es'"
    using Suc.prems(1,3) r by (auto elim!: rbind_eq_InrE)
  from Suc.IH [OF n ws(1)] Suc.prems(4) ws(2) es show ?case by auto
qed simp


text \<open>A meter that counts up by two at every read.\<close>

definition meter :: "real devops" where
  "meter = \<lparr>d_read = (\<lambda>s a v len t. Inr ((RET_SUCCESS, Dbl s, Some 7), s + 2)), d_write = (\<lambda>s a v len. Inr ((RET_NOT_IMPLEMENTED, v), s)),
     d_readv = None, d_writev = None, d_log_start = None, d_log_stop = None, d_get_samples = None\<rparr>"

definition meter_lib :: "(unit, real) lib" where
  "meter_lib = new_lib (((empty_cx tree_config ''n'') :: (unit, real) cntxt)\<lparr>objMap := [''n'' \<mapsto> \<lparr>o_name = ''n'', o_type = OBJ_NODE,
     attrInfo = (\<lambda>a. \<lparr>devices = [meter], comm = None, operation = Some sumOp, calcTime = timeOp, valueOp = FP_ADD\<rparr>)\<rparr>]\<rparr>, 5) False"

lemma meter_read:
  "read_attr (\<lambda>_. None) ''n'' ATTR_ENERGY (meter_lib\<lparr>lb_st := v\<rparr>) =
     Inr ((RET_SUCCESS, [Dbl v], [7]), meter_lib\<lparr>lb_st := v + 2\<rparr>)"
proof -
  define ob where "ob = obj_of (lb_cx meter_lib) ''n''"
  have ob: "attrInfo ob = (\<lambda>a. \<lparr>devices = [meter], comm = None, operation = Some sumOp, calcTime = timeOp, valueOp = FP_ADD\<rparr>)"
    by (simp add: ob_def meter_lib_def new_lib_def obj_of_def)
  have "isLocal ob = Inr True" by (simp add: isLocal_iff ob)
  from dist_local_equivalent [OF this]
  have "dist_attrGetValue (\<lambda>_. None) ob ATTR_ENERGY (v, nt) (Dbl 0) 0 =
      rbind (attrGetValue ob ATTR_ENERGY v (Dbl 0) 0) (\<lambda>(r, s'). Inr (r, (s', nt)))" for nt by blast
  moreover have "sumOp [Dbl v] = Inr (Dbl v)" using sumOp_Dbl [of "[v]"] by simp
  ultimately have "dist_attrGetValue (\<lambda>_. None) ob ATTR_ENERGY (v, nt) (Dbl 0) 0 = Inr ((RET_SUCCESS, [Dbl v], [7]), (v + 2, nt))" for nt
    by (simp add: attrGetValue_unfold isValid_def ob attrGetValuesDevice_def getValue_def meter_def timeOp_def arr_get_def)
  then show ?thesis by (simp add: read_attr_def PWR_ObjAttrGetValue_def ob_def)
qed

lemma obj_name_n: "obj_name ''n'' = Inr ''n''"
  by code_simp


end
