(* ===== verification/Python_Config.thy ===== *)
theory Python_Config imports Xml_Config Tcp_Channel begin

text \<open>
  The reader of configurations that are Python modules (\<^verbatim>\<open>src/pwr/pythonConfig.cc\<close>).  The interpreter is outside the
  repository: a module is a record of functions (\<open>py_iface\<close>) over a heap of objects with their reference counts, and of
  the interpreter's own functions the documented effect on the heap is written out, since that is what the reader has to get right.
\<close>

subsection \<open>Objects of the interpreter\<close>

datatype py_obj = Py_Bytes string | Py_Unicode string | Py_Long int | Py_List "nat list" | Py_Other

type_synonym py_heap = "nat \<Rightarrow> (py_obj \<times> nat) option"

datatype py_arg = Arg_Str string | Arg_Long int

text \<open>
  \<open>pi_has\<close>: the module has the function; \<open>pi_call\<close>: the object a call returns, of which the caller owns one reference, and the
  heap after it; no object is an exception.  The arguments are new objects that the reader gives up after the call.
\<close>

record py_iface =
  pi_has :: "string \<Rightarrow> bool"
  pi_call :: "string \<Rightarrow> py_arg list \<Rightarrow> py_heap \<Rightarrow> nat option \<times> py_heap"

text \<open>
  \<^verbatim>\<open>Py_DECREF\<close> gives up a reference; an object without references is freed, and a list then gives up its items, the last first.
  \<open>k\<close> bounds how deep lists are nested.
\<close>

primrec py_decref :: "nat \<Rightarrow> nat \<Rightarrow> py_heap \<Rightarrow> py_heap res" where
  "py_decref 0 a h = Inl Diverges"
| "py_decref (Suc k) a h =
     (case h a of
        None \<Rightarrow> Inl DoubleFree
      | Some (ob, n) \<Rightarrow>
          if 1 < n then Inr (h(a \<mapsto> (ob, n - 1)))
          else (case ob of Py_List xs \<Rightarrow> run_all (py_decref k) (rev xs) (h(a := None)) | _ \<Rightarrow> Inr (h(a := None))))"

definition py_at :: "nat \<Rightarrow> py_heap \<Rightarrow> py_obj res" where
  "py_at a h = (case h a of None \<Rightarrow> Inl MemoryFault | Some (ob, n) \<Rightarrow> Inr ob)"

text \<open>\<^verbatim>\<open>PyList_Size\<close> is -1 for what is not a list; the loops over the items then do nothing.\<close>

definition PyList_Size :: "nat \<Rightarrow> py_heap \<Rightarrow> int res" where
  "PyList_Size a h = rbind (py_at a h) (\<lambda>ob. Inr (case ob of Py_List xs \<Rightarrow> int (length xs) | _ \<Rightarrow> -1))"

definition py_items :: "nat \<Rightarrow> py_heap \<Rightarrow> nat list res" where
  "py_items a h = rbind (py_at a h) (\<lambda>ob. Inr (case ob of Py_List xs \<Rightarrow> xs | _ \<Rightarrow> []))"

text \<open>
  \<^verbatim>\<open>PyBytes_AsString\<close> gives a null pointer for what is not bytes.  Assigning that to a string reads through it; making a new string of
  it throws.
\<close>

definition PyBytes_AsString :: "nat \<Rightarrow> py_heap \<Rightarrow> string option res" where
  "PyBytes_AsString a h = rbind (py_at a h) (\<lambda>ob. Inr (case ob of Py_Bytes s \<Rightarrow> Some (takeWhile (\<lambda>c. c \<noteq> CHR 0x00) s) | _ \<Rightarrow> None))"

definition py_assign :: "nat \<Rightarrow> py_heap \<Rightarrow> string res" where
  "py_assign a h = rbind (PyBytes_AsString a h) (\<lambda>s. case s of None \<Rightarrow> Inl MemoryFault | Some x \<Rightarrow> Inr x)"

definition py_construct :: "nat \<Rightarrow> py_heap \<Rightarrow> string res" where
  "py_construct a h = rbind (PyBytes_AsString a h) (\<lambda>s. case s of None \<Rightarrow> Inl Uncaught | Some x \<Rightarrow> Inr x)"

subsection \<open>Loading\<close>

text \<open>
  The directory of the file goes to the environment and the module is its name without what follows the last dot.  The module is kept
  in a static member: once one is loaded, later readers do not load theirs.
\<close>

record 'm py_static =
  ps_module :: "'m option"
  ps_path :: "string option"

definition PythonConfig_new :: "(string option \<Rightarrow> string \<Rightarrow> 'm option) \<Rightarrow> string \<Rightarrow> 'm py_static \<Rightarrow> 'm py_static res" where
  "PythonConfig_new import file st =
     (let pos = find_last_of CHR ''/'' file;
          base = sub_from pos file;
          path = (case pos of None \<Rightarrow> ps_path st | Some p \<Rightarrow> Some (take p file));
          name = sub_to (find_last_of CHR ''.'' base) base
      in case ps_module st of
           Some m \<Rightarrow> Inr (st\<lparr>ps_path := path\<rparr>)
         | None \<Rightarrow>
             (case import path name of
                None \<Rightarrow> Inl AssertFailed
              | Some m \<Rightarrow> Inr \<lparr>ps_module = Some m, ps_path = path\<rparr>))"

subsection \<open>Lookups\<close>

definition py_call :: "py_iface \<Rightarrow> string \<Rightarrow> py_arg list \<Rightarrow> py_heap \<Rightarrow> (nat option \<times> py_heap) res" where
  "py_call m f args h = c_assert (pi_has m f) (Inr (pi_call m f args h))"

definition py_must_call :: "py_iface \<Rightarrow> string \<Rightarrow> py_arg list \<Rightarrow> py_heap \<Rightarrow> (nat \<times> py_heap) res" where
  "py_must_call m f args h =
     rbind (py_call m f args h) (\<lambda>(r, h'). case r of None \<Rightarrow> Inl AssertFailed | Some a \<Rightarrow> Inr (a, h'))"

text \<open>A result that is one string; where an exception is allowed the string is empty.\<close>

definition py_string :: "nat \<Rightarrow> py_iface \<Rightarrow> string \<Rightarrow> py_arg list \<Rightarrow> py_heap \<Rightarrow> (string \<times> py_heap) res" where
  "py_string k m f args h =
     rbind (py_must_call m f args h) (\<lambda>(a, h1). rbind (py_assign a h1) (\<lambda>s. rbind (py_decref k a h1) (\<lambda>h2. Inr (s, h2))))"

definition py_string_or_empty :: "nat \<Rightarrow> py_iface \<Rightarrow> string \<Rightarrow> py_arg list \<Rightarrow> py_heap \<Rightarrow> (string \<times> py_heap) res" where
  "py_string_or_empty k m f args h =
     rbind (py_call m f args h) (\<lambda>(r, h1).
     case r of
       None \<Rightarrow> Inr ([], h1)
     | Some a \<Rightarrow> rbind (py_assign a h1) (\<lambda>s. rbind (py_decref k a h1) (\<lambda>h2. Inr (s, h2))))"

text \<open>A result that is a list of strings: the references of the items are those of the list, which is given up.\<close>

fun py_strings :: "nat list \<Rightarrow> py_heap \<Rightarrow> string list res" where
  "py_strings [] h = Inr []"
| "py_strings (x # xs) h = rbind (py_construct x h) (\<lambda>s. rbind (py_strings xs h) (\<lambda>ss. Inr (s # ss)))"

definition py_list :: "nat \<Rightarrow> py_iface \<Rightarrow> string \<Rightarrow> py_arg list \<Rightarrow> py_heap \<Rightarrow> (string list \<times> py_heap) res" where
  "py_list k m f args h =
     rbind (py_must_call m f args h) (\<lambda>(a, h1). rbind (py_items a h1) (\<lambda>xs. rbind (py_strings xs h1) (\<lambda>ss.
     rbind (py_decref k a h1) (\<lambda>h2. Inr (ss, h2)))))"

text \<open>
  A result that is a list of rows of \<open>w\<close> strings.  Here the reference of every row is given up after it was read, and then that of the list.
\<close>

fun py_row :: "nat list \<Rightarrow> py_heap \<Rightarrow> string list res" where
  "py_row [] h = Inr []"
| "py_row (x # xs) h = rbind (py_assign x h) (\<lambda>s. rbind (py_row xs h) (\<lambda>ss. Inr (s # ss)))"

fun py_rows :: "nat \<Rightarrow> nat \<Rightarrow> nat \<Rightarrow> nat list \<Rightarrow> py_heap \<Rightarrow> (string list list \<times> py_heap) res" where
  "py_rows k a w [] h = rbind (py_at a h) (\<lambda>_. Inr ([], h))"
| "py_rows k a w (x # xs) h =
     rbind (py_at a h) (\<lambda>_. rbind (PyList_Size x h) (\<lambda>n. c_assert (n = int w)
       (rbind (py_items x h) (\<lambda>cs. rbind (py_row cs h) (\<lambda>r.
        rbind (py_decref k x h) (\<lambda>h'. rbind (py_rows k a w xs h') (\<lambda>(rs, h''). Inr (r # rs, h''))))))))"

definition py_table :: "nat \<Rightarrow> nat \<Rightarrow> py_iface \<Rightarrow> string \<Rightarrow> py_arg list \<Rightarrow> py_heap \<Rightarrow> (string list list \<times> py_heap) res" where
  "py_table k w m f args h =
     rbind (py_must_call m f args h) (\<lambda>(a, h1). rbind (py_items a h1) (\<lambda>xs. rbind (py_rows k a w xs h1) (\<lambda>(rs, h2).
     rbind (py_decref k a h2) (\<lambda>h3. Inr (rs, h3)))))"

subsection \<open>The names of types and attributes\<close>

definition py_objTypeStrToInt :: "string \<Rightarrow> obj_type option" where
  "py_objTypeStrToInt name =
     (if name = ''Platform'' then Some OBJ_PLATFORM
      else if name = ''Cabinet'' then Some OBJ_CABINET
      else if name = ''Chassis'' then Some OBJ_CHASSIS
      else if name = ''Board'' then Some OBJ_BOARD
      else if name = ''Node'' then Some OBJ_NODE
      else if name = ''Socket'' then Some OBJ_SOCKET
      else if name \<in> {''Core'', ''Power Plane'', ''Memory'', ''Nic''} then Some OBJ_CORE
      else None)"

definition py_attrNameToString :: "attr \<Rightarrow> string" where
  "py_attrNameToString a =
     (case a of
        ATTR_PSTATE \<Rightarrow> ''PSTATE'' | ATTR_CSTATE \<Rightarrow> ''CSTATE'' | ATTR_CSTATE_LIMIT \<Rightarrow> ''CSTATE_LIMIT''
      | ATTR_SSTATE \<Rightarrow> ''SSTATE'' | ATTR_CURRENT \<Rightarrow> ''CURRENT'' | ATTR_VOLTAGE \<Rightarrow> ''VOLTAGE''
      | ATTR_POWER \<Rightarrow> ''POWER'' | ATTR_POWER_LIMIT_MAX \<Rightarrow> ''MAX_POWER'' | ATTR_POWER_LIMIT_MIN \<Rightarrow> ''MIN_POWER''
      | ATTR_FREQ \<Rightarrow> ''FREQ'' | ATTR_FREQ_LIMIT_MIN \<Rightarrow> ''FREQ_MIN'' | ATTR_FREQ_LIMIT_MAX \<Rightarrow> ''FREQ_MAX''
      | ATTR_ENERGY \<Rightarrow> ''ENERGY'' | ATTR_TEMP \<Rightarrow> ''TEMP'' | ATTR_OS_ID \<Rightarrow> ''OS_ID'' | ATTR_GOV \<Rightarrow> ''GOV''
      | ATTR_THROTTLED_TIME \<Rightarrow> ''THROTTLED_TIME'' | ATTR_THROTTLED_COUNT \<Rightarrow> ''THROTTLED_COUNT'')"

definition py_objTypeToString :: "obj_type option \<Rightarrow> string" where
  "py_objTypeToString t =
     (case t of
        Some OBJ_PLATFORM \<Rightarrow> ''Platform'' | Some OBJ_CABINET \<Rightarrow> ''Cabinet'' | Some OBJ_BOARD \<Rightarrow> ''Board''
      | Some OBJ_NODE \<Rightarrow> ''Node'' | Some OBJ_SOCKET \<Rightarrow> ''Socket'' | Some OBJ_CORE \<Rightarrow> ''Core''
      | Some OBJ_NIC \<Rightarrow> ''Nic'' | Some OBJ_MEM \<Rightarrow> ''Memory'' | None \<Rightarrow> ''Invalid'' | _ \<Rightarrow> ''????'')"

text \<open>Both readers know the same names.\<close>

lemma py_names_are_xml_names:
  "py_objTypeStrToInt = xml_objTypeStrToInt" "py_attrNameToString = xml_attrNameToString"
  by (auto simp: py_objTypeStrToInt_def xml_objTypeStrToInt_def py_attrNameToString_def fun_eq_iff split: attr.splits)

lemma py_types_read_as_core:
  "py_objTypeStrToInt (py_objTypeToString (Some t)) = Some t \<longleftrightarrow>
     t \<in> {OBJ_PLATFORM, OBJ_CABINET, OBJ_BOARD, OBJ_NODE, OBJ_SOCKET, OBJ_CORE}"
  by (cases t) (simp_all add: py_objTypeStrToInt_def py_objTypeToString_def)

subsection \<open>The operations of the reader\<close>

definition py_obj_attr :: "string \<Rightarrow> attr \<Rightarrow> py_arg list" where
  "py_obj_attr name a = [Arg_Str name, Arg_Str (py_attrNameToString a)]"

definition py_findObjLocation :: "nat \<Rightarrow> py_iface \<Rightarrow> string \<Rightarrow> py_heap \<Rightarrow> (string \<times> py_heap) res" where
  "py_findObjLocation k m name h = py_string_or_empty k m ''findObjLocation'' [Arg_Str name] h"

definition py_hasServer :: "nat \<Rightarrow> py_iface \<Rightarrow> string \<Rightarrow> py_heap \<Rightarrow> (bool \<times> py_heap) res" where
  "py_hasServer k m name h = rbind (py_findObjLocation k m name h) (\<lambda>(s, h'). Inr (s \<noteq> [], h'))"

text \<open>\<^verbatim>\<open>hasObject\<close> asks about object 0, whatever its argument, and never returns.\<close>

definition py_hasObject :: "nat \<Rightarrow> py_iface \<Rightarrow> string \<Rightarrow> py_heap \<Rightarrow> (bool \<times> py_heap) res" where
  "py_hasObject k m name h =
     rbind (py_must_call m ''hasObject'' [Arg_Long 0] h) (\<lambda>(a, h1). rbind (py_decref k a h1) (\<lambda>_. Inl AssertFailed))"

definition py_objType :: "nat \<Rightarrow> py_iface \<Rightarrow> string \<Rightarrow> py_heap \<Rightarrow> (obj_type option \<times> py_heap) res" where
  "py_objType k m name h =
     rbind (py_call m ''getObjType'' [Arg_Str name] h) (\<lambda>(r, h1).
     case r of
       None \<Rightarrow> Inr (None, h1)
     | Some a \<Rightarrow> rbind (py_construct a h1) (\<lambda>s. rbind (py_decref k a h1) (\<lambda>h2. Inr (py_objTypeStrToInt s, h2))))"

definition py_findPlugins :: "nat \<Rightarrow> py_iface \<Rightarrow> py_heap \<Rightarrow> ((string \<times> string) list \<times> py_heap) res" where
  "py_findPlugins k m h =
     rbind (py_table k 2 m ''findPlugins'' [] h) (\<lambda>(rs, h'). Inr (map (\<lambda>r. (r ! 0, r ! 1)) rs, h'))"

definition py_findSysDevs :: "nat \<Rightarrow> py_iface \<Rightarrow> py_heap \<Rightarrow> ((string \<times> string \<times> string) list \<times> py_heap) res" where
  "py_findSysDevs k m h =
     rbind (py_table k 3 m ''findSysDevs'' [] h) (\<lambda>(rs, h'). Inr (map (\<lambda>r. (r ! 0, r ! 1, r ! 2)) rs, h'))"

definition py_findObjDevs :: "nat \<Rightarrow> py_iface \<Rightarrow> string \<Rightarrow> attr \<Rightarrow> py_heap \<Rightarrow> ((string \<times> string) list \<times> py_heap) res" where
  "py_findObjDevs k m name a h =
     rbind (py_table k 2 m ''findAttrDevs'' (py_obj_attr name a) h) (\<lambda>(rs, h'). Inr (map (\<lambda>r. (r ! 0, r ! 1)) rs, h'))"

definition py_findAttrChildren :: "nat \<Rightarrow> py_iface \<Rightarrow> string \<Rightarrow> attr \<Rightarrow> py_heap \<Rightarrow> (string list \<times> py_heap) res" where
  "py_findAttrChildren k m name a h = py_list k m ''findAttrChildren'' (py_obj_attr name a) h"

definition py_findAttrType :: "nat \<Rightarrow> py_iface \<Rightarrow> string \<Rightarrow> attr \<Rightarrow> py_heap \<Rightarrow> (string \<times> py_heap) res" where
  "py_findAttrType k m name a h = py_string k m ''findAttrType'' (py_obj_attr name a) h"

definition py_findAttrOp :: "nat \<Rightarrow> py_iface \<Rightarrow> string \<Rightarrow> attr \<Rightarrow> py_heap \<Rightarrow> (string \<times> py_heap) res" where
  "py_findAttrOp k m name a h = py_string k m ''findAttrOp'' (py_obj_attr name a) h"

definition py_findAttrHz :: "nat \<Rightarrow> py_iface \<Rightarrow> string \<Rightarrow> attr \<Rightarrow> py_heap \<Rightarrow> (string \<times> py_heap) res" where
  "py_findAttrHz k m name a h = py_string k m ''findAttrHz'' (py_obj_attr name a) h"

definition py_findChildren :: "nat \<Rightarrow> py_iface \<Rightarrow> string \<Rightarrow> py_heap \<Rightarrow> (string list \<times> py_heap) res" where
  "py_findChildren k m name h = py_list k m ''findChildren'' [Arg_Str name] h"

definition py_findParent :: "nat \<Rightarrow> py_iface \<Rightarrow> string \<Rightarrow> py_heap \<Rightarrow> (string \<times> py_heap) res" where
  "py_findParent k m name h = py_string_or_empty k m ''findParent'' [Arg_Str name] h"

subsection \<open>References\<close>

text \<open>Giving up references only takes objects away or lowers their counts.\<close>

definition fewer :: "py_heap \<Rightarrow> py_heap \<Rightarrow> bool" where
  "fewer h' h \<longleftrightarrow> (\<forall>x. h' x = None \<or> (\<exists>ob n n'. h x = Some (ob, n) \<and> h' x = Some (ob, n') \<and> n' \<le> n \<and> (n' = 0 \<longrightarrow> n = 0)))"

lemma fewer_refl [simp]: "fewer h h"
  unfolding fewer_def
proof
  fix x
  show "h x = None \<or> (\<exists>ob n n'. h x = Some (ob, n) \<and> h x = Some (ob, n') \<and> n' \<le> n \<and> (n' = 0 \<longrightarrow> n = 0))"
    by (cases "h x") auto
qed

lemma fewer_upd: "h a = Some (ob, n) \<Longrightarrow> y = None \<or> (\<exists>n'. y = Some (ob, n') \<and> n' \<le> n \<and> (n' = 0 \<longrightarrow> n = 0)) \<Longrightarrow> fewer (h(a := y)) h"
  using fewer_refl [of h] unfolding fewer_def by auto

lemma fewer_trans: "fewer h'' h' \<Longrightarrow> fewer h' h \<Longrightarrow> fewer h'' h"
  unfolding fewer_def
proof
  fix x
  assume a: "\<forall>x. h'' x = None \<or> (\<exists>ob n n'. h' x = Some (ob, n) \<and> h'' x = Some (ob, n') \<and> n' \<le> n \<and> (n' = 0 \<longrightarrow> n = 0))"
    "\<forall>x. h' x = None \<or> (\<exists>ob n n'. h x = Some (ob, n) \<and> h' x = Some (ob, n') \<and> n' \<le> n \<and> (n' = 0 \<longrightarrow> n = 0))"
  show "h'' x = None \<or> (\<exists>ob n n'. h x = Some (ob, n) \<and> h'' x = Some (ob, n') \<and> n' \<le> n \<and> (n' = 0 \<longrightarrow> n = 0))"
    using a(1) [rule_format, of x] a(2) [rule_format, of x] by auto
qed

lemma fewer_None: "fewer h' h \<Longrightarrow> h x = None \<Longrightarrow> h' x = None"
  unfolding fewer_def by (drule spec [of _ x]) auto

lemma fewer_one: "fewer h' h \<Longrightarrow> h x = Some (ob, 1) \<Longrightarrow> h' x = None \<or> h' x = Some (ob, 1)"
  unfolding fewer_def by (drule spec [of _ x]) auto

lemma fewer_run_all:
  assumes "\<And>x h h'. f x h = Inr h' \<Longrightarrow> fewer h' h"
  shows "run_all f xs h = Inr h' \<Longrightarrow> fewer h' h"
proof (induction xs arbitrary: h)
  case (Cons x xs)
  from Cons.prems obtain h1 where h1: "f x h = Inr h1" "run_all f xs h1 = Inr h'" by (auto elim!: rbind_eq_InrE)
  show ?case by (rule fewer_trans [OF Cons.IH [OF h1(2)] assms [OF h1(1)]])
qed simp

lemma fewer_decref: "py_decref k a h = Inr h' \<Longrightarrow> fewer h' h"
proof (induction k arbitrary: a h h')
  case (Suc k)
  obtain ob n where a: "h a = Some (ob, n)" using Suc.prems by (auto split: option.splits)
  have u: "fewer (h(a := None)) h" and d: "1 < n \<Longrightarrow> fewer (h(a \<mapsto> (ob, n - 1))) h"
    using a by (auto intro: fewer_upd)
  have r: "run_all (py_decref k) xs (h(a := None)) = Inr h' \<Longrightarrow> fewer h' h" for xs
    by (rule fewer_trans [OF _ u], rule fewer_run_all [where f = "py_decref k"], rule Suc.IH)
  show ?case using Suc.prems a u d r by (cases "1 < n"; cases ob) auto
qed simp

lemma run_all_gone: "x \<in> set xs \<Longrightarrow> h x = None \<Longrightarrow> run_all (py_decref k) xs h \<noteq> Inr h'"
proof (induction xs arbitrary: h)
  case (Cons y ys)
  have "py_decref k x h \<noteq> Inr h'" for h' using Cons.prems(2) by (cases k) simp_all
  then show ?case
    using Cons fewer_None [OF fewer_decref] by (auto elim!: rbind_eq_InrE)
qed simp

lemma decref_last: "h x = Some (ob, 1) \<Longrightarrow> py_decref k x h = Inr h' \<Longrightarrow> h' x = None"
proof (cases k)
  case (Suc j)
  assume h: "h x = Some (ob, 1)" "py_decref k x h = Inr h'"
  have "fewer h' (h(x := None))"
  proof (cases ob)
    case (Py_List xs)
    then have "run_all (py_decref j) (rev xs) (h(x := None)) = Inr h'" using h Suc by simp
    then show ?thesis by (rule fewer_run_all [where f = "py_decref j", rotated]) (rule fewer_decref)
  qed (use h Suc in auto)
  from fewer_None [OF this] show ?thesis by simp
qed simp

lemma fewer_rows: "py_rows k a w xs h = Inr (rs, h') \<Longrightarrow> fewer h' h"
proof (induction xs arbitrary: h rs)
  case (Cons x xs)
  obtain h1 rs' where d: "py_decref k x h = Inr h1" and r: "py_rows k a w xs h1 = Inr (rs', h')"
    using Cons.prems by (auto simp: c_assert_eq_Inr_iff elim!: rbind_eq_InrE)
  show ?case by (rule fewer_trans [OF Cons.IH [OF r] fewer_decref [OF d]])
qed (auto elim!: rbind_eq_InrE)

lemma rows_gone:
  assumes "py_rows k a w xs h = Inr (rs, h')" and "x \<in> set xs" and "h x = None \<or> h x = Some (ob, 1)"
  shows "h' x = None"
  using assms
proof (induction xs arbitrary: h rs)
  case (Cons y ys)
  obtain h1 rs' where d: "py_decref k y h = Inr h1" and r: "py_rows k a w ys h1 = Inr (rs', h')" and y: "h y \<noteq> None"
    using Cons.prems(1) by (auto simp: c_assert_eq_Inr_iff PyList_Size_def py_at_def elim!: rbind_eq_InrE split: option.splits)
  show ?case
  proof (cases "x = y")
    case True
    then have "h1 x = None" using decref_last [OF _ d] Cons.prems(3) y by auto
    then show ?thesis using fewer_None [OF fewer_rows [OF r]] by blast
  next
    case False
    have "h1 x = None \<or> h1 x = Some (ob, 1)"
      using fewer_None [OF fewer_decref [OF d]] fewer_one [OF fewer_decref [OF d]] Cons.prems(3) by blast
    then show ?thesis using Cons.IH [OF r] Cons.prems(2) False by simp
  qed
qed simp

text \<open>One reference less for each of a set of objects that have more.\<close>

definition one_less :: "nat set \<Rightarrow> py_heap \<Rightarrow> py_heap" where
  "one_less S h = (\<lambda>x. if x \<in> S then map_option (\<lambda>(ob, n). (ob, n - 1)) (h x) else h x)"

lemma one_less_empty [simp]: "one_less {} h = h"
  by (simp add: one_less_def)

lemma decref_shared:
  "h x = Some (ob, n) \<Longrightarrow> 1 < n \<Longrightarrow> py_decref (Suc k) x h = Inr (one_less {x} h)"
  by (auto simp: one_less_def fun_eq_iff)

lemma one_less_one_less: "x \<notin> S \<Longrightarrow> one_less S (one_less {x} h) = one_less (insert x S) h"
  by (auto simp: one_less_def fun_eq_iff)

lemma run_all_shared:
  assumes "distinct xs" and "\<forall>x\<in>set xs. \<exists>ob n. h x = Some (ob, n) \<and> 1 < n"
  shows "run_all (py_decref (Suc k)) xs h = Inr (one_less (set xs) h)"
  using assms
proof (induction xs arbitrary: h)
  case (Cons x xs)
  obtain ob n where "h x = Some (ob, n)" "1 < n" using Cons.prems(2) by auto
  moreover have "\<forall>y\<in>set xs. \<exists>ob n. one_less {x} h y = Some (ob, n) \<and> 1 < n"
    using Cons.prems by (auto simp: one_less_def)
  ultimately show ?case
    using Cons.IH [of "one_less {x} h"] Cons.prems(1) by (simp add: decref_shared one_less_one_less del: py_decref.simps)
qed simp

text \<open>The bytes an object holds, up to a null.\<close>

definition bytes_of :: "py_heap \<Rightarrow> nat \<Rightarrow> string" where
  "bytes_of h x = (case h x of Some (Py_Bytes s, n) \<Rightarrow> takeWhile (\<lambda>c. c \<noteq> CHR 0x00) s | _ \<Rightarrow> [])"

definition is_bytes :: "py_heap \<Rightarrow> nat \<Rightarrow> bool" where
  "is_bytes h x \<longleftrightarrow> (\<exists>s n. h x = Some (Py_Bytes s, n))"

lemma py_strings_bytes: "\<forall>x\<in>set xs. is_bytes h x \<Longrightarrow> py_strings xs h = Inr (map (bytes_of h) xs)"
  by (induction xs) (auto simp: is_bytes_def py_construct_def PyBytes_AsString_def py_at_def bytes_of_def)

lemma py_row_bytes: "\<forall>x\<in>set xs. is_bytes h x \<Longrightarrow> py_row xs h = Inr (map (bytes_of h) xs)"
  by (induction xs) (auto simp: is_bytes_def py_assign_def PyBytes_AsString_def py_at_def bytes_of_def)

text \<open>A row that somebody else holds too.\<close>

definition shared_row :: "nat \<Rightarrow> nat \<Rightarrow> py_heap \<Rightarrow> nat \<Rightarrow> bool" where
  "shared_row w c h x \<longleftrightarrow> (\<exists>r n. h x = Some (Py_List r, n) \<and> c < n \<and> length r = w \<and> (\<forall>y\<in>set r. is_bytes h y))"

definition row_of :: "py_heap \<Rightarrow> nat \<Rightarrow> string list" where
  "row_of h x = (case h x of Some (Py_List r, n) \<Rightarrow> map (bytes_of h) r | _ \<Rightarrow> [])"

lemma is_bytes_one_less [simp]: "is_bytes (one_less S h) x = is_bytes h x"
  by (auto simp: is_bytes_def one_less_def)

lemma bytes_of_one_less [simp]: "bytes_of (one_less S h) x = bytes_of h x"
  by (auto simp: bytes_of_def one_less_def split: option.splits py_obj.splits)

lemma py_rows_shared:
  assumes "distinct xs" and "a \<notin> set xs" and "h a \<noteq> None" and "\<forall>x\<in>set xs. shared_row w 1 h x"
  shows "py_rows (Suc k) a w xs h = Inr (map (row_of h) xs, one_less (set xs) h)"
  using assms
proof (induction xs arbitrary: h)
  case Nil
  then show ?case by (auto simp: py_at_def split: option.splits)
next
  case (Cons x xs)
  obtain r n where x: "h x = Some (Py_List r, n)" "1 < n" "length r = w" "\<forall>y\<in>set r. is_bytes h y"
    using Cons.prems(4) by (auto simp: shared_row_def)
  let ?h = "one_less {x} h"
  have d: "py_decref (Suc k) x h = Inr ?h" using x by (intro decref_shared) auto
  have s: "shared_row w 1 ?h y" if "y \<in> set xs" for y
  proof -
    have "y \<noteq> x" using that Cons.prems(1) by auto
    then have "?h y = h y" by (simp add: one_less_def)
    then show ?thesis using Cons.prems(4) that by (simp add: shared_row_def)
  qed
  have rows: "row_of ?h y = row_of h y" if "y \<in> set xs" for y
  proof -
    have "y \<noteq> x" using that Cons.prems(1) by auto
    then have "?h y = h y" by (simp add: one_less_def)
    then show ?thesis by (simp add: row_of_def split: option.splits py_obj.splits)
  qed
  have a: "?h a \<noteq> None" using Cons.prems(2,3) by (simp add: one_less_def)
  have "py_rows (Suc k) a w xs ?h = Inr (map (row_of h) xs, one_less (insert x (set xs)) h)"
    using Cons.IH [of ?h] a Cons.prems(1,2) s rows by (simp add: one_less_one_less cong: map_cong)
  then show ?case
    using x Cons.prems(3) d py_row_bytes [of r h]
    by (auto simp: PyList_Size_def py_items_def py_at_def row_of_def simp del: py_decref.simps split: option.splits)
qed

text \<open>Once a module is loaded, every later reader answers from it, whatever file it is made for.\<close>

lemma first_module_stays:
  "PythonConfig_new import f st = Inr st1 \<Longrightarrow> ps_module st = None \<Longrightarrow> PythonConfig_new import g st1 = Inr st2 \<Longrightarrow>
   ps_module st2 = ps_module st1 \<and> ps_module st1 \<noteq> None"
  by (auto simp: PythonConfig_new_def Let_def split: option.splits)

text \<open>The reader sends names as unicode and takes bytes: a module that answers in the strings it is sent stops it.\<close>

lemma unicode_not_read:
  "pi_has m f \<Longrightarrow> pi_call m f args h = (Some a, h1) \<Longrightarrow> h1 a = Some (Py_Unicode s, n) \<Longrightarrow>
   py_string k m f args h = Inl MemoryFault \<and> py_string_or_empty k m f args h = Inl MemoryFault"
  by (simp add: py_string_def py_string_or_empty_def py_must_call_def py_call_def py_assign_def PyBytes_AsString_def py_at_def)

text \<open>
  C17.  References to what a function of the module returns, a new list that the caller owns.  The lookups of lists of strings give the
  strings and leave the interpreter as it was.  The lookups of rows give up a reference of each row that belongs to the list: when
  a row belongs to the list only, as rows a function has just made do, the row is freed twice and the lookup does not return; when every row is
  also held by the module, at least twice, the values are right and the module has lost one reference of each.
\<close>

theorem python_lookup_references:
  assumes "pi_has m f" and "pi_call m f args h = (Some a, h1)" and "h1 a = Some (Py_List xs, 1)" and "py_decref (Suc (Suc k)) a h1 = Inr h"
  shows "((\<forall>x\<in>set xs. is_bytes h1 x) \<longrightarrow> py_list (Suc (Suc k)) m f args h = Inr (map (bytes_of h1) xs, h)) \<and>
    ((\<exists>x\<in>set xs. \<exists>r. h1 x = Some (Py_List r, 1)) \<longrightarrow> (\<forall>w v. py_table (Suc (Suc k)) w m f args h \<noteq> Inr v)) \<and>
    (distinct (a # xs) \<and> (\<forall>x\<in>set xs. shared_row w 2 h1 x) \<longrightarrow>
       py_table (Suc (Suc k)) w m f args h = Inr (map (row_of h1) xs, one_less (set xs) h))"
proof (intro conjI impI)
  have it: "py_items a h1 = Inr xs" using assms(3) by (simp add: py_items_def py_at_def)
  have call: "py_must_call m f args h = Inr (a, h1)" using assms(1,2) by (simp add: py_must_call_def py_call_def)
  {
    assume "\<forall>x\<in>set xs. is_bytes h1 x"
    then show "py_list (Suc (Suc k)) m f args h = Inr (map (bytes_of h1) xs, h)"
      using it call assms(4) by (simp add: py_list_def py_strings_bytes del: py_decref.simps)
  next
    assume "\<exists>x\<in>set xs. \<exists>r. h1 x = Some (Py_List r, 1)"
    then obtain x r where x: "x \<in> set xs" "h1 x = Some (Py_List r, 1)" by blast
    show "\<forall>w v. py_table (Suc (Suc k)) w m f args h \<noteq> Inr v"
    proof (intro allI notI)
      fix w v
      assume "py_table (Suc (Suc k)) w m f args h = Inr v"
      then obtain rs h2 h3 where r: "py_rows (Suc (Suc k)) a w xs h1 = Inr (rs, h2)" and d: "py_decref (Suc (Suc k)) a h2 = Inr h3"
        using it call by (auto simp: py_table_def simp del: py_decref.simps elim!: rbind_eq_InrE)
      have "h2 x = None" using rows_gone [OF r x(1)] x(2) by blast
      moreover have "h2 a = Some (Py_List xs, 1)"
        using fewer_one [OF fewer_rows [OF r] assms(3)] d by auto
      ultimately have "run_all (py_decref (Suc k)) (rev xs) (h2(a := None)) = Inr h3" and "(h2(a := None)) x = None"
        using d by simp_all
      then show False using run_all_gone [of x "rev xs"] x(1) by simp
    qed
  next
    assume s: "distinct (a # xs) \<and> (\<forall>x\<in>set xs. shared_row w 2 h1 x)"
    then have "\<forall>x\<in>set xs. shared_row w 1 h1 x" by (fastforce simp: shared_row_def)
    then have rows: "py_rows (Suc (Suc k)) a w xs h1 = Inr (map (row_of h1) xs, one_less (set xs) h1)"
      using s assms(3) by (intro py_rows_shared) auto
    let ?S = "set xs"
    have n: "\<exists>ob n. h1 x = Some (ob, n) \<and> 2 < n" if "x \<in> ?S" for x using s that by (auto simp: shared_row_def)
    have "run_all (py_decref (Suc k)) (rev xs) (h1(a := None)) = Inr (one_less ?S (h1(a := None)))"
      using run_all_shared [of "rev xs" "h1(a := None)" k] s n by force
    then have h: "h = one_less ?S (h1(a := None))" using assms(3,4) by simp
    have "\<exists>ob n. ((one_less ?S h1)(a := None)) x = Some (ob, n) \<and> 1 < n" if "x \<in> ?S" for x
      using n [OF that] s that by (auto simp: one_less_def)
    moreover have "(one_less ?S h1)(a := None) = h" using s by (auto simp: h one_less_def fun_eq_iff)
    moreover have "one_less ?S h1 a = Some (Py_List xs, 1)" using s assms(3) by (simp add: one_less_def)
    ultimately have "py_decref (Suc (Suc k)) a (one_less ?S h1) = Inr (one_less ?S h)"
      using run_all_shared [of "rev xs" h k] s by simp
    then show "py_table (Suc (Suc k)) w m f args h = Inr (map (row_of h1) xs, one_less ?S h)"
      using it call rows by (simp add: py_table_def del: py_decref.simps)
  }
qed

text \<open>A module with one plugin: once in a list of its own that it returns again and again, once in a list made for the call.\<close>

definition py_demo_heap :: py_heap where
  "py_demo_heap = [1 \<mapsto> (Py_Bytes ''Dummy'', 3), 2 \<mapsto> (Py_Bytes ''libdummy_dev'', 3), 3 \<mapsto> (Py_List [1, 2], 2)]"

definition py_demo :: py_iface where
  "py_demo = \<lparr>pi_has = (\<lambda>f. True),
     pi_call = (\<lambda>f args h.
       if f = ''kept'' then (Some 4, h(4 \<mapsto> (Py_List [3], 1), 3 \<mapsto> (Py_List [1, 2], 3)))
       else if f = ''findPlugins''
       then (Some 4, h(4 \<mapsto> (Py_List [5], 1), 5 \<mapsto> (Py_List [1, 2], 1), 1 \<mapsto> (Py_Bytes ''Dummy'', 4), 2 \<mapsto> (Py_Bytes ''libdummy_dev'', 4)))
       else (Some 4, h(4 \<mapsto> (Py_List [1], 1), 1 \<mapsto> (Py_Bytes ''Dummy'', 4))))\<rparr>"

theorem python_lookup_references_witness:
  "py_findChildren 3 py_demo ''plat'' py_demo_heap = Inr ([''Dummy''], py_demo_heap) \<and>
   (\<forall>v. py_findPlugins 3 py_demo py_demo_heap \<noteq> Inr v) \<and>
   py_table 3 2 py_demo ''kept'' [] py_demo_heap =
     Inr ([[''Dummy'', ''libdummy_dev'']], py_demo_heap(3 \<mapsto> (Py_List [1, 2], 1)))"
proof -
  have has: "pi_has py_demo f" for f by (simp add: py_demo_def)
  have c: "pi_call py_demo f args h = (Some 4, snd (pi_call py_demo f args h))" for f args h by (simp add: py_demo_def)
  let ?h1 = "snd (pi_call py_demo ''findChildren'' [Arg_Str ''plat''] py_demo_heap)"
  have "py_decref (Suc (Suc (Suc 0))) 4 ?h1 = Inr py_demo_heap" and a: "?h1 4 = Some (Py_List [1], 1)" and b: "is_bytes ?h1 1" "bytes_of ?h1 1 = ''Dummy''"
    by (simp_all add: py_demo_def py_demo_heap_def is_bytes_def bytes_of_def fun_eq_iff)
  from python_lookup_references [OF has c a this(1)] b
  have l: "py_list (Suc (Suc (Suc 0))) py_demo ''findChildren'' [Arg_Str ''plat''] py_demo_heap = Inr ([''Dummy''], py_demo_heap)" by simp
  let ?h2 = "snd (pi_call py_demo ''findPlugins'' [] py_demo_heap)"
  have "py_decref (Suc (Suc (Suc 0))) 4 ?h2 = Inr py_demo_heap" and a: "?h2 4 = Some (Py_List [5], 1)" and b: "?h2 5 = Some (Py_List [1, 2], 1)"
    by (simp_all add: py_demo_def py_demo_heap_def fun_eq_iff)
  from python_lookup_references [OF has c a this(1)] b
  have p: "py_table (Suc (Suc (Suc 0))) w py_demo ''findPlugins'' [] py_demo_heap \<noteq> Inr v" for w v by (cases v) auto
  let ?h3 = "snd (pi_call py_demo ''kept'' [] py_demo_heap)"
  have "py_decref (Suc (Suc (Suc 0))) 4 ?h3 = Inr py_demo_heap" and a: "?h3 4 = Some (Py_List [3], 1)" and b: "shared_row 2 2 ?h3 3"
    and r: "row_of ?h3 3 = [''Dummy'', ''libdummy_dev'']"
    by (simp_all add: py_demo_def py_demo_heap_def fun_eq_iff shared_row_def row_of_def bytes_of_def is_bytes_def)
  from python_lookup_references [where w = 2, OF has c a this(1)] b r
  have k: "py_table (Suc (Suc (Suc 0))) 2 py_demo ''kept'' [] py_demo_heap = Inr ([[''Dummy'', ''libdummy_dev'']], one_less {3} py_demo_heap)" by simp
  have "one_less {3} py_demo_heap = py_demo_heap(3 \<mapsto> (Py_List [1, 2], 1))"
    by (simp add: one_less_def py_demo_heap_def fun_eq_iff)
  then show ?thesis using l p k unfolding numeral_3_eq_3 [symmetric]
    by (auto simp: py_findChildren_def py_findPlugins_def elim!: rbind_eq_InrE)
qed

end
