(* ===== verification/Pwr_Tools.thy ===== *)
theory Pwr_Tools imports Pwr_Api begin

text \<open>
  The command-line tools (\<^verbatim>\<open>src/tools\<close>), all clients of \<open>Pwr_Api\<close>: \<^verbatim>\<open>pwr-ls\<close> and \<^verbatim>\<open>pwrdmp\<close> list the objects,
  \<^verbatim>\<open>pwrget\<close>, \<^verbatim>\<open>pwrset\<close>, \<^verbatim>\<open>pwrenergy\<close> and \<^verbatim>\<open>pwrapi\<close> read or write attributes.  A line that is printed is a value;
  sleeping between the readings changes no state and is left out.
\<close>

subsection \<open>Listing the objects\<close>

text \<open>
  Every tool copies names into 100 characters and prints them up to the null: a name that does not fit has none, and printing it reads on.
\<close>

definition tool_name :: "string \<Rightarrow> string res" where
  "tool_name x =
     (let (rc, buf) = PWR_ObjGetName x 100 in if CHR 0x00 \<in> set buf then Inr (takeWhile (\<lambda>c. c \<noteq> CHR 0x00) buf) else Inl MemoryFault)"

record obj_line =
  ol_name :: string
  ol_type :: obj_type
  ol_attrs :: "attr list"

definition valid_attrs :: "string \<Rightarrow> ('o, 's) lib \<Rightarrow> attr list" where
  "valid_attrs x lb = filter (\<lambda>a. PWR_ObjAttrIsValid x a lb = RET_SUCCESS) all_attrs"

definition show_obj :: "string \<Rightarrow> ('o, 's) lib \<Rightarrow> obj_line res" where
  "show_obj x lb =
     rbind (tool_name x) (\<lambda>nm. Inr \<lparr>ol_name = nm, ol_type = snd (PWR_ObjGetType x lb), ol_attrs = valid_attrs x lb\<rparr>)"

text \<open>
  The recursions take a bound \<open>d\<close> on their depth and on the turns of their loops.  \<^verbatim>\<open>pwr-ls\<close> asks for the number of children in every turn.
\<close>

fun ls_walk :: "nat \<Rightarrow> nat \<Rightarrow> string \<Rightarrow> nat \<Rightarrow> ('o, 's) lib \<Rightarrow> ((nat \<times> obj_line) list \<times> ('o, 's) lib) res"
  and ls_kids :: "nat \<Rightarrow> nat \<Rightarrow> nat \<Rightarrow> nat \<Rightarrow> nat \<Rightarrow> ('o, 's) lib \<Rightarrow> ((nat \<times> obj_line) list \<times> ('o, 's) lib) res" where
  "ls_walk 0 k x lv lb = Inl Diverges"
| "ls_walk (Suc d) k x lv lb =
     rbind (show_obj x lb) (\<lambda>l. rbind (lib_children k x lb) (\<lambda>((rc, g), lb1).
     if rc = RET_WARN_NO_CHILDREN then Inr ([(lv, l)], lb1)
     else c_assert (rc = RET_SUCCESS) (rbind (ls_kids d k g 0 lv lb1) (\<lambda>(ls, lb2). Inr ((lv, l) # ls, lb2)))))"
| "ls_kids 0 k g i lv lb = Inl Diverges"
| "ls_kids (Suc d) k g i lv lb =
     rbind (PWR_GrpGetNumObjs g lb) (\<lambda>n.
     if int i < n then
       rbind (PWR_GrpGetObjByIndx g (int i) lb) (\<lambda>(rc, y). rbind (ls_walk d k y (Suc lv) lb) (\<lambda>(ls, lb1).
       rbind (ls_kids d k g (Suc i) lv lb1) (\<lambda>(ls', lb2). Inr (ls @ ls', lb2))))
     else Inr ([], lb))"

text \<open>\<^verbatim>\<open>pwrdmp\<close>: the objects below one, of one type or of all; the number of children is asked for once.\<close>

fun dump_type_objects :: "nat \<Rightarrow> nat \<Rightarrow> obj_type option \<Rightarrow> string \<Rightarrow> ('o, 's) lib \<Rightarrow> (obj_line list \<times> ('o, 's) lib) res"
  and dump_kids :: "nat \<Rightarrow> nat \<Rightarrow> obj_type option \<Rightarrow> nat \<Rightarrow> nat \<Rightarrow> nat \<Rightarrow> ('o, 's) lib \<Rightarrow> (obj_line list \<times> ('o, 's) lib) res" where
  "dump_type_objects 0 k ty x lb = Inl Diverges"
| "dump_type_objects (Suc d) k ty x lb =
     rbind (lib_children k x lb) (\<lambda>((rc, g), lb1). c_assert (rc = RET_SUCCESS)
       (rbind (PWR_GrpGetNumObjs g lb1) (\<lambda>n. dump_kids d k ty g 0 (nat n) lb1)))"
| "dump_kids 0 k ty g i n lb = Inl Diverges"
| "dump_kids (Suc d) k ty g i n lb =
     (if i < n then
        rbind (PWR_GrpGetObjByIndx g (int i) lb) (\<lambda>(rc, y).
        rbind (if ty = None \<or> ty = Some (snd (PWR_ObjGetType y lb)) then rbind (show_obj y lb) (\<lambda>l. Inr [l]) else Inr []) (\<lambda>l.
        rbind (dump_type_objects d k ty y lb) (\<lambda>(ls, lb1). rbind (dump_kids d k ty g (Suc i) n lb1) (\<lambda>(ls', lb2). Inr (l @ ls @ ls', lb2)))))
      else Inr ([], lb))"

definition ROLE_APP :: int where "ROLE_APP = 0"

text \<open>The status the process ends with, if it ends, what it has printed, and the devices.\<close>

definition ls_main ::
  "nat \<Rightarrow> nat \<Rightarrow> ('o, 's) platform \<Rightarrow> ('o \<Rightarrow> nat) \<Rightarrow> (('s devops) \<Rightarrow> 's \<Rightarrow> 's res) \<Rightarrow> (('o, 's) plugin \<Rightarrow> 'o \<Rightarrow> 's \<Rightarrow> 's res) \<Rightarrow> 's
   \<Rightarrow> ((nat \<times> obj_line) list \<times> 's) res" where
  "ls_main d k pf ptr cl fin s =
     rbind (PWR_CntxtInit k pf ROLE_APP ''App'' s) (\<lambda>(rc, ctx). c_assert (rc = RET_SUCCESS)
       (case ctx of
          None \<Rightarrow> Inl UninitRead
        | Some lb \<Rightarrow>
            let (rc', self) = PWR_CntxtGetEntryPoint lb
            in c_assert (rc' = RET_SUCCESS)
                 (rbind (ls_walk d k self 0 lb) (\<lambda>(ls, lb'). rbind (PWR_CntxtDestroy ptr cl fin lb') (\<lambda>(_, s'). Inr (ls, s'))))))"

datatype dmp_opt = Dmp_Type string | Dmp_Usage

definition tool_type :: "string \<Rightarrow> obj_type option" where
  "tool_type s =
     (case s of
        [] \<Rightarrow> None
      | c # _ \<Rightarrow>
          if c = CHR ''P'' then Some OBJ_PLATFORM else if c = CHR ''A'' then Some OBJ_CABINET
          else if c = CHR ''B'' then Some OBJ_BOARD else if c = CHR ''N'' then Some OBJ_NODE
          else if c = CHR ''S'' then Some OBJ_SOCKET else if c = CHR ''C'' then Some OBJ_CORE
          else if c = CHR ''M'' then Some OBJ_MEM else if c = CHR ''I'' then Some OBJ_NIC else None)"

text \<open>The options: an unknown type ends the tool with -1, any other option with 1.\<close>

fun dmp_opts :: "dmp_opt list \<Rightarrow> obj_type option \<Rightarrow> int + obj_type option" where
  "dmp_opts [] ty = Inr ty"
| "dmp_opts (Dmp_Usage # os) ty = Inl 1"
| "dmp_opts (Dmp_Type s # os) ty = (case tool_type s of None \<Rightarrow> Inl (-1) | Some t \<Rightarrow> dmp_opts os (Some t))"

definition dmp_main :: "nat \<Rightarrow> nat \<Rightarrow> ('o, 's) platform \<Rightarrow> dmp_opt list \<Rightarrow> 's \<Rightarrow> (int \<times> obj_line list) res" where
  "dmp_main d k pf opts s =
     (case dmp_opts opts None of
        Inl rc \<Rightarrow> Inr (rc, [])
      | Inr ty \<Rightarrow>
          rbind (PWR_CntxtInit k pf ROLE_APP ''Application'' s) (\<lambda>(rc, ctx).
          if rc \<noteq> RET_SUCCESS then Inr (-1, [])
          else (case ctx of
                  None \<Rightarrow> Inl UninitRead
                | Some lb \<Rightarrow>
                    let (rc', self) = PWR_CntxtGetEntryPoint lb
                    in if rc' \<noteq> RET_SUCCESS then Inr (-1, [])
                       else rbind (dump_type_objects d k ty self lb) (\<lambda>(ls, lb'). Inr (0, ls)))))"

subsection \<open>What the listings show\<close>

text \<open>The children the configuration gives an object, a name given twice only once.\<close>

definition kids_of :: "config \<Rightarrow> string \<Rightarrow> string list" where
  "kids_of cf x = fold (\<lambda>y g. snd (base_add g y)) (findChildren cf x) []"

definition objs_known :: "('o, 's) lib \<Rightarrow> string set \<Rightarrow> bool" where
  "objs_known lb xs \<longleftrightarrow> xs \<subseteq> dom (objMap (lb_cx lb))"

definition walk_ok :: "config \<Rightarrow> string \<Rightarrow> ('o, 's) lib \<Rightarrow> bool" where
  "walk_ok cf r lb \<longleftrightarrow> lib_ok cf r lb \<and>
     (\<forall>x g. lb_kids lb x = Some g \<longrightarrow> lb_grps lb g = Some (BaseGrp (kids_of cf x)) \<and> objs_known lb (set (kids_of cf x)))"

definition later :: "('o, 's) lib \<Rightarrow> ('o, 's) lib \<Rightarrow> bool" where
  "later lb lb' \<longleftrightarrow> (\<forall>g x. lb_grps lb g = Some x \<longrightarrow> lb_grps lb' g = Some x) \<and> dom (objMap (lb_cx lb)) \<subseteq> dom (objMap (lb_cx lb'))"

lemma later_refl [simp]: "later lb lb"
  by (simp add: later_def)

lemma later_trans: "later a b \<Longrightarrow> later b c \<Longrightarrow> later a c"
  unfolding later_def by blast

lemma mustFind_known:
  assumes "mustFind k x (cx, s) = Inr (ob, (cx', s'))" and "typed_objects cf r cx"
  shows "x \<in> dom (objMap cx') \<and> dom (objMap cx) \<subseteq> dom (objMap cx') \<and> typed_objects cf r cx'"
proof -
  have ty: "typed_objects cf r cx'" using mustFind_typed [OF assms] by simp
  from assms(1) have f: "findObject k x (cx, s) = Inr (Some ob, (cx', s'))"
    by (auto simp: mustFind_def elim!: rbind_eq_InrE split: option.splits)
  have ok: "cx_ok cx" using assms(2) by (simp add: typed_objects_def cx_shape_def)
  consider "objMap cx x \<noteq> None" | t where "objMap cx x = None" "objType (cfg cx) x = Some t"
    using f by (cases "objMap cx x"; cases "objType (cfg cx) x") (auto simp: findObject_def)
  then show ?thesis
  proof cases
    case 1
    then show ?thesis using f ty by (auto simp: findObject_def)
  next
    case 2
    then obtain cx1 where c: "createObject k x t (cx, s) = Inr (ob, (cx1, s'))"
      and cx': "cx' = cx1\<lparr>objMap := (objMap cx1)(x \<mapsto> ob)\<rparr>"
      using f by (auto simp: findObject_def elim!: rbind_eq_InrE)
    have "objMap cx1 = objMap cx" using createObject_ok [OF c ok] by (simp add: grows_def)
    then show ?thesis using ty by (auto simp: cx')
  qed
qed

lemma set_base_adds: "set (fold (\<lambda>y g. snd (base_add g y)) ys g) = set g \<union> set ys"
  by (induction ys arbitrary: g) (auto simp: base_add_def)

lemma addChildren_spec:
  "run_all (addChildBase k) ys (g, (cx, s)) = Inr (g', (cx', s')) \<Longrightarrow> typed_objects cf r cx \<Longrightarrow>
   g' = fold (\<lambda>y g. snd (base_add g y)) ys g \<and> set ys \<subseteq> dom (objMap cx') \<and> dom (objMap cx) \<subseteq> dom (objMap cx') \<and> typed_objects cf r cx'"
proof (induction ys arbitrary: g cx s)
  case (Cons y ys)
  from Cons.prems(1) obtain ob cx1 s1 where m: "mustFind k y (cx, s) = Inr (ob, (cx1, s1))"
    and ru: "run_all (addChildBase k) ys (snd (base_add g y), (cx1, s1)) = Inr (g', (cx', s'))"
    by (auto simp: addChildBase_def [of k y] elim!: rbind_eq_InrE)
  from mustFind_known [OF m Cons.prems(2)] Cons.IH [OF ru] show ?case by (simp del: dom_def) blast
qed simp

lemma lib_children_spec:
  assumes "lib_children k x lb = Inr ((rc, g), lb')" and ok: "walk_ok cf r lb"
  shows "rc = RET_SUCCESS \<and> walk_ok cf r lb' \<and> later lb lb' \<and> lb_grps lb' g = Some (BaseGrp (kids_of cf x)) \<and>
    objs_known lb' (set (kids_of cf x))"
proof (cases "lb_kids lb x")
  case (Some g')
  then show ?thesis using assms by (auto simp: lib_children_def walk_ok_def)
next
  case None
  then obtain xs cx s where c: "getChildren k x (lb_cx lb, lb_st lb) = Inr (xs, (cx, s))" and g: "g = lb_next lb" and rc: "rc = RET_SUCCESS"
    and lb': "lb' = lb\<lparr>lb_cx := cx, lb_st := s, lb_grps := (lb_grps lb)(g \<mapsto> BaseGrp xs), lb_next := Suc g, lb_kids := (lb_kids lb)(x \<mapsto> g)\<rparr>"
    using assms(1) by (auto simp: lib_children_def on_cx_def new_grp_def put_grp_def Let_def elim!: rbind_eq_InrE)
  have ty: "typed_objects cf r (lb_cx lb)" using ok by (simp add: walk_ok_def lib_ok_def)
  then have cf: "cfg (lb_cx lb) = cf" by (simp add: typed_objects_def cx_shape_def)
  have s: "xs = kids_of cf x" "set (findChildren cf x) \<subseteq> dom (objMap cx)" "dom (objMap (lb_cx lb)) \<subseteq> dom (objMap cx)"
    using addChildren_spec [OF c [unfolded getChildren_def fst_conv cf] ty] by (auto simp: kids_of_def)
  have k: "set (kids_of cf x) = set (findChildren cf x)" by (simp add: kids_of_def set_base_adds)
  have "lib_ok cf r lb'" using lib_ok_children [OF assms(1)] ok by (simp add: walk_ok_def)
  moreover have fresh: "lb_grps lb g = None"
    using ok unfolding walk_ok_def lib_ok_def g by (cases "lb_grps lb (lb_next lb)") auto
  moreover have "h \<noteq> g" if "lb_kids lb y = Some h" for y h using ok that fresh by (auto simp: walk_ok_def)
  moreover have "objs_known lb' (set (kids_of cf y))" if "lb_kids lb y = Some h" for y h
    using ok that s(3) unfolding walk_ok_def objs_known_def by (simp add: lb') blast
  ultimately show ?thesis
    using s k ok rc by (auto simp: lb' walk_ok_def later_def objs_known_def)
qed

text \<open>The tree of the configuration, an object before the objects below it.\<close>

definition until_null :: "string \<Rightarrow> string" where
  "until_null x = takeWhile (\<lambda>c. c \<noteq> CHR 0x00) x"

fun obj_tree :: "nat \<Rightarrow> config \<Rightarrow> nat \<Rightarrow> string \<Rightarrow> (nat \<times> string \<times> obj_type) list" where
  "obj_tree 0 cf lv x = []"
| "obj_tree (Suc n) cf lv x = (lv, until_null x, the (objType cf x)) # concat (map (obj_tree n cf (Suc lv)) (kids_of cf x))"

definition shown_as :: "nat \<times> obj_line \<Rightarrow> nat \<times> string \<times> obj_type" where
  "shown_as l = (fst l, ol_name (snd l), ol_type (snd l))"

lemma tool_name_until_null: "tool_name x = Inr y \<Longrightarrow> y = until_null x"
proof -
  assume "tool_name x = Inr y"
  then have n: "CHR 0x00 \<in> set (take 100 (x @ replicate 100 (CHR 0x00)))"
    and y: "y = takeWhile (\<lambda>c. c \<noteq> CHR 0x00) (take 100 (x @ replicate 100 (CHR 0x00)))"
    by (auto simp: tool_name_def PWR_ObjGetName_def Let_def split: if_splits)
  let ?P = "\<lambda>c. c \<noteq> CHR 0x00"
  have "takeWhile ?P (x @ replicate 100 (CHR 0x00)) =
      takeWhile ?P (take 100 (x @ replicate 100 (CHR 0x00)) @ drop 100 (x @ replicate 100 (CHR 0x00)))"
    by (simp only: append_take_drop_id)
  also have "\<dots> = takeWhile ?P (take 100 (x @ replicate 100 (CHR 0x00)))" by (rule takeWhile_append1 [OF n]) simp
  finally have "y = takeWhile ?P (x @ replicate 100 (CHR 0x00))" using y by simp
  also have "\<dots> = takeWhile ?P x"
  proof (cases "CHR 0x00 \<in> set x")
    case True
    then show ?thesis by (rule takeWhile_append1) simp
  next
    case False
    then have "takeWhile ?P (x @ replicate 100 (CHR 0x00)) = x @ takeWhile ?P (replicate 100 (CHR 0x00))"
      by (intro takeWhile_append2) auto
    also have "takeWhile ?P (replicate 100 (CHR 0x00)) = []" by (rule takeWhile_eq_Nil_iff [THEN iffD2]) simp
    also have "x @ [] = takeWhile ?P x" using False by (subst takeWhile_eq_all_conv [THEN iffD2]) auto
    finally show ?thesis .
  qed
  finally show ?thesis by (simp add: until_null_def)
qed

text \<open>No object has so many children that their number is not one of C.\<close>

definition lens_ok :: "config \<Rightarrow> bool" where
  "lens_ok cf \<longleftrightarrow> (\<forall>x. length (kids_of cf x) < 2 ^ 31)"

lemma show_obj_spec:
  assumes "show_obj x lb = Inr l" and "walk_ok cf r lb" and "objs_known lb {x}"
  shows "shown_as (lv, l) = (lv, until_null x, the (objType cf x))"
proof -
  obtain ob where "objMap (lb_cx lb) x = Some ob" using assms(3) by (auto simp: objs_known_def)
  then have "objType cf x = Some (o_type (obj_of (lb_cx lb) x))"
    using assms(2) by (simp add: walk_ok_def lib_ok_def typed_objects_def obj_of_def)
  then show ?thesis
    using assms(1) by (auto simp: show_obj_def shown_as_def PWR_ObjGetType_def elim!: rbind_eq_InrE dest: tool_name_until_null)
qed

lemma objs_known_later: "later lb lb' \<Longrightarrow> objs_known lb xs \<Longrightarrow> objs_known lb' xs"
  unfolding later_def objs_known_def by blast

lemma group_calls:
  assumes "lb_grps lb g = Some (BaseGrp ys)" and "i < length ys" and "i < 2 ^ 31"
  shows "PWR_GrpGetNumObjs g lb = Inr (int (length ys))" and "PWR_GrpGetObjByIndx g (int i) lb = Inr (RET_SUCCESS, ys ! i)"
proof -
  show "PWR_GrpGetNumObjs g lb = Inr (int (length ys))"
    using assms(1) by (simp add: PWR_GrpGetNumObjs_def grp_at_def group_size_def)
  have "unat (word_of_int (int i) :: 32 word) = i" using assms(3) by (simp add: unat_of_nat take_bit_nat_eq_self)
  then show "PWR_GrpGetObjByIndx g (int i) lb = Inr (RET_SUCCESS, ys ! i)"
    using assms(1,2) by (simp add: PWR_GrpGetObjByIndx_def grp_at_def group_getObj_def arr_get_def)
qed

lemma walk_spec:
  "ls_walk d k x lv lb = Inr (ls, lb') \<Longrightarrow> walk_ok cf r lb \<Longrightarrow> objs_known lb {x} \<Longrightarrow> lens_ok cf \<Longrightarrow>
     walk_ok cf r lb' \<and> later lb lb' \<and> (\<forall>n\<ge>d. map shown_as ls = obj_tree n cf lv x)"
  "ls_kids d k g i lv lb = Inr (ls, lb') \<Longrightarrow> walk_ok cf r lb \<Longrightarrow> lb_grps lb g = Some (BaseGrp ys) \<Longrightarrow> objs_known lb (set ys) \<Longrightarrow>
     length ys < 2 ^ 31 \<Longrightarrow> lens_ok cf \<Longrightarrow>
     walk_ok cf r lb' \<and> later lb lb' \<and> (\<forall>n\<ge>d. map shown_as ls = concat (map (obj_tree n cf (Suc lv)) (drop i ys)))"
proof (induction d arbitrary: x lv lb ls lb' g i ys)
  case (Suc d)
  {
    case 1
    then obtain l rc g lb1 ls' where l: "show_obj x lb = Inr l" and c: "lib_children k x lb = Inr ((rc, g), lb1)"
      and kd: "rc = RET_SUCCESS \<longrightarrow> ls_kids d k g 0 lv lb1 = Inr (ls', lb')" and ls: "rc = RET_SUCCESS \<longrightarrow> ls = (lv, l) # ls'"
      by (auto simp: c_assert_eq_Inr_iff ret_defs elim!: rbind_eq_InrE split: if_splits)
    note s = lib_children_spec [OF c 1(2)]
    have "length (kids_of cf x) < 2 ^ 31" using 1(4) by (simp add: lens_ok_def)
    then have t: "walk_ok cf r lb' \<and> later lb1 lb' \<and> (\<forall>n\<ge>d. map shown_as ls' = concat (map (obj_tree n cf (Suc lv)) (drop 0 (kids_of cf x))))"
      using Suc.IH(2) kd s 1(4) by blast
    have "map shown_as ls = obj_tree n cf lv x" if "Suc d \<le> n" for n
      using that t s ls show_obj_spec [OF l 1(2,3)] by (cases n) auto
    then show ?case using t s later_trans by blast
  next
    case 2
    show ?case
    proof (cases "i < length ys")
      case True
      then have q: "PWR_GrpGetNumObjs g lb = Inr (int (length ys))" "PWR_GrpGetObjByIndx g (int i) lb = Inr (RET_SUCCESS, ys ! i)"
        using group_calls [OF 2(3) True] 2(5) by auto
      obtain l1 lb1 l2 where w: "ls_walk d k (ys ! i) (Suc lv) lb = Inr (l1, lb1)" and e: "ls_kids d k g (Suc i) lv lb1 = Inr (l2, lb')"
        and ls: "ls = l1 @ l2"
        using 2(1) q True by (auto elim!: rbind_eq_InrE)
      have "ys ! i \<in> set ys" using True by simp
      then have "objs_known lb {ys ! i}" using 2(4) unfolding objs_known_def by blast
      from Suc.IH(1) [OF w 2(2) this 2(6)]
      have a: "walk_ok cf r lb1" "later lb lb1" "\<forall>n\<ge>d. map shown_as l1 = obj_tree n cf (Suc lv) (ys ! i)" by simp_all
      have "lb_grps lb1 g = Some (BaseGrp ys)" using a(2) 2(3) by (simp add: later_def)
      from Suc.IH(2) [OF e a(1) this objs_known_later [OF a(2) 2(4)] 2(5,6)]
      have b: "walk_ok cf r lb'" "later lb1 lb'" "\<forall>n\<ge>d. map shown_as l2 = concat (map (obj_tree n cf (Suc lv)) (drop (Suc i) ys))" by simp_all
      have "drop i ys = ys ! i # drop (Suc i) ys" using True by (simp add: Cons_nth_drop_Suc)
      then have "map shown_as ls = concat (map (obj_tree n cf (Suc lv)) (drop i ys))" if "Suc d \<le> n" for n
        using that a(3) [rule_format, of n] b(3) [rule_format, of n] ls by simp
      then show ?thesis using a(2) b(1,2) later_trans by blast
    next
      case False
      then have "PWR_GrpGetNumObjs g lb = Inr (int (length ys))"
        using 2(3) by (simp add: PWR_GrpGetNumObjs_def grp_at_def group_size_def)
      then show ?thesis using 2 False by auto
    qed
  }
qed simp_all

definition of_type :: "obj_type option \<Rightarrow> obj_line \<Rightarrow> bool" where
  "of_type ty l \<longleftrightarrow> ty = None \<or> ty = Some (ol_type l)"

lemma show_obj_type: "show_obj x lb = Inr l \<Longrightarrow> ol_type l = snd (PWR_ObjGetType x lb)"
  by (auto simp: show_obj_def elim!: rbind_eq_InrE)

lemma walk_dump:
  "ls_walk d k x lv lb = Inr (ls, lb') \<Longrightarrow> walk_ok cf r lb \<Longrightarrow> objs_known lb {x} \<Longrightarrow> lens_ok cf \<Longrightarrow>
     ls \<noteq> [] \<and> show_obj x lb = Inr (snd (hd ls)) \<and> dump_type_objects d k ty x lb = Inr (filter (of_type ty) (map snd (tl ls)), lb')"
  "ls_kids d k g i lv lb = Inr (ls, lb') \<Longrightarrow> walk_ok cf r lb \<Longrightarrow> lb_grps lb g = Some (BaseGrp ys) \<Longrightarrow> objs_known lb (set ys) \<Longrightarrow>
     length ys < 2 ^ 31 \<Longrightarrow> lens_ok cf \<Longrightarrow>
     dump_kids d k ty g i (length ys) lb = Inr (filter (of_type ty) (map snd ls), lb')"
proof (induction d arbitrary: x lv lb ls lb' g i ys)
  case (Suc d)
  {
    case 1
    then obtain l rc g lb1 ls' where l: "show_obj x lb = Inr l" and c: "lib_children k x lb = Inr ((rc, g), lb1)"
      and kd: "rc = RET_SUCCESS \<longrightarrow> ls_kids d k g 0 lv lb1 = Inr (ls', lb')" and ls: "rc = RET_SUCCESS \<longrightarrow> ls = (lv, l) # ls'"
      by (auto simp: c_assert_eq_Inr_iff ret_defs elim!: rbind_eq_InrE split: if_splits)
    note s = lib_children_spec [OF c 1(2)]
    have n: "length (kids_of cf x) < 2 ^ 31" using 1(4) by (simp add: lens_ok_def)
    have "dump_kids d k ty g 0 (length (kids_of cf x)) lb1 = Inr (filter (of_type ty) (map snd ls'), lb')"
      using Suc.IH(2) kd s n 1(4) by blast
    moreover have "PWR_GrpGetNumObjs g lb1 = Inr (int (length (kids_of cf x)))"
      using s by (simp add: PWR_GrpGetNumObjs_def grp_at_def group_size_def)
    ultimately show ?case using c s l ls by simp
  next
    case 2
    show ?case
    proof (cases "i < length ys")
      case True
      then have q: "PWR_GrpGetNumObjs g lb = Inr (int (length ys))" "PWR_GrpGetObjByIndx g (int i) lb = Inr (RET_SUCCESS, ys ! i)"
        using group_calls [OF 2(3) True] 2(5) by auto
      obtain l1 lb1 l2 where w: "ls_walk d k (ys ! i) (Suc lv) lb = Inr (l1, lb1)" and e: "ls_kids d k g (Suc i) lv lb1 = Inr (l2, lb')"
        and ls: "ls = l1 @ l2"
        using 2(1) q True by (auto elim!: rbind_eq_InrE)
      have "ys ! i \<in> set ys" using True by simp
      then have y: "objs_known lb {ys ! i}" using 2(4) unfolding objs_known_def by blast
      from walk_spec(1) [OF w 2(2) y 2(6)] have a: "walk_ok cf r lb1" "later lb lb1" by simp_all
      have "lb_grps lb1 g = Some (BaseGrp ys)" using a(2) 2(3) by (simp add: later_def)
      from Suc.IH(2) [OF e a(1) this objs_known_later [OF a(2) 2(4)] 2(5,6)]
      have b: "dump_kids d k ty g (Suc i) (length ys) lb1 = Inr (filter (of_type ty) (map snd l2), lb')" .
      from Suc.IH(1) [OF w 2(2) y 2(6)] obtain m ms where l1: "l1 = m # ms" "show_obj (ys ! i) lb = Inr (snd m)"
        "dump_type_objects d k ty (ys ! i) lb = Inr (filter (of_type ty) (map snd ms), lb1)" by (cases l1) auto
      have t: "ol_type (snd m) = snd (PWR_ObjGetType (ys ! i) lb)" using show_obj_type [OF l1(2)] .
      have "of_type ty (snd m) \<longleftrightarrow> ty = None \<or> ty = Some (snd (PWR_ObjGetType (ys ! i) lb))" by (simp add: of_type_def t)
      then show ?thesis using q True b l1 ls by simp
    next
      case False
      then have "PWR_GrpGetNumObjs g lb = Inr (int (length ys))"
        using 2(3) by (simp add: PWR_GrpGetNumObjs_def grp_at_def group_size_def)
      then show ?thesis using 2 False by auto
    qed
  }
qed simp_all

text \<open>
  C11.  In a context that was just made, \<^verbatim>\<open>pwr-ls\<close> prints the tree of the configuration below the root: every object with its type
  and its depth, before the objects below it and these in the order of the configuration.  \<^verbatim>\<open>pwrdmp\<close> prints the same objects in the
  same order, with the same attributes, but not the root itself, and with a type only those of the type.
\<close>

theorem listings_show_tree:
  assumes "PWR_CntxtInit k pf role name s = Inr (rc, Some lb)" and "lens_ok (cfg (lb_cx lb))"
    and "ls_walk d k (rootName (lb_cx lb)) 0 lb = Inr (ls, lb')"
  shows "map shown_as ls = obj_tree d (cfg (lb_cx lb)) 0 (rootName (lb_cx lb)) \<and>
    (\<forall>ty. dump_type_objects d k ty (rootName (lb_cx lb)) lb = Inr (filter (of_type ty) (map snd (tl ls)), lb'))"
proof -
  obtain cf r where ok: "lib_ok cf r lb" and rt: "objMap (lb_cx lb) r \<noteq> None" using PWR_CntxtInit_ok [OF assms(1)] by blast
  then have c: "cfg (lb_cx lb) = cf" "rootName (lb_cx lb) = r" by (simp_all add: lib_ok_def typed_objects_def cx_shape_def)
  have "lb_kids lb = Map.empty"
    using assms(1) by (auto simp: PWR_CntxtInit_def new_lib_def elim!: rbind_eq_InrE split: if_splits option.splits)
  then have w: "walk_ok cf r lb" using ok by (simp add: walk_ok_def)
  have kn: "objs_known lb {r}" using rt by (auto simp: objs_known_def)
  show ?thesis
    unfolding c using walk_spec(1) [OF assms(3) [unfolded c] w kn assms(2) [unfolded c]]
      walk_dump(1) [OF assms(3) [unfolded c] w kn assms(2) [unfolded c]] by blast
qed

text \<open>A node with two cores, none of which has an attribute.\<close>

definition bare_config :: config where
  "bare_config = tree_config\<lparr>findAttrOp := \<lambda>_ _. [], findPlugins := []\<rparr>"

lemma bare_config_simps:
  "findChildren bare_config ''n'' = [''c0'', ''c1'']" "findChildren bare_config ''c0'' = []" "findChildren bare_config ''c1'' = []"
  "objType bare_config ''n'' = Some OBJ_NODE" "objType bare_config ''c0'' = Some OBJ_CORE" "objType bare_config ''c1'' = Some OBJ_CORE"
  "findAttrOp bare_config x a = []" "findPlugins bare_config = []"
  by (simp_all add: bare_config_def tree_config_def)

lemma lens_bare: "lens_ok bare_config"
  by (simp add: lens_ok_def kids_of_def bare_config_def tree_config_def base_add_def)

definition bare_platform :: "(unit, unit) platform" where
  "bare_platform = \<lparr>pf_env = [''POWERAPI_CONFIG'' \<mapsto> ''a.xml'', ''POWERAPI_ROOT'' \<mapsto> ''n''], pf_python = True, pf_hwloc = True,
     pf_read = (\<lambda>rd fl. Inr bare_config), pf_loader = (\<lambda>lib tab. None), pf_sysname = ''Linux''\<rparr>"

definition bare_root :: "(unit, unit) lib" where
  "bare_root = new_lib ((empty_cx bare_config ''n'')\<lparr>objMap := [''n'' \<mapsto> \<lparr>o_name = ''n'', o_type = OBJ_NODE, attrInfo = no_info\<rparr>]\<rparr>, ()) False"

lemma bare_root_cfg: "cfg (lb_cx bare_root) = bare_config" "rootName (lb_cx bare_root) = ''n''"
  by (simp_all add: bare_root_def new_lib_def empty_cx_def)

lemma bare_init: "PWR_CntxtInit 1 bare_platform 0 ''App'' () = Inr (RET_SUCCESS, Some bare_root)"
proof -
  have r: "config_reader True True ''a.xml'' = Inr Xml_Reader" by (simp add: config_reader_def find_last_of_def)
  show ?thesis
    by (simp add: PWR_CntxtInit_def DistCntxt_new_def initEventChannel_def getenv2_def bare_platform_def r initPlugins_def
        empty_cx_def bare_config_simps findObject_def plain_create bare_root_def)
qed

lemma tool_name_short: "tool_name ''n'' = Inr ''n''" "tool_name ''c0'' = Inr ''c0''" "tool_name ''c1'' = Inr ''c1''"
  by code_simp+

lemma bare_walk: "\<exists>ls lb. ls_walk 5 1 ''n'' 0 bare_root = Inr (ls, lb)"
  by (simp add: eval_nat_numeral show_obj_def tool_name_short lib_children_def on_cx_def getChildren_def addChildBase_def mustFind_def
      findObject_def plain_create bare_config_simps bare_root_def new_lib_def empty_cx_def new_grp_def put_grp_def base_add_def
      PWR_GrpGetNumObjs_def PWR_GrpGetObjByIndx_def grp_at_def group_size_def group_getObj_def arr_get_def ret_defs)

theorem listings_show_tree_witness:
  "\<exists>lb ls lb'. PWR_CntxtInit 1 bare_platform 0 ''App'' () = Inr (RET_SUCCESS, Some lb) \<and> ls_walk 5 1 ''n'' 0 lb = Inr (ls, lb') \<and>
     map shown_as ls = [(0, ''n'', OBJ_NODE), (1, ''c0'', OBJ_CORE), (1, ''c1'', OBJ_CORE)] \<and>
     dump_type_objects 5 1 (Some OBJ_NODE) ''n'' lb = Inr ([], lb')"
proof -
  obtain ls lb' where w: "ls_walk 5 1 ''n'' 0 bare_root = Inr (ls, lb')" using bare_walk by blast
  have t: "obj_tree 5 bare_config 0 ''n'' = [(0, ''n'', OBJ_NODE), (1, ''c0'', OBJ_CORE), (1, ''c1'', OBJ_CORE)]"
    by (simp add: eval_nat_numeral kids_of_def bare_config_simps base_add_def until_null_def)
  from listings_show_tree [OF bare_init, unfolded bare_root_cfg, OF lens_bare w]
  have m: "map shown_as ls = obj_tree 5 bare_config 0 ''n''"
    and d: "dump_type_objects 5 1 (Some OBJ_NODE) ''n'' bare_root = Inr (filter (of_type (Some OBJ_NODE)) (map snd (tl ls)), lb')" by blast+
  have "map (ol_type \<circ> snd) (tl ls) = [OBJ_CORE, OBJ_CORE]"
    using arg_cong [OF m [unfolded t], of "\<lambda>xs. map (snd \<circ> snd) (tl xs)"] by (cases ls) (simp_all add: shown_as_def comp_def)
  then have "filter (of_type (Some OBJ_NODE)) (map snd (tl ls)) = []"
    by (auto simp: filter_empty_conv of_type_def map_eq_Cons_conv)
  then show ?thesis using bare_init w m t d by auto
qed

subsection \<open>Reading and writing one attribute\<close>

definition toUpper :: "string \<Rightarrow> string" where
  "toUpper s = map (\<lambda>c. if 97 \<le> char_code c \<and> char_code c \<le> 122 then char_of (char_code c - 32) else c) s"

definition pwrget_getAttr :: "string \<Rightarrow> attr option" where
  "pwrget_getAttr name =
     (if name = ''PSTATE'' then Some ATTR_PSTATE
      else if name = ''CSTATE'' then Some ATTR_CSTATE
      else if name = ''SSTATE'' then Some ATTR_SSTATE
      else if name = ''CURRENT'' then Some ATTR_CURRENT
      else if name = ''VOLTAGE'' then Some ATTR_VOLTAGE
      else if name = ''POWER'' then Some ATTR_POWER
      else if name = ''POWER_LIMIT_MAX'' then Some ATTR_POWER_LIMIT_MAX
      else if name = ''FREQ'' then Some ATTR_FREQ
      else if name = ''ENERGY'' then Some ATTR_ENERGY
      else if name = ''TEMP'' then Some ATTR_TEMP
      else if name = ''OS_ID'' then Some ATTR_OS_ID
      else None)"

definition pwrset_getAttr :: "string \<Rightarrow> attr option" where
  "pwrset_getAttr name =
     (if name = ''PSTATE'' then Some ATTR_PSTATE
      else if name = ''CSTATE'' then Some ATTR_CSTATE
      else if name = ''SSTATE'' then Some ATTR_SSTATE
      else if name = ''CURRENT'' then Some ATTR_CURRENT
      else if name = ''VOLTAGE'' then Some ATTR_VOLTAGE
      else if name = ''POWER'' then Some ATTR_POWER
      else if name = ''FREQ'' then Some ATTR_FREQ
      else if name = ''ENERGY'' then Some ATTR_ENERGY
      else if name = ''TEMP'' then Some ATTR_TEMP
      else if name = ''OS_ID'' then Some ATTR_OS_ID
      else if name = ''GOV'' then Some ATTR_GOV
      else None)"

record tool_args =
  ta_name :: "string option"
  ta_attr :: "string option"
  ta_value :: "string option"
  ta_sleep :: nat

datatype tool_opt = Opt_Object string | Opt_Attr string | Opt_Freq string | Opt_Value string | Opt_Unknown

text \<open>
  The time to sleep is a \<^verbatim>\<open>double\<close> made an \<^verbatim>\<open>unsigned long\<close>: with a frequency of zero, or a negative one that gives
  microseconds, the conversion is outside its range.
\<close>

definition sleep_time :: "string \<Rightarrow> nat res" where
  "sleep_time s =
     (let n = atoi s; t = trunc (1 / real_of_int n * 1000000)
      in if n = 0 \<or> t < 0 then Inl SignedOverflow else Inr (nat t))"

fun get_opts :: "tool_opt list \<Rightarrow> tool_args \<Rightarrow> tool_args res" where
  "get_opts [] a = Inr a"
| "get_opts (Opt_Object s # os) a = get_opts os (a\<lparr>ta_name := Some s\<rparr>)"
| "get_opts (Opt_Attr s # os) a = get_opts os (a\<lparr>ta_attr := Some s\<rparr>)"
| "get_opts (Opt_Freq s # os) a = rbind (sleep_time s) (\<lambda>t. get_opts os (a\<lparr>ta_sleep := t\<rparr>))"
| "get_opts (_ # os) a = Inl ExitFatal"

fun set_opts :: "tool_opt list \<Rightarrow> tool_args \<Rightarrow> tool_args res" where
  "set_opts [] a = Inr a"
| "set_opts (Opt_Object s # os) a = set_opts os (a\<lparr>ta_name := Some s\<rparr>)"
| "set_opts (Opt_Attr s # os) a = set_opts os (a\<lparr>ta_attr := Some s\<rparr>)"
| "set_opts (Opt_Value s # os) a = set_opts os (a\<lparr>ta_value := Some s\<rparr>)"
| "set_opts (_ # os) a = Inl ExitFatal"

definition no_args :: tool_args where
  "no_args = \<lparr>ta_name = None, ta_attr = None, ta_value = None, ta_sleep = 0\<rparr>"

text \<open>A context and an object in it, which must both be there.\<close>

definition tool_object :: "nat \<Rightarrow> ('o, 's) platform \<Rightarrow> string \<Rightarrow> 's \<Rightarrow> (string \<times> ('o, 's) lib) res" where
  "tool_object k pf name s =
     rbind (PWR_CntxtInit k pf ROLE_APP ''App'' s) (\<lambda>(rc, ctx). c_assert (rc = RET_SUCCESS)
       (case ctx of
          None \<Rightarrow> Inl UninitRead
        | Some lb \<Rightarrow>
            rbind (PWR_CntxtGetObjByName k name lb) (\<lambda>((rc', ob), lb'). c_assert (rc' = RET_SUCCESS)
              (case ob of None \<Rightarrow> Inl UninitRead | Some x \<Rightarrow> Inr (x, lb')))))"

text \<open>
  The loop of \<^verbatim>\<open>pwrget\<close> for \<open>n\<close> turns: the status of the process when it ends, \<open>None\<close> when it still runs; the values printed.
  Without a frequency it reads once.
\<close>

fun pwrget_loop ::
  "(string \<Rightarrow> string option) \<Rightarrow> nat \<Rightarrow> nat \<Rightarrow> string \<Rightarrow> attr \<Rightarrow> ('o, 's) lib \<Rightarrow> (int option \<times> real list \<times> ('o, 's) lib) res" where
  "pwrget_loop look 0 sleep x a lb = Inr (None, [], lb)"
| "pwrget_loop look (Suc n) sleep x a lb =
     rbind (PWR_ObjAttrGetValue look x a Uninit 0 lb) (\<lambda>((rc, vs, ts), lb1).
     if rc \<noteq> RET_SUCCESS then Inr (Some (-1), [], lb1)
     else rbind (rbind (arr_get vs 0) load_double) (\<lambda>v.
          if sleep = 0 then Inr (Some 0, [v], lb1)
          else rbind (pwrget_loop look n sleep x a lb1) (\<lambda>(st, out, lb2). Inr (st, v # out, lb2))))"

text \<open>The context is destroyed when the loop is left; a failed read ends the process without it.\<close>

definition tool_end ::
  "('o \<Rightarrow> nat) \<Rightarrow> (('s devops) \<Rightarrow> 's \<Rightarrow> 's res) \<Rightarrow> (('o, 's) plugin \<Rightarrow> 'o \<Rightarrow> 's \<Rightarrow> 's res) \<Rightarrow> int option \<Rightarrow> ('o, 's) lib \<Rightarrow> 's res" where
  "tool_end ptr cl fin st lb = (if st = Some 0 then rbind (PWR_CntxtDestroy ptr cl fin lb) (\<lambda>(_, s'). Inr s') else Inr (lb_st lb))"

definition get_main ::
  "nat \<Rightarrow> nat \<Rightarrow> (string \<Rightarrow> string option) \<Rightarrow> ('o, 's) platform \<Rightarrow> ('o \<Rightarrow> nat) \<Rightarrow> (('s devops) \<Rightarrow> 's \<Rightarrow> 's res) \<Rightarrow> (('o, 's) plugin \<Rightarrow> 'o \<Rightarrow> 's \<Rightarrow> 's res)
   \<Rightarrow> tool_opt list \<Rightarrow> 's \<Rightarrow> (int option \<times> real list \<times> 's) res" where
  "get_main n k look pf ptr cl fin opts s =
     rbind (get_opts opts no_args) (\<lambda>args.
     case (ta_name args, ta_attr args) of
       (Some name, Some an) \<Rightarrow>
         (case pwrget_getAttr (toUpper an) of
            None \<Rightarrow> Inl AssertFailed
          | Some a \<Rightarrow> rbind (tool_object k pf name s) (\<lambda>(x, lb). rbind (pwrget_loop look n (ta_sleep args) x a lb) (\<lambda>(st, out, lb').
              rbind (tool_end ptr cl fin st lb') (\<lambda>s'. Inr (st, out, s')))))
     | _ \<Rightarrow> Inl ExitFatal)"

text \<open>\<^verbatim>\<open>pwrset\<close> passes the number as a \<^verbatim>\<open>double\<close>, whatever the attribute is.\<close>

definition lib_attrSetValue ::
  "(string \<Rightarrow> string option) \<Rightarrow> string \<Rightarrow> attr \<Rightarrow> cell \<Rightarrow> ('o, 's) lib \<Rightarrow> ((int \<times> cell list) \<times> ('o, 's) lib) res" where
  "lib_attrSetValue look x a v lb =
     rbind (dist_attrSetValue look (obj_of (lb_cx lb) x) a (lb_st lb, lb_net lb) v) (\<lambda>(r, (s, nt)). Inr (r, lb\<lparr>lb_st := s, lb_net := nt\<rparr>))"

definition set_main ::
  "nat \<Rightarrow> (string \<Rightarrow> string option) \<Rightarrow> ('o, 's) platform \<Rightarrow> ('o \<Rightarrow> nat) \<Rightarrow> (('s devops) \<Rightarrow> 's \<Rightarrow> 's res) \<Rightarrow> (('o, 's) plugin \<Rightarrow> 'o \<Rightarrow> 's \<Rightarrow> 's res)
   \<Rightarrow> tool_opt list \<Rightarrow> 's \<Rightarrow> (int \<times> real list \<times> 's) res" where
  "set_main k look pf ptr cl fin opts s =
     rbind (set_opts opts no_args) (\<lambda>args.
     case (ta_name args, ta_attr args, ta_value args) of
       (Some name, Some an, Some val) \<Rightarrow>
         (case pwrset_getAttr (toUpper an) of
            None \<Rightarrow> Inl AssertFailed
          | Some a \<Rightarrow> rbind (tool_object k pf name s) (\<lambda>(x, lb).
              rbind (lib_attrSetValue look x a (Dbl (real_of_int (atoi val))) lb) (\<lambda>((rc, vs), lb').
              if rc \<noteq> RET_SUCCESS then Inr (-1, [], lb_st lb')
              else rbind (rbind (arr_get vs 0) load_double) (\<lambda>v. rbind (tool_end ptr cl fin (Some 0) lb') (\<lambda>s'. Inr (0, [v], s'))))))
     | _ \<Rightarrow> Inl ExitFatal)"

text \<open>The attributes a tool can be asked for are those of its table; the names are those of the library except one.\<close>

lemma pwrget_names:
  "pwrget_getAttr (attrNameToString a) = Some b \<Longrightarrow> a = b"
  by (cases a) (simp_all add: pwrget_getAttr_def)

text \<open>\<^verbatim>\<open>pwrenergy\<close>: every second the energy and its difference, which for a reading after zero is not computed.\<close>

fun energy_loop ::
  "(string \<Rightarrow> string option) \<Rightarrow> nat \<Rightarrow> int \<Rightarrow> real \<Rightarrow> string \<Rightarrow> ('o, 's) lib \<Rightarrow> (int option \<times> (real \<times> real) list \<times> ('o, 's) lib) res" where
  "energy_loop look 0 samples prev x lb = Inr (None, [], lb)"
| "energy_loop look (Suc n) samples prev x lb =
     (if samples = 0 then Inr (Some 0, [], lb)
      else if samples = - (2 ^ 31) then Inl SignedOverflow
      else rbind (PWR_ObjAttrGetValue look x ATTR_ENERGY Uninit 0 lb) (\<lambda>((rc, vs, ts), lb1).
           if rc \<noteq> RET_SUCCESS then Inr (Some (-1), [], lb1)
           else rbind (rbind (arr_get vs 0) load_double) (\<lambda>v.
                rbind (energy_loop look n (samples - 1) v x lb1) (\<lambda>(st, out, lb2).
                Inr (st, (v, if prev = 0 then 0 else v - prev) # out, lb2)))))"

datatype energy_opt = En_Object string | En_Samples string | En_Unknown

fun energy_opts :: "energy_opt list \<Rightarrow> string option \<times> int \<Rightarrow> (string option \<times> int) res" where
  "energy_opts [] a = Inr a"
| "energy_opts (En_Object s # os) a = energy_opts os (Some s, snd a)"
| "energy_opts (En_Samples s # os) a = energy_opts os (fst a, atoi s)"
| "energy_opts (En_Unknown # os) a = Inl ExitFatal"

definition energy_main ::
  "nat \<Rightarrow> nat \<Rightarrow> (string \<Rightarrow> string option) \<Rightarrow> ('o, 's) platform \<Rightarrow> ('o \<Rightarrow> nat) \<Rightarrow> (('s devops) \<Rightarrow> 's \<Rightarrow> 's res) \<Rightarrow> (('o, 's) plugin \<Rightarrow> 'o \<Rightarrow> 's \<Rightarrow> 's res)
   \<Rightarrow> energy_opt list \<Rightarrow> 's
   \<Rightarrow> (int option \<times> (real \<times> real) list \<times> 's) res" where
  "energy_main n k look pf ptr cl fin opts s =
     rbind (energy_opts opts (None, 1)) (\<lambda>(nm, samples).
     case nm of
       None \<Rightarrow> Inl ExitFatal
     | Some name \<Rightarrow> rbind (tool_object k pf name s) (\<lambda>(x, lb). rbind (energy_loop look n samples 0 x lb) (\<lambda>(st, out, lb').
         rbind (tool_end ptr cl fin st lb') (\<lambda>s'. Inr (st, out, s')))))"

text \<open>With a number of samples that is not negative the tool ends.\<close>

lemma energy_loop_ends:
  "energy_loop look n samples prev x lb = Inr (st, out, lb') \<Longrightarrow> 0 \<le> samples \<Longrightarrow> nat samples < n \<Longrightarrow> st \<noteq> None"
proof (induction n arbitrary: samples prev lb out)
  case (Suc n)
  show ?case
  proof (cases "samples = 0")
    case False
    with Suc.prems(1) consider "st = Some (-1)"
      | v lb1 out1 where "energy_loop look n (samples - 1) v x lb1 = Inr (st, out1, lb')"
      by (auto elim!: rbind_eq_InrE split: if_splits)
    then show ?thesis
    proof cases
      case 2
      then show ?thesis using Suc.IH [OF 2] Suc.prems(2,3) False by simp
    qed simp
  qed (use Suc.prems(1) in auto)
qed simp

subsection \<open>Reading the attributes of all objects of a type\<close>

record api_args =
  aa_samples :: nat
  aa_freq :: nat
  aa_attrs :: "attr list"
  aa_type :: obj_type

definition api_attr :: "string \<Rightarrow> attr option" where
  "api_attr s =
     (case s of
        [] \<Rightarrow> None
      | c # _ \<Rightarrow>
          if c = CHR ''E'' then Some ATTR_ENERGY else if c = CHR ''P'' then Some ATTR_POWER
          else if c = CHR ''F'' then Some ATTR_FREQ else if c = CHR ''T'' then Some ATTR_TEMP
          else if c = CHR ''M'' then Some ATTR_POWER_LIMIT_MAX else if c = CHR ''V'' then Some ATTR_VOLTAGE
          else if c = CHR ''C'' then Some ATTR_CURRENT else None)"

datatype api_opt = Api_Samples string | Api_Freq string | Api_Attr string | Api_Type string | Api_Usage

text \<open>The attributes are stored into an array of 100; the numbers are made unsigned.\<close>

fun api_opts :: "api_opt list \<Rightarrow> api_args \<Rightarrow> (int + api_args) res" where
  "api_opts [] a = Inr (if aa_attrs a = [] then Inl 1 else Inr a)"
| "api_opts (Api_Samples s # os) a = api_opts os (a\<lparr>aa_samples := unat (word_of_int (atoi s) :: 32 word)\<rparr>)"
| "api_opts (Api_Freq s # os) a = api_opts os (a\<lparr>aa_freq := unat (word_of_int (atoi s) :: 32 word)\<rparr>)"
| "api_opts (Api_Attr s # os) a =
     (case api_attr s of
        None \<Rightarrow> Inr (Inl (-1))
      | Some x \<Rightarrow> if length (aa_attrs a) < 100 then api_opts os (a\<lparr>aa_attrs := aa_attrs a @ [x]\<rparr>) else Inl MemoryFault)"
| "api_opts (Api_Type s # os) a = (case tool_type s of None \<Rightarrow> Inr (Inl (-1)) | Some t \<Rightarrow> api_opts os (a\<lparr>aa_type := t\<rparr>))"
| "api_opts (Api_Usage # os) a = Inr (Inl 1)"

text \<open>The objects of the type, collected into a group; an object that cannot be added ends the search below it.\<close>

fun get_type_objects :: "nat \<Rightarrow> nat \<Rightarrow> obj_type \<Rightarrow> nat \<Rightarrow> string \<Rightarrow> ('o, 's) lib \<Rightarrow> ('o, 's) lib res"
  and type_kids :: "nat \<Rightarrow> nat \<Rightarrow> obj_type \<Rightarrow> nat \<Rightarrow> nat \<Rightarrow> nat \<Rightarrow> nat \<Rightarrow> ('o, 's) lib \<Rightarrow> ('o, 's) lib res" where
  "get_type_objects 0 k ty out x lb = Inl Diverges"
| "get_type_objects (Suc d) k ty out x lb =
     rbind (if snd (PWR_ObjGetType x lb) = ty then PWR_GrpAddObj out x lb else Inr (RET_SUCCESS, lb)) (\<lambda>(rc, lb1).
     if rc = RET_FAILURE then Inr lb1
     else rbind (lib_children k x lb1) (\<lambda>((rc', g), lb2).
          if rc' \<noteq> RET_SUCCESS then Inr lb2
          else rbind (PWR_GrpGetNumObjs g lb2) (\<lambda>n. type_kids d k ty out g 0 (nat n) lb2)))"
| "type_kids 0 k ty out g i n lb = Inl Diverges"
| "type_kids (Suc d) k ty out g i n lb =
     (if i < n then
        rbind (PWR_GrpGetObjByIndx g (int i) lb) (\<lambda>(rc, y). rbind (get_type_objects d k ty out y lb) (\<lambda>lb1.
        type_kids d k ty out g (Suc i) n lb1))
      else Inr lb)"

text \<open>
  A row.  The start value, its time and the time since then are variables of \<^verbatim>\<open>main\<close>.  The values are read at the number of the
  attribute only, wherever in the group the object is.
\<close>

type_synonym api_start = "real \<times> pwr_time \<times> pwr_time"

fun api_cols :: "attr list \<Rightarrow> nat \<Rightarrow> bool \<Rightarrow> cell list \<Rightarrow> pwr_time list \<Rightarrow> api_start \<Rightarrow> (real list \<times> api_start) res" where
  "api_cols [] k first vals ts st = Inr ([], st)"
| "api_cols (a # as) k first vals ts st =
     rbind (if k \<noteq> 0 then Inr st
            else rbind (arr_get ts k) (\<lambda>t.
                 if first then rbind (rbind (arr_get vals k) load_double) (\<lambda>v. Inr (v, t, t - t))
                 else Inr (fst st, fst (snd st), t - fst (snd st)))) (\<lambda>st1.
     rbind (rbind (arr_get vals k) load_double) (\<lambda>v.
     rbind (api_cols as (Suc k) first vals ts st1) (\<lambda>(out, st2).
     Inr ((if a = ATTR_ENERGY then [v - fst st1] else []) @ v # out, st2))))"

datatype api_line = Api_Row string "real list" pwr_time | Api_Error string attr int

text \<open>After each row the tool sleeps; with a frequency of zero the time to sleep is not one of C.\<close>

fun api_rows ::
  "attr list \<Rightarrow> nat \<Rightarrow> bool \<Rightarrow> cell list \<Rightarrow> pwr_time list \<Rightarrow> nat \<Rightarrow> nat \<Rightarrow> nat \<Rightarrow> ('o, 's) lib \<Rightarrow> api_start \<Rightarrow> (api_line list \<times> api_start) res"
where
  "api_rows as freq first vals ts g j 0 lb st = Inr ([], st)"
| "api_rows as freq first vals ts g j (Suc m) lb st =
     rbind (PWR_GrpGetObjByIndx g (int j) lb) (\<lambda>(rc, x). rbind (tool_name x) (\<lambda>nm.
     rbind (api_cols as 0 first vals ts st) (\<lambda>(out, st1).
     if freq = 0 then Inl SignedOverflow
     else rbind (api_rows as freq first vals ts g (Suc j) m lb st1) (\<lambda>(ls, st2). Inr (Api_Row nm out (snd (snd st1)) # ls, st2)))))"

text \<open>The samples that are left; the first that fails is the last.\<close>

fun api_loop ::
  "(string \<Rightarrow> string option) \<Rightarrow> attr list \<Rightarrow> nat \<Rightarrow> nat \<Rightarrow> nat \<Rightarrow> nat \<Rightarrow> bool \<Rightarrow> cell list \<Rightarrow> pwr_time list \<Rightarrow> status \<Rightarrow> api_start \<Rightarrow> ('o, 's) lib
   \<Rightarrow> (api_line list \<times> ('o, 's) lib) res"
where
  "api_loop look as freq g n 0 first buf ts ss st lb = Inr ([], lb)"
| "api_loop look as freq g n (Suc m) first buf ts ss st lb =
     rbind (PWR_GrpAttrGetValues look g as buf ts ss lb) (\<lambda>((rc, buf1, ts1, ss1), lb1).
     if rc = RET_SUCCESS then
       rbind (api_rows as freq first buf1 ts1 g 0 n lb1 st) (\<lambda>(ls, st1).
       rbind (api_loop look as freq g n m False buf1 ts1 ss1 st1 lb1) (\<lambda>(ls', lb2). Inr (ls @ ls', lb2)))
     else (case fst (snd (status_pop ss1)) of
             None \<Rightarrow> Inl UninitRead
           | Some e \<Rightarrow>
               (case err_obj e of
                  None \<Rightarrow> Inl MemoryFault
                | Some x \<Rightarrow> rbind (tool_name x) (\<lambda>nm. Inr ([Api_Error nm (err_name e) (err_error e)], lb1)))))"

definition api_main ::
  "nat \<Rightarrow> nat \<Rightarrow> (string \<Rightarrow> string option) \<Rightarrow> ('o, 's) platform \<Rightarrow> api_opt list \<Rightarrow> 's \<Rightarrow> (int \<times> api_line list) res" where
  "api_main d k look pf opts s =
     rbind (api_opts opts \<lparr>aa_samples = 1, aa_freq = 1, aa_attrs = [], aa_type = OBJ_SOCKET\<rparr>) (\<lambda>r.
     case r of
       Inl rc \<Rightarrow> Inr (rc, [])
     | Inr a \<Rightarrow>
         rbind (PWR_CntxtInit k pf ROLE_APP ''Application'' s) (\<lambda>(rc, ctx).
         if rc \<noteq> RET_SUCCESS then Inr (-1, [])
         else (case ctx of
                 None \<Rightarrow> Inl UninitRead
               | Some lb \<Rightarrow>
                   let (rc1, self) = PWR_CntxtGetEntryPoint lb; ((rc2, g), lb1) = PWR_GrpCreate lb
                   in if rc1 \<noteq> RET_SUCCESS \<or> rc2 \<noteq> RET_SUCCESS then Inr (-1, [])
                      else rbind (get_type_objects d k (aa_type a) g self lb1) (\<lambda>lb2.
                           rbind (PWR_GrpGetNumObjs g lb2) (\<lambda>n.
                           if n = 0 then Inr (-1, [])
                           else rbind (api_loop look (aa_attrs a) (aa_freq a) g (nat n) (aa_samples a) True
                                    (replicate (nat n * length (aa_attrs a)) Uninit) (replicate (nat n * length (aa_attrs a)) 0) [] (0, 0, 0) lb2)
                                  (\<lambda>(ls, lb3). Inr (0, ls)))))))"

text \<open>All rows of a sample show the same values, those of the first object of the group.\<close>

lemma api_cols_later: "api_cols as (Suc k) first vals ts st = Inr (out, st') \<Longrightarrow> st' = st"
  by (induction as arbitrary: k out st) (auto elim!: rbind_eq_InrE)

lemma api_cols_again: "api_cols as 0 first vals ts st = Inr (out, st') \<Longrightarrow> api_cols as 0 first vals ts st' = Inr (out, st')"
  by (cases as) (auto elim!: rbind_eq_InrE split: if_splits, (frule api_cols_later, simp)+)

lemma api_rows_same:
  assumes "api_cols as 0 first vals ts st = Inr (out, st')"
  shows "st0 \<in> {st, st'} \<Longrightarrow> api_rows as freq first vals ts g j m lb st0 = Inr (ls, st1) \<Longrightarrow>
    \<forall>l\<in>set ls. \<exists>nm. l = Api_Row nm out (snd (snd st'))"
proof (induction m arbitrary: j st0 ls)
  case (Suc m)
  have c: "api_cols as 0 first vals ts st0 = Inr (out, st')" using Suc.prems(1) assms api_cols_again by blast
  with Suc.prems(2) obtain nm ls' where "ls = Api_Row nm out (snd (snd st')) # ls'"
    and "api_rows as freq first vals ts g (Suc j) m lb st' = Inr (ls', st1)"
    by (auto elim!: rbind_eq_InrE split: if_splits)
  with Suc.IH [of st'] show ?case by auto
qed simp

end
