(* ===== verification/Pwr_Gen.thy ===== *)
theory Pwr_Gen imports Xml_Config begin

text \<open>
  \<^verbatim>\<open>src/tools/pwrgen.cc\<close>: the tool that makes a configuration of the topology hwloc prints.  The document it reads is the tree the
  XML parser builds (\<open>xnode\<close>); of the document it makes, the elements \<^verbatim>\<open>obj\<close> are a datatype while they are nested, and become
  the nodes \<open>Xml_Config\<close> reads when they are flattened.
\<close>

subsection \<open>Translating\<close>

text \<open>
  An element \<^verbatim>\<open>obj\<close> with the attributes name, type and index.  The index is printed and read again as a number of C; it counts
  the objects under one element, which are fewer than it can hold.
\<close>

datatype gobj = GObj (go_name: string) (go_type: string) (go_index: nat) (go_kids: "gobj list")

definition gen_type :: "xnode \<Rightarrow> (string \<times> string) option" where
  "gen_type e =
     (case e of
        XOther v \<Rightarrow> None
      | XElem n as cs \<Rightarrow>
          if map_of as ''type'' = Some ''Machine'' then Some (''node'', ''Node'')
          else if map_of as ''type'' = Some ''Socket'' then Some (''socket'', ''Socket'')
          else if map_of as ''type'' = Some ''Core'' then Some (''core'', ''Core'')
          else None)"

definition is_object :: "xnode \<Rightarrow> bool" where
  "is_object e \<longleftrightarrow> (case e of XElem n as cs \<Rightarrow> n = ''object'' | XOther v \<Rightarrow> False)"

text \<open>What is put below the parent, and the next index: objects of other types give their parent what is below them.\<close>

fun gen_translate :: "xnode \<Rightarrow> nat \<Rightarrow> gobj list \<times> nat" and gen_objects :: "xnode list \<Rightarrow> nat \<Rightarrow> gobj list \<times> nat" where
  "gen_translate (XElem n as cs) i = gen_objects cs i"
| "gen_translate (XOther v) i = ([], i)"
| "gen_objects [] i = ([], i)"
| "gen_objects (e # es) i =
     (if \<not> is_object e then gen_objects es i
      else case gen_type e of
        Some (nm, ty) \<Rightarrow>
          (let (ks, _) = gen_translate e 0; (os, j) = gen_objects es (Suc i) in (GObj nm ty i ks # os, j))
      | None \<Rightarrow>
          (let (ks, j) = gen_translate e i; (os, k) = gen_objects es j in (ks @ os, k)))"

fun DeepClone :: "gobj \<Rightarrow> gobj" where
  "DeepClone (GObj nm ty i ks) = GObj nm ty i (map DeepClone ks)"

text \<open>The first object is taken for the node; there must be one when it is to be copied.\<close>

definition with_index :: "gobj \<Rightarrow> nat \<Rightarrow> gobj" where
  "with_index k i = GObj (go_name k) (go_type k) i (go_kids k)"

definition gen_duplicate :: "gobj list \<Rightarrow> int \<Rightarrow> gobj list res" where
  "gen_duplicate ks n =
     (if n \<le> 1 then Inr ks
      else case ks of [] \<Rightarrow> Inl MemoryFault | k # _ \<Rightarrow> Inr (ks @ map (with_index (DeepClone k)) [1..<nat n]))"

subsection \<open>Flattening\<close>

definition short_name :: "gobj \<Rightarrow> string" where
  "short_name k = go_name k @ show_nat (go_index k)"

definition child_elem :: "string \<Rightarrow> xnode" where
  "child_elem n = XElem ''child'' [(''name'', n)] []"

definition obj_elem :: "string \<Rightarrow> string \<Rightarrow> xnode list \<Rightarrow> xnode" where
  "obj_elem n ty cs = XElem ''obj'' [(''name'', n), (''type'', ty)] [XElem ''children'' [] cs]"

text \<open>The children of one element, and the objects below it, which are moved to the end of the list of all.\<close>

fun gen_flatten :: "string \<Rightarrow> gobj list \<Rightarrow> xnode list \<times> xnode list" where
  "gen_flatten p [] = ([], [])"
| "gen_flatten p (GObj nm ty i ks # os) =
     (let name = take 255 (nm @ show_nat i); full = take 255 (p @ dot @ nm @ show_nat i);
          (cs, sub) = gen_flatten full ks; (cs', rest) = gen_flatten p os
      in (child_elem name # cs', obj_elem full ty cs # sub @ rest))"

definition gen_doc :: "gobj list \<Rightarrow> xnode list" where
  "gen_doc ks =
     (let (cs, objs) = gen_flatten ''plat'' ks
      in [XElem ''System'' [] [XElem ''Plugins'' [] [], XElem ''Devices'' [] [], XElem ''Objects'' [] (obj_elem ''plat'' ''Platform'' cs # objs)]])"

datatype gen_opt = Gen_File string | Gen_Nodes string | Gen_Usage

fun gen_opts :: "gen_opt list \<Rightarrow> string \<times> int \<Rightarrow> (string \<times> int) option" where
  "gen_opts [] a = Some a"
| "gen_opts (Gen_File f # os) a = gen_opts os (f, snd a)"
| "gen_opts (Gen_Nodes s # os) a = gen_opts os (fst a, atoi s)"
| "gen_opts (Gen_Usage # os) a = None"

text \<open>
  The status of \<^verbatim>\<open>lstopo\<close>, the root element of the file it writes and the status of saving the document under a name are parameters.
  The result is the status of the process and the document when it was saved.
\<close>

definition gen_tree :: "xnode option \<Rightarrow> int \<Rightarrow> gobj list res" where
  "gen_tree hw n = (case hw of None \<Rightarrow> Inl MemoryFault | Some e \<Rightarrow> gen_duplicate (fst (gen_translate e 0)) n)"

definition gen_main ::
  "(string \<Rightarrow> int) \<Rightarrow> (string \<Rightarrow> xnode option) \<Rightarrow> (string \<Rightarrow> int) \<Rightarrow> gen_opt list \<Rightarrow> (int \<times> (string \<times> xnode list) option) res" where
  "gen_main lstopo load save opts =
     (case gen_opts opts (''hwloc.xml'', 0) of
        None \<Rightarrow> Inr (-1, None)
      | Some (f, n) \<Rightarrow>
          if lstopo f \<noteq> 0 then Inr (lstopo f, None)
          else rbind (gen_tree (load f) n) (\<lambda>ks. if save f \<noteq> 0 then Inr (save f, None) else Inr (0, Some (f, gen_doc ks))))"

subsection \<open>The names are those of the tree\<close>

fun gen_paths :: "string \<Rightarrow> gobj list \<Rightarrow> (string \<times> gobj) list" where
  "gen_paths p [] = []"
| "gen_paths p (GObj nm ty i ks # os) =
     (p @ dot @ nm @ show_nat i, GObj nm ty i ks) # gen_paths (p @ dot @ nm @ show_nat i) ks @ gen_paths p os"

definition elem_of :: "string \<times> gobj \<Rightarrow> xnode" where
  "elem_of po = obj_elem (fst po) (go_type (snd po)) (map (child_elem \<circ> short_name) (go_kids (snd po)))"

lemma gen_flatten_spec:
  "\<forall>po\<in>set (gen_paths p os). length (fst po) < 256 \<Longrightarrow>
   gen_flatten p os = (map (child_elem \<circ> short_name) os, map elem_of (gen_paths p os))"
proof (induction p os rule: gen_paths.induct)
  case (2 p nm ty i ks os)
  let ?f = "p @ dot @ nm @ show_nat i"
  have l: "length ?f < 256" using "2.prems" by simp
  then have "take 255 ?f = ?f" and "take 255 (nm @ show_nat i) = nm @ show_nat i" by (simp_all only: take_all_iff length_append)
  moreover have "gen_flatten ?f ks = (map (child_elem \<circ> short_name) ks, map elem_of (gen_paths ?f ks))"
    and "gen_flatten p os = (map (child_elem \<circ> short_name) os, map elem_of (gen_paths p os))"
    using 2 by simp_all
  ultimately show ?case by (simp only: gen_flatten.simps gen_paths.simps Let_def prod.case) (simp add: short_name_def elem_of_def)
qed simp

lemma DeepClone_id [simp]: "DeepClone k = k"
  by (induction k) (simp add: map_idI)

text \<open>Three kinds of objects, the indices of siblings distinct.\<close>

definition gen_kinds :: "(string \<times> string) set" where
  "gen_kinds = {(''node'', ''Node''), (''socket'', ''Socket''), (''core'', ''Core'')}"

fun obj_fit :: "gobj \<Rightarrow> bool" where
  "obj_fit (GObj nm ty i ks) \<longleftrightarrow> (nm, ty) \<in> gen_kinds \<and> distinct (map go_index ks) \<and> (\<forall>k\<in>set ks. obj_fit k)"

definition objs_fit :: "gobj list \<Rightarrow> bool" where
  "objs_fit ks \<longleftrightarrow> distinct (map go_index ks) \<and> (\<forall>k\<in>set ks. obj_fit k)"

lemma obj_fit_iff: "obj_fit k \<longleftrightarrow> (go_name k, go_type k) \<in> gen_kinds \<and> objs_fit (go_kids k)"
  by (cases k) (simp add: objs_fit_def)

lemma gen_type_kinds: "gen_type e = Some x \<Longrightarrow> x \<in> gen_kinds"
  by (auto simp: gen_type_def gen_kinds_def split: xnode.splits if_splits)

lemma gen_translate_fit:
  "gen_translate e i = (os, j) \<Longrightarrow> i \<le> j \<and> map go_index os = [i..<j] \<and> (\<forall>k\<in>set os. obj_fit k)"
  "gen_objects es i = (os, j) \<Longrightarrow> i \<le> j \<and> map go_index os = [i..<j] \<and> (\<forall>k\<in>set os. obj_fit k)"
proof (induction e i and es i arbitrary: os j and os j rule: gen_translate_gen_objects.induct)
  case (4 e es i)
  show ?case
  proof (cases "is_object e")
    case False
    then show ?thesis using 4 by simp
  next
    case True
    show ?thesis
    proof (cases "gen_type e")
      case None
      obtain ks a where k: "gen_translate e i = (ks, a)" by fastforce
      obtain qs where q: "gen_objects es a = (qs, j)" "os = ks @ qs"
        using 4(6) True None k by (auto split: prod.splits)
      have "i \<le> a \<and> map go_index ks = [i..<a] \<and> (\<forall>k\<in>set ks. obj_fit k)" using 4(2) True None k by simp
      moreover have "a \<le> j \<and> map go_index qs = [a..<j] \<and> (\<forall>k\<in>set qs. obj_fit k)" using 4(3) True None k q(1) by simp
      ultimately show ?thesis using q(2) upt_add_eq_append [of i a "j - a"] by auto
    next
      case (Some x)
      obtain nm ty where x: "x = (nm, ty)" by fastforce
      obtain ks a where k: "gen_translate e 0 = (ks, a)" by fastforce
      obtain qs where q: "gen_objects es (Suc i) = (qs, j)" "os = GObj nm ty i ks # qs"
        using 4(6) True Some x k by (auto split: prod.splits)
      have a: "map go_index ks = [0..<a] \<and> (\<forall>k\<in>set ks. obj_fit k)" using 4(4) True Some x k by simp
      have b: "Suc i \<le> j \<and> map go_index qs = [Suc i..<j] \<and> (\<forall>k\<in>set qs. obj_fit k)" using 4(5) True Some x k q(1) by simp
      have "distinct (map go_index ks)" using a by simp
      moreover have "[i..<j] = i # [Suc i..<j]" using b by (simp add: upt_rec)
      ultimately show ?thesis using a b q(2) gen_type_kinds [OF Some] x by simp
    qed
  qed
qed simp_all

subsection \<open>Distinct names\<close>

declare show_nat_inject [simp]

lemma kind_chars: "(nm, ty) \<in> gen_kinds \<Longrightarrow> c \<in> set nm \<Longrightarrow> \<not> is_digit c \<and> c \<noteq> CHR ''.''"
  by (auto simp: gen_kinds_def is_digit_def char_code_def)

lemma no_dot_digit: "is_digit c \<Longrightarrow> c \<noteq> CHR ''.''"
  by (auto simp: is_digit_def char_code_def)

lemma short_no_dot: "obj_fit k \<Longrightarrow> CHR ''.'' \<notin> set (short_name k)"
  using kind_chars [of "go_name k" "go_type k"] no_dot_digit show_nat_digits [of "go_index k"]
  by (auto simp: short_name_def obj_fit_iff)

lemma short_inject:
  assumes "short_name k = short_name l" and "obj_fit k" and "obj_fit l"
  shows "go_index k = go_index l"
proof -
  have "dropWhile (\<lambda>c. \<not> is_digit c) (short_name m) = show_nat (go_index m)" if "obj_fit m" for m
  proof -
    have "dropWhile (\<lambda>c. \<not> is_digit c) (short_name m) = dropWhile (\<lambda>c. \<not> is_digit c) (show_nat (go_index m))"
      using that kind_chars by (auto simp: short_name_def obj_fit_iff intro!: dropWhile_append2)
    also have "\<dots> = show_nat (go_index m)" using hd_show_nat [of "go_index m"] by (cases "show_nat (go_index m)") simp_all
    finally show ?thesis .
  qed
  with assms have "show_nat (go_index k) = show_nat (go_index l)" by metis
  then show ?thesis by simp
qed

lemma first_part:
  assumes "s @ t = s' @ t'" and "CHR ''.'' \<notin> set s" and "CHR ''.'' \<notin> set s'"
    and "t = [] \<or> hd t = CHR ''.''" and "t' = [] \<or> hd t' = CHR ''.''"
  shows "s = s'"
proof -
  have p: "takeWhile (\<lambda>c. c \<noteq> CHR ''.'') (s @ t) = s" if "CHR ''.'' \<notin> set s" "t = [] \<or> hd t = CHR ''.''" for s t
    using that by (cases t) (auto simp: takeWhile_tail)
  show ?thesis using p [OF assms(2,4)] p [OF assms(3,5)] assms(1) by simp
qed

lemma gen_paths_form:
  "po \<in> set (gen_paths p os) \<Longrightarrow> \<exists>k\<in>set os. \<exists>t. fst po = p @ dot @ short_name k @ t \<and> (t = [] \<or> hd t = CHR ''.'')"
proof (induction p os rule: gen_paths.induct)
  case (2 p nm ty i ks os)
  let ?k = "GObj nm ty i ks"
  have s: "short_name ?k = nm @ show_nat i" by (simp add: short_name_def)
  from "2.prems" consider "po = (p @ dot @ nm @ show_nat i, ?k)" | "po \<in> set (gen_paths (p @ dot @ nm @ show_nat i) ks)"
    | "po \<in> set (gen_paths p os)" by auto
  then show ?case
  proof cases
    case 1
    then show ?thesis using s by (intro bexI [of _ ?k]) auto
  next
    case 2
    with "2.IH"(1) obtain l t where "fst po = (p @ dot @ nm @ show_nat i) @ dot @ short_name l @ t" by blast
    then have "fst po = p @ dot @ short_name ?k @ (dot @ short_name l @ t)" and "hd (dot @ short_name l @ t) = CHR ''.''"
      using s by (simp_all add: dot_def)
    then show ?thesis by (meson list.set_intros(1))
  next
    case 3
    with "2.IH"(2) show ?thesis by (meson list.set_intros(2))
  qed
qed simp

lemma gen_paths_distinct: "objs_fit os \<Longrightarrow> distinct (map fst (gen_paths p os))"
proof (induction p os rule: gen_paths.induct)
  case (2 p nm ty i ks os)
  let ?k = "GObj nm ty i ks" and ?f = "p @ dot @ nm @ show_nat i"
  have s: "short_name ?k = nm @ show_nat i" by (simp add: short_name_def)
  have fit: "obj_fit ?k" "objs_fit ks" "objs_fit os" "\<forall>l\<in>set os. obj_fit l \<and> go_index l \<noteq> i"
    using "2.prems" by (auto simp: objs_fit_def)
  have other: "fst po \<noteq> ?f @ t" if po: "po \<in> set (gen_paths p os)" and t: "t = [] \<or> hd t = CHR ''.''" for po t
  proof
    assume "fst po = ?f @ t"
    moreover from gen_paths_form [OF po] obtain l u where l: "l \<in> set os" "fst po = p @ dot @ short_name l @ u" "u = [] \<or> hd u = CHR ''.''"
      by blast
    ultimately have e: "short_name ?k @ t = short_name l @ u" using s by simp
    have "obj_fit l" using l(1) fit(4) by blast
    from first_part [OF e short_no_dot [OF fit(1)] short_no_dot [OF this] t l(3)] short_inject [OF _ fit(1) this]
    have "go_index l = i" by simp
    then show False using l(1) fit(4) by blast
  qed
  have below: "\<exists>t. fst po = ?f @ t \<and> t \<noteq> [] \<and> hd t = CHR ''.''" if "po \<in> set (gen_paths ?f ks)" for po
    using gen_paths_form [OF that] by (auto simp: dot_def)
  have "?f \<notin> fst ` set (gen_paths ?f ks)" using below by fastforce
  moreover have "?f \<notin> fst ` set (gen_paths p os)" using other [of _ "[]"] by force
  moreover have "fst ` set (gen_paths ?f ks) \<inter> fst ` set (gen_paths p os) = {}"
  proof -
    have False if "x \<in> set (gen_paths ?f ks)" "y \<in> set (gen_paths p os)" "fst x = fst y" for x y
      using below [OF that(1)] other [OF that(2)] that(3) by metis
    then show ?thesis by (fastforce simp: disjoint_iff)
  qed
  moreover have "distinct (map fst (gen_paths ?f ks))" and "distinct (map fst (gen_paths p os))" using "2.IH" fit by simp_all
  ultimately show ?case by (simp del: append_assoc)
qed simp

lemma gen_paths_top: "k \<in> set os \<Longrightarrow> (p @ dot @ short_name k, k) \<in> set (gen_paths p os)"
  by (induction p os rule: gen_paths.induct) (auto simp: short_name_def)

lemma gen_paths_child:
  "(q, k) \<in> set (gen_paths p os) \<Longrightarrow> l \<in> set (go_kids k) \<Longrightarrow> (q @ dot @ short_name l, l) \<in> set (gen_paths p os)"
proof (induction p os rule: gen_paths.induct)
  case (2 p nm ty i ks os)
  then show ?case using gen_paths_top [of l ks "p @ dot @ nm @ show_nat i"] by auto
qed simp

lemma gen_paths_parent:
  "(q, k) \<in> set (gen_paths p os) \<Longrightarrow> objs_fit os \<Longrightarrow>
   obj_fit k \<and> (\<exists>q'. q = q' @ dot @ short_name k \<and> (q' = p \<or> q' \<in> fst ` set (gen_paths p os)))"
proof (induction p os rule: gen_paths.induct)
  case (2 p nm ty i ks os)
  let ?f = "p @ dot @ nm @ show_nat i"
  have fit: "obj_fit (GObj nm ty i ks)" "objs_fit ks" "objs_fit os" using "2.prems"(2) by (auto simp: objs_fit_def)
  from "2.prems"(1) consider "q = ?f" "k = GObj nm ty i ks" | "(q, k) \<in> set (gen_paths ?f ks)" | "(q, k) \<in> set (gen_paths p os)" by auto
  then show ?case
  proof cases
    case 1
    then show ?thesis using fit(1) by (simp add: short_name_def)
  next
    case 2
    from "2.IH"(1) [OF this fit(2)] show ?thesis by auto
  next
    case 3
    from "2.IH"(2) [OF this fit(3)] show ?thesis by auto
  qed
qed simp

subsection \<open>Reading the configuration back\<close>

definition gen_sys :: "gobj list \<Rightarrow> xnode list" where
  "gen_sys ks = xKids (hd (gen_doc ks))"

definition gen_all :: "gobj list \<Rightarrow> (string \<times> gobj) list" where
  "gen_all ks = (''plat'', GObj ''plat'' ''Platform'' 0 ks) # gen_paths ''plat'' ks"

definition gen_short :: "gobj list \<Rightarrow> bool" where
  "gen_short ks \<longleftrightarrow> (\<forall>po\<in>set (gen_paths ''plat'' ks). length (fst po) < 256)"

lemma gen_objects_list: "gen_short ks \<Longrightarrow> xml_objects (gen_sys ks) = map elem_of (gen_all ks)"
  using gen_flatten_spec [of "''plat''" ks]
  by (simp add: gen_short_def gen_sys_def gen_doc_def gen_all_def xml_findNodes1stChild_def elem_of_def)

lemma elem_of_simps [simp]:
  "xNeed (elem_of (p, k)) ''name'' = Inr p" "xNeed (elem_of (p, k)) ''type'' = Inr (go_type k)"
  "xml_section (elem_of (p, k)) ''children'' = map (child_elem \<circ> short_name) (go_kids k)"
  "xml_section (elem_of (p, k)) ''devices'' = []" "xml_section (elem_of (p, k)) ''attributes'' = []"
  "xName (child_elem n) = ''child''" "xNeed (child_elem n) ''name'' = Inr n"
  by (simp_all add: elem_of_def obj_elem_def child_elem_def xNeed_def xml_findNodes1stChild_def)

lemma elem_of_has [simp]:
  "xHas (elem_of (p, k)) ''name''" "xHas (elem_of (p, k)) ''type''" "xVal (elem_of (p, k)) ''name'' = p"
  "xHas (child_elem n) ''name''" "xVal (child_elem n) ''name'' = n"
  by (simp_all add: elem_of_def obj_elem_def child_elem_def)

lemma gen_names: "gen_short ks \<Longrightarrow> object_names (gen_sys ks) = map fst (gen_all ks)"
proof -
  have "concat (map (\<lambda>e. case xNeed e ''name'' of Inl _ \<Rightarrow> [] | Inr n \<Rightarrow> [n]) (map elem_of pks)) = map fst pks" for pks
    by (induction pks) auto
  then show "gen_short ks \<Longrightarrow> object_names (gen_sys ks) = map fst (gen_all ks)"
    by (simp only: object_names_def gen_objects_list)
qed

lemma gen_all_distinct: "objs_fit ks \<Longrightarrow> distinct (map fst (gen_all ks))"
proof -
  assume f: "objs_fit ks"
  have "''plat'' \<notin> fst ` set (gen_paths ''plat'' ks)" using gen_paths_form [of _ "''plat''" ks] by (fastforce simp: dot_def)
  then show ?thesis using gen_paths_distinct [OF f] by (simp add: gen_all_def)
qed

lemma gen_find:
  assumes "distinct (map fst pks)" and "(p, k) \<in> set pks"
  shows "xml_with_attr (map elem_of pks) ''name'' p = Inr (Some (elem_of (p, k)))"
  using assms by (induction pks) (auto simp: image_iff intro: rev_bexI)

lemma gen_all_cases:
  assumes "(p, k) \<in> set (gen_all ks)" and "objs_fit ks"
  shows "(\<forall>l\<in>set (go_kids k). (p @ dot @ short_name l, l) \<in> set (gen_all ks) \<and> obj_fit l) \<and>
    (xml_findParent p = [] \<or> xml_findParent p \<in> fst ` set (gen_all ks))"
proof (cases "(p, k) \<in> set (gen_paths ''plat'' ks)")
  case True
  from gen_paths_parent [OF True assms(2)] obtain q where q: "obj_fit k" "p = q @ dot @ short_name k"
    "q = ''plat'' \<or> q \<in> fst ` set (gen_paths ''plat'' ks)" by blast
  have "xml_findParent p = q" using findParent_child [OF short_no_dot [OF q(1)]] q(2) by simp
  moreover have "obj_fit l" if "l \<in> set (go_kids k)" for l using q(1) that by (auto simp: obj_fit_iff [of k] objs_fit_def)
  ultimately show ?thesis using gen_paths_child [OF True] q(3) by (auto simp: gen_all_def)
next
  case False
  then have "p = ''plat''" "go_kids k = ks" using assms(1) by (auto simp: gen_all_def)
  then show ?thesis using gen_paths_top [of _ ks "''plat''"] assms(2) by (auto simp: gen_all_def objs_fit_def xml_findParent_def)
qed

lemma gen_children:
  "xml_each ''child'' (\<lambda>e. rbind (xNeed e ''name'') (\<lambda>n. Inr [p @ dot @ n])) (map (child_elem \<circ> short_name) ls) =
   Inr (map (\<lambda>l. p @ dot @ short_name l) ls)"
  by (induction ls) (simp_all add: c_assert_def)

lemma gen_lookups:
  assumes "gen_short ks" and "objs_fit ks" and "(p, k) \<in> set (gen_all ks)"
  shows "xml_objType (gen_sys ks) p = Inr (xml_objTypeStrToInt (go_type k))"
    and "xml_findChildren (gen_sys ks) p = Inr (map (\<lambda>l. p @ dot @ short_name l) (go_kids k))"
proof -
  have "xml_findObject (gen_sys ks) p = Inr (Some (elem_of (p, k)))"
    using gen_find [OF gen_all_distinct [OF assms(2)] assms(3)] by (simp add: xml_findObject_def gen_objects_list [OF assms(1)])
  then show "xml_objType (gen_sys ks) p = Inr (xml_objTypeStrToInt (go_type k))"
    and "xml_findChildren (gen_sys ks) p = Inr (map (\<lambda>l. p @ dot @ short_name l) (go_kids k))"
    by (simp_all add: xml_objType_def xml_getType_def xml_findChildren_def need_obj_def gen_children)
qed

lemma gen_xml_ok: "gen_short ks \<Longrightarrow> objs_fit ks \<Longrightarrow> xml_ok (gen_sys ks)"
proof -
  assume a: "gen_short ks" "objs_fit ks"
  have "obj_ok (gen_sys ks) (elem_of (p, k))" if "(p, k) \<in> set (gen_all ks)" for p k
    using gen_all_cases [OF that a(2)] by (force simp: obj_ok_def gen_names [OF a(1)] short_no_dot Let_def)
  then show ?thesis by (auto simp: xml_ok_def gen_objects_list [OF a(1)])
qed

text \<open>Copying the node keeps siblings apart when there is one node to start with.\<close>

lemma gen_tree_fit:
  assumes "gen_tree (Some e) n = Inr ks" and "n \<le> 1 \<or> length (fst (gen_translate e 0)) = 1"
  shows "objs_fit ks"
proof -
  obtain os j where g: "gen_translate e 0 = (os, j)" by fastforce
  from gen_translate_fit(1) [OF g] have f: "map go_index os = [0..<j]" "\<forall>k\<in>set os. obj_fit k" by simp_all
  show ?thesis
  proof (cases "n \<le> 1")
    case True
    then show ?thesis using assms(1) f g by (simp add: gen_tree_def gen_duplicate_def objs_fit_def)
  next
    case False
    then obtain k where k: "os = [k]" using assms(2) g by (auto simp: length_Suc_conv)
    then have i: "[go_index k] = [0..<j]" using f(1) by simp
    from arg_cong [OF i, of length] have "j = Suc 0" by simp
    then have "go_index k = 0" using i by simp
    moreover have "obj_fit (with_index k i)" for i using f(2) k by (simp add: with_index_def obj_fit_iff [of k] objs_fit_def)
    ultimately show ?thesis
      using assms(1) False g k f(2) by (auto simp: gen_tree_def gen_duplicate_def objs_fit_def with_index_def comp_def)
  qed
qed

text \<open>
  C16.  What \<^verbatim>\<open>pwrgen\<close> writes, the library reads: the document is one on which every look-up returns, the names of the objects are
  distinct, and every object of the tree it made is found under its name, with its type, and with exactly its children in the tree,
  of which it is the parent.
\<close>

theorem generated_config_read_back:
  assumes "gen_main lstopo load save opts = Inr (0, Some (f, doc))" and "gen_opts opts (''hwloc.xml'', 0) = Some (f, n)"
    and "gen_tree (load f) n = Inr ks" and "gen_short ks" and "n \<le> 1 \<or> (\<forall>e. load f = Some e \<longrightarrow> length (fst (gen_translate e 0)) = 1)"
  shows "\<exists>sys. xml_new doc = Inr sys \<and> xml_ok sys \<and> object_names sys = map fst (gen_all ks) \<and> distinct (object_names sys) \<and>
    (\<forall>(p, k)\<in>set (gen_all ks). xml_objType sys p = Inr (xml_objTypeStrToInt (go_type k)) \<and>
       xml_findChildren sys p = Inr (map (\<lambda>l. p @ dot @ short_name l) (go_kids k)) \<and>
       (\<forall>l\<in>set (go_kids k). (p @ dot @ short_name l, l) \<in> set (gen_all ks) \<and> xml_findParent (p @ dot @ short_name l) = p))"
proof -
  have d: "doc = gen_doc ks" using assms(1-3) by (auto simp: gen_main_def split: if_splits)
  have fit: "objs_fit ks" using assms(3,5) gen_tree_fit by (cases "load f") (auto simp: gen_tree_def)
  have "xml_new doc = Inr (gen_sys ks)" unfolding d by (simp add: gen_sys_def gen_doc_def xml_new_def need_obj_def split: prod.splits)
  moreover note gen_xml_ok [OF assms(4) fit] gen_names [OF assms(4)] gen_all_distinct [OF fit] gen_lookups [OF assms(4) fit]
  moreover have "(p @ dot @ short_name l, l) \<in> set (gen_all ks) \<and> xml_findParent (p @ dot @ short_name l) = p"
    if "(p, k) \<in> set (gen_all ks)" "l \<in> set (go_kids k)" for p k l
    using gen_all_cases [OF that(1) fit] that(2) findParent_child [OF short_no_dot] by auto
  ultimately show ?thesis by (intro exI [of _ "gen_sys ks"]) auto
qed

text \<open>A machine with two sockets below memory nodes, of two cores and one, copied once.\<close>

definition hw_elem :: "string \<Rightarrow> xnode list \<Rightarrow> xnode" where
  "hw_elem ty cs = XElem ''object'' [(''type'', ty)] cs"

definition hw_demo :: xnode where
  "hw_demo = XElem ''topology'' [] [hw_elem ''Machine''
     [hw_elem ''NUMANode'' [hw_elem ''Socket'' [hw_elem ''Core'' [], hw_elem ''Core'' []]], hw_elem ''NUMANode'' [hw_elem ''Socket'' [hw_elem ''Core'' []]]]]"

definition demo_node :: "nat \<Rightarrow> gobj" where
  "demo_node i = GObj ''node'' ''Node'' i
     [GObj ''socket'' ''Socket'' 0 [GObj ''core'' ''Core'' 0 [], GObj ''core'' ''Core'' 1 []], GObj ''socket'' ''Socket'' 1 [GObj ''core'' ''Core'' 0 []]]"

lemma hw_demo_tree: "fst (gen_translate hw_demo 0) = [demo_node 0]" "gen_tree (Some hw_demo) 2 = Inr [demo_node 0, demo_node 1]"
  by (simp_all add: hw_demo_def hw_elem_def demo_node_def gen_tree_def gen_duplicate_def with_index_def is_object_def gen_type_def upt_rec)

lemma hw_demo_short: "gen_short [demo_node 0, demo_node 1]"
  unfolding gen_short_def demo_node_def by code_simp

lemma atoi_two: "atoi ''2'' = 2"
  by code_simp

lemma gen_demo_opts: "gen_opts [Gen_Nodes ''2''] (''hwloc.xml'', 0) = Some (''hwloc.xml'', 2)"
  by code_simp

theorem generated_config_read_back_witness:
  "\<exists>doc sys. gen_main (\<lambda>_. 0) (\<lambda>_. Some hw_demo) (\<lambda>_. 0) [Gen_Nodes ''2''] = Inr (0, Some (''hwloc.xml'', doc)) \<and> xml_new doc = Inr sys \<and>
     xml_findChildren sys ''plat.node1'' = Inr [''plat.node1.socket0'', ''plat.node1.socket1''] \<and>
     xml_objType sys ''plat.node1'' = Inr (Some OBJ_NODE)"
proof -
  have m: "gen_main (\<lambda>_. 0) (\<lambda>_. Some hw_demo) (\<lambda>_. 0) [Gen_Nodes ''2''] = Inr (0, Some (''hwloc.xml'', gen_doc [demo_node 0, demo_node 1]))"
    by (simp add: gen_main_def atoi_two hw_demo_tree del: One_nat_def)
  from generated_config_read_back [OF m gen_demo_opts hw_demo_tree(2) hw_demo_short] hw_demo_tree(1)
  obtain sys where s: "xml_new (gen_doc [demo_node 0, demo_node 1]) = Inr sys"
    "\<forall>(p, k)\<in>set (gen_all [demo_node 0, demo_node 1]). xml_objType sys p = Inr (xml_objTypeStrToInt (go_type k)) \<and>
       xml_findChildren sys p = Inr (map (\<lambda>l. p @ dot @ short_name l) (go_kids k)) \<and>
       (\<forall>l\<in>set (go_kids k). (p @ dot @ short_name l, l) \<in> set (gen_all [demo_node 0, demo_node 1]) \<and> xml_findParent (p @ dot @ short_name l) = p)"
    by auto
  have d: "show_nat 0 = ''0''" "show_nat (Suc 0) = ''1''" by code_simp+
  have "(''plat.node1'', demo_node 1) \<in> set (gen_all [demo_node 0, demo_node 1])"
    by (simp add: gen_all_def demo_node_def dot_def d)
  from s(2) [rule_format, OF this] have
    "xml_findChildren sys ''plat.node1'' = Inr [''plat.node1.socket0'', ''plat.node1.socket1'']"
    "xml_objType sys ''plat.node1'' = Inr (Some OBJ_NODE)"
    by (simp_all add: demo_node_def short_name_def dot_def d xml_objTypeStrToInt_def)
  then show ?thesis using m s(1) by blast
qed

end
