(* ===== verification/Spec2Isabelle.thy ===== *)
theory Spec2Isabelle
  imports Pwr_Prelude C_Lib C_Float C_Scanf Pwr_Types Plugin_Iface Counter_File Cpu_Ident Pmc_Dev Xtpm_Dev Cpu_Dev Rapl_Dev Powercap_Dev Apm_Dev Toilet_Dev Tx2mon_Dev Dummy_Dev Pwr_Object Pwr_Dist Pwr_Context Pwr_Events Pwr_Server Pwr_Router Pwr_Stat Pwr_Hint Pwr_Config Xml_Config Hwloc_Config Wu_Dev Ipmi_Dev Cac_Dev Powermetrics_Dev Pi_Dev Pg_Dev Piapi_Dev Mic_Dev Tcp_Channel Daemon_Config Pwr_Api Daemon_Launch Daemon_Runtime Daemon_Logger Python_Config Pwr_Tools Pwr_Gen
begin

text \<open>
  A model of the Power API reference implementation: the device plugins, the framework that aggregates
  them into a tree of objects, the distributed calls between contexts, and the daemon that routes them.

  \<^bold>\<open>The program.\<close>  An application opens a context (\<^verbatim>\<open>src/src/pwr\<close>, C++): a tree of objects (platform,
  node, socket, core, memory, ..) with attributes (power, energy, frequency, ..).  Every attribute of
  an object is served by devices, shared objects under \<^verbatim>\<open>src/src/plugins\<close> (C) that export
  an operation table (open, close, read, write, array reads and writes, time, logging) and a
  description (which objects and attributes they serve, how to open them), and possibly by a remote part.  The
  context looks an attribute up in the configuration, opens the devices of the object and of those
  below it, and reads them through the wrapper class \<^verbatim>\<open>Device\<close>, combining the values with the operation
  the configuration gives.  The remote part is asked by sending an event through a channel to the
  router of the daemon (\<^verbatim>\<open>src/tools/pwrdaemon\<close>), which passes it to the servers of the objects (contexts
  of their own that answer with non-blocking calls), joins their answers and sends one back.

  \<^bold>\<open>The theories.\<close>
  \<^item> \<open>Pwr_Prelude\<close>: results of functions that may not return (\<open>'a res\<close>), array accesses.
  \<^item> \<open>C_Lib\<close>, \<open>C_Float\<close>, \<open>C_Scanf\<close>: the C library and system calls the program uses, on strings as lists of
    characters: number conversions in both directions, \<^verbatim>\<open>strtok\<close>, \<^verbatim>\<open>strstr\<close>, files, the clock, with
    the round trips of printing and scanning.
  \<^item> \<open>Pwr_Types\<close>: \<^verbatim>\<open>pwrtypes.h\<close> and the name tables of \<^verbatim>\<open>util.h\<close>.
  \<^item> \<open>Plugin_Iface\<close>: \<^verbatim>\<open>pwrdev.h\<close>, \<^verbatim>\<open>device.h\<close>, \<^verbatim>\<open>pluginMeta.h\<close>: the operation table as a record, the
    array loops all plugins share, and what the framework relies on as locales: \<open>attr_reader\<close> (a
    read returns 0 or -1 and changes no file), \<open>careful_reader\<close> (a failed read leaves the caller's
    buffers), \<open>attr_writer\<close>, \<open>meta_table\<close> (a description announces as many entries as it writes).  The
    client's facts about array reads and description loading are proved inside the locales, once.
  \<^item> \<open>Counter_File\<close>: the character-wise scan of a counter file that three plugins share.
  \<^item> \<open>Cpu_Ident\<close>: the scan of \<^verbatim>\<open>/proc/cpuinfo\<close> that two plugins share, with the vendor, family and models
    as parameters.
  \<^item> One theory per plugin: \<open>Pmc_Dev\<close> (\<^verbatim>\<open>pwr_pmcdev.c\<close>), \<open>Xtpm_Dev\<close> (\<^verbatim>\<open>pwr_xtpmdev.c\<close>), \<open>Cpu_Dev\<close>
    (\<^verbatim>\<open>pwr_cpudev.c\<close>), \<open>Rapl_Dev\<close> (\<^verbatim>\<open>pwr_rapldev.c\<close>), \<open>Powercap_Dev\<close> (\<^verbatim>\<open>pwr_powercap.c\<close>), \<open>Apm_Dev\<close>
    (\<^verbatim>\<open>pwr_apmdev.c\<close>), \<open>Toilet_Dev\<close> (\<^verbatim>\<open>pwr_toiletdev.c\<close>), \<open>Tx2mon_Dev\<close> (\<^verbatim>\<open>pwr_tx2mon.c\<close>), \<open>Dummy_Dev\<close> (\<^verbatim>\<open>dummy_dev.c\<close>),
    \<open>Wu_Dev\<close> (\<^verbatim>\<open>pwr_wudev.c\<close>), \<open>Ipmi_Dev\<close> (\<^verbatim>\<open>pwr_ipmi.c\<close>), \<open>Cac_Dev\<close> (\<^verbatim>\<open>pwr_cacdev.c\<close>), \<open>Powermetrics_Dev\<close>
    (\<^verbatim>\<open>pwr_powermetrics.c\<close>), \<open>Pi_Dev\<close> (\<^verbatim>\<open>pwr_pidev.c\<close>), \<open>Pg_Dev\<close> (\<^verbatim>\<open>pwr_pgdev.c\<close>), \<open>Piapi_Dev\<close> (\<^verbatim>\<open>pwr_piapidev.c\<close>), \<open>Mic_Dev\<close> (\<^verbatim>\<open>pwr_micdev.c\<close>).  The last four
    call libraries of vendors, which are records of functions over a state of their own.  Each keeps the
    names of the C functions, gives the device and descriptor structures as records, every
    operation with its guards and early returns, the operation table and the description, and
    interprets the locales of \<open>Plugin_Iface\<close> on its own operations.
  \<^item> \<open>Pwr_Object\<close> (\<^verbatim>\<open>object.cc\<close>, \<^verbatim>\<open>attrInfo.h\<close>, \<^verbatim>\<open>status.h\<close>): reading, writing, logging and sampling the
    attributes of an object over a list of operation tables; what is combined, where an array call
    stops, what has been written when it fails.  \<open>nth_dev\<close> gives several descriptors one state.
  \<^item> \<open>Pwr_Dist\<close> (\<^verbatim>\<open>distObject.cc\<close>, \<^verbatim>\<open>distGroup.cc\<close>, \<^verbatim>\<open>distRequest.cc\<close>, \<^verbatim>\<open>distComm.cc\<close>, \<^verbatim>\<open>group.h\<close>): the blocking
    distributed calls and groups.  The connection is a record (\<open>net\<close>) with the messages sent and the list
    of answers still to come; on objects without a remote part the calls are those of \<open>Pwr_Object\<close>.
  \<^item> \<open>Pwr_Context\<close> (\<^verbatim>\<open>distCntxt.cc\<close>, \<^verbatim>\<open>cntxt.cc\<close>): loading plugins, initialising and opening devices once, the
    walk over the configured tree, objects, children and groups by type.  The walk refines an abstract
    tree of devices (\<open>tree_devs\<close>).
  \<^item> \<open>Pwr_Events\<close> (\<^verbatim>\<open>serialize.h\<close>, \<^verbatim>\<open>events.h\<close>, \<^verbatim>\<open>tcpEventChannel.cc\<close>): the encoding of every event and of messages on a stream.
  \<^item> \<open>Pwr_Server\<close> (\<^verbatim>\<open>pwrdaemon/server\<close>): the handlers of the server and the non-blocking calls behind them.
  \<^item> \<open>Pwr_Router\<close> (\<^verbatim>\<open>pwrdaemon/router\<close>): addresses, routes, pending events, requests in progress, joining
    answers; an inductive step relation of its events with an invariant of all reachable states; the
    composition of a client's call, router and servers.
  \<^item> \<open>Pwr_Stat\<close> (\<^verbatim>\<open>stat.h\<close>, \<^verbatim>\<open>deviceStat.cc\<close>, the creation in \<^verbatim>\<open>cntxt.cc\<close>): statistics over logged samples.
  \<^item> \<open>Pwr_Hint\<close> (\<^verbatim>\<open>pwr.cc\<close>): the hints of an application on its regions, followed down to the files the
    toilet plugin writes.

  \<^item> \<open>Pwr_Config\<close> (\<^verbatim>\<open>config.h\<close>): what the context relies on in a configuration, the locale \<open>dotted_config\<close> (a child is named after
    its parent); inside it the walks of the context are shown to return.
  \<^item> \<open>Xml_Config\<close> (\<^verbatim>\<open>xmlConfig.cc\<close>): the lookups in an XML document, over the tree the parser makes.
  \<^item> \<open>Hwloc_Config\<close> (\<^verbatim>\<open>hwlocConfig.cc\<close>): the tree of objects made from the topology of a machine and the descriptions of
    plugins, and its lookups; both readers interpret \<open>dotted_config\<close>.
  \<^item> \<open>Python_Config\<close> (\<^verbatim>\<open>pythonConfig.cc\<close>): the reader of Python modules over a heap of interpreter objects with reference counts.
  \<^item> \<open>Pwr_Gen\<close> (\<^verbatim>\<open>src/tools/pwrgen.cc\<close>): the tool that makes an XML configuration of a machine's topology; what it writes is
    read back through \<open>Xml_Config\<close>.
  \<^item> \<open>Pwr_Api\<close> (\<^verbatim>\<open>pwr.cc\<close>, \<^verbatim>\<open>distCntxt.cc\<close>, \<^verbatim>\<open>cntxt.cc\<close>): the entry points of the library over one state (\<open>lib\<close>: the context, the
    groups by their address, the state of the devices, the connection): how a context is made from the environment, what
    every call does to it (\<open>lib_step\<close>), groups, children, groups by type, and the order in which it is taken down.
  \<^item> \<open>Pwr_Tools\<close> (\<^verbatim>\<open>src/tools\<close>): the command-line tools as clients of the library; the two that list objects are shown to print
    the tree of the configuration.  A bound on their recursion is a parameter (\<open>d\<close>, \<open>n\<close>); running out of it is \<open>Diverges\<close>, or for the
    loops that may run forever a process that has not ended.
  \<^item> \<open>Tcp_Channel\<close> (\<^verbatim>\<open>tcpEventChannel.cc\<close>): the description of a channel, connecting with its retries, the select loop.
  \<^item> \<open>Daemon_Config\<close> (\<^verbatim>\<open>router.cc\<close>, \<^verbatim>\<open>treeCore.cc\<close>, \<^verbatim>\<open>torusCore.cc\<close>, \<^verbatim>\<open>routerSelect.cc\<close>): options, route file and topology of a
    router, its start, and its loop over the channels, which refines the step relation of \<open>Pwr_Router\<close>.
  \<^item> \<open>Daemon_Launch\<close> (\<^verbatim>\<open>pwrdaemon.cc\<close>, \<^verbatim>\<open>server.cc\<close>, \<^verbatim>\<open>server.h\<close>): which arguments each component gets, the start of the threads one
    after the other as an inductive step relation, the start of a server on its context, and its loop.
  \<^item> \<open>Daemon_Runtime\<close> (\<^verbatim>\<open>powerrt.cc\<close>): the start of the daemon on every node of an MPI job; the numbers the ranks gather, the script
    and the processes are parameters.
  \<^item> \<open>Daemon_Logger\<close> (\<^verbatim>\<open>pwrdaemon/logger\<close>): the logger as a client of \<open>Pwr_Api\<close>; its endless loops are run for a number of turns.

  \<^bold>\<open>State.\<close>  An operation takes the pair of its descriptor and the world (\<open>os\<close>: files, what the kernel does
  with written bytes, the log of writes, open descriptors, the clock, machine registers) and returns
  the new pair.  Where descriptors alias (\<open>Tx2mon_Dev\<close>) they live in an explicit store, and the sampling
  thread is one more step of an inductive step relation; its turns are taken to be atomic.  A caller's
  8-byte buffer is a \<open>cell\<close> that remembers what it was last written as, so that uses of unset buffers show.

  \<^bold>\<open>Results.\<close>  \<open>Inl\<close> is an execution that does not return (failed assertion, exit, access outside an
  object, use of an unset variable, double free, endless loop), \<open>Inr\<close> the returned status and the
  state.  Functions that return a null pointer or fail softly return an option.

  \<^bold>\<open>What the lemmas show.\<close>  For each plugin: the values a read returns in terms of the files or registers
  (decoding of bit fields, energy as differences of counters, integration of power over time), round
  trips of writes and reads and of open strings, what initialisation establishes, preservation of the
  descriptor table under every interleaving, and the contracts of array reads.  For the framework: what a read
  combines, where errors stop it and where they are lost, equivalence of distributed and plain calls on local objects,
  refinement of the configured tree, round trips of events, that the router answers every request once with
  the joined values, what an application's read or hint amounts to through all the layers, and what the life of a context and the start
  of the daemon keep: the order of closing, the order of starting, that nothing is answered twice and no request is lost.  A number of theorems state
  exactly where the code departs from what it seems to intend; they are listed as findings of the manifest.

  \<^bold>\<open>Loops.\<close>  Every loop is structural recursion or has a termination proof; the probing loop of
  \<open>Powercap_Dev\<close>, which may run forever, is a \<open>while_option\<close> whose divergence is the result \<open>Diverges\<close> and
  is characterised exactly.  The recursion of \<open>Pwr_Context\<close> over the configured tree (\<open>traverse\<close>,
  \<open>findAllObjType\<close>) takes a depth, and running out of it is \<open>Diverges\<close>; every depth above the rank of the object in a tree
  without cycles is enough and gives the same result.  The bound of the processor
  loop of \<open>Rapl_Dev\<close> is the code's own 512.  Loops that wait for other programs are over the list of what comes
  (\<open>Wu_Dev\<close>, \<open>Piapi_Dev\<close>; waiting on when nothing more comes is \<open>Diverges\<close>) or take a bound on their turns (\<open>Powermetrics_Dev\<close>).

  \<^bold>\<open>Limits.\<close>  \<^verbatim>\<open>double\<close> is \<open>real\<close>: rounding, infinities and NaN are not modelled (one NaN that matters is
  kept as bits).  The number of open descriptors, memory exhaustion and truncation of the fixed-size path
  buffers are not modelled: the paths the code builds are shorter than the buffers.  Text printed for
  debugging or errors is dropped, except where a debug argument has an effect (\<open>Cpu_Dev\<close>).  Code
  outside the repository is a parameter: \<^verbatim>\<open>setpci\<close> (\<open>Apm_Dev\<close>), the sensor region of the
  ThunderX2 driver (\<open>Tx2mon_Dev\<close>), the libraries of vendors, the topology hwloc finds, the tree of an XML document.
  What memory holds before it is first written is a trap when it is used, except in \<open>Powermetrics_Dev\<close>, which searches arrays before they are
  filled on every path: there the first contents are a parameter.
  The configuration is a record of functions (\<open>config\<close>), the order in which answers arrive is a list.
  Not modelled: the vendored XML parser, the Python interpreter and the modules it loads (parameters of \<open>Python_Config\<close>),
  the sockets themselves (what they deliver is a parameter), asynchronous client calls with callbacks, starting the program
  \<open>Powermetrics_Dev\<close> reads from, the Python binding, the tools \<^verbatim>\<open>nodePower.c\<close> and \<^verbatim>\<open>pwrsrv.cpp\<close> (the latter written against an older interface), the tests and examples.
\<close>

end
